(* ===== verification/Ssm_Prelude.thy ===== *)
theory Ssm_Prelude
  imports Main "HOL-Library.Word" "HOL-Library.List_Lexorder" "HOL-Library.Char_ord"
begin

text \<open>
  Shared vocabulary of the development: byte strings and machine words, the operations of
  Go's packages \<^verbatim>\<open>strings\<close>, \<^verbatim>\<open>encoding/binary\<close>, \<^verbatim>\<open>slices\<close> and \<^verbatim>\<open>sort\<close> that the modelled
  sources use, and the collections of facts that the component proofs draw on.

  A Go \<^verbatim>\<open>string\<close> is a sequence of bytes; it is modelled by the type \<open>string\<close>, whose
  characters are bytes, with the byte-wise lexicographic order that Go's comparison uses.
  A Go \<^verbatim>\<open>[]byte\<close> holding binary data is a list of 8-bit words.
\<close>

unbundle bit_operations_syntax

named_theorems go_string_defs \<open>definitions of the modelled string operations\<close>
named_theorems inventory_simps \<open>rewrite rules on inventory lookups\<close>
named_theorems ledger_intros \<open>introduction rules for ledger invariants\<close>

type_synonym byte = "8 word"
type_synonym bytes = "byte list"
type_synonym uint64 = "64 word"

abbreviation max_uint64 :: uint64 where
  "max_uint64 \<equiv> - 1"

section \<open>Big-endian integers (encoding/binary)\<close>

definition be_put64 :: "uint64 \<Rightarrow> bytes" where
  "be_put64 v = map (\<lambda>k. ucast (drop_bit k v)) [56, 48, 40, 32, 24, 16, 8, 0]"

definition be_get64 :: "bytes \<Rightarrow> uint64" where
  "be_get64 b = foldl (\<lambda>acc x. push_bit 8 acc OR ucast x) 0 b"

lemma length_be_put64 [simp]: "length (be_put64 v) = 8"
  by (simp add: be_put64_def)

lemma word_split_low_byte:
  "push_bit 8 (drop_bit (k + 8) v) OR ucast (ucast (drop_bit k v) :: byte) = drop_bit k (v :: uint64)"
  by (rule bit_word_eqI) (auto simp: bit_simps)

lemma word_top_byte: "ucast (ucast (drop_bit 56 v) :: byte) = drop_bit 56 (v :: uint64)"
proof (rule bit_word_eqI)
  fix n
  show "bit (ucast (ucast (drop_bit 56 v) :: byte) :: uint64) n = bit (drop_bit 56 v) n"
    using bit_imp_le_length [of v "56 + n"] by (auto simp: bit_simps)
qed

lemma be_get64_put64 [simp]: "be_get64 (be_put64 v) = v"
  using word_split_low_byte [of 48 v] word_split_low_byte [of 40 v] word_split_low_byte [of 32 v]
    word_split_low_byte [of 24 v] word_split_low_byte [of 16 v] word_split_low_byte [of 8 v]
    word_split_low_byte [of 0 v]
  by (simp add: be_put64_def be_get64_def word_top_byte)

section \<open>Strings (package strings)\<close>

text \<open>
  The byte sequences of the characters for which \<^verbatim>\<open>unicode.IsSpace\<close> holds, in UTF-8: the ASCII
  white space, U+0085, U+00A0, U+1680, U+2000 to U+200A, U+2028, U+2029, U+202F, U+205F and
  U+3000. No sequence is a proper prefix or suffix of another one.
\<close>

definition space_seqs :: "string list" where
  "space_seqs =
     [[CHR 0x09], [CHR 0x0A], [CHR 0x0B], [CHR 0x0C], [CHR 0x0D], [CHR 0x20],
      [CHR 0xC2, CHR 0x85], [CHR 0xC2, CHR 0xA0], [CHR 0xE1, CHR 0x9A, CHR 0x80]]
     @ map (\<lambda>c. [CHR 0xE2, CHR 0x80, c])
         [CHR 0x80, CHR 0x81, CHR 0x82, CHR 0x83, CHR 0x84, CHR 0x85, CHR 0x86, CHR 0x87,
          CHR 0x88, CHR 0x89, CHR 0x8A, CHR 0xA8, CHR 0xA9, CHR 0xAF]
     @ [[CHR 0xE2, CHR 0x81, CHR 0x9F], [CHR 0xE3, CHR 0x80, CHR 0x80]]"

fun has_prefix :: "string \<Rightarrow> string \<Rightarrow> bool" where
  "has_prefix s [] = True"
| "has_prefix [] (p # ps) = False"
| "has_prefix (c # s) (p # ps) = (c = p \<and> has_prefix s ps)"

definition has_suffix :: "string \<Rightarrow> string \<Rightarrow> bool" where
  "has_suffix s t = has_prefix (rev s) (rev t)"

text \<open>
  \<open>strip_prefix_len seqs s\<close> is the length of the first sequence of \<open>seqs\<close> that \<open>s\<close> starts with,
  0 if there is none.
\<close>

fun strip_prefix_len :: "string list \<Rightarrow> string \<Rightarrow> nat" where
  "strip_prefix_len [] s = 0"
| "strip_prefix_len (q # qs) s = (if has_prefix s q then length q else strip_prefix_len qs s)"

function trim_front :: "string list \<Rightarrow> string \<Rightarrow> string" where
  "trim_front qs s =
     (let k = strip_prefix_len qs s in if k = 0 \<or> s = [] then s else trim_front qs (drop k s))"
  by pat_completeness auto
termination
  by (relation "measure (\<lambda>(qs, s). length s)") auto

declare trim_front.simps [simp del]

definition trim_space :: "string \<Rightarrow> string" where
  "trim_space s = rev (trim_front (map rev space_seqs) (rev (trim_front space_seqs s)))"

text \<open>\<^verbatim>\<open>strings.ToLower\<close> on the ASCII letters; other bytes are unchanged.\<close>

definition ascii_lower :: "char \<Rightarrow> char" where
  "ascii_lower c =
     (if CHR ''A'' \<le> c \<and> c \<le> CHR ''Z'' then char_of (of_char c + (32 :: nat)) else c)"

definition to_lower :: "string \<Rightarrow> string" where
  "to_lower s = map ascii_lower s"

definition contains_any :: "string \<Rightarrow> string \<Rightarrow> bool" where
  "contains_any s cs = list_ex (\<lambda>c. c \<in> set cs) s"

fun contains_sub :: "string \<Rightarrow> string \<Rightarrow> bool" where
  "contains_sub [] t = (t = [])"
| "contains_sub (c # s) t = (has_prefix (c # s) t \<or> contains_sub s t)"

definition trim_right :: "string \<Rightarrow> string \<Rightarrow> string" where
  "trim_right s cs = rev (dropWhile (\<lambda>c. c \<in> set cs) (rev s))"

text \<open>\<^verbatim>\<open>strings.Trim\<close> with a cutset.\<close>

definition trim_set :: "string \<Rightarrow> string \<Rightarrow> string" where
  "trim_set s cs = trim_right (dropWhile (\<lambda>c. c \<in> set cs) s) cs"

definition join :: "string \<Rightarrow> string list \<Rightarrow> string" where
  "join sep xs = (case xs of [] \<Rightarrow> [] | y # ys \<Rightarrow> y @ concat (map (\<lambda>z. sep @ z) ys))"

text \<open>\<^verbatim>\<open>strconv.Itoa\<close>, and the value of a string of decimal digits.\<close>

definition digit_char :: "int \<Rightarrow> char" where
  "digit_char d = char_of (48 + nat d)"

function int_digits :: "int \<Rightarrow> string" where
  "int_digits i = (if i < 10 then [digit_char i] else int_digits (i div 10) @ [digit_char (i mod 10)])"
  by pat_completeness auto
termination
  by (relation "measure nat") (auto simp: nat_less_eq_zless)

declare int_digits.simps [simp del]

definition itoa :: "int \<Rightarrow> string" where
  "itoa i = (if i < 0 then CHR ''-'' # int_digits (- i) else int_digits i)"

definition digit_value :: "char \<Rightarrow> int option" where
  "digit_value c =
     (if CHR ''0'' \<le> c \<and> c \<le> CHR ''9'' then Some (int (of_char c) - 48) else None)"

fun digits_value :: "int \<Rightarrow> string \<Rightarrow> int option" where
  "digits_value acc [] = Some acc"
| "digits_value acc (c # cs) =
     (case digit_value c of None \<Rightarrow> None | Some d \<Rightarrow> digits_value (10 * acc + d) cs)"

text \<open>\<^verbatim>\<open>hex.EncodeToString\<close>.\<close>

definition hex_digits :: string where
  "hex_digits = ''0123456789abcdef''"

definition hex_byte :: "byte \<Rightarrow> string" where
  "hex_byte b = [hex_digits ! (unat b div 16), hex_digits ! (unat b mod 16)]"

definition hex_encode :: "bytes \<Rightarrow> string" where
  "hex_encode bs = concat (map hex_byte bs)"

text \<open>The pattern \<^verbatim>\<open>^[0-9a-f]{64}$\<close> of the SHA-256 identities.\<close>

definition identity_pattern :: "string \<Rightarrow> bool" where
  "identity_pattern s = (length s = 64 \<and> list_all (\<lambda>c. c \<in> set hex_digits) s)"

lemmas [go_string_defs] = has_suffix_def trim_space_def to_lower_def contains_any_def
  trim_right_def join_def

lemma has_prefix_iff: "has_prefix s p \<longleftrightarrow> take (length p) s = p"
  by (induction s p rule: has_prefix.induct) auto

lemma strip_prefix_len_cases:
  "strip_prefix_len qs s = 0 \<or> (\<exists>q \<in> set qs. has_prefix s q \<and> strip_prefix_len qs s = length q)"
  by (induction qs) auto

lemma trim_front_suffix: "\<exists>p. s = p @ trim_front qs s"
proof (induction qs s rule: trim_front.induct)
  case (1 qs s)
  show ?case
  proof (cases "strip_prefix_len qs s = 0 \<or> s = []")
    case True
    then show ?thesis by (simp add: trim_front.simps [of qs s] Let_def)
  next
    case False
    with 1 obtain p where "drop (strip_prefix_len qs s) s = p @ trim_front qs (drop (strip_prefix_len qs s) s)"
      by auto
    then have "s = (take (strip_prefix_len qs s) s @ p) @ trim_front qs (drop (strip_prefix_len qs s) s)"
      by (metis append_assoc append_take_drop_id)
    then have "\<exists>p. s = p @ trim_front qs (drop (strip_prefix_len qs s) s)"
      by blast
    with False show ?thesis
      by (simp add: trim_front.simps [of qs s] Let_def)
  qed
qed

lemma trim_front_length: "length (trim_front qs s) \<le> length s"
  using trim_front_suffix [of s qs] by (metis le_add2 length_append)

lemma trim_front_fixed: "strip_prefix_len qs s = 0 \<Longrightarrow> trim_front qs s = s"
  by (simp add: trim_front.simps [of qs s] Let_def)

lemma trim_front_Nil [simp]: "trim_front qs [] = []"
  by (simp add: trim_front.simps)

lemma trim_space_Nil [simp]: "trim_space [] = []"
  by (simp add: trim_space_def)

lemma strip_trim_front: "strip_prefix_len qs (trim_front qs s) = 0 \<or> trim_front qs s = []"
proof (induction qs s rule: trim_front.induct)
  case (1 qs s)
  then show ?case
    by (cases "strip_prefix_len qs s = 0 \<or> s = []") (auto simp: trim_front.simps [of qs s] Let_def)
qed

lemma strip_prefix_len_zero_iff:
  "[] \<notin> set qs \<Longrightarrow> strip_prefix_len qs s = 0 \<longleftrightarrow> (\<forall>q \<in> set qs. \<not> has_prefix s q)"
  by (induction qs) auto

lemma has_prefix_append: "has_prefix s p \<Longrightarrow> has_prefix (s @ t) p"
  by (induction s p rule: has_prefix.induct) auto

lemma trim_space_fixed_front: "strip_prefix_len space_seqs (trim_space s) = 0 \<or> trim_space s = []"
proof -
  define f where "f = trim_front space_seqs s"
  define b where "b = trim_front (map rev space_seqs) (rev f)"
  have ne: "[] \<notin> set space_seqs" by (simp add: space_seqs_def)
  obtain p where "rev f = p @ b"
    using trim_front_suffix [of "rev f" "map rev space_seqs"] b_def by blast
  then have f: "f = rev b @ rev p"
    by (metis rev_append rev_rev_ident)
  have "strip_prefix_len space_seqs f = 0 \<or> f = []"
    unfolding f_def by (rule strip_trim_front)
  then have "strip_prefix_len space_seqs (rev b) = 0 \<or> rev b = []"
    using f ne by (auto simp: strip_prefix_len_zero_iff dest: has_prefix_append)
  then show ?thesis by (simp add: trim_space_def b_def f_def)
qed

lemma trim_space_idem [simp]: "trim_space (trim_space s) = trim_space s"
proof -
  define t where "t = trim_space s"
  have front: "trim_front space_seqs t = t"
    using trim_space_fixed_front [of s] by (auto simp: t_def intro: trim_front_fixed)
  have "strip_prefix_len (map rev space_seqs) (rev t) = 0 \<or> rev t = []"
    unfolding t_def trim_space_def rev_rev_ident by (rule strip_trim_front)
  then have "trim_front (map rev space_seqs) (rev t) = rev t"
    by (auto intro: trim_front_fixed)
  then show ?thesis
    using front by (simp add: trim_space_def [of t] flip: t_def)
qed

lemma trim_space_length: "length (trim_space s) \<le> length s"
  using trim_front_length [of "map rev space_seqs" "rev (trim_front space_seqs s)"]
    trim_front_length [of space_seqs s]
  by (simp add: trim_space_def)

lemma hex_encode_length [simp]: "length (hex_encode bs) = 2 * length bs"
  by (induction bs) (auto simp: hex_encode_def hex_byte_def)

lemma hex_encode_digits: "list_all (\<lambda>c. c \<in> set hex_digits) (hex_encode bs)"
proof -
  have "hex_digits ! (unat b div 16) \<in> set hex_digits \<and> hex_digits ! (unat b mod 16) \<in> set hex_digits"
    for b :: byte
  proof -
    have "unat b < 256" using unsigned_less [of b, where 'a = nat] by simp
    then show ?thesis by (intro conjI nth_mem) (simp_all add: hex_digits_def)
  qed
  then show ?thesis by (induction bs) (auto simp: hex_encode_def hex_byte_def)
qed

lemma digits_value_append:
  "digits_value acc (xs @ ys) = (case digits_value acc xs of None \<Rightarrow> None | Some v \<Rightarrow> digits_value v ys)"
  by (induction acc xs rule: digits_value.induct) (auto split: option.splits)

lemma digit_value_char: "0 \<le> d \<Longrightarrow> d < 10 \<Longrightarrow> digit_value (digit_char d) = Some d"
proof -
  assume d: "0 \<le> d" "d < 10"
  define n where "n = nat d"
  have n: "n < 10" "d = int n" using d by (auto simp: n_def)
  have "of_char (char_of (48 + n) :: char) = 48 + n" using n(1) by (simp add: of_char_of)
  then show "digit_value (digit_char d) = Some d"
    using n by (simp add: digit_value_def digit_char_def less_eq_char_def)
qed

lemma digits_value_int_digits: "0 \<le> i \<Longrightarrow> digits_value 0 (int_digits i) = Some i"
proof (induction i rule: int_digits.induct)
  case (1 i)
  show ?case
  proof (cases "i < 10")
    case True
    with 1 show ?thesis by (simp add: int_digits.simps [of i] digit_value_char)
  next
    case False
    with 1 have "digits_value 0 (int_digits (i div 10)) = Some (i div 10)"
      by (simp add: pos_imp_zdiv_nonneg_iff)
    with False show ?thesis
      by (simp add: int_digits.simps [of i] digits_value_append digit_value_char)
  qed
qed

text \<open>A line that holds an identity is read back as the identity.\<close>

lemma strip_foreign_front:
  "list_all (\<lambda>q. q \<noteq> [] \<and> hd q \<noteq> c) qs \<Longrightarrow> strip_prefix_len qs (c # s) = 0"
proof (induction qs)
  case (Cons q qs)
  then show ?case by (cases q) auto
qed simp

lemma strip_hex_front:
  assumes "c \<in> set hex_digits"
  shows "strip_prefix_len space_seqs (c # s) = 0" and "strip_prefix_len (map rev space_seqs) (c # s) = 0"
proof -
  have "list_all (\<lambda>c. list_all (\<lambda>q. q \<noteq> [] \<and> hd q \<noteq> c) space_seqs) hex_digits"
    "list_all (\<lambda>c. list_all (\<lambda>q. q \<noteq> [] \<and> hd q \<noteq> c) (map rev space_seqs)) hex_digits"
    by code_simp+
  with assms have "list_all (\<lambda>q. q \<noteq> [] \<and> hd q \<noteq> c) space_seqs"
    "list_all (\<lambda>q. q \<noteq> [] \<and> hd q \<noteq> c) (map rev space_seqs)"
    by (simp_all add: list_all_iff)
  then show "strip_prefix_len space_seqs (c # s) = 0" "strip_prefix_len (map rev space_seqs) (c # s) = 0"
    by (auto intro: strip_foreign_front)
qed

lemma trim_space_identity_line:
  assumes "identity_pattern s"
  shows "trim_space (s @ [CHR 0x0A]) = s"
proof -
  have ne: "s \<noteq> []" and hex: "\<And>c. c \<in> set s \<Longrightarrow> c \<in> set hex_digits"
    using assms by (auto simp: identity_pattern_def list_all_iff)
  obtain c cs where s: "s = c # cs" using ne by (cases s) auto
  have "trim_front space_seqs (s @ [CHR 0x0A]) = s @ [CHR 0x0A]"
    using hex s by (subst trim_front.simps) (simp add: strip_hex_front(1))
  moreover have strip_newline: "strip_prefix_len (map rev space_seqs) (CHR 0x0A # r) = 1" for r
    by (simp add: space_seqs_def)
  moreover obtain d ds where d: "rev s = d # ds" using ne by (cases "rev s") auto
  then have "d \<in> set hex_digits" using hex by (metis list.set_intros(1) set_rev)
  then have "trim_front (map rev space_seqs) (d # ds) = d # ds"
    by (subst trim_front.simps) (simp add: strip_hex_front(2))
  then have "trim_front (map rev space_seqs) (CHR 0x0A # d # ds) = d # ds"
    by (subst trim_front.simps) (simp only: strip_newline, simp)
  ultimately have "trim_space (s @ [CHR 0x0A]) = rev (rev s)" using d by (simp add: trim_space_def)
  then show ?thesis by simp
qed

end
