(* ===== verification/Named_Lists.thy ===== *)
theory Named_Lists
  imports Ssm_Prelude "HOL-Library.Multiset"
begin

text \<open>
  Slices of named records. Connections and saved keys are both kept in Go slices and addressed
  by name: a scan for the first element with a name, removal of the first match, replacement in
  place or append, a map built by a loop (the last element with a name wins), and a stable sort
  by name. The operations are stated once for any name function; the locale
  \<open>keyed_store\<close> is the contract that the inventory components rely on.
\<close>

section \<open>Operations\<close>

text \<open>The first element with the name, as the scanning loops of the sources return it.\<close>

fun find_named :: "('a \<Rightarrow> string) \<Rightarrow> string \<Rightarrow> 'a list \<Rightarrow> 'a option" where
  "find_named nm n [] = None"
| "find_named nm n (x # xs) = (if nm x = n then Some x else find_named nm n xs)"

text \<open>The entry of a Go map filled by a loop over the slice: the last element with the name.\<close>

definition last_named :: "('a \<Rightarrow> string) \<Rightarrow> string \<Rightarrow> 'a list \<Rightarrow> 'a option" where
  "last_named nm n xs = find_named nm n (rev xs)"

text \<open>Removal of the first match (\<^verbatim>\<open>append(xs[:i], xs[i+1:]...)\<close>).\<close>

fun remove_named :: "('a \<Rightarrow> string) \<Rightarrow> string \<Rightarrow> 'a list \<Rightarrow> 'a list" where
  "remove_named nm n [] = []"
| "remove_named nm n (x # xs) = (if nm x = n then xs else x # remove_named nm n xs)"

text \<open>Replacement of the first match at its index, append when there is none.\<close>

fun put_named :: "('a \<Rightarrow> string) \<Rightarrow> 'a \<Rightarrow> 'a list \<Rightarrow> 'a list" where
  "put_named nm y [] = [y]"
| "put_named nm y (x # xs) = (if nm x = nm y then y # xs else x # put_named nm y xs)"

abbreviation distinct_names :: "('a \<Rightarrow> string) \<Rightarrow> 'a list \<Rightarrow> bool" where
  "distinct_names nm xs \<equiv> distinct (map nm xs)"

section \<open>Lookup laws\<close>

lemma find_named_None_iff: "find_named nm n xs = None \<longleftrightarrow> n \<notin> nm ` set xs"
  by (induction xs) auto

lemma find_named_SomeD: "find_named nm n xs = Some x \<Longrightarrow> x \<in> set xs \<and> nm x = n"
  by (induction xs) (auto split: if_splits)

lemma find_named_mem: "distinct_names nm xs \<Longrightarrow> x \<in> set xs \<Longrightarrow> find_named nm (nm x) xs = Some x"
  by (induction xs) auto

lemma find_named_eq_Some_iff:
  "distinct_names nm xs \<Longrightarrow> find_named nm n xs = Some x \<longleftrightarrow> x \<in> set xs \<and> nm x = n"
  by (metis find_named_SomeD find_named_mem)

lemma find_named_append:
  "find_named nm n (xs @ ys) = (case find_named nm n xs of None \<Rightarrow> find_named nm n ys | Some x \<Rightarrow> Some x)"
  by (induction xs) auto

lemma find_named_perm:
  assumes "distinct_names nm xs" and "distinct_names nm ys" and "set xs = set ys"
  shows "find_named nm n xs = find_named nm n ys"
proof (cases "find_named nm n ys")
  case None
  then have "find_named nm n xs = None"
    using assms(3) by (simp add: find_named_None_iff)
  with None show ?thesis by simp
next
  case (Some y)
  then have "y \<in> set xs" and "nm y = n"
    using assms(3) find_named_SomeD by fastforce+
  then have "find_named nm n xs = Some y"
    using find_named_mem [OF assms(1)] by blast
  with Some show ?thesis by simp
qed

lemma last_named_distinct: "distinct_names nm xs \<Longrightarrow> last_named nm n xs = find_named nm n xs"
  unfolding last_named_def by (rule find_named_perm) (simp_all flip: rev_map)

lemma last_named_None_iff: "last_named nm n xs = None \<longleftrightarrow> n \<notin> nm ` set xs"
  by (simp add: last_named_def find_named_None_iff)

lemma last_named_SomeD: "last_named nm n xs = Some x \<Longrightarrow> x \<in> set xs \<and> nm x = n"
  unfolding last_named_def using find_named_SomeD by fastforce

lemma last_named_Nil [simp]: "last_named nm n [] = None"
  by (simp add: last_named_def)

lemma last_named_append:
  "last_named nm n (xs @ ys) = (case last_named nm n ys of None \<Rightarrow> last_named nm n xs | Some x \<Rightarrow> Some x)"
  by (simp add: last_named_def find_named_append split: option.split)

lemma last_named_snoc: "last_named nm n (xs @ [x]) = (if nm x = n then Some x else last_named nm n xs)"
  by (simp add: last_named_def)

lemma set_remove_named_subset: "set (remove_named nm n xs) \<subseteq> set xs"
  by (induction xs) auto

lemma distinct_remove_named: "distinct_names nm xs \<Longrightarrow> distinct_names nm (remove_named nm n xs)"
  by (induction xs) (use set_remove_named_subset in fastforce)+

lemma find_remove_named:
  "distinct_names nm xs \<Longrightarrow>
     find_named nm k (remove_named nm n xs) = (if k = n then None else find_named nm k xs)"
  by (induction xs) (auto simp: find_named_None_iff)

lemma remove_named_absent: "n \<notin> nm ` set xs \<Longrightarrow> remove_named nm n xs = xs"
  by (induction xs) auto

lemma names_put_named: "nm ` set (put_named nm y xs) = insert (nm y) (nm ` set xs)"
  by (induction xs) auto

lemma distinct_put_named: "distinct_names nm xs \<Longrightarrow> distinct_names nm (put_named nm y xs)"
proof (induction xs)
  case (Cons x xs)
  then show ?case using names_put_named [of nm y xs] by auto
qed simp

lemma find_put_named: "find_named nm k (put_named nm y xs) = (if k = nm y then Some y else find_named nm k xs)"
  by (induction xs) auto

lemma put_named_append: "nm y \<notin> nm ` set xs \<Longrightarrow> put_named nm y xs = xs @ [y]"
  by (induction xs) auto

lemma names_remove_named: "distinct_names nm xs \<Longrightarrow> nm ` set (remove_named nm n xs) = nm ` set xs - {n}"
  by (induction xs) (auto simp: image_iff)

lemma find_append_fresh:
  "distinct_names nm (xs @ [y]) \<Longrightarrow>
     find_named nm k (xs @ [y]) = (if k = nm y then Some y else find_named nm k xs)"
  by (induction xs) auto

subsection \<open>Sorting by name\<close>

lemma distinct_names_sort: "distinct_names nm (sort_key nm xs) \<longleftrightarrow> distinct_names nm xs"
proof -
  have "mset (map nm (sort_key nm xs)) = mset (map nm xs)" by simp
  then show ?thesis by (rule mset_eq_imp_distinct_iff)
qed

lemma find_named_sort: "distinct_names nm xs \<Longrightarrow> find_named nm n (sort_key nm xs) = find_named nm n xs"
  by (rule find_named_perm) (simp_all add: distinct_names_sort)

text \<open>A list with distinct names that is sorted by name is determined by its lookup function.\<close>

lemma set_eq_if_lookup_eq:
  assumes "distinct_names nm xs" and "distinct_names nm ys"
    and "\<And>n. find_named nm n xs = find_named nm n ys"
  shows "set xs = set ys"
proof -
  have "x \<in> set xs \<longleftrightarrow> x \<in> set ys" for x
    using assms find_named_eq_Some_iff [OF assms(1), of "nm x" x] find_named_eq_Some_iff [OF assms(2), of "nm x" x]
    by simp
  then show ?thesis by blast
qed

lemma sort_key_lookup_eq:
  assumes "distinct_names nm xs" and "distinct_names nm ys"
    and "\<And>n. find_named nm n xs = find_named nm n ys"
  shows "sort_key nm xs = sort_key nm ys"
proof -
  have "set xs = set ys" by (rule set_eq_if_lookup_eq) fact+
  moreover have "distinct xs" and "distinct ys"
    using assms(1,2) by (auto simp: distinct_map)
  ultimately have "mset xs = mset (sort_key nm ys)" by (simp add: set_eq_iff_mset_eq_distinct)
  moreover have "inj_on nm (set xs)" using assms(1) by (simp add: distinct_map)
  ultimately show ?thesis by (rule sort_key_inj_key_eq) simp
qed

section \<open>The contract of a keyed store\<close>

text \<open>
  What the inventory components rely on: a store whose elements carry their key, with lookup,
  insert-or-replace and removal. The laws are the ones of a map; the lemmas below are the ones
  that the replay of a ledger needs, whatever the representation.
\<close>

locale keyed_store =
  fixes nm :: "'a \<Rightarrow> string"
    and invar :: "'s \<Rightarrow> bool"
    and lookup :: "'s \<Rightarrow> string \<Rightarrow> 'a option"
    and put :: "'a \<Rightarrow> 's \<Rightarrow> 's"
    and del :: "string \<Rightarrow> 's \<Rightarrow> 's"
  assumes lookup_put: "invar s \<Longrightarrow> lookup (put x s) = (lookup s)(nm x \<mapsto> x)"
    and lookup_del: "invar s \<Longrightarrow> lookup (del n s) = (lookup s)(n := None)"
    and invar_put: "invar s \<Longrightarrow> invar (put x s)"
    and invar_del: "invar s \<Longrightarrow> invar (del n s)"
begin

text \<open>One step of a ledger on a store: \<open>Some x\<close> stores \<open>x\<close> under its key, \<open>None\<close> removes the key.\<close>

fun step :: "string \<times> 'a option \<Rightarrow> 's \<Rightarrow> 's" where
  "step (n, Some x) s = put x s"
| "step (n, None) s = del n s"

fun steps :: "(string \<times> 'a option) list \<Rightarrow> 's \<Rightarrow> 's" where
  "steps [] s = s"
| "steps (u # us) s = steps us (step u s)"

definition well_keyed :: "(string \<times> 'a option) list \<Rightarrow> bool" where
  "well_keyed us = (\<forall>(n, y) \<in> set us. \<forall>x. y = Some x \<longrightarrow> nm x = n)"

lemma invar_step: "invar s \<Longrightarrow> invar (step u s)"
  by (cases u; cases "snd u") (auto intro: invar_put invar_del)

lemma invar_steps: "invar s \<Longrightarrow> invar (steps us s)"
  by (induction us arbitrary: s) (auto intro: invar_step)

lemma lookup_step:
  "invar s \<Longrightarrow> well_keyed [u] \<Longrightarrow> lookup (step u s) = (lookup s)(fst u := snd u)"
  by (cases u; cases "snd u") (auto simp: lookup_put lookup_del well_keyed_def)

text \<open>The lookup after a list of updates depends on the lookup before it only.\<close>

lemma lookup_steps:
  "invar s \<Longrightarrow> well_keyed us \<Longrightarrow>
     lookup (steps us s) = (\<lambda>n. case map_of (rev us) n of None \<Rightarrow> lookup s n | Some y \<Rightarrow> y)"
proof (induction us arbitrary: s)
  case Nil
  then show ?case by simp
next
  case (Cons u us)
  then have "well_keyed [u]" and us: "well_keyed us" by (auto simp: well_keyed_def)
  then have "lookup (step u s) = (lookup s)(fst u := snd u)"
    using Cons.prems by (simp add: lookup_step)
  moreover have "lookup (steps us (step u s))
      = (\<lambda>n. case map_of (rev us) n of None \<Rightarrow> lookup (step u s) n | Some y \<Rightarrow> y)"
    using Cons.prems us by (intro Cons.IH invar_step)
  ultimately show ?case
    by (cases u) (auto simp: fun_eq_iff map_add_def map_of_append split: option.splits)
qed

text \<open>Updates of disjoint sets of keys commute, as far as lookups can tell.\<close>

lemma lookup_steps_commute:
  assumes "invar s" and "well_keyed us" and "well_keyed vs"
    and "fst ` set us \<inter> fst ` set vs = {}"
  shows "lookup (steps us (steps vs s)) = lookup (steps vs (steps us s))"
proof -
  have "lookup (steps us (steps vs s)) n = lookup (steps vs (steps us s)) n" for n
  proof (cases "n \<in> fst ` set us")
    case True
    with assms(4) have "n \<notin> fst ` set (rev vs)" by auto
    then have "map_of (rev vs) n = None" by (simp only: map_of_eq_None_iff) simp
    then show ?thesis using assms by (simp add: lookup_steps invar_steps split: option.splits)
  next
    case False
    then have "map_of (rev us) n = None" by (simp only: map_of_eq_None_iff) simp
    then show ?thesis using assms by (simp add: lookup_steps invar_steps split: option.splits)
  qed
  then show ?thesis by blast
qed

end

end
