(* ===== verification/Inventory_Data.thy ===== *)
theory Inventory_Data
  imports Named_Lists
begin

text \<open>
  The inventory and its ledger as data (\<^verbatim>\<open>internal/config/config.go\<close>): saved keys, connections, the
  vault with its pending mutations, the accessors on them and the merge of two vaults. Ports
  and counts are Go \<^verbatim>\<open>int\<close>s on which no arithmetic is done, so they are modelled as \<open>int\<close>.
\<close>

section \<open>Data\<close>

record ssh_key =
  key_Name :: string
  key_PrivateKey :: string

record connection =
  conn_Name :: string
  conn_Host :: string
  conn_Port :: int
  conn_User :: string
  conn_Password :: string
  conn_KeyName :: string
  conn_Group :: string
  conn_Transfer :: string
  conn_ProxyJump :: string

record inventory_snapshot =
  snap_Connections :: "connection list"
  snap_Keys :: "ssh_key list"

record pending_mutation =
  pm_ID :: string
  pm_Alias :: string
  pm_Aliases :: "string list"
  pm_KeyName :: string
  pm_Operation :: string
  pm_CreatedAt :: string
  pm_Before :: "connection option"
  pm_After :: "connection option"
  pm_KeysBefore :: "ssh_key list"
  pm_KeysAfter :: "ssh_key list"
  pm_BulkBefore :: "inventory_snapshot option"
  pm_BulkAfter :: "inventory_snapshot option"
  pm_ConnectionCount :: int
  pm_KeyCount :: int

record vault =
  v_Connections :: "connection list"
  v_Keys :: "ssh_key list"
  v_PendingBase :: "inventory_snapshot option"
  v_PendingMutations :: "pending_mutation list"

record merge_conflict =
  mc_Name :: string
  mc_Kind :: string
  mc_Winner :: string

record merge_report =
  mr_RecordedAt :: string
  mr_Conflicts :: "merge_conflict list"

definition empty_connection :: connection where
  "empty_connection =
     \<lparr>conn_Name = [], conn_Host = [], conn_Port = 0, conn_User = [], conn_Password = [],
      conn_KeyName = [], conn_Group = [], conn_Transfer = [], conn_ProxyJump = []\<rparr>"

definition empty_vault :: vault where
  "empty_vault = \<lparr>v_Connections = [], v_Keys = [], v_PendingBase = None, v_PendingMutations = []\<rparr>"

section \<open>Accessors\<close>

definition NormalizeTransfer :: "string \<Rightarrow> string option" where
  "NormalizeTransfer value =
     (let t = to_lower (trim_space value) in
      if t = '''' \<or> t = ''auto'' then Some ''''
      else if t = ''shell'' then Some ''shell''
      else if t = ''sftp'' then Some ''sftp''
      else None)"

definition UsesSFTP :: "connection \<Rightarrow> bool" where
  "UsesSFTP c = (conn_Transfer c = ''sftp'')"

definition GetKey :: "vault \<Rightarrow> string \<Rightarrow> ssh_key option" where
  "GetKey v name = find_named key_Name name (v_Keys v)"

definition KeyNames :: "vault \<Rightarrow> string list" where
  "KeyNames v = map key_Name (v_Keys v)"

fun group_names :: "string list \<Rightarrow> connection list \<Rightarrow> string list" where
  "group_names seen [] = []"
| "group_names seen (c # cs) =
     (if conn_Group c \<noteq> '''' \<and> conn_Group c \<notin> set seen
      then conn_Group c # group_names (conn_Group c # seen) cs
      else group_names seen cs)"

definition GroupNames :: "vault \<Rightarrow> string list" where
  "GroupNames v = group_names [] (v_Connections v)"

definition SSHArgs :: "connection \<Rightarrow> string list" where
  "SSHArgs c =
     (if conn_Port c \<noteq> 0 \<and> conn_Port c \<noteq> 22 then [''-p'', itoa (conn_Port c)] else [])
     @ [conn_User c @ ''@'' @ conn_Host c]"

definition Display :: "connection \<Rightarrow> string" where
  "Display c =
     conn_User c @ ''@'' @ conn_Host c
     @ (if conn_Port c \<noteq> 0 \<and> conn_Port c \<noteq> 22 then '':'' @ itoa (conn_Port c) else [])"

section \<open>Merging two vaults\<close>

text \<open>
  The loops over connections and over keys are the same code with another kind string. The
  state is the map, the order in which names were first seen, and the conflicts so far.
\<close>

type_synonym 'a merge_state = "(string \<rightharpoonup> 'a) \<times> string list \<times> merge_conflict list"

definition merge_local_step :: "('a \<Rightarrow> string) \<Rightarrow> 'a merge_state \<Rightarrow> 'a \<Rightarrow> 'a merge_state" where
  "merge_local_step nm st x =
     (case st of (m, order, conflicts) \<Rightarrow>
        (m(nm x \<mapsto> x), (if m (nm x) = None then order @ [nm x] else order), conflicts))"

definition merge_remote_step :: "('a \<Rightarrow> string) \<Rightarrow> string \<Rightarrow> 'a merge_state \<Rightarrow> 'a \<Rightarrow> 'a merge_state" where
  "merge_remote_step nm kind st x =
     (case st of (m, order, conflicts) \<Rightarrow>
        (m(nm x \<mapsto> x),
         (if m (nm x) = None then order @ [nm x] else order),
         (case m (nm x) of
            None \<Rightarrow> conflicts
          | Some previous \<Rightarrow>
              if previous \<noteq> x
              then conflicts @ [\<lparr>mc_Name = nm x, mc_Kind = kind, mc_Winner = ''remote''\<rparr>]
              else conflicts)))"

definition merge_items :: "('a \<Rightarrow> string) \<Rightarrow> string \<Rightarrow> 'a list \<Rightarrow> 'a list \<Rightarrow> 'a list \<times> merge_conflict list" where
  "merge_items nm kind local remote =
     (case foldl (merge_remote_step nm kind) (foldl (merge_local_step nm) (Map.empty, [], []) local) remote of
        (m, order, conflicts) \<Rightarrow> (map (\<lambda>n. the (m n)) order, conflicts))"

definition MergeVaultsWithReport :: "string \<Rightarrow> vault \<Rightarrow> vault \<Rightarrow> vault \<times> merge_report" where
  "MergeVaultsWithReport recorded_at local remote =
     (let (conns, cconf) = merge_items conn_Name ''alias'' (v_Connections local) (v_Connections remote);
          (keys, kconf) = merge_items key_Name ''key_name'' (v_Keys local) (v_Keys remote)
      in (\<lparr>v_Connections = conns, v_Keys = keys, v_PendingBase = None, v_PendingMutations = []\<rparr>,
          \<lparr>mr_RecordedAt = recorded_at, mr_Conflicts = cconf @ kconf\<rparr>))"

definition MergeVaults :: "string \<Rightarrow> vault \<Rightarrow> vault \<Rightarrow> vault" where
  "MergeVaults recorded_at local remote = fst (MergeVaultsWithReport recorded_at local remote)"

subsection \<open>What the merge loops compute\<close>

text \<open>The names of a list in the order of their first occurrence.\<close>

definition first_names :: "('a \<Rightarrow> string) \<Rightarrow> 'a list \<Rightarrow> string list" where
  "first_names nm xs = rev (remdups (rev (map nm xs)))"

lemma first_names_Nil [simp]: "first_names nm [] = []"
  by (simp add: first_names_def)

lemma first_names_snoc:
  "first_names nm (xs @ [x]) = (if nm x \<in> nm ` set xs then first_names nm xs else first_names nm xs @ [nm x])"
  by (auto simp: first_names_def)

lemma set_first_names [simp]: "set (first_names nm xs) = nm ` set xs"
  by (simp add: first_names_def)

lemma distinct_first_names [simp]: "distinct (first_names nm xs)"
  by (simp add: first_names_def)

lemma first_names_distinct: "distinct_names nm xs \<Longrightarrow> first_names nm xs = map nm xs"
  by (simp add: first_names_def distinct_remdups_id)

lemma foldl_merge_local:
  "foldl (merge_local_step nm) (Map.empty, [], conf) xs
     = ((\<lambda>n. last_named nm n xs), first_names nm xs, conf)"
proof (induction xs rule: rev_induct)
  case Nil
  then show ?case by (simp add: fun_eq_iff)
next
  case (snoc x xs)
  then show ?case
    by (auto simp: merge_local_step_def first_names_snoc last_named_snoc last_named_None_iff)
qed

text \<open>A conflict is reported for each remote item whose name is already known with another value.\<close>

definition merge_conflicts :: "('a \<Rightarrow> string) \<Rightarrow> string \<Rightarrow> 'a list \<Rightarrow> 'a list \<Rightarrow> merge_conflict list" where
  "merge_conflicts nm kind local remote =
     map (\<lambda>x. \<lparr>mc_Name = nm x, mc_Kind = kind, mc_Winner = ''remote''\<rparr>)
       (filter (\<lambda>x. \<exists>y. last_named nm (nm x) local = Some y \<and> y \<noteq> x) remote)"

lemma foldl_merge_remote:
  "distinct_names nm ys \<Longrightarrow>
   foldl (merge_remote_step nm kind) ((\<lambda>n. last_named nm n xs), first_names nm xs, conf) ys
     = ((\<lambda>n. last_named nm n (xs @ ys)), first_names nm (xs @ ys),
        conf @ merge_conflicts nm kind xs ys)"
proof (induction ys rule: rev_induct)
  case Nil
  then show ?case by (simp add: merge_conflicts_def)
next
  case (snoc y ys)
  have known: "last_named nm (nm y) (xs @ ys) = last_named nm (nm y) xs"
  proof -
    have "last_named nm (nm y) ys = None"
      using snoc.prems by (simp add: last_named_None_iff)
    then show ?thesis by (simp add: last_named_append)
  qed
  have "foldl (merge_remote_step nm kind) ((\<lambda>n. last_named nm n xs), first_names nm xs, conf) (ys @ [y])
      = merge_remote_step nm kind
          ((\<lambda>n. last_named nm n (xs @ ys)), first_names nm (xs @ ys),
            conf @ merge_conflicts nm kind xs ys) y"
    using snoc by simp
  also have "\<dots> = ((\<lambda>n. last_named nm n (xs @ ys @ [y])), first_names nm (xs @ ys @ [y]),
      conf @ merge_conflicts nm kind xs (ys @ [y]))"
  proof (cases "last_named nm (nm y) xs")
    case None
    with snoc.prems have "nm y \<notin> nm ` set (xs @ ys)" by (auto simp: last_named_None_iff)
    with None show ?thesis
      using last_named_snoc [of nm _ "xs @ ys" y] first_names_snoc [of nm "xs @ ys" y]
      by (simp add: merge_remote_step_def merge_conflicts_def known fun_eq_iff)
  next
    case (Some z)
    then have "nm y \<in> nm ` set (xs @ ys)"
      using last_named_None_iff [of nm "nm y" xs] by auto
    with Some show ?thesis
      using last_named_snoc [of nm _ "xs @ ys" y] first_names_snoc [of nm "xs @ ys" y]
      by (simp add: merge_remote_step_def merge_conflicts_def known fun_eq_iff)
  qed
  finally show ?case .
qed

lemma merge_items_eq:
  assumes "distinct_names nm remote"
  shows "merge_items nm kind local remote =
    (map (\<lambda>n. the (last_named nm n (local @ remote))) (first_names nm (local @ remote)),
     merge_conflicts nm kind local remote)"
  by (simp add: merge_items_def foldl_merge_local foldl_merge_remote [OF assms])

lemma the_last_named: "n \<in> nm ` set xs \<Longrightarrow> nm (the (last_named nm n xs)) = n"
  by (metis last_named_None_iff last_named_SomeD option.collapse)

lemma merge_items_names:
  assumes "distinct_names nm remote"
  shows "map nm (fst (merge_items nm kind local remote)) = first_names nm (local @ remote)"
proof -
  have "map (\<lambda>n. nm (the (last_named nm n (local @ remote)))) (first_names nm (local @ remote))
      = first_names nm (local @ remote)"
    by (rule map_idI) (simp add: the_last_named)
  then show ?thesis using assms by (simp add: merge_items_eq comp_def)
qed

lemma merge_items_lookup:
  assumes "distinct_names nm remote"
  shows "find_named nm n (fst (merge_items nm kind local remote)) =
    (case last_named nm n remote of None \<Rightarrow> last_named nm n local | Some x \<Rightarrow> Some x)"
proof -
  let ?ys = "fst (merge_items nm kind local remote)"
  let ?l = "last_named nm n (local @ remote)"
  have dist: "distinct_names nm ?ys"
    by (simp only: merge_items_names [OF assms] distinct_first_names)
  have "find_named nm n ?ys = ?l"
  proof (cases ?l)
    case None
    then have "n \<notin> nm ` set ?ys"
      using arg_cong [OF merge_items_names [OF assms, of kind local], of set]
      by (simp add: last_named_None_iff)
    with None show ?thesis by (simp add: find_named_None_iff)
  next
    case (Some x)
    then have "n \<in> set (first_names nm (local @ remote))" and "nm x = n"
      using last_named_SomeD [OF Some] by auto
    then have "x \<in> set ?ys"
      using assms Some by (force simp: merge_items_eq)
    with dist Some \<open>nm x = n\<close> show ?thesis by (simp add: find_named_eq_Some_iff)
  qed
  also have "?l = (case last_named nm n remote of None \<Rightarrow> last_named nm n local | Some x \<Rightarrow> Some x)"
    by (rule last_named_append)
  finally show ?thesis .
qed

section \<open>Properties\<close>

definition demo_conn :: "string \<Rightarrow> string \<Rightarrow> connection" where
  "demo_conn name host = empty_connection\<lparr>conn_Name := name, conn_Host := host\<rparr>"

definition demo_local :: vault where
  "demo_local = empty_vault\<lparr>v_Connections := [demo_conn ''a'' ''1'', demo_conn ''b'' ''2'']\<rparr>"

definition demo_remote :: vault where
  "demo_remote = empty_vault\<lparr>v_Connections := [demo_conn ''c'' ''9'', demo_conn ''a'' ''8'']\<rparr>"

text \<open>
  Merging a remote inventory without duplicate names into any local one: looking a name up in
  the merged vault gives the remote entry if there is one and the local one otherwise, for
  connections and keys alike; no name occurs twice in the result; and the names keep their local
  order, with the names only the remote side has appended in remote order.
\<close>

theorem merge_remote_wins:
  assumes "distinct_names conn_Name (v_Connections remote)" and "distinct_names key_Name (v_Keys remote)"
  shows "let merged = MergeVaults at local remote in
      (\<forall>n. find_named conn_Name n (v_Connections merged) =
        (case find_named conn_Name n (v_Connections remote) of
           None \<Rightarrow> last_named conn_Name n (v_Connections local) | Some c \<Rightarrow> Some c))
    \<and> (\<forall>n. find_named key_Name n (v_Keys merged) =
        (case find_named key_Name n (v_Keys remote) of
           None \<Rightarrow> last_named key_Name n (v_Keys local) | Some k \<Rightarrow> Some k))
    \<and> map conn_Name (v_Connections merged) = first_names conn_Name (v_Connections local @ v_Connections remote)
    \<and> map key_Name (v_Keys merged) = first_names key_Name (v_Keys local @ v_Keys remote)"
  using assms
  by (simp add: MergeVaults_def MergeVaultsWithReport_def split_beta
      merge_items_lookup merge_items_names last_named_distinct)

theorem merge_remote_wins_witness:
  "find_named conn_Name ''a'' (v_Connections (MergeVaults '''' demo_local demo_remote)) = Some (demo_conn ''a'' ''8'')
    \<and> map conn_Name (v_Connections (MergeVaults '''' demo_local demo_remote)) = [''a'', ''b'', ''c'']"
proof -
  have h: "distinct_names conn_Name (v_Connections demo_remote)" "distinct_names key_Name (v_Keys demo_remote)"
    by code_simp+
  have "find_named conn_Name ''a'' (v_Connections demo_remote) = Some (demo_conn ''a'' ''8'')"
    "first_names conn_Name (v_Connections demo_local @ v_Connections demo_remote) = [''a'', ''b'', ''c'']"
    by code_simp+
  with merge_remote_wins [OF h, of "''''" demo_local] show ?thesis by (simp add: Let_def)
qed

text \<open>
  The merge report lists exactly the names that both sides have with different values, each
  once, with the kind of the entry and the remote side as the winner.
\<close>

theorem merge_report_exact:
  assumes "distinct_names conn_Name (v_Connections remote)" and "distinct_names key_Name (v_Keys remote)"
    and "distinct_names conn_Name (v_Connections local)" and "distinct_names key_Name (v_Keys local)"
  shows "let conflicts = mr_Conflicts (snd (MergeVaultsWithReport at local remote)) in
      (\<forall>x. x \<in> set conflicts \<longleftrightarrow>
         mc_Winner x = ''remote'' \<and>
         (mc_Kind x = ''alias'' \<and>
            (\<exists>a b. find_named conn_Name (mc_Name x) (v_Connections local) = Some a
               \<and> find_named conn_Name (mc_Name x) (v_Connections remote) = Some b \<and> a \<noteq> b)
          \<or> mc_Kind x = ''key_name'' \<and>
            (\<exists>a b. find_named key_Name (mc_Name x) (v_Keys local) = Some a
               \<and> find_named key_Name (mc_Name x) (v_Keys remote) = Some b \<and> a \<noteq> b)))
    \<and> distinct conflicts"
proof -
  have conflict_iff: "x \<in> set (merge_conflicts nm kind l r) \<longleftrightarrow>
      mc_Winner x = ''remote'' \<and> mc_Kind x = kind \<and>
      (\<exists>a b. find_named nm (mc_Name x) l = Some a \<and> find_named nm (mc_Name x) r = Some b \<and> a \<noteq> b)"
    if "distinct_names nm l" "distinct_names nm r" for nm :: "'b \<Rightarrow> string" and kind l r x
    using that by (cases x) (force simp: merge_conflicts_def image_iff last_named_distinct find_named_eq_Some_iff)
  have dist: "distinct (merge_conflicts nm kind l r)"
    if "distinct_names nm r" for nm :: "'b \<Rightarrow> string" and kind l r
    using that by (auto simp: merge_conflicts_def distinct_map inj_on_def)
  have kinds: "mc_Kind x = kind" if "x \<in> set (merge_conflicts nm kind l r)"
    for nm :: "'b \<Rightarrow> string" and kind l r x
    using that by (auto simp: merge_conflicts_def)
  show ?thesis
    using assms
    by (auto simp: MergeVaultsWithReport_def split_beta merge_items_eq conflict_iff dist dest: kinds)
qed

theorem merge_report_exact_witness:
  "\<lparr>mc_Name = ''a'', mc_Kind = ''alias'', mc_Winner = ''remote''\<rparr>
     \<in> set (mr_Conflicts (snd (MergeVaultsWithReport '''' demo_local demo_remote)))"
proof -
  have h: "distinct_names conn_Name (v_Connections demo_remote)" "distinct_names key_Name (v_Keys demo_remote)"
    "distinct_names conn_Name (v_Connections demo_local)" "distinct_names key_Name (v_Keys demo_local)"
    by code_simp+
  have "find_named conn_Name ''a'' (v_Connections demo_local) = Some (demo_conn ''a'' ''1'')"
    "find_named conn_Name ''a'' (v_Connections demo_remote) = Some (demo_conn ''a'' ''8'')"
    "demo_conn ''a'' ''1'' \<noteq> demo_conn ''a'' ''8''"
    by code_simp+
  then show ?thesis using merge_report_exact [OF h, of "''''"] by (simp add: Let_def)
qed

end
