(* ===== verification/Alias_Resolution.thy ===== *)
theory Alias_Resolution
  imports Inventory_Data
begin

text \<open>
  Addressing hosts by alias: redirect soft-links and alias patterns
  (\<^verbatim>\<open>internal/config/redirects.go\<close>) and jump-host chains (\<^verbatim>\<open>internal/config/jumpchain.go\<close>).
  The redirects file is the association list \<open>redirects\<close>; \<^verbatim>\<open>filepath.Match\<close> is the parameter
  \<open>glob pattern name\<close>, None for a malformed pattern.
\<close>

type_synonym redirects = "(string \<times> string) list"

section \<open>Redirects\<close>

text \<open>
  The loop of at most 16 rounds. None is the early return on a repeated name; otherwise the name
  reached when the loop ends.
\<close>

fun follow_redirects :: "nat \<Rightarrow> redirects \<Rightarrow> string list \<Rightarrow> string \<Rightarrow> string option" where
  "follow_redirects 0 r seen name = Some name"
| "follow_redirects (Suc rounds) r seen name =
     (if name \<in> set seen then None
      else case map_of r name of
        None \<Rightarrow> Some name
      | Some next \<Rightarrow>
          if next \<noteq> '''' \<and> next \<noteq> name then follow_redirects rounds r (name # seen) next
          else Some name)"

definition ResolveAlias :: "vault option \<Rightarrow> redirects \<Rightarrow> string \<Rightarrow> connection \<times> string \<times> bool" where
  "ResolveAlias v r requested =
     (case v of
        None \<Rightarrow> (empty_connection, requested, False)
      | Some vlt \<Rightarrow>
          if requested = '''' then (empty_connection, requested, False)
          else case follow_redirects 16 r [] requested of
            None \<Rightarrow> (empty_connection, requested, False)
          | Some name \<Rightarrow>
              (case find_named conn_Name name (v_Connections vlt) of
                 Some c \<Rightarrow> (c, name, True)
               | None \<Rightarrow>
                   if name \<noteq> requested then
                     (case find_named conn_Name requested (v_Connections vlt) of
                        Some c \<Rightarrow> (c, requested, True)
                      | None \<Rightarrow> (empty_connection, name, False))
                   else (empty_connection, name, False)))"

section \<open>Alias patterns\<close>

fun unique_strings :: "string list \<Rightarrow> string list \<Rightarrow> string list" where
  "unique_strings seen [] = []"
| "unique_strings seen (s # ss) =
     (if s \<in> set seen then unique_strings seen ss else s # unique_strings (s # seen) ss)"

fun split_comma_from :: "string \<Rightarrow> string \<Rightarrow> string list" where
  "split_comma_from part [] = [rev part]"
| "split_comma_from part (c # s) =
     (if c = CHR '','' then rev part # split_comma_from [] s else split_comma_from (c # part) s)"

definition splitComma :: "string \<Rightarrow> string list" where
  "splitComma s = split_comma_from [] s"

definition trimBlanks :: "string \<Rightarrow> string" where
  "trimBlanks s =
     (let blank = (\<lambda>c. c = CHR '' '' \<or> c = CHR 0x09) in
      rev (dropWhile blank (rev (dropWhile blank s))))"

datatype match_error = NilVault | BadPattern string

text \<open>One pattern against the known names: the names it matches, or the first failure.\<close>

fun match_names :: "(string \<Rightarrow> string \<Rightarrow> bool option) \<Rightarrow> string \<Rightarrow> string list \<Rightarrow> match_error + string list" where
  "match_names glob p [] = Inr []"
| "match_names glob p (n # ns) =
     (case glob p n of
        None \<Rightarrow> Inl (BadPattern p)
      | Some ok \<Rightarrow>
          (case match_names glob p ns of
             Inl e \<Rightarrow> Inl e
           | Inr ms \<Rightarrow> Inr (if ok then n # ms else ms)))"

text \<open>Appending the names not seen so far; \<open>out\<close> holds exactly the seen names.\<close>

definition add_unseen :: "string list \<Rightarrow> string list \<Rightarrow> string list" where
  "add_unseen out ns = foldl (\<lambda>o' n. if n \<in> set o' then o' else o' @ [n]) out ns"

fun match_patterns :: "(string \<Rightarrow> string \<Rightarrow> bool option) \<Rightarrow> string list \<Rightarrow> string list \<Rightarrow> string list \<Rightarrow>
    match_error + string list" where
  "match_patterns glob names out [] = Inr out"
| "match_patterns glob names out (raw # ps) =
     (let p = trimBlanks raw in
      if p = '''' then match_patterns glob names out ps
      else case match_names glob p names of
        Inl e \<Rightarrow> Inl e
      | Inr ms \<Rightarrow>
          match_patterns glob names (add_unseen out (if ms = [] then [p] else ms)) ps)"

definition known_names :: "vault \<Rightarrow> redirects \<Rightarrow> string list" where
  "known_names v r = unique_strings [] (sort (map conn_Name (v_Connections v) @ map fst r))"

definition MatchAliases :: "(string \<Rightarrow> string \<Rightarrow> bool option) \<Rightarrow> vault option \<Rightarrow> redirects \<Rightarrow> string list \<Rightarrow>
    match_error + string list" where
  "MatchAliases glob v r patterns =
     (case v of
        None \<Rightarrow> Inl NilVault
      | Some vlt \<Rightarrow> match_patterns glob (known_names vlt r) [] (concat (map splitComma patterns)))"

section \<open>Jump chains\<close>

definition MaxJumpDepth :: nat where "MaxJumpDepth = 5"

datatype jump_reason = JumpCycle | JumpDepth | JumpMissing

record jump_chain_error =
  jce_Reason :: jump_reason
  jce_Alias :: string
  jce_Chain :: "string list"

function jump_loop :: "vault option \<Rightarrow> redirects \<Rightarrow> string list \<Rightarrow> string list \<Rightarrow> connection list \<Rightarrow> string \<Rightarrow>
    jump_chain_error + connection list" where
  "jump_loop v r seen names jumps next =
     (if next = '''' then Inr jumps
      else if MaxJumpDepth \<le> length jumps then
        Inl \<lparr>jce_Reason = JumpDepth, jce_Alias = next, jce_Chain = names @ [next]\<rparr>
      else case ResolveAlias v r next of (conn, resolved, ok) \<Rightarrow>
        if \<not> ok then Inl \<lparr>jce_Reason = JumpMissing, jce_Alias = next, jce_Chain = names @ [next]\<rparr>
        else if conn_Name conn \<in> set seen \<or> resolved \<in> set seen then
          Inl \<lparr>jce_Reason = JumpCycle, jce_Alias = conn_Name conn, jce_Chain = names @ [conn_Name conn]\<rparr>
        else jump_loop v r (conn_Name conn # resolved # seen) (names @ [conn_Name conn])
               (conn # jumps) (trim_space (conn_ProxyJump conn)))"
  by pat_completeness auto
termination
  by (relation "measure (\<lambda>(v, r, seen, names, jumps, next). MaxJumpDepth - length jumps)") auto

declare jump_loop.simps [simp del]

definition ResolveJumpChain :: "vault option \<Rightarrow> redirects \<Rightarrow> connection \<Rightarrow> jump_chain_error + connection list" where
  "ResolveJumpChain v r target =
     (case jump_loop v r [conn_Name target] [conn_Name target] [] (trim_space (conn_ProxyJump target)) of
        Inl e \<Rightarrow> Inl e
      | Inr jumps \<Rightarrow> Inr (jumps @ [target]))"

section \<open>Lemmas on alias resolution\<close>

text \<open>The names a redirect chain can reach, in any number of rounds.\<close>

inductive redirect_reach :: "redirects \<Rightarrow> string \<Rightarrow> string \<Rightarrow> bool" for r where
  here: "redirect_reach r a a"
| hop: "map_of r a = Some b \<Longrightarrow> redirect_reach r b c \<Longrightarrow> redirect_reach r a c"

lemma follow_redirects_reach: "follow_redirects k r seen a = Some b \<Longrightarrow> redirect_reach r a b"
  by (induction k r seen a rule: follow_redirects.induct)
    (auto intro: redirect_reach.intros split: if_splits option.splits)

lemma ResolveAlias_ok:
  assumes "ResolveAlias v r req = (c, name, True)"
  shows "conn_Name c = name \<and> redirect_reach r req name
    \<and> (\<exists>vlt. v = Some vlt \<and> find_named conn_Name name (v_Connections vlt) = Some c)"
  using assms
  by (auto simp: ResolveAlias_def split: option.splits if_splits
      dest: find_named_SomeD follow_redirects_reach intro: redirect_reach.here)

section \<open>Lemmas on jump chains\<close>

text \<open>
  \<open>hops v r d cs\<close>: dialling \<open>d\<close> goes through \<open>cs\<close>, the nearest jump host first, and the last of
  them is dialled directly.
\<close>

fun hops :: "vault option \<Rightarrow> redirects \<Rightarrow> connection \<Rightarrow> connection list \<Rightarrow> bool" where
  "hops v r d [] = (trim_space (conn_ProxyJump d) = '''')"
| "hops v r d (c # cs) =
     (trim_space (conn_ProxyJump d) \<noteq> ''''
      \<and> ResolveAlias v r (trim_space (conn_ProxyJump d)) = (c, conn_Name c, True)
      \<and> hops v r c cs)"

lemma hops_blocked:
  assumes "trim_space (conn_ProxyJump d) = '''' \<or> ResolveAlias v r (trim_space (conn_ProxyJump d)) = (c, resolved, ok)
      \<and> (\<not> ok \<or> conn_Name c \<in> set seen)"
    and "hops v r d cs" and "set (map conn_Name cs) \<inter> set seen = {}"
  shows "cs = []"
  using assms by (cases cs) auto

lemma jump_loop_Inr_iff:
  assumes "length jumps \<le> MaxJumpDepth"
  shows "jump_loop v r seen names jumps (trim_space (conn_ProxyJump d)) = Inr out \<longleftrightarrow>
    (\<exists>cs. out = rev cs @ jumps \<and> hops v r d cs \<and> length cs + length jumps \<le> MaxJumpDepth
       \<and> distinct (map conn_Name cs) \<and> set (map conn_Name cs) \<inter> set seen = {})"
    (is "_ \<longleftrightarrow> (\<exists>cs. ?P seen jumps d cs)")
  using assms
proof (induction "MaxJumpDepth - length jumps" arbitrary: seen names jumps d)
  case 0
  then have full: "length jumps = MaxJumpDepth" by simp
  have "(\<exists>cs. ?P seen jumps d cs) \<longleftrightarrow> out = jumps \<and> trim_space (conn_ProxyJump d) = ''''"
    using full by auto
  then show ?case
    using full by (auto simp: jump_loop.simps [of v r seen names jumps "trim_space (conn_ProxyJump d)"])
next
  case (Suc k)
  let ?next = "trim_space (conn_ProxyJump d)"
  obtain c resolved ok where res: "ResolveAlias v r ?next = (c, resolved, ok)"
    by (cases "ResolveAlias v r ?next") auto
  have less: "length jumps < MaxJumpDepth" using Suc.hyps(2) by simp
  have name: "ok \<Longrightarrow> resolved = conn_Name c" using res by (auto dest: ResolveAlias_ok)
  show ?case
  proof (cases "?next = '''' \<or> \<not> ok \<or> conn_Name c \<in> set seen \<or> resolved \<in> set seen")
    case True
    then have "\<And>cs. ?P seen jumps d cs \<Longrightarrow> cs = []"
      using res name hops_blocked [of d v r c resolved ok seen] by blast
    then have "(\<exists>cs. ?P seen jumps d cs) \<longleftrightarrow> ?P seen jumps d []" by blast
    also have "\<dots> \<longleftrightarrow> out = jumps \<and> ?next = ''''" using Suc.prems by auto
    also have "\<dots> \<longleftrightarrow> jump_loop v r seen names jumps ?next = Inr out"
      using True res less by (auto simp: jump_loop.simps [of v r seen names jumps ?next])
    finally show ?thesis by blast
  next
    case False
    with name have resolved: "resolved = conn_Name c" by blast
    have "jump_loop v r seen names jumps ?next =
        jump_loop v r (conn_Name c # resolved # seen) (names @ [conn_Name c]) (c # jumps)
          (trim_space (conn_ProxyJump c))"
      using False res less by (subst jump_loop.simps) simp
    also have "\<dots> = Inr out \<longleftrightarrow> (\<exists>cs. ?P (conn_Name c # resolved # seen) (c # jumps) c cs)"
      using Suc.hyps less by (intro Suc.hyps(1)) auto
    also have "\<dots> \<longleftrightarrow> (\<exists>cs. ?P seen jumps d (c # cs))"
      using False res resolved by auto
    also have "\<dots> \<longleftrightarrow> (\<exists>cs. ?P seen jumps d cs)"
    proof
      assume "\<exists>cs. ?P seen jumps d cs"
      then obtain cs where cs: "?P seen jumps d cs" by blast
      then obtain cs' where "cs = c # cs'"
        using False res by (cases cs) auto
      with cs show "\<exists>cs. ?P seen jumps d (c # cs)" by blast
    qed blast
    finally show ?thesis .
  qed
qed

section \<open>Properties\<close>

text \<open> A successful alias resolution returns a connection of the vault whose name is exactly the
  resolved alias, and that alias is the requested one or is reached from it by redirects; an
  alias without a redirect resolves to the connection of exactly that name and to nothing else.
\<close>

theorem ResolveAlias_exact:
  "(ResolveAlias (Some v) r requested = (c, resolved, True) \<longrightarrow>
      find_named conn_Name resolved (v_Connections v) = Some c \<and> conn_Name c = resolved
      \<and> redirect_reach r requested resolved)
   \<and> (map_of r requested = None \<and> requested \<noteq> '''' \<longrightarrow>
      ResolveAlias (Some v) r requested =
        (case find_named conn_Name requested (v_Connections v) of
           Some c \<Rightarrow> (c, requested, True) | None \<Rightarrow> (empty_connection, requested, False)))"
proof -
  have "follow_redirects 16 r [] requested = Some requested" if "map_of r requested = None"
    using that by (simp add: numeral_eq_Suc)
  then have "map_of r requested = None \<and> requested \<noteq> '''' \<longrightarrow> ResolveAlias (Some v) r requested =
      (case find_named conn_Name requested (v_Connections v) of
         Some c \<Rightarrow> (c, requested, True) | None \<Rightarrow> (empty_connection, requested, False))"
    by (auto simp: ResolveAlias_def split: option.splits)
  moreover have "ResolveAlias (Some v) r requested = (c, resolved, True) \<Longrightarrow>
      find_named conn_Name resolved (v_Connections v) = Some c \<and> conn_Name c = resolved
      \<and> redirect_reach r requested resolved"
    using ResolveAlias_ok [of "Some v"] by auto
  ultimately show ?thesis by blast
qed

theorem ResolveAlias_exact_witness:
  "ResolveAlias (Some demo_local) [(''old'', ''a'')] ''old'' = (demo_conn ''a'' ''1'', ''a'', True)
    \<and> redirect_reach [(''old'', ''a'')] ''old'' ''a''
    \<and> ResolveAlias (Some demo_local) [(''old'', ''a'')] ''b'' = (demo_conn ''b'' ''2'', ''b'', True)"
proof -
  have 1: "ResolveAlias (Some demo_local) [(''old'', ''a'')] ''old'' = (demo_conn ''a'' ''1'', ''a'', True)"
    by code_simp
  have 2: "find_named conn_Name ''b'' (v_Connections demo_local) = Some (demo_conn ''b'' ''2'')"
    by code_simp
  show ?thesis
    using ResolveAlias_exact [of demo_local "[(''old'', ''a'')]" "''old''" "demo_conn ''a'' ''1''" "''a''"]
      ResolveAlias_exact [of demo_local "[(''old'', ''a'')]" "''b''"] 1 2 by simp
qed

text \<open>
  C34. \<^verbatim>\<open>ResolveJumpChain\<close> terminates, and it succeeds exactly when the target is reached through
  at most five jump hosts with pairwise different names, none of them the target's: the result
  lists the jump hosts in dialling order with the target last, the first one is dialled directly
  and every other element's \<^verbatim>\<open>proxy_jump\<close> resolves to its predecessor.
\<close>

theorem ResolveJumpChain_iff:
  "ResolveJumpChain v r target = Inr chain \<longleftrightarrow>
     (\<exists>cs. chain = rev cs @ [target] \<and> hops v r target cs \<and> length cs \<le> MaxJumpDepth
        \<and> distinct (map conn_Name (target # cs)))"
proof -
  let ?loop = "jump_loop v r [conn_Name target] [conn_Name target] [] (trim_space (conn_ProxyJump target))"
  have "?loop = Inr jumps \<longleftrightarrow>
      (\<exists>cs. jumps = rev cs \<and> hops v r target cs \<and> length cs \<le> MaxJumpDepth
        \<and> distinct (map conn_Name (target # cs)))" for jumps
    by (subst jump_loop_Inr_iff) auto
  moreover have "ResolveJumpChain v r target = Inr chain \<longleftrightarrow>
      (\<exists>jumps. ?loop = Inr jumps \<and> chain = jumps @ [target])"
    by (cases ?loop) (auto simp: ResolveJumpChain_def)
  ultimately show ?thesis by auto
qed

end
