(* ===== verification/Ledger.thy ===== *)
theory Ledger
  imports Inventory_Data
begin

text \<open>
  The ledger of pending mutations (\<^verbatim>\<open>internal/inventorytransaction/transaction.go\<close>): its
  validation, the key deltas it records, the dependencies between its entries, the replay of
  entries on an inventory, the projection of a publication scope and the removal of published
  entries. Slices are values here, so the defensive copies of the source (\<^verbatim>\<open>cloneVault\<close>,
  \<^verbatim>\<open>append(nil, ...)\<close>) are the identity.
\<close>

section \<open>Lookups in an inventory\<close>

fun index_from :: "nat \<Rightarrow> ('a \<Rightarrow> string) \<Rightarrow> string \<Rightarrow> 'a list \<Rightarrow> nat option" where
  "index_from i nm n [] = None"
| "index_from i nm n (x # xs) = (if nm x = n then Some i else index_from (Suc i) nm n xs)"

definition exactConnectionIndex :: "vault \<Rightarrow> string \<Rightarrow> nat option" where
  "exactConnectionIndex v alias = index_from 0 conn_Name alias (v_Connections v)"

definition drop_at :: "nat \<Rightarrow> 'a list \<Rightarrow> 'a list" where
  "drop_at i xs = take i xs @ drop (Suc i) xs"

definition removeKeyByName :: "vault \<Rightarrow> string \<Rightarrow> vault \<times> bool" where
  "removeKeyByName v name =
     (case index_from 0 key_Name name (v_Keys v) of
        Some i \<Rightarrow> (v\<lparr>v_Keys := drop_at i (v_Keys v)\<rparr>, True)
      | None \<Rightarrow> (v, False))"

definition keyByName :: "ssh_key list \<Rightarrow> string \<Rightarrow> ssh_key option" where
  "keyByName keys name = find_named key_Name name keys"

definition snapshotInventory :: "vault \<Rightarrow> inventory_snapshot" where
  "snapshotInventory v = \<lparr>snap_Connections = v_Connections v, snap_Keys = v_Keys v\<rparr>"

definition inventoryOnly :: "vault \<Rightarrow> vault" where
  "inventoryOnly v = v\<lparr>v_PendingBase := None, v_PendingMutations := []\<rparr>"

definition restore_snapshot :: "inventory_snapshot \<Rightarrow> vault" where
  "restore_snapshot s =
     \<lparr>v_Connections = snap_Connections s, v_Keys = snap_Keys s, v_PendingBase = None,
      v_PendingMutations = []\<rparr>"

section \<open>Key changes and key deltas\<close>

datatype key_change = NoChange | KeyCreate | KeyDelete | KeyReplace

definition keyChange :: "ssh_key list \<Rightarrow> ssh_key list \<Rightarrow> string \<Rightarrow> key_change" where
  "keyChange before after name =
     (case (keyByName before name, keyByName after name) of
        (None, Some _) \<Rightarrow> KeyCreate
      | (Some _, None) \<Rightarrow> KeyDelete
      | (Some previous, Some next) \<Rightarrow> if previous \<noteq> next then KeyReplace else NoChange
      | (None, None) \<Rightarrow> NoChange)"

definition changedKeyNames :: "ssh_key list \<Rightarrow> ssh_key list \<Rightarrow> string list" where
  "changedKeyNames before after =
     sort (filter (\<lambda>n. keyChange before after n \<noteq> NoChange) (remdups (map key_Name (before @ after))))"

definition keyDelta :: "ssh_key list \<Rightarrow> ssh_key list \<Rightarrow> ssh_key list \<times> ssh_key list" where
  "keyDelta before after =
     (let changed = (\<lambda>n. last_named key_Name n before = None \<or> last_named key_Name n after = None
                       \<or> last_named key_Name n before \<noteq> last_named key_Name n after);
          names = sort (filter changed (remdups (map key_Name (before @ after))))
      in (List.map_filter (\<lambda>n. last_named key_Name n before) names,
          List.map_filter (\<lambda>n. last_named key_Name n after) names))"

definition referenceRemoved :: "pending_mutation \<Rightarrow> string \<Rightarrow> bool" where
  "referenceRemoved m keyName =
     (case pm_Before m of
        None \<Rightarrow> False
      | Some b \<Rightarrow> conn_KeyName b = keyName \<and>
          (case pm_After m of None \<Rightarrow> True | Some a \<Rightarrow> conn_KeyName a \<noteq> keyName))"

definition keyLifecycleReason :: "pending_mutation \<Rightarrow> string \<Rightarrow> key_change \<Rightarrow> string" where
  "keyLifecycleReason m keyName change =
     (case change of
        KeyCreate \<Rightarrow>
          (case (pm_Before m, pm_After m) of
             (Some b, Some a) \<Rightarrow>
               if conn_KeyName b \<noteq> '''' \<and> conn_KeyName b \<noteq> keyName \<and> conn_KeyName a = keyName
               then ''saved_key_rename'' else ''saved_key_create''
           | _ \<Rightarrow> ''saved_key_create'')
      | KeyReplace \<Rightarrow> ''saved_key_replace''
      | KeyDelete \<Rightarrow>
          (case (pm_Before m, pm_After m) of
             (Some b, None) \<Rightarrow>
               if conn_KeyName b = keyName then ''saved_key_prune'' else ''saved_key_delete''
           | _ \<Rightarrow> ''saved_key_delete'')
      | NoChange \<Rightarrow> ''saved_key_reference'')"

section \<open>Replaying mutations\<close>

text \<open>
  The two loops of \<^verbatim>\<open>applyKeyDelta\<close> range over Go maps, whose iteration order is unspecified: the
  orders are arguments of \<open>applyKeyDelta_in\<close>, and \<open>applyKeyDelta\<close> takes the names in the order of
  the slices.
\<close>

definition delta_before_step :: "ssh_key list \<Rightarrow> ssh_key list \<Rightarrow> ssh_key list \<Rightarrow> string \<Rightarrow> ssh_key list" where
  "delta_before_step before after keys name =
     (case last_named key_Name name before of
        None \<Rightarrow> keys
      | Some previous \<Rightarrow>
          (case last_named key_Name name after of
             Some next \<Rightarrow> if next = previous then keys else remove_named key_Name name keys @ [next]
           | None \<Rightarrow> remove_named key_Name name keys))"

definition delta_after_step :: "ssh_key list \<Rightarrow> ssh_key list \<Rightarrow> ssh_key list \<Rightarrow> string \<Rightarrow> ssh_key list" where
  "delta_after_step before after keys name =
     (case last_named key_Name name after of
        None \<Rightarrow> keys
      | Some next \<Rightarrow>
          if last_named key_Name name before = None then remove_named key_Name name keys @ [next]
          else keys)"

definition applyKeyDelta_in :: "string list \<Rightarrow> string list \<Rightarrow> vault \<Rightarrow> ssh_key list \<Rightarrow> ssh_key list \<Rightarrow> vault" where
  "applyKeyDelta_in before_order after_order v before after =
     (let keys1 = foldl (delta_before_step before after) (v_Keys v) before_order;
          keys2 = foldl (delta_after_step before after) keys1 after_order
      in v\<lparr>v_Keys := sort_key key_Name keys2\<rparr>)"

definition applyKeyDelta :: "vault \<Rightarrow> ssh_key list \<Rightarrow> ssh_key list \<Rightarrow> vault" where
  "applyKeyDelta v before after =
     applyKeyDelta_in (first_names key_Name before) (first_names key_Name after) v before after"

definition applyMutation :: "vault \<Rightarrow> pending_mutation \<Rightarrow> vault" where
  "applyMutation v m =
     (case pm_BulkAfter m of
        Some bulk \<Rightarrow> v\<lparr>v_Connections := snap_Connections bulk, v_Keys := snap_Keys bulk\<rparr>
      | None \<Rightarrow>
          (let v1 =
             (if pm_KeyName m = '''' then
                (case (pm_After m, exactConnectionIndex v (pm_Alias m)) of
                   (None, Some i) \<Rightarrow> v\<lparr>v_Connections := drop_at i (v_Connections v)\<rparr>
                 | (None, None) \<Rightarrow> v
                 | (Some a, Some i) \<Rightarrow> v\<lparr>v_Connections := (v_Connections v)[i := a]\<rparr>
                 | (Some a, None) \<Rightarrow> v\<lparr>v_Connections := v_Connections v @ [a]\<rparr>)
              else v);
               v2 = applyKeyDelta v1 (pm_KeysBefore m) (pm_KeysAfter m)
           in v2\<lparr>v_Connections := sort_key conn_Name (v_Connections v2)\<rparr>))"

section \<open>Dependencies\<close>

record dependency =
  dep_ID :: string
  dep_Alias :: string
  dep_Aliases :: "string list"
  dep_Operation :: string
  dep_CreatedAt :: string
  dep_KeyName :: string
  dep_Connections :: int
  dep_Keys :: int
  dep_Bulk :: bool
  dep_Reason :: string

record dependency_edge =
  de_index :: nat
  de_keyName :: string
  de_reason :: string

fun key_edge :: "pending_mutation \<Rightarrow> pending_mutation \<Rightarrow> nat \<Rightarrow> string list \<Rightarrow> dependency_edge option" where
  "key_edge selected earlier i [] = None"
| "key_edge selected earlier i (k # ks) =
     (let selectedChange = keyChange (pm_KeysBefore selected) (pm_KeysAfter selected) k;
          earlierChange = keyChange (pm_KeysBefore earlier) (pm_KeysAfter earlier) k
      in if earlierChange \<noteq> NoChange then
           Some \<lparr>de_index = i, de_keyName = k, de_reason = keyLifecycleReason earlier k earlierChange\<rparr>
         else if (selectedChange = KeyReplace \<or> selectedChange = KeyDelete) \<and> referenceRemoved earlier k then
           Some \<lparr>de_index = i, de_keyName = k, de_reason = ''saved_key_reference''\<rparr>
         else key_edge selected earlier i ks)"

definition direct_edge :: "pending_mutation \<Rightarrow> pending_mutation \<Rightarrow> nat \<Rightarrow> dependency_edge option" where
  "direct_edge selected earlier i =
     (if pm_BulkAfter selected \<noteq> None \<or> pm_BulkAfter earlier \<noteq> None then
        Some \<lparr>de_index = i, de_keyName = '''', de_reason = ''inventory_order''\<rparr>
      else if pm_Alias earlier \<noteq> '''' \<and> pm_Alias earlier = pm_Alias selected then
        Some \<lparr>de_index = i, de_keyName = '''', de_reason = ''alias_order''\<rparr>
      else
        (case key_edge selected earlier i (changedKeyNames (pm_KeysBefore selected) (pm_KeysAfter selected)) of
           Some e \<Rightarrow> Some e
         | None \<Rightarrow>
             (case pm_After selected of
                None \<Rightarrow> None
              | Some a \<Rightarrow>
                  if conn_KeyName a = '''' then None
                  else
                    (let earlierChange = keyChange (pm_KeysBefore earlier) (pm_KeysAfter earlier) (conn_KeyName a)
                     in if earlierChange = KeyCreate \<or> earlierChange = KeyReplace then
                          Some \<lparr>de_index = i, de_keyName = conn_KeyName a,
                                de_reason = keyLifecycleReason earlier (conn_KeyName a) earlierChange\<rparr>
                        else None))))"

definition directDependencyEdges :: "pending_mutation list \<Rightarrow> nat \<Rightarrow> dependency_edge list" where
  "directDependencyEdges ms selectedIndex =
     List.map_filter (\<lambda>i. direct_edge (ms ! selectedIndex) (ms ! i) i) [0..<selectedIndex]"

definition dependency_of :: "pending_mutation list \<Rightarrow> dependency_edge \<Rightarrow> dependency" where
  "dependency_of ms edge =
     (let m = ms ! de_index edge in
      \<lparr>dep_ID = pm_ID m, dep_Alias = pm_Alias m, dep_Aliases = pm_Aliases m,
       dep_Operation = pm_Operation m, dep_CreatedAt = pm_CreatedAt m,
       dep_KeyName = de_keyName edge, dep_Connections = pm_ConnectionCount m,
       dep_Keys = pm_KeyCount m, dep_Bulk = (pm_BulkAfter m \<noteq> None), dep_Reason = de_reason edge\<rparr>)"

text \<open>
  The recursive closure \<^verbatim>\<open>collect\<close>, with the map \<^verbatim>\<open>required\<close> passed along. Edges point to smaller
  indexes, so a fuel of one more than the target is enough (see \<open>dom_collect\<close>).
\<close>

fun collect :: "nat \<Rightarrow> (nat \<Rightarrow> dependency_edge list) \<Rightarrow> pending_mutation list \<Rightarrow> nat \<Rightarrow>
    (nat \<rightharpoonup> dependency) \<Rightarrow> (nat \<rightharpoonup> dependency)" where
  "collect 0 edges ms target required = required"
| "collect (Suc fuel) edges ms target required =
     foldl (\<lambda>req edge.
       let req1 = collect fuel edges ms (de_index edge) req
       in if req1 (de_index edge) \<noteq> None then req1
          else req1(de_index edge \<mapsto> dependency_of ms edge))
     required (edges target)"

definition dependencies :: "pending_mutation list \<Rightarrow> nat \<Rightarrow> dependency list" where
  "dependencies ms selectedIndex =
     (let required = collect (Suc selectedIndex) (directDependencyEdges ms) ms selectedIndex Map.empty
      in List.map_filter required [0..<Suc selectedIndex])"

section \<open>Validation, preflight and projection\<close>

datatype ledger_error =
    PendingWithoutBase
  | BaseWithoutPending
  | EmptyTransactionID
  | DuplicateTransactionID string
  | PendingNotFound string
  | DependencyError string "dependency list"
  | IntentOrderChanged
  | IntentPartiallyFinalized
  | IntentWithoutBase

fun check_ids :: "string list \<Rightarrow> pending_mutation list \<Rightarrow> ledger_error option" where
  "check_ids seen [] = None"
| "check_ids seen (m # ms) =
     (if pm_ID m = '''' then Some EmptyTransactionID
      else if pm_ID m \<in> set seen then Some (DuplicateTransactionID (pm_ID m))
      else check_ids (pm_ID m # seen) ms)"

definition validateLedger :: "vault \<Rightarrow> ledger_error option" where
  "validateLedger v =
     (if v_PendingBase v = None \<and> v_PendingMutations v \<noteq> [] then Some PendingWithoutBase
      else if v_PendingBase v \<noteq> None \<and> v_PendingMutations v = [] then Some BaseWithoutPending
      else check_ids [] (v_PendingMutations v))"

definition pendingIndex :: "pending_mutation list \<Rightarrow> string \<Rightarrow> nat option" where
  "pendingIndex ms i = index_from 0 pm_ID i ms"

definition Preflight :: "vault \<Rightarrow> string \<Rightarrow> ledger_error option" where
  "Preflight v only =
     (case validateLedger v of
        Some e \<Rightarrow> Some e
      | None \<Rightarrow>
          if only = '''' then None
          else case pendingIndex (v_PendingMutations v) only of
            None \<Rightarrow> Some (PendingNotFound only)
          | Some i \<Rightarrow>
              (let required = dependencies (v_PendingMutations v) i
               in if required \<noteq> [] then Some (DependencyError only required) else None))"

record projection =
  proj_Vault :: vault
  proj_Selected :: "pending_mutation list"

definition project :: "vault \<Rightarrow> string \<Rightarrow> ledger_error + projection" where
  "project v only =
     (case Preflight v only of
        Some e \<Rightarrow> Inl e
      | None \<Rightarrow>
          (case v_PendingBase v of
             None \<Rightarrow> Inr \<lparr>proj_Vault = inventoryOnly v, proj_Selected = []\<rparr>
           | Some base \<Rightarrow>
               if v_PendingMutations v = [] then Inr \<lparr>proj_Vault = inventoryOnly v, proj_Selected = []\<rparr>
               else
                 (let selected =
                    (if only = '''' then v_PendingMutations v
                     else case pendingIndex (v_PendingMutations v) only of
                       Some i \<Rightarrow> [v_PendingMutations v ! i] | None \<Rightarrow> [])
                  in Inr \<lparr>proj_Vault = foldl applyMutation (restore_snapshot base) selected,
                          proj_Selected = selected\<rparr>)))"

text \<open>
  The scan over the IDs of an intent: the IDs that are gone are counted, the others must occur in
  ledger order. \<open>next\<close> is one more than \<^verbatim>\<open>previousIndex\<close>.
\<close>

fun scan_ids :: "pending_mutation list \<Rightarrow> nat \<Rightarrow> nat \<Rightarrow> string list \<Rightarrow>
    ledger_error + (pending_mutation list \<times> nat)" where
  "scan_ids ms next missing [] = Inr ([], missing)"
| "scan_ids ms next missing (i # ids) =
     (case pendingIndex ms i of
        None \<Rightarrow> scan_ids ms next (Suc missing) ids
      | Some ix \<Rightarrow>
          if ix < next then Inl IntentOrderChanged
          else case scan_ids ms (Suc ix) missing ids of
            Inl e \<Rightarrow> Inl e
          | Inr (sel, mis) \<Rightarrow> Inr (ms ! ix # sel, mis))"

definition projectTransactionIDs :: "vault \<Rightarrow> string list \<Rightarrow> ledger_error + projection" where
  "projectTransactionIDs v ids =
     (case validateLedger v of
        Some e \<Rightarrow> Inl e
      | None \<Rightarrow>
          (case scan_ids (v_PendingMutations v) 0 0 ids of
             Inl e \<Rightarrow> Inl e
           | Inr (selected, missing) \<Rightarrow>
               if missing = length ids then Inr \<lparr>proj_Vault = inventoryOnly v, proj_Selected = []\<rparr>
               else if missing \<noteq> 0 then Inl IntentPartiallyFinalized
               else case v_PendingBase v of
                 None \<Rightarrow> Inl IntentWithoutBase
               | Some base \<Rightarrow>
                   Inr \<lparr>proj_Vault = foldl applyMutation (restore_snapshot base) selected,
                        proj_Selected = selected\<rparr>))"

definition markPublished :: "vault \<Rightarrow> pending_mutation list \<Rightarrow> vault \<Rightarrow> vault" where
  "markPublished v selected projected =
     (if selected = [] then v
      else
        (let published = set (map pm_ID selected);
             remaining = filter (\<lambda>m. pm_ID m \<notin> published) (v_PendingMutations v)
         in v\<lparr>v_PendingMutations := remaining,
              v_PendingBase := (if remaining = [] then None else Some (snapshotInventory projected))\<rparr>))"

end
