(* ===== verification/Ledger_Replay.thy ===== *)
theory Ledger_Replay
  imports Ledger
begin

text \<open>
  What replaying a ledger computes. An inventory is abstracted to two finite maps; every mutation
  acts on them as a simple update (\<open>mut_effect\<close>), and \<open>applyMutation\<close> refines that action. On this
  level independent mutations commute, which is what makes publishing a single transaction sound.
\<close>

section \<open>The stores behind an inventory\<close>

interpretation conns: keyed_store "conn_Name :: connection \<Rightarrow> string" "distinct_names conn_Name" "\<lambda>xs n. find_named conn_Name n xs"
  "put_named conn_Name" "remove_named conn_Name"
  by unfold_locales
    (auto simp: find_put_named find_remove_named distinct_put_named distinct_remove_named fun_eq_iff)

lemma distinct_replace_last:
  "distinct_names nm xs \<Longrightarrow> distinct_names nm (remove_named nm (nm x) xs @ [x])"
  using names_remove_named [of nm xs "nm x"] by (auto simp: distinct_remove_named)

interpretation keys: keyed_store "key_Name :: ssh_key \<Rightarrow> string" "distinct_names key_Name" "\<lambda>xs n. find_named key_Name n xs"
  "\<lambda>k ks. remove_named key_Name (key_Name k) ks @ [k]" "remove_named key_Name"
proof
  fix s :: "ssh_key list" and x :: ssh_key and n :: string
  assume d: "distinct_names key_Name s"
  then show "distinct_names key_Name (remove_named key_Name (key_Name x) s @ [x])"
    by (rule distinct_replace_last)
  then show "(\<lambda>n. find_named key_Name n (remove_named key_Name (key_Name x) s @ [x]))
      = (\<lambda>n. find_named key_Name n s)(key_Name x \<mapsto> x)"
    using d by (auto simp: find_append_fresh find_remove_named fun_eq_iff)
  show "(\<lambda>k. find_named key_Name k (remove_named key_Name n s)) = (\<lambda>k. find_named key_Name k s)(n := None)"
    using d by (auto simp: find_remove_named)
  show "distinct_names key_Name (remove_named key_Name n s)"
    using d by (rule distinct_remove_named)
qed

section \<open>Index operations\<close>

lemma index_from_None_iff: "index_from i nm n xs = None \<longleftrightarrow> n \<notin> nm ` set xs"
  by (induction i nm n xs rule: index_from.induct) auto

lemma index_from_SomeD:
  "index_from i nm n xs = Some j \<Longrightarrow>
     i \<le> j \<and> j - i < length xs \<and> nm (xs ! (j - i)) = n \<and> drop_at (j - i) xs = remove_named nm n xs
     \<and> (\<forall>y. nm y = n \<longrightarrow> xs[j - i := y] = put_named nm y xs)
     \<and> find_named nm n xs = Some (xs ! (j - i))"
proof (induction i nm n xs rule: index_from.induct)
  case (2 i nm n x xs)
  show ?case
  proof (cases "nm x = n")
    case True
    with 2 show ?thesis by (auto simp: drop_at_def)
  next
    case False
    with 2 have IH: "Suc i \<le> j" "drop_at (j - Suc i) xs = remove_named nm n xs"
      "j - Suc i < length xs" "nm (xs ! (j - Suc i)) = n"
      "\<forall>y. nm y = n \<longrightarrow> xs[j - Suc i := y] = put_named nm y xs"
      "find_named nm n xs = Some (xs ! (j - Suc i))"
      by auto
    moreover have "j - i = Suc (j - Suc i)" using IH(1) by simp
    ultimately show ?thesis using False by (auto simp: drop_at_def)
  qed
qed simp

lemma exactConnectionIndex_Some:
  "exactConnectionIndex v a = Some i \<Longrightarrow>
     i < length (v_Connections v) \<and> conn_Name (v_Connections v ! i) = a
     \<and> drop_at i (v_Connections v) = remove_named conn_Name a (v_Connections v)
     \<and> (\<forall>y. conn_Name y = a \<longrightarrow> (v_Connections v)[i := y] = put_named conn_Name y (v_Connections v))
     \<and> find_named conn_Name a (v_Connections v) = Some (v_Connections v ! i)"
  unfolding exactConnectionIndex_def using index_from_SomeD [of 0] by fastforce

lemma exactConnectionIndex_None:
  "exactConnectionIndex v a = None \<longleftrightarrow> a \<notin> conn_Name ` set (v_Connections v)"
  by (simp add: exactConnectionIndex_def index_from_None_iff)

lemma removeKeyByName_eq:
  "removeKeyByName v n = (v\<lparr>v_Keys := remove_named key_Name n (v_Keys v)\<rparr>, n \<in> key_Name ` set (v_Keys v))"
proof (cases "index_from 0 key_Name n (v_Keys v)")
  case None
  then have "n \<notin> key_Name ` set (v_Keys v)" by (simp add: index_from_None_iff)
  moreover from this have "remove_named key_Name n (v_Keys v) = v_Keys v" by (rule remove_named_absent)
  ultimately show ?thesis using None by (simp add: removeKeyByName_def)
next
  case (Some i)
  then have "n \<in> key_Name ` set (v_Keys v)"
    using index_from_None_iff [of 0 key_Name n "v_Keys v"] by auto
  with index_from_SomeD [OF Some] Some show ?thesis by (simp add: removeKeyByName_def)
qed

section \<open>Well-formed mutations and inventories\<close>

definition wf_inventory :: "vault \<Rightarrow> bool" where
  "wf_inventory v = (distinct_names conn_Name (v_Connections v) \<and> distinct_names key_Name (v_Keys v))"

definition wf_mutation :: "pending_mutation \<Rightarrow> bool" where
  "wf_mutation m =
     ((case pm_BulkAfter m of
         Some s \<Rightarrow> wf_inventory (restore_snapshot s)
       | None \<Rightarrow> pm_KeyName m = '''' \<longrightarrow>
           pm_Alias m \<noteq> '''' \<and> (case pm_After m of None \<Rightarrow> True | Some a \<Rightarrow> conn_Name a = pm_Alias m))
      \<and> distinct_names key_Name (pm_KeysBefore m) \<and> distinct_names key_Name (pm_KeysAfter m))"

type_synonym inventory_map = "(string \<rightharpoonup> connection) \<times> (string \<rightharpoonup> ssh_key)"

definition inventory_of :: "vault \<Rightarrow> inventory_map" where
  "inventory_of v = ((\<lambda>n. find_named conn_Name n (v_Connections v)), (\<lambda>n. find_named key_Name n (v_Keys v)))"

text \<open>The abstract action of one mutation on the two maps.\<close>

definition delta_effect :: "ssh_key list \<Rightarrow> ssh_key list \<Rightarrow> (string \<rightharpoonup> ssh_key) \<Rightarrow> (string \<rightharpoonup> ssh_key)" where
  "delta_effect before after K =
     (\<lambda>n. if last_named key_Name n before = last_named key_Name n after then K n
          else last_named key_Name n after)"

definition mut_effect :: "pending_mutation \<Rightarrow> inventory_map \<Rightarrow> inventory_map" where
  "mut_effect m CK =
     (case pm_BulkAfter m of
        Some s \<Rightarrow> inventory_of (restore_snapshot s)
      | None \<Rightarrow>
          ((if pm_KeyName m = '''' then (fst CK)(pm_Alias m := pm_After m) else fst CK),
           delta_effect (pm_KeysBefore m) (pm_KeysAfter m) (snd CK)))"

section \<open>The key delta\<close>

definition delta_updates :: "string list \<Rightarrow> string list \<Rightarrow> ssh_key list \<Rightarrow> ssh_key list \<Rightarrow>
    (string \<times> ssh_key option) list" where
  "delta_updates bo ao before after =
     map (\<lambda>n. (n, last_named key_Name n after))
       (filter (\<lambda>n. last_named key_Name n before \<noteq> None
                  \<and> last_named key_Name n before \<noteq> last_named key_Name n after) bo
        @ filter (\<lambda>n. last_named key_Name n before = None \<and> last_named key_Name n after \<noteq> None) ao)"

lemma keys_steps_append: "keys.steps (us @ vs) s = keys.steps vs (keys.steps us s)"
  by (induction us arbitrary: s) auto

lemma foldl_before_steps:
  "foldl (delta_before_step before after) ks bo
     = keys.steps (map (\<lambda>n. (n, last_named key_Name n after))
         (filter (\<lambda>n. last_named key_Name n before \<noteq> None
                  \<and> last_named key_Name n before \<noteq> last_named key_Name n after) bo)) ks"
  by (induction bo arbitrary: ks)
    (auto simp: delta_before_step_def split: option.splits dest!: last_named_SomeD)

lemma foldl_after_steps:
  "foldl (delta_after_step before after) ks ao
     = keys.steps (map (\<lambda>n. (n, last_named key_Name n after))
         (filter (\<lambda>n. last_named key_Name n before = None \<and> last_named key_Name n after \<noteq> None) ao)) ks"
  by (induction ao arbitrary: ks)
    (auto simp: delta_after_step_def split: option.splits dest!: last_named_SomeD)

lemma applyKeyDelta_in_steps:
  "applyKeyDelta_in bo ao v before after
     = v\<lparr>v_Keys := sort_key key_Name (keys.steps (delta_updates bo ao before after) (v_Keys v))\<rparr>"
  by (simp add: applyKeyDelta_in_def foldl_before_steps foldl_after_steps delta_updates_def keys_steps_append)

lemma well_keyed_delta: "keys.well_keyed (delta_updates bo ao before after)"
  by (auto simp: keys.well_keyed_def delta_updates_def dest: last_named_SomeD [OF sym])

lemma map_of_graph: "map_of (rev (map (\<lambda>n. (n, f n)) ns)) n = (if n \<in> set ns then Some (f n) else None)"
  by (simp add: rev_map map_of_map_restrict)

lemma delta_lookup:
  assumes "distinct_names key_Name ks"
    and "set bo = key_Name ` set before" and "set ao = key_Name ` set after"
  shows "(\<lambda>n. find_named key_Name n (keys.steps (delta_updates bo ao before after) ks))
    = delta_effect before after (\<lambda>n. find_named key_Name n ks)"
proof
  fix n
  let ?ns = "filter (\<lambda>n. last_named key_Name n before \<noteq> None
                  \<and> last_named key_Name n before \<noteq> last_named key_Name n after) bo
        @ filter (\<lambda>n. last_named key_Name n before = None \<and> last_named key_Name n after \<noteq> None) ao"
  have mem: "n \<in> set ?ns \<longleftrightarrow> last_named key_Name n before \<noteq> last_named key_Name n after"
    using assms(2,3) last_named_None_iff [of key_Name n before] last_named_None_iff [of key_Name n after]
    by auto
  have "find_named key_Name n (keys.steps (delta_updates bo ao before after) ks)
      = (case map_of (rev (delta_updates bo ao before after)) n of
           None \<Rightarrow> find_named key_Name n ks | Some y \<Rightarrow> y)"
    using keys.lookup_steps [OF assms(1) well_keyed_delta] by (rule fun_cong)
  also have "\<dots> = delta_effect before after (\<lambda>n. find_named key_Name n ks) n"
    unfolding delta_updates_def map_of_graph using mem by (simp add: delta_effect_def)
  finally show "find_named key_Name n (keys.steps (delta_updates bo ao before after) ks)
      = delta_effect before after (\<lambda>n. find_named key_Name n ks) n" .
qed

lemma applyKeyDelta_in_effect:
  assumes "distinct_names key_Name (v_Keys v)"
    and "set bo = key_Name ` set before" and "set ao = key_Name ` set after"
  shows "distinct_names key_Name (v_Keys (applyKeyDelta_in bo ao v before after))"
    and "(\<lambda>n. find_named key_Name n (v_Keys (applyKeyDelta_in bo ao v before after)))
       = delta_effect before after (\<lambda>n. find_named key_Name n (v_Keys v))"
    and "v_Connections (applyKeyDelta_in bo ao v before after) = v_Connections v"
  using assms keys.invar_steps [OF assms(1)] delta_lookup [OF assms]
  by (simp_all add: applyKeyDelta_in_steps distinct_names_sort find_named_sort)

section \<open>Refinement\<close>

lemma applyMutation_conns:
  assumes "pm_BulkAfter m = None" and "wf_mutation m"
  shows "v_Connections (applyMutation v m) = sort_key conn_Name
    (if pm_KeyName m = '''' then conns.step (pm_Alias m, pm_After m) (v_Connections v) else v_Connections v)"
proof (cases "pm_KeyName m = ''''")
  case True
  with assms have name: "\<And>a. pm_After m = Some a \<Longrightarrow> conn_Name a = pm_Alias m"
    by (auto simp: wf_mutation_def)
  show ?thesis
  proof (cases "exactConnectionIndex v (pm_Alias m)")
    case None
    then have "pm_Alias m \<notin> conn_Name ` set (v_Connections v)"
      by (simp add: exactConnectionIndex_None)
    with None True assms(1) name show ?thesis
      by (cases "pm_After m")
        (auto simp: applyMutation_def applyKeyDelta_def applyKeyDelta_in_def Let_def put_named_append remove_named_absent)
  next
    case (Some i)
    with exactConnectionIndex_Some [OF Some] True assms(1) name show ?thesis
      by (cases "pm_After m") (auto simp: applyMutation_def applyKeyDelta_def applyKeyDelta_in_def Let_def)
  qed
next
  case False
  with assms show ?thesis
    by (simp add: applyMutation_def applyKeyDelta_def applyKeyDelta_in_def Let_def)
qed

lemma applyMutation_keys:
  assumes "pm_BulkAfter m = None"
  shows "v_Keys (applyMutation v m) = v_Keys (applyKeyDelta v (pm_KeysBefore m) (pm_KeysAfter m))"
  using assms by (auto simp: applyMutation_def applyKeyDelta_def applyKeyDelta_in_def Let_def split: option.splits)

lemma applyMutation_refines:
  assumes "wf_inventory v" and "wf_mutation m"
  shows "wf_inventory (applyMutation v m)" and "inventory_of (applyMutation v m) = mut_effect m (inventory_of v)"
proof -
  have "wf_inventory (applyMutation v m) \<and> inventory_of (applyMutation v m) = mut_effect m (inventory_of v)"
  proof (cases "pm_BulkAfter m")
    case (Some s)
    with assms show ?thesis
      by (auto simp: applyMutation_def wf_mutation_def wf_inventory_def inventory_of_def mut_effect_def restore_snapshot_def)
  next
    case None
    let ?cs = "if pm_KeyName m = '''' then conns.step (pm_Alias m, pm_After m) (v_Connections v) else v_Connections v"
    have dc: "distinct_names conn_Name ?cs"
      using assms(1) conns.invar_step by (auto simp: wf_inventory_def)
    have "(\<lambda>n. find_named conn_Name n ?cs)
        = (if pm_KeyName m = '''' then (\<lambda>n. find_named conn_Name n (v_Connections v))(pm_Alias m := pm_After m)
           else (\<lambda>n. find_named conn_Name n (v_Connections v)))"
      using assms None conns.lookup_step [of "v_Connections v" "(pm_Alias m, pm_After m)"]
      by (auto simp: wf_inventory_def wf_mutation_def conns.well_keyed_def split: option.splits)
    then have C: "(\<lambda>n. find_named conn_Name n (v_Connections (applyMutation v m)))
        = (if pm_KeyName m = '''' then (\<lambda>n. find_named conn_Name n (v_Connections v))(pm_Alias m := pm_After m)
           else (\<lambda>n. find_named conn_Name n (v_Connections v)))"
      and DC: "distinct_names conn_Name (v_Connections (applyMutation v m))"
      using dc by (simp_all only: applyMutation_conns [OF None assms(2)] find_named_sort distinct_names_sort)
    have "distinct_names key_Name (v_Keys v)" using assms(1) by (simp add: wf_inventory_def)
    note K = applyKeyDelta_in_effect [OF this set_first_names set_first_names]
    then have K: "(\<lambda>n. find_named key_Name n (v_Keys (applyMutation v m)))
        = delta_effect (pm_KeysBefore m) (pm_KeysAfter m) (\<lambda>n. find_named key_Name n (v_Keys v))"
      and DK: "distinct_names key_Name (v_Keys (applyMutation v m))"
      by (simp_all add: applyMutation_keys [OF None] applyKeyDelta_def)
    show ?thesis
      using C DC K DK None by (simp add: wf_inventory_def inventory_of_def mut_effect_def)
  qed
  then show "wf_inventory (applyMutation v m)" "inventory_of (applyMutation v m) = mut_effect m (inventory_of v)"
    by auto
qed

lemma replay_refines:
  assumes "wf_inventory v" and "list_all wf_mutation ms"
  shows "wf_inventory (foldl applyMutation v ms)
    \<and> inventory_of (foldl applyMutation v ms) = foldl (\<lambda>s m. mut_effect m s) (inventory_of v) ms"
  using assms by (induction ms arbitrary: v) (auto simp: applyMutation_refines)

end
