(* ===== verification/Ledger_Publication.thy ===== *)
theory Ledger_Publication
  imports Ledger_Replay
begin

text \<open>
  Correctness of the ledger: recorded key deltas reproduce the change they were taken from, the
  dependency closure is the transitive closure of the direct dependencies, and publishing a scope
  that passed the preflight leaves a ledger that still replays to the local inventory.
\<close>

section \<open>Recorded key deltas\<close>

lemma set_map_filter: "set (List.map_filter f xs) = {y. \<exists>x \<in> set xs. f x = Some y}"
  by (induction xs) (auto simp: map_filter_simps split: option.splits)

lemma names_map_filter:
  assumes "\<And>n y. f n = Some y \<Longrightarrow> nm y = n"
  shows "map nm (List.map_filter f ns) = filter (\<lambda>n. f n \<noteq> None) ns"
  by (induction ns) (auto simp: map_filter_simps assms split: option.splits)

lemma find_map_filter:
  assumes "\<And>n y. f n = Some y \<Longrightarrow> nm y = n"
  shows "find_named nm n (List.map_filter f ns) = (if n \<in> set ns then f n else None)"
  by (induction ns) (auto simp: map_filter_simps assms split: option.splits)

lemma keyDelta_sound:
  assumes "distinct_names key_Name before" and "distinct_names key_Name after"
    and "keyDelta before after = (kb, ka)"
  shows "distinct_names key_Name kb \<and> distinct_names key_Name ka
    \<and> delta_effect kb ka (\<lambda>n. find_named key_Name n before) = (\<lambda>n. find_named key_Name n after)"
proof -
  let ?b = "\<lambda>n. find_named key_Name n before" and ?a = "\<lambda>n. find_named key_Name n after"
  define names where "names = sort (filter (\<lambda>n. ?b n = None \<or> ?a n = None \<or> ?b n \<noteq> ?a n)
    (remdups (map key_Name (before @ after))))"
  have kb: "kb = List.map_filter ?b names" and ka: "ka = List.map_filter ?a names"
    using assms by (auto simp: keyDelta_def names_def last_named_distinct Let_def)
  have named: "\<And>n y. ?b n = Some y \<Longrightarrow> key_Name y = n" "\<And>n y. ?a n = Some y \<Longrightarrow> key_Name y = n"
    by (auto dest: find_named_SomeD)
  have dist: "distinct_names key_Name kb" "distinct_names key_Name ka"
    using names_map_filter [of ?b key_Name names] names_map_filter [of ?a key_Name names] named
    by (auto simp: kb ka names_def)
  have mem: "n \<in> set names \<longleftrightarrow> ?b n \<noteq> ?a n" for n
    using find_named_None_iff [of key_Name n before] find_named_None_iff [of key_Name n after]
    by (auto simp: names_def)
  have "find_named key_Name n kb = (if n \<in> set names then ?b n else None)"
    "find_named key_Name n ka = (if n \<in> set names then ?a n else None)" for n
    unfolding kb ka by (simp_all add: find_map_filter named)
  then have "delta_effect kb ka ?b = ?a"
    using mem by (auto simp: delta_effect_def last_named_distinct dist fun_eq_iff)
  with dist show ?thesis by blast
qed

section \<open>Independent mutations commute\<close>

lemma keyChange_NoChange_iff:
  "keyChange before after n = NoChange \<longleftrightarrow> find_named key_Name n before = find_named key_Name n after"
  by (auto simp: keyChange_def keyByName_def split: option.splits)

lemma changedKeyNames_iff:
  "n \<in> set (changedKeyNames before after) \<longleftrightarrow> find_named key_Name n before \<noteq> find_named key_Name n after"
  using find_named_None_iff [of key_Name n before] find_named_None_iff [of key_Name n after]
  by (auto simp: changedKeyNames_def keyChange_NoChange_iff)

lemma key_edge_NoneD:
  "key_edge selected earlier i ks = None \<Longrightarrow>
     \<forall>k \<in> set ks. keyChange (pm_KeysBefore earlier) (pm_KeysAfter earlier) k = NoChange"
  by (induction ks) (auto simp: Let_def split: if_splits)

lemma delta_effect_commute:
  assumes "\<And>n. last_named key_Name n b1 = last_named key_Name n a1 \<or> last_named key_Name n b2 = last_named key_Name n a2"
  shows "delta_effect b1 a1 (delta_effect b2 a2 K) = delta_effect b2 a2 (delta_effect b1 a1 K)"
  using assms by (auto simp: delta_effect_def fun_eq_iff)

lemma direct_edge_None_commute:
  assumes "direct_edge m e i = None" and "wf_mutation m" and "wf_mutation e"
  shows "mut_effect m (mut_effect e s) = mut_effect e (mut_effect m s)"
proof -
  have bulk: "pm_BulkAfter m = None" "pm_BulkAfter e = None"
    and al: "\<not> (pm_Alias e \<noteq> '''' \<and> pm_Alias e = pm_Alias m)"
    and edge: "key_edge m e i (changedKeyNames (pm_KeysBefore m) (pm_KeysAfter m)) = None"
    using assms(1) by (auto simp: direct_edge_def Let_def split: if_splits option.splits)
  have "last_named key_Name n (pm_KeysBefore m) = last_named key_Name n (pm_KeysAfter m)
      \<or> last_named key_Name n (pm_KeysBefore e) = last_named key_Name n (pm_KeysAfter e)" for n
    using key_edge_NoneD [OF edge] assms(2,3)
    by (auto simp: wf_mutation_def last_named_distinct changedKeyNames_iff keyChange_NoChange_iff)
  then have "delta_effect (pm_KeysBefore m) (pm_KeysAfter m) (delta_effect (pm_KeysBefore e) (pm_KeysAfter e) K)
      = delta_effect (pm_KeysBefore e) (pm_KeysAfter e) (delta_effect (pm_KeysBefore m) (pm_KeysAfter m) K)" for K
    by (rule delta_effect_commute)
  moreover have "pm_Alias e \<noteq> pm_Alias m" if "pm_KeyName m = ''''" "pm_KeyName e = ''''"
    using that al assms(2,3) bulk by (auto simp: wf_mutation_def)
  ultimately show ?thesis
    using bulk by (auto simp: mut_effect_def fun_upd_twist)
qed

lemma commute_past:
  assumes "\<forall>e \<in> set es. \<forall>s. mut_effect m (mut_effect e s) = mut_effect e (mut_effect m s)"
  shows "foldl (\<lambda>s m. mut_effect m s) (mut_effect m s) es = mut_effect m (foldl (\<lambda>s m. mut_effect m s) s es)"
  using assms
proof (induction es arbitrary: s)
  case (Cons e es)
  then have "mut_effect e (mut_effect m s) = mut_effect m (mut_effect e s)"
    by (metis list.set_intros(1))
  then have "foldl (\<lambda>s m. mut_effect m s) (mut_effect m s) (e # es)
      = foldl (\<lambda>s m. mut_effect m s) (mut_effect m (mut_effect e s)) es" by simp
  also have "\<dots> = mut_effect m (foldl (\<lambda>s m. mut_effect m s) (mut_effect e s) es)"
    using Cons.prems by (intro Cons.IH) auto
  finally show ?case by simp
qed simp

section \<open>The dependency closure\<close>

definition edge_rel :: "(nat \<Rightarrow> dependency_edge list) \<Rightarrow> (nat \<times> nat) set" where
  "edge_rel edges = {(t, de_index e) | t e. e \<in> set (edges t)}"

lemma edge_rel_trancl:
  "{j. (t, j) \<in> (edge_rel edges)\<^sup>+} = (\<Union>e \<in> set (edges t). insert (de_index e) {j. (de_index e, j) \<in> (edge_rel edges)\<^sup>+})"
proof -
  have "(t, j) \<in> (edge_rel edges)\<^sup>+ \<longleftrightarrow> (\<exists>e \<in> set (edges t). j = de_index e \<or> (de_index e, j) \<in> (edge_rel edges)\<^sup>+)" for j
    by (subst trancl_unfold_left) (auto simp: edge_rel_def rtrancl_eq_or_trancl relcomp_unfold)
  then show ?thesis by auto
qed

lemma dom_collect:
  assumes "\<And>t e. e \<in> set (edges t) \<Longrightarrow> de_index e < t" and "target < fuel"
  shows "dom (collect fuel edges ms target req) = dom req \<union> {j. (target, j) \<in> (edge_rel edges)\<^sup>+}"
  using assms(2)
proof (induction fuel arbitrary: target req)
  case 0
  then show ?case by simp
next
  case (Suc fuel)
  let ?step = "\<lambda>req edge. let req1 = collect fuel edges ms (de_index edge) req
       in if req1 (de_index edge) \<noteq> None then req1 else req1(de_index edge \<mapsto> dependency_of ms edge)"
  let ?reach = "\<lambda>e. insert (de_index e) {j. (de_index e, j) \<in> (edge_rel edges)\<^sup>+}"
  have step: "dom (?step r e) = dom r \<union> ?reach e" if "e \<in> set (edges target)" for r e
  proof -
    have "de_index e < fuel" using assms(1) [OF that] Suc.prems by simp
    then have "dom (collect fuel edges ms (de_index e) r) = dom r \<union> {j. (de_index e, j) \<in> (edge_rel edges)\<^sup>+}"
      by (rule Suc.IH)
    then show ?thesis by (auto simp: Let_def dom_def)
  qed
  have "set es \<subseteq> set (edges target) \<Longrightarrow> dom (foldl ?step r es) = dom r \<union> (\<Union>e \<in> set es. ?reach e)" for r es
  proof (induction es arbitrary: r)
    case (Cons e es)
    then have e: "e \<in> set (edges target)" and "set es \<subseteq> set (edges target)" by auto
    then have "dom (foldl ?step r (e # es)) = dom (?step r e) \<union> (\<Union>e \<in> set es. ?reach e)"
      using Cons.IH [of "?step r e"] by simp
    also have "\<dots> = dom r \<union> (\<Union>e \<in> set (e # es). ?reach e)" unfolding step [OF e] by auto
    finally show ?case .
  qed simp
  then show ?case by (simp add: edge_rel_trancl [of target])
qed

lemma key_edge_index: "key_edge m e i ks = Some d \<Longrightarrow> de_index d = i"
  by (induction ks) (auto simp: Let_def split: if_splits)

lemma direct_edge_index: "direct_edge m e i = Some d \<Longrightarrow> de_index d = i"
  by (auto simp: direct_edge_def Let_def key_edge_index split: if_splits option.splits)

lemma directDependencyEdges_index: "e \<in> set (directDependencyEdges ms t) \<Longrightarrow> de_index e < t"
  by (auto simp: directDependencyEdges_def set_map_filter dest: direct_edge_index)

definition depends_directly :: "pending_mutation list \<Rightarrow> (nat \<times> nat) set" where
  "depends_directly ms = {(i, j). j < i \<and> direct_edge (ms ! i) (ms ! j) j \<noteq> None}"

lemma edge_rel_direct: "edge_rel (directDependencyEdges ms) = depends_directly ms"
proof -
  have "(i, j) \<in> edge_rel (directDependencyEdges ms) \<longleftrightarrow> (i, j) \<in> depends_directly ms" for i j
    using direct_edge_index
    by (fastforce simp: edge_rel_def depends_directly_def directDependencyEdges_def set_map_filter)
  then show ?thesis by auto
qed

lemma depends_directly_less: "(i, j) \<in> (depends_directly ms)\<^sup>+ \<Longrightarrow> j < i"
  by (induction rule: trancl_induct) (auto simp: depends_directly_def)

text \<open>Every recorded dependency describes the entry it is recorded for.\<close>

definition describes :: "pending_mutation list \<Rightarrow> (nat \<rightharpoonup> dependency) \<Rightarrow> bool" where
  "describes ms req = (\<forall>j d. req j = Some d \<longrightarrow> dep_ID d = pm_ID (ms ! j) \<and> dep_Alias d = pm_Alias (ms ! j)
     \<and> dep_Bulk d = (pm_BulkAfter (ms ! j) \<noteq> None))"

lemma collect_describes: "describes ms req \<Longrightarrow> describes ms (collect fuel edges ms target req)"
proof (induction fuel arbitrary: target req)
  case (Suc fuel)
  let ?step = "\<lambda>req edge. let req1 = collect fuel edges ms (de_index edge) req
       in if req1 (de_index edge) \<noteq> None then req1 else req1(de_index edge \<mapsto> dependency_of ms edge)"
  have step: "describes ms (?step r e)" if "describes ms r" for r e
    using Suc.IH [OF that, of "de_index e"] by (auto simp: describes_def dependency_of_def Let_def)
  have "describes ms r \<Longrightarrow> describes ms (foldl ?step r es)" for r es
  proof (induction es arbitrary: r)
    case (Cons e es)
    from Cons.IH [OF step [OF Cons.prems]] show ?case by simp
  qed simp
  with Suc.prems show ?case by simp
qed simp

lemma map_map_filter_some:
  assumes "\<And>x. x \<in> set xs \<Longrightarrow> f x \<noteq> None \<longleftrightarrow> P x" and "\<And>x y. f x = Some y \<Longrightarrow> g y = h x"
  shows "map g (List.map_filter f xs) = map h (filter P xs)"
  using assms(1)
proof (induction xs)
  case (Cons x xs)
  then show ?case using assms(2) [of x] Cons.prems [of x] by (cases "f x") (auto simp: map_filter_simps)
qed (simp add: map_filter_simps)

lemma dependencies_closure:
  "map dep_ID (dependencies ms i)
     = map (\<lambda>j. pm_ID (ms ! j)) (filter (\<lambda>j. (i, j) \<in> (depends_directly ms)\<^sup>+) [0..<i])"
proof -
  let ?req = "collect (Suc i) (directDependencyEdges ms) ms i Map.empty"
  have dom: "?req j \<noteq> None \<longleftrightarrow> (i, j) \<in> (depends_directly ms)\<^sup>+" for j
    using dom_collect [of "directDependencyEdges ms" i "Suc i" ms Map.empty]
    by (auto simp: directDependencyEdges_index edge_rel_direct dom_def)
  have "describes ms ?req" by (rule collect_describes) (simp add: describes_def)
  then have "map dep_ID (List.map_filter ?req [0..<Suc i])
      = map (\<lambda>j. pm_ID (ms ! j)) (filter (\<lambda>j. (i, j) \<in> (depends_directly ms)\<^sup>+) [0..<Suc i])"
    using dom by (intro map_map_filter_some) (auto simp: describes_def)
  also have "filter (\<lambda>j. (i, j) \<in> (depends_directly ms)\<^sup>+) [0..<Suc i]
      = filter (\<lambda>j. (i, j) \<in> (depends_directly ms)\<^sup>+) [0..<i]"
    by (auto dest: depends_directly_less)
  finally show ?thesis by (simp add: dependencies_def)
qed

lemma dependencies_Nil_direct:
  assumes "dependencies ms i = []" and "j < i"
  shows "direct_edge (ms ! i) (ms ! j) j = None"
proof (rule ccontr)
  assume "direct_edge (ms ! i) (ms ! j) j \<noteq> None"
  with assms(2) have "(i, j) \<in> (depends_directly ms)\<^sup>+" by (auto simp: depends_directly_def)
  with assms dependencies_closure [of ms i] show False by (auto simp: filter_empty_conv)
qed

section \<open>Consistent ledgers\<close>

definition same_inventory :: "vault \<Rightarrow> vault \<Rightarrow> bool" where
  "same_inventory v w =
     (sort_key conn_Name (v_Connections v) = sort_key conn_Name (v_Connections w)
      \<and> sort_key key_Name (v_Keys v) = sort_key key_Name (v_Keys w))"

text \<open>
  A ledger is consistent when it validates, no name occurs twice, its entries are well formed, and
  replaying them on the pending base gives the local inventory up to the order of the entries.
\<close>

definition ledger_ok :: "vault \<Rightarrow> bool" where
  "ledger_ok v =
     (validateLedger v = None \<and> wf_inventory v \<and> list_all wf_mutation (v_PendingMutations v)
      \<and> (case v_PendingBase v of
           None \<Rightarrow> True
         | Some base \<Rightarrow>
             wf_inventory (restore_snapshot base)
             \<and> same_inventory v (foldl applyMutation (restore_snapshot base) (v_PendingMutations v))))"

lemma same_inventory_iff:
  assumes "wf_inventory v" and "wf_inventory w"
  shows "same_inventory v w \<longleftrightarrow> inventory_of v = inventory_of w"
proof
  assume "same_inventory v w"
  then show "inventory_of v = inventory_of w"
    using assms find_named_sort [of conn_Name "v_Connections v"] find_named_sort [of conn_Name "v_Connections w"]
      find_named_sort [of key_Name "v_Keys v"] find_named_sort [of key_Name "v_Keys w"]
    by (simp add: same_inventory_def wf_inventory_def inventory_of_def fun_eq_iff)
next
  assume "inventory_of v = inventory_of w"
  then show "same_inventory v w"
    using assms
    by (auto simp: same_inventory_def wf_inventory_def inventory_of_def fun_eq_iff intro!: sort_key_lookup_eq)
qed

lemma check_ids_None_iff:
  "check_ids seen ms = None \<longleftrightarrow> '''' \<notin> pm_ID ` set ms \<and> distinct (map pm_ID ms) \<and> set seen \<inter> pm_ID ` set ms = {}"
  by (induction seen ms rule: check_ids.induct) auto

lemma validateLedger_None_iff:
  "validateLedger v = None \<longleftrightarrow>
     (v_PendingBase v = None \<longleftrightarrow> v_PendingMutations v = [])
     \<and> '''' \<notin> pm_ID ` set (v_PendingMutations v) \<and> distinct (map pm_ID (v_PendingMutations v))"
  by (auto simp: validateLedger_def check_ids_None_iff)

lemma replay_inventory:
  assumes "ledger_ok v" and "v_PendingBase v = Some base"
  shows "inventory_of v = foldl (\<lambda>s m. mut_effect m s) (inventory_of (restore_snapshot base)) (v_PendingMutations v)"
    and "wf_inventory (restore_snapshot base)"
  using assms replay_refines [of "restore_snapshot base" "v_PendingMutations v"]
  by (auto simp: ledger_ok_def same_inventory_iff)

lemma restore_snapshotInventory [simp]:
  "inventory_of (restore_snapshot (snapshotInventory w)) = inventory_of w"
  "wf_inventory (restore_snapshot (snapshotInventory w)) = wf_inventory w"
  by (simp_all add: restore_snapshot_def snapshotInventory_def inventory_of_def wf_inventory_def)

lemma pendingIndex_Some:
  assumes "pendingIndex ms i = Some k"
  shows "k < length ms \<and> pm_ID (ms ! k) = i"
  using index_from_SomeD [of 0 pm_ID i ms k] assms by (simp add: pendingIndex_def)

lemma markPublished_valid:
  assumes "validateLedger v = None"
  shows "validateLedger (markPublished v selected w) = None"
  using assms
  by (auto simp: validateLedger_None_iff markPublished_def Let_def intro: distinct_map_filter)

text \<open>
  The core of exact-scope publication. Removing the selected entries from the ledger and taking
  the projection as the new base keeps the ledger consistent, if replaying the selected entries
  first gives the same inventory as replaying all entries in order.
\<close>

lemma markPublished_ledger_ok:
  assumes ok: "ledger_ok v" and base: "v_PendingBase v = Some base"
    and sel: "selected \<noteq> []" "set selected \<subseteq> set (v_PendingMutations v)"
    and order: "foldl (\<lambda>s m. mut_effect m s)
          (foldl (\<lambda>s m. mut_effect m s) (inventory_of (restore_snapshot base)) selected)
          (filter (\<lambda>m. pm_ID m \<notin> set (map pm_ID selected)) (v_PendingMutations v))
        = foldl (\<lambda>s m. mut_effect m s) (inventory_of (restore_snapshot base)) (v_PendingMutations v)"
  defines "projected \<equiv> foldl applyMutation (restore_snapshot base) selected"
  shows "ledger_ok (markPublished v selected projected)"
proof -
  let ?rest = "filter (\<lambda>m. pm_ID m \<notin> set (map pm_ID selected)) (v_PendingMutations v)"
  have wf: "wf_inventory (restore_snapshot base)" "list_all wf_mutation (v_PendingMutations v)"
    using ok base by (auto simp: ledger_ok_def)
  have wfs: "list_all wf_mutation selected" "list_all wf_mutation ?rest"
    using wf(2) sel(2) by (auto simp: list_all_iff)
  have proj: "wf_inventory projected"
    "inventory_of projected = foldl (\<lambda>s m. mut_effect m s) (inventory_of (restore_snapshot base)) selected"
    unfolding projected_def using replay_refines [OF wf(1) wfs(1)] by auto
  have replay: "wf_inventory (foldl applyMutation (restore_snapshot (snapshotInventory projected)) ?rest)"
    "inventory_of (foldl applyMutation (restore_snapshot (snapshotInventory projected)) ?rest) = inventory_of v"
    using replay_refines [of "restore_snapshot (snapshotInventory projected)" ?rest] proj wfs(2) order
      replay_inventory [OF ok base] by auto
  have wfv: "wf_inventory v" and valid: "validateLedger v = None"
    using ok by (auto simp: ledger_ok_def)
  let ?v' = "markPublished v selected projected"
  have v': "v_PendingMutations ?v' = ?rest" "v_Connections ?v' = v_Connections v" "v_Keys ?v' = v_Keys v"
    "v_PendingBase ?v' = (if ?rest = [] then None else Some (snapshotInventory projected))"
    using sel(1) by (simp_all add: markPublished_def Let_def)
  have "validateLedger ?v' = None" using valid by (rule markPublished_valid)
  moreover have "wf_inventory ?v'" "inventory_of ?v' = inventory_of v"
    using wfv v' by (simp_all add: wf_inventory_def inventory_of_def)
  ultimately show ?thesis
    using v' wfs(2) replay proj(1) by (auto simp: ledger_ok_def same_inventory_iff)
qed

section \<open>A sample ledger\<close>

text \<open>
  A base with the host \<open>web\<close> and three pending transactions: \<open>t1\<close> updates \<open>web\<close>, \<open>t2\<close> adds \<open>db\<close> with a
  new saved key, \<open>t3\<close> replaces that key, so \<open>t3\<close> depends on \<open>t2\<close> and not on \<open>t1\<close>.
\<close>

definition demo_host :: "string \<Rightarrow> string \<Rightarrow> string \<Rightarrow> connection" where
  "demo_host name host key = empty_connection\<lparr>conn_Name := name, conn_Host := host, conn_Port := 22, conn_KeyName := key\<rparr>"

definition demo_key :: "string \<Rightarrow> ssh_key" where
  "demo_key material = \<lparr>key_Name = ''k'', key_PrivateKey = material\<rparr>"

definition demo_mutation :: "string \<Rightarrow> string \<Rightarrow> connection \<Rightarrow> ssh_key list \<Rightarrow> ssh_key list \<Rightarrow> pending_mutation" where
  "demo_mutation i a after kb ka =
     \<lparr>pm_ID = i, pm_Alias = a, pm_Aliases = [], pm_KeyName = '''', pm_Operation = ''updated'', pm_CreatedAt = '''',
      pm_Before = None, pm_After = Some after, pm_KeysBefore = kb, pm_KeysAfter = ka,
      pm_BulkBefore = None, pm_BulkAfter = None, pm_ConnectionCount = 0, pm_KeyCount = 0\<rparr>"

definition demo_ledger :: "pending_mutation list" where
  "demo_ledger =
     [demo_mutation ''t1'' ''web'' (demo_host ''web'' ''10.0.0.2'' '''') [] [],
      demo_mutation ''t2'' ''db'' (demo_host ''db'' ''10.0.0.3'' ''k'') [] [demo_key ''old''],
      demo_mutation ''t3'' ''app'' (demo_host ''app'' ''10.0.0.4'' ''k'') [demo_key ''old''] [demo_key ''new'']]"

definition demo_ledger_vault :: "nat \<Rightarrow> vault" where
  "demo_ledger_vault n =
     (let base = \<lparr>snap_Connections = [demo_host ''web'' ''10.0.0.1'' ''''], snap_Keys = []\<rparr>
      in (foldl applyMutation (restore_snapshot base) (take n demo_ledger))
           \<lparr>v_PendingBase := Some base, v_PendingMutations := take n demo_ledger\<rparr>)"

lemmas demo_ledger_defs = demo_ledger_vault_def demo_ledger_def demo_mutation_def demo_key_def demo_host_def

section \<open>Publication scopes\<close>

text \<open>
  A scope of a ledger \<open>ms\<close>: all its entries, or one entry that depends on none of the earlier ones.
\<close>

definition scope :: "pending_mutation list \<Rightarrow> pending_mutation list \<Rightarrow> bool" where
  "scope ms selected =
     (selected = ms \<or> (\<exists>i < length ms. selected = [ms ! i] \<and> dependencies ms i = []))"

lemma scope_subset: "scope ms selected \<Longrightarrow> set selected \<subseteq> set ms"
  by (auto simp: scope_def)

lemma filter_notin_distinct:
  "distinct (map f (xs @ ys)) \<Longrightarrow> filter (\<lambda>y. f y \<notin> f ` set xs) (xs @ ys) = ys"
  by (auto simp: filter_empty_conv filter_id_conv)

lemma filter_neq_absent: "x \<notin> f ` set xs \<Longrightarrow> filter (\<lambda>y. f y \<noteq> x) xs = xs"
  by (induction xs) auto

lemma scope_first:
  assumes "distinct (map pm_ID (ms @ extra))" and "list_all wf_mutation ms" and "scope ms selected"
  shows "foldl (\<lambda>s m. mut_effect m s) (foldl (\<lambda>s m. mut_effect m s) s selected)
      (filter (\<lambda>m. pm_ID m \<notin> pm_ID ` set selected) (ms @ extra))
    = foldl (\<lambda>s m. mut_effect m s) s (ms @ extra)"
proof (cases "selected = ms")
  case True
  with assms(1) show ?thesis by (simp only: filter_notin_distinct foldl_append)
next
  case False
  with assms(3) obtain i where i: "i < length ms" "selected = [ms ! i]" "dependencies ms i = []"
    by (auto simp: scope_def)
  let ?m = "ms ! i"
  have ms: "ms = take i ms @ ?m # drop (Suc i) ms" using i(1) by (rule id_take_nth_drop)
  have "filter (\<lambda>m. pm_ID m \<noteq> pm_ID ?m) (take i ms @ ?m # (drop (Suc i) ms @ extra))
      = take i ms @ drop (Suc i) ms @ extra"
    using assms(1) by (subst (asm) ms) (simp add: filter_neq_absent)
  then have rest: "filter (\<lambda>m. pm_ID m \<notin> pm_ID ` set selected) (ms @ extra) = take i ms @ drop (Suc i) ms @ extra"
    using i(2) by (subst ms) simp
  have commute: "\<forall>e \<in> set (take i ms). \<forall>s. mut_effect ?m (mut_effect e s) = mut_effect e (mut_effect ?m s)"
  proof (intro ballI allI)
    fix e s
    assume "e \<in> set (take i ms)"
    then obtain j where "j < i" "e = ms ! j" by (auto simp: in_set_conv_nth)
    with i show "mut_effect ?m (mut_effect e s) = mut_effect e (mut_effect ?m s)"
      using assms(2) dependencies_Nil_direct [of ms i j]
      by (intro direct_edge_None_commute) (auto simp: list_all_length)
  qed
  have "foldl (\<lambda>s m. mut_effect m s) s (ms @ extra)
      = foldl (\<lambda>s m. mut_effect m s) (mut_effect ?m (foldl (\<lambda>s m. mut_effect m s) s (take i ms))) (drop (Suc i) ms @ extra)"
    by (subst ms) simp
  also have "\<dots> = foldl (\<lambda>s m. mut_effect m s) (mut_effect ?m s) (take i ms @ drop (Suc i) ms @ extra)"
    by (simp add: commute_past [OF commute])
  finally show ?thesis using rest i(2) by simp
qed

lemma project_scope:
  assumes "project v only = Inr p"
  shows "(v_PendingBase v = None \<and> v_PendingMutations v = [] \<and> p = \<lparr>proj_Vault = inventoryOnly v, proj_Selected = []\<rparr>)
    \<or> (\<exists>base. v_PendingBase v = Some base \<and> proj_Selected p \<noteq> []
         \<and> scope (v_PendingMutations v) (proj_Selected p)
         \<and> proj_Vault p = foldl applyMutation (restore_snapshot base) (proj_Selected p)
         \<and> (if only = '''' then proj_Selected p = v_PendingMutations v
            else \<exists>m. proj_Selected p = [m] \<and> pm_ID m = only))"
proof -
  let ?ms = "v_PendingMutations v"
  have pre: "Preflight v only = None" using assms by (auto simp: project_def split: option.splits)
  then have valid: "validateLedger v = None" by (auto simp: Preflight_def split: option.splits)
  show ?thesis
  proof (cases "v_PendingBase v")
    case None
    with valid assms pre show ?thesis by (auto simp: project_def validateLedger_None_iff)
  next
    case (Some base)
    with valid have ne: "?ms \<noteq> []" by (auto simp: validateLedger_None_iff)
    show ?thesis
    proof (cases "only = ''''")
      case True
      with assms pre Some ne show ?thesis by (auto simp: project_def scope_def Let_def)
    next
      case False
      with pre valid obtain i where i: "pendingIndex ?ms only = Some i" "dependencies ?ms i = []"
        by (auto simp: Preflight_def Let_def split: option.splits if_splits)
      with pendingIndex_Some [OF i(1)] have "i < length ?ms" "pm_ID (?ms ! i) = only" by auto
      with assms pre Some ne False i show ?thesis by (auto simp: project_def scope_def Let_def)
    qed
  qed
qed

lemma pendingIndex_at:
  "distinct (map pm_ID (pre @ m # post)) \<Longrightarrow> pendingIndex (pre @ m # post) (pm_ID m) = Some (length pre)"
proof -
  have "pm_ID m \<notin> pm_ID ` set pre \<Longrightarrow>
      index_from k pm_ID (pm_ID m) (pre @ m # post) = Some (k + length pre)" for k
    by (induction pre arbitrary: k) auto
  then show "distinct (map pm_ID (pre @ m # post)) \<Longrightarrow> pendingIndex (pre @ m # post) (pm_ID m) = Some (length pre)"
    by (auto simp: pendingIndex_def)
qed

lemma scan_ids_block:
  assumes "distinct (map pm_ID (pre @ sel @ post))" and "next \<le> length pre"
  shows "scan_ids (pre @ sel @ post) next missing (map pm_ID sel) = Inr (sel, missing)"
  using assms
proof (induction sel arbitrary: pre "next")
  case (Cons m sel)
  have "pendingIndex (pre @ (m # sel) @ post) (pm_ID m) = Some (length pre)"
    using pendingIndex_at [of pre m "sel @ post"] Cons.prems by simp
  moreover have "scan_ids (pre @ (m # sel) @ post) (Suc (length pre)) missing (map pm_ID sel) = Inr (sel, missing)"
    using Cons.IH [of "pre @ [m]" "Suc (length pre)"] Cons.prems by simp
  ultimately show ?case using Cons.prems by (simp add: nth_append)
qed simp

lemma scan_ids_scope:
  assumes "distinct (map pm_ID (ms @ extra))" and "scope ms selected"
  shows "scan_ids (ms @ extra) 0 0 (map pm_ID selected) = Inr (selected, 0)"
proof (cases "selected = ms")
  case True
  with assms(1) scan_ids_block [of "[]" ms extra 0 0] show ?thesis by simp
next
  case False
  with assms(2) obtain i where i: "i < length ms" "selected = [ms ! i]" by (auto simp: scope_def)
  then have ms: "ms = take i ms @ selected @ drop (Suc i) ms" by (simp add: id_take_nth_drop)
  show ?thesis
    using scan_ids_block [of "take i ms" selected "drop (Suc i) ms @ extra" 0 0] assms(1) ms
    by (metis append.assoc zero_le)
qed

lemma scan_ids_absent:
  "\<forall>i \<in> set ids. i \<notin> pm_ID ` set ms \<Longrightarrow> scan_ids ms next missing ids = Inr ([], missing + length ids)"
proof (induction ids arbitrary: missing)
  case (Cons i ids)
  moreover have "pendingIndex ms i = None"
    using Cons.prems by (simp add: pendingIndex_def index_from_None_iff)
  ultimately show ?case by simp
qed simp

section \<open>Publishing keeps the ledger consistent\<close>

lemma scope_published_ok:
  assumes ok: "ledger_ok v" and base: "v_PendingBase v = Some base"
    and ms: "v_PendingMutations v = ms @ extra" and sel: "selected \<noteq> []" "scope ms selected"
  shows "ledger_ok (markPublished v selected (foldl applyMutation (restore_snapshot base) selected))"
proof -
  have "distinct (map pm_ID (ms @ extra))" "list_all wf_mutation ms"
    using ok ms by (auto simp: ledger_ok_def validateLedger_None_iff)
  from scope_first [OF this sel(2)] show ?thesis
    using ms sel scope_subset [OF sel(2)] by (intro markPublished_ledger_ok [OF ok base]) auto
qed

lemma markPublished_fields:
  "v_Connections (markPublished v selected w) = v_Connections v"
  "v_Keys (markPublished v selected w) = v_Keys v"
  "v_PendingMutations (markPublished v selected w)
     = filter (\<lambda>m. pm_ID m \<notin> pm_ID ` set selected) (v_PendingMutations v)"
  by (auto simp: markPublished_def Let_def)

lemma project_all_same:
  assumes "ledger_ok v" and "project v '''' = Inr p"
  shows "same_inventory (proj_Vault p) v"
  using project_scope [OF assms(2)] assms(1)
  by (auto simp: ledger_ok_def same_inventory_def inventoryOnly_def)

text \<open>
  C28.
  Publishing one exact scope. For a consistent ledger and any scope that the preflight accepts
  (one transaction ID, or everything), removing the published entries with the projection as the
  new base leaves a consistent ledger: the remaining entries are the unpublished ones in their
  order and still replay to the local inventory, which does not change. Publishing everything
  projects exactly the local inventory and empties the ledger.
\<close>

theorem publish_exact_scope:
  assumes "ledger_ok v" and "project v only = Inr p"
  shows "ledger_ok (markPublished v (proj_Selected p) (proj_Vault p))
    \<and> inventory_of (markPublished v (proj_Selected p) (proj_Vault p)) = inventory_of v
    \<and> v_PendingMutations (markPublished v (proj_Selected p) (proj_Vault p))
        = (if only = '''' then [] else filter (\<lambda>m. pm_ID m \<noteq> only) (v_PendingMutations v))
    \<and> (only = '''' \<longrightarrow> same_inventory (proj_Vault p) v)"
proof (cases "v_PendingBase v")
  case None
  with project_scope [OF assms(2)] assms show ?thesis
    by (auto simp: markPublished_def same_inventory_def inventoryOnly_def)
next
  case (Some base)
  with project_scope [OF assms(2)] have sel: "proj_Selected p \<noteq> []"
    "scope (v_PendingMutations v) (proj_Selected p)"
    "proj_Vault p = foldl applyMutation (restore_snapshot base) (proj_Selected p)"
    "if only = '''' then proj_Selected p = v_PendingMutations v else \<exists>m. proj_Selected p = [m] \<and> pm_ID m = only"
    by auto
  have "ledger_ok (markPublished v (proj_Selected p) (proj_Vault p))"
    using scope_published_ok [OF assms(1) Some, of "v_PendingMutations v" "[]"] sel by simp
  moreover have "inventory_of (markPublished v (proj_Selected p) (proj_Vault p)) = inventory_of v"
    by (simp add: inventory_of_def markPublished_fields)
  ultimately show ?thesis
    using sel(4) assms project_all_same by (auto simp: markPublished_fields filter_empty_conv split: if_splits)
qed

theorem publish_exact_scope_witness:
  "ledger_ok (demo_ledger_vault 3)
    \<and> (\<exists>p. project (demo_ledger_vault 3) ''t2'' = Inr p
         \<and> ledger_ok (markPublished (demo_ledger_vault 3) (proj_Selected p) (proj_Vault p)))"
proof -
  have ok: "ledger_ok (demo_ledger_vault 3)" by code_simp
  have "isl (project (demo_ledger_vault 3) ''t2'') = False" by code_simp
  then obtain p where "project (demo_ledger_vault 3) ''t2'' = Inr p"
    by (cases "project (demo_ledger_vault 3) ''t2''") auto
  with publish_exact_scope [OF ok this] ok show ?thesis by blast
qed

lemma grown_ledger_finalizes:
  assumes "project v0 only = Inr p" and "proj_Selected p \<noteq> []"
    and "ledger_ok v1" and "v_PendingBase v1 = v_PendingBase v0"
    and "v_PendingMutations v1 = v_PendingMutations v0 @ extra"
  shows "projectTransactionIDs v1 (map pm_ID (proj_Selected p)) = Inr p
    \<and> ledger_ok (markPublished v1 (proj_Selected p) (proj_Vault p))
    \<and> inventory_of (markPublished v1 (proj_Selected p) (proj_Vault p)) = inventory_of v1
    \<and> v_PendingMutations (markPublished v1 (proj_Selected p) (proj_Vault p))
        = filter (\<lambda>m. pm_ID m \<notin> pm_ID ` set (proj_Selected p)) (v_PendingMutations v0) @ extra"
proof -
  obtain base where base: "v_PendingBase v1 = Some base" and sel: "scope (v_PendingMutations v0) (proj_Selected p)"
    and vault: "proj_Vault p = foldl applyMutation (restore_snapshot base) (proj_Selected p)"
    using project_scope [OF assms(1)] assms(2,4) by auto
  have valid: "validateLedger v1 = None" and ids: "distinct (map pm_ID (v_PendingMutations v0 @ extra))"
    using assms(3,5) by (auto simp: ledger_ok_def validateLedger_None_iff)
  have "p = \<lparr>proj_Vault = proj_Vault p, proj_Selected = proj_Selected p\<rparr>" by simp
  then have "projectTransactionIDs v1 (map pm_ID (proj_Selected p)) = Inr p"
    using valid scan_ids_scope [OF ids sel] base vault assms(2,5)
    by (simp add: projectTransactionIDs_def)
  moreover have "filter (\<lambda>m. pm_ID m \<notin> pm_ID ` set (proj_Selected p)) extra = extra"
    using ids scope_subset [OF sel] by (fastforce simp: filter_id_conv)
  ultimately show ?thesis
    using scope_published_ok [OF assms(3) base assms(5,2) sel] vault assms(5)
    by (simp add: inventory_of_def markPublished_fields)
qed

text \<open>
  
  Finalizing a publication while local edits arrive. Let a scope be projected from a ledger, and
  let the ledger grow by further mutations before the publication is finalized. Then the
  projection by the IDs of the intent on the grown ledger is the projection that was published,
  and finalizing it keeps the grown ledger consistent, its inventory, and every later entry.
\<close>

theorem finalize_after_local_edits:
  assumes "project v0 only = Inr p" and "proj_Selected p \<noteq> []"
    and "ledger_ok v1" and "v_PendingBase v1 = v_PendingBase v0"
    and "v_PendingMutations v1 = v_PendingMutations v0 @ extra"
  shows "projectTransactionIDs v1 (map pm_ID (proj_Selected p)) = Inr p
    \<and> ledger_ok (markPublished v1 (proj_Selected p) (proj_Vault p))
    \<and> inventory_of (markPublished v1 (proj_Selected p) (proj_Vault p)) = inventory_of v1
    \<and> v_PendingMutations (markPublished v1 (proj_Selected p) (proj_Vault p))
        = filter (\<lambda>m. pm_ID m \<notin> pm_ID ` set (proj_Selected p)) (v_PendingMutations v0) @ extra"
  using assms by (rule grown_ledger_finalizes)

theorem finalize_after_local_edits_witness:
  "\<exists>p. project (demo_ledger_vault 2) ''t2'' = Inr p
     \<and> projectTransactionIDs (demo_ledger_vault 3) [''t2''] = Inr p
     \<and> ledger_ok (markPublished (demo_ledger_vault 3) (proj_Selected p) (proj_Vault p))"
proof -
  have "isl (project (demo_ledger_vault 2) ''t2'') = False" by code_simp
  then obtain p where p: "project (demo_ledger_vault 2) ''t2'' = Inr p"
    by (cases "project (demo_ledger_vault 2) ''t2''") auto
  have "map_sum id (\<lambda>p. map pm_ID (proj_Selected p)) (project (demo_ledger_vault 2) ''t2'') = Inr [''t2'']"
    by code_simp
  then have sel: "map pm_ID (proj_Selected p) = [''t2'']" using p by simp
  have "ledger_ok (demo_ledger_vault 3)" "v_PendingBase (demo_ledger_vault 3) = v_PendingBase (demo_ledger_vault 2)"
    "v_PendingMutations (demo_ledger_vault 3) = v_PendingMutations (demo_ledger_vault 2) @ drop 2 demo_ledger"
    by code_simp+
  from finalize_after_local_edits [OF p _ this] sel p show ?thesis by auto
qed

text \<open>
  Finalizing twice is harmless: once a scope has been marked published, projecting the same
  transaction IDs finds nothing left to publish and returns the current inventory.
\<close>

theorem finalize_idempotent:
  assumes "validateLedger v = None"
  shows "projectTransactionIDs (markPublished v selected w) (map pm_ID selected)
    = Inr \<lparr>proj_Vault = inventoryOnly (markPublished v selected w), proj_Selected = []\<rparr>"
proof -
  let ?v = "markPublished v selected w"
  have "validateLedger ?v = None" by (rule markPublished_valid) fact
  moreover have "\<forall>i \<in> set (map pm_ID selected). i \<notin> pm_ID ` set (v_PendingMutations ?v)"
    by (simp add: markPublished_fields image_iff) metis
  then have "scan_ids (v_PendingMutations ?v) 0 0 (map pm_ID selected) = Inr ([], length selected)"
    by (simp add: scan_ids_absent)
  ultimately show ?thesis by (simp add: projectTransactionIDs_def)
qed

theorem finalize_idempotent_witness:
  "validateLedger (demo_ledger_vault 3) = None
    \<and> projectTransactionIDs (markPublished (demo_ledger_vault 3) demo_ledger (demo_ledger_vault 3)) [''t1'', ''t2'', ''t3'']
      = Inr \<lparr>proj_Vault = inventoryOnly (demo_ledger_vault 3), proj_Selected = []\<rparr>"
proof -
  have valid: "validateLedger (demo_ledger_vault 3) = None" by code_simp
  have "map pm_ID demo_ledger = [''t1'', ''t2'', ''t3'']"
    "inventoryOnly (markPublished (demo_ledger_vault 3) demo_ledger (demo_ledger_vault 3)) = inventoryOnly (demo_ledger_vault 3)"
    by code_simp+
  with finalize_idempotent [OF valid, of demo_ledger "demo_ledger_vault 3"] valid show ?thesis by simp
qed

text \<open>
  C29.
  The dependency error of an exact-scope publication names all and only the earlier transactions
  that the selected one transitively depends on, in ledger order: the recursive collection ends
  and computes the transitive closure of the direct dependencies.
\<close>

theorem dependencies_transitive_closure:
  "map dep_ID (dependencies ms i)
     = map (\<lambda>j. pm_ID (ms ! j)) (filter (\<lambda>j. (i, j) \<in> (depends_directly ms)\<^sup>+) [0..<i])"
  by (rule dependencies_closure)

text \<open>
  C30.
  Replay of a mutation refines an update of two finite maps (aliases to connections and names to
  saved keys) and keeps the names unique.
\<close>

theorem applyMutation_refinement:
  assumes "wf_inventory v" and "wf_mutation m"
  shows "wf_inventory (applyMutation v m) \<and> inventory_of (applyMutation v m) = mut_effect m (inventory_of v)"
  using applyMutation_refines [OF assms] by blast

theorem applyMutation_refinement_witness:
  "wf_mutation (demo_ledger ! 1)
    \<and> wf_inventory (applyMutation (demo_ledger_vault 1) (demo_ledger ! 1))
    \<and> inventory_of (applyMutation (demo_ledger_vault 1) (demo_ledger ! 1))
      = mut_effect (demo_ledger ! 1) (inventory_of (demo_ledger_vault 1))"
proof -
  have "wf_inventory (demo_ledger_vault 1)" "wf_mutation (demo_ledger ! 1)" by code_simp+
  with applyMutation_refinement [OF this] show ?thesis by blast
qed

text \<open>
  The key delta does not depend on the iteration order of Go's maps: any two orders of the names
  give the same vault, byte for byte.
\<close>

theorem applyKeyDelta_order_independent:
  assumes "distinct_names key_Name (v_Keys v)"
    and "set bo = key_Name ` set before" and "set ao = key_Name ` set after"
  shows "applyKeyDelta_in bo ao v before after = applyKeyDelta v before after"
proof -
  let ?l = "keys.steps (delta_updates bo ao before after) (v_Keys v)"
  let ?r = "keys.steps (delta_updates (first_names key_Name before) (first_names key_Name after) before after) (v_Keys v)"
  have "sort_key key_Name ?l = sort_key key_Name ?r"
  proof (rule sort_key_lookup_eq)
    show "distinct_names key_Name ?l" "distinct_names key_Name ?r"
      using keys.invar_steps [OF assms(1)] by simp_all
    show "find_named key_Name n ?l = find_named key_Name n ?r" for n
      using delta_lookup [OF assms] delta_lookup [OF assms(1) set_first_names set_first_names]
      by (simp add: fun_eq_iff)
  qed
  then show ?thesis by (simp add: applyKeyDelta_def applyKeyDelta_in_steps)
qed

theorem applyKeyDelta_order_independent_witness:
  "applyKeyDelta_in [''k'', ''j''] [''k''] (empty_vault\<lparr>v_Keys := [demo_key ''old'']\<rparr>)
      [\<lparr>key_Name = ''j'', key_PrivateKey = ''''\<rparr>, demo_key ''old''] [demo_key ''new'']
    = applyKeyDelta (empty_vault\<lparr>v_Keys := [demo_key ''old'']\<rparr>)
      [\<lparr>key_Name = ''j'', key_PrivateKey = ''''\<rparr>, demo_key ''old''] [demo_key ''new'']"
  by (rule applyKeyDelta_order_independent) (auto simp: demo_key_def empty_vault_def)

end
