(* ===== verification/Vault_Blob.thy ===== *)
theory Vault_Blob
  imports Ssm_Prelude
begin

text \<open>
  The encrypted vault format (\<^verbatim>\<open>internal/vault/vault.go\<close>). A version 2 blob is

    version byte, generation (8 bytes, big endian), salt (16), nonce (12), ciphertext with tag

  and the first nine bytes are the additional authenticated data; version 1 has no generation
  and no additional data. The key derivation (argon2id) and the AES-GCM operations are
  parameters: \<open>kdf password salt\<close> gives the key, \<open>seal key nonce plaintext aad\<close> the
  ciphertext with its tag and \<open>gcm_open key nonce ciphertext aad\<close> the plaintext or None.
\<close>

section \<open>Format constants and errors\<close>

definition versionV1 :: byte where "versionV1 = 1"
definition versionV2 :: byte where "versionV2 = 2"
definition saltLen :: nat where "saltLen = 16"
definition nonceLen :: nat where "nonceLen = 12"
definition headerLen :: nat where "headerLen = 1 + saltLen + nonceLen"
definition v2HeaderLen :: nat where "v2HeaderLen = 1 + 8 + saltLen + nonceLen"

lemmas blob_consts = versionV1_def versionV2_def saltLen_def nonceLen_def headerLen_def v2HeaderLen_def

datatype vault_error =
    ErrWrongPassword
  | ErrUnsupportedVersion byte
  | ErrSalt
  | ErrNonce

type_synonym kdf_fun = "string \<Rightarrow> bytes \<Rightarrow> bytes"
type_synonym seal_fun = "bytes \<Rightarrow> bytes \<Rightarrow> bytes \<Rightarrow> bytes \<Rightarrow> bytes"
type_synonym open_fun = "bytes \<Rightarrow> bytes \<Rightarrow> bytes \<Rightarrow> bytes \<Rightarrow> bytes option"

section \<open>Operations\<close>

text \<open>
  The two \<^verbatim>\<open>rand.Read\<close> calls are the arguments \<open>rsalt\<close> and \<open>rnonce\<close>: None is a failed read.
  The optional generation argument of the source is a list.
\<close>

definition Encrypt :: "kdf_fun \<Rightarrow> seal_fun \<Rightarrow> bytes option \<Rightarrow> bytes option \<Rightarrow>
    bytes \<Rightarrow> string \<Rightarrow> uint64 list \<Rightarrow> vault_error + bytes" where
  "Encrypt kdf seal rsalt rnonce plaintext password generations =
     (let generation = (case generations of [] \<Rightarrow> 0 | g # _ \<Rightarrow> g) in
      case rsalt of
        None \<Rightarrow> Inl ErrSalt
      | Some salt \<Rightarrow>
          (let key = kdf password salt in
           case rnonce of
             None \<Rightarrow> Inl ErrNonce
           | Some nonce \<Rightarrow>
               (let aad = versionV2 # be_put64 generation;
                    header = aad @ salt @ nonce;
                    ciphertext = seal key nonce plaintext aad
                in Inr (header @ ciphertext))))"

definition byte_slice :: "bytes \<Rightarrow> nat \<Rightarrow> nat \<Rightarrow> bytes" where
  "byte_slice data lo hi = take (hi - lo) (drop lo data)"

definition open_at :: "kdf_fun \<Rightarrow> open_fun \<Rightarrow> bytes \<Rightarrow> string \<Rightarrow> bytes \<Rightarrow> bytes \<Rightarrow> bytes \<Rightarrow> nat \<Rightarrow>
    vault_error + bytes" where
  "open_at kdf gcm_open data password salt nonce aad start =
     (let key = kdf password salt in
      case gcm_open key nonce (drop start data) aad of
        None \<Rightarrow> Inl ErrWrongPassword
      | Some plaintext \<Rightarrow> Inr plaintext)"

definition Decrypt :: "kdf_fun \<Rightarrow> open_fun \<Rightarrow> bytes \<Rightarrow> string \<Rightarrow> vault_error + bytes" where
  "Decrypt kdf gcm_open data password =
     (if length data < headerLen + 16 then Inl ErrWrongPassword
      else if hd data = versionV1 then
        open_at kdf gcm_open data password
          (byte_slice data 1 (1 + saltLen)) (byte_slice data (1 + saltLen) headerLen) [] headerLen
      else if hd data = versionV2 then
        (if length data < v2HeaderLen + 16 then Inl ErrWrongPassword
         else open_at kdf gcm_open data password
                (byte_slice data 9 (9 + saltLen)) (byte_slice data (9 + saltLen) v2HeaderLen)
                (take 9 data) v2HeaderLen)
      else Inl (ErrUnsupportedVersion (hd data)))"

definition Generation :: "bytes \<Rightarrow> uint64 \<times> bool" where
  "Generation data =
     (case data of
        [] \<Rightarrow> (0, False)
      | v # _ \<Rightarrow>
          if v = versionV1 then (0, headerLen + 16 \<le> length data)
          else if v = versionV2 then
            (if length data < v2HeaderLen + 16 then (0, False)
             else (be_get64 (byte_slice data 1 9), True))
          else (0, False))"

definition ValidBlob :: "bytes \<Rightarrow> bool" where
  "ValidBlob data =
     (case data of
        [] \<Rightarrow> False
      | v # _ \<Rightarrow>
          if v = versionV1 then headerLen + 16 \<le> length data
          else if v = versionV2 then v2HeaderLen + 16 \<le> length data
          else False)"

section \<open>Layout of an encrypted blob\<close>

lemma Encrypt_Inr_iff:
  "Encrypt kdf seal rsalt rnonce p pw gs = Inr blob \<longleftrightarrow>
     (\<exists>salt nonce. rsalt = Some salt \<and> rnonce = Some nonce \<and>
        blob = (let aad = versionV2 # be_put64 (case gs of [] \<Rightarrow> 0 | g # _ \<Rightarrow> g)
                in aad @ salt @ nonce @ seal (kdf pw salt) nonce p aad))"
  by (auto simp: Encrypt_def Let_def split: option.splits)

lemma ValidBlob_iff_Generation: "ValidBlob data \<longleftrightarrow> snd (Generation data)"
  by (auto simp: ValidBlob_def Generation_def split: list.splits)

lemma Decrypt_Inr_ValidBlob: "Decrypt kdf gcm_open data pw = Inr p \<Longrightarrow> ValidBlob data"
  by (cases data) (auto simp: Decrypt_def ValidBlob_def blob_consts split: if_splits)

lemma Encrypt_layout:
  assumes "Encrypt kdf seal (Some salt) (Some nonce) p pw [g] = Inr blob"
    and "length salt = saltLen" and "length nonce = nonceLen"
  defines "aad \<equiv> versionV2 # be_put64 g"
  shows "take 9 blob = aad" and "byte_slice blob 1 9 = be_put64 g"
    and "byte_slice blob 9 (9 + saltLen) = salt" and "byte_slice blob (9 + saltLen) v2HeaderLen = nonce"
    and "drop v2HeaderLen blob = seal (kdf pw salt) nonce p aad"
    and "length blob = v2HeaderLen + length (seal (kdf pw salt) nonce p aad)" and "hd blob = versionV2"
proof -
  have blob: "blob = aad @ salt @ nonce @ seal (kdf pw salt) nonce p aad"
    using assms(1) by (simp add: Encrypt_def aad_def)
  have "length aad = 9" by (simp add: aad_def)
  with blob assms(2,3)
  show "take 9 blob = aad" "byte_slice blob 9 (9 + saltLen) = salt"
    "byte_slice blob (9 + saltLen) v2HeaderLen = nonce"
    "drop v2HeaderLen blob = seal (kdf pw salt) nonce p aad"
    "length blob = v2HeaderLen + length (seal (kdf pw salt) nonce p aad)"
    by (simp_all add: byte_slice_def blob_consts)
  show "byte_slice blob 1 9 = be_put64 g" "hd blob = versionV2"
    by (simp_all add: blob aad_def byte_slice_def)
qed

lemma be_put64_inject: "be_put64 g = be_put64 h \<longleftrightarrow> g = h"
  by (metis be_get64_put64)

text \<open>Replacing the eight generation bytes of a version 2 blob, as an attacker would.\<close>

definition with_generation :: "uint64 \<Rightarrow> bytes \<Rightarrow> bytes" where
  "with_generation g blob = take 1 blob @ be_put64 g @ drop 9 blob"

section \<open>Properties\<close>

lemma Encrypt_Decrypt:
  assumes gcm_inverse: "\<And>k n p a. gcm_open k n (seal k n p a) a = Some p"
    and gcm_tag: "\<And>k n p a. 16 \<le> length (seal k n p a)"
    and "length salt = saltLen" and "length nonce = nonceLen"
    and enc: "Encrypt kdf seal (Some salt) (Some nonce) plaintext password [generation] = Inr blob"
  shows "Decrypt kdf gcm_open blob password = Inr plaintext
    \<and> Generation blob = (generation, True) \<and> ValidBlob blob"
proof -
  note layout = Encrypt_layout [OF enc assms(3,4)]
  have len: "v2HeaderLen + 16 \<le> length blob"
    using layout(6) gcm_tag by simp
  have "headerLen \<le> v2HeaderLen" and "versionV2 \<noteq> versionV1" by (simp_all add: blob_consts)
  then have "Decrypt kdf gcm_open blob password = Inr plaintext"
    using layout len by (simp add: Decrypt_def open_at_def gcm_inverse)
  moreover have "Generation blob = (generation, True)"
    using layout len \<open>versionV2 \<noteq> versionV1\<close> by (cases blob) (auto simp: Generation_def)
  ultimately show ?thesis by (simp add: ValidBlob_iff_Generation)
qed

text \<open>
  A vault that \<^verbatim>\<open>Encrypt\<close> wrote with a salt of 16 bytes and a nonce of 12 bytes is decrypted
  by \<^verbatim>\<open>Decrypt\<close> with the same password to the same plaintext, is accepted by \<^verbatim>\<open>ValidBlob\<close>, and
  \<^verbatim>\<open>Generation\<close> reads its generation without the password. Of AES-GCM it needs that \<^verbatim>\<open>Open\<close>
  inverts \<^verbatim>\<open>Seal\<close> and that the ciphertext carries at least the 16 bytes of the tag.
\<close>

theorem vault_roundtrip:
  assumes gcm_inverse: "\<And>k n p a. gcm_open k n (seal k n p a) a = Some p"
    and gcm_tag: "\<And>k n p a. 16 \<le> length (seal k n p a)"
    and "length salt = saltLen" and "length nonce = nonceLen"
    and enc: "Encrypt kdf seal (Some salt) (Some nonce) plaintext password [generation] = Inr blob"
  shows "Decrypt kdf gcm_open blob password = Inr plaintext
    \<and> Generation blob = (generation, True) \<and> ValidBlob blob"
  using assms by (rule Encrypt_Decrypt)

text \<open>
  The generation is authenticated: a version 2 blob whose generation bytes were replaced by
  another generation is refused with the wrong-password error, although its header still parses
  and \<^verbatim>\<open>Generation\<close> reports the forged value. Of AES-GCM it needs that \<^verbatim>\<open>Open\<close> fails when the
  additional data differs from that given to \<^verbatim>\<open>Seal\<close>.
\<close>

theorem generation_authenticated:
  assumes gcm_aad: "\<And>k n p a a'. length a = 9 \<Longrightarrow> length a' = 9 \<Longrightarrow> a \<noteq> a' \<Longrightarrow>
      gcm_open k n (seal k n p a) a' = None"
    and gcm_tag: "\<And>k n p a. 16 \<le> length (seal k n p a)"
    and "length salt = saltLen" and "length nonce = nonceLen"
    and enc: "Encrypt kdf seal (Some salt) (Some nonce) plaintext password [generation] = Inr blob"
    and "forged \<noteq> generation"
  shows "Generation (with_generation forged blob) = (forged, True)
    \<and> Decrypt kdf gcm_open (with_generation forged blob) password = Inl ErrWrongPassword"
proof -
  note layout = Encrypt_layout [OF enc assms(3,4)]
  define ct where "ct = seal (kdf password salt) nonce plaintext (versionV2 # be_put64 generation)"
  have blob: "blob = versionV2 # be_put64 generation @ salt @ nonce @ ct"
    using enc by (simp add: Encrypt_def ct_def)
  have forged: "with_generation forged blob = versionV2 # be_put64 forged @ salt @ nonce @ ct"
    by (simp add: blob with_generation_def)
  have "16 \<le> length ct" by (simp add: ct_def gcm_tag)
  moreover have "gcm_open (kdf password salt) nonce ct (versionV2 # be_put64 forged) = None"
    unfolding ct_def using assms(6) by (intro gcm_aad) (simp_all add: be_put64_inject)
  ultimately show ?thesis
    using assms(3,4) by (simp add: forged Generation_def Decrypt_def open_at_def byte_slice_def blob_consts)
qed

section \<open>Witnesses\<close>

text \<open>A stand-in cipher for the witnesses: the tag is the additional data, padded to 16 bytes.\<close>

definition demo_tag :: "bytes \<Rightarrow> bytes" where
  "demo_tag aad = aad @ replicate (16 - length aad) 0"

definition demo_seal :: seal_fun where
  "demo_seal k n p a = demo_tag a @ p"

definition demo_open :: open_fun where
  "demo_open k n c a =
     (if take (length (demo_tag a)) c = demo_tag a then Some (drop (length (demo_tag a)) c) else None)"

definition demo_blob :: bytes where
  "demo_blob = (versionV2 # be_put64 7) @ replicate 16 1 @ replicate 12 2
     @ demo_seal [] [] [42] (versionV2 # be_put64 7)"

lemma demo_Encrypt:
  "Encrypt (\<lambda>_ s. s) demo_seal (Some (replicate 16 1)) (Some (replicate 12 2)) [42] ''pw'' [7]
     = Inr demo_blob"
  by (simp add: Encrypt_def demo_blob_def demo_seal_def)

lemma demo_gcm:
  "demo_open k n (demo_seal k n p a) a = Some p"
  "16 \<le> length (demo_seal k n p a)"
  "length a = 9 \<Longrightarrow> length a' = 9 \<Longrightarrow> a \<noteq> a' \<Longrightarrow> demo_open k n (demo_seal k n p a) a' = None"
  by (auto simp: demo_open_def demo_seal_def demo_tag_def)

theorem vault_roundtrip_witness:
  "Decrypt (\<lambda>_ s. s) demo_open demo_blob ''pw'' = Inr [42] \<and> Generation demo_blob = (7, True)
     \<and> ValidBlob demo_blob"
  by (rule vault_roundtrip [OF demo_gcm(1,2) _ _ demo_Encrypt]) (simp_all add: blob_consts)

theorem generation_authenticated_witness:
  "Generation (with_generation 8 demo_blob) = (8, True)
     \<and> Decrypt (\<lambda>_ s. s) demo_open (with_generation 8 demo_blob) ''pw'' = Inl ErrWrongPassword"
  by (rule generation_authenticated [where seal = demo_seal and salt = "replicate 16 1" and
        nonce = "replicate 12 2" and plaintext = "[42]" and generation = 7])
    (simp_all add: demo_Encrypt demo_gcm blob_consts)

end
