(* ===== verification/Private_Store.thy ===== *)
theory Private_Store
  imports Inventory_Data Vault_Blob
begin

text \<open>
  The private configuration directory and the effects on it (\<^verbatim>\<open>internal/config/writefile.go\<close>,
  \<^verbatim>\<open>filelock.go\<close> and the persisted documents of \<^verbatim>\<open>settings.go\<close>, \<^verbatim>\<open>generation.go\<close>,
  \<^verbatim>\<open>internal/synctransaction\<close>, \<^verbatim>\<open>internal/cloud\<close> and \<^verbatim>\<open>internal/inventorytransaction\<close>).

  A file is what the system calls of the sources can tell about it. JSON documents are kept
  decoded: \<open>Json x\<close> is a document that decodes to \<open>x\<close>, \<open>Malformed x\<close> one on which
  \<^verbatim>\<open>json.Unmarshal\<close> fails after filling in \<open>x\<close>. What the process cannot control is scripted in the
  \<open>world\<close>: the replies of lock acquisitions, writes, random reads, the clock and the HTTP service.
  Other processes may change the directory while a lock is awaited or a request is in flight: such
  a reply carries the change. The trace lists the externally visible actions of the process.
\<close>

section \<open>Files\<close>

text \<open>
  \<open>Dangling\<close> is a symbolic link without a target, \<open>Blocked\<close> a path whose inspection fails,
  \<open>Unreadable\<close> a file that exists but cannot be read.
\<close>

datatype 'a dfile = Absent | Dangling | Blocked | Unreadable | File 'a

datatype 'a json = Json 'a | Malformed 'a

datatype read_error = NotExist | ReadErr

definition ReadFile :: "'a dfile \<Rightarrow> read_error + 'a" where
  "ReadFile f =
     (case f of
        Absent \<Rightarrow> Inl NotExist | Dangling \<Rightarrow> Inl NotExist
      | Blocked \<Rightarrow> Inl ReadErr | Unreadable \<Rightarrow> Inl ReadErr
      | File x \<Rightarrow> Inr x)"

definition Stat :: "'a dfile \<Rightarrow> read_error option" where
  "Stat f =
     (case f of
        Absent \<Rightarrow> Some NotExist | Dangling \<Rightarrow> Some NotExist | Blocked \<Rightarrow> Some ReadErr
      | Unreadable \<Rightarrow> None | File _ \<Rightarrow> None)"

definition Lstat :: "'a dfile \<Rightarrow> read_error option" where
  "Lstat f =
     (case f of
        Absent \<Rightarrow> Some NotExist | Dangling \<Rightarrow> None | Blocked \<Rightarrow> Some ReadErr
      | Unreadable \<Rightarrow> None | File _ \<Rightarrow> None)"

text \<open>\<^verbatim>\<open>os.ReadFile\<close> followed by \<^verbatim>\<open>json.Unmarshal\<close>, None if either fails.\<close>

definition decode_json :: "'a json dfile \<Rightarrow> 'a option" where
  "decode_json f = (case ReadFile f of Inr (Json x) \<Rightarrow> Some x | _ \<Rightarrow> None)"

section \<open>Atomic replacement\<close>

datatype write_step =
    EnsureDir | CreateTemp | ChmodTemp | RestrictTemp | WriteTemp | SyncTemp | CloseTemp
  | RenameTemp | RestrictTarget | SyncDir

text \<open>
  The two paths that \<^verbatim>\<open>WritePrivateFile\<close> works on: the target, and the temporary file (None if
  there is none, \<open>Some None\<close> while it is not completely written).
\<close>

record 'a write_slot =
  slot_target :: "'a dfile"
  slot_temp :: "'a option option"

definition remove_temp :: "'a write_slot \<Rightarrow> 'a write_slot" where
  "remove_temp s = s\<lparr>slot_temp := None\<rparr>"

text \<open>
  \<open>fail\<close> is the step whose system call fails, if any. The deferred function removes the temporary
  file unless all steps succeeded.
\<close>

definition WritePrivateFile :: "write_step option \<Rightarrow> 'a \<Rightarrow> 'a write_slot \<Rightarrow> bool \<times> 'a write_slot" where
  "WritePrivateFile fail data s0 =
     (if fail = Some EnsureDir then (False, s0)
      else if fail = Some CreateTemp then (False, s0)
      else
        (let s1 = s0\<lparr>slot_temp := Some None\<rparr> in
         if fail = Some ChmodTemp then (False, remove_temp s1)
         else if fail = Some RestrictTemp then (False, remove_temp s1)
         else if fail = Some WriteTemp then (False, remove_temp s1)
         else
           (let s2 = s1\<lparr>slot_temp := Some (Some data)\<rparr> in
            if fail = Some SyncTemp then (False, remove_temp s2)
            else if fail = Some CloseTemp then (False, remove_temp s2)
            else if fail = Some RenameTemp then (False, remove_temp s2)
            else
              (let s3 = \<lparr>slot_target = File data, slot_temp = None\<rparr> in
               if fail = Some RestrictTarget then (False, remove_temp s3)
               else if fail = Some SyncDir then (False, remove_temp s3)
               else (True, s3)))))"

lemma WritePrivateFile_cases:
  obtains "WritePrivateFile fail data s = (False, s)" "fail \<in> {Some EnsureDir, Some CreateTemp}"
  | "WritePrivateFile fail data s = (False, s\<lparr>slot_temp := None\<rparr>)"
      "fail \<in> {Some ChmodTemp, Some RestrictTemp, Some WriteTemp, Some SyncTemp, Some CloseTemp, Some RenameTemp}"
  | "WritePrivateFile fail data s = (fail = None, \<lparr>slot_target = File data, slot_temp = None\<rparr>)"
      "fail \<in> {None, Some RestrictTarget, Some SyncDir}"
  by (cases fail; cases "the fail")
    (simp_all add: WritePrivateFile_def remove_temp_def Let_def)

section \<open>Persisted documents\<close>

record raw_settings =
  raw_AutoUpdate :: "bool option"
  raw_AutoSync :: "bool option"
  raw_UpdateRepo :: "string option"
  raw_LastPush :: "string option"
  raw_LastPull :: "string option"
  raw_SyncMode :: "string option"
  raw_SyncInterval :: "string option"
  raw_StaleAfter :: "string option"

record sync_conflict =
  sc_DetectedAt :: string
  sc_LocalETag :: string
  sc_RemoteETag :: string
  sc_CachedETag :: string

record sync_error =
  se_Cause :: string
  se_Message :: string
  se_At :: string

record sync_state =
  ss_LastAttemptAt :: string
  ss_LastSuccessAt :: string
  ss_NextAttemptAt :: string
  ss_ConsecutiveFailures :: int
  ss_LastError :: "sync_error option"
  ss_InFlightUntil :: string
  ss_ClaimToken :: string

record cloud_config =
  cc_Server :: string
  cc_Token :: string
  cc_Email :: string

record intent_transaction =
  it_Operation :: string
  it_CreatedAt :: string

record publishing_intent =
  pi_Version :: int
  pi_State :: string
  pi_Scope :: string
  pi_TransactionIDs :: "string list"
  pi_Transactions :: "intent_transaction list"
  pi_PrerequisiteExists :: bool
  pi_PrerequisiteIdentity :: string
  pi_TargetIdentity :: string
  pi_ObservedExists :: bool
  pi_ObservedIdentity :: string

text \<open>
  The publishing intent is read with more care than the other documents: by size, by its token
  stream, by its version and only then as a whole. The fields are what each of these reads sees;
  \<open>JsonSyntaxError\<close> ends the token stream of a document that is not JSON.
\<close>

datatype json_token = JsonDelim char | JsonString string | JsonScalar | JsonSyntaxError

record intent_document =
  doc_Size :: int
  doc_Tokens :: "json_token list"
  doc_Version :: "int option"
  doc_Intent :: "publishing_intent option"

record cfgdir =
  d_vault :: "bytes dfile"
  d_prev :: "bytes dfile"
  d_generation :: "uint64 json dfile"
  d_settings :: "raw_settings json dfile"
  d_etag :: "string dfile"
  d_conflict :: "sync_conflict json dfile"
  d_state :: "sync_state json dfile"
  d_superseded :: "string list json dfile"
  d_intent :: "intent_document dfile"
  d_cloud :: "cloud_config json dfile"
  d_merge :: "merge_report json dfile"
  d_redirects :: "(string \<times> string) list json dfile"

datatype fname =
    VaultFile | PrevVaultFile | GenerationFile | SettingsFile | RemoteEtagFile | ConflictFile
  | SyncStateFile | SupersededFile | IntentFile | CloudFile | MergeReportFile | RedirectsFile

section \<open>The world\<close>

datatype lock_reply =
    LockAcquired "cfgdir \<Rightarrow> cfgdir"
  | LockBusy
  | LockErr

datatype lock_error = ErrLockBusy | ErrLock

text \<open>
  A response of the sync service: the status, the header \<^verbatim>\<open>ETag\<close>, the body (None when reading it
  fails) and the fields of the JSON bodies that the client decodes (None when decoding fails).
\<close>

record http_response =
  resp_Status :: int
  resp_ETag :: string
  resp_Body :: "bytes option"
  resp_Error :: "string option"
  resp_Token :: "string option"
  resp_Verified :: "bool option"

datatype http_method = GET | HEAD | PUT | POST

record http_request =
  req_Method :: http_method
  req_Path :: string
  req_Token :: string
  req_IfMatch :: string
  req_IfNoneMatch :: string
  req_Body :: bytes

text \<open>\<open>Wrote f d d'\<close>: an attempt to replace the file \<open>f\<close> that took the directory from \<open>d\<close> to \<open>d'\<close>.\<close>

datatype event =
    Wrote fname cfgdir cfgdir
  | Removed fname
  | Sent http_request
  | Received "http_response option"
  | Spawned string
  | Invalidated
  | Observed

record world =
  w_dir :: cfgdir
  w_loaded :: "string option"
  w_locks :: "lock_reply list"
  w_writes :: "write_step option list"
  w_removes :: "bool list"
  w_rand :: "bytes option list"
  w_clock :: "int list"
  w_http :: "((cfgdir \<Rightarrow> cfgdir) \<times> http_response option) list"
  w_spawns :: "bool list"
  w_trace :: "event list"

definition emit :: "event \<Rightarrow> world \<Rightarrow> world" where
  "emit e w = w\<lparr>w_trace := w_trace w @ [e]\<rparr>"

text \<open>
  \<^verbatim>\<open>AcquireFileLock\<close>: the wait ends with the lock, with a timeout or with an error. An exhausted
  script grants the lock at once.
\<close>

definition AcquireFileLock :: "world \<Rightarrow> lock_error option \<times> world" where
  "AcquireFileLock w =
     (case w_locks w of
        [] \<Rightarrow> (None, w)
      | LockAcquired others # rs \<Rightarrow> (None, w\<lparr>w_locks := rs, w_dir := others (w_dir w)\<rparr>)
      | LockBusy # rs \<Rightarrow> (Some ErrLockBusy, w\<lparr>w_locks := rs\<rparr>)
      | LockErr # rs \<Rightarrow> (Some ErrLock, w\<lparr>w_locks := rs\<rparr>))"

definition put_file :: "fname \<Rightarrow> (cfgdir \<Rightarrow> 'a dfile) \<Rightarrow> (('a dfile \<Rightarrow> 'a dfile) \<Rightarrow> cfgdir \<Rightarrow> cfgdir) \<Rightarrow>
    'a \<Rightarrow> world \<Rightarrow> bool \<times> world" where
  "put_file name get upd data w =
     (let fail = (case w_writes w of [] \<Rightarrow> None | r # _ \<Rightarrow> r);
          w1 = w\<lparr>w_writes := tl (w_writes w)\<rparr>
      in case WritePrivateFile fail data \<lparr>slot_target = get (w_dir w), slot_temp = None\<rparr> of
           (ok, slot) \<Rightarrow>
             (let d' = upd (\<lambda>_. slot_target slot) (w_dir w) in (ok, emit (Wrote name (w_dir w) d') (w1\<lparr>w_dir := d'\<rparr>))))"

text \<open>
  \<^verbatim>\<open>os.Remove\<close>: None for success, otherwise the error. The scripted reply False is a failure for
  another reason than a missing file.
\<close>

definition os_Remove :: "fname \<Rightarrow> (cfgdir \<Rightarrow> 'a dfile) \<Rightarrow> (('a dfile \<Rightarrow> 'a dfile) \<Rightarrow> cfgdir \<Rightarrow> cfgdir) \<Rightarrow>
    world \<Rightarrow> read_error option \<times> world" where
  "os_Remove name get upd w =
     (let ok = (case w_removes w of [] \<Rightarrow> True | r # _ \<Rightarrow> r);
          w1 = w\<lparr>w_removes := tl (w_removes w)\<rparr>
      in if get (w_dir w) = Absent then (Some NotExist, w1)
         else if \<not> ok \<or> get (w_dir w) = Blocked then (Some ReadErr, w1)
         else (None, emit (Removed name) (w1\<lparr>w_dir := upd (\<lambda>_. Absent) (w_dir w)\<rparr>)))"

text \<open>\<open>True\<close> is success; the directory sync after the removal can fail as well.\<close>

definition RemovePrivateFile :: "fname \<Rightarrow> (cfgdir \<Rightarrow> 'a dfile) \<Rightarrow> (('a dfile \<Rightarrow> 'a dfile) \<Rightarrow> cfgdir \<Rightarrow> cfgdir) \<Rightarrow>
    world \<Rightarrow> bool \<times> world" where
  "RemovePrivateFile name get upd w =
     (case os_Remove name get upd w of
        (Some NotExist, w1) \<Rightarrow> (True, w1)
      | (Some ReadErr, w1) \<Rightarrow> (False, w1)
      | (None, w1) \<Rightarrow>
          (let synced = (case w_removes w1 of [] \<Rightarrow> True | r # _ \<Rightarrow> r)
           in (synced, w1\<lparr>w_removes := tl (w_removes w1)\<rparr>)))"

text \<open>\<^verbatim>\<open>rand.Read\<close> fills a buffer of \<open>n\<close> bytes or fails.\<close>

definition rand_Read :: "nat \<Rightarrow> world \<Rightarrow> bytes option \<times> world" where
  "rand_Read n w =
     (case w_rand w of
        [] \<Rightarrow> (None, w)
      | r # rs \<Rightarrow> (map_option (\<lambda>bs. take n (bs @ replicate n 0)) r, w\<lparr>w_rand := rs\<rparr>))"

definition clock_now :: "world \<Rightarrow> int \<times> world" where
  "clock_now w = (case w_clock w of [] \<Rightarrow> (0, w) | t # ts \<Rightarrow> (t, w\<lparr>w_clock := ts\<rparr>))"

section \<open>Properties\<close>

text \<open>
  \<^verbatim>\<open>WritePrivateFile\<close> is atomic for whoever reads the target: whichever step fails, the target
  is the old file or the complete new one, no temporary file stays behind, success means the new
  file, and the old file survives every failure up to and including the rename. (A failure after
  the rename reports an error although the new file is in place.)
\<close>

theorem WritePrivateFile_atomic:
  "case WritePrivateFile fail data \<lparr>slot_target = old, slot_temp = None\<rparr> of
     (ok, s) \<Rightarrow>
       slot_temp s = None \<and> slot_target s \<in> {old, File data}
       \<and> (ok \<longleftrightarrow> fail = None)
       \<and> (slot_target s = (if fail \<in> {None, Some RestrictTarget, Some SyncDir} then File data else old))"
  by (rule WritePrivateFile_cases [of fail data "\<lparr>slot_target = old, slot_temp = None\<rparr>"]) auto

section \<open>Frame rules\<close>

lemma emit_simps [simp]:
  "w_dir (emit e w) = w_dir w" "w_loaded (emit e w) = w_loaded w" "w_locks (emit e w) = w_locks w"
  "w_writes (emit e w) = w_writes w" "w_removes (emit e w) = w_removes w" "w_rand (emit e w) = w_rand w"
  "w_clock (emit e w) = w_clock w" "w_http (emit e w) = w_http w" "w_spawns (emit e w) = w_spawns w"
  "w_trace (emit e w) = w_trace w @ [e]"
  by (simp_all add: emit_def)

lemma put_file_result:
  assumes "put_file name get upd data w = (ok, w')"
  obtains written d' where "ok \<longrightarrow> written"
    and "d' = upd (\<lambda>_. if written then File data else get (w_dir w)) (w_dir w)"
    and "w' = emit (Wrote name (w_dir w) d') (w\<lparr>w_writes := tl (w_writes w), w_dir := d'\<rparr>)"
proof -
  let ?s = "\<lparr>slot_target = get (w_dir w), slot_temp = None\<rparr>"
  let ?fail = "case w_writes w of [] \<Rightarrow> None | r # _ \<Rightarrow> r"
  let ?d = "\<lambda>written. upd (\<lambda>_. if written then File data else get (w_dir w)) (w_dir w)"
  have "\<exists>written. (ok \<longrightarrow> written) \<and> w' = emit (Wrote name (w_dir w) (?d written))
      (w\<lparr>w_writes := tl (w_writes w), w_dir := ?d written\<rparr>)"
    by (rule WritePrivateFile_cases [of ?fail data ?s])
      (use assms in \<open>auto simp: put_file_def Let_def intro: exI [of _ True] exI [of _ False]\<close>)
  with that show ?thesis by blast
qed

end
