(* ===== verification/Vault_Store.thy ===== *)
theory Vault_Store
  imports Private_Store
begin

text \<open>
  Settings, the generation high-water mark and the local vault file (\<^verbatim>\<open>internal/config/settings.go\<close>,
  \<^verbatim>\<open>generation.go\<close> and the persistence part of \<^verbatim>\<open>config.go\<close>), and the guarded save of a local
  mutation (\<^verbatim>\<open>saveLoadedVault\<close> of \<^verbatim>\<open>internal/inventorytransaction\<close>).
\<close>

text \<open>
  What the program takes from Go's libraries and its environment: SHA-256 in hexadecimal, Argon2id
  and AES-GCM, the JSON codec of a vault, time stamps in RFC 3339,
  the syntax of durations, the variable \<^verbatim>\<open>SSM_SYNC_MODE\<close>, and URL parsing (scheme and host).
  A time is a number of nanoseconds since Go's zero time.
\<close>

record env =
  e_sha256 :: "bytes \<Rightarrow> string"
  e_kdf :: kdf_fun
  e_seal :: seal_fun
  e_open :: open_fun
  e_marshal :: "vault \<Rightarrow> bytes"
  e_unmarshal :: "bytes \<Rightarrow> vault option"
  e_unmarshal_conns :: "bytes \<Rightarrow> connection list option"
  e_format_time :: "int \<Rightarrow> string"
  e_parse_time :: "string \<Rightarrow> int option"
  e_format_nano :: "int \<Rightarrow> string"
  e_parse_nano :: "string \<Rightarrow> int option"
  e_parse_duration :: "string \<Rightarrow> int option"
  e_sync_mode :: string
  e_parse_url :: "string \<Rightarrow> (string \<times> string) option"

section \<open>Settings\<close>

record settings =
  set_AutoUpdate :: bool
  set_AutoSync :: bool
  set_UpdateRepo :: string
  set_LastPush :: string
  set_LastPull :: string
  set_SyncMode :: string
  set_SyncInterval :: string
  set_StaleAfter :: string

definition SyncModeLocalFirst :: string where "SyncModeLocalFirst = ''local_first''"
definition SyncModeStrict :: string where "SyncModeStrict = ''strict''"

definition nanosecond :: int where "nanosecond = 1"
definition second :: int where "second = 1000000000 * nanosecond"
definition minute :: int where "minute = 60 * second"
definition hour :: int where "hour = 60 * minute"

definition DefaultSyncInterval :: int where "DefaultSyncInterval = 10 * minute"
definition DefaultStaleAfter :: int where "DefaultStaleAfter = 7 * 24 * hour"

lemmas duration_defs = nanosecond_def second_def minute_def hour_def DefaultSyncInterval_def DefaultStaleAfter_def

fun first_sync_mode :: "string list \<Rightarrow> string" where
  "first_sync_mode [] = SyncModeLocalFirst"
| "first_sync_mode (candidate # rest) =
     (if trim_space candidate = SyncModeStrict then SyncModeStrict
      else if trim_space candidate = SyncModeLocalFirst then SyncModeLocalFirst
      else first_sync_mode rest)"

definition EffectiveSyncMode :: "env \<Rightarrow> settings \<Rightarrow> string" where
  "EffectiveSyncMode e s = first_sync_mode [e_sync_mode e, set_SyncMode s]"

fun first_invalid_mode :: "(string \<times> string) list \<Rightarrow> string \<times> string" where
  "first_invalid_mode [] = ('''', '''')"
| "first_invalid_mode ((source, value) # rest) =
     (if trim_space value \<in> {'''', SyncModeStrict, SyncModeLocalFirst} then first_invalid_mode rest
      else (source, value))"

definition InvalidSyncMode :: "env \<Rightarrow> settings \<Rightarrow> string \<times> string" where
  "InvalidSyncMode e s =
     first_invalid_mode [(''SSM_SYNC_MODE'', e_sync_mode e), (''settings.json sync_mode'', set_SyncMode s)]"

text \<open>\<^verbatim>\<open>strconv.Atoi\<close> on 64-bit platforms.\<close>

definition atoi :: "string \<Rightarrow> int option" where
  "atoi s =
     (let neg = (s \<noteq> [] \<and> hd s = CHR ''-'');
          body = (if s \<noteq> [] \<and> (hd s = CHR ''-'' \<or> hd s = CHR ''+'') then tl s else s)
      in if body = [] then None
         else case digits_value 0 body of
           None \<Rightarrow> None
         | Some n \<Rightarrow>
             (let v = (if neg then - n else n)
              in if - (2 ^ 63) \<le> v \<and> v < 2 ^ 63 then Some v else None))"

definition parseSettingsDuration :: "env \<Rightarrow> string \<Rightarrow> int \<Rightarrow> int" where
  "parseSettingsDuration e raw0 fallback =
     (let raw = trim_space raw0 in
      if raw = '''' then fallback
      else if has_suffix raw ''d'' then
        (case atoi (butlast raw) of
           None \<Rightarrow> fallback
         | Some days \<Rightarrow> if days \<le> 0 \<or> days > 3650 then fallback else days * 24 * hour)
      else case e_parse_duration e raw of
        None \<Rightarrow> fallback
      | Some parsed \<Rightarrow> if parsed \<le> 0 then fallback else parsed)"

definition EffectiveSyncInterval :: "env \<Rightarrow> settings \<Rightarrow> int" where
  "EffectiveSyncInterval e s = parseSettingsDuration e (set_SyncInterval s) DefaultSyncInterval"

definition EffectiveStaleAfter :: "env \<Rightarrow> settings \<Rightarrow> int" where
  "EffectiveStaleAfter e s = parseSettingsDuration e (set_StaleAfter s) DefaultStaleAfter"

definition DefaultSettings :: settings where
  "DefaultSettings =
     \<lparr>set_AutoUpdate = True, set_AutoSync = True, set_UpdateRepo = '''', set_LastPush = '''',
      set_LastPull = '''', set_SyncMode = '''', set_SyncInterval = '''', set_StaleAfter = ''''\<rparr>"

definition or_else :: "'a option \<Rightarrow> 'a \<Rightarrow> 'a" where
  "or_else x y = (case x of None \<Rightarrow> y | Some v \<Rightarrow> v)"

definition LoadSettings :: "cfgdir \<Rightarrow> settings" where
  "LoadSettings d =
     (case decode_json (d_settings d) of
        None \<Rightarrow> DefaultSettings
      | Some raw \<Rightarrow>
          \<lparr>set_AutoUpdate = or_else (raw_AutoUpdate raw) (set_AutoUpdate DefaultSettings),
           set_AutoSync = or_else (raw_AutoSync raw) (set_AutoSync DefaultSettings),
           set_UpdateRepo = or_else (raw_UpdateRepo raw) (set_UpdateRepo DefaultSettings),
           set_LastPush = or_else (raw_LastPush raw) (set_LastPush DefaultSettings),
           set_LastPull = or_else (raw_LastPull raw) (set_LastPull DefaultSettings),
           set_SyncMode = or_else (raw_SyncMode raw) (set_SyncMode DefaultSettings),
           set_SyncInterval = or_else (raw_SyncInterval raw) (set_SyncInterval DefaultSettings),
           set_StaleAfter = or_else (raw_StaleAfter raw) (set_StaleAfter DefaultSettings)\<rparr>)"

text \<open>The struct tags \<^verbatim>\<open>omitempty\<close>: an empty string is not written.\<close>

definition omitempty :: "string \<Rightarrow> string option" where
  "omitempty s = (if s = '''' then None else Some s)"

definition settings_document :: "settings \<Rightarrow> raw_settings" where
  "settings_document s =
     \<lparr>raw_AutoUpdate = Some (set_AutoUpdate s), raw_AutoSync = Some (set_AutoSync s),
      raw_UpdateRepo = omitempty (set_UpdateRepo s), raw_LastPush = omitempty (set_LastPush s),
      raw_LastPull = omitempty (set_LastPull s), raw_SyncMode = omitempty (set_SyncMode s),
      raw_SyncInterval = omitempty (set_SyncInterval s), raw_StaleAfter = omitempty (set_StaleAfter s)\<rparr>"

definition SaveSettings :: "settings \<Rightarrow> world \<Rightarrow> bool \<times> world" where
  "SaveSettings s w = put_file SettingsFile d_settings d_settings_update (Json (settings_document s)) w"

section \<open>The generation high-water mark\<close>

definition MaxSeenGeneration :: "cfgdir \<Rightarrow> uint64" where
  "MaxSeenGeneration d = (case decode_json (d_generation d) of None \<Rightarrow> 0 | Some g \<Rightarrow> g)"

definition RecordMaxSeenGeneration :: "uint64 \<Rightarrow> world \<Rightarrow> world" where
  "RecordMaxSeenGeneration generation w =
     (if generation \<le> MaxSeenGeneration (w_dir w) then w
      else case AcquireFileLock w of
        (Some _, w1) \<Rightarrow> w1
      | (None, w1) \<Rightarrow>
          (let ledger = (case ReadFile (d_generation (w_dir w1)) of
                 Inr (Json g) \<Rightarrow> g | Inr (Malformed g) \<Rightarrow> g | Inl _ \<Rightarrow> 0)
           in if generation \<le> ledger then w1
              else snd (put_file GenerationFile d_generation d_generation_update (Json generation) w1)))"

definition ResetMaxSeenGeneration :: "world \<Rightarrow> world" where
  "ResetMaxSeenGeneration w =
     (case AcquireFileLock w of
        (Some _, w1) \<Rightarrow> w1
      | (None, w1) \<Rightarrow> snd (os_Remove GenerationFile d_generation d_generation_update w1))"

definition SetMaxSeenGeneration :: "uint64 \<Rightarrow> world \<Rightarrow> world" where
  "SetMaxSeenGeneration generation w =
     (case AcquireFileLock w of
        (Some _, w1) \<Rightarrow> w1
      | (None, w1) \<Rightarrow> snd (put_file GenerationFile d_generation d_generation_update (Json generation) w1))"

definition NextVaultGeneration :: "cfgdir \<Rightarrow> uint64" where
  "NextVaultGeneration d =
     (let current0 = (case ReadFile (d_vault d) of Inr data \<Rightarrow> fst (Generation data) | Inl _ \<Rightarrow> 0);
          seen = MaxSeenGeneration d;
          current = (if seen > current0 then seen else current0)
      in if current = max_uint64 then current else current + 1)"

section \<open>The vault file\<close>

definition absentBlobIdentity :: string where "absentBlobIdentity = ''absent''"

definition blobIdentity :: "env \<Rightarrow> bytes \<Rightarrow> string" where
  "blobIdentity e data = e_sha256 e data"

definition CurrentBlobIdentity :: "env \<Rightarrow> cfgdir \<Rightarrow> string option" where
  "CurrentBlobIdentity e d =
     (case ReadFile (d_vault d) of
        Inl NotExist \<Rightarrow> Some absentBlobIdentity
      | Inl ReadErr \<Rightarrow> None
      | Inr data \<Rightarrow> Some (blobIdentity e data))"

datatype store_error =
    StoreReadErr
  | StoreDecryptErr vault_error
  | StoreDecodeErr
  | StoreWriteErr
  | StoreLockErr
  | ErrVaultBusy
  | ErrVaultChanged

definition Load :: "env \<Rightarrow> string \<Rightarrow> world \<Rightarrow> (store_error + vault) \<times> world" where
  "Load e masterPass w =
     (case ReadFile (d_vault (w_dir w)) of
        Inl NotExist \<Rightarrow> (Inr empty_vault, w\<lparr>w_loaded := Some absentBlobIdentity\<rparr>)
      | Inl ReadErr \<Rightarrow> (Inl StoreReadErr, w)
      | Inr data \<Rightarrow>
          (let w1 = w\<lparr>w_loaded := Some (blobIdentity e data)\<rparr> in
           case Decrypt (e_kdf e) (e_open e) data masterPass of
             Inl err \<Rightarrow> (Inl (StoreDecryptErr err), w1)
           | Inr plaintext \<Rightarrow>
               (case e_unmarshal e plaintext of
                  Some v \<Rightarrow> (Inr v, w1)
                | None \<Rightarrow>
                    (case e_unmarshal_conns e plaintext of
                       None \<Rightarrow> (Inl StoreDecodeErr, w1)
                     | Some conns \<Rightarrow> (Inr (empty_vault\<lparr>v_Connections := conns\<rparr>), w1)))))"

definition EncryptVault :: "env \<Rightarrow> vault \<Rightarrow> string \<Rightarrow> uint64 list \<Rightarrow> world \<Rightarrow> (vault_error + bytes) \<times> world" where
  "EncryptVault e v masterPass generations w =
     (let generation = (case generations of [] \<Rightarrow> 0 | g # _ \<Rightarrow> g) in
      case rand_Read saltLen w of
        (None, w1) \<Rightarrow> (Encrypt (e_kdf e) (e_seal e) None None (e_marshal e v) masterPass [generation], w1)
      | (Some salt, w1) \<Rightarrow>
          (case rand_Read nonceLen w1 of
             (nonce, w2) \<Rightarrow>
               (Encrypt (e_kdf e) (e_seal e) (Some salt) nonce (e_marshal e v) masterPass [generation], w2)))"

definition Save :: "env \<Rightarrow> vault \<Rightarrow> string \<Rightarrow> world \<Rightarrow> store_error option \<times> world" where
  "Save e v masterPass w =
     (case EncryptVault e v masterPass [NextVaultGeneration (w_dir w)] w of
        (Inl err, w1) \<Rightarrow> (Some (StoreDecryptErr err), w1)
      | (Inr encrypted, w1) \<Rightarrow>
          (case put_file VaultFile d_vault d_vault_update encrypted w1 of
             (False, w2) \<Rightarrow> (Some StoreWriteErr, w2)
           | (True, w2) \<Rightarrow> (None, w2\<lparr>w_loaded := Some (blobIdentity e encrypted)\<rparr>)))"

definition ValidateVaultBlob :: "env \<Rightarrow> bytes \<Rightarrow> string \<Rightarrow> vault_error option" where
  "ValidateVaultBlob e data masterPass =
     (case Decrypt (e_kdf e) (e_open e) data masterPass of Inl err \<Rightarrow> Some err | Inr _ \<Rightarrow> None)"

definition CreateVaultIfAbsent :: "env \<Rightarrow> vault \<Rightarrow> string \<Rightarrow> world \<Rightarrow> (store_error + bool) \<times> world" where
  "CreateVaultIfAbsent e v masterPass w =
     (case AcquireFileLock w of
        (Some ErrLockBusy, w1) \<Rightarrow> (Inl ErrVaultBusy, w1)
      | (Some ErrLock, w1) \<Rightarrow> (Inl StoreLockErr, w1)
      | (None, w1) \<Rightarrow>
          (case Stat (d_vault (w_dir w1)) of
             None \<Rightarrow> (Inr False, w1)
           | Some ReadErr \<Rightarrow> (Inl StoreReadErr, w1)
           | Some NotExist \<Rightarrow>
               (case Save e v masterPass w1 of
                  (Some err, w2) \<Rightarrow> (Inl err, w2)
                | (None, w2) \<Rightarrow> (Inr True, w2))))"

definition lockVaultWrite :: "world \<Rightarrow> store_error option \<times> world" where
  "lockVaultWrite w =
     (case AcquireFileLock w of
        (Some ErrLockBusy, w1) \<Rightarrow> (Some ErrVaultBusy, w1)
      | (Some ErrLock, w1) \<Rightarrow> (Some StoreLockErr, w1)
      | (None, w1) \<Rightarrow> (None, w1))"

definition saveLoadedVault :: "env \<Rightarrow> vault \<Rightarrow> string \<Rightarrow> world \<Rightarrow> store_error option \<times> world" where
  "saveLoadedVault e after masterPass w =
     (case lockVaultWrite w of
        (Some err, w1) \<Rightarrow> (Some err, w1)
      | (None, w1) \<Rightarrow>
          (case w_loaded w1 of
             None \<Rightarrow> Save e after masterPass w1
           | Some loaded \<Rightarrow>
               (case CurrentBlobIdentity e (w_dir w1) of
                  None \<Rightarrow> (Some StoreReadErr, w1)
                | Some current \<Rightarrow>
                    if current \<noteq> loaded then (Some ErrVaultChanged, w1)
                    else Save e after masterPass w1)))"

definition SaveMergeReport :: "merge_report \<Rightarrow> world \<Rightarrow> bool \<times> world" where
  "SaveMergeReport report w = put_file MergeReportFile d_merge d_merge_update (Json report) w"

section \<open>Laws of the environment\<close>

text \<open>
  Documented behaviour of the libraries: a vault decodes to what was encoded, and AES-GCM opens what
  it sealed and appends a tag of 16 bytes.
\<close>

definition codec_ok :: "env \<Rightarrow> vault \<Rightarrow> bool" where
  "codec_ok e v =
     (e_unmarshal e (e_marshal e v) = Some v
      \<and> (\<forall>k n p a. e_open e k n (e_seal e k n p a) a = Some p)
      \<and> (\<forall>k n p a. 16 \<le> length (e_seal e k n p a)))"

section \<open>Effects of the operations\<close>

lemma rand_Read_length: "rand_Read n w = (Some bs, w') \<Longrightarrow> length bs = n"
  by (auto simp: rand_Read_def split: list.splits)

lemma rand_Read_world: "snd (rand_Read n w) = w\<lparr>w_rand := w_rand (snd (rand_Read n w))\<rparr>"
  by (auto simp: rand_Read_def split: list.splits)

lemma EncryptVault_world:
  "EncryptVault e v pw gs w = (r, w') \<Longrightarrow> w' = w\<lparr>w_rand := w_rand w'\<rparr>"
  using rand_Read_world [of saltLen w] rand_Read_world [of nonceLen "snd (rand_Read saltLen w)"]
  by (auto simp: EncryptVault_def Let_def split: prod.splits option.splits) (metis world.surjective world.update_convs(6))+

lemma EncryptVault_decrypts:
  assumes "codec_ok e v" and "EncryptVault e v pw [g] w = (Inr blob, w')"
  shows "Decrypt (e_kdf e) (e_open e) blob pw = Inr (e_marshal e v)" and "Generation blob = (g, True)"
proof -
  obtain salt nonce where "length salt = saltLen" "length nonce = nonceLen"
    and enc: "Encrypt (e_kdf e) (e_seal e) (Some salt) (Some nonce) (e_marshal e v) pw [g] = Inr blob"
    using assms(2) rand_Read_length
    by (auto simp: EncryptVault_def Encrypt_def Let_def split: prod.splits option.splits)
  then have "Decrypt (e_kdf e) (e_open e) blob pw = Inr (e_marshal e v) \<and> Generation blob = (g, True)"
    using assms(1) Encrypt_Decrypt [of "e_open e" "e_seal e" salt nonce "e_kdf e" "e_marshal e v" pw g blob]
    by (auto simp: codec_ok_def)
  then show "Decrypt (e_kdf e) (e_open e) blob pw = Inr (e_marshal e v)" "Generation blob = (g, True)" by auto
qed

lemma EncryptVault_frame:
  assumes "EncryptVault e v pw gs w = (r, w')"
  shows "w_dir w' = w_dir w" "w_loaded w' = w_loaded w" "w_trace w' = w_trace w" "w_locks w' = w_locks w"
    "w_http w' = w_http w" "w_clock w' = w_clock w" "w_writes w' = w_writes w" "w_removes w' = w_removes w"
  using EncryptVault_world [OF assms]
  by (metis world.select_convs world.surjective world.update_convs(6))+

lemma Save_result:
  assumes "Save e v pw w = (r, w')"
  obtains (unwritten) "r \<noteq> None" "w_dir w' = w_dir w" "w_loaded w' = w_loaded w" "w_trace w' = w_trace w"
  | (written) blob w1 written where
      "EncryptVault e v pw [NextVaultGeneration (w_dir w)] w = (Inr blob, w1)"
      "r = None \<longrightarrow> written"
      "w_dir w' = (if written then (w_dir w)\<lparr>d_vault := File blob\<rparr> else w_dir w)"
      "w_loaded w' = (if r = None then Some (blobIdentity e blob) else w_loaded w)"
      "w_trace w' = w_trace w @ [Wrote VaultFile (w_dir w) (w_dir w')]"
proof (cases "EncryptVault e v pw [NextVaultGeneration (w_dir w)] w")
  case (Pair x w1)
  note w1 = EncryptVault_frame [OF Pair]
  show ?thesis
  proof (cases x)
    case (Inl err)
    with Pair w1 assms show ?thesis by (intro unwritten) (auto simp: Save_def)
  next
    case (Inr blob)
    obtain ok w2 where put: "put_file VaultFile d_vault d_vault_update blob w1 = (ok, w2)" by (rule prod.exhaust)
    from put_file_result [OF put] obtain written d' where ok: "ok \<longrightarrow> written"
      and w2: "d' = d_vault_update (\<lambda>_. if written then File blob else d_vault (w_dir w1)) (w_dir w1)"
        "w2 = emit (Wrote VaultFile (w_dir w1) d') (w1\<lparr>w_writes := tl (w_writes w1), w_dir := d'\<rparr>)" .
    have "(r, w') = (if ok then (None, w2\<lparr>w_loaded := Some (blobIdentity e blob)\<rparr>) else (Some StoreWriteErr, w2))"
      using assms Pair Inr put by (cases ok) (simp_all add: Save_def)
    with Pair Inr ok w1 w2 show ?thesis
      by (intro written [of blob w1 written]) (auto split: if_splits)
  qed
qed

lemma AcquireFileLock_frame:
  assumes "AcquireFileLock w = (r, w')"
  shows "w_loaded w' = w_loaded w" "w_trace w' = w_trace w" "w_rand w' = w_rand w" "w_writes w' = w_writes w"
    "w_http w' = w_http w" "w_clock w' = w_clock w" "w_removes w' = w_removes w" "w_spawns w' = w_spawns w"
    "r \<noteq> None \<Longrightarrow> w_dir w' = w_dir w"
  using assms by (auto simp: AcquireFileLock_def split: list.splits lock_reply.splits)

lemma AcquireFileLock_dir:
  assumes "AcquireFileLock w = (r, w')" and "\<And>f. LockAcquired f \<in> set (w_locks w) \<Longrightarrow> P (f (w_dir w))"
    and "P (w_dir w)"
  shows "P (w_dir w')"
  using assms by (auto simp: AcquireFileLock_def split: list.splits lock_reply.splits)

lemma lockVaultWrite_AcquireFileLock:
  "fst (lockVaultWrite w) = None \<longleftrightarrow> fst (AcquireFileLock w) = None"
  "snd (lockVaultWrite w) = snd (AcquireFileLock w)"
  by (auto simp: lockVaultWrite_def split: prod.splits option.splits lock_error.splits)

lemma word_less_succ: "(x :: 'a :: len word) \<noteq> - 1 \<Longrightarrow> x < x + 1"
proof -
  assume "x \<noteq> - 1"
  then have "1 + x \<noteq> 0" by (metis add_eq_0_iff)
  then have "unat (1 + x) = Suc (unat x)" by (rule unatSuc)
  then show "x < x + 1" by (simp add: word_less_nat_alt add.commute)
qed

section \<open>A sample environment\<close>

text \<open>
  For the witnesses: vaults are encoded by their position in a list, identities are the last bytes
  in hexadecimal, time stamps are decimal numbers, read back in whole seconds.
\<close>

definition demo_env :: "vault list \<Rightarrow> env" where
  "demo_env vs =
     \<lparr>e_sha256 = (\<lambda>bs. take 64 (hex_encode (rev bs) @ replicate 64 (CHR ''0''))),
      e_kdf = (\<lambda>pw salt. salt), e_seal = demo_seal, e_open = demo_open,
      e_marshal = (\<lambda>v. [of_nat (length (takeWhile (\<lambda>x. x \<noteq> v) vs))]),
      e_unmarshal = (\<lambda>bs. case bs of [b] \<Rightarrow> (if unat b < length vs then Some (vs ! unat b) else None) | _ \<Rightarrow> None),
      e_unmarshal_conns = (\<lambda>bs. None),
      e_format_time = itoa,
      e_parse_time = (\<lambda>s. map_option (\<lambda>t. t - t mod second) (digits_value 0 s)), e_format_nano = itoa, e_parse_nano = atoi,
      e_parse_duration = (\<lambda>s. None), e_sync_mode = '''',
      e_parse_url = (\<lambda>s. if has_prefix s ''https://'' then Some (''https'', drop 8 s) else None)\<rparr>"

definition demo_dir :: cfgdir where
  "demo_dir =
     \<lparr>d_vault = Absent, d_prev = Absent, d_generation = File (Json 4), d_settings = Absent, d_etag = Absent,
      d_conflict = Absent, d_state = Absent, d_superseded = Absent, d_intent = Absent,
      d_cloud = File (Json \<lparr>cc_Server = ''https://sync.example'', cc_Token = ''token'', cc_Email = ''''\<rparr>),
      d_merge = Absent, d_redirects = Absent\<rparr>"

definition demo_world :: world where
  "demo_world =
     \<lparr>w_dir = demo_dir, w_loaded = Some absentBlobIdentity, w_locks = [], w_writes = [], w_removes = [],
      w_rand = [Some [1], Some [2], Some [3], Some [4], Some [5], Some [6]], w_clock = [], w_http = [], w_spawns = [], w_trace = []\<rparr>"

lemma demo_codec_ok:
  assumes "v \<in> set vs" and "length vs < 256"
  shows "codec_ok (demo_env vs) v"
proof -
  let ?n = "length (takeWhile (\<lambda>x. x \<noteq> v) vs)"
  have "?n < length vs" using assms(1) by (induction vs) auto
  then have "vs ! ?n = v" using nth_length_takeWhile [of "\<lambda>x. x \<noteq> v" vs] by simp
  moreover have "unat (of_nat ?n :: byte) = ?n"
    using \<open>?n < length vs\<close> assms(2) by (simp add: unat_of_nat)
  ultimately show ?thesis
    using \<open>?n < length vs\<close> by (simp add: codec_ok_def demo_env_def demo_gcm(1,2))
qed

section \<open>Properties\<close>

text \<open>
  The next generation never goes back: it is at least the generation in the header of the current
  vault file and the recorded high-water mark, and strictly above both unless the 64-bit counter is
  saturated, where it stays.
\<close>

theorem next_generation_advances:
  "let current = (case ReadFile (d_vault d) of Inr data \<Rightarrow> fst (Generation data) | Inl _ \<Rightarrow> 0);
       top = max current (MaxSeenGeneration d)
   in NextVaultGeneration d = (if top = max_uint64 then max_uint64 else top + 1)
      \<and> top \<le> NextVaultGeneration d \<and> (NextVaultGeneration d = top \<longleftrightarrow> top = max_uint64)"
proof -
  define current where "current = (case ReadFile (d_vault d) of Inr data \<Rightarrow> fst (Generation data) | Inl _ \<Rightarrow> 0)"
  define top where "top = max current (MaxSeenGeneration d)"
  have eq: "NextVaultGeneration d = (if top = max_uint64 then max_uint64 else top + 1)"
    by (auto simp: NextVaultGeneration_def Let_def top_def max_def simp flip: current_def)
  moreover have "top < top + 1" if "top \<noteq> max_uint64" using that by (rule word_less_succ)
  ultimately have "top \<le> NextVaultGeneration d \<and> (NextVaultGeneration d = top \<longleftrightarrow> top = max_uint64)"
    by (auto simp: order_less_imp_le)
  with eq show ?thesis by (simp add: Let_def top_def current_def)
qed

text \<open>
  
  Saving and loading: after a successful save, loading with the same password returns exactly the
  saved vault, the loaded identity is that of the file on disk, and the file carries the next
  generation. Whatever fails, every other file of the directory is unchanged.
\<close>

theorem save_load_roundtrip:
  assumes "codec_ok e v" and "Save e v masterPass w = (r, w')"
  shows "(r = None \<longrightarrow>
      fst (Load e masterPass w') = Inr v
      \<and> w_loaded w' = CurrentBlobIdentity e (w_dir w')
      \<and> (\<exists>blob. d_vault (w_dir w') = File blob \<and> Generation blob = (NextVaultGeneration (w_dir w), True)))
    \<and> w_dir w'\<lparr>d_vault := d_vault (w_dir w)\<rparr> = w_dir w"
  using assms(2)
proof (cases rule: Save_result)
  case unwritten
  then have "r = None \<Longrightarrow> False" by simp
  with unwritten(2) show ?thesis by auto
next
  case (written blob w1 written)
  have "w_dir w'\<lparr>d_vault := d_vault (w_dir w)\<rparr> = w_dir w" using written(3) by simp
  moreover have "fst (Load e masterPass w') = Inr v \<and> w_loaded w' = CurrentBlobIdentity e (w_dir w')
      \<and> d_vault (w_dir w') = File blob \<and> Generation blob = (NextVaultGeneration (w_dir w), True)" if "r = None"
    using that written EncryptVault_decrypts [OF assms(1) written(1)] assms(1)
    by (simp add: Load_def ReadFile_def CurrentBlobIdentity_def codec_ok_def Let_def)
  ultimately show ?thesis by blast
qed

theorem save_load_roundtrip_witness:
  "\<exists>w'. Save (demo_env [empty_vault]) empty_vault ''pw'' demo_world = (None, w')
     \<and> fst (Load (demo_env [empty_vault]) ''pw'' w') = Inr empty_vault"
proof -
  have "codec_ok (demo_env [empty_vault]) empty_vault" by (rule demo_codec_ok) simp_all
  moreover have "fst (Save (demo_env [empty_vault]) empty_vault ''pw'' demo_world) = None" by code_simp
  ultimately show ?thesis
    using save_load_roundtrip [of "demo_env [empty_vault]" empty_vault "''pw''" demo_world None]
    by (metis prod.collapse)
qed

text \<open>
  C32.
  A local mutation never overwrites a vault that was replaced behind its back. If, once the write
  lock is held, the vault file is not the one this process loaded (another process changed it, or
  it cannot be read), nothing is written and an error is returned; if the save succeeds, the file
  found under the lock was the loaded one and the new file decrypts to the mutated vault.
\<close>

theorem saveLoadedVault_no_lost_update:
  assumes "codec_ok e after" and "w_loaded w = Some loaded"
    and "saveLoadedVault e after masterPass w = (r, w')"
    and "AcquireFileLock w = (None, locked)"
  shows "(CurrentBlobIdentity e (w_dir locked) \<noteq> Some loaded \<longrightarrow>
        r \<noteq> None \<and> w_dir w' = w_dir locked \<and> w_trace w' = w_trace w)
    \<and> (r = None \<longrightarrow> CurrentBlobIdentity e (w_dir locked) = Some loaded \<and> fst (Load e masterPass w') = Inr after)"
proof -
  have locked: "lockVaultWrite w = (None, locked)" using assms(4) by (simp add: lockVaultWrite_def)
  have frame: "w_loaded locked = Some loaded" "w_trace locked = w_trace w"
    using AcquireFileLock_frame [OF assms(4)] assms(2) by auto
  show ?thesis
  proof (cases "CurrentBlobIdentity e (w_dir locked) = Some loaded")
    case True
    with assms(3) locked frame have save: "Save e after masterPass locked = (r, w')"
      by (simp add: saveLoadedVault_def)
    have "fst (Load e masterPass w') = Inr after" if "r = None"
      using save
    proof (cases rule: Save_result)
      case unwritten
      with that show ?thesis by simp
    next
      case (written blob w1 written)
      with that EncryptVault_decrypts [OF assms(1) written(1)] assms(1) show ?thesis
        by (simp add: Load_def ReadFile_def codec_ok_def Let_def)
    qed
    with True show ?thesis by blast
  next
    case False
    with assms(3) locked frame show ?thesis
      by (auto simp: saveLoadedVault_def split: option.splits)
  qed
qed

theorem saveLoadedVault_no_lost_update_witness:
  "\<exists>w' locked.
     AcquireFileLock (demo_world\<lparr>w_locks := [LockAcquired (d_vault_update (\<lambda>_. File [1, 2, 3]))]\<rparr>) = (None, locked)
     \<and> saveLoadedVault (demo_env [empty_vault]) empty_vault ''pw''
         (demo_world\<lparr>w_locks := [LockAcquired (d_vault_update (\<lambda>_. File [1, 2, 3]))]\<rparr>) = (Some ErrVaultChanged, w')
     \<and> w_dir w' = w_dir locked \<and> d_vault (w_dir w') = File [1, 2, 3]"
proof -
  let ?w = "demo_world\<lparr>w_locks := [LockAcquired (d_vault_update (\<lambda>_. File [1, 2, 3]))]\<rparr>"
  let ?locked = "demo_world\<lparr>w_dir := demo_dir\<lparr>d_vault := File [1, 2, 3]\<rparr>\<rparr>"
  have codec: "codec_ok (demo_env [empty_vault]) empty_vault" by (rule demo_codec_ok) simp_all
  have lock: "AcquireFileLock ?w = (None, ?locked)" by (simp add: AcquireFileLock_def demo_world_def)
  have r: "fst (saveLoadedVault (demo_env [empty_vault]) empty_vault ''pw'' ?w) = Some ErrVaultChanged" by code_simp
  have id: "CurrentBlobIdentity (demo_env [empty_vault]) (w_dir ?locked) \<noteq> Some absentBlobIdentity" by code_simp
  have loaded: "w_loaded ?w = Some absentBlobIdentity" by (simp add: demo_world_def)
  obtain w' where w': "saveLoadedVault (demo_env [empty_vault]) empty_vault ''pw'' ?w = (Some ErrVaultChanged, w')"
    using r by (metis prod.collapse)
  from saveLoadedVault_no_lost_update [OF codec loaded w' lock] id have "w_dir w' = w_dir ?locked" by blast
  with lock w' show ?thesis by auto
qed

text \<open>
  Initialisation never replaces a vault: if the vault file exists once the write lock is held,
  \<^verbatim>\<open>CreateVaultIfAbsent\<close> reports that it created none and changes nothing.
\<close>

theorem create_never_replaces:
  assumes "AcquireFileLock w = (None, locked)" and "Stat (d_vault (w_dir locked)) = None"
  shows "CreateVaultIfAbsent e v masterPass w = (Inr False, locked)"
  using assms by (simp add: CreateVaultIfAbsent_def)

theorem create_never_replaces_witness:
  "CreateVaultIfAbsent (demo_env []) empty_vault ''pw'' (demo_world\<lparr>w_dir := demo_dir\<lparr>d_vault := File [1]\<rparr>\<rparr>)
     = (Inr False, demo_world\<lparr>w_dir := demo_dir\<lparr>d_vault := File [1]\<rparr>\<rparr>)"
  by (rule create_never_replaces) (simp_all add: AcquireFileLock_def demo_world_def Stat_def)

text \<open>
  Recording a generation only moves the high-water mark up, whatever fails, as long as the other
  processes do not lower it either; and when the lock is free and the write succeeds, the mark
  becomes the maximum of both values.
\<close>

theorem record_generation_monotone:
  assumes "\<And>f d. LockAcquired f \<in> set (w_locks w) \<Longrightarrow> MaxSeenGeneration d \<le> MaxSeenGeneration (f d)"
  shows "MaxSeenGeneration (w_dir w) \<le> MaxSeenGeneration (w_dir (RecordMaxSeenGeneration g w))
    \<and> (w_locks w = [] \<and> w_writes w = [] \<and> (\<forall>x. d_generation (w_dir w) \<noteq> File (Malformed x)) \<longrightarrow>
        MaxSeenGeneration (w_dir (RecordMaxSeenGeneration g w)) = max (MaxSeenGeneration (w_dir w)) g)"
proof -
  let ?w = "RecordMaxSeenGeneration g w"
  obtain r w1 where lock: "AcquireFileLock w = (r, w1)" by (rule prod.exhaust)
  have up: "MaxSeenGeneration (w_dir w) \<le> MaxSeenGeneration (w_dir w1)"
    using lock by (rule AcquireFileLock_dir) (auto intro: assms)
  have put: "MaxSeenGeneration (w_dir w1) \<le> MaxSeenGeneration (w_dir (snd (put_file GenerationFile d_generation d_generation_update (Json g) w1)))"
    if "\<not> g \<le> (case ReadFile (d_generation (w_dir w1)) of Inr (Json g) \<Rightarrow> g | Inr (Malformed g) \<Rightarrow> g | Inl _ \<Rightarrow> 0)"
  proof -
    obtain ok w2 where w2: "put_file GenerationFile d_generation d_generation_update (Json g) w1 = (ok, w2)"
      by (rule prod.exhaust)
    then obtain written where
      "d_generation (w_dir w2) = (if written then File (Json g) else d_generation (w_dir w1))"
      by (rule put_file_result) auto
    with that w2 show ?thesis
      by (cases "d_generation (w_dir w1)")
        (auto simp: MaxSeenGeneration_def decode_json_def ReadFile_def split: json.splits)
  qed
  have "MaxSeenGeneration (w_dir w) \<le> MaxSeenGeneration (w_dir ?w)"
  proof (cases r)
    case None
    show ?thesis
      unfolding RecordMaxSeenGeneration_def lock None Let_def prod.case option.case
      using up put order_trans [OF up put] by (simp split del: option.split)
  next
    case (Some err)
    then show ?thesis using up lock by (simp add: RecordMaxSeenGeneration_def)
  qed
  moreover have "MaxSeenGeneration (w_dir ?w) = max (MaxSeenGeneration (w_dir w)) g"
    if "w_locks w = []" "w_writes w = []" "\<forall>x. d_generation (w_dir w) \<noteq> File (Malformed x)"
    using that
    by (auto simp: RecordMaxSeenGeneration_def AcquireFileLock_def put_file_def WritePrivateFile_def Let_def
        MaxSeenGeneration_def decode_json_def ReadFile_def max_def split: dfile.splits json.splits)
  ultimately show ?thesis by blast
qed

theorem record_generation_monotone_witness:
  "MaxSeenGeneration (w_dir (RecordMaxSeenGeneration 9 demo_world)) = 9"
proof -
  have h: "MaxSeenGeneration d \<le> MaxSeenGeneration (f d)" if "LockAcquired f \<in> set (w_locks demo_world)" for f d
    using that by (simp add: demo_world_def)
  have "w_locks demo_world = []" "w_writes demo_world = []" "MaxSeenGeneration (w_dir demo_world) = 4"
    "\<forall>x. d_generation (w_dir demo_world) \<noteq> File (Malformed x)"
    by (simp_all add: demo_world_def demo_dir_def MaxSeenGeneration_def decode_json_def ReadFile_def)
  with record_generation_monotone [of demo_world 9] h show ?thesis by simp
qed

text \<open>
  Settings survive a round trip: what was saved is what is loaded, and both configured durations
  are positive whatever the file holds.
\<close>

theorem settings_roundtrip:
  assumes "SaveSettings s w = (True, w')"
  shows "LoadSettings (w_dir w') = s \<and> 0 < EffectiveSyncInterval e s \<and> 0 < EffectiveStaleAfter e s"
proof -
  have or_omit: "or_else (omitempty x) '''' = x" for x
    by (simp add: or_else_def omitempty_def)
  from assms have "d_settings (w_dir w') = File (Json (settings_document s))"
    unfolding SaveSettings_def by (rule put_file_result) auto
  then have "LoadSettings (w_dir w') = s"
    by (simp add: LoadSettings_def decode_json_def ReadFile_def settings_document_def DefaultSettings_def or_omit)
      (simp add: or_else_def)
  moreover have "0 < fallback \<Longrightarrow> 0 < parseSettingsDuration e raw fallback" for raw fallback
    by (auto simp: parseSettingsDuration_def Let_def duration_defs split: option.splits)
  ultimately show ?thesis
    by (simp add: EffectiveSyncInterval_def EffectiveStaleAfter_def duration_defs)
qed

theorem settings_roundtrip_witness:
  "\<exists>w'. SaveSettings (DefaultSettings\<lparr>set_SyncMode := ''strict''\<rparr>) demo_world = (True, w')
     \<and> LoadSettings (w_dir w') = DefaultSettings\<lparr>set_SyncMode := ''strict''\<rparr>"
proof -
  let ?s = "DefaultSettings\<lparr>set_SyncMode := ''strict''\<rparr>"
  have "fst (SaveSettings ?s demo_world) = True" by code_simp
  then obtain w' where w': "SaveSettings ?s demo_world = (True, w')" by (metis prod.collapse)
  with settings_roundtrip [OF w'] show ?thesis by blast
qed

end
