(* ===== verification/Host_Mutation.thy ===== *)
theory Host_Mutation
  imports Ledger_Publication Vault_Store
begin

text \<open>
  Reviewed inventory mutations (\<^verbatim>\<open>internal/inventorytransaction/transaction.go\<close>): the candidate of a
  host change with its validation, the removal of a saved key, the bulk import, and how each of
  them appends one entry to the ledger and persists the vault. Reading a credential file is the
  parameter \<open>cred path\<close> (None when it cannot be read), \<^verbatim>\<open>gossh.ParsePrivateKey\<close> the parameter
  \<open>parse_key\<close>, the SSH verification of a candidate the parameter \<open>verifier\<close>.
\<close>

section \<open>Data\<close>

datatype host_action = HostAdd | HostUpdate | HostUpsert | HostRemove | HostUnsupported string

record host_change =
  hc_Action :: host_action
  hc_Alias :: string
  hc_Host :: "string option"
  hc_Port :: "int option"
  hc_User :: "string option"
  hc_Group :: "string option"
  hc_Transfer :: "string option"
  hc_ProxyJump :: "string option"
  hc_PasswordFile :: "string option"
  hc_SavedKey :: "string option"
  hc_KeyFile :: "string option"
  hc_KeyName :: "string option"
  hc_PruneKey :: bool
  hc_Verify :: bool

record host_view =
  hv_Name :: string
  hv_Host :: string
  hv_Port :: int
  hv_User :: string
  hv_Group :: string
  hv_Auth :: string
  hv_KeyName :: string
  hv_Transfer :: string
  hv_ProxyJump :: string

record check_result =
  cr_OK :: bool
  cr_Alias :: string
  cr_User :: string
  cr_Host :: string
  cr_Port :: int
  cr_Hostname :: string
  cr_Uname :: string

record mutation_receipt =
  rc_OK :: bool
  rc_Action :: string
  rc_Changed :: bool
  rc_Host :: host_view
  rc_KeyAdded :: string
  rc_KeyPruned :: string
  rc_SyncPending :: bool
  rc_Applied :: bool
  rc_Pushed :: bool
  rc_TransactionID :: string
  rc_Verification :: "check_result option"

record saved_key_receipt =
  sk_OK :: bool
  sk_Action :: string
  sk_KeyName :: string
  sk_Keys :: int
  sk_SyncPending :: bool
  sk_Applied :: bool
  sk_Pushed :: bool
  sk_TransactionID :: string

record import_receipt =
  ir_OK :: bool
  ir_Action :: string
  ir_Connections :: int
  ir_Keys :: int
  ir_Aliases :: "string list"
  ir_Conflicts :: "merge_conflict list"
  ir_SyncPending :: bool
  ir_Applied :: bool
  ir_Pushed :: bool
  ir_TransactionID :: string

text \<open>The kinds that \<^verbatim>\<open>hostError\<close> classifies, without their messages.\<close>

datatype host_error =
    HostTransactionFailed
  | HostInternalFailure
  | HostVaultFailed store_error
  | HostAliasNotFound
  | HostAlreadyExists
  | HostApplyInvalidArguments
  | HostInvalidAlias
  | HostInvalidAddress
  | HostInvalidUser
  | HostInvalidGroup
  | HostApplyAuthenticationRequired
  | HostSavedKeyNotFound string
  | HostPasswordFileFailed
  | HostKeyFileFailed
  | HostInvalidKey
  | HostKeyConflict
  | VerificationError mutation_receipt

datatype import_error =
    ImportRequired
  | ImportKeyNameEmpty
  | ImportKeyDuplicated string
  | ImportAliasEmpty
  | ImportAliasDuplicated string
  | ImportHostUserMissing string
  | ImportInvalidPort string
  | ImportNoAuth string
  | ImportMissingKey string string

datatype mutation_error =
    MutLedger ledger_error
  | SavedKeyNotFound string
  | SavedKeyReferenced string "string list"
  | MutNoID
  | MutPendingWithoutBase
  | MutSave store_error
  | MutImportInvalid import_error
  | MutMergeReport

section \<open>Validation\<close>

definition alias_char :: "char \<Rightarrow> bool" where
  "alias_char c = (CHR ''A'' \<le> c \<and> c \<le> CHR ''Z'' \<or> CHR ''a'' \<le> c \<and> c \<le> CHR ''z''
     \<or> CHR ''0'' \<le> c \<and> c \<le> CHR ''9'')"

text \<open>\<^verbatim>\<open>^[A-Za-z0-9][A-Za-z0-9._-]{0,127}$\<close>\<close>

definition safeHostAliasPattern :: "string \<Rightarrow> bool" where
  "safeHostAliasPattern s =
     (case s of
        [] \<Rightarrow> False
      | c # cs \<Rightarrow> alias_char c \<and> length cs \<le> 127
          \<and> list_all (\<lambda>c. alias_char c \<or> c \<in> {CHR ''.'', CHR ''_'', CHR ''-''}) cs)"

definition hasControlCharacter :: "string \<Rightarrow> bool" where
  "hasControlCharacter value = list_ex (\<lambda>r. (of_char r :: nat) < 0x20 \<or> of_char r = (0x7f :: nat)) value"

definition validateManagedConnection :: "connection \<Rightarrow> vault \<Rightarrow> host_error option" where
  "validateManagedConnection c v =
     (if trim_space (conn_Host c) = '''' then Some HostInvalidAddress
      else if conn_Host c \<noteq> trim_space (conn_Host c)
          \<or> contains_any (conn_Host c) [CHR '' '', CHR 0x09, CHR 0x0D, CHR 0x0A, CHR ''/'', CHR ''@'']
          \<or> contains_sub (conn_Host c) ''://'' then Some HostInvalidAddress
      else if has_prefix (conn_Host c) ''['' \<or> has_suffix (conn_Host c) '']'' then Some HostInvalidAddress
      else if trim_space (conn_User c) = ''''
          \<or> contains_any (conn_User c) [CHR '' '', CHR 0x09, CHR 0x0D, CHR 0x0A]
          \<or> hasControlCharacter (conn_User c) then Some HostInvalidUser
      else if conn_Port c < 1 \<or> conn_Port c > 65535 then Some HostApplyInvalidArguments
      else if hasControlCharacter (conn_Group c) then Some HostInvalidGroup
      else if conn_ProxyJump c \<noteq> ''''
          \<and> (hasControlCharacter (conn_ProxyJump c) \<or> contains_any (conn_ProxyJump c) [CHR '' '', CHR 0x09])
        then Some HostApplyInvalidArguments
      else if conn_ProxyJump c \<noteq> '''' \<and> conn_ProxyJump c = conn_Name c then Some HostApplyInvalidArguments
      else if conn_Password c = '''' \<and> conn_KeyName c = '''' then Some HostApplyAuthenticationRequired
      else if conn_KeyName c \<noteq> '''' \<and> GetKey v (conn_KeyName c) = None
        then Some (HostSavedKeyNotFound (conn_KeyName c))
      else None)"

definition maxHostCredentialBytes :: int where "maxHostCredentialBytes = 1048576"

definition readHostCredentialFile :: "(string \<Rightarrow> string option) \<Rightarrow> string \<Rightarrow> string option" where
  "readHostCredentialFile cred path =
     (case cred path of
        None \<Rightarrow> None
      | Some data \<Rightarrow> if int (length data) > maxHostCredentialBytes then None else Some data)"

definition loadPasswordFile :: "(string \<Rightarrow> string option) \<Rightarrow> string \<Rightarrow> host_error + string" where
  "loadPasswordFile cred path =
     (if trim_space path = '''' then Inl HostApplyInvalidArguments
      else case readHostCredentialFile cred path of
        None \<Rightarrow> Inl HostPasswordFileFailed
      | Some data \<Rightarrow>
          (let password = trim_right data [CHR 0x0D, CHR 0x0A]
           in if password = '''' then Inl HostPasswordFileFailed
              else if CHR 0x00 \<in> set password then Inl HostPasswordFileFailed
              else Inr password))"

definition keyReferenceCountExcept :: "vault \<Rightarrow> string \<Rightarrow> string \<Rightarrow> nat" where
  "keyReferenceCountExcept v name exceptAlias =
     length (filter (\<lambda>c. conn_Name c \<noteq> exceptAlias \<and> conn_KeyName c = name) (v_Connections v))"

definition keyReferenceCount :: "vault \<Rightarrow> string \<Rightarrow> nat" where
  "keyReferenceCount v name = keyReferenceCountExcept v name ''''"

text \<open>The result is the vault with the key, the key's name and whether it was added.\<close>

definition installHostKey :: "(string \<Rightarrow> string option) \<Rightarrow> (string \<Rightarrow> bool) \<Rightarrow> vault \<Rightarrow> connection \<Rightarrow>
    host_change \<Rightarrow> host_error + vault \<times> string \<times> bool" where
  "installHostKey cred parse_key v current change =
     (let path = trim_space (case hc_KeyFile change of Some p \<Rightarrow> p | None \<Rightarrow> '''') in
      if path = '''' then Inl HostApplyInvalidArguments
      else case readHostCredentialFile cred path of
        None \<Rightarrow> Inl HostKeyFileFailed
      | Some data \<Rightarrow>
          (let material = trim_space data in
           if material = '''' then Inl HostInvalidKey
           else if \<not> parse_key material then Inl HostInvalidKey
           else
             (let name0 = (case hc_KeyName change of Some n \<Rightarrow> trim_space n | None \<Rightarrow> '''');
                  name = (if name0 \<noteq> '''' then name0
                          else if conn_KeyName current \<noteq> '''' then conn_KeyName current
                          else hc_Alias change)
              in if \<not> safeHostAliasPattern name then Inl HostApplyInvalidArguments
                 else case find_named key_Name name (v_Keys v) of
                   None \<Rightarrow> Inr (v\<lparr>v_Keys := v_Keys v @ [\<lparr>key_Name = name, key_PrivateKey = material\<rparr>]\<rparr>, name, True)
                 | Some k \<Rightarrow>
                     if trim_space (key_PrivateKey k) = material then Inr (v, name, False)
                     else if conn_KeyName current \<noteq> name then Inl HostKeyConflict
                     else if keyReferenceCountExcept v name (conn_Name current) > 0 then Inl HostKeyConflict
                     else Inr (v\<lparr>v_Keys := put_named key_Name (k\<lparr>key_PrivateKey := material\<rparr>) (v_Keys v)\<rparr>, name, False))))"

section \<open>The candidate of a host change\<close>

definition View :: "connection \<Rightarrow> host_view" where
  "View c =
     \<lparr>hv_Name = conn_Name c, hv_Host = conn_Host c,
      hv_Port = (if conn_Port c = 0 then 22 else conn_Port c), hv_User = conn_User c,
      hv_Group = conn_Group c,
      hv_Auth = (if conn_KeyName c \<noteq> '''' \<and> conn_Password c \<noteq> '''' then ''key+password''
                 else if conn_KeyName c \<noteq> '''' then ''key''
                 else if conn_Password c \<noteq> '''' then ''password'' else ''none''),
      hv_KeyName = conn_KeyName c, hv_Transfer = conn_Transfer c, hv_ProxyJump = conn_ProxyJump c\<rparr>"

definition base_receipt :: "string \<Rightarrow> bool \<Rightarrow> host_view \<Rightarrow> mutation_receipt" where
  "base_receipt action changed host =
     \<lparr>rc_OK = True, rc_Action = action, rc_Changed = changed, rc_Host = host, rc_KeyAdded = '''',
      rc_KeyPruned = '''', rc_SyncPending = True, rc_Applied = False, rc_Pushed = False,
      rc_TransactionID = '''', rc_Verification = None\<rparr>"

definition remove_candidate :: "vault \<Rightarrow> host_change \<Rightarrow> host_error + vault \<times> mutation_receipt" where
  "remove_candidate v change =
     (case exactConnectionIndex v (hc_Alias change) of
        None \<Rightarrow> Inl HostAliasNotFound
      | Some idx \<Rightarrow>
          (let removed = v_Connections v ! idx;
               updated = v\<lparr>v_Connections := drop_at idx (v_Connections v)\<rparr>;
               receipt = base_receipt ''removed'' True (View removed)
           in if hc_PruneKey change \<and> conn_KeyName removed \<noteq> ''''
                 \<and> keyReferenceCount updated (conn_KeyName removed) = 0
              then (case removeKeyByName updated (conn_KeyName removed) of
                      (updated', True) \<Rightarrow> Inr (updated', receipt\<lparr>rc_KeyPruned := conn_KeyName removed\<rparr>)
                    | (updated', False) \<Rightarrow> Inr (updated', receipt))
              else Inr (updated, receipt)))"

text \<open>The optional plain fields of a change.\<close>

definition set_fields :: "host_change \<Rightarrow> connection \<Rightarrow> host_error + connection" where
  "set_fields change c0 =
     (let c1 = (case hc_Host change of None \<Rightarrow> c0 | Some h \<Rightarrow> c0\<lparr>conn_Host := trim_space h\<rparr>);
          c2 = (case hc_Port change of None \<Rightarrow> c1 | Some p \<Rightarrow> c1\<lparr>conn_Port := p\<rparr>);
          c3 = (case hc_User change of None \<Rightarrow> c2 | Some u \<Rightarrow> c2\<lparr>conn_User := trim_space u\<rparr>);
          c4 = (case hc_Group change of None \<Rightarrow> c3 | Some g \<Rightarrow> c3\<lparr>conn_Group := trim_space g\<rparr>);
          jump = (\<lambda>c. case hc_ProxyJump change of None \<Rightarrow> c | Some j \<Rightarrow> c\<lparr>conn_ProxyJump := trim_space j\<rparr>)
      in case hc_Transfer change of
           None \<Rightarrow> Inr (jump c4)
         | Some t \<Rightarrow>
             (case NormalizeTransfer t of
                None \<Rightarrow> Inl HostApplyInvalidArguments
              | Some mode \<Rightarrow> Inr (jump (c4\<lparr>conn_Transfer := mode\<rparr>))))"

text \<open>The credential switch: a password file, a saved key or a key file, in this order.\<close>

definition set_credentials :: "(string \<Rightarrow> string option) \<Rightarrow> (string \<Rightarrow> bool) \<Rightarrow> host_change \<Rightarrow> vault \<Rightarrow>
    connection \<Rightarrow> host_error + vault \<times> connection \<times> string" where
  "set_credentials cred parse_key change v c =
     (case hc_PasswordFile change of
        Some path \<Rightarrow>
          (case loadPasswordFile cred path of
             Inl err \<Rightarrow> Inl err
           | Inr password \<Rightarrow> Inr (v, c\<lparr>conn_Password := password, conn_KeyName := ''''\<rparr>, ''''))
      | None \<Rightarrow>
          (case hc_SavedKey change of
             Some saved \<Rightarrow>
               (let name = trim_space saved in
                if name = '''' \<or> GetKey v name = None then Inl (HostSavedKeyNotFound name)
                else Inr (v, c\<lparr>conn_KeyName := name, conn_Password := ''''\<rparr>, ''''))
           | None \<Rightarrow>
               (case hc_KeyFile change of
                  Some _ \<Rightarrow>
                    (case installHostKey cred parse_key v c change of
                       Inl err \<Rightarrow> Inl err
                     | Inr (v', name, added) \<Rightarrow>
                         Inr (v', c\<lparr>conn_KeyName := name, conn_Password := ''''\<rparr>, if added then name else ''''))
                | None \<Rightarrow> Inr (v, c, ''''))))"

text \<open>The connection that a change starts from: the existing one with a default port, or a new one.\<close>

definition starting_connection :: "vault \<Rightarrow> host_change \<Rightarrow> connection" where
  "starting_connection v change =
     (case exactConnectionIndex v (hc_Alias change) of
        None \<Rightarrow> empty_connection\<lparr>conn_Name := hc_Alias change, conn_Port := 22\<rparr>
      | Some i \<Rightarrow> (let c = v_Connections v ! i in if conn_Port c = 0 then c\<lparr>conn_Port := 22\<rparr> else c))"

definition buildHostCandidate :: "(string \<Rightarrow> string option) \<Rightarrow> (string \<Rightarrow> bool) \<Rightarrow> vault \<Rightarrow> host_change \<Rightarrow>
    host_error + vault \<times> mutation_receipt" where
  "buildHostCandidate cred parse_key v change =
     (let idx = exactConnectionIndex v (hc_Alias change); exists = (idx \<noteq> None) in
      if hc_Action change = HostRemove then remove_candidate v change
      else if hc_Action change = HostAdd \<and> exists then Inl HostAlreadyExists
      else if hc_Action change = HostUpdate \<and> \<not> exists then Inl HostAliasNotFound
      else if hc_Action change \<noteq> HostAdd \<and> hc_Action change \<noteq> HostUpdate \<and> hc_Action change \<noteq> HostUpsert
        then Inl HostApplyInvalidArguments
      else if \<not> exists \<and> \<not> safeHostAliasPattern (hc_Alias change) then Inl HostInvalidAlias
      else
        (let previous = starting_connection v change
         in case set_fields change previous of
              Inl err \<Rightarrow> Inl err
            | Inr c1 \<Rightarrow>
                (case set_credentials cred parse_key change v c1 of
                   Inl err \<Rightarrow> Inl err
                 | Inr (updated, c, keyAdded) \<Rightarrow>
                     (case validateManagedConnection c updated of
                        Some err \<Rightarrow> Inl err
                      | None \<Rightarrow>
                          (let conns = (case idx of
                                 Some i \<Rightarrow> (v_Connections updated)[i := c]
                               | None \<Rightarrow> v_Connections updated @ [c]);
                               changed = (\<not> exists \<or> previous \<noteq> c \<or> v_Keys v \<noteq> v_Keys updated);
                               action = (if exists \<and> changed then ''updated''
                                         else if exists then ''unchanged'' else ''created'')
                           in Inr (updated\<lparr>v_Connections := conns\<rparr>,
                                   (base_receipt action changed (View c))\<lparr>rc_KeyAdded := keyAdded\<rparr>))))))"

section \<open>Appending and persisting a mutation\<close>

definition newID :: "world \<Rightarrow> string option \<times> world" where
  "newID w =
     (case rand_Read 16 w of
        (None, w1) \<Rightarrow> (None, w1)
      | (Some raw, w1) \<Rightarrow> (Some (''tx_'' @ hex_encode raw), w1))"

definition empty_mutation :: pending_mutation where
  "empty_mutation =
     \<lparr>pm_ID = '''', pm_Alias = '''', pm_Aliases = [], pm_KeyName = '''', pm_Operation = '''', pm_CreatedAt = '''',
      pm_Before = None, pm_After = None, pm_KeysBefore = [], pm_KeysAfter = [], pm_BulkBefore = None,
      pm_BulkAfter = None, pm_ConnectionCount = 0, pm_KeyCount = 0\<rparr>"

text \<open>
  The shared tail of the three mutations: the pending base is taken from the vault before the first
  pending mutation, and the entry is appended. None is the error for entries without a base.
\<close>

definition append_pending :: "vault \<Rightarrow> vault \<Rightarrow> pending_mutation \<Rightarrow> vault option" where
  "append_pending before after m =
     (case v_PendingBase after of
        None \<Rightarrow>
          if v_PendingMutations after \<noteq> [] then None
          else Some (after\<lparr>v_PendingBase := Some (snapshotInventory before), v_PendingMutations := [m]\<rparr>)
      | Some _ \<Rightarrow> Some (after\<lparr>v_PendingMutations := v_PendingMutations after @ [m]\<rparr>))"

definition host_mutation :: "vault \<Rightarrow> vault \<Rightarrow> mutation_receipt \<Rightarrow> string \<Rightarrow> string \<Rightarrow> pending_mutation" where
  "host_mutation before after receipt i created =
     (let name = hv_Name (rc_Host receipt); (kb, ka) = keyDelta (v_Keys before) (v_Keys after) in
      empty_mutation\<lparr>pm_ID := i, pm_Alias := name, pm_Operation := rc_Action receipt, pm_CreatedAt := created,
        pm_KeysBefore := kb, pm_KeysAfter := ka,
        pm_Before := map_option (\<lambda>k. v_Connections before ! k) (exactConnectionIndex before name),
        pm_After := map_option (\<lambda>k. v_Connections after ! k) (exactConnectionIndex after name)\<rparr>)"

definition verify_candidate :: "(connection \<Rightarrow> vault \<Rightarrow> check_result) \<Rightarrow> host_change \<Rightarrow> vault \<Rightarrow> mutation_receipt \<Rightarrow>
    host_error + mutation_receipt" where
  "verify_candidate verifier change after receipt =
     (if \<not> hc_Verify change then Inr receipt
      else case exactConnectionIndex after (hc_Alias change) of
        None \<Rightarrow> Inl HostInternalFailure
      | Some idx \<Rightarrow>
          (let verification = (verifier (v_Connections after ! idx) after)\<lparr>cr_Alias := hc_Alias change\<rparr>;
               receipt' = receipt\<lparr>rc_Verification := Some verification\<rparr>
           in if \<not> cr_OK verification then Inl (VerificationError receipt') else Inr receipt'))"

definition ApplyHost :: "env \<Rightarrow> (string \<Rightarrow> string option) \<Rightarrow> (string \<Rightarrow> bool) \<Rightarrow> (connection \<Rightarrow> vault \<Rightarrow> check_result) \<Rightarrow>
    string \<Rightarrow> vault \<Rightarrow> host_change \<Rightarrow> world \<Rightarrow> (host_error + mutation_receipt) \<times> world" where
  "ApplyHost e cred parse_key verifier masterPass before change w =
     (if validateLedger before \<noteq> None then (Inl HostTransactionFailed, w)
      else case buildHostCandidate cred parse_key before change of
        Inl err \<Rightarrow> (Inl err, w)
      | Inr (after, receipt0) \<Rightarrow>
          (case verify_candidate verifier change after receipt0 of
             Inl err \<Rightarrow> (Inl err, w)
           | Inr receipt \<Rightarrow>
               if \<not> rc_Changed receipt then (Inr (receipt\<lparr>rc_Applied := True\<rparr>), w)
               else case newID w of
                 (None, w1) \<Rightarrow> (Inl HostTransactionFailed, w1)
               | (Some i, w1) \<Rightarrow>
                   (if v_PendingBase after = None \<and> v_PendingMutations after \<noteq> [] then (Inl HostTransactionFailed, w1)
                    else case clock_now w1 of
                      (now, w2) \<Rightarrow>
                        (case append_pending before after (host_mutation before after receipt i (e_format_nano e now)) of
                           None \<Rightarrow> (Inl HostTransactionFailed, w2)
                         | Some after' \<Rightarrow>
                             (case saveLoadedVault e after' masterPass w2 of
                                (Some err, w3) \<Rightarrow> (Inl (HostVaultFailed err), w3)
                              | (None, w3) \<Rightarrow>
                                  (Inr (receipt\<lparr>rc_TransactionID := i, rc_Applied := True\<rparr>), w3))))))"

section \<open>Removing a saved key\<close>

definition key_removed_mutation :: "vault \<Rightarrow> vault \<Rightarrow> string \<Rightarrow> string \<Rightarrow> string \<Rightarrow> pending_mutation" where
  "key_removed_mutation before after name i created =
     (let (kb, ka) = keyDelta (v_Keys before) (v_Keys after) in
      empty_mutation\<lparr>pm_ID := i, pm_KeyName := name, pm_Operation := ''saved_key_removed'', pm_CreatedAt := created,
        pm_KeyCount := 1, pm_KeysBefore := kb, pm_KeysAfter := ka\<rparr>)"

definition RemoveSavedKey :: "env \<Rightarrow> string \<Rightarrow> vault \<Rightarrow> string \<Rightarrow> world \<Rightarrow> (mutation_error + saved_key_receipt) \<times> world" where
  "RemoveSavedKey e masterPass before name w =
     (case validateLedger before of
        Some err \<Rightarrow> (Inl (MutLedger err), w)
      | None \<Rightarrow>
          if GetKey before name = None then (Inl (SavedKeyNotFound name), w)
          else
            (let references = sort (map conn_Name (filter (\<lambda>c. conn_KeyName c = name) (v_Connections before)))
             in if references \<noteq> [] then (Inl (SavedKeyReferenced name references), w)
                else case removeKeyByName before name of
                  (after, False) \<Rightarrow> (Inl (SavedKeyNotFound name), w)
                | (after, True) \<Rightarrow>
                    (case newID w of
                       (None, w1) \<Rightarrow> (Inl MutNoID, w1)
                     | (Some i, w1) \<Rightarrow>
                         if v_PendingBase after = None \<and> v_PendingMutations after \<noteq> []
                         then (Inl MutPendingWithoutBase, w1)
                         else case clock_now w1 of
                           (now, w2) \<Rightarrow>
                             (case append_pending before after
                                (key_removed_mutation before after name i (e_format_nano e now)) of
                                None \<Rightarrow> (Inl MutPendingWithoutBase, w2)
                              | Some after' \<Rightarrow>
                                  (case saveLoadedVault e after' masterPass w2 of
                                     (Some err, w3) \<Rightarrow> (Inl (MutSave err), w3)
                                   | (None, w3) \<Rightarrow>
                                       (Inr \<lparr>sk_OK = True, sk_Action = ''saved_key_removed'', sk_KeyName = name,
                                             sk_Keys = 1, sk_SyncPending = True, sk_Applied = True,
                                             sk_Pushed = False, sk_TransactionID = i\<rparr>, w3))))))"

section \<open>Bulk import\<close>

fun import_keys_error :: "string list \<Rightarrow> ssh_key list \<Rightarrow> import_error option" where
  "import_keys_error seen [] = None"
| "import_keys_error seen (k # ks) =
     (if trim_space (key_Name k) = '''' then Some ImportKeyNameEmpty
      else if key_Name k \<in> set seen then Some (ImportKeyDuplicated (key_Name k))
      else import_keys_error (key_Name k # seen) ks)"

fun import_conns_error :: "string list \<Rightarrow> string list \<Rightarrow> connection list \<Rightarrow> import_error option" where
  "import_conns_error keys seen [] = None"
| "import_conns_error keys seen (c # cs) =
     (if trim_space (conn_Name c) = '''' then Some ImportAliasEmpty
      else if conn_Name c \<in> set seen then Some (ImportAliasDuplicated (conn_Name c))
      else if trim_space (conn_Host c) = '''' \<or> trim_space (conn_User c) = ''''
        then Some (ImportHostUserMissing (conn_Name c))
      else if conn_Port c < 1 \<or> conn_Port c > 65535 then Some (ImportInvalidPort (conn_Name c))
      else if conn_Password c = '''' \<and> conn_KeyName c = '''' then Some (ImportNoAuth (conn_Name c))
      else if conn_KeyName c \<noteq> '''' \<and> conn_KeyName c \<notin> set keys
        then Some (ImportMissingKey (conn_Name c) (conn_KeyName c))
      else import_conns_error keys (conn_Name c # seen) cs)"

definition validateImportInventory :: "vault option \<Rightarrow> import_error option" where
  "validateImportInventory imported =
     (case imported of
        None \<Rightarrow> Some ImportRequired
      | Some v \<Rightarrow>
          (case import_keys_error [] (v_Keys v) of
             Some err \<Rightarrow> Some err
           | None \<Rightarrow> import_conns_error (map key_Name (v_Keys v)) [] (v_Connections v)))"

definition affectedConnectionAliases :: "connection list \<Rightarrow> connection list \<Rightarrow> string list" where
  "affectedConnectionAliases before after =
     sort (filter (\<lambda>a. last_named conn_Name a before \<noteq> last_named conn_Name a after)
       (remdups (map conn_Name (before @ after))))"

definition import_mutation :: "vault \<Rightarrow> vault \<Rightarrow> string \<Rightarrow> string \<Rightarrow> string \<Rightarrow> pending_mutation" where
  "import_mutation before after action i created =
     (let aliases = affectedConnectionAliases (v_Connections before) (v_Connections after);
          (kb, ka) = keyDelta (v_Keys before) (v_Keys after)
      in empty_mutation\<lparr>pm_ID := i, pm_Aliases := aliases, pm_Operation := ''import_'' @ action, pm_CreatedAt := created,
           pm_BulkBefore := Some (snapshotInventory before), pm_BulkAfter := Some (snapshotInventory after),
           pm_ConnectionCount := int (length aliases),
           pm_KeyCount := int (length (changedKeyNames (v_Keys before) (v_Keys after))),
           pm_KeysBefore := kb, pm_KeysAfter := ka\<rparr>)"

definition import_candidate :: "string \<Rightarrow> vault \<Rightarrow> vault \<Rightarrow> bool \<Rightarrow> vault \<times> merge_report" where
  "import_candidate recorded_at before imported replace =
     (if replace then
        (before\<lparr>v_Connections := v_Connections imported, v_Keys := v_Keys imported\<rparr>,
         \<lparr>mr_RecordedAt = '''', mr_Conflicts = []\<rparr>)
      else
        (case MergeVaultsWithReport recorded_at (inventoryOnly before) (inventoryOnly imported) of
           (merged, report) \<Rightarrow>
             (before\<lparr>v_Connections := v_Connections merged, v_Keys := v_Keys merged\<rparr>, report)))"

definition ApplyImport :: "env \<Rightarrow> string \<Rightarrow> vault \<Rightarrow> vault option \<Rightarrow> bool \<Rightarrow> world \<Rightarrow> (mutation_error + import_receipt) \<times> world" where
  "ApplyImport e masterPass before imported replace w =
     (case validateLedger before of
        Some err \<Rightarrow> (Inl (MutLedger err), w)
      | None \<Rightarrow>
          (case (validateImportInventory imported, imported) of
             (Some err, _) \<Rightarrow> (Inl (MutImportInvalid err), w)
           | (None, None) \<Rightarrow> (Inl (MutImportInvalid ImportRequired), w)
           | (None, Some imp) \<Rightarrow>
               (case (if replace then (0, w) else clock_now w) of
                  (merged_at, w0) \<Rightarrow>
                    (case import_candidate (e_format_time e merged_at) before imp replace of
                       (after, report) \<Rightarrow>
                         (case newID w0 of
                            (None, w1) \<Rightarrow> (Inl MutNoID, w1)
                          | (Some i, w1) \<Rightarrow>
                              if v_PendingBase after = None \<and> v_PendingMutations after \<noteq> []
                              then (Inl MutPendingWithoutBase, w1)
                              else case clock_now w1 of
                                (now, w2) \<Rightarrow>
                                  (let action = (if replace then ''replaced'' else ''merged'');
                                       m = import_mutation before after action i (e_format_nano e now)
                                   in case append_pending before after m of
                                        None \<Rightarrow> (Inl MutPendingWithoutBase, w2)
                                      | Some after' \<Rightarrow>
                                          (case (if replace then (True, w2) else SaveMergeReport report w2) of
                                             (False, w3) \<Rightarrow> (Inl MutMergeReport, w3)
                                           | (True, w3) \<Rightarrow>
                                               (case saveLoadedVault e after' masterPass w3 of
                                                  (Some err, w4) \<Rightarrow> (Inl (MutSave err), w4)
                                                | (None, w4) \<Rightarrow>
                                                    (Inr \<lparr>ir_OK = True, ir_Action = action,
                                                          ir_Connections = int (length (v_Connections imp)),
                                                          ir_Keys = int (length (v_Keys imp)),
                                                          ir_Aliases = pm_Aliases m, ir_Conflicts = mr_Conflicts report,
                                                          ir_SyncPending = True, ir_Applied = True, ir_Pushed = False,
                                                          ir_TransactionID = i\<rparr>, w4)))))))))"

end
