(* ===== verification/Host_Mutation_Props.thy ===== *)
theory Host_Mutation_Props
  imports Host_Mutation
begin

text \<open>
  Correctness of the reviewed mutations: every candidate is well formed and differs from the vault
  it was built from only at the addressed alias and saved key; the appended ledger entry replays to
  exactly that difference, so the ledger stays consistent; references to saved keys stay resolved;
  and refused or unchanged candidates leave no trace.
\<close>

section \<open>Appending to a consistent ledger\<close>

lemma inventory_of_update [simp]:
  "inventory_of (v\<lparr>v_PendingBase := b, v_PendingMutations := ms\<rparr>) = inventory_of v"
  "inventory_of (v\<lparr>v_PendingMutations := ms\<rparr>) = inventory_of v"
  "wf_inventory (v\<lparr>v_PendingBase := b, v_PendingMutations := ms\<rparr>) = wf_inventory v"
  "wf_inventory (v\<lparr>v_PendingMutations := ms\<rparr>) = wf_inventory v"
  by (simp_all add: inventory_of_def wf_inventory_def)

lemma append_pending_ok:
  assumes ok: "ledger_ok before" and wf: "wf_inventory after" "wf_mutation m"
    and same: "v_PendingBase after = v_PendingBase before" "v_PendingMutations after = v_PendingMutations before"
    and id: "pm_ID m \<noteq> ''''" "pm_ID m \<notin> pm_ID ` set (v_PendingMutations before)"
    and effect: "mut_effect m (inventory_of before) = inventory_of after"
    and app: "append_pending before after m = Some v'"
  shows "ledger_ok v' \<and> v_PendingMutations v' = v_PendingMutations before @ [m]
    \<and> v_Connections v' = v_Connections after \<and> v_Keys v' = v_Keys after"
proof -
  let ?ms = "v_PendingMutations before @ [m]"
  have valid: "validateLedger before = None" and wfb: "wf_inventory before"
    and wfm: "list_all wf_mutation (v_PendingMutations before)"
    using ok by (auto simp: ledger_ok_def)
  obtain base where base: "v_PendingBase v' = Some base" "v_PendingMutations v' = ?ms"
    "v_Connections v' = v_Connections after" "v_Keys v' = v_Keys after"
    and start: "wf_inventory (restore_snapshot base)"
      "foldl (\<lambda>s m. mut_effect m s) (inventory_of (restore_snapshot base)) (v_PendingMutations before) = inventory_of before"
  proof (cases "v_PendingBase before")
    case None
    with valid have "v_PendingMutations before = []" by (simp add: validateLedger_None_iff)
    with None app same wfb that [of "snapshotInventory before"] show ?thesis
      by (auto simp: append_pending_def)
  next
    case (Some base)
    with app same replay_inventory [OF ok Some] that [of base] show ?thesis
      by (auto simp: append_pending_def)
  qed
  have "list_all wf_mutation ?ms" using wfm wf(2) by simp
  from replay_refines [OF start(1) this] start(2) effect
  have replay: "wf_inventory (foldl applyMutation (restore_snapshot base) ?ms)"
    "inventory_of (foldl applyMutation (restore_snapshot base) ?ms) = inventory_of after"
    by simp_all
  have v': "inventory_of v' = inventory_of after" "wf_inventory v'"
    using base wf(1) by (simp_all add: inventory_of_def wf_inventory_def)
  have "validateLedger v' = None"
    using base valid id by (auto simp: validateLedger_None_iff)
  with v' replay base start(1) wfm wf(2) show ?thesis
    by (simp add: ledger_ok_def same_inventory_iff)
qed

section \<open>Candidates of host changes\<close>

lemma set_fields_name: "set_fields change c = Inr c' \<Longrightarrow> conn_Name c' = conn_Name c"
  by (auto simp: set_fields_def Let_def split: option.splits)

lemma set_fields_key: "set_fields change c = Inr c' \<Longrightarrow> conn_KeyName c' = conn_KeyName c"
  by (auto simp: set_fields_def Let_def split: option.splits)

definition keys_grow :: "vault \<Rightarrow> vault \<Rightarrow> bool" where
  "keys_grow v v' = (v' = v\<lparr>v_Keys := v_Keys v'\<rparr>
     \<and> (distinct_names key_Name (v_Keys v) \<longrightarrow> distinct_names key_Name (v_Keys v'))
     \<and> key_Name ` set (v_Keys v) \<subseteq> key_Name ` set (v_Keys v'))"

lemma keys_grow_refl [simp]: "keys_grow v v"
  by (simp add: keys_grow_def)

lemma keys_grow_frame:
  assumes "keys_grow v v'"
  shows "v_Connections v' = v_Connections v" "v_PendingBase v' = v_PendingBase v"
    "v_PendingMutations v' = v_PendingMutations v"
proof -
  have "v' = v\<lparr>v_Keys := v_Keys v'\<rparr>" using assms by (simp add: keys_grow_def)
  from arg_cong [OF this, of v_Connections] arg_cong [OF this, of v_PendingBase]
    arg_cong [OF this, of v_PendingMutations]
  show "v_Connections v' = v_Connections v" "v_PendingBase v' = v_PendingBase v"
    "v_PendingMutations v' = v_PendingMutations v" by simp_all
qed

lemma installHostKey_grow:
  assumes "installHostKey cred parse_key v c change = Inr (v', name, added)"
  shows "keys_grow v v' \<and> name \<in> key_Name ` set (v_Keys v')"
proof (cases "find_named key_Name name (v_Keys v)")
  case None
  then have "name \<notin> key_Name ` set (v_Keys v)" by (simp add: find_named_None_iff)
  with assms None show ?thesis
    by (auto simp: installHostKey_def Let_def keys_grow_def split: option.splits if_splits)
next
  case (Some k)
  then have k: "key_Name k = name" "name \<in> key_Name ` set (v_Keys v)"
    using find_named_SomeD by fastforce+
  have "v' = v \<or> (\<exists>m. v' = v\<lparr>v_Keys := put_named key_Name (k\<lparr>key_PrivateKey := m\<rparr>) (v_Keys v)\<rparr>)"
    using assms Some by (auto simp: installHostKey_def Let_def split: option.splits if_splits)
  with k show ?thesis
    by (auto simp: keys_grow_def distinct_put_named names_put_named)
qed

lemma set_credentials_grow:
  assumes "set_credentials cred parse_key change v c = Inr (v', c', added)"
  shows "keys_grow v v' \<and> conn_Name c' = conn_Name c"
  using assms
  by (auto simp: set_credentials_def Let_def split: option.splits sum.splits if_splits dest: installHostKey_grow)

text \<open>What a candidate changes: the connection under one alias, and the saved keys.\<close>

definition touches_only :: "string \<Rightarrow> vault \<Rightarrow> vault \<Rightarrow> bool" where
  "touches_only name before after =
     (v_PendingBase after = v_PendingBase before \<and> v_PendingMutations after = v_PendingMutations before
      \<and> (wf_inventory before \<longrightarrow> wf_inventory after)
      \<and> (\<forall>n. n \<noteq> name \<longrightarrow>
           find_named conn_Name n (v_Connections after) = find_named conn_Name n (v_Connections before)))"

lemma remove_candidate_touches:
  assumes "remove_candidate v change = Inr (after, receipt)" and "wf_inventory v"
  shows "touches_only (hc_Alias change) v after \<and> hv_Name (rc_Host receipt) = hc_Alias change
    \<and> find_named conn_Name (hc_Alias change) (v_Connections after) = None"
proof -
  obtain i where i: "exactConnectionIndex v (hc_Alias change) = Some i"
    using assms(1) by (auto simp: remove_candidate_def split: option.splits)
  note ix = exactConnectionIndex_Some [OF i]
  have d: "distinct_names conn_Name (v_Connections v)" "distinct_names key_Name (v_Keys v)"
    using assms(2) by (auto simp: wf_inventory_def)
  let ?u = "v\<lparr>v_Connections := remove_named conn_Name (hc_Alias change) (v_Connections v)\<rparr>"
  have "hv_Name (rc_Host receipt) = conn_Name (v_Connections v ! i)"
    and "after = ?u \<or> after = fst (removeKeyByName ?u (conn_KeyName (v_Connections v ! i)))"
    using assms(1) i ix
    by (auto simp: remove_candidate_def Let_def base_receipt_def View_def split: if_splits prod.splits bool.splits)
  with ix d show ?thesis
    by (auto simp: removeKeyByName_eq touches_only_def wf_inventory_def find_remove_named
        distinct_remove_named)
qed

lemma update_at_find:
  assumes "exactConnectionIndex v a = Some i" and "conn_Name c = a" and "distinct_names conn_Name (v_Connections v)"
  shows "distinct_names conn_Name ((v_Connections v)[i := c])"
    and "find_named conn_Name n ((v_Connections v)[i := c])
      = (if n = a then Some c else find_named conn_Name n (v_Connections v))"
  using exactConnectionIndex_Some [OF assms(1)] assms(2,3) by (auto simp: distinct_put_named find_put_named)

lemma starting_connection_name: "conn_Name (starting_connection v change) = hc_Alias change"
  using exactConnectionIndex_Some [of v "hc_Alias change"]
  by (auto simp: starting_connection_def Let_def split: option.splits)

lemma upsert_candidate:
  assumes "buildHostCandidate cred parse_key v change = Inr (after, receipt)" and "hc_Action change \<noteq> HostRemove"
  obtains c1 c updated added where
    "set_fields change (starting_connection v change) = Inr c1"
    "set_credentials cred parse_key change v c1 = Inr (updated, c, added)"
    "validateManagedConnection c updated = None"
    "after = updated\<lparr>v_Connections := (case exactConnectionIndex v (hc_Alias change) of
       Some i \<Rightarrow> (v_Connections updated)[i := c] | None \<Rightarrow> v_Connections updated @ [c])\<rparr>"
    "rc_Host receipt = View c"
    "exactConnectionIndex v (hc_Alias change) = None \<longrightarrow> safeHostAliasPattern (hc_Alias change)"
    "rc_TransactionID receipt = '''' \<and> \<not> rc_Applied receipt"
proof -
  from assms obtain c1 where c1: "set_fields change (starting_connection v change) = Inr c1"
    by (auto simp: buildHostCandidate_def Let_def split: if_splits sum.splits)
  from assms c1 obtain updated c added where c: "set_credentials cred parse_key change v c1 = Inr (updated, c, added)"
    by (auto simp: buildHostCandidate_def Let_def split: if_splits sum.splits)
  from assms c1 c have valid: "validateManagedConnection c updated = None"
    by (auto simp: buildHostCandidate_def Let_def split: if_splits option.splits)
  have "after = updated\<lparr>v_Connections := (case exactConnectionIndex v (hc_Alias change) of
       Some i \<Rightarrow> (v_Connections updated)[i := c] | None \<Rightarrow> v_Connections updated @ [c])\<rparr>"
    "rc_Host receipt = View c"
    "exactConnectionIndex v (hc_Alias change) = None \<longrightarrow> safeHostAliasPattern (hc_Alias change)"
    "rc_TransactionID receipt = '''' \<and> \<not> rc_Applied receipt"
    using assms c1 c valid
    by (auto simp: buildHostCandidate_def Let_def base_receipt_def split: if_splits)
  from that [OF c1 c valid this] show ?thesis .
qed

lemma upsert_touches:
  assumes "buildHostCandidate cred parse_key v change = Inr (after, receipt)" and "hc_Action change \<noteq> HostRemove"
    and "wf_inventory v"
  shows "touches_only (hc_Alias change) v after \<and> hv_Name (rc_Host receipt) = hc_Alias change"
  using assms(1,2)
proof (cases rule: upsert_candidate)
  case (1 c1 c updated added)
  have name: "conn_Name c = hc_Alias change"
    using set_fields_name [OF 1(1)] set_credentials_grow [OF 1(2)] starting_connection_name by simp
  have grow: "v_Connections updated = v_Connections v" "v_PendingBase updated = v_PendingBase v"
    "v_PendingMutations updated = v_PendingMutations v" "distinct_names key_Name (v_Keys updated)"
    using set_credentials_grow [OF 1(2)] assms(3) keys_grow_frame [of v updated]
    by (auto simp: keys_grow_def wf_inventory_def)
  have d: "distinct_names conn_Name (v_Connections v)" using assms(3) by (simp add: wf_inventory_def)
  show ?thesis
  proof (cases "exactConnectionIndex v (hc_Alias change)")
    case None
    then have "conn_Name c \<notin> conn_Name ` set (v_Connections v)"
      by (simp add: exactConnectionIndex_None name)
    then have "distinct_names conn_Name (v_Connections v @ [c])" using d by auto
    with 1(4,5) None grow name show ?thesis
      by (auto simp: touches_only_def wf_inventory_def find_append_fresh View_def)
  next
    case (Some i)
    with 1(4,5) grow name update_at_find [OF Some name d] show ?thesis
      by (auto simp: touches_only_def wf_inventory_def View_def)
  qed
qed

lemma candidate_touches:
  assumes "buildHostCandidate cred parse_key v change = Inr (after, receipt)" and "wf_inventory v"
  shows "touches_only (hc_Alias change) v after \<and> hv_Name (rc_Host receipt) = hc_Alias change"
proof (cases "hc_Action change = HostRemove")
  case True
  with assms remove_candidate_touches show ?thesis by (auto simp: buildHostCandidate_def Let_def)
next
  case False
  with assms show ?thesis by (intro upsert_touches)
qed

section \<open>The recorded entries\<close>

lemma exactConnectionIndex_find:
  "map_option (\<lambda>k. v_Connections v ! k) (exactConnectionIndex v n) = find_named conn_Name n (v_Connections v)"
proof (cases "exactConnectionIndex v n")
  case None
  then have "find_named conn_Name n (v_Connections v) = None"
    by (simp add: exactConnectionIndex_None find_named_None_iff)
  with None show ?thesis by simp
next
  case (Some i)
  with exactConnectionIndex_Some [OF Some] show ?thesis by simp
qed

lemma wf_distinct:
  "wf_inventory v \<Longrightarrow> distinct_names conn_Name (v_Connections v)"
  "wf_inventory v \<Longrightarrow> distinct_names key_Name (v_Keys v)"
  by (simp_all add: wf_inventory_def)

lemma host_mutation_ok:
  assumes "touches_only name before after" and "hv_Name (rc_Host receipt) = name" and "name \<noteq> ''''"
    and "wf_inventory before"
  shows "wf_mutation (host_mutation before after receipt i t)
    \<and> mut_effect (host_mutation before after receipt i t) (inventory_of before) = inventory_of after"
proof -
  obtain kb ka where kd: "keyDelta (v_Keys before) (v_Keys after) = (kb, ka)" by (rule prod.exhaust)
  have wf: "wf_inventory after" using assms by (simp add: touches_only_def)
  note ks = keyDelta_sound [OF wf_distinct(2) [OF assms(4)] wf_distinct(2) [OF wf] kd]
  have "(\<lambda>n. find_named conn_Name n (v_Connections before))(name := find_named conn_Name name (v_Connections after))
      = (\<lambda>n. find_named conn_Name n (v_Connections after))"
    using assms(1) by (auto simp: touches_only_def)
  moreover have "find_named conn_Name name (v_Connections after) = Some a \<Longrightarrow> conn_Name a = name" for a
    by (auto dest: find_named_SomeD)
  ultimately show ?thesis
    using ks assms(2,3)
    by (auto simp: host_mutation_def kd empty_mutation_def wf_mutation_def mut_effect_def inventory_of_def
        exactConnectionIndex_find split: option.splits)
qed

lemma key_removed_mutation_ok:
  assumes "removeKeyByName before name = (after, found)" and "wf_inventory before" and "name \<noteq> ''''"
  shows "wf_inventory after \<and> wf_mutation (key_removed_mutation before after name i t)
    \<and> mut_effect (key_removed_mutation before after name i t) (inventory_of before) = inventory_of after"
proof -
  obtain kb ka where kd: "keyDelta (v_Keys before) (v_Keys after) = (kb, ka)" by (rule prod.exhaust)
  have after: "after = before\<lparr>v_Keys := remove_named key_Name name (v_Keys before)\<rparr>"
    using assms(1) by (simp add: removeKeyByName_eq)
  with assms(2) have wf: "wf_inventory after" by (simp add: wf_inventory_def distinct_remove_named)
  note ks = keyDelta_sound [OF wf_distinct(2) [OF assms(2)] wf_distinct(2) [OF wf] kd]
  moreover have "v_Connections after = v_Connections before" using after by simp
  ultimately show ?thesis
    using wf assms(3)
    by (auto simp: key_removed_mutation_def kd empty_mutation_def wf_mutation_def mut_effect_def inventory_of_def)
qed

lemma import_mutation_ok:
  assumes "wf_inventory before" and "wf_inventory after"
  shows "wf_mutation (import_mutation before after action i t)
    \<and> mut_effect (import_mutation before after action i t) (inventory_of before) = inventory_of after"
proof -
  obtain kb ka where kd: "keyDelta (v_Keys before) (v_Keys after) = (kb, ka)" by (rule prod.exhaust)
  note ks = keyDelta_sound [OF wf_distinct(2) [OF assms(1)] wf_distinct(2) [OF assms(2)] kd]
  with assms(2) show ?thesis
    by (auto simp: import_mutation_def Let_def kd empty_mutation_def wf_mutation_def mut_effect_def)
qed

section \<open>Persisting\<close>

lemma saveLoadedVault_Load:
  assumes "codec_ok e v" and "saveLoadedVault e v pw w = (None, w')"
  shows "fst (Load e pw w') = Inr v"
proof -
  obtain w1 where "Save e v pw w1 = (None, w')"
    using assms(2) by (auto simp: saveLoadedVault_def split: prod.splits option.splits if_splits)
  then show ?thesis
  proof (cases rule: Save_result)
    case (written blob w1 written)
    with EncryptVault_decrypts [OF assms(1) written(1)] assms(1) show ?thesis
      by (simp add: Load_def ReadFile_def codec_ok_def Let_def)
  qed simp
qed

lemma newID_nonempty: "newID w = (Some i, w') \<Longrightarrow> i \<noteq> ''''"
  by (auto simp: newID_def split: prod.splits option.splits)

lemma ApplyHost_changed:
  assumes "ApplyHost e cred parse_key verifier pw before change w = (Inr receipt, w')" and "rc_Changed receipt"
  obtains after r0 receipt1 v' w2 t where
    "buildHostCandidate cred parse_key before change = Inr (after, r0)" "rc_Host receipt1 = rc_Host r0"
    "rc_TransactionID receipt \<noteq> ''''"
    "append_pending before after (host_mutation before after receipt1 (rc_TransactionID receipt) t) = Some v'"
    "saveLoadedVault e v' pw w2 = (None, w')"
proof -
  obtain after r0 where cand: "buildHostCandidate cred parse_key before change = Inr (after, r0)"
    using assms(1) by (auto simp: ApplyHost_def split: if_splits sum.splits)
  obtain r1 where r1: "verify_candidate verifier change after r0 = Inr r1"
    using assms(1) cand by (auto simp: ApplyHost_def split: if_splits sum.splits)
  have host: "rc_Host r1 = rc_Host r0"
    using r1 by (auto simp: verify_candidate_def Let_def split: if_splits option.splits)
  obtain i w1 where i: "newID w = (Some i, w1)" and ch: "rc_Changed r1"
    using assms cand r1 by (auto simp: ApplyHost_def split: if_splits option.splits prod.splits)
  obtain now w2 where now: "clock_now w1 = (now, w2)" by (rule prod.exhaust)
  obtain v' where v': "append_pending before after (host_mutation before after r1 i (e_format_nano e now)) = Some v'"
    using assms cand r1 i now ch by (auto simp: ApplyHost_def split: if_splits option.splits)
  have "saveLoadedVault e v' pw w2 = (None, w')" "rc_TransactionID receipt = i"
    using assms cand r1 i now ch v' by (auto simp: ApplyHost_def split: if_splits option.splits prod.splits)
  with that [OF cand host] v' newID_nonempty [OF i] show ?thesis by auto
qed

lemma candidate_receipt:
  assumes "buildHostCandidate cred parse_key v change = Inr (after, r0)"
  shows "rc_TransactionID r0 = '''' \<and> \<not> rc_Applied r0"
proof (cases "hc_Action change = HostRemove")
  case True
  with assms show ?thesis
    by (auto simp: buildHostCandidate_def remove_candidate_def base_receipt_def Let_def
        split: option.splits if_splits prod.splits bool.splits)
next
  case False
  with assms show ?thesis by (cases rule: upsert_candidate) auto
qed

lemma candidate_error: "buildHostCandidate cred parse_key v change \<noteq> Inl (VerificationError r)"
proof -
  have "set_fields change c \<noteq> Inl (VerificationError r)" for c
    by (auto simp: set_fields_def Let_def split: option.splits)
  moreover have "validateManagedConnection c v \<noteq> Some (VerificationError r)" for c v
    by (simp add: validateManagedConnection_def)
  moreover have "remove_candidate v change \<noteq> Inl (VerificationError r)"
    by (auto simp: remove_candidate_def Let_def split: option.splits prod.splits bool.splits)
  moreover have "loadPasswordFile cred p \<noteq> Inl (VerificationError r)" for p
    by (auto simp: loadPasswordFile_def Let_def split: option.splits)
  moreover have "installHostKey cred parse_key v c change \<noteq> Inl (VerificationError r)" for c
    by (auto simp: installHostKey_def Let_def split: option.splits if_splits)
  ultimately have "set_credentials cred parse_key change v c \<noteq> Inl (VerificationError r)" for c
    by (auto simp: set_credentials_def Let_def split: option.splits sum.splits)
  with \<open>\<And>c. set_fields change c \<noteq> _\<close> \<open>\<And>c v. validateManagedConnection c v \<noteq> _\<close> \<open>remove_candidate v change \<noteq> _\<close>
  show ?thesis by (auto simp: buildHostCandidate_def Let_def split: sum.splits option.splits)
qed

lemma sort_Nil_iff: "sort xs = [] \<longleftrightarrow> xs = []"
  by (metis length_0_conv length_sort)

lemma RemoveSavedKey_ok:
  assumes "RemoveSavedKey e pw before name w = (Inr receipt, w')"
  obtains after v' w2 t where
    "removeKeyByName before name = (after, True)" "\<forall>c \<in> set (v_Connections before). conn_KeyName c \<noteq> name"
    "sk_TransactionID receipt \<noteq> ''''"
    "append_pending before after (key_removed_mutation before after name (sk_TransactionID receipt) t) = Some v'"
    "saveLoadedVault e v' pw w2 = (None, w')"
proof -
  have refs: "\<forall>c \<in> set (v_Connections before). conn_KeyName c \<noteq> name"
    using assms by (auto simp: RemoveSavedKey_def Let_def sort_Nil_iff filter_empty_conv split: if_splits option.splits)
  obtain after where rem: "removeKeyByName before name = (after, True)"
    using assms by (auto simp: RemoveSavedKey_def Let_def split: if_splits option.splits prod.splits bool.splits)
  obtain i w1 where i: "newID w = (Some i, w1)"
    using assms rem by (auto simp: RemoveSavedKey_def Let_def split: if_splits option.splits prod.splits)
  obtain now w2 where now: "clock_now w1 = (now, w2)" by (rule prod.exhaust)
  obtain v' where v': "append_pending before after (key_removed_mutation before after name i (e_format_nano e now)) = Some v'"
    using assms rem i now by (auto simp: RemoveSavedKey_def Let_def split: if_splits option.splits)
  have "saveLoadedVault e v' pw w2 = (None, w')" "sk_TransactionID receipt = i"
    using assms rem i now v' by (auto simp: RemoveSavedKey_def Let_def split: if_splits option.splits prod.splits)
  with that [OF rem refs] v' newID_nonempty [OF i] show ?thesis by auto
qed

lemma ApplyImport_ok:
  assumes "ApplyImport e pw before (Some imp) replace w = (Inr receipt, w')"
  obtains after at report v' w3 action t where
    "validateImportInventory (Some imp) = None" "import_candidate at before imp replace = (after, report)"
    "ir_TransactionID receipt \<noteq> ''''"
    "append_pending before after (import_mutation before after action (ir_TransactionID receipt) t) = Some v'"
    "saveLoadedVault e v' pw w3 = (None, w')"
proof -
  have valid: "validateLedger before = None" "validateImportInventory (Some imp) = None"
    using assms by (auto simp: ApplyImport_def split: option.splits)
  obtain at w0 where at: "(if replace then (0, w) else clock_now w) = (at, w0)" by (rule prod.exhaust)
  obtain after report where cand: "import_candidate (e_format_time e at) before imp replace = (after, report)"
    by (rule prod.exhaust)
  obtain i w1 where i: "newID w0 = (Some i, w1)"
    using assms valid at cand by (auto simp: ApplyImport_def split: option.splits prod.splits)
  obtain now w2 where now: "clock_now w1 = (now, w2)" by (rule prod.exhaust)
  let ?m = "import_mutation before after (if replace then ''replaced'' else ''merged'') i (e_format_nano e now)"
  obtain v' where v': "append_pending before after ?m = Some v'"
    using assms valid at cand i now by (auto simp: ApplyImport_def Let_def split: option.splits if_splits)
  obtain ok w3 where w3: "(if replace then (True, w2) else SaveMergeReport report w2) = (ok, w3)" by (rule prod.exhaust)
  have "saveLoadedVault e v' pw w3 = (None, w')" "ir_TransactionID receipt = i"
    using assms valid at cand i now v' w3
    by (auto simp: ApplyImport_def Let_def split: option.splits if_splits prod.splits bool.splits)
  with that [OF valid(2) cand] v' newID_nonempty [OF i] show ?thesis by auto
qed

section \<open>References to saved keys\<close>

definition refs_ok :: "vault \<Rightarrow> bool" where
  "refs_ok v = (\<forall>c \<in> set (v_Connections v). conn_KeyName c \<noteq> '''' \<longrightarrow> conn_KeyName c \<in> key_Name ` set (v_Keys v))"

lemma import_keys_error_None:
  "import_keys_error seen ks = None \<Longrightarrow> distinct (map key_Name ks) \<and> set seen \<inter> key_Name ` set ks = {}"
  by (induction seen ks rule: import_keys_error.induct) (auto split: if_splits)

lemma import_conns_error_None:
  "import_conns_error keys seen cs = None \<Longrightarrow>
     distinct (map conn_Name cs) \<and> set seen \<inter> conn_Name ` set cs = {}
     \<and> (\<forall>c \<in> set cs. conn_Name c \<noteq> '''' \<and> (conn_KeyName c \<noteq> '''' \<longrightarrow> conn_KeyName c \<in> set keys))"
  by (induction keys seen cs rule: import_conns_error.induct) (auto split: if_splits)

lemma valid_import:
  assumes "validateImportInventory (Some v) = None"
  shows "wf_inventory v" and "refs_ok v"
  using assms import_keys_error_None [of "[]" "v_Keys v"]
    import_conns_error_None [of "map key_Name (v_Keys v)" "[]" "v_Connections v"]
  by (auto simp: validateImportInventory_def wf_inventory_def refs_ok_def split: option.splits)

lemma merge_items_set:
  assumes "distinct_names nm remote"
  shows "set (fst (merge_items nm kind local remote)) \<subseteq> set local \<union> set remote"
proof
  fix x
  assume "x \<in> set (fst (merge_items nm kind local remote))"
  then obtain n where "x = the (last_named nm n (local @ remote))" "n \<in> nm ` set (local @ remote)"
    using assms by (auto simp: merge_items_eq)
  then have "last_named nm n (local @ remote) = Some x"
    by (metis last_named_None_iff option.collapse)
  then show "x \<in> set local \<union> set remote" using last_named_SomeD by fastforce
qed

lemma merge_items_name_set:
  assumes "distinct_names nm remote"
  shows "nm ` set (fst (merge_items nm kind local remote)) = nm ` set local \<union> nm ` set remote"
  using arg_cong [OF merge_items_names [OF assms], of set kind local] by (simp add: image_Un)

lemma import_candidate_ok:
  assumes "import_candidate at before imp replace = (after, report)" and "wf_inventory before" and "wf_inventory imp"
  shows "wf_inventory after \<and> v_PendingBase after = v_PendingBase before
    \<and> v_PendingMutations after = v_PendingMutations before \<and> (refs_ok before \<and> refs_ok imp \<longrightarrow> refs_ok after)"
proof (cases replace)
  case True
  with assms show ?thesis by (auto simp: import_candidate_def wf_inventory_def refs_ok_def)
next
  case False
  let ?cs = "fst (merge_items conn_Name ''alias'' (v_Connections before) (v_Connections imp))"
  let ?ks = "fst (merge_items key_Name ''key_name'' (v_Keys before) (v_Keys imp))"
  have d: "distinct_names conn_Name (v_Connections imp)" "distinct_names key_Name (v_Keys imp)"
    using assms(3) by (auto simp: wf_inventory_def)
  have after: "after = before\<lparr>v_Connections := ?cs, v_Keys := ?ks\<rparr>"
    using assms(1) False
    by (auto simp: import_candidate_def MergeVaultsWithReport_def inventoryOnly_def split_beta)
  have "wf_inventory after"
    by (simp add: after wf_inventory_def merge_items_names [OF d(1)] merge_items_names [OF d(2)])
  moreover have "refs_ok after" if "refs_ok before" "refs_ok imp"
    using that merge_items_set [OF d(1), of "''alias''" "v_Connections before"]
      merge_items_name_set [OF d(2), of "''key_name''" "v_Keys before"]
    by (auto simp: after refs_ok_def subset_iff)
  ultimately show ?thesis by (simp add: after)
qed

lemma remove_candidate_refs:
  assumes "remove_candidate v change = Inr (after, receipt)" and "refs_ok v" and "wf_inventory v"
    and "'''' \<notin> conn_Name ` set (v_Connections v)"
  shows "refs_ok after"
proof -
  obtain i where i: "exactConnectionIndex v (hc_Alias change) = Some i"
    using assms(1) by (auto simp: remove_candidate_def split: option.splits)
  let ?k = "conn_KeyName (v_Connections v ! i)"
  let ?u = "v\<lparr>v_Connections := drop_at i (v_Connections v)\<rparr>"
  have sub: "set (v_Connections ?u) \<subseteq> set (v_Connections v)"
    by (auto simp: drop_at_def dest: in_set_takeD in_set_dropD)
  then have u: "refs_ok ?u" using assms(2) by (auto simp: refs_ok_def)
  have "after = ?u \<or> keyReferenceCount ?u ?k = 0 \<and> after = fst (removeKeyByName ?u ?k)"
    using assms(1) i
    by (auto simp: remove_candidate_def Let_def split: if_splits prod.splits bool.splits)
  moreover have "refs_ok (fst (removeKeyByName ?u ?k))" if "keyReferenceCount ?u ?k = 0"
  proof -
    have "conn_Name c \<noteq> ''''" if "c \<in> set (v_Connections ?u)" for c
      using that sub assms(4) by (metis image_eqI subsetD)
    then have "\<forall>c \<in> set (v_Connections ?u). conn_KeyName c \<noteq> ?k"
      using that by (simp add: keyReferenceCount_def keyReferenceCountExcept_def filter_empty_conv)
    moreover have "key_Name ` set (remove_named key_Name ?k (v_Keys v)) = key_Name ` set (v_Keys v) - {?k}"
      using assms(3) by (intro names_remove_named) (simp add: wf_inventory_def)
    ultimately show ?thesis using u by (auto simp: removeKeyByName_eq refs_ok_def)
  qed
  ultimately show ?thesis using u by auto
qed

lemma validated_ref:
  assumes "validateManagedConnection c v = None"
  shows "conn_KeyName c \<noteq> '''' \<longrightarrow> conn_KeyName c \<in> key_Name ` set (v_Keys v)"
  using assms find_named_None_iff [of key_Name "conn_KeyName c" "v_Keys v"]
  by (auto simp: validateManagedConnection_def GetKey_def split: if_splits)

lemma upsert_refs:
  assumes "buildHostCandidate cred parse_key v change = Inr (after, receipt)" and "hc_Action change \<noteq> HostRemove"
    and "refs_ok v"
  shows "refs_ok after"
  using assms(1,2)
proof (cases rule: upsert_candidate)
  case (1 c1 c updated added)
  have grow: "v_Connections updated = v_Connections v" "key_Name ` set (v_Keys v) \<subseteq> key_Name ` set (v_Keys updated)"
    using set_credentials_grow [OF 1(2)] keys_grow_frame [of v updated] by (simp_all add: keys_grow_def)
  have "set (v_Connections after) \<subseteq> insert c (set (v_Connections v))"
    using 1(4) grow(1) set_update_subset_insert by (auto split: option.splits) fastforce
  with assms(3) grow(2) validated_ref [OF 1(3)] 1(4) show ?thesis
    by (auto simp: refs_ok_def subset_iff)
qed

section \<open>A sample change\<close>

definition demo_change :: host_change where
  "demo_change =
     \<lparr>hc_Action = HostAdd, hc_Alias = ''web'', hc_Host = Some '' 10.0.0.1 '', hc_Port = None, hc_User = Some ''root'',
      hc_Group = None, hc_Transfer = None, hc_ProxyJump = None, hc_PasswordFile = Some ''pw.txt'', hc_SavedKey = None,
      hc_KeyFile = None, hc_KeyName = None, hc_PruneKey = False, hc_Verify = True\<rparr>"

definition demo_cred :: "string \<Rightarrow> string option" where
  "demo_cred path = (if path = ''pw.txt'' then Some (''secret'' @ [CHR 0x0A]) else None)"

definition demo_verifier :: "bool \<Rightarrow> connection \<Rightarrow> vault \<Rightarrow> check_result" where
  "demo_verifier ok c v =
     \<lparr>cr_OK = ok, cr_Alias = conn_Name c, cr_User = conn_User c, cr_Host = conn_Host c, cr_Port = conn_Port c,
      cr_Hostname = '''', cr_Uname = ''''\<rparr>"

definition demo_saved :: vault where
  "demo_saved = empty_vault\<lparr>v_Connections := [empty_connection\<lparr>conn_Name := ''web'', conn_Host := ''10.0.0.1'',
     conn_Port := 22, conn_User := ''root'', conn_KeyName := ''k''\<rparr>],
     v_Keys := [\<lparr>key_Name = ''k'', key_PrivateKey = ''m''\<rparr>, \<lparr>key_Name = ''old'', key_PrivateKey = ''m''\<rparr>]\<rparr>"

section \<open>Properties\<close>

text \<open>
  C31.
  A host change that was applied appended exactly one entry, under the returned transaction ID, to
  the ledger; the ledger is consistent again, the inventory is that of the validated candidate, and
  this vault is the one that the next load returns.
\<close>

theorem apply_host_keeps_ledger:
  assumes "ledger_ok before" and "hc_Alias change \<noteq> ''''"
    and "ApplyHost e cred parse_key verifier masterPass before change w = (Inr receipt, w')"
    and "rc_Changed receipt"
    and "rc_TransactionID receipt \<notin> pm_ID ` set (v_PendingMutations before)"
  shows "\<exists>after r0 m v'.
      buildHostCandidate cred parse_key before change = Inr (after, r0)
    \<and> v_PendingMutations v' = v_PendingMutations before @ [m] \<and> pm_ID m = rc_TransactionID receipt
    \<and> ledger_ok v' \<and> inventory_of v' = inventory_of after
    \<and> (codec_ok e v' \<longrightarrow> fst (Load e masterPass w') = Inr v')"
  using assms(3,4)
proof (cases rule: ApplyHost_changed)
  case (1 after r0 r1 v' w2 t)
  let ?m = "host_mutation before after r1 (rc_TransactionID receipt) t"
  have wf: "wf_inventory before" using assms(1) by (simp add: ledger_ok_def)
  have id: "pm_ID ?m = rc_TransactionID receipt"
    by (simp add: host_mutation_def Let_def split_beta)
  note touch = candidate_touches [OF 1(1) wf]
  note m = host_mutation_ok [of "hc_Alias change" before after r1 "rc_TransactionID receipt" t]
  have "ledger_ok v' \<and> v_PendingMutations v' = v_PendingMutations before @ [?m]
      \<and> v_Connections v' = v_Connections after \<and> v_Keys v' = v_Keys after"
    using touch m 1 wf assms(2,5) id
    by (intro append_pending_ok [OF assms(1)]) (auto simp: touches_only_def)
  moreover from this have "inventory_of v' = inventory_of after" by (simp add: inventory_of_def)
  ultimately show ?thesis using 1(1,5) id saveLoadedVault_Load by blast
qed

theorem apply_host_keeps_ledger_witness:
  "\<exists>receipt w' after r0 m v'.
     ApplyHost (demo_env []) demo_cred (\<lambda>_. True) (demo_verifier True) ''pw'' empty_vault demo_change demo_world = (Inr receipt, w')
   \<and> buildHostCandidate demo_cred (\<lambda>_. True) empty_vault demo_change = Inr (after, r0)
   \<and> v_PendingMutations v' = [m] \<and> ledger_ok v' \<and> inventory_of v' = inventory_of after"
proof -
  let ?x = "ApplyHost (demo_env []) demo_cred (\<lambda>_. True) (demo_verifier True) ''pw'' empty_vault demo_change demo_world"
  have ok: "ledger_ok empty_vault" and al: "hc_Alias demo_change \<noteq> ''''" by code_simp+
  have "case fst ?x of Inr r \<Rightarrow> rc_Changed r | Inl _ \<Rightarrow> False" by code_simp
  then obtain receipt w' where x: "?x = (Inr receipt, w')" and ch: "rc_Changed receipt"
    by (cases ?x) (auto split: sum.splits)
  have "rc_TransactionID receipt \<notin> pm_ID ` set (v_PendingMutations empty_vault)"
    by (simp add: empty_vault_def)
  from apply_host_keeps_ledger [OF ok al x ch this] x show ?thesis
    by (auto simp: empty_vault_def)
qed

text \<open>
  A refused or needless change leaves no trace: when the SSH verification of the candidate fails,
  and when the candidate equals the stored host, the world (the vault file, the ledger in it, the
  random source) is untouched and no transaction ID is handed out.
\<close>

theorem apply_host_refused_is_noop:
  "(ApplyHost e cred parse_key verifier masterPass before change w = (Inl (VerificationError receipt), w') \<longrightarrow>
      w' = w \<and> rc_TransactionID receipt = '''' \<and> \<not> rc_Applied receipt)
   \<and> (ApplyHost e cred parse_key verifier masterPass before change w = (Inr receipt, w') \<and> \<not> rc_Changed receipt \<longrightarrow>
      w' = w \<and> rc_TransactionID receipt = '''')"
proof -
  have verify: "rc_TransactionID r1 = rc_TransactionID r0 \<and> rc_Applied r1 = rc_Applied r0"
    if "verify_candidate verifier change after r0 = Inr r1 \<or> verify_candidate verifier change after r0 = Inl (VerificationError r1)"
    for after r0 r1
    using that by (auto simp: verify_candidate_def Let_def split: if_splits option.splits)
  show ?thesis
  proof (cases "buildHostCandidate cred parse_key before change")
    case (Inl err)
    with candidate_error show ?thesis by (auto simp: ApplyHost_def)
  next
    case (Inr x)
    obtain after r0 where x: "x = (after, r0)" by (rule prod.exhaust)
    note r0 = candidate_receipt [OF Inr [unfolded x]]
    show ?thesis
      using Inr x r0 verify [of after r0]
      by (auto simp: ApplyHost_def split: if_splits sum.splits option.splits prod.splits)
  qed
qed

theorem apply_host_refused_is_noop_witness:
  "\<exists>receipt. ApplyHost (demo_env []) demo_cred (\<lambda>_. True) (demo_verifier False) ''pw'' empty_vault demo_change demo_world
     = (Inl (VerificationError receipt), demo_world) \<and> rc_TransactionID receipt = ''''"
proof -
  let ?x = "ApplyHost (demo_env []) demo_cred (\<lambda>_. True) (demo_verifier False) ''pw'' empty_vault demo_change demo_world"
  have "case fst ?x of Inl (VerificationError _) \<Rightarrow> True | _ \<Rightarrow> False" by code_simp
  then obtain receipt w' where x: "?x = (Inl (VerificationError receipt), w')"
    by (cases ?x) (auto split: sum.splits host_error.splits)
  with apply_host_refused_is_noop [of "demo_env []" demo_cred "\<lambda>_. True" "demo_verifier False" "''pw''" empty_vault
      demo_change demo_world receipt w'] show ?thesis by auto
qed

text \<open>
  
  Removing a saved key and importing an inventory append one entry and keep the ledger consistent
  too, and the persisted vault is what the next load returns. A removed key is not referenced by
  any connection and is gone; an import leaves exactly the inventory of its candidate.
\<close>

theorem bulk_mutations_keep_ledger:
  assumes "ledger_ok before"
  shows "(RemoveSavedKey e masterPass before name w = (Inr skr, w') \<and> name \<noteq> ''''
        \<and> sk_TransactionID skr \<notin> pm_ID ` set (v_PendingMutations before) \<longrightarrow>
      (\<exists>m v'. ledger_ok v' \<and> v_PendingMutations v' = v_PendingMutations before @ [m]
         \<and> v_Connections v' = v_Connections before
         \<and> (\<forall>c \<in> set (v_Connections v'). conn_KeyName c \<noteq> name) \<and> GetKey v' name = None
         \<and> (codec_ok e v' \<longrightarrow> fst (Load e masterPass w') = Inr v')))
    \<and> (ApplyImport e masterPass before (Some imported) replace w = (Inr ir, w')
        \<and> ir_TransactionID ir \<notin> pm_ID ` set (v_PendingMutations before) \<longrightarrow>
      (\<exists>at after report m v'. import_candidate at before imported replace = (after, report)
         \<and> ledger_ok v' \<and> v_PendingMutations v' = v_PendingMutations before @ [m]
         \<and> inventory_of v' = inventory_of after
         \<and> (codec_ok e v' \<longrightarrow> fst (Load e masterPass w') = Inr v')))"
proof (intro conjI impI; elim conjE)
  have wf: "wf_inventory before" using assms by (simp add: ledger_ok_def)
  assume "RemoveSavedKey e masterPass before name w = (Inr skr, w')" and name: "name \<noteq> ''''"
    and id: "sk_TransactionID skr \<notin> pm_ID ` set (v_PendingMutations before)"
  from this(1) show "\<exists>m v'. ledger_ok v' \<and> v_PendingMutations v' = v_PendingMutations before @ [m]
         \<and> v_Connections v' = v_Connections before
         \<and> (\<forall>c \<in> set (v_Connections v'). conn_KeyName c \<noteq> name) \<and> GetKey v' name = None
         \<and> (codec_ok e v' \<longrightarrow> fst (Load e masterPass w') = Inr v')"
  proof (cases rule: RemoveSavedKey_ok)
    case (1 after v' w2 t)
    let ?m = "key_removed_mutation before after name (sk_TransactionID skr) t"
    have after: "after = before\<lparr>v_Keys := remove_named key_Name name (v_Keys before)\<rparr>"
      using 1(1) by (simp add: removeKeyByName_eq)
    have mid: "pm_ID ?m = sk_TransactionID skr" by (simp add: key_removed_mutation_def split_beta)
    have "ledger_ok v' \<and> v_PendingMutations v' = v_PendingMutations before @ [?m]
        \<and> v_Connections v' = v_Connections after \<and> v_Keys v' = v_Keys after"
      using key_removed_mutation_ok [OF 1(1) wf name] 1(3,4) mid id after
      by (intro append_pending_ok [OF assms]) auto
    with after 1(2) saveLoadedVault_Load [OF _ 1(5)] wf show ?thesis
      by (intro exI [of _ ?m] exI [of _ v']) (auto simp: GetKey_def find_remove_named wf_inventory_def)
  qed
next
  have wf: "wf_inventory before" using assms by (simp add: ledger_ok_def)
  assume "ApplyImport e masterPass before (Some imported) replace w = (Inr ir, w')"
    and id: "ir_TransactionID ir \<notin> pm_ID ` set (v_PendingMutations before)"
  from this(1) show "\<exists>at after report m v'. import_candidate at before imported replace = (after, report)
         \<and> ledger_ok v' \<and> v_PendingMutations v' = v_PendingMutations before @ [m]
         \<and> inventory_of v' = inventory_of after
         \<and> (codec_ok e v' \<longrightarrow> fst (Load e masterPass w') = Inr v')"
  proof (cases rule: ApplyImport_ok)
    case (1 after at report v' w3 action t)
    let ?m = "import_mutation before after action (ir_TransactionID ir) t"
    note cand = import_candidate_ok [OF 1(2) wf valid_import(1) [OF 1(1)]]
    have mid: "pm_ID ?m = ir_TransactionID ir" by (simp add: import_mutation_def Let_def split_beta)
    have v': "ledger_ok v' \<and> v_PendingMutations v' = v_PendingMutations before @ [?m]
        \<and> v_Connections v' = v_Connections after \<and> v_Keys v' = v_Keys after"
      using cand import_mutation_ok [OF wf] 1(3,4) mid id
      by (intro append_pending_ok [OF assms]) auto
    moreover from v' have "inventory_of v' = inventory_of after" by (simp add: inventory_of_def)
    ultimately show ?thesis using 1(2) saveLoadedVault_Load [OF _ 1(5)] by blast
  qed
qed

theorem bulk_mutations_keep_ledger_witness:
  "\<exists>receipt w' m v'.
     RemoveSavedKey (demo_env []) ''pw'' demo_saved ''old'' demo_world = (Inr receipt, w')
   \<and> ledger_ok v' \<and> v_PendingMutations v' = [m] \<and> GetKey v' ''old'' = None"
proof -
  let ?x = "RemoveSavedKey (demo_env []) ''pw'' demo_saved ''old'' demo_world"
  have ok: "ledger_ok demo_saved" by code_simp
  have "case fst ?x of Inr r \<Rightarrow> True | Inl _ \<Rightarrow> False" by code_simp
  then obtain receipt w' where x: "?x = (Inr receipt, w')"
    by (cases ?x) (auto split: sum.splits)
  have "v_PendingMutations demo_saved = []" by code_simp
  with bulk_mutations_keep_ledger [OF ok, of "demo_env []" "''pw''" "''old''" demo_world receipt w'] x
  show ?thesis by fastforce
qed

text \<open>
  
  No mutation leaves a dangling reference to a saved key: if every connection's saved key exists
  (and no alias is empty), that is still so in the candidate of every host change, including the
  removal that prunes the key, after the removal of a saved key, and in the candidate of every
  validated import, merged or replaced.
\<close>

theorem mutations_keep_references:
  assumes "refs_ok v" and "wf_inventory v" and "'''' \<notin> conn_Name ` set (v_Connections v)"
  shows "(buildHostCandidate cred parse_key v change = Inr (after, receipt) \<longrightarrow> refs_ok after)
    \<and> (RemoveSavedKey e masterPass v name w = (Inr skr, w') \<longrightarrow> refs_ok (fst (removeKeyByName v name)))
    \<and> (validateImportInventory (Some imported) = None \<longrightarrow> refs_ok (fst (import_candidate at v imported replace)))"
proof (intro conjI impI)
  assume cand: "buildHostCandidate cred parse_key v change = Inr (after, receipt)"
  show "refs_ok after"
  proof (cases "hc_Action change = HostRemove")
    case True
    with cand have "remove_candidate v change = Inr (after, receipt)" by (simp add: buildHostCandidate_def Let_def)
    then show ?thesis using assms by (rule remove_candidate_refs)
  next
    case False
    from cand False assms(1) show ?thesis by (rule upsert_refs)
  qed
next
  assume "RemoveSavedKey e masterPass v name w = (Inr skr, w')"
  then have "\<forall>c \<in> set (v_Connections v). conn_KeyName c \<noteq> name" by (rule RemoveSavedKey_ok)
  moreover have "key_Name ` set (remove_named key_Name name (v_Keys v)) = key_Name ` set (v_Keys v) - {name}"
    using assms(2) by (intro names_remove_named) (simp add: wf_inventory_def)
  ultimately show "refs_ok (fst (removeKeyByName v name))"
    using assms(1) by (auto simp: removeKeyByName_eq refs_ok_def)
next
  assume "validateImportInventory (Some imported) = None"
  with assms show "refs_ok (fst (import_candidate at v imported replace))"
    using import_candidate_ok [of at v imported replace] valid_import [of imported]
    by (cases "import_candidate at v imported replace") auto
qed

theorem mutations_keep_references_witness:
  "refs_ok demo_saved
   \<and> (\<exists>after receipt. buildHostCandidate demo_cred (\<lambda>_. True) demo_saved (demo_change\<lparr>hc_Action := HostRemove, hc_PruneKey := True\<rparr>)
        = Inr (after, receipt) \<and> rc_KeyPruned receipt = ''k'' \<and> refs_ok after)"
proof -
  let ?c = "demo_change\<lparr>hc_Action := HostRemove, hc_PruneKey := True\<rparr>"
  let ?x = "buildHostCandidate demo_cred (\<lambda>_. True) demo_saved ?c"
  have h: "refs_ok demo_saved" "wf_inventory demo_saved" "'''' \<notin> conn_Name ` set (v_Connections demo_saved)"
    by code_simp+
  have "case ?x of Inr (_, r) \<Rightarrow> rc_KeyPruned r = ''k'' | Inl _ \<Rightarrow> False" by code_simp
  then obtain after receipt where "?x = Inr (after, receipt)" "rc_KeyPruned receipt = ''k''"
    by (auto split: sum.splits prod.splits)
  with mutations_keep_references [OF h, of demo_cred "\<lambda>_. True" ?c after receipt] h(1) show ?thesis by blast
qed

end
