(* ===== verification/Publishing_Intent.thy ===== *)
theory Publishing_Intent
  imports Ledger Vault_Store
begin

text \<open>
  The durable publishing intent and the secret-free views of the ledger
  (\<^verbatim>\<open>internal/inventorytransaction/transaction.go\<close>). The intent is read defensively: the document is
  bounded in size, its token stream in length and nesting, no object may repeat a member, and the
  decoded intent is validated field by field.
\<close>

section \<open>Views\<close>

record mutation_view =
  mv_ID :: string
  mv_Alias :: string
  mv_Aliases :: "string list"
  mv_KeyName :: string
  mv_Operation :: string
  mv_CreatedAt :: string
  mv_Connections :: "int option"
  mv_Keys :: "int option"

definition mutation_view_of :: "pending_mutation \<Rightarrow> mutation_view" where
  "mutation_view_of m =
     \<lparr>mv_ID = pm_ID m, mv_Alias = pm_Alias m, mv_Aliases = pm_Aliases m, mv_KeyName = pm_KeyName m,
      mv_Operation = pm_Operation m, mv_CreatedAt = pm_CreatedAt m,
      mv_Connections = (if pm_BulkAfter m \<noteq> None then Some (pm_ConnectionCount m) else None),
      mv_Keys = (if pm_BulkAfter m \<noteq> None then Some (pm_KeyCount m)
                 else if pm_KeyName m \<noteq> '''' then Some (pm_KeyCount m) else None)\<rparr>"

definition mutationViews :: "pending_mutation list \<Rightarrow> mutation_view list" where
  "mutationViews ms = map mutation_view_of ms"

definition Pending :: "vault option \<Rightarrow> mutation_view list" where
  "Pending v = (case v of None \<Rightarrow> [] | Some vlt \<Rightarrow> mutationViews (v_PendingMutations vlt))"

definition publishingIntentTransactions :: "pending_mutation list \<Rightarrow> intent_transaction list" where
  "publishingIntentTransactions ms = map (\<lambda>m. \<lparr>it_Operation = pm_Operation m, it_CreatedAt = pm_CreatedAt m\<rparr>) ms"

text \<open>The loop indexes the IDs by the position of the transaction; both lists have the same length.\<close>

definition publishingIntentMutationViews :: "intent_transaction list \<Rightarrow> string list \<Rightarrow> mutation_view list" where
  "publishingIntentMutationViews ts ids =
     map (\<lambda>(t, i). \<lparr>mv_ID = i, mv_Alias = '''', mv_Aliases = [], mv_KeyName = '''', mv_Operation = it_Operation t,
        mv_CreatedAt = it_CreatedAt t, mv_Connections = None, mv_Keys = None\<rparr>) (zip ts ids)"

record publication_recovery =
  pr_State :: string
  pr_Scope :: string
  pr_TransactionIDs :: "string list"
  pr_PrerequisiteExists :: bool
  pr_PrerequisiteIdentity :: string
  pr_TargetIdentity :: string
  pr_ObservedExists :: bool
  pr_ObservedIdentity :: string

definition recoveryView :: "publishing_intent \<Rightarrow> string \<Rightarrow> publication_recovery" where
  "recoveryView intent state =
     \<lparr>pr_State = state, pr_Scope = pi_Scope intent, pr_TransactionIDs = pi_TransactionIDs intent,
      pr_PrerequisiteExists = pi_PrerequisiteExists intent,
      pr_PrerequisiteIdentity = pi_PrerequisiteIdentity intent,
      pr_TargetIdentity = pi_TargetIdentity intent, pr_ObservedExists = pi_ObservedExists intent,
      pr_ObservedIdentity = pi_ObservedIdentity intent\<rparr>"

section \<open>Bounds and states\<close>

definition publishingIntentVersion :: int where "publishingIntentVersion = 2"
definition maxPublishingIntentDocumentBytes :: int where "maxPublishingIntentDocumentBytes = 512 * 1024"
definition maxPublishingIntentJSONDepth :: int where "maxPublishingIntentJSONDepth = 16"
definition maxPublishingIntentJSONTokens :: int where "maxPublishingIntentJSONTokens = 32 * 1024"
definition maxPublishingIntentTransactions :: int where "maxPublishingIntentTransactions = 1024"
definition intentPrepared :: string where "intentPrepared = ''prepared''"
definition intentReady :: string where "intentReady = ''ready''"
definition intentAmbiguous :: string where "intentAmbiguous = ''ambiguous''"
definition intentDivergent :: string where "intentDivergent = ''divergent''"
definition intentFinalizationFailed :: string where "intentFinalizationFailed = ''finalization_failed''"

lemmas intent_consts = publishingIntentVersion_def maxPublishingIntentDocumentBytes_def
  maxPublishingIntentJSONDepth_def maxPublishingIntentJSONTokens_def maxPublishingIntentTransactions_def
  intentPrepared_def intentReady_def intentAmbiguous_def intentDivergent_def intentFinalizationFailed_def

section \<open>Unique members\<close>

definition nextToken :: "int \<Rightarrow> json_token list \<Rightarrow> (json_token \<times> json_token list \<times> int) option" where
  "nextToken tokens ts =
     (if tokens \<ge> maxPublishingIntentJSONTokens then None
      else case ts of
        [] \<Rightarrow> None
      | JsonSyntaxError # _ \<Rightarrow> None
      | t # rest \<Rightarrow> Some (t, rest, tokens + 1))"

text \<open>\<^verbatim>\<open>decoder.More()\<close>.\<close>

definition json_more :: "json_token list \<Rightarrow> bool" where
  "json_more ts =
     (case ts of [] \<Rightarrow> False | JsonDelim c # _ \<Rightarrow> c \<noteq> CHR '']'' \<and> c \<noteq> CHR ''}'' | _ \<Rightarrow> True)"

text \<open>
  \<^verbatim>\<open>consumeUniqueJSONValue\<close> with its two loops. The first argument is fuel: twice the number of
  tokens plus two is enough (\<open>consume_fuel\<close>). The result is the number of tokens used so far
  and the tokens that are left, None for an error.
\<close>

function (sequential) consumeUniqueJSONValue :: "nat \<Rightarrow> int \<Rightarrow> int \<Rightarrow> json_token list \<Rightarrow> (int \<times> json_token list) option"
  and consume_members :: "nat \<Rightarrow> int \<Rightarrow> int \<Rightarrow> string list \<Rightarrow> json_token list \<Rightarrow> (int \<times> json_token list) option"
  and consume_elements :: "nat \<Rightarrow> int \<Rightarrow> int \<Rightarrow> json_token list \<Rightarrow> (int \<times> json_token list) option"
where
  "consumeUniqueJSONValue 0 tokens depth ts = None"
| "consumeUniqueJSONValue (Suc fuel) tokens depth ts =
     (case nextToken tokens ts of
        None \<Rightarrow> None
      | Some (JsonDelim d, ts1, n1) \<Rightarrow>
          if depth \<ge> maxPublishingIntentJSONDepth then None
          else
            (case (if d = CHR ''{'' then consume_members fuel n1 depth [] ts1
                   else if d = CHR ''['' then consume_elements fuel n1 depth ts1
                   else None) of
               None \<Rightarrow> None
             | Some (n2, ts2) \<Rightarrow>
                 (case nextToken n2 ts2 of None \<Rightarrow> None | Some (_, ts3, n3) \<Rightarrow> Some (n3, ts3)))
      | Some (_, ts1, n1) \<Rightarrow> Some (n1, ts1))"
| "consume_members 0 tokens depth seen ts = None"
| "consume_members (Suc fuel) tokens depth seen ts =
     (if \<not> json_more ts then Some (tokens, ts)
      else case nextToken tokens ts of
        Some (JsonString member, ts1, n1) \<Rightarrow>
          if member \<in> set seen then None
          else
            (case consumeUniqueJSONValue fuel n1 (depth + 1) ts1 of
               None \<Rightarrow> None
             | Some (n2, ts2) \<Rightarrow> consume_members fuel n2 depth (member # seen) ts2)
      | _ \<Rightarrow> None)"
| "consume_elements 0 tokens depth ts = None"
| "consume_elements (Suc fuel) tokens depth ts =
     (if \<not> json_more ts then Some (tokens, ts)
      else case consumeUniqueJSONValue fuel tokens (depth + 1) ts of
        None \<Rightarrow> None
      | Some (n2, ts2) \<Rightarrow> consume_elements fuel n2 depth ts2)"
  by pat_completeness auto
termination
  by (relation "measure (case_sum (\<lambda>(f, _). f) (case_sum (\<lambda>(f, _). f) (\<lambda>(f, _). f)))") auto

definition validateUniqueJSONMembers :: "json_token list \<Rightarrow> bool" where
  "validateUniqueJSONMembers ts =
     (case consumeUniqueJSONValue (2 * length ts + 2) 0 0 ts of
        Some (_, []) \<Rightarrow> True
      | _ \<Rightarrow> False)"

section \<open>Validation of an intent\<close>

datatype intent_error =
    IntentNotExist
  | IntentReadErr
  | IntentInvalidDocument
  | IntentUnsupportedVersion
  | IntentInvalidState
  | IntentInvalidScope
  | IntentNoTransactions
  | IntentOnlyScope
  | IntentIncompleteMetadata
  | IntentInvalidIDs
  | IntentInvalidOperation
  | IntentInvalidTime
  | IntentInvalidTarget
  | IntentInvalidPrerequisite
  | IntentAbsentPrerequisite
  | IntentInvalidObservation
  | IntentAbsentObservation
  | IntentWriteErr

definition validPublishingIntentOperation :: "string \<Rightarrow> bool" where
  "validPublishingIntentOperation op =
     (op \<in> set [''created'', ''updated'', ''removed'', ''saved_key_removed'', ''import_merged'', ''import_replaced''])"

text \<open>The loop over the transaction IDs; the two lists have the same length here.\<close>

fun check_intent_ids :: "env \<Rightarrow> string list \<Rightarrow> (string \<times> intent_transaction) list \<Rightarrow> intent_error option" where
  "check_intent_ids e seen [] = None"
| "check_intent_ids e seen ((i, t) # rest) =
     (if i = '''' \<or> i \<in> set seen then Some IntentInvalidIDs
      else if \<not> validPublishingIntentOperation (it_Operation t) then Some IntentInvalidOperation
      else if e_parse_nano e (it_CreatedAt t) = None then Some IntentInvalidTime
      else check_intent_ids e (i # seen) rest)"

definition validatePublishingIntent :: "env \<Rightarrow> publishing_intent \<Rightarrow> intent_error option" where
  "validatePublishingIntent e i =
     (if pi_Version i \<noteq> publishingIntentVersion then Some IntentUnsupportedVersion
      else if pi_State i \<notin> set [intentPrepared, intentReady, intentAmbiguous, intentDivergent, intentFinalizationFailed]
        then Some IntentInvalidState
      else if pi_Scope i \<noteq> ''all'' \<and> pi_Scope i \<noteq> ''only'' then Some IntentInvalidScope
      else if int (length (pi_TransactionIDs i)) > maxPublishingIntentTransactions
           \<or> int (length (pi_Transactions i)) > maxPublishingIntentTransactions then Some IntentInvalidDocument
      else if pi_TransactionIDs i = [] then Some IntentNoTransactions
      else if pi_Scope i = ''only'' \<and> length (pi_TransactionIDs i) \<noteq> 1 then Some IntentOnlyScope
      else if length (pi_Transactions i) \<noteq> length (pi_TransactionIDs i) then Some IntentIncompleteMetadata
      else case check_intent_ids e [] (zip (pi_TransactionIDs i) (pi_Transactions i)) of
        Some err \<Rightarrow> Some err
      | None \<Rightarrow>
          if \<not> identity_pattern (pi_TargetIdentity i) then Some IntentInvalidTarget
          else if pi_PrerequisiteExists i \<and> \<not> identity_pattern (pi_PrerequisiteIdentity i)
            then Some IntentInvalidPrerequisite
          else if \<not> pi_PrerequisiteExists i \<and> pi_PrerequisiteIdentity i \<noteq> '''' then Some IntentAbsentPrerequisite
          else if pi_ObservedExists i \<and> \<not> identity_pattern (pi_ObservedIdentity i)
            then Some IntentInvalidObservation
          else if \<not> pi_ObservedExists i \<and> pi_ObservedIdentity i \<noteq> '''' then Some IntentAbsentObservation
          else None)"

section \<open>Reading and writing\<close>

text \<open>
  The tokens of \<^verbatim>\<open>json.MarshalIndent\<close> on an intent, in the order of the struct with its
  \<^verbatim>\<open>omitempty\<close> tags.
\<close>

definition string_member :: "string \<Rightarrow> json_token list" where
  "string_member name = [JsonString name, JsonScalar]"

definition transaction_tokens :: "json_token list" where
  "transaction_tokens =
     JsonDelim (CHR ''{'') # string_member ''operation'' @ string_member ''created_at'' @ [JsonDelim (CHR ''}'')]"

definition intent_tokens :: "publishing_intent \<Rightarrow> json_token list" where
  "intent_tokens i =
     JsonDelim (CHR ''{'') # string_member ''version'' @ string_member ''state'' @ string_member ''scope''
     @ JsonString ''transaction_ids'' # JsonDelim (CHR ''['') # map JsonString (pi_TransactionIDs i) @ JsonDelim (CHR '']'')
     # JsonString ''transactions'' # JsonDelim (CHR ''['') # concat (map (\<lambda>_. transaction_tokens) (pi_Transactions i))
     @ JsonDelim (CHR '']'')
     # string_member ''prerequisite_remote_exists''
     @ (if pi_PrerequisiteIdentity i = '''' then [] else string_member ''prerequisite_remote_identity'')
     @ string_member ''target_encrypted_blob_identity''
     @ (if pi_ObservedExists i then string_member ''observed_remote_exists'' else [])
     @ (if pi_ObservedIdentity i = '''' then [] else string_member ''observed_remote_identity'')
     @ [JsonDelim (CHR ''}'')]"

text \<open>\<open>docsize\<close> gives the length of the marshalled document in bytes.\<close>

definition savePublishingIntent :: "env \<Rightarrow> (publishing_intent \<Rightarrow> int) \<Rightarrow> publishing_intent \<Rightarrow> world \<Rightarrow>
    intent_error option \<times> world" where
  "savePublishingIntent e docsize intent w =
     (case validatePublishingIntent e intent of
        Some err \<Rightarrow> (Some err, w)
      | None \<Rightarrow>
          if docsize intent > maxPublishingIntentDocumentBytes then (Some IntentInvalidDocument, w)
          else
            (case put_file IntentFile d_intent d_intent_update
               \<lparr>doc_Size = docsize intent, doc_Tokens = intent_tokens intent,
                doc_Version = Some (pi_Version intent), doc_Intent = Some intent\<rparr> w of
               (ok, w1) \<Rightarrow> (if ok then None else Some IntentWriteErr, w1)))"

definition decodePublishingIntent :: "json_token list \<Rightarrow> 'a option \<Rightarrow> intent_error + 'a" where
  "decodePublishingIntent tokens decoded =
     (if \<not> validateUniqueJSONMembers tokens then Inl IntentInvalidDocument
      else case decoded of None \<Rightarrow> Inl IntentInvalidDocument | Some x \<Rightarrow> Inr x)"

definition readPublishingIntentDocument :: "intent_document \<Rightarrow> intent_error + intent_document" where
  "readPublishingIntentDocument doc =
     (if doc_Size doc < 0 \<or> doc_Size doc > maxPublishingIntentDocumentBytes then Inl IntentInvalidDocument
      else Inr doc)"

definition loadPublishingIntent :: "env \<Rightarrow> cfgdir \<Rightarrow> intent_error + publishing_intent" where
  "loadPublishingIntent e d =
     (case ReadFile (d_intent d) of
        Inl NotExist \<Rightarrow> Inl IntentNotExist
      | Inl ReadErr \<Rightarrow> Inl IntentReadErr
      | Inr file \<Rightarrow>
          (case readPublishingIntentDocument file of
             Inl err \<Rightarrow> Inl err
           | Inr doc \<Rightarrow>
               (case decodePublishingIntent (doc_Tokens doc) (doc_Version doc) of
                  Inl err \<Rightarrow> Inl err
                | Inr version \<Rightarrow>
                    if version \<noteq> publishingIntentVersion then Inl IntentUnsupportedVersion
                    else case decodePublishingIntent (doc_Tokens doc) (doc_Intent doc) of
                      Inl err \<Rightarrow> Inl err
                    | Inr intent \<Rightarrow>
                        (case validatePublishingIntent e intent of
                           Some err \<Rightarrow> Inl err
                         | None \<Rightarrow> Inr intent))))"

definition clearPublishingIntent :: "world \<Rightarrow> bool \<times> world" where
  "clearPublishingIntent w = RemovePrivateFile IntentFile d_intent d_intent_update w"

section \<open>The token stream\<close>

lemma nextToken_Some: "nextToken n ts = Some (t, ts', n') \<Longrightarrow> ts = t # ts' \<and> n' = n + 1"
  by (auto simp: nextToken_def split: if_splits list.splits json_token.splits)

lemma nextToken_length: "nextToken n ts = Some (t, ts', n') \<Longrightarrow> length ts = Suc (length ts')"
  by (drule nextToken_Some) simp

text \<open>A value uses up at least one token, the loops never give tokens back.\<close>

lemma consume_length:
  "consumeUniqueJSONValue f n d ts = Some (n', ts') \<Longrightarrow> length ts' < length ts"
  "consume_members f n d seen ts = Some (n', ts') \<Longrightarrow> length ts' \<le> length ts"
  "consume_elements f n d ts = Some (n', ts') \<Longrightarrow> length ts' \<le> length ts"
proof (induction f n d ts and f n d seen ts and f n d ts arbitrary: n' ts' and n' ts' and n' ts'
    rule: consumeUniqueJSONValue_consume_members_consume_elements.induct)
  case (2 fuel n d ts)
  then show ?case
    by (fastforce split: option.splits prod.splits json_token.splits if_splits dest!: nextToken_length)
next
  case (4 fuel n d seen ts)
  then show ?case
    by (fastforce split: option.splits prod.splits json_token.splits if_splits dest!: nextToken_length)
next
  case (6 fuel n d ts)
  then show ?case
    by (fastforce split: option.splits prod.splits if_splits)
qed simp_all

text \<open>With enough fuel the result does not depend on the fuel.\<close>

lemma consume_fuel:
  "(\<forall>f g n d. 2 * length ts + 1 \<le> f \<and> 2 * length ts + 1 \<le> g \<longrightarrow>
      consumeUniqueJSONValue f n d ts = consumeUniqueJSONValue g n d ts)
   \<and> (\<forall>f g n d seen. 2 * length ts + 2 \<le> f \<and> 2 * length ts + 2 \<le> g \<longrightarrow>
      consume_members f n d seen ts = consume_members g n d seen ts)
   \<and> (\<forall>f g n d. 2 * length ts + 2 \<le> f \<and> 2 * length ts + 2 \<le> g \<longrightarrow>
      consume_elements f n d ts = consume_elements g n d ts)"
proof (induction ts rule: length_induct)
  case (1 ts)
  have V: "consumeUniqueJSONValue f n d xs = consumeUniqueJSONValue g n d xs"
    if "length xs < length ts" "2 * length xs + 1 \<le> f" "2 * length xs + 1 \<le> g" for xs f g n d
    using 1 that by blast
  have M: "consume_members f n d seen xs = consume_members g n d seen xs"
    if "length xs < length ts" "2 * length xs + 2 \<le> f" "2 * length xs + 2 \<le> g" for xs f g n d seen
    using 1 that by blast
  have E: "consume_elements f n d xs = consume_elements g n d xs"
    if "length xs < length ts" "2 * length xs + 2 \<le> f" "2 * length xs + 2 \<le> g" for xs f g n d
    using 1 that by blast
  have vals: "consumeUniqueJSONValue (Suc f) n d ts = consumeUniqueJSONValue (Suc g) n d ts"
    if "2 * length ts \<le> f" "2 * length ts \<le> g" for f g n d
  proof (cases "nextToken n ts")
    case (Some x)
    obtain t ts1 n1 where x: "x = (t, ts1, n1)" by (rule prod_cases3)
    with Some have "length ts = Suc (length ts1)" by (simp add: nextToken_length)
    then have "consume_members f n1 d [] ts1 = consume_members g n1 d [] ts1"
      "consume_elements f n1 d ts1 = consume_elements g n1 d ts1"
      using that by (auto intro: M E)
    with Some x show ?thesis by (simp cong: if_cong split: json_token.split)
  qed simp
  have members: "consume_members (Suc f) n d seen ts = consume_members (Suc g) n d seen ts"
    if "2 * length ts + 1 \<le> f" "2 * length ts + 1 \<le> g" for f g n d seen
  proof (cases "nextToken n ts")
    case (Some x)
    obtain t ts1 n1 where x: "x = (t, ts1, n1)" by (rule prod_cases3)
    with Some have len: "length ts = Suc (length ts1)" by (simp add: nextToken_length)
    then have v: "consumeUniqueJSONValue f n1 (d + 1) ts1 = consumeUniqueJSONValue g n1 (d + 1) ts1"
      using that by (auto intro: V)
    have "consume_members f n2 d s ts2 = consume_members g n2 d s ts2"
      if "consumeUniqueJSONValue g n1 (d + 1) ts1 = Some (n2, ts2)" for n2 ts2 s
      using consume_length(1) [OF that] len \<open>2 * length ts + 1 \<le> f\<close> \<open>2 * length ts + 1 \<le> g\<close> by (auto intro: M)
    with Some x v show ?thesis by (auto split: json_token.split option.split)
  qed simp
  have elements: "consume_elements (Suc f) n d ts = consume_elements (Suc g) n d ts"
    if "2 * length ts + 1 \<le> f" "2 * length ts + 1 \<le> g" for f g n d
  proof -
    obtain f' where f': "f = Suc f'" using \<open>2 * length ts + 1 \<le> f\<close> by (cases f) auto
    obtain g' where g': "g = Suc g'" using \<open>2 * length ts + 1 \<le> g\<close> by (cases g) auto
    have v: "consumeUniqueJSONValue f n (d + 1) ts = consumeUniqueJSONValue g n (d + 1) ts"
      unfolding f' g' using that by (intro vals) (simp_all add: f' g')
    have "consume_elements f n2 d ts2 = consume_elements g n2 d ts2"
      if "consumeUniqueJSONValue g n (d + 1) ts = Some (n2, ts2)" for n2 ts2
      using consume_length(1) [OF that] \<open>2 * length ts + 1 \<le> f\<close> \<open>2 * length ts + 1 \<le> g\<close> by (auto intro: E)
    with v show ?thesis by (auto split: option.split)
  qed
  have pos: "\<exists>f'. f = Suc f'" if "k + 1 \<le> f" for f k :: nat
    using that by (cases f) auto
  show ?case
  proof (intro conjI allI impI; elim conjE)
    fix f g n d
    assume h: "2 * length ts + 1 \<le> f" "2 * length ts + 1 \<le> g"
    with pos obtain f' g' where "f = Suc f'" "g = Suc g'" by blast
    then show "consumeUniqueJSONValue f n d ts = consumeUniqueJSONValue g n d ts"
      using h by (simp only:) (rule vals, simp_all)
  next
    fix f g n d seen
    assume h: "2 * length ts + 2 \<le> f" "2 * length ts + 2 \<le> g"
    then have "(2 * length ts + 1) + 1 \<le> f" "(2 * length ts + 1) + 1 \<le> g" by simp_all
    with pos obtain f' g' where "f = Suc f'" "g = Suc g'" by blast
    then show "consume_members f n d seen ts = consume_members g n d seen ts"
      using h by (simp only:) (rule members, simp_all)
  next
    fix f g n d
    assume h: "2 * length ts + 2 \<le> f" "2 * length ts + 2 \<le> g"
    then have "(2 * length ts + 1) + 1 \<le> f" "(2 * length ts + 1) + 1 \<le> g" by simp_all
    with pos obtain f' g' where "f = Suc f'" "g = Suc g'" by blast
    then show "consume_elements f n d ts = consume_elements g n d ts"
      using h by (simp only:) (rule elements, simp_all)
  qed
qed

section \<open>The canonical document\<close>

abbreviation token_limit :: int where
  "token_limit \<equiv> maxPublishingIntentJSONTokens"

lemma value_plain:
  "0 < f \<Longrightarrow> n < token_limit \<Longrightarrow> consumeUniqueJSONValue f n d (JsonScalar # ts) = Some (n + 1, ts)"
  "0 < f \<Longrightarrow> n < token_limit \<Longrightarrow> consumeUniqueJSONValue f n d (JsonString s # ts) = Some (n + 1, ts)"
  by (cases f; simp add: nextToken_def)+

lemma members_pair:
  assumes "2 \<le> f" and "n + 1 < token_limit" and "m \<notin> set seen"
  shows "consume_members f n d seen (string_member m @ ts) = consume_members (f - 1) (n + 2) d (m # seen) ts"
  using assms by (cases f) (auto simp: string_member_def json_more_def nextToken_def value_plain add.commute)

lemma members_end:
  "0 < f \<Longrightarrow> consume_members f n d seen (JsonDelim (CHR ''}'') # ts) = Some (n, JsonDelim (CHR ''}'') # ts)"
  by (cases f) (auto simp: json_more_def)

lemma elements_strings:
  "length ids + 2 \<le> f \<Longrightarrow> n + int (length ids) \<le> token_limit \<Longrightarrow>
     consume_elements f n d (map JsonString ids @ JsonDelim (CHR '']'') # ts)
       = Some (n + int (length ids), JsonDelim (CHR '']'') # ts)"
proof (induction ids arbitrary: f n)
  case Nil
  then show ?case by (cases f) (auto simp: json_more_def)
next
  case (Cons i ids)
  then show ?case
    by (cases f) (auto simp: json_more_def value_plain)
qed

lemma value_transaction:
  assumes "5 \<le> f" and "n + 6 \<le> token_limit" and "d < maxPublishingIntentJSONDepth"
  shows "consumeUniqueJSONValue f n d (transaction_tokens @ ts) = Some (n + 6, ts)"
proof -
  have "consume_members (f - 1) (n + 1) d [] (string_member ''operation'' @ string_member ''created_at'' @ JsonDelim (CHR ''}'') # ts)
      = Some (n + 5, JsonDelim (CHR ''}'') # ts)"
    using assms by (simp add: members_pair members_end)
  then show ?thesis
    using assms by (cases f) (simp_all add: transaction_tokens_def nextToken_def)
qed

lemma elements_transactions:
  assumes "d + 1 < maxPublishingIntentJSONDepth"
  shows "length xs + 6 \<le> f \<Longrightarrow> n + 6 * int (length xs) \<le> token_limit \<Longrightarrow>
     consume_elements f n d (concat (map (\<lambda>_. transaction_tokens) xs) @ JsonDelim (CHR '']'') # ts)
       = Some (n + 6 * int (length xs), JsonDelim (CHR '']'') # ts)"
proof (induction xs arbitrary: f n)
  case Nil
  then show ?case by (cases f) (auto simp: json_more_def)
next
  case (Cons x xs)
  obtain g where g: "f = Suc g" using Cons.prems by (cases f) auto
  have "json_more (transaction_tokens @ r)" for r by (simp add: transaction_tokens_def json_more_def)
  moreover have "consumeUniqueJSONValue g n (d + 1) (transaction_tokens @ concat (map (\<lambda>_. transaction_tokens) xs) @ JsonDelim (CHR '']'') # ts)
      = Some (n + 6, concat (map (\<lambda>_. transaction_tokens) xs) @ JsonDelim (CHR '']'') # ts)"
    using Cons.prems g assms by (intro value_transaction) auto
  moreover have "consume_elements g (n + 6) d (concat (map (\<lambda>_. transaction_tokens) xs) @ JsonDelim (CHR '']'') # ts)
      = Some (n + 6 + 6 * int (length xs), JsonDelim (CHR '']'') # ts)"
    using Cons.prems g by (intro Cons.IH) auto
  ultimately show ?case by (simp add: g algebra_simps)
qed

lemma value_list:
  assumes "consume_elements f (n + 1) d (xs @ JsonDelim (CHR '']'') # ts) = Some (k, JsonDelim (CHR '']'') # ts)"
    and "n < token_limit" "k < token_limit" and "d < maxPublishingIntentJSONDepth"
  shows "consumeUniqueJSONValue (Suc f) n d (JsonDelim (CHR ''['') # xs @ JsonDelim (CHR '']'') # ts) = Some (k + 1, ts)"
  using assms by (simp add: nextToken_def)

lemma members_list:
  assumes "consume_elements f (n + 2) (d + 1) (xs @ JsonDelim (CHR '']'') # ts) = Some (k, JsonDelim (CHR '']'') # ts)"
    and "n + 1 < token_limit" "k < token_limit" "d + 1 < maxPublishingIntentJSONDepth" "m \<notin> set seen"
  shows "consume_members (Suc (Suc f)) n d seen (JsonString m # JsonDelim (CHR ''['') # xs @ JsonDelim (CHR '']'') # ts)
    = consume_members (Suc f) (k + 1) d (m # seen) ts"
proof -
  have "consumeUniqueJSONValue (Suc f) (n + 1) (d + 1) (JsonDelim (CHR ''['') # xs @ JsonDelim (CHR '']'') # ts) = Some (k + 1, ts)"
    using assms by (intro value_list) (simp_all add: add.assoc)
  with assms show ?thesis by (simp add: json_more_def nextToken_def)
qed

declare consumeUniqueJSONValue.simps [simp del] consume_members.simps [simp del] consume_elements.simps [simp del]

text \<open>The part of the object after the two lists.\<close>

lemma members_tail:
  assumes "6 \<le> f" and "n + 10 \<le> token_limit"
    and "set seen \<inter> {''prerequisite_remote_exists'', ''prerequisite_remote_identity'', ''target_encrypted_blob_identity'',
      ''observed_remote_exists'', ''observed_remote_identity''} = {}"
  obtains k where "k \<le> n + 10"
    "consume_members f n d seen (string_member ''prerequisite_remote_exists''
     @ (if pi_PrerequisiteIdentity i = '''' then [] else string_member ''prerequisite_remote_identity'')
     @ string_member ''target_encrypted_blob_identity''
     @ (if pi_ObservedExists i then string_member ''observed_remote_exists'' else [])
     @ (if pi_ObservedIdentity i = '''' then [] else string_member ''observed_remote_identity'')
     @ [JsonDelim (CHR ''}'')]) = Some (k, [JsonDelim (CHR ''}'')])"
proof -
  have "\<exists>k. k \<le> n + 10 \<and> consume_members f n d seen (string_member ''prerequisite_remote_exists''
     @ (if pi_PrerequisiteIdentity i = '''' then [] else string_member ''prerequisite_remote_identity'')
     @ string_member ''target_encrypted_blob_identity''
     @ (if pi_ObservedExists i then string_member ''observed_remote_exists'' else [])
     @ (if pi_ObservedIdentity i = '''' then [] else string_member ''observed_remote_identity'')
     @ [JsonDelim (CHR ''}'')]) = Some (k, [JsonDelim (CHR ''}'')])"
    using assms by (simp add: members_pair members_end)
  with that show ?thesis by blast
qed

lemma intent_tokens_length: "length (intent_tokens i) \<le> 24 + length (pi_TransactionIDs i) + 6 * length (pi_Transactions i)"
proof -
  have "length (concat (map (\<lambda>_. transaction_tokens) xs)) = 6 * length xs" for xs :: "intent_transaction list"
    by (induction xs) (simp_all add: transaction_tokens_def string_member_def)
  then show ?thesis by (simp add: intent_tokens_def string_member_def)
qed

lemma canonical_unique:
  assumes "int (length (pi_TransactionIDs i)) \<le> maxPublishingIntentTransactions"
    and "int (length (pi_Transactions i)) \<le> maxPublishingIntentTransactions"
  shows "validateUniqueJSONMembers (intent_tokens i)"
proof -
  define ids where "ids = pi_TransactionIDs i"
  define trs where "trs = pi_Transactions i"
  define a where "a = int (length ids)"
  define b where "b = int (length trs)"
  define F where "F = 2 * length (intent_tokens i) + 40 + length ids + length trs"
  have ab: "0 \<le> a" "a \<le> 1024" "0 \<le> b" "b \<le> 1024"
    using assms by (simp_all add: a_def b_def ids_def trs_def intent_consts)
  define tail where "tail = string_member ''prerequisite_remote_exists''
     @ (if pi_PrerequisiteIdentity i = '''' then [] else string_member ''prerequisite_remote_identity'')
     @ string_member ''target_encrypted_blob_identity''
     @ (if pi_ObservedExists i then string_member ''observed_remote_exists'' else [])
     @ (if pi_ObservedIdentity i = '''' then [] else string_member ''observed_remote_identity'')
     @ [JsonDelim (CHR ''}'')]"
  let ?seen = "[''transactions'', ''transaction_ids'', ''scope'', ''state'', ''version'']"
  let ?trs = "concat (map (\<lambda>_. transaction_tokens) trs)"
  obtain k where k: "k \<le> 24 + a + 6 * b"
    "consume_members (Suc F) (13 + a + 6 * b) 0 ?seen tail = Some (k, [JsonDelim (CHR ''}'')])"
    by (rule members_tail [of "Suc F" "13 + a + 6 * b" ?seen 0 i])
      (use ab in \<open>auto simp: F_def tail_def intent_consts\<close>)
  have "consume_elements F (10 + a + 2) 1 (?trs @ JsonDelim (CHR '']'') # tail)
      = Some (10 + a + 2 + 6 * b, JsonDelim (CHR '']'') # tail)"
    unfolding b_def using ab by (intro elements_transactions) (auto simp: F_def b_def intent_consts)
  then have trs: "consume_members (Suc (Suc F)) (10 + a) 0 (tl ?seen)
      (JsonString ''transactions'' # JsonDelim (CHR ''['') # ?trs @ JsonDelim (CHR '']'') # tail) = Some (k, [JsonDelim (CHR ''}'')])"
    using members_list [of F "10 + a" 0 ?trs tail "12 + a + 6 * b" "''transactions''" "tl ?seen"] k(2) ab
    by (simp add: intent_consts add.assoc)
  let ?rest = "JsonString ''transactions'' # JsonDelim (CHR ''['') # ?trs @ JsonDelim (CHR '']'') # tail"
  have "consume_elements (Suc F) (7 + 2) 1 (map JsonString ids @ JsonDelim (CHR '']'') # ?rest)
      = Some (7 + 2 + a, JsonDelim (CHR '']'') # ?rest)"
    unfolding a_def using ab by (intro elements_strings) (auto simp: F_def a_def intent_consts)
  then have ids: "consume_members (Suc (Suc (Suc F))) 7 0 (tl (tl ?seen))
      (JsonString ''transaction_ids'' # JsonDelim (CHR ''['') # map JsonString ids @ JsonDelim (CHR '']'') # ?rest)
      = Some (k, [JsonDelim (CHR ''}'')])"
    using members_list [of "Suc F" 7 0 "map JsonString ids" ?rest "9 + a" "''transaction_ids''" "tl (tl ?seen)"] trs ab
    by (simp add: intent_consts)
  let ?F = "Suc (Suc (Suc (Suc (Suc (Suc F)))))"
  have "consume_members ?F 1 0 [] (string_member ''version'' @ string_member ''state'' @ string_member ''scope''
      @ JsonString ''transaction_ids'' # JsonDelim (CHR ''['') # map JsonString ids @ JsonDelim (CHR '']'') # ?rest)
      = Some (k, [JsonDelim (CHR ''}'')])"
    using ids by (simp add: members_pair intent_consts)
  then have "consumeUniqueJSONValue (Suc ?F) 0 0 (intent_tokens i) = Some (k + 1, [])"
    using k(1) ab
    by (simp add: consumeUniqueJSONValue.simps intent_tokens_def nextToken_def intent_consts
        flip: ids_def trs_def tail_def)
  moreover have "consumeUniqueJSONValue (Suc ?F) 0 0 (intent_tokens i)
      = consumeUniqueJSONValue (2 * length (intent_tokens i) + 2) 0 0 (intent_tokens i)"
    using consume_fuel [of "intent_tokens i"] by (simp add: F_def)
  ultimately show ?thesis by (simp add: validateUniqueJSONMembers_def)
qed

section \<open>Properties\<close>


definition demo_intent :: publishing_intent where
  "demo_intent =
     \<lparr>pi_Version = 2, pi_State = ''prepared'', pi_Scope = ''only'', pi_TransactionIDs = [''t1''],
      pi_Transactions = [\<lparr>it_Operation = ''created'', it_CreatedAt = ''7''\<rparr>], pi_PrerequisiteExists = False,
      pi_PrerequisiteIdentity = '''', pi_TargetIdentity = replicate 64 (CHR ''a''), pi_ObservedExists = False,
      pi_ObservedIdentity = ''''\<rparr>"


end
