(* ===== verification/Cloud_Client.thy ===== *)
theory Cloud_Client
  imports Vault_Store
begin

text \<open>
  The HTTP client of the sync service (\<^verbatim>\<open>internal/cloud/cloud.go\<close>): observing, fetching and
  conditionally replacing the opaque remote blob, and the account calls. A request consumes the next
  scripted exchange of the world, during which other processes may change the directory.
\<close>

section \<open>Exchanges and errors\<close>

definition http_Do :: "http_request \<Rightarrow> world \<Rightarrow> http_response option \<times> world" where
  "http_Do req w =
     (case w_http w of
        [] \<Rightarrow> (None, emit (Received None) (emit (Sent req) w))
      | (others, resp) # rest \<Rightarrow>
          (resp, emit (Received resp) (emit (Sent req) (w\<lparr>w_http := rest, w_dir := others (w_dir w)\<rparr>))))"

datatype cloud_error =
    MissingTokenError
  | RequestError
  | TransportError
  | ErrNoVaultOnServer
  | HTTPStatusError int string
  | ErrBlobTooLarge
  | ErrBlobEmpty
  | ErrBlobInvalid
  | ErrResponseBody
  | ErrIdentityChanged
  | ErrDecodeResponse
  | ErrNoToken

record remote_blob_identity =
  rb_Exists :: bool
  rb_Value :: string

record push_failure =
  pf_err :: cloud_error
  pf_explicit :: bool
  pf_ambiguous :: bool

text \<open>A push fails before a request exists, or with a classified failure.\<close>

datatype push_error = PushMissingToken | PushFailed push_failure

fun PushFailureIsExplicit :: "push_error \<Rightarrow> bool" where
  "PushFailureIsExplicit PushMissingToken = False"
| "PushFailureIsExplicit (PushFailed f) = pf_explicit f"

fun PushFailureIsAmbiguous :: "push_error \<Rightarrow> bool" where
  "PushFailureIsAmbiguous PushMissingToken = False"
| "PushFailureIsAmbiguous (PushFailed f) = pf_ambiguous f"

fun PushFailureIsConflict :: "push_error \<Rightarrow> bool" where
  "PushFailureIsConflict PushMissingToken = False"
| "PushFailureIsConflict (PushFailed f) =
     (case pf_err f of HTTPStatusError status _ \<Rightarrow> status = 412 | _ \<Rightarrow> False)"

definition requireToken :: "cloud_config \<Rightarrow> bool" where
  "requireToken cfg = (trim_space (cc_Token cfg) \<noteq> '''')"

definition maxPullBlobBytes :: int where "maxPullBlobBytes = 67108864"
definition maxResponseBodyBytes :: int where "maxResponseBodyBytes = 1048576"

text \<open>\<^verbatim>\<open>readResponseBody\<close>: False for a body that cannot be read or is too large.\<close>

definition readResponseBody :: "http_response \<Rightarrow> bool" where
  "readResponseBody resp =
     (case resp_Body resp of None \<Rightarrow> False | Some body \<Rightarrow> int (length body) \<le> maxResponseBodyBytes)"

definition parseError :: "http_response \<Rightarrow> cloud_error" where
  "parseError resp =
     (if \<not> readResponseBody resp then ErrResponseBody
      else case resp_Error resp of
        None \<Rightarrow> HTTPStatusError (resp_Status resp) ''''
      | Some text \<Rightarrow> HTTPStatusError (resp_Status resp) (trim_space text))"

definition quote_mark :: string where "quote_mark = [CHR 0x22]"

text \<open>\<^verbatim>\<open>http.NewRequest\<close> fails when the address does not parse.\<close>

definition NewRequest :: "env \<Rightarrow> cloud_config \<Rightarrow> http_method \<Rightarrow> string \<Rightarrow> bytes \<Rightarrow> http_request option" where
  "NewRequest e cfg meth path body =
     (if e_parse_url e (trim_right (cc_Server cfg) ''/'' @ path) = None then None
      else Some \<lparr>req_Method = meth, req_Path = path, req_Token = cc_Token cfg, req_IfMatch = '''',
                 req_IfNoneMatch = '''', req_Body = body\<rparr>)"

section \<open>The remote blob\<close>

definition PushBlobObserved :: "env \<Rightarrow> cloud_config \<Rightarrow> bytes \<Rightarrow> remote_blob_identity \<Rightarrow> world \<Rightarrow>
    (push_error + string \<times> bool) \<times> world" where
  "PushBlobObserved e cfg data prerequisite w =
     (if \<not> requireToken cfg then (Inl PushMissingToken, w)
      else case NewRequest e cfg PUT ''/sync'' data of
        None \<Rightarrow> (Inl (PushFailed \<lparr>pf_err = RequestError, pf_explicit = False, pf_ambiguous = False\<rparr>), w)
      | Some req0 \<Rightarrow>
          (let req = (if rb_Exists prerequisite
                 then req0\<lparr>req_IfMatch := quote_mark @ trim_set (rb_Value prerequisite) quote_mark @ quote_mark\<rparr>
                 else req0\<lparr>req_IfNoneMatch := ''*''\<rparr>)
           in case http_Do req w of
                (None, w1) \<Rightarrow>
                  (Inl (PushFailed \<lparr>pf_err = TransportError, pf_explicit = False, pf_ambiguous = True\<rparr>), w1)
              | (Some resp, w1) \<Rightarrow>
                  if resp_Status resp \<noteq> 200 then
                    (Inl (PushFailed \<lparr>pf_err = parseError resp, pf_explicit = True, pf_ambiguous = False\<rparr>), w1)
                  else
                    (let etag = trim_set (resp_ETag resp) quote_mark in (Inr (etag, etag \<noteq> ''''), w1))))"

definition PushBlob :: "env \<Rightarrow> cloud_config \<Rightarrow> bytes \<Rightarrow> world \<Rightarrow> (push_error + string) \<times> world" where
  "PushBlob e cfg data w =
     (case PushBlobObserved e cfg data \<lparr>rb_Exists = False, rb_Value = ''''\<rparr> w of
        (Inl err, w1) \<Rightarrow> (Inl err, w1)
      | (Inr (etag, observed), w1) \<Rightarrow> (Inr (if observed then etag else e_sha256 e data), w1))"

definition Fetch :: "env \<Rightarrow> cloud_config \<Rightarrow> world \<Rightarrow> (cloud_error + bytes \<times> string) \<times> world" where
  "Fetch e cfg w =
     (if \<not> requireToken cfg then (Inl MissingTokenError, w)
      else case NewRequest e cfg GET ''/sync'' [] of
        None \<Rightarrow> (Inl RequestError, w)
      | Some req \<Rightarrow>
          (case http_Do req w of
             (None, w1) \<Rightarrow> (Inl TransportError, w1)
           | (Some resp, w1) \<Rightarrow>
               if resp_Status resp = 404 then (Inl ErrNoVaultOnServer, w1)
               else if resp_Status resp \<noteq> 200 then (Inl (parseError resp), w1)
               else case resp_Body resp of
                 None \<Rightarrow> (Inl TransportError, w1)
               | Some data \<Rightarrow>
                   if int (length data) > maxPullBlobBytes then (Inl ErrBlobTooLarge, w1)
                   else if data = [] then (Inl ErrBlobEmpty, w1)
                   else
                     (let etag = trim_set (resp_ETag resp) quote_mark
                      in (Inr (data, if etag = '''' then e_sha256 e data else etag), w1))))"

definition FetchExpected :: "env \<Rightarrow> cloud_config \<Rightarrow> string \<Rightarrow> world \<Rightarrow> (cloud_error + bytes \<times> string) \<times> world" where
  "FetchExpected e cfg expected w =
     (if \<not> requireToken cfg then (Inl MissingTokenError, w)
      else case NewRequest e cfg GET ''/sync'' [] of
        None \<Rightarrow> (Inl RequestError, w)
      | Some req \<Rightarrow>
          (case http_Do req w of
             (None, w1) \<Rightarrow> (Inl TransportError, w1)
           | (Some resp, w1) \<Rightarrow>
               if resp_Status resp \<noteq> 200 then (Inl (parseError resp), w1)
               else case resp_Body resp of
                 None \<Rightarrow> (Inl TransportError, w1)
               | Some data \<Rightarrow>
                   if int (length data) > maxPullBlobBytes \<or> data = [] then (Inl ErrBlobInvalid, w1)
                   else
                     (let bodyIdentity = e_sha256 e data;
                          etag = trim_set (resp_ETag resp) quote_mark;
                          responseIdentity = (if etag = '''' then bodyIdentity else etag)
                      in if responseIdentity \<noteq> expected \<or> bodyIdentity \<noteq> expected
                         then (Inl ErrIdentityChanged, w1)
                         else (Inr (data, expected), w1))))"

definition InspectRemoteBlob :: "env \<Rightarrow> cloud_config \<Rightarrow> world \<Rightarrow> (cloud_error + remote_blob_identity) \<times> world" where
  "InspectRemoteBlob e cfg w =
     (if \<not> requireToken cfg then (Inl MissingTokenError, w)
      else case NewRequest e cfg HEAD ''/sync'' [] of
        None \<Rightarrow> (Inl RequestError, w)
      | Some req \<Rightarrow>
          (case http_Do req w of
             (None, w1) \<Rightarrow> (Inl TransportError, w1)
           | (Some resp, w1) \<Rightarrow>
               if resp_Status resp = 404 then (Inr \<lparr>rb_Exists = False, rb_Value = ''''\<rparr>, w1)
               else if resp_Status resp \<noteq> 200 then (Inl (parseError resp), w1)
               else (Inr \<lparr>rb_Exists = True, rb_Value = trim_set (resp_ETag resp) quote_mark\<rparr>, w1)))"

definition RemoteETag :: "env \<Rightarrow> cloud_config \<Rightarrow> world \<Rightarrow> (cloud_error + string) \<times> world" where
  "RemoteETag e cfg w =
     (case InspectRemoteBlob e cfg w of
        (Inl err, w1) \<Rightarrow> (Inl err, w1)
      | (Inr identity, w1) \<Rightarrow>
          if \<not> rb_Exists identity then (Inl ErrNoVaultOnServer, w1) else (Inr (rb_Value identity), w1))"

section \<open>Accounts\<close>

definition parseTokenResponse :: "http_response \<Rightarrow> cloud_error + string" where
  "parseTokenResponse resp =
     (if resp_Status resp \<ge> 400 then Inl (parseError resp)
      else if \<not> readResponseBody resp then Inl ErrResponseBody
      else case resp_Token resp of
        None \<Rightarrow> Inl ErrDecodeResponse
      | Some token \<Rightarrow> if trim_space token = '''' then Inl ErrNoToken else Inr token)"

text \<open>\<open>body\<close> is the JSON object with email and password; \<^verbatim>\<open>postJSON\<close> sends no bearer token.\<close>

definition postJSON :: "env \<Rightarrow> string \<Rightarrow> string \<Rightarrow> bytes \<Rightarrow> world \<Rightarrow> http_response option \<times> world" where
  "postJSON e server path body w =
     (if e_parse_url e (server @ path) = None then (None, w)
      else http_Do \<lparr>req_Method = POST, req_Path = path, req_Token = '''', req_IfMatch = '''',
                    req_IfNoneMatch = '''', req_Body = body\<rparr> w)"

definition account_call :: "env \<Rightarrow> string \<Rightarrow> string \<Rightarrow> bytes \<Rightarrow> world \<Rightarrow> (cloud_error + string) \<times> world" where
  "account_call e path server body w =
     (case postJSON e (trim_right server ''/'') path body w of
        (None, w1) \<Rightarrow> (Inl TransportError, w1)
      | (Some resp, w1) \<Rightarrow> (parseTokenResponse resp, w1))"

definition Register :: "env \<Rightarrow> string \<Rightarrow> bytes \<Rightarrow> world \<Rightarrow> (cloud_error + string) \<times> world" where
  "Register e server body w = account_call e ''/auth/register'' server body w"

definition Login :: "env \<Rightarrow> string \<Rightarrow> bytes \<Rightarrow> world \<Rightarrow> (cloud_error + string) \<times> world" where
  "Login e server body w = account_call e ''/auth/login'' server body w"

definition CheckVerified :: "env \<Rightarrow> cloud_config \<Rightarrow> world \<Rightarrow> bool \<times> world" where
  "CheckVerified e cfg w =
     (if \<not> requireToken cfg then (False, w)
      else case NewRequest e cfg GET ''/auth/status'' [] of
        None \<Rightarrow> (False, w)
      | Some req \<Rightarrow>
          (case http_Do req w of
             (None, w1) \<Rightarrow> (False, w1)
           | (Some resp, w1) \<Rightarrow>
               if resp_Status resp \<noteq> 200 then (False, w1)
               else if \<not> readResponseBody resp then (False, w1)
               else (case resp_Verified resp of None \<Rightarrow> False | Some v \<Rightarrow> v, w1)))"

definition SaveCloud :: "cloud_config \<Rightarrow> world \<Rightarrow> bool \<times> world" where
  "SaveCloud cfg w = put_file CloudFile d_cloud d_cloud_update (Json cfg) w"

definition DeleteCloud :: "world \<Rightarrow> read_error option \<times> world" where
  "DeleteCloud w = os_Remove CloudFile d_cloud d_cloud_update w"

text \<open>
  \<^verbatim>\<open>checkRedirect\<close>: \<open>hosts\<close> and \<open>schemes\<close> are those of the requests made so far, the next request
  goes to \<open>host\<close> with \<open>scheme\<close>. None follows the redirect.
\<close>

datatype redirect_error = RedirectRefused | TooManyRedirects

definition checkRedirect :: "(string \<times> string) list \<Rightarrow> string \<times> string \<Rightarrow> redirect_error option" where
  "checkRedirect via next =
     (if snd next \<noteq> snd (hd via) \<or> fst (last via) = ''https'' \<and> fst next = ''http'' then Some RedirectRefused
      else if length via \<ge> 10 then Some TooManyRedirects
      else None)"

section \<open>What a request can do\<close>

text \<open>The requests a process has sent, as its trace records them.\<close>

definition sent :: "event list \<Rightarrow> http_request list" where
  "sent tr = List.map_filter (\<lambda>ev. case ev of Sent r \<Rightarrow> Some r | _ \<Rightarrow> None) tr"

lemma sent_simps [simp]:
  "sent [] = []" "sent (Sent r # tr) = r # sent tr"
  "(\<And>r. ev \<noteq> Sent r) \<Longrightarrow> sent (ev # tr) = sent tr"
  by (auto simp: sent_def map_filter_simps split: event.splits)

lemma sent_append [simp]: "sent (xs @ ys) = sent xs @ sent ys"
  by (simp add: sent_def List.map_filter_def)

end
