(* ===== verification/Sync_State.thy ===== *)
theory Sync_State
  imports Cloud_Client
begin

text \<open>
  The schedule and outcome record of synchronization (\<^verbatim>\<open>internal/synctransaction/state.go\<close>) and the
  bounded ledger of superseded remote identities (\<^verbatim>\<open>superseded.go\<close>).

  An error is the list of the sentinel errors that \<^verbatim>\<open>errors.Is\<close> finds in its chain.
\<close>

datatype sentinel =
    ErrConfiguration | ErrUnconfigured | ErrRefresh | ErrConflict | ErrEmptyLedgerDivergence
  | ErrPushNotSent | ErrPushRejected | ErrPushAmbiguous | ErrRemoteSuperseded
  | ErrBackgroundSkipped | ErrStreamRefresh | ErrStreamNotInitialized | ErrCloud cloud_error

type_synonym sync_err = "sentinel list"

text \<open>
  The transaction object: its options (whether a callback is installed), and the background claim it
  acts for.
\<close>

record sync_txn =
  tx_offline :: bool
  tx_masterPass :: string
  tx_invalidate :: bool
  tx_spawn :: bool
  tx_observe :: bool
  tx_claim :: string

section \<open>Schedule\<close>

definition backoffBase :: int where "backoffBase = 30 * second"
definition backoffCap :: int where "backoffCap = hour"
definition claimTTL :: int where "claimTTL = 2 * minute"
definition maxScheduleHorizon :: int where "maxScheduleHorizon = 30 * 24 * hour"
definition skippedRetryDelay :: int where "skippedRetryDelay = 30 * second"
definition maxErrorMessageBytes :: nat where "maxErrorMessageBytes = 300"

lemmas schedule_defs = backoffBase_def backoffCap_def claimTTL_def maxScheduleHorizon_def skippedRetryDelay_def
  duration_defs

definition empty_sync_state :: sync_state where
  "empty_sync_state =
     \<lparr>ss_LastAttemptAt = '''', ss_LastSuccessAt = '''', ss_NextAttemptAt = '''', ss_ConsecutiveFailures = 0,
      ss_LastError = None, ss_InFlightUntil = '''', ss_ClaimToken = ''''\<rparr>"

definition LoadSyncState :: "cfgdir \<Rightarrow> sync_state" where
  "LoadSyncState d = (case decode_json (d_state d) of None \<Rightarrow> empty_sync_state | Some s \<Rightarrow> s)"

definition saveSyncState :: "sync_state \<Rightarrow> world \<Rightarrow> bool \<times> world" where
  "saveSyncState s w = put_file SyncStateFile d_state d_state_update (Json s) w"

definition parseStateTime :: "env \<Rightarrow> string \<Rightarrow> int" where
  "parseStateTime e raw = (case e_parse_time e raw of None \<Rightarrow> 0 | Some t \<Rightarrow> t)"

text \<open>\<^verbatim>\<open>Time.Sub\<close> saturates at the range of a 64-bit duration.\<close>

definition time_sub :: "int \<Rightarrow> int \<Rightarrow> int" where
  "time_sub t u = max (- (2 ^ 63)) (min (2 ^ 63 - 1) (t - u))"

definition due :: "env \<Rightarrow> sync_state \<Rightarrow> int \<Rightarrow> bool" where
  "due e s now =
     (let next = parseStateTime e (ss_NextAttemptAt s);
          inFlight = parseStateTime e (ss_InFlightUntil s)
      in if next \<noteq> 0 \<and> now < next \<and> time_sub next now \<le> maxScheduleHorizon then False
         else if inFlight \<noteq> 0 \<and> now < inFlight \<and> time_sub inFlight now \<le> claimTTL then False
         else True)"

fun backoff_loop :: "nat \<Rightarrow> int \<Rightarrow> int" where
  "backoff_loop 0 delay = delay"
| "backoff_loop (Suc rounds) delay =
     (if 2 * delay \<ge> backoffCap then backoffCap else backoff_loop rounds (2 * delay))"

definition backoffDelay :: "int \<Rightarrow> int" where
  "backoffDelay failures = backoff_loop (nat ((if failures < 1 then 1 else failures) - 1)) backoffBase"

section \<open>State updates under the state lock\<close>

definition claimBackground :: "env \<Rightarrow> int \<Rightarrow> world \<Rightarrow> string option \<times> world" where
  "claimBackground e now w =
     (case AcquireFileLock w of
        (Some _, w1) \<Rightarrow> (None, w1)
      | (None, w1) \<Rightarrow>
          (let state = LoadSyncState (w_dir w1) in
           if \<not> due e state now then (None, w1)
           else case rand_Read 16 w1 of
             (None, w2) \<Rightarrow> (None, w2)
           | (Some raw, w2) \<Rightarrow>
               (let token = hex_encode raw;
                    state' = state\<lparr>ss_InFlightUntil := e_format_time e (now + claimTTL), ss_ClaimToken := token\<rparr>
                in case saveSyncState state' w2 of
                     (False, w3) \<Rightarrow> (None, w3)
                   | (True, w3) \<Rightarrow> (Some token, w3))))"

definition claimStillValid :: "sync_txn \<Rightarrow> cfgdir \<Rightarrow> bool" where
  "claimStillValid t d = (tx_claim t = '''' \<or> ss_ClaimToken (LoadSyncState d) = tx_claim t)"

definition mutateState :: "sync_txn \<Rightarrow> (sync_state \<Rightarrow> sync_state) \<Rightarrow> world \<Rightarrow> world" where
  "mutateState t f w =
     (case AcquireFileLock w of
        (Some _, w1) \<Rightarrow> w1
      | (None, w1) \<Rightarrow>
          (let state = LoadSyncState (w_dir w1) in
           if tx_claim t \<noteq> '''' \<and> ss_ClaimToken state \<noteq> tx_claim t then w1
           else snd (saveSyncState (f state) w1)))"

definition clear_claim :: "sync_state \<Rightarrow> sync_state" where
  "clear_claim s = s\<lparr>ss_InFlightUntil := '''', ss_ClaimToken := ''''\<rparr>"

definition releaseClaim :: "sync_txn \<Rightarrow> world \<Rightarrow> world" where
  "releaseClaim t w = mutateState t clear_claim w"

definition success_state :: "env \<Rightarrow> int \<Rightarrow> int \<Rightarrow> sync_state \<Rightarrow> sync_state" where
  "success_state e now interval s =
     clear_claim (s\<lparr>ss_LastAttemptAt := e_format_time e now, ss_LastSuccessAt := e_format_time e now,
       ss_NextAttemptAt := e_format_time e (now + interval), ss_ConsecutiveFailures := 0, ss_LastError := None\<rparr>)"

definition recordSuccess :: "env \<Rightarrow> sync_txn \<Rightarrow> world \<Rightarrow> world" where
  "recordSuccess e t w =
     (case clock_now w of
        (now, w1) \<Rightarrow>
          (let interval = EffectiveSyncInterval e (LoadSettings (w_dir w1))
           in mutateState t (success_state e now interval) w1))"

text \<open>Two's complement wrap-around of a 64-bit \<^verbatim>\<open>int\<close>.\<close>

definition wrap64 :: "int \<Rightarrow> int" where
  "wrap64 i = (i + 2 ^ 63) mod 2 ^ 64 - 2 ^ 63"

text \<open>\<^verbatim>\<open>truncateUTF8\<close>: the cut moves back over continuation bytes.\<close>

definition rune_start :: "char \<Rightarrow> bool" where
  "rune_start c = (of_char c div 64 \<noteq> (2 :: nat))"

fun utf8_cut :: "string \<Rightarrow> nat \<Rightarrow> nat" where
  "utf8_cut s 0 = 0"
| "utf8_cut s (Suc p) = (if \<not> rune_start (s ! Suc p) then utf8_cut s p else Suc p)"

definition truncateUTF8 :: "string \<Rightarrow> nat \<Rightarrow> string" where
  "truncateUTF8 s limit = (if length s \<le> limit then s else take (utf8_cut s limit) s)"

text \<open>\<open>describe\<close> is the injected classifier; an empty cause means that it does not know the error.\<close>

definition describeFailure :: "(sync_err \<Rightarrow> string \<times> string) \<Rightarrow> sync_err \<Rightarrow> string \<times> string" where
  "describeFailure describe err =
     (let described = describe err;
          (cause0, message0) = (if fst described \<noteq> '''' then described else (''unknown'', ''sync failed''));
          (cause, message) =
            (if ErrRemoteSuperseded \<in> set err then
               (''conflict'', ''remote vault is a version this machine already replaced (possible rollback); review, then pull --adopt-remote'')
             else if ErrConflict \<in> set err \<or> ErrEmptyLedgerDivergence \<in> set err then
               (''conflict'', ''local and remote vaults diverged'')
             else if ErrConfiguration \<in> set err then (''configuration'', ''sync configuration is invalid'')
             else (cause0, message0))
      in (cause, truncateUTF8 message maxErrorMessageBytes))"

definition failure_state :: "env \<Rightarrow> int \<Rightarrow> string \<Rightarrow> string \<Rightarrow> sync_state \<Rightarrow> sync_state" where
  "failure_state e now cause message s =
     (let stamp = e_format_time e now;
          failures = wrap64 (ss_ConsecutiveFailures s + 1)
      in clear_claim (s\<lparr>ss_LastAttemptAt := stamp, ss_ConsecutiveFailures := failures,
           ss_NextAttemptAt := e_format_time e (now + backoffDelay failures),
           ss_LastError := Some \<lparr>se_Cause = cause, se_Message = message, se_At = stamp\<rparr>\<rparr>))"

definition recordFailure :: "env \<Rightarrow> (sync_err \<Rightarrow> string \<times> string) \<Rightarrow> sync_txn \<Rightarrow> sync_err \<Rightarrow> world \<Rightarrow> world" where
  "recordFailure e describe t err w =
     (case clock_now w of
        (now, w1) \<Rightarrow>
          (let (cause, message) = describeFailure describe err
           in mutateState t (failure_state e now cause message) w1))"

definition skipped_state :: "env \<Rightarrow> int \<Rightarrow> sync_state \<Rightarrow> sync_state" where
  "skipped_state e now s = clear_claim (s\<lparr>ss_NextAttemptAt := e_format_time e (now + skippedRetryDelay)\<rparr>)"

definition RecordSkipped :: "env \<Rightarrow> sync_txn \<Rightarrow> world \<Rightarrow> world" where
  "RecordSkipped e t w = (case clock_now w of (now, w1) \<Rightarrow> mutateState t (skipped_state e now) w1)"

definition recordSkippedNotConfigured :: "sync_txn \<Rightarrow> world \<Rightarrow> world" where
  "recordSkippedNotConfigured t w = mutateState t clear_claim w"

text \<open>\<open>None\<close> is a confirmed success.\<close>

definition recordOutcome :: "env \<Rightarrow> (sync_err \<Rightarrow> string \<times> string) \<Rightarrow> sync_txn \<Rightarrow> sync_err option \<Rightarrow> world \<Rightarrow> world" where
  "recordOutcome e describe t err w =
     (if tx_offline t then w
      else case err of
        None \<Rightarrow> recordSuccess e t w
      | Some er \<Rightarrow> if ErrUnconfigured \<in> set er then w else recordFailure e describe t er w)"

text \<open>\<open>RemoteZero\<close> is the zero value.\<close>

datatype remote_state = RemoteZero | RemoteChecked | RemoteNotChecked | RemoteUnreachable | RemoteNotConfigured | RemoteAutoSyncDisabled

definition remoteStateFromState :: "sync_state \<Rightarrow> remote_state" where
  "remoteStateFromState s =
     (if (case ss_LastError s of None \<Rightarrow> False | Some er \<Rightarrow> se_Cause er \<noteq> ''conflict'') then RemoteUnreachable
      else if ss_LastSuccessAt s \<noteq> '''' \<or> ss_LastError s \<noteq> None then RemoteChecked
      else RemoteNotChecked)"

section \<open>Superseded identities\<close>

definition maxSuperseded :: nat where "maxSuperseded = 64"

definition loadSuperseded :: "cfgdir \<Rightarrow> string list" where
  "loadSuperseded d = (case decode_json (d_superseded d) of None \<Rightarrow> [] | Some ids \<Rightarrow> ids)"

fun keep_superseded :: "string \<Rightarrow> string list \<Rightarrow> string list \<Rightarrow> string list" where
  "keep_superseded next identities [] = identities"
| "keep_superseded next identities (i # is) =
     keep_superseded next (if i \<noteq> next \<and> i \<notin> set identities then identities @ [i] else identities) is"

definition superseded_ledger :: "string \<Rightarrow> string \<Rightarrow> string list \<Rightarrow> string list" where
  "superseded_ledger old next loaded =
     (let ids0 = keep_superseded next [] loaded;
          ids = (if old \<notin> set ids0 then ids0 @ [old] else ids0)
      in if length ids > maxSuperseded then drop (length ids - maxSuperseded) ids else ids)"

definition recordSuperseded :: "string \<Rightarrow> string \<Rightarrow> world \<Rightarrow> world" where
  "recordSuperseded old next w =
     (if old = '''' \<or> next = '''' \<or> old = next then w
      else case AcquireFileLock w of
        (Some _, w1) \<Rightarrow> w1
      | (None, w1) \<Rightarrow>
          snd (put_file SupersededFile d_superseded d_superseded_update
                 (Json (superseded_ledger old next (loadSuperseded (w_dir w1)))) w1))"

definition isSuperseded :: "string \<Rightarrow> cfgdir \<Rightarrow> bool" where
  "isSuperseded identity d = (identity \<noteq> '''' \<and> identity \<in> set (loadSuperseded d))"

definition clearSuperseded :: "world \<Rightarrow> world" where
  "clearSuperseded w = snd (os_Remove SupersededFile d_superseded d_superseded_update w)"

text \<open>The result is True when the reset succeeded.\<close>

definition ResetSyncState :: "world \<Rightarrow> bool \<times> world" where
  "ResetSyncState w =
     (if Lstat (d_state (w_dir w)) \<noteq> None \<and> Lstat (d_superseded (w_dir w)) \<noteq> None
          \<and> Lstat (d_generation (w_dir w)) \<noteq> None then (True, w)
      else case AcquireFileLock w of
        (Some _, w1) \<Rightarrow> (False, w1)
      | (None, w1) \<Rightarrow>
          (case AcquireFileLock w1 of
             (Some _, w2) \<Rightarrow> (False, w2)
           | (None, w2) \<Rightarrow>
               (case os_Remove SyncStateFile d_state d_state_update w2 of
                  (Some ReadErr, w3) \<Rightarrow> (False, w3)
                | (_, w3) \<Rightarrow> (True, ResetMaxSeenGeneration (clearSuperseded w3)))))"

section \<open>Lemmas on the schedule\<close>


lemma backoff_loop_eq:
  "0 < delay \<Longrightarrow> delay < backoffCap \<Longrightarrow> backoff_loop n delay = min backoffCap (delay * 2 ^ n)"
proof (induction n arbitrary: delay)
  case (Suc n)
  show ?case
  proof (cases "2 * delay \<ge> backoffCap")
    case True
    have "2 * delay * 1 \<le> 2 * delay * 2 ^ n" using Suc.prems by (intro mult_left_mono) auto
    with True have "backoffCap \<le> delay * 2 ^ Suc n" by simp
    with True show ?thesis by simp
  next
    case False
    with Suc show ?thesis by simp
  qed
qed simp

lemma keep_superseded_props:
  "distinct ids \<Longrightarrow> next \<notin> set ids \<Longrightarrow>
     distinct (keep_superseded next ids xs) \<and> set (keep_superseded next ids xs) = set ids \<union> (set xs - {next})"
  by (induction xs arbitrary: ids) auto

section \<open>Properties\<close>

text \<open>
  The retry delay after consecutive failures is exactly 30 seconds doubled for each further
  failure and capped at one hour; it lies between the two bounds and never shrinks with more
  failures, for every value of the counter.
\<close>

theorem backoff_exact:
  "backoffDelay failures = min hour (30 * second * 2 ^ nat (max 1 failures - 1))
   \<and> 30 * second \<le> backoffDelay failures \<and> backoffDelay failures \<le> hour
   \<and> (\<forall>k. failures \<le> k \<longrightarrow> backoffDelay failures \<le> backoffDelay k)"
proof -
  have eq: "backoffDelay k = min hour (30 * second * 2 ^ nat (max 1 k - 1))" for k
    unfolding backoffDelay_def by (subst backoff_loop_eq) (auto simp: schedule_defs max_def)
  have mono: "backoffDelay failures \<le> backoffDelay k" if "failures \<le> k" for k
  proof -
    have "(2 :: int) ^ nat (max 1 failures - 1) \<le> 2 ^ nat (max 1 k - 1)"
      using that by (intro power_increasing) auto
    then have "30 * second * 2 ^ nat (max 1 failures - 1) \<le> 30 * second * 2 ^ nat (max 1 k - 1)"
      by (intro mult_left_mono) (auto simp: duration_defs)
    then show ?thesis unfolding eq by (auto simp: min_def)
  qed
  have "(1 :: int) \<le> 2 ^ nat (max 1 failures - 1)" by simp
  then have "30 * second * 1 \<le> 30 * second * 2 ^ nat (max 1 failures - 1)"
    by (intro mult_left_mono) (auto simp: duration_defs)
  then have "30 * second \<le> backoffDelay failures" "backoffDelay failures \<le> hour"
    unfolding eq by (auto simp: duration_defs)
  with eq [of failures] mono show ?thesis by blast
qed

theorem backoff_exact_witness:
  "backoffDelay 3 = 120 * second \<and> backoffDelay 3 \<le> backoffDelay 10"
proof -
  have "\<forall>k \<ge> 3. backoffDelay 3 \<le> backoffDelay k" using backoff_exact [of 3] by blast
  then have "backoffDelay 3 \<le> backoffDelay 10" by (rule allE [of _ 10]) simp
  moreover have "backoffDelay 3 = 120 * second" using backoff_exact [of 3] by (simp add: duration_defs)
  ultimately show ?thesis by blast
qed

text \<open>
  At most one background process per claim: once a claim was granted at \<open>now\<close>, no further claim is
  granted until its time to live of two minutes is over (up to the second that the time stamp in
  the state file drops), the state file names the token of the granted claim, and only a process
  with that token may record an outcome or install a download.
\<close>

theorem claim_is_exclusive:
  assumes rfc3339: "\<And>t. 0 < t \<Longrightarrow> e_parse_time e (e_format_time e t) = Some (t - t mod second)"
    and "claimBackground e now w = (Some token, w')" and "0 < now" and "w_locks w' = []"
  shows "ss_ClaimToken (LoadSyncState (w_dir w')) = token
    \<and> (now \<le> later \<and> later + second \<le> now + claimTTL \<longrightarrow> claimBackground e later w' = (None, w'))
    \<and> (tx_claim t \<noteq> '''' \<and> tx_claim t \<noteq> token \<longrightarrow>
         \<not> claimStillValid t (w_dir w') \<and> mutateState t f w' = w')"
proof -
  obtain w2 state where save: "saveSyncState (state\<lparr>ss_InFlightUntil := e_format_time e (now + claimTTL), ss_ClaimToken := token\<rparr>) w2 = (True, w')"
    using assms(2) by (auto simp: claimBackground_def Let_def split: prod.splits option.splits if_splits bool.splits)
  define st where "st = state\<lparr>ss_InFlightUntil := e_format_time e (now + claimTTL), ss_ClaimToken := token\<rparr>"
  from save have "d_state (w_dir w') = File (Json st)"
    unfolding saveSyncState_def st_def by (rule put_file_result) simp
  then have load: "LoadSyncState (w_dir w') = st" by (simp add: LoadSyncState_def decode_json_def ReadFile_def)
  have "\<not> due e st later" if "now \<le> later" "later + second \<le> now + claimTTL"
  proof -
    define u where "u = now + claimTTL"
    have s: "0 < second" "0 < claimTTL" "second < claimTTL" "claimTTL < 2 ^ 63" by (simp_all add: schedule_defs)
    have "0 \<le> u mod second" "u mod second < second" using s by auto
    moreover have "parseStateTime e (ss_InFlightUntil st) = u - u mod second"
      using assms(3) s by (simp add: parseStateTime_def st_def rfc3339 u_def)
    moreover have "later + second \<le> u" using that by (simp add: u_def)
    moreover have "u - u mod second - later \<le> claimTTL" using that \<open>0 \<le> u mod second\<close> by (simp add: u_def)
    moreover have "later < u - u mod second" "u - u mod second \<noteq> 0"
      using calculation that assms(3) by linarith+
    ultimately show ?thesis
      using s that assms(3) by (simp add: due_def Let_def time_sub_def)
  qed
  then show ?thesis
    using load assms(4)
    by (auto simp: claimBackground_def AcquireFileLock_def claimStillValid_def mutateState_def st_def)
qed

theorem claim_is_exclusive_witness:
  "\<exists>token w'. claimBackground (demo_env []) second demo_world = (Some token, w')
     \<and> claimBackground (demo_env []) (5 * second) w' = (None, w')"
proof -
  have rfc3339: "e_parse_time (demo_env []) (e_format_time (demo_env []) t) = Some (t - t mod second)" if "0 < t" for t
    using that by (simp add: demo_env_def itoa_def digits_value_int_digits)
  let ?x = "claimBackground (demo_env []) second demo_world"
  have "fst ?x \<noteq> None" "w_locks (snd ?x) = []" by code_simp+
  then obtain token w' where x: "?x = (Some token, w')" "w_locks w' = []" by (cases ?x) auto
  from claim_is_exclusive [OF rfc3339 x(1) _ x(2), of "5 * second"] x(1) show ?thesis
    by (simp add: schedule_defs)
qed

text \<open>
  The ledger of superseded identities never names the identity that is current now, has no
  duplicates and at most 64 entries; starting from a ledger within its bound it names the identity
  just replaced, and while it is not full it forgets no identity that was replaced earlier.
\<close>

theorem superseded_ledger_spec:
  assumes "old \<noteq> next"
  shows "next \<notin> set (superseded_ledger old next loaded)
    \<and> distinct (superseded_ledger old next loaded) \<and> length (superseded_ledger old next loaded) \<le> maxSuperseded
    \<and> (length loaded \<le> maxSuperseded \<longrightarrow> old \<in> set (superseded_ledger old next loaded))
    \<and> (card (insert old (set loaded - {next})) \<le> maxSuperseded \<longrightarrow>
         set (superseded_ledger old next loaded) = insert old (set loaded - {next}))"
proof -
  define ids0 where "ids0 = keep_superseded next [] loaded"
  define ids where "ids = (if old \<notin> set ids0 then ids0 @ [old] else ids0)"
  have 0: "distinct ids0" "set ids0 = set loaded - {next}"
    using keep_superseded_props [of "[]" "next" loaded] by (auto simp: ids0_def)
  then have 1: "distinct ids" "set ids = insert old (set loaded - {next})"
    using assms by (auto simp: ids_def)
  have ledger: "superseded_ledger old next loaded = drop (length ids - maxSuperseded) ids"
    by (simp add: superseded_ledger_def Let_def ids_def ids0_def)
  have "old \<in> set (drop (length ids - maxSuperseded) ids)" if "length loaded \<le> maxSuperseded"
  proof (cases "old \<in> set ids0")
    case True
    have "length ids0 = card (set loaded - {next})" using 0 by (metis distinct_card)
    also have "\<dots> \<le> card (set loaded)" by (intro card_mono) auto
    also have "\<dots> \<le> length loaded" by (rule card_length)
    finally show ?thesis using True that by (simp add: ids_def)
  next
    case False
    then show ?thesis by (simp add: ids_def maxSuperseded_def)
  qed
  moreover have "set (drop (length ids - maxSuperseded) ids) = set ids"
    if "card (insert old (set loaded - {next})) \<le> maxSuperseded"
    using that 1 by (metis distinct_card diff_is_0_eq drop0)
  moreover have "next \<notin> set ids" using 1(2) assms by simp
  then have "next \<notin> set (drop (length ids - maxSuperseded) ids)" by (meson in_set_dropD)
  ultimately show ?thesis using 1 unfolding ledger by auto
qed

theorem superseded_ledger_spec_witness:
  "''a'' \<noteq> ''b'' \<and> ''a'' \<in> set (superseded_ledger ''a'' ''b'' [''c'', ''b''])
   \<and> ''b'' \<notin> set (superseded_ledger ''a'' ''b'' [''c'', ''b''])"
  using superseded_ledger_spec [of "''a''" "''b''" "[''c'', ''b'']"] by (simp add: maxSuperseded_def)

end
