(* ===== verification/Sync_Transaction.thy ===== *)
theory Sync_Transaction
  imports Sync_State
begin

text \<open>
  The synchronization transaction (\<^verbatim>\<open>internal/synctransaction/transaction.go\<close>, \<^verbatim>\<open>BackgroundSync\<close> of
  \<^verbatim>\<open>state.go\<close> and \<^verbatim>\<open>supersededError\<close> of \<^verbatim>\<open>superseded.go\<close>): refresh, pull, reviewed adoption, the
  publication steps, and the stream policy. It sees only opaque encrypted blobs.

  A lock is held until the operation returns; other processes act while a lock is awaited and while a
  request is in flight. The zone in which a time stamp is written is not distinguished.
\<close>

section \<open>Facts\<close>

text \<open>The constructors ending in \<open>Zero\<close> are the zero values of the string types.\<close>

datatype configuration_state =
    ConfigurationZero | ConfigurationOffline | ConfigurationUnconfigured | ConfigurationConfigured | ConfigurationInvalid

datatype freshness = FreshnessZero | FreshnessUnknown | FreshnessFresh | FreshnessCached | FreshnessLocalAhead

record facts =
  f_Configuration :: configuration_state
  f_Offline :: bool
  f_Freshness :: freshness
  f_Remote :: remote_state
  f_CacheAge :: int
  f_LastPull :: string
  f_LastPush :: string
  f_LastSync :: string
  f_LocalETag :: string
  f_RemoteETag :: string
  f_Conflict :: "sync_conflict option"
  f_Changed :: bool
  f_LastSuccess :: string
  f_NextAttempt :: string
  f_LastError :: "sync_error option"
  f_Stale :: bool
  f_Unsynced :: bool

definition zero_facts :: facts where
  "zero_facts =
     \<lparr>f_Configuration = ConfigurationZero, f_Offline = False, f_Freshness = FreshnessZero, f_Remote = RemoteZero,
      f_CacheAge = 0, f_LastPull = '''', f_LastPush = '''', f_LastSync = '''', f_LocalETag = '''',
      f_RemoteETag = '''', f_Conflict = None, f_Changed = False, f_LastSuccess = '''', f_NextAttempt = '''',
      f_LastError = None, f_Stale = False, f_Unsynced = False\<rparr>"

text \<open>A result with facts; the error is None for success.\<close>

type_synonym facts_result = "facts \<times> sync_err option"

record blob_identity =
  bi_Exists :: bool
  bi_Value :: string

definition no_blob :: blob_identity where "no_blob = \<lparr>bi_Exists = False, bi_Value = ''''\<rparr>"

definition identity_equal :: "blob_identity \<Rightarrow> blob_identity \<Rightarrow> bool" where
  "identity_equal i j = (bi_Exists i = bi_Exists j \<and> (\<not> bi_Exists i \<or> bi_Value i = bi_Value j))"

record prepared_publication =
  pp_Prerequisite :: blob_identity
  pp_Target :: string

section \<open>Local observations\<close>

definition opaqueIdentity :: "env \<Rightarrow> bytes \<Rightarrow> string" where
  "opaqueIdentity e blob = e_sha256 e blob"

definition PublicationTargetIdentity :: "env \<Rightarrow> bytes \<Rightarrow> string" where
  "PublicationTargetIdentity e blob = opaqueIdentity e blob"

definition cachedRemoteIdentity :: "cfgdir \<Rightarrow> string" where
  "cachedRemoteIdentity d = (case ReadFile (d_etag d) of Inl _ \<Rightarrow> '''' | Inr data \<Rightarrow> trim_space data)"

definition localOpaqueIdentity :: "env \<Rightarrow> cfgdir \<Rightarrow> string option" where
  "localOpaqueIdentity e d = (case ReadFile (d_vault d) of Inl _ \<Rightarrow> None | Inr data \<Rightarrow> Some (opaqueIdentity e data))"

definition preserveConflict :: "sync_conflict \<Rightarrow> world \<Rightarrow> bool \<times> world" where
  "preserveConflict c w = put_file ConflictFile d_conflict d_conflict_update (Json c) w"

definition loadConflict :: "cfgdir \<Rightarrow> sync_conflict option" where
  "loadConflict d = decode_json (d_conflict d)"

definition clearConflict :: "world \<Rightarrow> bool \<times> world" where
  "clearConflict w =
     (case os_Remove ConflictFile d_conflict d_conflict_update w of
        (Some ReadErr, w1) \<Rightarrow> (False, w1)
      | (_, w1) \<Rightarrow> (True, w1))"

definition publishingIntentPending :: "cfgdir \<Rightarrow> bool" where
  "publishingIntentPending d = (Lstat (d_intent d) = None)"

fun latest_time :: "env \<Rightarrow> int \<Rightarrow> string list \<Rightarrow> int" where
  "latest_time e latest [] = latest"
| "latest_time e latest (raw # raws) =
     latest_time e (case e_parse_time e raw of
                      None \<Rightarrow> latest
                    | Some parsed \<Rightarrow> if parsed > latest then parsed else latest) raws"

definition cacheAge :: "env \<Rightarrow> settings \<Rightarrow> int \<Rightarrow> string list \<Rightarrow> string \<times> int" where
  "cacheAge e s now confirmations =
     (let latest = latest_time e 0 ([set_LastPull s, set_LastPush s] @ confirmations) in
      if latest = 0 then ('''', 0)
      else
        (let age0 = time_sub now latest; age = (if age0 < 0 then 0 else age0)
         in (e_format_time e latest, age div second)))"

definition LocalFirst :: "env \<Rightarrow> cfgdir \<Rightarrow> bool" where
  "LocalFirst e d = (EffectiveSyncMode e (LoadSettings d) = SyncModeLocalFirst)"

definition recordExplicitOutcome :: "env \<Rightarrow> (sync_err \<Rightarrow> string \<times> string) \<Rightarrow> sync_txn \<Rightarrow> sync_err option \<Rightarrow> world \<Rightarrow> world" where
  "recordExplicitOutcome e describe t err w =
     (if tx_offline t \<or> \<not> LocalFirst e (w_dir w) then w else recordOutcome e describe t err w)"

definition configuration :: "env \<Rightarrow> sync_txn \<Rightarrow> cfgdir \<Rightarrow> cloud_config option \<times> configuration_state \<times> sync_err option" where
  "configuration e t d =
     (if tx_offline t then (None, ConfigurationOffline, None)
      else case ReadFile (d_cloud d) of
        Inl err \<Rightarrow>
          if err = NotExist \<and> Lstat (d_cloud d) = Some NotExist then (None, ConfigurationUnconfigured, None)
          else (None, ConfigurationInvalid, Some [ErrConfiguration])
      | Inr (Malformed _) \<Rightarrow> (None, ConfigurationInvalid, Some [ErrConfiguration])
      | Inr (Json cfg) \<Rightarrow>
          (case e_parse_url e (trim_space (cc_Server cfg)) of
             None \<Rightarrow> (None, ConfigurationInvalid, Some [ErrConfiguration])
           | Some (scheme, host) \<Rightarrow>
               if scheme \<noteq> ''http'' \<and> scheme \<noteq> ''https'' \<or> host = '''' \<or> trim_space (cc_Token cfg) = ''''
               then (None, ConfigurationInvalid, Some [ErrConfiguration])
               else (Some cfg, ConfigurationConfigured, None)))"

definition markOffline :: "facts \<Rightarrow> facts" where
  "markOffline f =
     f\<lparr>f_Configuration := ConfigurationOffline, f_Offline := True, f_Remote := RemoteNotChecked,
       f_Freshness := (if f_Freshness f = FreshnessFresh then FreshnessCached else f_Freshness f)\<rparr>"

definition local_facts_at :: "env \<Rightarrow> cfgdir \<Rightarrow> int \<Rightarrow> facts" where
  "local_facts_at e d now =
     (let settings = LoadSettings d;
          remote = cachedRemoteIdentity d;
          (lastSync, age) = cacheAge e settings now [];
          f = zero_facts\<lparr>f_Freshness := FreshnessUnknown, f_LastPull := set_LastPull settings,
                f_LastPush := set_LastPush settings, f_RemoteETag := remote, f_Conflict := loadConflict d,
                f_LastSync := lastSync, f_CacheAge := age\<rparr>
      in case localOpaqueIdentity e d of
           None \<Rightarrow> f
         | Some local \<Rightarrow>
             f\<lparr>f_LocalETag := local,
               f_Freshness := (if remote = '''' then FreshnessUnknown
                               else if local = remote then FreshnessFresh else FreshnessLocalAhead)\<rparr>)"

definition localFacts :: "env \<Rightarrow> world \<Rightarrow> facts \<times> world" where
  "localFacts e w = (case clock_now w of (now, w1) \<Rightarrow> (local_facts_at e (w_dir w1) now, w1))"

definition identityFacts :: "env \<Rightarrow> cfgdir \<Rightarrow> facts" where
  "identityFacts e d =
     zero_facts\<lparr>f_RemoteETag := cachedRemoteIdentity d, f_Conflict := loadConflict d,
       f_LocalETag := (case localOpaqueIdentity e d of None \<Rightarrow> '''' | Some local \<Rightarrow> local)\<rparr>"

definition InspectLocal :: "env \<Rightarrow> sync_txn \<Rightarrow> world \<Rightarrow> facts_result \<times> world" where
  "InspectLocal e t w =
     (case localFacts e w of
        (f0, w1) \<Rightarrow>
          (case configuration e t (w_dir w1) of
             (_, state, err) \<Rightarrow>
               (let f = f0\<lparr>f_Configuration := state, f_Offline := tx_offline t, f_Remote := RemoteNotChecked\<rparr>
                in ((case state of
                       ConfigurationOffline \<Rightarrow> markOffline f
                     | ConfigurationUnconfigured \<Rightarrow> f\<lparr>f_Remote := RemoteNotConfigured\<rparr>
                     | _ \<Rightarrow> f, err), w1))))"

section \<open>Recording a confirmed transfer\<close>

definition commitSuccess :: "env \<Rightarrow> string \<Rightarrow> string \<Rightarrow> uint64 list \<Rightarrow> world \<Rightarrow> world" where
  "commitSuccess e operation remoteIdentity generations w =
     (let w1 = (if remoteIdentity = '''' then w
            else
              (let wa = recordSuperseded (cachedRemoteIdentity (w_dir w)) remoteIdentity w;
                   generation = (case generations of
                       g # _ \<Rightarrow> Some g
                     | [] \<Rightarrow> (case ReadFile (d_vault (w_dir wa)) of
                                Inl _ \<Rightarrow> None
                              | Inr data \<Rightarrow> (case Generation data of (g, have_generation) \<Rightarrow> if have_generation then Some g else None)));
                   wb = (case generation of
                       None \<Rightarrow> wa
                     | Some g \<Rightarrow> if operation = ''adopt'' then SetMaxSeenGeneration g wa else RecordMaxSeenGeneration g wa)
               in snd (put_file RemoteEtagFile d_etag d_etag_update (remoteIdentity @ [CHR 0x0A]) wb)));
          w2 = snd (clearConflict w1);
          settings = LoadSettings (w_dir w2)
      in case clock_now w2 of
           (now, w3) \<Rightarrow>
             (let timestamp = e_format_time e now;
                  settings' = (if operation = ''pull'' \<or> operation = ''adopt'' then settings\<lparr>set_LastPull := timestamp\<rparr>
                               else if operation = ''push'' then settings\<lparr>set_LastPush := timestamp\<rparr>
                               else settings)
              in snd (SaveSettings settings' w3)))"

section \<open>Installing a downloaded vault\<close>

datatype pull_mode = pullRefresh | pullBackground | pullAdopt

definition lockVault :: "sync_txn \<Rightarrow> pull_mode \<Rightarrow> world \<Rightarrow> sync_err option \<times> world" where
  "lockVault t mode w =
     (case AcquireFileLock w of
        (Some _, w1) \<Rightarrow> (Some (if mode = pullBackground then [ErrBackgroundSkipped] else [ErrRefresh]), w1)
      | (None, w1) \<Rightarrow>
          if mode = pullBackground \<and> (publishingIntentPending (w_dir w1) \<or> \<not> claimStillValid t (w_dir w1))
          then (Some [ErrBackgroundSkipped], w1)
          else (None, w1))"

definition diverged :: "facts \<Rightarrow> string \<Rightarrow> bool" where
  "diverged f remote =
     (f_RemoteETag f \<noteq> '''' \<and> remote \<noteq> '''' \<and> remote \<noteq> f_RemoteETag f
      \<and> f_LocalETag f \<noteq> '''' \<and> f_LocalETag f \<noteq> f_RemoteETag f \<and> f_LocalETag f \<noteq> remote)"

definition divergedFor :: "pull_mode \<Rightarrow> facts \<Rightarrow> string \<Rightarrow> bool" where
  "divergedFor mode f remote =
     (diverged f remote
      \<or> mode = pullBackground \<and> f_RemoteETag f = '''' \<and> remote \<noteq> ''''
         \<and> f_LocalETag f \<noteq> '''' \<and> f_LocalETag f \<noteq> remote)"

definition conflictError :: "env \<Rightarrow> facts \<Rightarrow> string \<Rightarrow> world \<Rightarrow> facts_result \<times> world" where
  "conflictError e f remote w =
     (case clock_now w of
        (now, w1) \<Rightarrow>
          (let conflict = \<lparr>sc_DetectedAt = e_format_time e now, sc_LocalETag = f_LocalETag f,
                           sc_RemoteETag = remote, sc_CachedETag = f_RemoteETag f\<rparr>
           in case preserveConflict conflict w1 of
                (False, w2) \<Rightarrow> ((f, Some [ErrRefresh]), w2)
              | (True, w2) \<Rightarrow> ((f\<lparr>f_Conflict := Some conflict\<rparr>, Some [ErrConflict]), w2)))"

definition supersededError :: "env \<Rightarrow> facts \<Rightarrow> string \<Rightarrow> world \<Rightarrow> facts_result \<times> world" where
  "supersededError e f remote w =
     (case conflictError e f remote w of
        ((result, err), w1) \<Rightarrow>
          if (case err of None \<Rightarrow> False | Some er \<Rightarrow> ErrConflict \<in> set er)
          then ((result, Some [ErrRemoteSuperseded, ErrConflict]), w1)
          else ((result, err), w1))"

text \<open>The last part of \<^verbatim>\<open>installFetched\<close>: keep the previous vault, write the new one, record it.\<close>

definition replace_vault :: "env \<Rightarrow> sync_txn \<Rightarrow> bytes \<Rightarrow> string \<Rightarrow> pull_mode \<Rightarrow> facts \<Rightarrow> world \<Rightarrow> facts_result \<times> world" where
  "replace_vault e t data etag mode f w =
     (let (kept, w1) =
            (case Stat (d_vault (w_dir w)) of
               None \<Rightarrow>
                 (case ReadFile (d_vault (w_dir w)) of
                    Inl _ \<Rightarrow> (False, w)
                  | Inr previous \<Rightarrow> put_file PrevVaultFile d_prev d_prev_update previous w)
             | Some NotExist \<Rightarrow> (True, w)
             | Some ReadErr \<Rightarrow> (False, w))
      in if \<not> kept then ((f, Some [ErrRefresh]), w1)
         else case put_file VaultFile d_vault d_vault_update data w1 of
           (False, w2) \<Rightarrow> ((f, Some [ErrRefresh]), w2)
         | (True, w2) \<Rightarrow>
             (let w3 = (if tx_invalidate t then emit Invalidated w2 else w2);
                  operation = (if mode = pullAdopt then ''adopt'' else ''pull'');
                  w4 = commitSuccess e operation etag [fst (Generation data)] w3
              in case localFacts e w4 of
                   (f', w5) \<Rightarrow>
                     ((f'\<lparr>f_Configuration := ConfigurationConfigured, f_Changed := True, f_Remote := RemoteChecked\<rparr>,
                       None), w5)))"

definition stale_generation :: "bytes \<Rightarrow> cfgdir \<Rightarrow> bool" where
  "stale_generation data d =
     (case Generation data of (generation, ok) \<Rightarrow> ok \<and> generation < MaxSeenGeneration d)"

definition installFetched :: "env \<Rightarrow> sync_txn \<Rightarrow> bytes \<Rightarrow> string \<Rightarrow> pull_mode \<Rightarrow> world \<Rightarrow> facts_result \<times> world" where
  "installFetched e t data etag mode w =
     (case lockVault t mode w of
        (Some err, w1) \<Rightarrow> ((zero_facts, Some err), w1)
      | (None, w1) \<Rightarrow>
          (let d = w_dir w1;
               f = (identityFacts e d)\<lparr>f_Configuration := ConfigurationConfigured\<rparr>
           in if \<not> ValidBlob data then ((f, Some [ErrRefresh]), w1)
              else if mode \<noteq> pullAdopt \<and> stale_generation data d then supersededError e f etag w1
              else if mode \<noteq> pullBackground \<and> tx_masterPass t \<noteq> ''''
                      \<and> ValidateVaultBlob e data (tx_masterPass t) \<noteq> None
              then ((f, Some [ErrRefresh]), w1)
              else if mode = pullAdopt
                      \<and> (case f_Conflict f of None \<Rightarrow> True | Some c \<Rightarrow> f_LocalETag f \<noteq> sc_LocalETag c)
              then ((f, Some [ErrConflict]), w1)
              else if mode \<noteq> pullAdopt \<and> isSuperseded etag d then supersededError e f etag w1
              else if mode \<noteq> pullAdopt \<and> divergedFor mode f etag then conflictError e f etag w1
              else replace_vault e t data etag mode f w1))"

text \<open>
  \<^verbatim>\<open>applyRemoteIdentity\<close> has two stages. The first observes the body when this machine has a
  generation high-water mark, the second decides under the lock and downloads.
\<close>

definition decide_and_install :: "env \<Rightarrow> sync_txn \<Rightarrow> cloud_config \<Rightarrow> facts \<Rightarrow> string \<Rightarrow> pull_mode \<Rightarrow>
    (bytes \<times> string) option \<Rightarrow> world \<Rightarrow> facts_result \<times> world" where
  "decide_and_install e t cfg f remote mode fetched w =
     (let install = (\<lambda>w1.
            case fetched of
              Some (data, etag) \<Rightarrow> installFetched e t data etag mode w1
            | None \<Rightarrow>
                (case Fetch e cfg w1 of
                   (Inl err, w2) \<Rightarrow> ((f, Some [ErrRefresh, ErrCloud err]), w2)
                 | (Inr (data, etag), w2) \<Rightarrow> installFetched e t data etag mode w2))
      in if mode \<noteq> pullAdopt \<and> isSuperseded remote (w_dir w) \<or> divergedFor mode f remote then
           (case lockVault t mode w of
              (Some err, w1) \<Rightarrow> ((f, Some err), w1)
            | (None, w1) \<Rightarrow>
                (let current = (identityFacts e (w_dir w1))\<lparr>f_Configuration := f_Configuration f\<rparr> in
                 if mode \<noteq> pullAdopt \<and> isSuperseded remote (w_dir w1) then supersededError e current remote w1
                 else if divergedFor mode current remote then conflictError e current remote w1
                 else install w1))
         else install w)"

definition applyRemoteIdentity :: "env \<Rightarrow> sync_txn \<Rightarrow> cloud_config \<Rightarrow> facts \<Rightarrow> string \<Rightarrow> bool \<Rightarrow> pull_mode \<Rightarrow>
    world \<Rightarrow> facts_result \<times> world" where
  "applyRemoteIdentity e t cfg f0 remote forcePull mode w =
     (let f = f0\<lparr>f_Remote := RemoteChecked\<rparr> in
      if \<not> forcePull \<and> remote \<noteq> '''' \<and> remote = f_RemoteETag f then ((f, None), w)
      else if mode \<noteq> pullAdopt \<and> MaxSeenGeneration (w_dir w) > 0 then
        (case Fetch e cfg w of
           (Inl err, w1) \<Rightarrow> ((f, Some [ErrRefresh, ErrCloud err]), w1)
         | (Inr (data, etag), w1) \<Rightarrow>
             if stale_generation data (w_dir w1) then
               (case lockVault t mode w1 of
                  (Some err, w2) \<Rightarrow> ((f, Some err), w2)
                | (None, w2) \<Rightarrow>
                    supersededError e ((identityFacts e (w_dir w2))\<lparr>f_Configuration := f_Configuration f\<rparr>) etag w2)
             else decide_and_install e t cfg f etag mode (Some (data, etag)) w1)
      else decide_and_install e t cfg f remote mode None w)"

definition refreshConfigured :: "env \<Rightarrow> sync_txn \<Rightarrow> cloud_config \<Rightarrow> facts \<Rightarrow> bool \<Rightarrow> world \<Rightarrow> facts_result \<times> world" where
  "refreshConfigured e t cfg f forcePull w =
     (case RemoteETag e cfg w of
        (Inl err, w1) \<Rightarrow> ((f, Some [ErrRefresh, ErrCloud err]), w1)
      | (Inr remote, w1) \<Rightarrow> applyRemoteIdentity e t cfg f remote forcePull pullRefresh w1)"

section \<open>Refresh, sync and pull\<close>

definition decorateLocalFirst :: "env \<Rightarrow> facts \<Rightarrow> settings \<Rightarrow> sync_state \<Rightarrow> world \<Rightarrow> facts \<times> world" where
  "decorateLocalFirst e f settings state w =
     (case clock_now w of
        (now, w1) \<Rightarrow>
          (let (lastSync, age) = cacheAge e settings now [ss_LastSuccessAt state]
           in (f\<lparr>f_Remote := remoteStateFromState state, f_LastSuccess := ss_LastSuccessAt state,
                 f_NextAttempt := ss_NextAttemptAt state, f_LastError := ss_LastError state,
                 f_LastSync := lastSync, f_CacheAge := age, f_Unsynced := (lastSync = ''''),
                 f_Stale := (lastSync \<noteq> '''' \<and> age * second > EffectiveStaleAfter e settings)\<rparr>, w1)))"

text \<open>The callback that starts the detached process; False when it fails.\<close>

definition spawn :: "string \<Rightarrow> world \<Rightarrow> bool \<times> world" where
  "spawn token w =
     (let ok = (case w_spawns w of [] \<Rightarrow> True | r # _ \<Rightarrow> r)
      in (ok, emit (Spawned token) (w\<lparr>w_spawns := tl (w_spawns w)\<rparr>)))"

definition refreshLocalFirst :: "env \<Rightarrow> sync_txn \<Rightarrow> facts \<Rightarrow> settings \<Rightarrow> world \<Rightarrow> facts \<times> world" where
  "refreshLocalFirst e t f settings w =
     (case clock_now w of
        (now, w1) \<Rightarrow>
          (let state = LoadSyncState (w_dir w1) in
           if \<not> tx_spawn t \<or> \<not> due e state now then decorateLocalFirst e f settings state w1
           else
             (let w3 = (case claimBackground e now w1 of
                    (None, w2) \<Rightarrow> w2
                  | (Some token, w2) \<Rightarrow>
                      (case spawn token w2 of (True, w3) \<Rightarrow> w3 | (False, w3) \<Rightarrow> releaseClaim t w3))
              in decorateLocalFirst e f settings (LoadSyncState (w_dir w3)) w3)))"

definition refresh :: "env \<Rightarrow> sync_txn \<Rightarrow> bool \<Rightarrow> world \<Rightarrow> facts_result \<times> world" where
  "refresh e t explicit w =
     (case localFacts e w of
        (f0, w1) \<Rightarrow>
          (case configuration e t (w_dir w1) of
             (cfg, state, err) \<Rightarrow>
               (let f = f0\<lparr>f_Configuration := state, f_Offline := tx_offline t\<rparr> in
                if err \<noteq> None then ((f, err), w1)
                else if state = ConfigurationOffline then ((markOffline f, None), w1)
                else if state = ConfigurationUnconfigured then
                  ((f\<lparr>f_Remote := RemoteNotConfigured\<rparr>, if explicit then Some [ErrUnconfigured] else None), w1)
                else
                  (let settings = LoadSettings (w_dir w1) in
                   if \<not> explicit \<and> \<not> set_AutoSync settings then ((f\<lparr>f_Remote := RemoteAutoSyncDisabled\<rparr>, None), w1)
                   else if \<not> explicit \<and> EffectiveSyncMode e settings = SyncModeLocalFirst then
                     (case refreshLocalFirst e t f settings w1 of (f', w2) \<Rightarrow> ((f', None), w2))
                   else refreshConfigured e t (the cfg) f False w1))))"

definition Refresh :: "env \<Rightarrow> sync_txn \<Rightarrow> world \<Rightarrow> facts_result \<times> world" where
  "Refresh e t w =
     (case refresh e t False w of
        ((f, err), w1) \<Rightarrow> ((f, err), if err = None \<and> tx_observe t then emit Observed w1 else w1))"

definition Sync :: "env \<Rightarrow> (sync_err \<Rightarrow> string \<times> string) \<Rightarrow> sync_txn \<Rightarrow> world \<Rightarrow> facts_result \<times> world" where
  "Sync e describe t w =
     (case refresh e t True w of ((f, err), w1) \<Rightarrow> ((f, err), recordExplicitOutcome e describe t err w1))"

definition pull :: "env \<Rightarrow> sync_txn \<Rightarrow> world \<Rightarrow> facts_result \<times> world" where
  "pull e t w =
     (case localFacts e w of
        (f0, w1) \<Rightarrow>
          (case configuration e t (w_dir w1) of
             (cfg, state, err) \<Rightarrow>
               (let f = f0\<lparr>f_Configuration := state, f_Offline := tx_offline t\<rparr> in
                if err \<noteq> None then ((f, err), w1)
                else if state = ConfigurationOffline then ((markOffline f, Some [ErrUnconfigured]), w1)
                else if state = ConfigurationUnconfigured then
                  ((f\<lparr>f_Remote := RemoteNotConfigured\<rparr>, Some [ErrUnconfigured]), w1)
                else refreshConfigured e t (the cfg) f True w1)))"

definition Pull :: "env \<Rightarrow> (sync_err \<Rightarrow> string \<times> string) \<Rightarrow> sync_txn \<Rightarrow> world \<Rightarrow> facts_result \<times> world" where
  "Pull e describe t w =
     (case pull e t w of ((f, err), w1) \<Rightarrow> ((f, err), recordExplicitOutcome e describe t err w1))"

definition Facts :: "env \<Rightarrow> sync_txn \<Rightarrow> world \<Rightarrow> facts \<times> world" where
  "Facts e t w =
     (case localFacts e w of
        (f0, w1) \<Rightarrow>
          (case configuration e t (w_dir w1) of
             (_, state, _) \<Rightarrow>
               (let f = f0\<lparr>f_Configuration := state, f_Offline := tx_offline t\<rparr>;
                    settings = LoadSettings (w_dir w1);
                    localFirst = (EffectiveSyncMode e settings = SyncModeLocalFirst)
                in case state of
                     ConfigurationOffline \<Rightarrow> (markOffline f, w1)
                   | ConfigurationUnconfigured \<Rightarrow> (f\<lparr>f_Remote := RemoteNotConfigured\<rparr>, w1)
                   | ConfigurationConfigured \<Rightarrow>
                       if \<not> set_AutoSync settings then
                         (if localFirst then
                            (case decorateLocalFirst e (f\<lparr>f_Remote := RemoteAutoSyncDisabled\<rparr>) settings (LoadSyncState (w_dir w1)) w1 of
                               (f', w2) \<Rightarrow> (f'\<lparr>f_Remote := RemoteAutoSyncDisabled\<rparr>, w2))
                          else (f\<lparr>f_Remote := RemoteAutoSyncDisabled\<rparr>, w1))
                       else if localFirst then decorateLocalFirst e f settings (LoadSyncState (w_dir w1)) w1
                       else (f\<lparr>f_Remote := RemoteChecked\<rparr>, w1)
                   | ConfigurationInvalid \<Rightarrow> (f\<lparr>f_Remote := RemoteNotChecked\<rparr>, w1)
                   | ConfigurationZero \<Rightarrow> (f, w1))))"

definition BackgroundSync :: "env \<Rightarrow> (sync_err \<Rightarrow> string \<times> string) \<Rightarrow> sync_txn \<Rightarrow> string \<Rightarrow> world \<Rightarrow>
    sync_err option \<times> world" where
  "BackgroundSync e describe t0 claim w =
     (if tx_offline t0 then (None, w)
      else
        (let t = t0\<lparr>tx_claim := claim\<rparr> in
         if \<not> claimStillValid t (w_dir w) then (None, w)
         else case configuration e t (w_dir w) of
           (cfg, state, Some err) \<Rightarrow> (Some err, recordFailure e describe t err w)
         | (cfg, state, None) \<Rightarrow>
             if state \<noteq> ConfigurationConfigured \<or> \<not> set_AutoSync (LoadSettings (w_dir w))
             then (None, recordSkippedNotConfigured t w)
             else (case RemoteETag e (the cfg) w of
                (Inl cerr, w1) \<Rightarrow>
                  (let err = [ErrRefresh, ErrCloud cerr] in (Some err, recordFailure e describe t err w1))
              | (Inr remote, w1) \<Rightarrow>
                  (case localFacts e w1 of
                     (f, w2) \<Rightarrow>
                       (case applyRemoteIdentity e t (the cfg) (f\<lparr>f_Configuration := state\<rparr>) remote False pullBackground w2 of
                          ((_, None), w3) \<Rightarrow> (None, recordSuccess e t w3)
                        | ((_, Some err), w3) \<Rightarrow>
                            if ErrBackgroundSkipped \<in> set err then (None, RecordSkipped e t w3)
                            else (Some err, recordFailure e describe t err w3))))))"

section \<open>Publication steps and adoption\<close>

definition CachedPublicationPrerequisite :: "cfgdir \<Rightarrow> sync_err + blob_identity" where
  "CachedPublicationPrerequisite d =
     (let cached = cachedRemoteIdentity d in
      if cached \<noteq> '''' \<and> \<not> identity_pattern cached then Inl [ErrRefresh]
      else Inr \<lparr>bi_Exists = (cached \<noteq> ''''), bi_Value = cached\<rparr>)"

definition ObservePublicationIdentity :: "env \<Rightarrow> sync_txn \<Rightarrow> world \<Rightarrow> (sync_err + blob_identity) \<times> world" where
  "ObservePublicationIdentity e t w =
     (case configuration e t (w_dir w) of
        (cfg, state, Some err) \<Rightarrow> (Inl err, w)
      | (cfg, state, None) \<Rightarrow>
          if state \<noteq> ConfigurationConfigured then (Inl [ErrUnconfigured], w)
          else (case InspectRemoteBlob e (the cfg) w of
             (Inl cerr, w1) \<Rightarrow> (Inl [ErrRefresh, ErrCloud cerr], w1)
           | (Inr remote, w1) \<Rightarrow>
               if rb_Exists remote \<and> \<not> identity_pattern (rb_Value remote) then (Inl [ErrRefresh], w1)
               else (Inr \<lparr>bi_Exists = rb_Exists remote, bi_Value = rb_Value remote\<rparr>, w1)))"

definition RemoteIdentity :: "env \<Rightarrow> sync_txn \<Rightarrow> world \<Rightarrow> (sync_err + string) \<times> world" where
  "RemoteIdentity e t w =
     (case configuration e t (w_dir w) of
        (cfg, state, Some err) \<Rightarrow> (Inl err, w)
      | (cfg, state, None) \<Rightarrow>
          if state \<noteq> ConfigurationConfigured then (Inl [ErrUnconfigured], w)
          else (case RemoteETag e (the cfg) w of
             (Inl cerr, w1) \<Rightarrow> (Inl [ErrRefresh, ErrCloud cerr], w1)
           | (Inr etag, w1) \<Rightarrow> (Inr etag, w1)))"

definition VerifyEmptyPublication :: "env \<Rightarrow> sync_txn \<Rightarrow> world \<Rightarrow> sync_err option \<times> world" where
  "VerifyEmptyPublication e t w =
     (case localOpaqueIdentity e (w_dir w) of
        None \<Rightarrow> (Some [ErrRefresh], w)
      | Some local \<Rightarrow>
          (case CachedPublicationPrerequisite (w_dir w) of
             Inl err \<Rightarrow> (Some err, w)
           | Inr cached \<Rightarrow>
               (case ObservePublicationIdentity e t w of
                  (Inl err, w1) \<Rightarrow> (Some err, w1)
                | (Inr remote, w1) \<Rightarrow>
                    if bi_Exists cached \<and> bi_Exists remote \<and> local = bi_Value cached \<and> local = bi_Value remote
                    then (None, w1)
                    else (case clock_now w1 of
                      (now, w2) \<Rightarrow>
                        (case preserveConflict
                                \<lparr>sc_DetectedAt = e_format_time e now, sc_LocalETag = local,
                                 sc_RemoteETag = (if bi_Exists remote then bi_Value remote else ''''),
                                 sc_CachedETag = (if bi_Exists cached then bi_Value cached else '''')\<rparr> w2 of
                           (False, w3) \<Rightarrow> (Some [ErrRefresh], w3)
                         | (True, w3) \<Rightarrow> (Some [ErrEmptyLedgerDivergence], w3))))))"

definition AdoptRemote :: "env \<Rightarrow> sync_txn \<Rightarrow> blob_identity \<Rightarrow> world \<Rightarrow> facts_result \<times> world" where
  "AdoptRemote e t expected w =
     (case localFacts e w of
        (f0, w1) \<Rightarrow>
          (case configuration e t (w_dir w1) of
             (cfg, state, err) \<Rightarrow>
               (let f = f0\<lparr>f_Configuration := state, f_Offline := tx_offline t\<rparr> in
                if err \<noteq> None then ((f, err), w1)
                else if state \<noteq> ConfigurationConfigured \<or> \<not> bi_Exists expected \<or> \<not> identity_pattern (bi_Value expected)
                then ((f, Some [ErrConflict]), w1)
                else if (case loadConflict (w_dir w1) of None \<Rightarrow> True | Some c \<Rightarrow> sc_RemoteETag c \<noteq> bi_Value expected)
                then ((f, Some [ErrConflict]), w1)
                else (case ObservePublicationIdentity e t w1 of
                  (Inl _, w2) \<Rightarrow> ((f, Some [ErrConflict]), w2)
                | (Inr observed, w2) \<Rightarrow>
                    if \<not> identity_equal observed expected then ((f, Some [ErrConflict]), w2)
                    else (case FetchExpected e (the cfg) (bi_Value expected) w2 of
                      (Inl _, w3) \<Rightarrow> ((f, Some [ErrConflict]), w3)
                    | (Inr (data, committed), w3) \<Rightarrow> installFetched e t data committed pullAdopt w3)))))"

definition preflight_publication :: "env \<Rightarrow> sync_txn \<Rightarrow> bytes \<Rightarrow> world \<Rightarrow> (sync_err + prepared_publication) \<times> world" where
  "preflight_publication e t blob w =
     (case localFacts e w of
        (f, w1) \<Rightarrow>
          (case configuration e t (w_dir w1) of
             (cfg, state, Some err) \<Rightarrow> (Inl err, w1)
           | (cfg, state, None) \<Rightarrow>
               if state \<noteq> ConfigurationConfigured then (Inl [ErrUnconfigured], w1)
               else
                 (let target = opaqueIdentity e blob in
                  case InspectRemoteBlob e (the cfg) w1 of
                    (Inl cerr, w2) \<Rightarrow> (Inl [ErrRefresh, ErrCloud cerr], w2)
                  | (Inr remote, w2) \<Rightarrow>
                      (let prerequisite = \<lparr>bi_Exists = rb_Exists remote, bi_Value = rb_Value remote\<rparr> in
                       if bi_Exists prerequisite \<and> \<not> identity_pattern (bi_Value prerequisite) then (Inl [ErrRefresh], w2)
                       else if f_RemoteETag f \<noteq> '''' \<and> \<not> identity_pattern (f_RemoteETag f) then (Inl [ErrRefresh], w2)
                       else if f_RemoteETag f \<noteq> '''' then
                         (if \<not> bi_Exists prerequisite then (Inl [ErrRefresh], w2)
                          else if bi_Value prerequisite \<noteq> f_RemoteETag f then
                            (case clock_now w2 of
                               (now, w3) \<Rightarrow>
                                 (case preserveConflict
                                         \<lparr>sc_DetectedAt = e_format_time e now, sc_LocalETag = target,
                                          sc_RemoteETag = bi_Value prerequisite, sc_CachedETag = f_RemoteETag f\<rparr> w3 of
                                    (False, w4) \<Rightarrow> (Inl [ErrRefresh], w4)
                                  | (True, w4) \<Rightarrow> (Inl [ErrConflict], w4)))
                          else (Inr \<lparr>pp_Prerequisite = prerequisite, pp_Target = target\<rparr>, w2))
                       else if bi_Exists prerequisite then (Inl [ErrRefresh], w2)
                       else (Inr \<lparr>pp_Prerequisite = prerequisite, pp_Target = target\<rparr>, w2)))))"

text \<open>The deferred function records every failure but a missing configuration.\<close>

definition PreparePublication :: "env \<Rightarrow> (sync_err \<Rightarrow> string \<times> string) \<Rightarrow> sync_txn \<Rightarrow> bytes \<Rightarrow> world \<Rightarrow>
    (sync_err + prepared_publication) \<times> world" where
  "PreparePublication e describe t blob w =
     (case preflight_publication e t blob w of
        (Inl err, w1) \<Rightarrow>
          (Inl err, if ErrUnconfigured \<in> set err then w1 else recordExplicitOutcome e describe t (Some err) w1)
      | (Inr prepared, w1) \<Rightarrow> (Inr prepared, w1))"

definition preservePublicationConflict :: "env \<Rightarrow> prepared_publication \<Rightarrow> blob_identity \<Rightarrow> world \<Rightarrow> bool \<times> world" where
  "preservePublicationConflict e prepared remote w =
     (case clock_now w of
        (now, w1) \<Rightarrow>
          preserveConflict
            \<lparr>sc_DetectedAt = e_format_time e now, sc_LocalETag = pp_Target prepared,
             sc_RemoteETag = (if bi_Exists remote then bi_Value remote else ''''),
             sc_CachedETag = (if bi_Exists (pp_Prerequisite prepared) then bi_Value (pp_Prerequisite prepared) else '''')\<rparr> w1)"

text \<open>A push error as seen by the caller's \<^verbatim>\<open>errors.Is\<close>.\<close>

fun push_error_chain :: "push_error \<Rightarrow> sync_err" where
  "push_error_chain PushMissingToken = [ErrCloud MissingTokenError]"
| "push_error_chain (PushFailed failure) = [ErrCloud (pf_err failure)]"

text \<open>The part of \<^verbatim>\<open>SendPublication\<close> after the request returned.\<close>

definition settle_push :: "env \<Rightarrow> sync_txn \<Rightarrow> prepared_publication \<Rightarrow> blob_identity \<Rightarrow> push_error + string \<times> bool \<Rightarrow> world \<Rightarrow>
    (blob_identity \<times> sync_err option) \<times> world" where
  "settle_push e t prepared current outcome w =
     (case outcome of
        Inl err \<Rightarrow>
          if PushFailureIsConflict err then
            (case ObservePublicationIdentity e t w of
               (observed, w1) \<Rightarrow>
                 (let remote = (case observed of Inl _ \<Rightarrow> current | Inr r \<Rightarrow> r)
                  in ((remote, Some [ErrConflict]), snd (preservePublicationConflict e prepared remote w1))))
          else if PushFailureIsExplicit err then ((no_blob, Some (ErrPushRejected # push_error_chain err)), w)
          else if PushFailureIsAmbiguous err then ((no_blob, Some (ErrPushAmbiguous # push_error_chain err)), w)
          else ((no_blob, Some (ErrPushNotSent # push_error_chain err)), w)
      | Inr (identity, observed) \<Rightarrow>
          (let (committed, w1) =
                 (if \<not> observed \<or> \<not> identity_pattern identity then ObservePublicationIdentity e t w
                  else (Inr \<lparr>bi_Exists = True, bi_Value = identity\<rparr>, w))
           in case committed of
                Inl _ \<Rightarrow> ((no_blob, Some [ErrPushAmbiguous]), w1)
              | Inr c \<Rightarrow>
                  if \<not> identity_equal c \<lparr>bi_Exists = True, bi_Value = pp_Target prepared\<rparr>
                  then ((c, Some [ErrConflict]), snd (preservePublicationConflict e prepared c w1))
                  else ((c, None), w1)))"

definition send_publication :: "env \<Rightarrow> sync_txn \<Rightarrow> bytes \<Rightarrow> prepared_publication \<Rightarrow> world \<Rightarrow>
    (blob_identity \<times> sync_err option) \<times> world" where
  "send_publication e t blob prepared w =
     (if opaqueIdentity e blob \<noteq> pp_Target prepared then ((no_blob, Some [ErrPushNotSent]), w)
      else case ObservePublicationIdentity e t w of
        (Inl err, w1) \<Rightarrow> ((no_blob, Some (ErrPushNotSent # err)), w1)
      | (Inr current, w1) \<Rightarrow>
          if identity_equal current \<lparr>bi_Exists = True, bi_Value = pp_Target prepared\<rparr> then ((current, None), w1)
          else if \<not> identity_equal current (pp_Prerequisite prepared)
          then ((current, Some [ErrConflict]), snd (preservePublicationConflict e prepared current w1))
          else (case configuration e t (w_dir w1) of
             (cfg, state, Some err) \<Rightarrow> ((no_blob, Some [ErrPushNotSent]), w1)
           | (cfg, state, None) \<Rightarrow>
               if state \<noteq> ConfigurationConfigured then ((no_blob, Some [ErrPushNotSent]), w1)
               else (case PushBlobObserved e (the cfg) blob
                        \<lparr>rb_Exists = bi_Exists (pp_Prerequisite prepared), rb_Value = bi_Value (pp_Prerequisite prepared)\<rparr> w1 of
                 (outcome, w2) \<Rightarrow> settle_push e t prepared current outcome w2)))"

text \<open>The deferred function records every failure.\<close>

definition SendPublication :: "env \<Rightarrow> (sync_err \<Rightarrow> string \<times> string) \<Rightarrow> sync_txn \<Rightarrow> bytes \<Rightarrow> prepared_publication \<Rightarrow> world \<Rightarrow>
    (blob_identity \<times> sync_err option) \<times> world" where
  "SendPublication e describe t blob prepared w =
     (case send_publication e t blob prepared w of
        ((identity, err), w1) \<Rightarrow>
          ((identity, err), if err = None then w1 else recordExplicitOutcome e describe t err w1))"

definition ConfirmPublication :: "env \<Rightarrow> (sync_err \<Rightarrow> string \<times> string) \<Rightarrow> sync_txn \<Rightarrow> string \<Rightarrow> world \<Rightarrow> world" where
  "ConfirmPublication e describe t target w =
     recordExplicitOutcome e describe t None (commitSuccess e ''push'' target [] w)"

section \<open>Streams\<close>

record stream =
  st_interval :: int
  st_nextRefresh :: int
  st_initialized :: bool
  st_baseline :: string
  st_baselineSet :: bool

definition BeginStream :: "sync_txn \<Rightarrow> int \<Rightarrow> stream option" where
  "BeginStream t interval =
     (if interval < 0 \<or> \<not> tx_offline t \<and> interval = 0 then None
      else Some \<lparr>st_interval = interval, st_nextRefresh = 0, st_initialized = False, st_baseline = '''',
                 st_baselineSet = False\<rparr>)"

definition stream_refresh :: "env \<Rightarrow> sync_txn \<Rightarrow> stream \<Rightarrow> world \<Rightarrow> facts_result \<times> stream \<times> world" where
  "stream_refresh e t s w =
     (case Refresh e t w of
        ((f, Some err), w1) \<Rightarrow> ((f, Some err), s, w1)
      | ((f, None), w1) \<Rightarrow>
          (let (f', s', w2) =
                 (if LocalFirst e (w_dir w1) then
                    (case localOpaqueIdentity e (w_dir w1) of
                       None \<Rightarrow> (f, s, w1)
                     | Some identity \<Rightarrow>
                         (let changed = (st_baselineSet s \<and> identity \<noteq> st_baseline s \<and> \<not> f_Changed f)
                          in (if changed then f\<lparr>f_Changed := True\<rparr> else f,
                              s\<lparr>st_baseline := identity, st_baselineSet := True\<rparr>,
                              if changed \<and> tx_invalidate t then emit Invalidated w1 else w1)))
                  else (f, s, w1))
           in case clock_now w2 of
                (now, w3) \<Rightarrow> ((f', None), s'\<lparr>st_nextRefresh := now + st_interval s'\<rparr>, w3)))"

definition Initialize :: "env \<Rightarrow> sync_txn \<Rightarrow> stream \<Rightarrow> world \<Rightarrow> facts_result \<times> stream \<times> world" where
  "Initialize e t s w =
     (if st_initialized s then ((zero_facts, Some [ErrStreamNotInitialized]), s, w)
      else
        (let s' = s\<lparr>st_initialized := True\<rparr> in
         if tx_offline t then
           ((zero_facts\<lparr>f_Configuration := ConfigurationOffline, f_Offline := True, f_Freshness := FreshnessCached,
               f_Remote := RemoteNotChecked\<rparr>, None), s', w)
         else stream_refresh e t s' w))"

definition BeforeLine :: "env \<Rightarrow> sync_txn \<Rightarrow> stream \<Rightarrow> world \<Rightarrow> facts_result \<times> stream \<times> world" where
  "BeforeLine e t s w =
     (if \<not> st_initialized s then ((zero_facts, Some [ErrStreamNotInitialized]), s, w)
      else if tx_offline t then ((zero_facts, None), s, w)
      else case clock_now w of
        (now, w1) \<Rightarrow> if now < st_nextRefresh s then ((zero_facts, None), s, w1) else stream_refresh e t s w1)"

end
