(* ===== verification/Sync_Safety.thy ===== *)
theory Sync_Safety
  imports Sync_Transaction
begin

text \<open>
  Safety of synchronization: which files an operation replaces, which requests it sends and in which
  state of the directory. \<open>emits P w w'\<close> says that the step from \<open>w\<close> to \<open>w'\<close> adds only events that
  satisfy \<open>P\<close> to the trace; one lemma per operation composes to statements about whole commands.
\<close>

section \<open>Traces\<close>

definition emits :: "(event \<Rightarrow> bool) \<Rightarrow> world \<Rightarrow> world \<Rightarrow> bool" where
  "emits P w w' = (\<exists>evs. w_trace w' = w_trace w @ evs \<and> list_all P evs)"

lemma emits_refl [simp]: "emits P w w"
  by (simp add: emits_def)

lemma emits_same: "w_trace w' = w_trace w \<Longrightarrow> emits P w w'"
  by (simp add: emits_def)

lemma emits_trans [trans]: "emits P w w' \<Longrightarrow> emits P w' w'' \<Longrightarrow> emits P w w''"
  by (auto simp: emits_def)

lemma emits_mono: "emits P w w' \<Longrightarrow> (\<And>ev. P ev \<Longrightarrow> Q ev) \<Longrightarrow> emits Q w w'"
  by (auto simp: emits_def list_all_iff)

lemma emits_emit: "P ev \<Longrightarrow> emits P w (emit ev w)"
  by (simp add: emits_def)

text \<open>
  Events by what they may touch: the files outside the vault, the requests, and for the
  vault file a relation between the directory before and after the write.
\<close>

fun allowed :: "fname set \<Rightarrow> (http_request \<Rightarrow> bool) \<Rightarrow> (cfgdir \<Rightarrow> cfgdir \<Rightarrow> bool) \<Rightarrow> event \<Rightarrow> bool" where
  "allowed F M V (Wrote n d d') = (n \<in> F \<or> n = VaultFile \<and> V d d')"
| "allowed F M V (Removed n) = (n \<in> F)"
| "allowed F M V (Sent r) = M r"
| "allowed F M V (Received r) = True"
| "allowed F M V (Spawned token) = True"
| "allowed F M V Invalidated = True"
| "allowed F M V Observed = True"

lemma emits_put_file:
  assumes "put_file name get upd data w = (ok, w')" and "emits P w0 w" and "\<And>d'. P (Wrote name (w_dir w) d')"
  shows "emits P w0 w'"
  using assms(1) by (rule put_file_result) (use assms(2,3) in \<open>auto simp: emits_def\<close>)

lemma emits_os_Remove:
  "os_Remove name get upd w = (r, w') \<Longrightarrow> emits P w0 w \<Longrightarrow> P (Removed name) \<Longrightarrow> emits P w0 w'"
  by (auto simp: os_Remove_def Let_def emits_def split: if_splits)

lemma emits_lock: "AcquireFileLock w = (r, w') \<Longrightarrow> emits P w0 w \<Longrightarrow> emits P w0 w'"
  by (auto simp: emits_def AcquireFileLock_def split: list.splits lock_reply.splits)

lemma emits_clock: "clock_now w = (r, w') \<Longrightarrow> emits P w0 w \<Longrightarrow> emits P w0 w'"
  by (auto simp: emits_def clock_now_def split: list.splits)

lemma emits_rand: "rand_Read n w = (r, w') \<Longrightarrow> emits P w0 w \<Longrightarrow> emits P w0 w'"
  by (auto simp: emits_def rand_Read_def split: list.splits)

lemma emits_http:
  "http_Do req w = (r, w') \<Longrightarrow> emits (allowed F M V) w0 w \<Longrightarrow> M req \<Longrightarrow> emits (allowed F M V) w0 w'"
  by (auto simp: http_Do_def emits_def split: list.splits)

lemmas emits_prims = emits_lock emits_clock emits_rand

lemma emits_put_snd:
  "emits (allowed F M V) w0 w \<Longrightarrow> name \<in> F \<Longrightarrow> emits (allowed F M V) w0 (snd (put_file name get upd data w))"
  by (cases "put_file name get upd data w") (auto elim!: emits_put_file)

lemma emits_remove_snd:
  "emits (allowed F M V) w0 w \<Longrightarrow> name \<in> F \<Longrightarrow> emits (allowed F M V) w0 (snd (os_Remove name get upd w))"
  by (cases "os_Remove name get upd w") (auto elim!: emits_os_Remove)

section \<open>State, generation and ledger files\<close>

lemma emits_mutateState:
  "emits (allowed F M V) w0 w \<Longrightarrow> SyncStateFile \<in> F \<Longrightarrow> emits (allowed F M V) w0 (mutateState t f w)"
  by (auto simp: mutateState_def saveSyncState_def Let_def split: prod.splits option.splits
      intro: emits_lock emits_put_snd)

lemma emits_record:
  assumes "emits (allowed F M V) w0 w" and "SyncStateFile \<in> F"
  shows "emits (allowed F M V) w0 (recordSuccess e t w)"
    and "emits (allowed F M V) w0 (recordFailure e describe t err w)"
    and "emits (allowed F M V) w0 (RecordSkipped e t w)"
    and "emits (allowed F M V) w0 (recordSkippedNotConfigured t w)"
    and "emits (allowed F M V) w0 (releaseClaim t w)"
    and "emits (allowed F M V) w0 (recordOutcome e describe t r w)"
    and "emits (allowed F M V) w0 (recordExplicitOutcome e describe t r w)"
  using assms
  by (auto simp: recordSuccess_def recordFailure_def RecordSkipped_def recordSkippedNotConfigured_def
      releaseClaim_def recordOutcome_def recordExplicitOutcome_def Let_def
      split: prod.splits option.splits intro!: emits_mutateState elim: emits_clock)

lemma emits_claimBackground:
  "claimBackground e now w = (r, w') \<Longrightarrow> emits (allowed F M V) w0 w \<Longrightarrow> SyncStateFile \<in> F \<Longrightarrow> emits (allowed F M V) w0 w'"
  by (auto simp: claimBackground_def saveSyncState_def Let_def split: prod.splits option.splits if_splits bool.splits
      elim!: emits_put_file emits_lock emits_rand)

lemma emits_generation:
  assumes "emits (allowed F M V) w0 w" and "GenerationFile \<in> F"
  shows "emits (allowed F M V) w0 (RecordMaxSeenGeneration g w)" "emits (allowed F M V) w0 (SetMaxSeenGeneration g w)"
  using assms
  by (auto simp: RecordMaxSeenGeneration_def SetMaxSeenGeneration_def Let_def split: prod.splits option.splits
      intro!: emits_put_snd elim: emits_lock)

lemma emits_recordSuperseded:
  "emits (allowed F M V) w0 w \<Longrightarrow> SupersededFile \<in> F \<Longrightarrow> emits (allowed F M V) w0 (recordSuperseded old next w)"
  by (auto simp: recordSuperseded_def split: prod.splits option.splits intro!: emits_put_snd elim: emits_lock)

definition pull_files :: "fname set" where
  "pull_files = {PrevVaultFile, ConflictFile, SupersededFile, GenerationFile, RemoteEtagFile, SettingsFile}"

lemma emits_commitSuccess:
  assumes "emits (allowed F M V) w0 w" and "pull_files \<subseteq> F"
  shows "emits (allowed F M V) w0 (commitSuccess e operation etag gs w)"
proof -
  have clear: "emits (allowed F M V) w0 (snd (clearConflict w'))" if "emits (allowed F M V) w0 w'" for w'
    using that assms(2)
    by (auto simp: clearConflict_def pull_files_def split: prod.splits option.splits read_error.splits elim!: emits_os_Remove)
  let ?gen = "\<lambda>g wa. case g of None \<Rightarrow> wa
    | Some g \<Rightarrow> if operation = ''adopt'' then SetMaxSeenGeneration g wa else RecordMaxSeenGeneration g wa"
  have put: "emits (allowed F M V) w0 (snd (put_file RemoteEtagFile d_etag d_etag_update x
      (?gen g (recordSuperseded old etag w))))" for g old x
    using assms by (auto simp: pull_files_def split: option.splits
        intro!: emits_put_snd emits_generation emits_recordSuperseded)
  have save: "emits (allowed F M V) w0 (snd (SaveSettings s w'))" if "emits (allowed F M V) w0 w'" for s w'
    unfolding SaveSettings_def using assms(2) that by (intro emits_put_snd) (auto simp: pull_files_def)
  show ?thesis
    unfolding commitSuccess_def Let_def split_beta
    by (rule save, rule emits_clock [OF prod.collapse [symmetric]], rule clear)
      (use put assms(1) in \<open>auto split: if_splits\<close>)
qed

section \<open>The installation of a download\<close>

text \<open>
  When a downloaded vault may replace the local one, in the directory just before the write: the
  previous vault is kept in \<^verbatim>\<open>.prev\<close>, the download has the format of a vault and is
  authenticated when the password is at hand; a background process still has its claim and no
  publication awaits reconciliation; an adoption replaces the very vault the conflict evidence was
  recorded for; any other pull is not a rollback and does not meet a diverged local vault.
\<close>

definition vault_kept :: "cfgdir \<Rightarrow> bool" where
  "vault_kept d =
     (case d_vault d of
        File previous \<Rightarrow> d_prev d = File previous
      | Absent \<Rightarrow> True | Dangling \<Rightarrow> True | Blocked \<Rightarrow> False | Unreadable \<Rightarrow> False)"

definition install_ok :: "env \<Rightarrow> sync_txn \<Rightarrow> bytes \<Rightarrow> string \<Rightarrow> pull_mode \<Rightarrow> cfgdir \<Rightarrow> bool" where
  "install_ok e t data etag mode d =
     (vault_kept d \<and> ValidBlob data
      \<and> (mode \<noteq> pullBackground \<and> tx_masterPass t \<noteq> '''' \<longrightarrow> ValidateVaultBlob e data (tx_masterPass t) = None)
      \<and> (mode = pullBackground \<longrightarrow> \<not> publishingIntentPending d \<and> claimStillValid t d)
      \<and> (mode = pullAdopt \<longrightarrow>
           (case loadConflict d of None \<Rightarrow> False | Some c \<Rightarrow> f_LocalETag (identityFacts e d) = sc_LocalETag c))
      \<and> (mode \<noteq> pullAdopt \<longrightarrow>
           \<not> stale_generation data d \<and> \<not> isSuperseded etag d \<and> \<not> divergedFor mode (identityFacts e d) etag))"

lemma emits_conflictError:
  "conflictError e f remote w = (r, w') \<Longrightarrow> emits (allowed F M V) w0 w \<Longrightarrow> ConflictFile \<in> F \<Longrightarrow> emits (allowed F M V) w0 w'"
  by (auto simp: conflictError_def preserveConflict_def Let_def split: prod.splits bool.splits
      elim!: emits_put_file emits_clock)

lemma emits_supersededError:
  "supersededError e f remote w = (r, w') \<Longrightarrow> emits (allowed F M V) w0 w \<Longrightarrow> ConflictFile \<in> F \<Longrightarrow> emits (allowed F M V) w0 w'"
  by (auto simp: supersededError_def split: prod.splits if_splits elim!: emits_conflictError)

lemma emits_localFacts: "localFacts e w = (f, w') \<Longrightarrow> emits P w0 w \<Longrightarrow> emits P w0 w'"
  by (auto simp: localFacts_def split: prod.splits elim!: emits_clock)

lemma local_facts_at_etags:
  "f_RemoteETag (local_facts_at e d now) = cachedRemoteIdentity d"
  "f_LocalETag (local_facts_at e d now) = (case localOpaqueIdentity e d of None \<Rightarrow> '''' | Some l \<Rightarrow> l)"
  by (auto simp: local_facts_at_def zero_facts_def Let_def split: option.splits prod.splits)

lemma localFacts_result:
  assumes "localFacts e w = (f, w')"
  shows "w_dir w' = w_dir w" and "w_locks w' = w_locks w" and "w_writes w' = w_writes w" and "w_removes w' = w_removes w"
    and "f_RemoteETag f = cachedRemoteIdentity (w_dir w)"
    and "f_LocalETag f = (case localOpaqueIdentity e (w_dir w) of None \<Rightarrow> '''' | Some l \<Rightarrow> l)"
  using assms by (auto simp: localFacts_def clock_now_def local_facts_at_etags split: list.splits)

lemma emits_lockVault: "lockVault t mode w = (r, w') \<Longrightarrow> emits P w0 w \<Longrightarrow> emits P w0 w'"
  by (auto simp: lockVault_def split: prod.splits option.splits if_splits elim!: emits_lock)

lemma lockVault_guard:
  "lockVault t pullBackground w = (None, w') \<Longrightarrow> \<not> publishingIntentPending (w_dir w') \<and> claimStillValid t (w_dir w')"
  by (auto simp: lockVault_def split: prod.splits option.splits if_splits)


text \<open>\<open>keep_previous\<close> names the first step of \<open>replace_vault\<close>.\<close>

definition keep_previous :: "world \<Rightarrow> bool \<times> world" where
  "keep_previous w =
     (case Stat (d_vault (w_dir w)) of
        None \<Rightarrow>
          (case ReadFile (d_vault (w_dir w)) of
             Inl _ \<Rightarrow> (False, w)
           | Inr previous \<Rightarrow> put_file PrevVaultFile d_prev d_prev_update previous w)
      | Some NotExist \<Rightarrow> (True, w)
      | Some ReadErr \<Rightarrow> (False, w))"

lemma keep_previous_kept:
  assumes "keep_previous w = (kept, w')"
  shows "\<exists>p. w_dir w' = (w_dir w)\<lparr>d_prev := p\<rparr>" and "kept \<Longrightarrow> vault_kept (w_dir w')"
    and "emits (allowed F M V) w0 w \<Longrightarrow> PrevVaultFile \<in> F \<Longrightarrow> emits (allowed F M V) w0 w'"
proof -
  have same [simp]: "\<exists>p. d = d\<lparr>d_prev := p\<rparr>" for d :: cfgdir by (rule exI [of _ "d_prev d"]) simp
  have put_prev: "\<exists>p. w_dir v' = (w_dir v)\<lparr>d_prev := p\<rparr>"
    if "put_file PrevVaultFile d_prev d_prev_update x v = (ok, v')" for x v ok v'
    using that by (rule put_file_result) auto
  show "\<exists>p. w_dir w' = (w_dir w)\<lparr>d_prev := p\<rparr>"
    using assms put_prev by (auto simp: keep_previous_def split: option.splits sum.splits read_error.splits)
  show "vault_kept (w_dir w')" if kept
    using assms that
    by (cases "d_vault (w_dir w)")
      (auto simp: keep_previous_def vault_kept_def Stat_def ReadFile_def elim!: put_file_result split: if_splits)
  show "emits (allowed F M V) w0 w \<Longrightarrow> PrevVaultFile \<in> F \<Longrightarrow> emits (allowed F M V) w0 w'"
    using assms by (auto simp: keep_previous_def split: option.splits sum.splits read_error.splits elim!: emits_put_file)
qed

lemma emits_replace_vault:
  assumes "replace_vault e t data etag mode f w = (r, w')" and "emits (allowed F M V) w0 w" and "pull_files \<subseteq> F"
    and V: "\<And>p d d'. d = (w_dir w)\<lparr>d_prev := p\<rparr> \<Longrightarrow> vault_kept d \<Longrightarrow> d' \<in> {d, d\<lparr>d_vault := File data\<rparr>} \<Longrightarrow> V d d'"
  shows "emits (allowed F M V) w0 w'"
proof -
  obtain kept w1 where w1: "keep_previous w = (kept, w1)" by (rule prod.exhaust)
  note kept = keep_previous_kept [OF w1]
  have e1: "emits (allowed F M V) w0 w1" using kept(3) assms(2,3) by (auto simp: pull_files_def)
  obtain ok w2 where w2: "put_file VaultFile d_vault d_vault_update data w1 = (ok, w2)" by (rule prod.exhaust)
  have r: "(r, w') = (if \<not> kept then ((f, Some [ErrRefresh]), w1)
      else if \<not> ok then ((f, Some [ErrRefresh]), w2)
      else (case localFacts e (commitSuccess e (if mode = pullAdopt then ''adopt'' else ''pull'') etag [fst (Generation data)]
              (if tx_invalidate t then emit Invalidated w2 else w2)) of
              (f', w5) \<Rightarrow> ((f'\<lparr>f_Configuration := ConfigurationConfigured, f_Changed := True, f_Remote := RemoteChecked\<rparr>, None), w5)))"
    using assms(1) w1 w2 by (cases ok) (auto simp: replace_vault_def keep_previous_def [symmetric] Let_def)
  show ?thesis
  proof (cases kept)
    case False
    with r e1 show ?thesis by simp
  next
    case True
    have e2: "emits (allowed F M V) w0 w2"
    proof (rule put_file_result [OF w2])
      fix written d'
      assume "d' = d_vault_update (\<lambda>_. if written then File data else d_vault (w_dir w1)) (w_dir w1)"
        and w2': "w2 = emit (Wrote VaultFile (w_dir w1) d') (w1\<lparr>w_writes := tl (w_writes w1), w_dir := d'\<rparr>)"
      then have "d' \<in> {w_dir w1, (w_dir w1)\<lparr>d_vault := File data\<rparr>}" by auto
      moreover obtain p where "w_dir w1 = (w_dir w)\<lparr>d_prev := p\<rparr>" using kept(1) by blast
      ultimately have "V (w_dir w1) d'" using V kept(2) True by blast
      with w2' e1 show ?thesis by (auto simp: emits_def)
    qed
    then have "emits (allowed F M V) w0 (commitSuccess e operation etag gs (if tx_invalidate t then emit Invalidated w2 else w2))" for operation gs
      by (intro emits_commitSuccess) (auto simp: emits_def assms(3))
    with r e2 True show ?thesis
      by (auto split: if_splits prod.splits elim!: emits_localFacts)
  qed
qed

lemma identityFacts_prev [simp]:
  "identityFacts e (d\<lparr>d_prev := p\<rparr>) = identityFacts e d" "isSuperseded i (d\<lparr>d_prev := p\<rparr>) = isSuperseded i d"
  "stale_generation data (d\<lparr>d_prev := p\<rparr>) = stale_generation data d" "loadConflict (d\<lparr>d_prev := p\<rparr>) = loadConflict d"
  "publishingIntentPending (d\<lparr>d_prev := p\<rparr>) = publishingIntentPending d"
  "claimStillValid t (d\<lparr>d_prev := p\<rparr>) = claimStillValid t d"
  by (simp_all add: identityFacts_def cachedRemoteIdentity_def localOpaqueIdentity_def loadConflict_def isSuperseded_def
      loadSuperseded_def stale_generation_def MaxSeenGeneration_def publishingIntentPending_def claimStillValid_def
      LoadSyncState_def)

lemma f_Conflict_identityFacts [simp]: "f_Conflict (identityFacts e d) = loadConflict d"
  by (simp add: identityFacts_def)

lemma divergedFor_configuration [simp]: "divergedFor mode (f\<lparr>f_Configuration := c\<rparr>) etag = divergedFor mode f etag"
  by (simp add: divergedFor_def diverged_def)

lemma conflictError_result:
  assumes "conflictError e f remote w = ((g, err), w')"
  shows "err \<noteq> None" and "w_dir w' = (w_dir w)\<lparr>d_conflict := d_conflict (w_dir w')\<rparr>"
proof -
  have "w_dir w'' = w_dir v\<lparr>d_conflict := d_conflict (w_dir w'')\<rparr>"
    if "preserveConflict c v = (ok, w'')" for c v ok w''
    using that unfolding preserveConflict_def by (rule put_file_result) auto
  then show "err \<noteq> None" "w_dir w' = (w_dir w)\<lparr>d_conflict := d_conflict (w_dir w')\<rparr>"
    using assms
    by (auto simp: conflictError_def clock_now_def Let_def split: prod.splits bool.splits list.splits) fastforce+
qed

lemma supersededError_result:
  assumes "supersededError e f remote w = ((g, err), w')"
  shows "err \<noteq> None" and "w_dir w' = (w_dir w)\<lparr>d_conflict := d_conflict (w_dir w')\<rparr>"
  using assms conflictError_result by (auto simp: supersededError_def split: prod.splits if_splits)

text \<open>Either the download is refused and only the conflict file may change, or all guards held.\<close>

lemma installFetched_cases:
  assumes "installFetched e t data etag mode w = ((f, err), w')"
  obtains (refused) lr locked where "lockVault t mode w = (lr, locked)" "err \<noteq> None"
      "w_dir w' = (w_dir locked)\<lparr>d_conflict := d_conflict (w_dir w')\<rparr>"
      "\<And>F M V w0. emits (allowed F M V) w0 w \<Longrightarrow> ConflictFile \<in> F \<Longrightarrow> emits (allowed F M V) w0 w'"
  | (replaced) locked g where "lockVault t mode w = (None, locked)"
      "\<And>p. vault_kept ((w_dir locked)\<lparr>d_prev := p\<rparr>) \<Longrightarrow> install_ok e t data etag mode ((w_dir locked)\<lparr>d_prev := p\<rparr>)"
      "replace_vault e t data etag mode g locked = ((f, err), w')"
proof -
  obtain lr locked where lock: "lockVault t mode w = (lr, locked)" by (rule prod.exhaust)
  define d where "d = w_dir locked"
  define g where "g = (identityFacts e d)\<lparr>f_Configuration := ConfigurationConfigured\<rparr>"
  let ?bad = "\<not> ValidBlob data \<or> mode \<noteq> pullBackground \<and> tx_masterPass t \<noteq> '''' \<and> ValidateVaultBlob e data (tx_masterPass t) \<noteq> None
    \<or> mode = pullAdopt \<and> (case f_Conflict g of None \<Rightarrow> True | Some c \<Rightarrow> f_LocalETag g \<noteq> sc_LocalETag c)"
  have body: "((f, err), w') =
      (case lr of
         Some er \<Rightarrow> ((zero_facts, Some er), locked)
       | None \<Rightarrow>
           (if \<not> ValidBlob data then ((g, Some [ErrRefresh]), locked)
            else if mode \<noteq> pullAdopt \<and> stale_generation data d then supersededError e g etag locked
            else if mode \<noteq> pullBackground \<and> tx_masterPass t \<noteq> '''' \<and> ValidateVaultBlob e data (tx_masterPass t) \<noteq> None
            then ((g, Some [ErrRefresh]), locked)
            else if mode = pullAdopt \<and> (case f_Conflict g of None \<Rightarrow> True | Some c \<Rightarrow> f_LocalETag g \<noteq> sc_LocalETag c)
            then ((g, Some [ErrConflict]), locked)
            else if mode \<noteq> pullAdopt \<and> isSuperseded etag d then supersededError e g etag locked
            else if mode \<noteq> pullAdopt \<and> divergedFor mode g etag then conflictError e g etag locked
            else replace_vault e t data etag mode g locked))"
    unfolding assms [symmetric] installFetched_def lock g_def d_def Let_def by (cases lr) simp_all
  consider (lockfail) er where "lr = Some er" "f = zero_facts" "err = Some er" "w' = locked"
    | (plain) "lr = None" "err \<noteq> None" "w' = locked"
    | (superseded) "lr = None" "supersededError e g etag locked = ((f, err), w')"
    | (conflict) "lr = None" "conflictError e g etag locked = ((f, err), w')"
    | (ok) "lr = None" "\<not> ?bad"
        "mode \<noteq> pullAdopt \<Longrightarrow> \<not> stale_generation data d \<and> \<not> isSuperseded etag d \<and> \<not> divergedFor mode g etag"
        "replace_vault e t data etag mode g locked = ((f, err), w')"
    using body by (cases lr) (auto split: if_splits)
  then show ?thesis
  proof cases
    case lockfail
    then show ?thesis using lock by (intro refused) (auto elim: emits_lockVault)
  next
    case plain
    then show ?thesis using lock by (intro refused) (auto elim: emits_lockVault)
  next
    case superseded
    with lock supersededError_result [OF superseded(2)] show ?thesis
      by (intro refused) (auto elim!: emits_supersededError emits_lockVault)
  next
    case conflict
    with lock conflictError_result [OF conflict(2)] show ?thesis
      by (intro refused) (auto elim!: emits_conflictError emits_lockVault)
  next
    case ok
    have guard: "\<not> publishingIntentPending d \<and> claimStillValid t d" if "mode = pullBackground"
      using lock that ok(1) lockVault_guard unfolding d_def by blast
    have "install_ok e t data etag mode (d\<lparr>d_prev := p\<rparr>)" if "vault_kept (d\<lparr>d_prev := p\<rparr>)" for p
      using that ok(2,3) guard by (auto simp: install_ok_def g_def split: option.splits)
    with ok lock show ?thesis by (intro replaced) (auto simp: d_def)
  qed
qed

lemma emits_installFetched:
  assumes "installFetched e t data etag mode w = (r, w')" and "emits (allowed F M V) w0 w" and "pull_files \<subseteq> F"
    and V: "\<And>d d'. install_ok e t data etag mode d \<Longrightarrow> d' \<in> {d, d\<lparr>d_vault := File data\<rparr>} \<Longrightarrow> V d d'"
  shows "emits (allowed F M V) w0 w'"
proof -
  obtain f err where r: "r = (f, err)" by (rule prod.exhaust)
  from assms(1) [unfolded r] show ?thesis
  proof (cases rule: installFetched_cases)
    case refused
    with assms(2,3) show ?thesis by (auto simp: pull_files_def)
  next
    case (replaced locked g)
    show ?thesis
      using replaced(3) emits_lockVault [OF replaced(1) assms(2)] assms(3)
      by (rule emits_replace_vault) (use V replaced(2) in blast)
  qed
qed


section \<open>Requests\<close>

lemma NewRequest_method: "NewRequest e cfg m path body = Some req \<Longrightarrow> req_Method req = m"
  by (auto simp: NewRequest_def split: if_splits)

lemma emits_Fetch:
  "Fetch e cfg w = (r, w') \<Longrightarrow> emits (allowed F M V) w0 w \<Longrightarrow> (\<And>r. req_Method r = GET \<Longrightarrow> M r) \<Longrightarrow> emits (allowed F M V) w0 w'"
  by (auto simp: Fetch_def Let_def split: if_splits option.splits prod.splits dest: NewRequest_method elim!: emits_http)

lemma emits_FetchExpected:
  "FetchExpected e cfg x w = (r, w') \<Longrightarrow> emits (allowed F M V) w0 w \<Longrightarrow> (\<And>r. req_Method r = GET \<Longrightarrow> M r) \<Longrightarrow> emits (allowed F M V) w0 w'"
  by (auto simp: FetchExpected_def Let_def split: if_splits option.splits prod.splits dest: NewRequest_method elim!: emits_http)

lemma emits_InspectRemoteBlob:
  "InspectRemoteBlob e cfg w = (r, w') \<Longrightarrow> emits (allowed F M V) w0 w \<Longrightarrow> (\<And>r. req_Method r = HEAD \<Longrightarrow> M r) \<Longrightarrow> emits (allowed F M V) w0 w'"
  by (auto simp: InspectRemoteBlob_def split: if_splits option.splits prod.splits dest: NewRequest_method elim!: emits_http)

lemma emits_RemoteETag:
  "RemoteETag e cfg w = (r, w') \<Longrightarrow> emits (allowed F M V) w0 w \<Longrightarrow> (\<And>r. req_Method r = HEAD \<Longrightarrow> M r) \<Longrightarrow> emits (allowed F M V) w0 w'"
  by (auto simp: RemoteETag_def split: if_splits sum.splits prod.splits elim!: emits_InspectRemoteBlob)

lemma emits_ObservePublicationIdentity:
  "ObservePublicationIdentity e t w = (r, w') \<Longrightarrow> emits (allowed F M V) w0 w \<Longrightarrow> (\<And>r. req_Method r = HEAD \<Longrightarrow> M r) \<Longrightarrow> emits (allowed F M V) w0 w'"
  by (auto simp: ObservePublicationIdentity_def split: if_splits option.splits sum.splits prod.splits elim!: emits_InspectRemoteBlob)

lemmas emits_requests = emits_Fetch emits_FetchExpected emits_InspectRemoteBlob emits_RemoteETag emits_ObservePublicationIdentity

lemma Fetch_etag: "Fetch e cfg w = (Inr (data, etag), w') \<Longrightarrow> (\<And>bs. e_sha256 e bs \<noteq> '''') \<Longrightarrow> etag \<noteq> ''''"
  by (auto simp: Fetch_def Let_def split: if_splits option.splits prod.splits)

section \<open>Whole commands\<close>

lemma emits_decide_and_install:
  assumes "decide_and_install e t cfg f remote mode fetched w = (r, w')" and "emits (allowed F M V) w0 w"
    and F: "pull_files \<subseteq> F" "\<And>r. req_Method r = GET \<Longrightarrow> M r" and sha: "\<And>bs. e_sha256 e bs \<noteq> ''''"
    and fetched: "\<And>data etag. fetched = Some (data, etag) \<Longrightarrow> etag \<noteq> ''''"
    and V: "\<And>data etag d d'. etag \<noteq> '''' \<Longrightarrow> install_ok e t data etag mode d \<Longrightarrow> d' \<in> {d, d\<lparr>d_vault := File data\<rparr>} \<Longrightarrow> V d d'"
  shows "emits (allowed F M V) w0 w'"
proof -
  have inst: "emits (allowed F M V) w0 v'"
    if "installFetched e t data etag mode v = (x, v')" "etag \<noteq> ''''" "emits (allowed F M V) w0 v" for data etag v x v'
    using that F(1) V by (auto elim!: emits_installFetched)
  have C: "ConflictFile \<in> F" using F(1) by (auto simp: pull_files_def)
  show ?thesis
    using assms(1,2) C F(2) fetched unfolding decide_and_install_def Let_def
    by (auto split: if_splits option.splits prod.splits sum.splits dest: Fetch_etag [OF _ sha]
        elim!: inst emits_Fetch emits_lockVault emits_conflictError emits_supersededError)
qed


lemma emits_applyRemoteIdentity:
  assumes "applyRemoteIdentity e t cfg f remote forcePull mode w = (r, w')" and "emits (allowed F M V) w0 w"
    and F: "pull_files \<subseteq> F" "\<And>r. req_Method r = GET \<Longrightarrow> M r" and sha: "\<And>bs. e_sha256 e bs \<noteq> ''''"
    and V: "\<And>data etag d d'. etag \<noteq> '''' \<Longrightarrow> install_ok e t data etag mode d \<Longrightarrow> d' \<in> {d, d\<lparr>d_vault := File data\<rparr>} \<Longrightarrow> V d d'"
  shows "emits (allowed F M V) w0 w'"
proof -
  have C: "ConflictFile \<in> F" using F(1) by (auto simp: pull_files_def)
  have decide: "emits (allowed F M V) w0 v'"
    if "decide_and_install e t cfg g rem mode fetched v = (x, v')" "emits (allowed F M V) w0 v"
      "\<And>data etag. fetched = Some (data, etag) \<Longrightarrow> etag \<noteq> ''''" for g rem fetched v x v'
    using that(1,2) F sha that(3) V by (rule emits_decide_and_install)
  show ?thesis
    using assms(1,2) C F(2) unfolding applyRemoteIdentity_def Let_def
    by (auto split: if_splits sum.splits option.splits prod.splits
        elim!: decide emits_Fetch emits_lockVault emits_supersededError dest: Fetch_etag [OF _ sha])
qed

lemma emits_refreshConfigured:
  assumes "refreshConfigured e t cfg f forcePull w = (r, w')" and "emits (allowed F M V) w0 w"
    and F: "pull_files \<subseteq> F" "\<And>r. req_Method r = GET \<Longrightarrow> M r" "\<And>r. req_Method r = HEAD \<Longrightarrow> M r" and sha: "\<And>bs. e_sha256 e bs \<noteq> ''''"
    and V: "\<And>data etag d d'. etag \<noteq> '''' \<Longrightarrow> install_ok e t data etag pullRefresh d \<Longrightarrow> d' \<in> {d, d\<lparr>d_vault := File data\<rparr>} \<Longrightarrow> V d d'"
  shows "emits (allowed F M V) w0 w'"
proof -
  have apply_remote: "emits (allowed F M V) w0 v'"
    if "applyRemoteIdentity e t cfg f rem forcePull pullRefresh v = (x, v')" "emits (allowed F M V) w0 v" for rem v x v'
    using that F(1,2) sha V by (rule emits_applyRemoteIdentity)
  show ?thesis
    using assms(1,2) F(3) unfolding refreshConfigured_def
    by (auto split: sum.splits prod.splits simp del: split_paired_All elim!: apply_remote emits_RemoteETag)
qed

lemma emits_refreshLocalFirst:
  "refreshLocalFirst e t f s w = (r, w') \<Longrightarrow> emits (allowed F M V) w0 w \<Longrightarrow> SyncStateFile \<in> F \<Longrightarrow> emits (allowed F M V) w0 w'"
proof -
  assume r: "refreshLocalFirst e t f s w = (r, w')" and w: "emits (allowed F M V) w0 w" and F: "SyncStateFile \<in> F"
  have spawned: "emits (allowed F M V) w0 v'" if "spawn token v = (ok, v')" "emits (allowed F M V) w0 v" for token v ok v'
    using that by (auto simp: spawn_def emits_def)
  have decorate: "emits (allowed F M V) w0 v'"
    if "decorateLocalFirst e g st state v = (x, v')" "emits (allowed F M V) w0 v" for g st state v x v'
    using that by (auto simp: decorateLocalFirst_def Let_def split: prod.splits intro: emits_clock)
  show ?thesis
    using r w F unfolding refreshLocalFirst_def Let_def
    by (auto split: prod.splits if_splits option.splits bool.splits
        intro!: emits_record(5) elim!: decorate spawned emits_clock emits_claimBackground)
qed

text \<open>The effects of a pull by \<open>t\<close> in \<open>mode\<close>: the vault is replaced only when \<open>install_ok\<close> holds.\<close>

definition pull_effect :: "env \<Rightarrow> sync_txn \<Rightarrow> pull_mode \<Rightarrow> event \<Rightarrow> bool" where
  "pull_effect e t mode =
     allowed (insert SyncStateFile pull_files) (\<lambda>r. req_Method r \<in> {GET, HEAD})
       (\<lambda>d d'. \<exists>data etag. etag \<noteq> '''' \<and> install_ok e t data etag mode d \<and> d' \<in> {d, d\<lparr>d_vault := File data\<rparr>})"

lemma pull_effect_refresh:
  assumes sha: "\<And>bs. e_sha256 e bs \<noteq> ''''" and "emits (pull_effect e t pullRefresh) w0 w"
  shows "refresh e t explicit w = (r, w') \<Longrightarrow> emits (pull_effect e t pullRefresh) w0 w'"
    and "pull e t w = (r, w') \<Longrightarrow> emits (pull_effect e t pullRefresh) w0 w'"
proof -
  have configured: "emits (pull_effect e t pullRefresh) w0 v'"
    if "refreshConfigured e t cfg f force v = (x, v')" "emits (pull_effect e t pullRefresh) w0 v" for cfg f force v x v'
    using that(1) that(2) [unfolded pull_effect_def] unfolding pull_effect_def
    by (rule emits_refreshConfigured) (use sha in auto)
  have localFirst: "emits (pull_effect e t pullRefresh) w0 v'"
    if "refreshLocalFirst e t f s v = (x, v')" "emits (pull_effect e t pullRefresh) w0 v" for f s v x v'
    using that unfolding pull_effect_def by (rule emits_refreshLocalFirst) simp
  show "refresh e t explicit w = (r, w') \<Longrightarrow> emits (pull_effect e t pullRefresh) w0 w'"
    using assms(2) unfolding refresh_def Let_def
    by (auto split: prod.splits if_splits intro: configured localFirst emits_localFacts)
  show "pull e t w = (r, w') \<Longrightarrow> emits (pull_effect e t pullRefresh) w0 w'"
    using assms(2) unfolding pull_def Let_def
    by (auto split: prod.splits if_splits intro: configured emits_localFacts)
qed


section \<open>Undisturbed runs\<close>

text \<open>In a quiet world locks are free and writes and removals succeed.\<close>

definition quiet :: "world \<Rightarrow> bool" where
  "quiet w = (w_locks w = [] \<and> w_writes w = [] \<and> w_removes w = [])"

lemma quiet_lock: "quiet w \<Longrightarrow> AcquireFileLock w = (None, w)"
  by (simp add: quiet_def AcquireFileLock_def)

lemma quiet_put_file:
  "quiet w \<Longrightarrow> put_file name get upd data w =
     (True, emit (Wrote name (w_dir w) (upd (\<lambda>_. File data) (w_dir w))) (w\<lparr>w_dir := upd (\<lambda>_. File data) (w_dir w)\<rparr>))"
  by (cases w) (simp add: quiet_def put_file_def WritePrivateFile_def Let_def)

lemma quiet_emit [simp]: "quiet (emit ev w) = quiet w"
  by (simp add: quiet_def)

lemma quiet_dir [simp]: "quiet (w\<lparr>w_dir := d\<rparr>) = quiet w"
  by (simp add: quiet_def)

lemma quiet_clock: "quiet w \<Longrightarrow> clock_now w = (n, w') \<Longrightarrow> quiet w' \<and> w_dir w' = w_dir w"
  by (auto simp: quiet_def clock_now_def split: list.splits)

lemma quiet_recordSuperseded:
  "quiet w \<Longrightarrow> quiet (recordSuperseded old next w)
     \<and> (\<exists>x. w_dir (recordSuperseded old next w) = (w_dir w)\<lparr>d_superseded := x\<rparr>)"
  using exI [of "\<lambda>x. w_dir w = (w_dir w)\<lparr>d_superseded := x\<rparr>" "d_superseded (w_dir w)"]
  by (auto simp: recordSuperseded_def quiet_lock quiet_put_file)

lemma quiet_generation:
  assumes "quiet w"
  shows "quiet (RecordMaxSeenGeneration g w) \<and> (\<exists>x. w_dir (RecordMaxSeenGeneration g w) = (w_dir w)\<lparr>d_generation := x\<rparr>)"
    and "quiet (SetMaxSeenGeneration g w) \<and> (\<exists>x. w_dir (SetMaxSeenGeneration g w) = (w_dir w)\<lparr>d_generation := x\<rparr>)"
  using assms exI [of "\<lambda>x. w_dir w = (w_dir w)\<lparr>d_generation := x\<rparr>" "d_generation (w_dir w)"]
  by (auto simp: RecordMaxSeenGeneration_def SetMaxSeenGeneration_def quiet_lock quiet_put_file Let_def)

lemma quiet_clearConflict:
  assumes "quiet w" and "d_conflict (w_dir w) \<noteq> Blocked"
  shows "quiet (snd (clearConflict w)) \<and> w_dir (snd (clearConflict w)) = (w_dir w)\<lparr>d_conflict := Absent\<rparr>"
proof -
  have "d_conflict (w_dir w) = Absent \<Longrightarrow> w_dir w = (w_dir w)\<lparr>d_conflict := Absent\<rparr>" by simp
  with assms show ?thesis
    by (auto simp: clearConflict_def os_Remove_def quiet_def Let_def split: prod.splits option.splits read_error.splits)
qed

lemma quiet_commitSuccess:
  assumes "quiet w" and "etag \<noteq> ''''" and "d_conflict (w_dir w) \<noteq> Blocked"
  shows "quiet (commitSuccess e operation etag gs w)
    \<and> (\<exists>s g st. w_dir (commitSuccess e operation etag gs w) =
         (w_dir w)\<lparr>d_superseded := s, d_generation := g, d_etag := File (etag @ [CHR 0x0A]), d_conflict := Absent,
           d_settings := st\<rparr>)"
proof -
  define wa where "wa = recordSuperseded (cachedRemoteIdentity (w_dir w)) etag w"
  define gen where "gen = (case gs of g # _ \<Rightarrow> Some g
     | [] \<Rightarrow> (case ReadFile (d_vault (w_dir wa)) of Inl _ \<Rightarrow> None
              | Inr data \<Rightarrow> (case Generation data of (g, have_generation) \<Rightarrow> if have_generation then Some g else None)))"
  define wb where "wb = (case gen of None \<Rightarrow> wa
     | Some g \<Rightarrow> if operation = ''adopt'' then SetMaxSeenGeneration g wa else RecordMaxSeenGeneration g wa)"
  define w1 where "w1 = snd (put_file RemoteEtagFile d_etag d_etag_update (etag @ [CHR 0x0A]) wb)"
  define w2 where "w2 = snd (clearConflict w1)"
  obtain now w3 where clock: "clock_now w2 = (now, w3)" by (rule prod.exhaust)
  have eq: "\<exists>s. commitSuccess e operation etag gs w = snd (SaveSettings s w3)"
    using assms(2) clock
    unfolding commitSuccess_def Let_def w2_def w1_def wb_def gen_def wa_def by auto
  obtain s where a: "quiet wa" "w_dir wa = (w_dir w)\<lparr>d_superseded := s\<rparr>"
    using quiet_recordSuperseded [OF assms(1)] wa_def by metis
  have "quiet wb \<and> (\<exists>g. w_dir wb = (w_dir wa)\<lparr>d_generation := g\<rparr>)"
    using quiet_generation [OF a(1)] a(1) exI [of "\<lambda>x. w_dir wa = (w_dir wa)\<lparr>d_generation := x\<rparr>" "d_generation (w_dir wa)"]
    unfolding wb_def by (cases gen) auto
  then obtain g where b: "quiet wb" "w_dir wb = (w_dir wa)\<lparr>d_generation := g\<rparr>" by blast
  have 1: "quiet w1" "w_dir w1 = (w_dir wb)\<lparr>d_etag := File (etag @ [CHR 0x0A])\<rparr>"
    using b(1) by (simp_all add: w1_def quiet_put_file)
  have "d_conflict (w_dir w1) \<noteq> Blocked" using assms(3) 1 b a by simp
  then have 2: "quiet w2" "w_dir w2 = (w_dir w1)\<lparr>d_conflict := Absent\<rparr>"
    using quiet_clearConflict [OF 1(1)] by (auto simp: w2_def)
  have 3: "quiet w3" "w_dir w3 = w_dir w2" using quiet_clock [OF 2(1) clock] by auto
  from eq obtain st where "commitSuccess e operation etag gs w = snd (SaveSettings st w3)" by blast
  with 3 2 1 b a show ?thesis
    by (auto simp: SaveSettings_def quiet_put_file)
qed


lemma quiet_mutateState:
  "quiet w \<Longrightarrow> quiet (mutateState t f w) \<and> (\<exists>x. w_dir (mutateState t f w) = (w_dir w)\<lparr>d_state := x\<rparr>)"
  using exI [of "\<lambda>x. w_dir w = (w_dir w)\<lparr>d_state := x\<rparr>" "d_state (w_dir w)"]
  by (auto simp: mutateState_def saveSyncState_def quiet_lock quiet_put_file Let_def)

lemma quiet_recordExplicitOutcome:
  assumes "quiet w"
  shows "quiet (recordExplicitOutcome e describe t r w)
    \<and> (\<exists>x. w_dir (recordExplicitOutcome e describe t r w) = (w_dir w)\<lparr>d_state := x\<rparr>)"
proof -
  obtain now w1 where clock: "clock_now w = (now, w1)" by (rule prod.exhaust)
  note w1 = quiet_clock [OF assms clock]
  have "\<exists>x. w_dir w = (w_dir w)\<lparr>d_state := x\<rparr>" by (rule exI [of _ "d_state (w_dir w)"]) simp
  with assms w1 quiet_mutateState [of w1] show ?thesis
    by (auto simp: recordExplicitOutcome_def recordOutcome_def recordSuccess_def recordFailure_def clock Let_def
        split: option.splits prod.splits)
qed

lemma quiet_Save:
  assumes "quiet w" and "w_rand w = Some salt # Some nonce # rs" and "codec_ok e v"
  obtains blob w' where "Save e v pw w = (None, w')" and "quiet w'" and "w_dir w' = (w_dir w)\<lparr>d_vault := File blob\<rparr>"
    and "Decrypt (e_kdf e) (e_open e) blob pw = Inr (e_marshal e v)" and "w_loaded w' = Some (blobIdentity e blob)"
proof -
  obtain x w1 where enc: "EncryptVault e v pw [NextVaultGeneration (w_dir w)] w = (x, w1)" by (rule prod.exhaust)
  note frame = EncryptVault_frame [OF enc]
  have "\<not> isl x" using enc assms(2) by (auto simp: EncryptVault_def Encrypt_def rand_Read_def Let_def)
  then obtain blob where x: "x = Inr blob" by (cases x) auto
  have q1: "quiet w1" using assms(1) frame by (simp add: quiet_def)
  show ?thesis
  proof (rule that)
    show "Save e v pw w = (None, (emit (Wrote VaultFile (w_dir w1) (d_vault_update (\<lambda>_. File blob) (w_dir w1)))
        (w1\<lparr>w_dir := d_vault_update (\<lambda>_. File blob) (w_dir w1)\<rparr>))\<lparr>w_loaded := Some (blobIdentity e blob)\<rparr>)"
      by (simp add: Save_def enc x quiet_put_file [OF q1])
    show "Decrypt (e_kdf e) (e_open e) blob pw = Inr (e_marshal e v)"
      using EncryptVault_decrypts [OF assms(3) enc [unfolded x]] by simp
  qed (use q1 frame in \<open>simp_all add: quiet_def\<close>)
qed

end
