(* ===== verification/Publication.thy ===== *)
theory Publication
  imports Publishing_Intent Sync_Safety
begin

text \<open>
  Publication of reviewed mutations (\<^verbatim>\<open>Publish\<close>, \<^verbatim>\<open>reconcilePublishingIntent\<close> and
  \<^verbatim>\<open>finalizePublishingIntent\<close> of \<^verbatim>\<open>internal/inventorytransaction/transaction.go\<close>, and
  \<^verbatim>\<open>publication_lock.go\<close>): dependency preflight and projection, the durable intent, the conditional
  push, and the finalization of exactly the published entries.

  \<^verbatim>\<open>injectPublicationFault\<close> returns nil in every build that is not linked for fault injection and is
  left out. \<open>docsize\<close> gives the size of the marshalled intent.
\<close>

datatype publication_error =
    PubSessionRequired
  | PubSyncRequired
  | PubScopeFinalized
  | PubScopePending
  | PubBusy
  | PubLockErr
  | PubSync sync_err
  | PubIntent intent_error
  | PubLedger ledger_error
  | PubStore store_error
  | PubEncrypt vault_error
  | PubClearIntent

record publication_receipt =
  pub_OK :: bool
  pub_Action :: string
  pub_Scope :: string
  pub_Only :: string
  pub_Preflight :: "mutation_view list"
  pub_Remaining :: "mutation_view list"

definition zero_receipt :: publication_receipt where
  "zero_receipt = \<lparr>pub_OK = False, pub_Action = '''', pub_Scope = '''', pub_Only = '''', pub_Preflight = [], pub_Remaining = []\<rparr>"

definition publicationReceipt :: "string \<Rightarrow> pending_mutation list \<Rightarrow> vault \<Rightarrow> publication_receipt" where
  "publicationReceipt only selected localAfter =
     \<lparr>pub_OK = True, pub_Action = ''pushed'', pub_Scope = (if only \<noteq> '''' then ''only'' else ''all''), pub_Only = only,
      pub_Preflight = mutationViews selected, pub_Remaining = Pending (Some localAfter)\<rparr>"

definition equalBlobIdentity :: "blob_identity \<Rightarrow> blob_identity \<Rightarrow> bool" where
  "equalBlobIdentity l r = (bi_Exists l = bi_Exists r \<and> (\<not> bi_Exists l \<or> bi_Value l = bi_Value r))"

definition matchesRecovery :: "string \<Rightarrow> publication_recovery option \<Rightarrow> bool" where
  "matchesRecovery only recovery =
     (case recovery of
        None \<Rightarrow> False
      | Some r \<Rightarrow>
          if only = '''' then pr_Scope r = ''all''
          else length (pr_TransactionIDs r) = 1 \<and> hd (pr_TransactionIDs r) = only)"

text \<open>\<^verbatim>\<open>BeginPublication\<close>: the session is held exactly when no error is returned.\<close>

definition BeginPublication :: "world \<Rightarrow> publication_error option \<times> world" where
  "BeginPublication w =
     (case AcquireFileLock w of
        (Some ErrLockBusy, w1) \<Rightarrow> (Some PubBusy, w1)
      | (Some ErrLock, w1) \<Rightarrow> (Some PubLockErr, w1)
      | (None, w1) \<Rightarrow> (None, w1))"

section \<open>Finalization\<close>

text \<open>The part after the local vault was finalized, or had been before.\<close>

definition confirm_published :: "env \<Rightarrow> (sync_err \<Rightarrow> string \<times> string) \<Rightarrow> sync_txn \<Rightarrow> publishing_intent \<Rightarrow>
    pending_mutation list \<Rightarrow> vault \<Rightarrow> world \<Rightarrow> (publication_error + publication_receipt) \<times> world" where
  "confirm_published e describe t intent selected localAfter w =
     (case clearPublishingIntent (ConfirmPublication e describe t (pi_TargetIdentity intent) w) of
        (False, w1) \<Rightarrow> (Inl PubClearIntent, w1)
      | (True, w1) \<Rightarrow>
          (let only = (if pi_Scope intent = ''only'' \<and> length (pi_TransactionIDs intent) = 1
                       then hd (pi_TransactionIDs intent) else '''');
               receipt = publicationReceipt only selected localAfter
           in (Inr (if selected = []
                    then receipt\<lparr>pub_Preflight :=
                           publishingIntentMutationViews (pi_Transactions intent) (pi_TransactionIDs intent)\<rparr>
                    else receipt), w1)))"

definition finalizePublishingIntent :: "env \<Rightarrow> (sync_err \<Rightarrow> string \<times> string) \<Rightarrow> string \<Rightarrow> sync_txn \<Rightarrow>
    publishing_intent \<Rightarrow> world \<Rightarrow> (publication_error + publication_receipt) \<times> world" where
  "finalizePublishingIntent e describe masterPass t intent w =
     (case lockVaultWrite w of
        (Some err, w1) \<Rightarrow> (Inl (PubStore err), w1)
      | (None, w1) \<Rightarrow>
          (case Load e masterPass w1 of
             (Inl err, w2) \<Rightarrow> (Inl (PubStore err), w2)
           | (Inr current, w2) \<Rightarrow>
               (case projectTransactionIDs current (pi_TransactionIDs intent) of
                  Inl err \<Rightarrow> (Inl (PubLedger err), w2)
                | Inr p \<Rightarrow>
                    if proj_Selected p = [] then confirm_published e describe t intent [] current w2
                    else
                      (let localAfter = markPublished current (proj_Selected p) (proj_Vault p) in
                       case Save e localAfter masterPass w2 of
                         (Some err, w3) \<Rightarrow> (Inl (PubStore err), w3)
                       | (None, w3) \<Rightarrow> confirm_published e describe t intent (proj_Selected p) localAfter w3))))"

section \<open>Reconciliation of an outstanding intent\<close>

definition intent_target :: "publishing_intent \<Rightarrow> blob_identity" where
  "intent_target i = \<lparr>bi_Exists = True, bi_Value = pi_TargetIdentity i\<rparr>"

definition intent_prerequisite :: "publishing_intent \<Rightarrow> blob_identity" where
  "intent_prerequisite i = \<lparr>bi_Exists = pi_PrerequisiteExists i, bi_Value = pi_PrerequisiteIdentity i\<rparr>"

type_synonym reconciliation = "publication_receipt \<times> publication_recovery option \<times> publication_error option"

definition reconcilePublishingIntent :: "env \<Rightarrow> (publishing_intent \<Rightarrow> int) \<Rightarrow> (sync_err \<Rightarrow> string \<times> string) \<Rightarrow> string \<Rightarrow>
    sync_txn \<Rightarrow> world \<Rightarrow> reconciliation \<times> world" where
  "reconcilePublishingIntent e docsize describe masterPass t w =
     (case loadPublishingIntent e (w_dir w) of
        Inl IntentNotExist \<Rightarrow> ((zero_receipt, None, None), w)
      | Inl err \<Rightarrow> ((zero_receipt, None, Some (PubIntent err)), w)
      | Inr intent \<Rightarrow>
          (let clear = (\<lambda>w1. case clearPublishingIntent w1 of
                 (ok, w2) \<Rightarrow> ((zero_receipt, Some (recoveryView intent ''pending''), if ok then None else Some PubClearIntent), w2));
               finalize = (\<lambda>failed w1. case finalizePublishingIntent e describe masterPass t intent w1 of
                 (Inl err, w2) \<Rightarrow>
                   ((zero_receipt, Some (recoveryView failed intentFinalizationFailed), Some err),
                    snd (savePublishingIntent e docsize failed w2))
               | (Inr receipt, w2) \<Rightarrow> ((receipt, Some (recoveryView intent ''confirmed''), None), w2))
           in if pi_State intent = intentPrepared then clear w
              else if pi_State intent = intentFinalizationFailed then finalize intent w
              else if tx_offline t then ((zero_receipt, Some (recoveryView intent (pi_State intent)), None), w)
              else case ObservePublicationIdentity e t w of
                (Inl err, w1) \<Rightarrow> ((zero_receipt, Some (recoveryView intent (pi_State intent)), Some (PubSync err)), w1)
              | (Inr remote, w1) \<Rightarrow>
                  if equalBlobIdentity remote (intent_target intent)
                  then finalize (intent\<lparr>pi_State := intentFinalizationFailed\<rparr>) w1
                  else if equalBlobIdentity remote (intent_prerequisite intent) then clear w1
                  else
                    (let divergent = intent\<lparr>pi_State := intentDivergent, pi_ObservedExists := bi_Exists remote,
                                           pi_ObservedIdentity := bi_Value remote\<rparr>
                     in case savePublishingIntent e docsize divergent w1 of
                          (Some err, w2) \<Rightarrow>
                            ((zero_receipt, Some (recoveryView divergent intentDivergent), Some (PubIntent err)), w2)
                        | (None, w2) \<Rightarrow>
                            ((zero_receipt, Some (recoveryView divergent intentDivergent), Some (PubSync [ErrConflict])), w2))))"

text \<open>The result carries the recovery view, and the error if there is one.\<close>

definition ReconcilePublishingIntent :: "env \<Rightarrow> (publishing_intent \<Rightarrow> int) \<Rightarrow> (sync_err \<Rightarrow> string \<times> string) \<Rightarrow> string \<Rightarrow>
    sync_txn \<Rightarrow> world \<Rightarrow> (publication_recovery option \<times> publication_error option) \<times> world" where
  "ReconcilePublishingIntent e docsize describe masterPass t w =
     (case BeginPublication w of
        (Some err, w1) \<Rightarrow> ((None, Some err), w1)
      | (None, w1) \<Rightarrow>
          (case reconcilePublishingIntent e docsize describe masterPass t w1 of
             ((_, recovery, err), w2) \<Rightarrow> ((recovery, err), w2)))"

section \<open>Publish\<close>

text \<open>What to publish, or the receipt or error with which \<^verbatim>\<open>Publish\<close> returns after reconciliation.\<close>

datatype publication_plan = PlanReturn "publication_error + publication_receipt" | PlanPublish projection

definition plan_publication :: "vault \<Rightarrow> string \<Rightarrow> reconciliation \<Rightarrow> publication_plan" where
  "plan_publication v only outcome =
     (case outcome of
        (reconciled, recovery, Some err) \<Rightarrow> PlanReturn (Inl err)
      | (reconciled, recovery, None) \<Rightarrow>
          (let planned = (\<lambda>p. case p of Inl err \<Rightarrow> PlanReturn (Inl (PubLedger err)) | Inr q \<Rightarrow> PlanPublish q) in
           case recovery of
             None \<Rightarrow> planned (project v only)
           | Some r \<Rightarrow>
               if pr_State r = ''confirmed'' then
                 PlanReturn (if matchesRecovery only recovery then Inr reconciled else Inl PubScopeFinalized)
               else if pr_State r = ''pending'' then
                 (if \<not> matchesRecovery only recovery then PlanReturn (Inl PubScopePending)
                  else planned (if only = '''' then projectTransactionIDs v (pr_TransactionIDs r) else project v only))
               else PlanReturn (Inl (PubSync [ErrUnconfigured]))))"

text \<open>The intent as \<^verbatim>\<open>Publish\<close> first persists it.\<close>

definition new_intent :: "env \<Rightarrow> string \<Rightarrow> projection \<Rightarrow> bytes \<Rightarrow> blob_identity \<Rightarrow> publishing_intent" where
  "new_intent e only p blob cached =
     \<lparr>pi_Version = publishingIntentVersion, pi_State = intentPrepared,
      pi_Scope = (if only \<noteq> '''' then ''only'' else ''all''),
      pi_TransactionIDs = map pm_ID (proj_Selected p), pi_Transactions = publishingIntentTransactions (proj_Selected p),
      pi_PrerequisiteExists = bi_Exists cached, pi_PrerequisiteIdentity = bi_Value cached,
      pi_TargetIdentity = PublicationTargetIdentity e blob, pi_ObservedExists = False, pi_ObservedIdentity = ''''\<rparr>"

text \<open>From the request on: the intent \<open>intent\<close> is persisted in state ready.\<close>

definition send_and_finalize :: "env \<Rightarrow> (publishing_intent \<Rightarrow> int) \<Rightarrow> (sync_err \<Rightarrow> string \<times> string) \<Rightarrow> string \<Rightarrow> sync_txn \<Rightarrow>
    bytes \<Rightarrow> prepared_publication \<Rightarrow> publishing_intent \<Rightarrow> world \<Rightarrow> (publication_error + publication_receipt) \<times> world" where
  "send_and_finalize e docsize describe masterPass t blob prepared intent w =
     (case SendPublication e describe t blob prepared w of
        ((remote, Some err), w1) \<Rightarrow>
          (Inl (PubSync err),
           if ErrPushNotSent \<in> set err \<or> ErrPushRejected \<in> set err then snd (clearPublishingIntent w1)
           else if ErrPushAmbiguous \<in> set err
           then snd (savePublishingIntent e docsize (intent\<lparr>pi_State := intentAmbiguous\<rparr>) w1)
           else if ErrConflict \<in> set err
           then snd (savePublishingIntent e docsize
                  (intent\<lparr>pi_State := intentDivergent, pi_ObservedExists := bi_Exists remote,
                          pi_ObservedIdentity := bi_Value remote\<rparr>) w1)
           else w1)
      | ((remote, None), w1) \<Rightarrow>
          if bi_Value remote \<noteq> pi_TargetIdentity intent then (Inl (PubSync [ErrConflict]), w1)
          else (case finalizePublishingIntent e describe masterPass t intent w1 of
             (Inl err, w2) \<Rightarrow>
               (Inl err, snd (savePublishingIntent e docsize (intent\<lparr>pi_State := intentFinalizationFailed\<rparr>) w2))
           | (Inr receipt, w2) \<Rightarrow> (Inr receipt, w2)))"

definition publish_projection :: "env \<Rightarrow> (publishing_intent \<Rightarrow> int) \<Rightarrow> (sync_err \<Rightarrow> string \<times> string) \<Rightarrow> string \<Rightarrow> sync_txn \<Rightarrow>
    vault \<Rightarrow> string \<Rightarrow> projection \<Rightarrow> world \<Rightarrow> (publication_error + publication_receipt) \<times> world" where
  "publish_projection e docsize describe masterPass t v only p w =
     (if proj_Selected p = [] then
        (case VerifyEmptyPublication e t w of
           (Some err, w1) \<Rightarrow> (Inl (PubSync err), w1)
         | (None, w1) \<Rightarrow> (Inr ((publicationReceipt only [] v)\<lparr>pub_Action := ''noop''\<rparr>), w1))
      else case EncryptVault e (proj_Vault p) masterPass [NextVaultGeneration (w_dir w)] w of
        (Inl err, w1) \<Rightarrow> (Inl (PubEncrypt err), w1)
      | (Inr blob, w1) \<Rightarrow>
          (case CachedPublicationPrerequisite (w_dir w1) of
             Inl err \<Rightarrow> (Inl (PubSync err), w1)
           | Inr cached \<Rightarrow>
               (let intent = new_intent e only p blob cached in
                case savePublishingIntent e docsize intent w1 of
                  (Some err, w2) \<Rightarrow> (Inl (PubIntent err), w2)
                | (None, w2) \<Rightarrow>
                    (case PreparePublication e describe t blob w2 of
                       (Inl err, w3) \<Rightarrow> (Inl (PubSync err), snd (clearPublishingIntent w3))
                     | (Inr prepared, w3) \<Rightarrow>
                         (let ready = intent\<lparr>pi_State := intentReady,
                                pi_PrerequisiteExists := bi_Exists (pp_Prerequisite prepared),
                                pi_PrerequisiteIdentity := bi_Value (pp_Prerequisite prepared)\<rparr>
                          in case savePublishingIntent e docsize ready w3 of
                               (Some err, w4) \<Rightarrow> (Inl (PubIntent err), w4)
                             | (None, w4) \<Rightarrow>
                                 send_and_finalize e docsize describe masterPass t blob prepared ready w4)))))"

text \<open>\<open>active\<close>: the session still holds the publication lock; \<open>sync\<close> is the optional sync transaction.\<close>

definition Publish :: "env \<Rightarrow> (publishing_intent \<Rightarrow> int) \<Rightarrow> (sync_err \<Rightarrow> string \<times> string) \<Rightarrow> string \<Rightarrow> sync_txn option \<Rightarrow>
    bool \<Rightarrow> vault \<Rightarrow> string \<Rightarrow> world \<Rightarrow> (publication_error + publication_receipt) \<times> world" where
  "Publish e docsize describe masterPass sync active v only w =
     (if \<not> active then (Inl PubSessionRequired, w)
      else case sync of
        None \<Rightarrow> (Inl PubSyncRequired, w)
      | Some t \<Rightarrow>
          (case reconcilePublishingIntent e docsize describe masterPass t w of
             (outcome, w1) \<Rightarrow>
               (case plan_publication v only outcome of
                  PlanReturn r \<Rightarrow> (r, w1)
                | PlanPublish p \<Rightarrow> publish_projection e docsize describe masterPass t v only p w1)))"

end
