(* ===== verification/Sync_Properties.thy ===== *)
theory Sync_Properties
  imports Sync_Safety
begin

text \<open>
  The properties of the synchronization transaction, proved from the effect lemmas: what reads,
  pulls, the background process, adoption and publication steps may do to the vault and to the
  remote blob.
\<close>

section \<open>Reads, pulls and the background process\<close>

lemma install_ok_local:
  assumes "install_ok e t data etag mode d" and "etag \<noteq> ''''" and "mode \<noteq> pullAdopt"
    and "d_vault d = File previous" and "e_sha256 e previous \<noteq> ''''"
  shows "d_prev d = File previous"
    and "e_sha256 e previous \<in> {cachedRemoteIdentity d, etag} \<or> etag = cachedRemoteIdentity d
      \<or> mode \<noteq> pullBackground \<and> cachedRemoteIdentity d = ''''"
  using assms
  by (auto simp: install_ok_def vault_kept_def divergedFor_def diverged_def identityFacts_def localOpaqueIdentity_def
      opaqueIdentity_def ReadFile_def)

lemma sha_nonempty: "identity_pattern s \<Longrightarrow> s \<noteq> ''''"
  by (auto simp: identity_pattern_def)

lemma pull_effect_commands:
  assumes "\<And>bs. e_sha256 e bs \<noteq> ''''"
  shows "emits (pull_effect e t pullRefresh) w (snd (Refresh e t w))"
    and "emits (pull_effect e t pullRefresh) w (snd (Sync e describe t w))"
    and "emits (pull_effect e t pullRefresh) w (snd (Pull e describe t w))"
proof -
  have observed: "emits (pull_effect e t pullRefresh) w (emit Observed v)"
    if "emits (pull_effect e t pullRefresh) w v" for v
    using that by (auto simp: pull_effect_def emits_def)
  have recorded: "emits (pull_effect e t pullRefresh) w (recordExplicitOutcome e describe t r v)"
    if "emits (pull_effect e t pullRefresh) w v" for r v
    using that unfolding pull_effect_def by (rule emits_record(7)) simp
  note r = pull_effect_refresh [OF assms emits_refl]
  show "emits (pull_effect e t pullRefresh) w (snd (Refresh e t w))"
    unfolding Refresh_def by (auto split: prod.splits intro: observed r)
  show "emits (pull_effect e t pullRefresh) w (snd (Sync e describe t w))"
    unfolding Sync_def by (auto split: prod.splits intro: recorded r)
  show "emits (pull_effect e t pullRefresh) w (snd (Pull e describe t w))"
    unfolding Pull_def by (auto split: prod.splits intro: recorded r)
qed

text \<open>
  A replacement of the vault from directory \<open>d\<close> to \<open>d'\<close> that loses nothing: the new vault is well
  formed and no rollback; the old one is kept in the backup file and is the version confirmed last
  or the one downloaded, unless the remote has not moved since it was confirmed.
\<close>

definition careful_replacement :: "env \<Rightarrow> (bytes \<Rightarrow> bool) \<Rightarrow> (string \<Rightarrow> bool) \<Rightarrow> cfgdir \<Rightarrow> cfgdir \<Rightarrow> bool" where
  "careful_replacement e authentic unmoved d d' =
     (\<exists>data etag. d' \<in> {d, d\<lparr>d_vault := File data\<rparr>} \<and> ValidBlob data \<and> authentic data
        \<and> \<not> stale_generation data d \<and> \<not> isSuperseded etag d
        \<and> (\<forall>previous. d_vault d = File previous \<longrightarrow> d_prev d = File previous
             \<and> (e_sha256 e previous \<in> {cachedRemoteIdentity d, etag} \<or> cachedRemoteIdentity d = etag
                \<or> unmoved (cachedRemoteIdentity d))))"

lemma install_ok_careful:
  assumes "install_ok e t data etag mode d" and "etag \<noteq> ''''" and "mode \<noteq> pullAdopt"
    and "d' \<in> {d, d\<lparr>d_vault := File data\<rparr>}" and "\<And>bs. e_sha256 e bs \<noteq> ''''"
  shows "careful_replacement e
    (\<lambda>data. mode = pullBackground \<or> tx_masterPass t = '''' \<or> ValidateVaultBlob e data (tx_masterPass t) = None)
    (\<lambda>cached. mode \<noteq> pullBackground \<and> cached = '''') d d'"
  unfolding careful_replacement_def
  using assms(1,2,3,4) install_ok_local [OF assms(1,2,3) _ assms(5)]
  by (intro exI [of _ data] exI [of _ etag]) (auto simp: install_ok_def)

text \<open>
  C27.
  Foreground synchronization (refresh, explicit sync and explicit pull) changes nothing but the sync
  metadata unless a download is installed. The vault is replaced only in a directory where the
  previous vault is already kept in the backup file, with a well-formed blob that authenticates
  under the password at hand, that is no rollback (generation, superseded identities), and never
  over a local vault that differs from both the last confirmed and the downloaded version while the
  remote has moved. No such command sends anything but \<^verbatim>\<open>GET\<close> and \<^verbatim>\<open>HEAD\<close> requests.
\<close>

theorem pulls_replace_safely:
  assumes sha256_hex: "\<And>bs. identity_pattern (e_sha256 e bs)"
    and "w' \<in> {snd (Refresh e t w), snd (Sync e describe t w), snd (Pull e describe t w)}"
  shows "emits (allowed
      {SyncStateFile, PrevVaultFile, ConflictFile, SupersededFile, GenerationFile, RemoteEtagFile, SettingsFile}
      (\<lambda>r. req_Method r \<in> {GET, HEAD})
      (careful_replacement e
         (\<lambda>data. tx_masterPass t = '''' \<or> ValidateVaultBlob e data (tx_masterPass t) = None) (\<lambda>cached. cached = ''''))) w w'"
    (is "emits ?Q w w'")
proof (rule emits_mono)
  note sha = sha_nonempty [OF sha256_hex]
  show "emits (pull_effect e t pullRefresh) w w'" using assms(2) pull_effect_commands [OF sha] by auto
  show "?Q ev" if "pull_effect e t pullRefresh ev" for ev
    using that install_ok_careful [of e t _ _ pullRefresh, OF _ _ _ _ sha]
    by (cases ev) (auto simp: pull_effect_def pull_files_def)
qed

lemma demo_sha256: "identity_pattern (e_sha256 (demo_env vs) bs)"
proof -
  let ?x = "hex_encode (rev bs) @ replicate 64 (CHR ''0'')"
  have zeros: "list_all P (replicate n c)" if "P c" for P n and c :: char using that by (induction n) auto
  have "CHR ''0'' \<in> set hex_digits" by (simp add: hex_digits_def)
  then have "list_all (\<lambda>c. c \<in> set hex_digits) ?x"
    unfolding list_all_append using hex_encode_digits [of "rev bs"] by (intro conjI zeros)
  then have "list_all (\<lambda>c. c \<in> set hex_digits) (take 64 ?x)" by (auto simp only: list_all_iff dest: in_set_takeD)
  then show ?thesis by (simp add: identity_pattern_def demo_env_def)
qed

text \<open>For the witnesses: a service that answers \<^verbatim>\<open>HEAD\<close> and \<^verbatim>\<open>GET\<close> with a blob of version 1.\<close>

definition demo_remote :: bytes where "demo_remote = versionV1 # replicate 60 7"

definition demo_response :: "bytes option \<Rightarrow> http_response" where
  "demo_response body = \<lparr>resp_Status = 200, resp_ETag = e_sha256 (demo_env []) demo_remote, resp_Body = body,
     resp_Error = None, resp_Token = None, resp_Verified = None\<rparr>"

definition demo_online :: world where
  "demo_online = demo_world\<lparr>w_dir := demo_dir\<lparr>d_generation := Absent\<rparr>,
     w_http := [(id, Some (demo_response None)), (id, Some (demo_response (Some demo_remote)))]\<rparr>"

definition demo_txn :: sync_txn where
  "demo_txn = \<lparr>tx_offline = False, tx_masterPass = '''', tx_invalidate = True, tx_spawn = True, tx_observe = False, tx_claim = ''''\<rparr>"

lemma quiet_replace_vault:
  assumes "quiet w" and "etag \<noteq> ''''" and "d_conflict (w_dir w) \<noteq> Blocked"
    and kept: "vault_kept ((w_dir w)\<lparr>d_prev := d_vault (w_dir w)\<rparr>)"
  obtains f' w' where "replace_vault e t data etag mode f w = ((f', None), w')"
    and "quiet w'" and "d_vault (w_dir w') = File data"
    and "d_prev (w_dir w') = (case d_vault (w_dir w) of File p \<Rightarrow> File p | _ \<Rightarrow> d_prev (w_dir w))"
    and "d_etag (w_dir w') = File (etag @ [CHR 0x0A])" and "d_conflict (w_dir w') = Absent"
    and "f_LocalETag f' = e_sha256 e data" and "f_Changed f'" and "f_RemoteETag f' = cachedRemoteIdentity (w_dir w')"
proof -
  obtain w1 where w1: "keep_previous w = (True, w1)" "quiet w1"
    "w_dir w1 = (w_dir w)\<lparr>d_prev := (case d_vault (w_dir w) of File p \<Rightarrow> File p | _ \<Rightarrow> d_prev (w_dir w))\<rparr>"
    using assms(1) kept
    by (cases "d_vault (w_dir w)") (auto simp: keep_previous_def vault_kept_def Stat_def ReadFile_def quiet_put_file)
  define w2 where "w2 = snd (put_file VaultFile d_vault d_vault_update data w1)"
  have w2: "put_file VaultFile d_vault d_vault_update data w1 = (True, w2)" "quiet w2" "w_dir w2 = (w_dir w1)\<lparr>d_vault := File data\<rparr>"
    using w1(2) by (simp_all add: w2_def quiet_put_file)
  define w3 where "w3 = (if tx_invalidate t then emit Invalidated w2 else w2)"
  have w3: "quiet w3" "w_dir w3 = w_dir w2" using w2(2) by (auto simp: w3_def)
  define w4 where "w4 = commitSuccess e (if mode = pullAdopt then ''adopt'' else ''pull'') etag [fst (Generation data)] w3"
  have c: "d_conflict (w_dir w3) \<noteq> Blocked" using assms(3) w3 w2 w1 by simp
  obtain s g st where w4: "quiet w4" "w_dir w4 = (w_dir w3)\<lparr>d_superseded := s, d_generation := g,
      d_etag := File (etag @ [CHR 0x0A]), d_conflict := Absent, d_settings := st\<rparr>"
    using quiet_commitSuccess [OF w3(1) assms(2) c] unfolding w4_def by blast
  obtain f' w5 where w5: "localFacts e w4 = (f', w5)" by (rule prod.exhaust)
  note facts = localFacts_result [OF w5]
  have q5: "quiet w5" "w_dir w5 = w_dir w4" using facts w4(1) by (simp_all add: quiet_def)
  have "d_vault (w_dir w4) = File data" using w4 w3 w2 by simp
  then have f': "f_LocalETag f' = e_sha256 e data" "f_RemoteETag f' = cachedRemoteIdentity (w_dir w4)"
    using facts by (simp_all add: localOpaqueIdentity_def opaqueIdentity_def ReadFile_def)
  have "replace_vault e t data etag mode f w =
      ((f'\<lparr>f_Configuration := ConfigurationConfigured, f_Changed := True, f_Remote := RemoteChecked\<rparr>, None), w5)"
    using w1(1) w2(1) w5 unfolding replace_vault_def keep_previous_def [symmetric] Let_def w4_def w3_def by simp
  then show ?thesis
    by (rule that) (use q5 w4 w3 w2 w1 f' in \<open>simp_all\<close>)
qed

lemma install_completes_lemma:
  assumes "quiet w" and "identity_pattern etag" and "d_conflict (w_dir w) \<noteq> Blocked"
    and "install_ok e t data etag mode ((w_dir w)\<lparr>d_prev := d_vault (w_dir w)\<rparr>)"
  shows "\<exists>f w'. installFetched e t data etag mode w = ((f, None), w')
    \<and> d_vault (w_dir w') = File data \<and> cachedRemoteIdentity (w_dir w') = etag \<and> loadConflict (w_dir w') = None
    \<and> (\<forall>previous. d_vault (w_dir w) = File previous \<longrightarrow> d_prev (w_dir w') = File previous)
    \<and> f_Changed f \<and> (f_LocalETag f = f_RemoteETag f \<longleftrightarrow> e_sha256 e data = etag)"
proof -
  define g where "g = (identityFacts e (w_dir w))\<lparr>f_Configuration := ConfigurationConfigured\<rparr>"
  have lock: "lockVault t mode w = (None, w)"
    using assms(1,4) by (auto simp: lockVault_def quiet_lock install_ok_def)
  have guards: "ValidBlob data" "mode \<noteq> pullAdopt \<Longrightarrow> \<not> stale_generation data (w_dir w)"
    "\<not> (mode \<noteq> pullBackground \<and> tx_masterPass t \<noteq> '''' \<and> ValidateVaultBlob e data (tx_masterPass t) \<noteq> None)"
    "mode = pullAdopt \<Longrightarrow> \<not> (case f_Conflict g of None \<Rightarrow> True | Some c \<Rightarrow> f_LocalETag g \<noteq> sc_LocalETag c)"
    "mode \<noteq> pullAdopt \<Longrightarrow> \<not> isSuperseded etag (w_dir w)" "mode \<noteq> pullAdopt \<Longrightarrow> \<not> divergedFor mode g etag"
    using assms(4) by (auto simp: install_ok_def g_def split: option.splits)
  have "installFetched e t data etag mode w = replace_vault e t data etag mode g w"
    unfolding installFetched_def lock Let_def prod.case option.case g_def [symmetric]
    using guards by (cases "mode = pullAdopt") auto
  moreover have "etag \<noteq> ''''" using assms(2) by (rule sha_nonempty)
  moreover have "vault_kept ((w_dir w)\<lparr>d_prev := d_vault (w_dir w)\<rparr>)" using assms(4) by (simp add: install_ok_def)
  ultimately obtain f w' where r: "installFetched e t data etag mode w = ((f, None), w')"
    "d_vault (w_dir w') = File data"
    "d_prev (w_dir w') = (case d_vault (w_dir w) of File p \<Rightarrow> File p | _ \<Rightarrow> d_prev (w_dir w))"
    "d_etag (w_dir w') = File (etag @ [CHR 0x0A])" "d_conflict (w_dir w') = Absent"
    "f_LocalETag f = e_sha256 e data" "f_Changed f" "f_RemoteETag f = cachedRemoteIdentity (w_dir w')"
    using quiet_replace_vault [OF assms(1) _ assms(3), of etag e t data mode g] by metis
  moreover have "cachedRemoteIdentity (w_dir w') = etag"
    using r(4) trim_space_identity_line [OF assms(2)] by (simp add: cachedRemoteIdentity_def ReadFile_def)
  ultimately show ?thesis by (auto simp: loadConflict_def decode_json_def ReadFile_def)
qed

text \<open>
  
  A pull whose guards hold completes: when no other process interferes and no system call fails, a
  download that passes every check (format, password, generation, superseded identities,
  divergence, or the reviewed evidence for an adoption) is installed. The vault is the download, the
  previous vault is the backup, the confirmed remote identity is the downloaded one, the conflict
  evidence is gone, and the machine is fresh when the service names a blob by its digest.
\<close>

theorem install_completes:
  assumes "quiet w" and "identity_pattern etag" and "d_conflict (w_dir w) \<noteq> Blocked"
    and "install_ok e t data etag mode ((w_dir w)\<lparr>d_prev := d_vault (w_dir w)\<rparr>)"
  shows "\<exists>f w'. installFetched e t data etag mode w = ((f, None), w')
    \<and> d_vault (w_dir w') = File data \<and> cachedRemoteIdentity (w_dir w') = etag \<and> loadConflict (w_dir w') = None
    \<and> (\<forall>previous. d_vault (w_dir w) = File previous \<longrightarrow> d_prev (w_dir w') = File previous)
    \<and> f_Changed f \<and> (f_LocalETag f = f_RemoteETag f \<longleftrightarrow> e_sha256 e data = etag)"
  using assms by (rule install_completes_lemma)

theorem install_completes_witness:
  "\<exists>f w'. installFetched (demo_env []) demo_txn demo_remote (e_sha256 (demo_env []) demo_remote) pullRefresh demo_online
      = ((f, None), w') \<and> d_vault (w_dir w') = File demo_remote"
proof -
  have "quiet demo_online" "d_conflict (w_dir demo_online) \<noteq> Blocked" by code_simp+
  moreover have "install_ok (demo_env []) demo_txn demo_remote (e_sha256 (demo_env []) demo_remote) pullRefresh
      ((w_dir demo_online)\<lparr>d_prev := d_vault (w_dir demo_online)\<rparr>)"
    unfolding install_ok_def by code_simp
  ultimately show ?thesis using install_completes [OF _ demo_sha256] by blast
qed

theorem pulls_replace_safely_witness:
  "emits (allowed
      {SyncStateFile, PrevVaultFile, ConflictFile, SupersededFile, GenerationFile, RemoteEtagFile, SettingsFile}
      (\<lambda>r. req_Method r \<in> {GET, HEAD})
      (careful_replacement (demo_env [])
         (\<lambda>data. tx_masterPass demo_txn = '''' \<or> ValidateVaultBlob (demo_env []) data (tx_masterPass demo_txn) = None)
         (\<lambda>cached. cached = '''')))
      demo_online (snd (Pull (demo_env []) (\<lambda>_. ('''', '''')) demo_txn demo_online))"
  by (rule pulls_replace_safely [OF demo_sha256, where describe = "\<lambda>_. ('''', '''')"]) simp

text \<open>
  C19.
  The background process replaces the vault only while it still holds its claim and no publication
  awaits reconciliation, only with a well-formed blob that is no rollback, and only after the
  previous vault is kept in the backup file; a local vault that was never confirmed, or that
  differs from both the confirmed and the downloaded version while the remote has moved, is never
  overwritten. It sends only \<^verbatim>\<open>GET\<close> and \<^verbatim>\<open>HEAD\<close> requests, so it publishes nothing.
\<close>

theorem background_sync_safe:
  assumes sha256_hex: "\<And>bs. identity_pattern (e_sha256 e bs)"
  shows "emits (allowed
      {SyncStateFile, PrevVaultFile, ConflictFile, SupersededFile, GenerationFile, RemoteEtagFile, SettingsFile}
      (\<lambda>r. req_Method r \<in> {GET, HEAD})
      (\<lambda>d d'. \<not> publishingIntentPending d \<and> (claim = '''' \<or> ss_ClaimToken (LoadSyncState d) = claim)
          \<and> careful_replacement e (\<lambda>_. True) (\<lambda>_. False) d d')) w (snd (BackgroundSync e describe t claim w))"
    (is "emits ?Q w _")
proof (rule emits_mono)
  note sha = sha_nonempty [OF sha256_hex]
  let ?t = "t\<lparr>tx_claim := claim\<rparr>" let ?P = "pull_effect e (t\<lparr>tx_claim := claim\<rparr>) pullBackground"
  have apply_remote: "emits ?P w v'"
    if "applyRemoteIdentity e ?t cfg f rem force pullBackground v = (x, v')" "emits ?P w v" for cfg f rem force v x v'
    using that(1) that(2) [unfolded pull_effect_def] unfolding pull_effect_def
    by (rule emits_applyRemoteIdentity) (use sha in auto)
  have rec: "emits ?P w (recordSuccess e ?t v)" "emits ?P w (recordFailure e describe ?t er v)"
    "emits ?P w (RecordSkipped e ?t v)" "emits ?P w (recordSkippedNotConfigured ?t v)" if "emits ?P w v" for v er
    using that unfolding pull_effect_def by (auto intro!: emits_record)
  have etag: "emits ?P w v'" if "RemoteETag e cfg v = (x, v')" "emits ?P w v" for cfg v x v'
    using that unfolding pull_effect_def by (rule emits_RemoteETag) simp
  show "emits ?P w (snd (BackgroundSync e describe t claim w))"
    unfolding BackgroundSync_def Let_def
    by (auto split: prod.splits option.splits sum.splits if_splits intro!: rec elim!: apply_remote etag emits_localFacts)
  show "?Q ev" if "?P ev" for ev
    using that install_ok_careful [of e ?t _ _ pullBackground, OF _ _ _ _ sha]
    by (cases ev) (auto simp: pull_effect_def pull_files_def install_ok_def claimStillValid_def)
qed


theorem background_sync_safe_witness:
  "emits (allowed
      {SyncStateFile, PrevVaultFile, ConflictFile, SupersededFile, GenerationFile, RemoteEtagFile, SettingsFile}
      (\<lambda>r. req_Method r \<in> {GET, HEAD})
      (\<lambda>d d'. \<not> publishingIntentPending d \<and> (''c1'' = '''' \<or> ss_ClaimToken (LoadSyncState d) = ''c1'')
          \<and> careful_replacement (demo_env []) (\<lambda>_. True) (\<lambda>_. False) d d'))
      demo_online (snd (BackgroundSync (demo_env []) (\<lambda>_. ('''', '''')) demo_txn ''c1'' demo_online))"
  by (rule background_sync_safe [OF demo_sha256])

text \<open>
  A read never waits for the network in local-first mode or offline: \<^verbatim>\<open>Refresh\<close> then sends no request
  and touches no file but the schedule \<^verbatim>\<open>sync-state.json\<close>, and it fails only when the cloud
  configuration itself is invalid, whatever the recorded state of synchronization.
\<close>

theorem local_reads_need_no_network:
  assumes "tx_offline t \<or> LocalFirst e (w_dir w) \<or> \<not> set_AutoSync (LoadSettings (w_dir w))"
    and "Refresh e t w = ((f, err), w')"
  shows "emits (allowed {SyncStateFile} (\<lambda>_. False) (\<lambda>_ _. False)) w w'
    \<and> (err = None \<or> err = Some [ErrConfiguration] \<and> \<not> tx_offline t)"
proof -
  let ?P = "allowed {SyncStateFile} (\<lambda>_. False) (\<lambda>_ _. False)"
  obtain f1 w1 where r: "refresh e t False w = ((f1, err), w1)"
    and w': "w' = (if err = None \<and> tx_observe t then emit Observed w1 else w1)"
    using assms(2) by (auto simp: Refresh_def split: prod.splits)
  obtain f0 v where v: "localFacts e w = (f0, v)" by (rule prod.exhaust)
  obtain cfg state er where cfg: "configuration e t (w_dir v) = (cfg, state, er)" by (rule prod_cases3)
  have dir: "w_dir v = w_dir w" using localFacts_result(1) [OF v] .
  have v': "emits ?P w v" using v by (rule emits_localFacts) simp
  have first: "emits ?P w u'" if "refreshLocalFirst e t g s v = (x, u')" for g s x u'
    using that v' by (rule emits_refreshLocalFirst) simp
  have error: "er = None \<or> er = Some [ErrConfiguration] \<and> \<not> tx_offline t"
    and offline: "tx_offline t \<Longrightarrow> state = ConfigurationOffline \<and> er = None"
    using cfg by (auto simp: configuration_def split: if_splits sum.splits json.splits option.splits)
  have "emits ?P w w1 \<and> (err = None \<or> err = Some [ErrConfiguration] \<and> \<not> tx_offline t)"
  proof (cases "er \<noteq> None \<or> state = ConfigurationOffline \<or> state = ConfigurationUnconfigured")
    case True
    then show ?thesis using r v' error by (auto simp: refresh_def v cfg Let_def split: if_splits)
  next
    case False
    with offline have "\<not> tx_offline t" by blast
    with assms(1) dir have "EffectiveSyncMode e (LoadSettings (w_dir v)) = SyncModeLocalFirst \<or> \<not> set_AutoSync (LoadSettings (w_dir v))"
      by (auto simp: LocalFirst_def)
    then show ?thesis using r v' False by (auto simp: refresh_def v cfg Let_def split: if_splits prod.splits dest: first)
  qed
  then show ?thesis unfolding w' by (auto simp: emits_def)
qed

theorem local_reads_need_no_network_witness:
  "\<exists>f w'. Refresh (demo_env []) demo_txn demo_online = ((f, None), w')
     \<and> emits (allowed {SyncStateFile} (\<lambda>_. False) (\<lambda>_ _. False)) demo_online w' \<and> w_trace w' \<noteq> []"
proof -
  let ?x = "Refresh (demo_env []) demo_txn demo_online"
  have "snd (fst ?x) = None" "w_trace (snd ?x) \<noteq> []" by code_simp+
  then obtain f w' where x: "?x = ((f, None), w')" "w_trace w' \<noteq> []" by (cases ?x) (metis fst_conv snd_conv prod.collapse)
  have "LocalFirst (demo_env []) (w_dir demo_online)" by code_simp
  with local_reads_need_no_network [OF _ x(1)] x show ?thesis by blast
qed


text \<open>
  
  Rollback is refused: whatever the state of the local vault, a download with a generation below the
  high-water mark, or whose identity this machine has already seen replaced, is never installed
  except by reviewed adoption. Nothing but the conflict evidence changes in the directory found
  under the lock, and the caller gets an error.
\<close>

theorem rollback_refused:
  assumes "installFetched e t data etag mode w = ((f, err), w')" and "lockVault t mode w = (None, locked)"
    and "mode \<noteq> pullAdopt" and "stale_generation data (w_dir locked) \<or> isSuperseded etag (w_dir locked)"
  shows "(\<exists>er. err = Some er \<and> (ErrRefresh \<in> set er \<or> ErrRemoteSuperseded \<in> set er))
    \<and> w_dir w' = (w_dir locked)\<lparr>d_conflict := d_conflict (w_dir w')\<rparr>
    \<and> emits (allowed {ConflictFile} (\<lambda>_. False) (\<lambda>_ _. False)) w w'"
proof -
  define g where "g = (identityFacts e (w_dir locked))\<lparr>f_Configuration := ConfigurationConfigured\<rparr>"
  let ?P = "allowed {ConflictFile} (\<lambda>_. False) (\<lambda>_ _. False)"
  have locked: "emits ?P w locked" using assms(2) by (rule emits_lockVault) simp
  have "((f, err), w') = ((g, Some [ErrRefresh]), locked) \<or> ((f, err), w') = supersededError e g etag locked"
    using assms(1,3,4) unfolding installFetched_def assms(2) Let_def prod.case option.case g_def [symmetric]
    by (auto split: if_splits)
  then show ?thesis
  proof
    assume r: "((f, err), w') = supersededError e g etag locked"
    have "\<exists>er. err = Some er \<and> (ErrRefresh \<in> set er \<or> ErrRemoteSuperseded \<in> set er)"
      using r by (auto simp: supersededError_def conflictError_def Let_def split: prod.splits if_splits bool.splits)
    then show ?thesis
      using supersededError_result(2) [OF r [symmetric]] emits_supersededError [OF r [symmetric] locked] by simp
  qed (use locked in simp)
qed

theorem rollback_refused_witness:
  "\<exists>f er w'. installFetched (demo_env []) demo_txn demo_remote ''x'' pullRefresh demo_world = ((f, Some er), w')
     \<and> d_vault (w_dir w') = Absent"
proof -
  obtain f err w' where r: "installFetched (demo_env []) demo_txn demo_remote ''x'' pullRefresh demo_world = ((f, err), w')"
    by (metis prod.exhaust)
  have "lockVault demo_txn pullRefresh demo_world = (None, demo_world)"
    by (simp add: lockVault_def AcquireFileLock_def demo_world_def)
  moreover have "stale_generation demo_remote (w_dir demo_world)" "d_vault (w_dir demo_world) = Absent" by code_simp+
  ultimately obtain er where "err = Some er"
    and w': "w_dir w' = (w_dir demo_world)\<lparr>d_conflict := d_conflict (w_dir w')\<rparr>"
    using rollback_refused [OF r] by (metis pull_mode.distinct(3))
  moreover have "d_vault (w_dir w') = Absent"
    using arg_cong [OF w', of d_vault] \<open>d_vault (w_dir demo_world) = Absent\<close> by simp
  ultimately show ?thesis using r by auto
qed

section \<open>Publication and adoption\<close>

definition puts :: "world \<Rightarrow> http_request list" where
  "puts w = filter (\<lambda>r. req_Method r = PUT) (sent (w_trace w))"

lemma puts_unchanged:
  assumes "emits (allowed F (\<lambda>r. req_Method r \<noteq> PUT) V) w w'"
  shows "puts w' = puts w"
proof -
  obtain evs where evs: "w_trace w' = w_trace w @ evs" "list_all (allowed F (\<lambda>r. req_Method r \<noteq> PUT) V) evs"
    using assms by (auto simp: emits_def)
  have "filter (\<lambda>r. req_Method r = PUT) (sent evs) = []" if "list_all (allowed F (\<lambda>r. req_Method r \<noteq> PUT) V) evs" for evs
    using that
  proof (induction evs)
    case (Cons ev evs)
    then show ?case by (cases ev) auto
  qed simp
  with evs show ?thesis by (simp add: puts_def)
qed


lemma emits_preservePublicationConflict:
  assumes "emits (allowed F M V) w0 w" and "ConflictFile \<in> F"
  shows "emits (allowed F M V) w0 (snd (preservePublicationConflict e p i w))"
proof -
  obtain now w1 where "clock_now w = (now, w1)" by (rule prod.exhaust)
  with assms show ?thesis
    unfolding preservePublicationConflict_def preserveConflict_def by (simp add: emits_put_snd emits_clock)
qed

lemma emits_settle_push:
  "settle_push e t prepared current outcome w = (r, w') \<Longrightarrow> emits (allowed F M V) w0 w \<Longrightarrow> ConflictFile \<in> F \<Longrightarrow>
     (\<And>r. req_Method r = HEAD \<Longrightarrow> M r) \<Longrightarrow> emits (allowed F M V) w0 w'"
  by (auto simp: settle_push_def Let_def split: sum.splits prod.splits if_splits
      intro!: emits_preservePublicationConflict elim!: emits_ObservePublicationIdentity)

text \<open>The request that \<^verbatim>\<open>PushBlobObserved\<close> sends: conditional on the prerequisite.\<close>

definition conditional_put :: "bytes \<Rightarrow> blob_identity \<Rightarrow> http_request \<Rightarrow> bool" where
  "conditional_put blob prerequisite r =
     (req_Method r = PUT \<and> req_Path r = ''/sync'' \<and> req_Body r = blob
      \<and> (if bi_Exists prerequisite
         then req_IfMatch r = quote_mark @ trim_set (bi_Value prerequisite) quote_mark @ quote_mark \<and> req_IfNoneMatch r = ''''
         else req_IfMatch r = '''' \<and> req_IfNoneMatch r = ''*''))"

lemma PushBlobObserved_sent:
  assumes "PushBlobObserved e cfg blob \<lparr>rb_Exists = bi_Exists p, rb_Value = bi_Value p\<rparr> w = (r, w')"
  shows "puts w' = puts w \<or> (\<exists>req. conditional_put blob p req \<and> puts w' = puts w @ [req])"
    and "emits (allowed F M V) w0 w \<Longrightarrow> (\<And>r. M r) \<Longrightarrow> emits (allowed F M V) w0 w'"
proof -
  have http: "puts v' = puts v @ [req]" if "http_Do req v = (x, v')" "req_Method req = PUT" for req v x v'
    using that by (auto simp: http_Do_def puts_def split: list.splits)
  have new: "conditional_put blob p (if bi_Exists p
      then req0\<lparr>req_IfMatch := quote_mark @ trim_set (bi_Value p) quote_mark @ quote_mark\<rparr> else req0\<lparr>req_IfNoneMatch := ''*''\<rparr>)"
    if "NewRequest e cfg PUT ''/sync'' blob = Some req0" for req0
    using that by (auto simp: NewRequest_def conditional_put_def split: if_splits)
  define req where "req req0 = (if bi_Exists p
      then req0\<lparr>req_IfMatch := quote_mark @ trim_set (bi_Value p) quote_mark @ quote_mark\<rparr> else req0\<lparr>req_IfNoneMatch := ''*''\<rparr>)" for req0 :: http_request
  have cases: "w' = w \<or> (\<exists>req0 x. NewRequest e cfg PUT ''/sync'' blob = Some req0 \<and> http_Do (req req0) w = (x, w'))"
    using assms unfolding PushBlobObserved_def Let_def req_def
    by (auto split: if_splits option.splits prod.splits)
  show "puts w' = puts w \<or> (\<exists>req. conditional_put blob p req \<and> puts w' = puts w @ [req])"
    using cases new http unfolding req_def [symmetric] conditional_put_def by metis
  show "emits (allowed F M V) w0 w \<Longrightarrow> (\<And>r. M r) \<Longrightarrow> emits (allowed F M V) w0 w'"
    using cases by (auto elim!: emits_http)
qed

lemma send_publication_steps:
  assumes "SendPublication e describe t blob prepared w = ((identity, err), w')"
  shows "(puts w' = puts w
      \<or> (\<exists>req current w1. puts w' = puts w @ [req] \<and> conditional_put blob (pp_Prerequisite prepared) req
           \<and> e_sha256 e blob = pp_Target prepared
           \<and> ObservePublicationIdentity e t w = (Inr current, w1) \<and> identity_equal current (pp_Prerequisite prepared)))
    \<and> (err = None \<longrightarrow> bi_Exists identity \<and> bi_Value identity = pp_Target prepared)
    \<and> emits (allowed {ConflictFile, SyncStateFile} (\<lambda>_. True) (\<lambda>_ _. False)) w w'"
proof -
  let ?F = "{ConflictFile, SyncStateFile}"
  let ?N = "allowed ?F (\<lambda>r. req_Method r \<noteq> PUT) (\<lambda>_ _. False)" and ?A = "allowed ?F (\<lambda>_. True) (\<lambda>_ _. False)"
  obtain v where send: "send_publication e t blob prepared w = ((identity, err), v)"
    and w': "w' = (if err = None then v else recordExplicitOutcome e describe t err v)"
    using assms by (auto simp: SendPublication_def split: prod.splits)
  have rec: "puts w' = puts v" "emits ?A w v \<Longrightarrow> emits ?A w w'"
    using puts_unchanged [OF emits_record(7) [of ?F "\<lambda>r. req_Method r \<noteq> PUT" "\<lambda>_ _. False" v v e describe t err]]
    unfolding w' by (auto intro: emits_record)
  obtain obs w1 where obs: "ObservePublicationIdentity e t w = (obs, w1)" by (rule prod.exhaust)
  have obs': "puts w1 = puts w" "emits ?A w w1"
    using emits_ObservePublicationIdentity [OF obs, of ?F "\<lambda>r. req_Method r \<noteq> PUT" "\<lambda>_ _. False" w]
      emits_ObservePublicationIdentity [OF obs, of ?F "\<lambda>_. True" "\<lambda>_ _. False" w]
    by (auto intro: puts_unchanged)
  have preserve: "puts (snd (preservePublicationConflict e p i u)) = puts u" for p i u
    using emits_preservePublicationConflict [of ?F "\<lambda>r. req_Method r \<noteq> PUT" "\<lambda>_ _. False" u u] by (auto intro: puts_unchanged)
  have settle: "puts u' = puts u" if "settle_push e t prepared cur out u = (x, u')" for cur out u x u'
    using emits_settle_push [OF that, of ?F "\<lambda>r. req_Method r \<noteq> PUT" "\<lambda>_ _. False" u] by (auto intro: puts_unchanged)
  have settle_ok: "bi_Exists i \<and> bi_Value i = pp_Target prepared"
    if "settle_push e t prepared cur out u = ((i, None), u')" for cur out u i u'
    using that by (auto simp: settle_push_def identity_equal_def Let_def split: sum.splits prod.splits if_splits)
  consider (early) "v = w" "err \<noteq> None"
    | (observed) "v = w1 \<or> (\<exists>c. v = snd (preservePublicationConflict e prepared c w1))"
        "err = None \<longrightarrow> bi_Exists identity \<and> bi_Value identity = pp_Target prepared"
    | (pushed) current cfg out w2 where "obs = Inr current" "e_sha256 e blob = pp_Target prepared"
        "identity_equal current (pp_Prerequisite prepared)"
        "PushBlobObserved e cfg blob \<lparr>rb_Exists = bi_Exists (pp_Prerequisite prepared), rb_Value = bi_Value (pp_Prerequisite prepared)\<rparr> w1 = (out, w2)"
        "settle_push e t prepared current out w2 = ((identity, err), v)"
    using send unfolding send_publication_def obs opaqueIdentity_def
    by (auto simp: identity_equal_def split: sum.splits prod.splits if_splits option.splits)
  then show ?thesis
  proof cases
    case early
    with rec show ?thesis by auto
  next
    case observed
    with rec preserve obs' emits_preservePublicationConflict [OF obs'(2)] show ?thesis by auto
  next
    case pushed
    note push = PushBlobObserved_sent [OF pushed(4)]
    have "emits ?A w v" using pushed(5) by (rule emits_settle_push) (use push(2) obs' in auto)
    moreover have "err = None \<longrightarrow> bi_Exists identity \<and> bi_Value identity = pp_Target prepared"
      using pushed(5) settle_ok by auto
    ultimately show ?thesis
      using push(1) pushed(1,2,3) obs obs'(1) rec settle [OF pushed(5)] by auto
  qed
qed


text \<open>
  C20.
  A publication replaces the remote blob only conditionally and at most once: \<^verbatim>\<open>SendPublication\<close> sends
  no \<^verbatim>\<open>PUT\<close> or exactly one; that request carries the prepared bytes, whose digest is the prepared
  target, and the service is asked to accept it only while the remote is the prepared prerequisite
  (\<^verbatim>\<open>If-Match\<close>, or \<^verbatim>\<open>If-None-Match: *\<close> for a first push), which a \<^verbatim>\<open>HEAD\<close> request of the same call has
  just observed. It reports success only for the target identity, and it changes no file but the
  conflict evidence and the schedule: never the vault.
\<close>

theorem send_publication_conditional:
  assumes "SendPublication e describe t blob prepared w = ((identity, err), w')"
  shows "(puts w' = puts w
      \<or> (\<exists>req current w1. puts w' = puts w @ [req] \<and> conditional_put blob (pp_Prerequisite prepared) req
           \<and> e_sha256 e blob = pp_Target prepared
           \<and> ObservePublicationIdentity e t w = (Inr current, w1) \<and> identity_equal current (pp_Prerequisite prepared)))
    \<and> (err = None \<longrightarrow> bi_Exists identity \<and> bi_Value identity = pp_Target prepared)
    \<and> emits (allowed {ConflictFile, SyncStateFile} (\<lambda>_. True) (\<lambda>_ _. False)) w w'"
  using assms by (rule send_publication_steps)

definition demo_first_push :: world where
  "demo_first_push = demo_online\<lparr>
     w_http := [(id, Some ((demo_response None)\<lparr>resp_Status := 404\<rparr>)), (id, Some (demo_response None))]\<rparr>"

theorem send_publication_conditional_witness:
  "\<exists>identity w' req.
     SendPublication (demo_env []) (\<lambda>_. ('''', '''')) demo_txn demo_remote
       \<lparr>pp_Prerequisite = no_blob, pp_Target = e_sha256 (demo_env []) demo_remote\<rparr> demo_first_push = ((identity, None), w')
     \<and> puts w' = [req] \<and> conditional_put demo_remote no_blob req"
proof -
  let ?p = "\<lparr>pp_Prerequisite = no_blob, pp_Target = e_sha256 (demo_env []) demo_remote\<rparr>"
  let ?r = "SendPublication (demo_env []) (\<lambda>_. ('''', '''')) demo_txn demo_remote ?p demo_first_push"
  have "snd (fst ?r) = None" "length (puts (snd ?r)) = 1" "puts demo_first_push = []" by code_simp+
  then obtain identity w' where r: "?r = ((identity, None), w')" "length (puts w') = 1" "puts demo_first_push = []"
    by (metis prod.collapse)
  with send_publication_conditional [OF r(1)] show ?thesis by force
qed

lemma prepare_publication_steps:
  assumes "PreparePublication e describe t blob w = (r, w')"
  shows "(case r of
      Inl err \<Rightarrow> err \<noteq> []
    | Inr prepared \<Rightarrow> pp_Target prepared = e_sha256 e blob
        \<and> (if cachedRemoteIdentity (w_dir w) = '''' then \<not> bi_Exists (pp_Prerequisite prepared)
           else pp_Prerequisite prepared = \<lparr>bi_Exists = True, bi_Value = cachedRemoteIdentity (w_dir w)\<rparr>
             \<and> identity_pattern (cachedRemoteIdentity (w_dir w))))
    \<and> puts w' = puts w \<and> emits (allowed {ConflictFile, SyncStateFile} (\<lambda>r. req_Method r = HEAD) (\<lambda>_ _. False)) w w'"
proof -
  let ?P = "allowed {ConflictFile, SyncStateFile} (\<lambda>r. req_Method r = HEAD) (\<lambda>_ _. False)"
  obtain q v where pre: "preflight_publication e t blob w = (q, v)" by (rule prod.exhaust)
  have put: "emits ?P w u'" if "preserveConflict c u = (ok, u')" "emits ?P w u" for c u ok u'
    using that unfolding preserveConflict_def by (rule emits_put_file) simp
  obtain f w1 where f: "localFacts e w = (f, w1)" by (rule prod.exhaust)
  note facts = localFacts_result [OF f]
  have w1: "emits ?P w w1" using f by (rule emits_localFacts) simp
  have inspect: "emits ?P w u'" if "InspectRemoteBlob e cfg w1 = (x, u')" for cfg x u'
    using that w1 by (rule emits_InspectRemoteBlob) simp
  have v: "emits ?P w v"
    using pre w1 unfolding preflight_publication_def f Let_def prod.case
    by (auto split: prod.splits option.splits sum.splits if_splits bool.splits dest: inspect elim!: put emits_clock)
  have cfg: "configuration e t d = (c, st, Some er) \<Longrightarrow> er \<noteq> []" for d c st er
    by (auto simp: configuration_def split: if_splits sum.splits json.splits option.splits)
  have q: "case q of Inl err \<Rightarrow> err \<noteq> []
    | Inr prepared \<Rightarrow> pp_Target prepared = e_sha256 e blob
        \<and> (if cachedRemoteIdentity (w_dir w) = '''' then \<not> bi_Exists (pp_Prerequisite prepared)
           else pp_Prerequisite prepared = \<lparr>bi_Exists = True, bi_Value = cachedRemoteIdentity (w_dir w)\<rparr>
             \<and> identity_pattern (cachedRemoteIdentity (w_dir w)))"
    using pre unfolding preflight_publication_def f Let_def prod.case facts(5)
    by (auto simp: opaqueIdentity_def split: prod.splits option.splits sum.splits if_splits bool.splits dest: cfg)
  have r: "r = q" and w': "w' = v \<or> (\<exists>er. w' = recordExplicitOutcome e describe t (Some er) v)"
    using assms pre by (auto simp: PreparePublication_def split: sum.splits if_splits)
  from w' have steps: "emits ?P w w'"
  proof
    assume "\<exists>er. w' = recordExplicitOutcome e describe t (Some er) v"
    then obtain er where "w' = recordExplicitOutcome e describe t (Some er) v" ..
    then show ?thesis using emits_record(7) [OF v] by simp
  qed (use v in simp)
  have no_put: "allowed {ConflictFile, SyncStateFile} (\<lambda>r. req_Method r \<noteq> PUT) (\<lambda>_ _. False) ev" if "?P ev" for ev
    using that by (cases ev) auto
  have "puts w' = puts w" by (rule puts_unchanged [OF emits_mono [OF steps no_put]])
  with steps q show ?thesis unfolding r by blast
qed

text \<open>
  A prepared publication is based on what this machine last saw: the preflight succeeds only when
  the remote has no blob and none was ever confirmed here, or when the remote identity is the one
  confirmed last; the target is the digest of the exact bytes. It sends no \<^verbatim>\<open>PUT\<close> and changes no file
  but the conflict evidence and the schedule.
\<close>

theorem prepare_publication_sound:
  assumes "PreparePublication e describe t blob w = (r, w')"
  shows "(case r of
      Inl err \<Rightarrow> err \<noteq> []
    | Inr prepared \<Rightarrow> pp_Target prepared = e_sha256 e blob
        \<and> (if cachedRemoteIdentity (w_dir w) = '''' then \<not> bi_Exists (pp_Prerequisite prepared)
           else pp_Prerequisite prepared = \<lparr>bi_Exists = True, bi_Value = cachedRemoteIdentity (w_dir w)\<rparr>
             \<and> identity_pattern (cachedRemoteIdentity (w_dir w))))
    \<and> puts w' = puts w \<and> emits (allowed {ConflictFile, SyncStateFile} (\<lambda>r. req_Method r = HEAD) (\<lambda>_ _. False)) w w'"
  using assms by (rule prepare_publication_steps)

theorem prepare_publication_sound_witness:
  "\<exists>prepared w'. PreparePublication (demo_env []) (\<lambda>_. ('''', '''')) demo_txn demo_remote demo_first_push = (Inr prepared, w')
     \<and> \<not> bi_Exists (pp_Prerequisite prepared) \<and> puts w' = []"
proof -
  let ?r = "PreparePublication (demo_env []) (\<lambda>_. ('''', '''')) demo_txn demo_remote demo_first_push"
  have "\<not> isl (fst ?r)" "cachedRemoteIdentity (w_dir demo_first_push) = ''''" "puts demo_first_push = []" by code_simp+
  then obtain prepared w' where r: "?r = (Inr prepared, w')" by (metis prod.collapse sum.collapse(2))
  from prepare_publication_sound [OF r] r \<open>cachedRemoteIdentity _ = ''''\<close> \<open>puts demo_first_push = []\<close> show ?thesis by auto
qed

text \<open>
  
  Reviewed adoption covers exactly what was reviewed: the vault is replaced only by a blob whose
  digest is the reviewed identity, and only while the conflict evidence in the directory was
  recorded for the local vault found there, which is kept in the backup file; a local change made
  after the review is kept. The command publishes nothing.
\<close>

theorem adoption_is_reviewed:
  assumes "AdoptRemote e t expected w = (r, w')"
  shows "emits (allowed {PrevVaultFile, ConflictFile, SupersededFile, GenerationFile, RemoteEtagFile, SettingsFile}
      (\<lambda>r. req_Method r \<in> {GET, HEAD})
      (\<lambda>d d'. vault_kept d \<and> (\<exists>data. d' \<in> {d, d\<lparr>d_vault := File data\<rparr>} \<and> e_sha256 e data = bi_Value expected)
         \<and> (\<exists>c. loadConflict d = Some c \<and> sc_LocalETag c = (case localOpaqueIdentity e d of None \<Rightarrow> '''' | Some l \<Rightarrow> l)))) w w'"
proof -
  define V where "V d d' \<longleftrightarrow> vault_kept d \<and> (\<exists>data. d' \<in> {d, d\<lparr>d_vault := File data\<rparr>} \<and> e_sha256 e data = bi_Value expected)
         \<and> (\<exists>c. loadConflict d = Some c \<and> sc_LocalETag c = (case localOpaqueIdentity e d of None \<Rightarrow> '''' | Some l \<Rightarrow> l))" for d d'
  define P where "P = allowed {PrevVaultFile, ConflictFile, SupersededFile, GenerationFile, RemoteEtagFile, SettingsFile}
      (\<lambda>r. req_Method r \<in> {GET, HEAD}) V"
  have etag: "e_sha256 e data = bi_Value expected"
    if "FetchExpected e cfg (bi_Value expected) u = (Inr (data, c), u')" for cfg u data c u'
    using that by (auto simp: FetchExpected_def Let_def split: if_splits option.splits prod.splits)
  have fetch: "emits P w u'" if "FetchExpected e cfg x u = (y, u')" "emits P w u" for cfg x u y u'
    using that unfolding P_def by (rule emits_FetchExpected) simp
  have observe: "emits P w u'" if "ObservePublicationIdentity e t u = (y, u')" "emits P w u" for u y u'
    using that unfolding P_def by (rule emits_ObservePublicationIdentity) simp
  have install: "emits P w u'"
    if "installFetched e t data c pullAdopt u = (y, u')" "e_sha256 e data = bi_Value expected" "emits P w u" for data c u y u'
    using that(1,3) unfolding P_def
    by (rule emits_installFetched)
      (use that(2) in \<open>auto simp: V_def pull_files_def install_ok_def identityFacts_def split: option.splits\<close>)
  have "emits P w w'"
    using assms unfolding AdoptRemote_def Let_def
    by (auto split: prod.splits if_splits sum.splits dest: etag elim!: install fetch observe emits_localFacts)
  then show ?thesis unfolding P_def V_def .
qed

theorem adoption_is_reviewed_witness:
  "\<exists>r w'. AdoptRemote (demo_env []) demo_txn \<lparr>bi_Exists = True, bi_Value = e_sha256 (demo_env []) demo_remote\<rparr> demo_online = (r, w')
     \<and> emits (allowed {PrevVaultFile, ConflictFile, SupersededFile, GenerationFile, RemoteEtagFile, SettingsFile}
      (\<lambda>r. req_Method r \<in> {GET, HEAD})
      (\<lambda>d d'. vault_kept d \<and> (\<exists>data. d' \<in> {d, d\<lparr>d_vault := File data\<rparr>}
            \<and> e_sha256 (demo_env []) data = bi_Value \<lparr>bi_Exists = True, bi_Value = e_sha256 (demo_env []) demo_remote\<rparr>)
         \<and> (\<exists>c. loadConflict d = Some c \<and> sc_LocalETag c = (case localOpaqueIdentity (demo_env []) d of None \<Rightarrow> '''' | Some l \<Rightarrow> l))))
       demo_online w'"
  by (intro exI conjI, rule surjective_pairing, rule adoption_is_reviewed [OF surjective_pairing])

section \<open>Unpublished changes and an unmoved remote\<close>

text \<open>
  An explicit pull is not a no-op when the remote has not moved: \<^verbatim>\<open>diverged\<close> demands that the remote
  differs from the confirmed identity, so a pull of the very version confirmed last replaces a local
  vault with unpublished changes. They survive only in the backup file, which the next pull replaces.
\<close>

lemma pull_of_unmoved_remote_discards_local_changes:
  assumes "quiet w" and "identity_pattern etag" and "d_conflict (w_dir w) \<noteq> Blocked"
    and "cachedRemoteIdentity (w_dir w) = etag" and "d_vault (w_dir w) = File local" and "e_sha256 e local \<noteq> etag"
    and "ValidBlob data" and "tx_masterPass t = ''''" and "\<not> stale_generation data (w_dir w)" and "\<not> isSuperseded etag (w_dir w)"
  shows "\<exists>f w'. installFetched e t data etag pullRefresh w = ((f, None), w')
    \<and> d_vault (w_dir w') = File data \<and> loadConflict (w_dir w') = None"
proof -
  have "install_ok e t data etag pullRefresh ((w_dir w)\<lparr>d_prev := d_vault (w_dir w)\<rparr>)"
    using assms(4,5,7-10) by (auto simp: install_ok_def vault_kept_def divergedFor_def diverged_def identityFacts_def cachedRemoteIdentity_def)
  from install_completes_lemma [OF assms(1,2,3) this] show ?thesis by blast
qed

end
