(* ===== verification/Publication_Props.thy ===== *)
theory Publication_Props
  imports Publication Sync_Properties Ledger_Publication
begin

text \<open>
  Properties of publication: the vault is finalized only after the service has named the target
  identity, and finalization removes exactly the published entries.
\<close>

section \<open>Vault writes after a confirmation\<close>

definition vault_write :: "event \<Rightarrow> bool" where
  "vault_write ev = (case ev of Wrote n d d' \<Rightarrow> n = VaultFile | _ \<Rightarrow> False)"

fun only_after :: "(event \<Rightarrow> bool) \<Rightarrow> event list \<Rightarrow> bool" where
  "only_after C [] = True"
| "only_after C (ev # evs) = (C ev \<or> \<not> vault_write ev \<and> only_after C evs)"

text \<open>From \<open>w\<close> to \<open>w'\<close>, no vault write comes before an event that satisfies \<open>C\<close>.\<close>

definition guarded :: "(event \<Rightarrow> bool) \<Rightarrow> world \<Rightarrow> world \<Rightarrow> bool" where
  "guarded C w w' = (\<exists>evs. w_trace w' = w_trace w @ evs \<and> only_after C evs)"

definition reached :: "(event \<Rightarrow> bool) \<Rightarrow> world \<Rightarrow> world \<Rightarrow> bool" where
  "reached C w w' = (\<exists>evs. w_trace w' = w_trace w @ evs \<and> only_after C evs \<and> list_ex C evs)"

text \<open>A response of the service that names the target identity.\<close>

definition confirms :: "string \<Rightarrow> event \<Rightarrow> bool" where
  "confirms target ev =
     (case ev of
        Received (Some resp) \<Rightarrow> resp_Status resp = 200 \<and> trim_set (resp_ETag resp) quote_mark = target
      | _ \<Rightarrow> False)"

abbreviation no_vault :: "event \<Rightarrow> bool" where
  "no_vault \<equiv> (\<lambda>ev. \<not> vault_write ev)"

lemma only_after_append:
  "only_after C (xs @ ys) = (only_after C xs \<and> (list_ex C xs \<or> only_after C ys))"
  by (induction xs) auto

lemma only_after_no_vault: "list_all no_vault evs \<Longrightarrow> only_after C evs"
  by (induction evs) auto

lemma guarded_no_vault: "emits no_vault w w' \<Longrightarrow> guarded C w w'"
  by (auto simp: emits_def guarded_def intro: only_after_no_vault)

lemma guarded_after_no_vault: "emits no_vault w w1 \<Longrightarrow> guarded C w1 w' \<Longrightarrow> guarded C w w'"
  by (auto simp: emits_def guarded_def only_after_append intro: only_after_no_vault)

lemma guarded_after_reached: "reached C w w1 \<Longrightarrow> emits (\<lambda>_. True) w1 w' \<Longrightarrow> guarded C w w'"
  by (auto simp: emits_def guarded_def reached_def only_after_append)

lemma reached_trans: "emits no_vault w w1 \<Longrightarrow> reached C w1 w' \<Longrightarrow> reached C w w'"
  by (auto simp: emits_def reached_def only_after_append intro: only_after_no_vault)

lemma reached_then: "reached C w w1 \<Longrightarrow> emits no_vault w1 w' \<Longrightarrow> reached C w w'"
  by (auto simp: emits_def reached_def only_after_append)

lemma reached_guarded: "reached C w w' \<Longrightarrow> guarded C w w'"
  by (auto simp: guarded_def reached_def)

lemma emits_allowed_no_vault: "emits (allowed F M (\<lambda>_ _. False)) w w' \<Longrightarrow> VaultFile \<notin> F \<Longrightarrow> emits no_vault w w'"
  by (erule emits_mono) (auto simp: vault_write_def split: event.splits)

section \<open>Confirmation\<close>

lemma http_Do_reached:
  "http_Do req w = (Some resp, w') \<Longrightarrow> resp_Status resp = 200 \<Longrightarrow>
     reached (confirms (trim_set (resp_ETag resp) quote_mark)) w w'"
  by (auto simp: http_Do_def reached_def confirms_def vault_write_def split: list.splits)

lemma InspectRemoteBlob_reached:
  "InspectRemoteBlob e cfg w = (Inr r, w') \<Longrightarrow> rb_Exists r \<Longrightarrow> reached (confirms (rb_Value r)) w w'"
  by (auto simp: InspectRemoteBlob_def split: if_splits option.splits prod.splits dest!: http_Do_reached)

lemma ObservePublicationIdentity_reached:
  "ObservePublicationIdentity e t w = (Inr i, w') \<Longrightarrow> bi_Exists i \<Longrightarrow> reached (confirms (bi_Value i)) w w'"
  by (auto simp: ObservePublicationIdentity_def split: if_splits option.splits sum.splits prod.splits
      dest!: InspectRemoteBlob_reached)

lemma PushBlobObserved_reached:
  "PushBlobObserved e cfg blob p w = (Inr (etag, observed), w') \<Longrightarrow> reached (confirms etag) w w'"
  by (auto simp: PushBlobObserved_def Let_def split: if_splits option.splits prod.splits dest!: http_Do_reached)

lemma no_vault_steps:
  fixes p :: blob_identity
  shows "ObservePublicationIdentity e t w = (r, w') \<Longrightarrow> emits no_vault w w'"
    and "PushBlobObserved e cfg blob \<lparr>rb_Exists = bi_Exists p, rb_Value = bi_Value p\<rparr> w = (q, w') \<Longrightarrow> emits no_vault w w'"
    and "emits no_vault w (recordExplicitOutcome e describe t err w)"
    and "emits no_vault w (snd (preservePublicationConflict e prepared i w))"
proof -
  let ?F = "{ConflictFile, SyncStateFile}"
  have nv: "emits (allowed ?F (\<lambda>_. True) (\<lambda>_ _. False)) w u \<Longrightarrow> emits no_vault w u" for u
    by (erule emits_allowed_no_vault) simp
  show "ObservePublicationIdentity e t w = (r, w') \<Longrightarrow> emits no_vault w w'"
    by (rule nv, erule emits_ObservePublicationIdentity) simp_all
  show "PushBlobObserved e cfg blob \<lparr>rb_Exists = bi_Exists p, rb_Value = bi_Value p\<rparr> w = (q, w') \<Longrightarrow> emits no_vault w w'"
    by (rule nv, erule PushBlobObserved_sent(2)) simp_all
  show "emits no_vault w (recordExplicitOutcome e describe t err w)" by (rule nv, rule emits_record(7)) simp_all
  show "emits no_vault w (snd (preservePublicationConflict e prepared i w))"
    by (rule nv, rule emits_preservePublicationConflict) simp_all
qed

lemma settle_push_reached:
  assumes "settle_push e t prepared current outcome w1 = ((i, None), w')"
    and "\<And>etag observed. outcome = Inr (etag, observed) \<Longrightarrow> reached (confirms etag) w w1" and "emits no_vault w w1"
  shows "reached (confirms (pp_Target prepared)) w w'"
proof -
  obtain etag observed where out: "outcome = Inr (etag, observed)"
    using assms(1) by (cases outcome) (auto simp: settle_push_def Let_def split: prod.splits if_splits)
  consider "w' = w1" "etag = pp_Target prepared"
    | c where "ObservePublicationIdentity e t w1 = (Inr c, w')" "bi_Exists c" "bi_Value c = pp_Target prepared"
    using assms(1) unfolding settle_push_def out Let_def
    by (auto simp: identity_equal_def split: prod.splits if_splits sum.splits)
  then show ?thesis
  proof cases
    case 1
    with assms(2) [OF out] show ?thesis by simp
  next
    case (2 c)
    then show ?thesis using reached_trans [OF assms(3)] ObservePublicationIdentity_reached by metis
  qed
qed

lemma SendPublication_reached:
  assumes "SendPublication e describe t blob prepared w = ((i, None), w')"
  shows "reached (confirms (pp_Target prepared)) w w' \<and> e_sha256 e blob = pp_Target prepared"
proof -
  have send: "send_publication e t blob prepared w = ((i, None), w')"
    using assms by (auto simp: SendPublication_def split: prod.splits if_splits)
  obtain obs w1 where obs: "ObservePublicationIdentity e t w = (obs, w1)" by (rule prod.exhaust)
  have w1: "emits no_vault w w1" using obs by (rule no_vault_steps)
  consider (observed) c where "obs = Inr c" "bi_Exists c" "bi_Value c = pp_Target prepared" "w' = w1" "e_sha256 e blob = pp_Target prepared"
    | (pushed) current cfg out w2 where "e_sha256 e blob = pp_Target prepared"
        "PushBlobObserved e cfg blob \<lparr>rb_Exists = bi_Exists (pp_Prerequisite prepared), rb_Value = bi_Value (pp_Prerequisite prepared)\<rparr> w1 = (out, w2)"
        "settle_push e t prepared current out w2 = ((i, None), w')"
    using send unfolding send_publication_def obs opaqueIdentity_def
    by (auto simp: identity_equal_def split: sum.splits prod.splits if_splits option.splits)
  then show ?thesis
  proof cases
    case observed
    with obs ObservePublicationIdentity_reached show ?thesis by metis
  next
    case pushed
    have "reached (confirms (pp_Target prepared)) w1 w'"
      using pushed(3) by (rule settle_push_reached)
        (use pushed(2) PushBlobObserved_reached no_vault_steps(2) in blast)+
    with pushed(1) w1 reached_trans show ?thesis by blast
  qed
qed


section \<open>Finalization and reconciliation\<close>

lemma no_vault_intent:
  shows "savePublishingIntent e docsize i w = (r, w') \<Longrightarrow> emits no_vault w w'"
    and "clearPublishingIntent w = (ok, w') \<Longrightarrow> emits no_vault w w'"
proof -
  show "savePublishingIntent e docsize i w = (r, w') \<Longrightarrow> emits no_vault w w'"
    by (auto simp: savePublishingIntent_def vault_write_def split: option.splits if_splits prod.splits elim!: emits_put_file)
  have removed: "emits no_vault w (u\<lparr>w_removes := x\<rparr>)"  if "os_Remove IntentFile d_intent d_intent_update w = (r, u)" for u x r
    using emits_os_Remove [OF that emits_refl] by (simp add: emits_def vault_write_def)
  show "clearPublishingIntent w = (ok, w') \<Longrightarrow> emits no_vault w w'"
    using removed
    by (auto simp: clearPublishingIntent_def RemovePrivateFile_def Let_def
        split: prod.splits option.splits read_error.splits elim!: emits_os_Remove simp: vault_write_def)
qed

lemma no_vault_confirm:
  "confirm_published e describe t intent selected v w = (r, w') \<Longrightarrow> emits no_vault w w'"
proof -
  assume "confirm_published e describe t intent selected v w = (r, w')"
  then obtain ok where "clearPublishingIntent (ConfirmPublication e describe t (pi_TargetIdentity intent) w) = (ok, w')"
    by (auto simp: confirm_published_def Let_def split: prod.splits bool.splits)
  moreover have "emits (allowed (insert SyncStateFile pull_files) (\<lambda>_. True) (\<lambda>_ _. False)) w
      (ConfirmPublication e describe t (pi_TargetIdentity intent) w)"
    unfolding ConfirmPublication_def by (intro emits_record(7) emits_commitSuccess) auto
  then have "emits no_vault w (ConfirmPublication e describe t (pi_TargetIdentity intent) w)"
    by (rule emits_allowed_no_vault) (simp add: pull_files_def)
  ultimately show ?thesis using no_vault_intent(2) emits_trans by blast
qed

lemma emits_any: "w_trace w' = w_trace w @ evs \<Longrightarrow> emits (\<lambda>_. True) w w'"
  by (simp add: emits_def list_all_iff)

lemma emits_weaken: "emits P w w' \<Longrightarrow> emits (\<lambda>_. True) w w'"
  by (auto elim: emits_mono)

lemma Load_trace: "Load e pw w = (r, w') \<Longrightarrow> w_trace w' = w_trace w \<and> w_dir w' = w_dir w \<and> w_locks w' = w_locks w
    \<and> w_writes w' = w_writes w \<and> w_removes w' = w_removes w"
  by (auto simp: Load_def Let_def split: sum.splits read_error.splits option.splits)

lemma Load_rand: "Load e pw w = (r, w') \<Longrightarrow> w_rand w' = w_rand w"
  by (auto simp: Load_def Let_def split: sum.splits read_error.splits option.splits)

lemma lockVaultWrite_trace: "lockVaultWrite w = (r, w') \<Longrightarrow> w_trace w' = w_trace w"
  by (auto simp: lockVaultWrite_def split: prod.splits option.splits lock_error.splits dest: AcquireFileLock_frame(2))

lemma finalize_extends:
  assumes "finalizePublishingIntent e describe pw t intent w = (r, w')"
  shows "emits (\<lambda>_. True) w w'"
proof -
  obtain lr w1 where lock: "lockVaultWrite w = (lr, w1)" by (rule prod.exhaust)
  obtain lo w2 where load: "Load e pw w1 = (lo, w2)" by (rule prod.exhaust)
  have base: "w_trace w1 = w_trace w" "w_trace w2 = w_trace w"
    using lockVaultWrite_trace [OF lock] Load_trace [OF load] by auto
  have save: "emits (\<lambda>_. True) w u" if "Save e v pw w2 = (x, u)" for v x u
    using that by (rule Save_result) (use base(2) in \<open>auto intro: emits_any\<close>)
  have confirm: "emits (\<lambda>_. True) w u'" if "confirm_published e describe t intent sel v u = (x, u')" "emits (\<lambda>_. True) w u"
    for sel v u x u'
    using emits_trans [OF that(2) emits_weaken [OF no_vault_confirm [OF that(1)]]] .
  have refl: "emits (\<lambda>_. True) w w1" "emits (\<lambda>_. True) w w2" using base by (auto intro: emits_same)
  show ?thesis
    using assms refl unfolding finalizePublishingIntent_def lock load Let_def
    by (auto simp: load split: option.splits sum.splits prod.splits if_splits dest: save elim!: confirm)
qed

lemma finalize_or_save_extends:
  "savePublishingIntent e docsize i w = (r, w') \<Longrightarrow> emits (\<lambda>_. True) w0 w \<Longrightarrow> emits (\<lambda>_. True) w0 w'"
  using no_vault_intent(1) emits_weaken emits_trans by blast

text \<open>
  
  Reconciliation never finalizes on its own word: unless the intent records that an earlier process
  already saw the target confirmed, the vault is not written before the service has answered with
  the target identity of the intent; without a valid intent nothing is written at all.
\<close>

theorem reconcile_confirms_first:
  assumes "reconcilePublishingIntent e docsize describe pw t w = (outcome, w')"
  shows "case loadPublishingIntent e (w_dir w) of
      Inl err \<Rightarrow> w' = w
    | Inr intent \<Rightarrow> pi_State intent \<noteq> intentFinalizationFailed \<longrightarrow> guarded (confirms (pi_TargetIdentity intent)) w w'"
proof (cases "loadPublishingIntent e (w_dir w)")
  case (Inl err)
  with assms show ?thesis by (cases err) (auto simp: reconcilePublishingIntent_def)
next
  case (Inr intent)
  let ?C = "confirms (pi_TargetIdentity intent)"
  have "guarded ?C w w'" if nf: "pi_State intent \<noteq> intentFinalizationFailed"
  proof -
    obtain obs w1 where obs: "ObservePublicationIdentity e t w = (obs, w1)" by (rule prod.exhaust)
    have w1: "emits no_vault w w1" using obs by (rule no_vault_steps)
    obtain fin w2 where fin: "finalizePublishingIntent e describe pw t intent w1 = (fin, w2)" by (rule prod.exhaust)
    note saved = finalize_or_save_extends [OF _ finalize_extends [OF fin]]
    have clear: "emits no_vault w u'" if "clearPublishingIntent w1 = (ok, u')" for ok u'
      using emits_trans [OF w1 no_vault_intent(2) [OF that]] .
    have save: "emits no_vault w u'" if "savePublishingIntent e docsize i w1 = (x, u')" for i x u'
      using emits_trans [OF w1 no_vault_intent(1) [OF that]] .
    consider "emits no_vault w w'"
      | remote where "obs = Inr remote" "equalBlobIdentity remote (intent_target intent)" "emits (\<lambda>_. True) w1 w'"
      using assms nf w1 finalize_extends [OF fin] saved [OF prod.collapse [symmetric]]
      unfolding reconcilePublishingIntent_def Inr obs Let_def
      by (auto simp: fin split: if_splits sum.splits prod.splits option.splits dest: clear save no_vault_intent(2) [of w])
    then show ?thesis
    proof cases
      case 1
      then show ?thesis by (rule guarded_no_vault)
    next
      case (2 remote)
      then have "reached ?C w w1"
        using obs ObservePublicationIdentity_reached [of e t w remote w1]
        by (auto simp: equalBlobIdentity_def intent_target_def)
      then show ?thesis using 2(3) by (rule guarded_after_reached)
    qed
  qed
  with Inr show ?thesis by simp
qed


definition demo_ready_intent :: publishing_intent where
  "demo_ready_intent = demo_intent\<lparr>pi_State := ''ready'', pi_TargetIdentity := e_sha256 (demo_env []) demo_remote\<rparr>"

definition demo_intent_world :: world where
  "demo_intent_world = demo_online\<lparr>w_dir := (w_dir demo_online)\<lparr>d_intent :=
     File \<lparr>doc_Size = 300, doc_Tokens = intent_tokens demo_ready_intent, doc_Version = Some (pi_Version demo_ready_intent),
           doc_Intent = Some demo_ready_intent\<rparr>\<rparr>\<rparr>"

theorem reconcile_confirms_first_witness:
  "\<exists>outcome w'. reconcilePublishingIntent (demo_env []) (\<lambda>_. 300) (\<lambda>_. ('''', '''')) ''pw'' demo_txn demo_intent_world = (outcome, w')
     \<and> guarded (confirms (pi_TargetIdentity demo_ready_intent)) demo_intent_world w'"
proof -
  obtain outcome w' where r:
    "reconcilePublishingIntent (demo_env []) (\<lambda>_. 300) (\<lambda>_. ('''', '''')) ''pw'' demo_txn demo_intent_world = (outcome, w')"
    by (rule prod.exhaust)
  have "loadPublishingIntent (demo_env []) (w_dir demo_intent_world) = Inr demo_ready_intent" by code_simp
  moreover have "pi_State demo_ready_intent \<noteq> intentFinalizationFailed" by code_simp
  ultimately have "guarded (confirms (pi_TargetIdentity demo_ready_intent)) demo_intent_world w'"
    using reconcile_confirms_first [OF r] by simp
  with r show ?thesis by blast
qed

lemma VerifyEmptyPublication_no_vault:
  "VerifyEmptyPublication e t w = (r, w') \<Longrightarrow> emits no_vault w w'"
proof -
  assume r: "VerifyEmptyPublication e t w = (r, w')"
  let ?P = "allowed {ConflictFile} (\<lambda>_. True) (\<lambda>_ _. False)"
  have put: "emits ?P w u'" if "preserveConflict c u = (ok, u')" "emits ?P w u" for c u ok u'
    using that unfolding preserveConflict_def by (rule emits_put_file) simp
  have observe: "emits ?P w u'" if "ObservePublicationIdentity e t w = (x, u')" for x u'
    using that emits_refl by (rule emits_ObservePublicationIdentity) simp
  have "emits ?P w w'"
    using r unfolding VerifyEmptyPublication_def
    by (auto split: option.splits sum.splits prod.splits if_splits bool.splits dest: observe elim!: put emits_clock)
  then show ?thesis by (rule emits_allowed_no_vault) simp
qed

lemma PreparePublication_no_vault:
  assumes "PreparePublication e describe t blob w = (r, w')"
  shows "emits no_vault w w'" and "r = Inr prepared \<Longrightarrow> pp_Target prepared = e_sha256 e blob"
  using prepare_publication_steps [OF assms]
  by (auto elim!: emits_allowed_no_vault)

lemma send_and_finalize_guarded:
  assumes "send_and_finalize e docsize describe pw t blob prepared intent w = (r, w')"
    and "pp_Target prepared = target"
  shows "guarded (confirms target) w w'"
proof -
  obtain remote err w1 where send: "SendPublication e describe t blob prepared w = ((remote, err), w1)" by (metis prod.exhaust)
  show ?thesis
  proof (cases err)
    case None
    have reached: "reached (confirms target) w w1" using SendPublication_reached send assms(2) unfolding None by blast
    obtain fin w2 where fin: "finalizePublishingIntent e describe pw t intent w1 = (fin, w2)" by (rule prod.exhaust)
    have "emits (\<lambda>_. True) w1 w'"
      using assms(1) finalize_extends [OF fin] finalize_or_save_extends [OF prod.collapse [symmetric] finalize_extends [OF fin]]
      unfolding send_and_finalize_def send None by (auto simp: fin split: if_splits sum.splits)
    with reached show ?thesis by (rule guarded_after_reached)
  next
    case (Some er)
    have w1: "emits no_vault w w1"
      using send_publication_steps [OF send] by (auto elim!: emits_allowed_no_vault)
    have "emits no_vault w1 w'"
      using assms(1) no_vault_intent(1) [OF prod.collapse [symmetric]] no_vault_intent(2) [OF prod.collapse [symmetric]]
      unfolding send_and_finalize_def send Some by (auto split: if_splits)
    with w1 show ?thesis by (blast intro: guarded_no_vault emits_trans)
  qed
qed

text \<open>
  C21.
  Pending entries leave the ledger only after the service has confirmed the published bytes: in a
  publication, no write of the vault file precedes a response that names the digest of the encrypted
  projection. Whatever fails before (an empty scope, encryption, the durable intent, the preflight,
  the request), the vault is untouched.
\<close>

theorem publish_confirms_first:
  assumes "publish_projection e docsize describe pw t v only p w = (r, w')"
  shows "emits no_vault w w'
    \<or> (\<exists>blob w1. EncryptVault e (proj_Vault p) pw [NextVaultGeneration (w_dir w)] w = (Inr blob, w1)
         \<and> guarded (confirms (e_sha256 e blob)) w w')"
proof (cases "proj_Selected p = []")
  case True
  obtain x w1 where x: "VerifyEmptyPublication e t w = (x, w1)" by (rule prod.exhaust)
  with assms True VerifyEmptyPublication_no_vault [OF x] show ?thesis
    by (auto simp: publish_projection_def split: option.splits)
next
  case False
  obtain enc w1 where enc: "EncryptVault e (proj_Vault p) pw [NextVaultGeneration (w_dir w)] w = (enc, w1)" by (rule prod.exhaust)
  have w1: "emits no_vault w w1" using EncryptVault_frame(3) [OF enc] by (rule emits_same)
  show ?thesis
  proof (cases enc)
    case (Inl err)
    with assms False enc w1 show ?thesis by (simp add: publish_projection_def)
  next
    case (Inr blob)
    have saved: "emits no_vault w u'" if "savePublishingIntent e docsize i u = (x, u')" "emits no_vault w u" for i u x u'
      using emits_trans [OF that(2) no_vault_intent(1) [OF that(1)]] .
    have cleared: "emits no_vault w (snd (clearPublishingIntent u))" if "emits no_vault w u" for u
      using emits_trans [OF that no_vault_intent(2) [OF prod.collapse [symmetric]]] .
    have prepared: "emits no_vault w u'" if "PreparePublication e describe t blob u = (x, u')" "emits no_vault w u" for u x u'
      using emits_trans [OF that(2) PreparePublication_no_vault(1) [OF that(1)]] .
    have "emits no_vault w w' \<or> (\<exists>u prep i. emits no_vault w u \<and> pp_Target prep = e_sha256 e blob
        \<and> send_and_finalize e docsize describe pw t blob prep i u = (r, w'))"
    proof (cases "CachedPublicationPrerequisite (w_dir w1)")
      case (Inl err)
      with assms False w1 enc \<open>enc = Inr blob\<close> show ?thesis by (simp add: publish_projection_def)
    next
      case cached: (Inr cached)
      let ?intent = "new_intent e only p blob cached"
      obtain s1 w2 where s1: "savePublishingIntent e docsize ?intent w1 = (s1, w2)" by (rule prod.exhaust)
      obtain pr w3 where pr: "PreparePublication e describe t blob w2 = (pr, w3)" by (rule prod.exhaust)
      have w2: "emits no_vault w w2" using s1 w1 by (rule saved)
      have w3: "emits no_vault w w3" using pr w2 by (rule prepared)
      have ready: "emits no_vault w w4" if "savePublishingIntent e docsize i w3 = (x, w4)" for i x w4
        using that w3 by (rule saved)
      show ?thesis
        using assms False w2 cleared [OF w3] PreparePublication_no_vault(2) [OF pr]
        unfolding publish_projection_def enc \<open>enc = Inr blob\<close> Let_def
        by (auto simp: cached s1 pr split: sum.splits prod.splits option.splits dest!: ready)
    qed
    then show ?thesis
      using enc Inr send_and_finalize_guarded guarded_after_no_vault by blast
  qed
qed


theorem publish_confirms_first_witness:
  "\<exists>p r w'. project (demo_ledger_vault 3) '''' = Inr p
     \<and> publish_projection (demo_env [proj_Vault p]) (\<lambda>_. 300) (\<lambda>_. ('''', '''')) ''pw'' demo_txn (demo_ledger_vault 3) '''' p demo_first_push
         = (r, w')
     \<and> (emits no_vault demo_first_push w'
        \<or> (\<exists>blob w1. EncryptVault (demo_env [proj_Vault p]) (proj_Vault p) ''pw''
               [NextVaultGeneration (w_dir demo_first_push)] demo_first_push = (Inr blob, w1)
             \<and> guarded (confirms (e_sha256 (demo_env [proj_Vault p]) blob)) demo_first_push w'))"
proof -
  have "\<not> isl (project (demo_ledger_vault 3) '''')" by code_simp
  then obtain p where p: "project (demo_ledger_vault 3) '''' = Inr p" by (cases "project (demo_ledger_vault 3) ''''") auto
  obtain r w' where "publish_projection (demo_env [proj_Vault p]) (\<lambda>_. 300) (\<lambda>_. ('''', '''')) ''pw'' demo_txn
      (demo_ledger_vault 3) '''' p demo_first_push = (r, w')"
    by (rule prod.exhaust)
  with p publish_confirms_first [OF this] show ?thesis by blast
qed

section \<open>What finalization leaves behind\<close>

lemma quiet_ConfirmPublication:
  assumes "quiet w" and "identity_pattern target" and "d_conflict (w_dir w) \<noteq> Blocked"
  shows "quiet (ConfirmPublication e describe t target w)
    \<and> (\<exists>s g st x. w_dir (ConfirmPublication e describe t target w) =
         (w_dir w)\<lparr>d_superseded := s, d_generation := g, d_etag := File (target @ [CHR 0x0A]), d_conflict := Absent,
           d_settings := st, d_state := x\<rparr>)"
proof -
  have ne: "target \<noteq> ''''" using assms(2) by (rule sha_nonempty)
  obtain s g st where c: "quiet (commitSuccess e ''push'' target [] w)"
    "w_dir (commitSuccess e ''push'' target [] w) =
       (w_dir w)\<lparr>d_superseded := s, d_generation := g, d_etag := File (target @ [CHR 0x0A]), d_conflict := Absent, d_settings := st\<rparr>"
    using quiet_commitSuccess [OF assms(1) ne assms(3)] by blast
  with quiet_recordExplicitOutcome [OF c(1), of e describe t None] show ?thesis
    by (auto simp: ConfirmPublication_def)
qed

lemma quiet_clearIntent:
  assumes "quiet w" and "d_intent (w_dir w) \<noteq> Blocked"
  obtains w' where "clearPublishingIntent w = (True, w')" and "quiet w'" and "w_dir w' = (w_dir w)\<lparr>d_intent := Absent\<rparr>"
proof (cases "d_intent (w_dir w) = Absent")
  case True
  with assms(1) show ?thesis
    by (intro that [of w]) (cases w, auto simp: clearPublishingIntent_def RemovePrivateFile_def os_Remove_def Let_def quiet_def)
next
  case False
  with assms show ?thesis
    by (intro that [of "emit (Removed IntentFile) (w\<lparr>w_dir := (w_dir w)\<lparr>d_intent := Absent\<rparr>\<rparr>)"])
      (cases w, auto simp: clearPublishingIntent_def RemovePrivateFile_def os_Remove_def Let_def quiet_def emit_def)+
qed

text \<open>
  C22.
  Finalization is exact. Suppose a scope was projected and published, and the ledger on disk has
  grown by further mutations since. In an undisturbed run, finalizing the intent removes exactly the
  published entries: the vault on disk then decrypts to a consistent ledger with the same inventory
  and every other entry, the confirmed remote identity is the published one, the intent is gone, and
  the receipt lists the published and the remaining mutations.
\<close>

theorem publication_finalizes_exactly:
  assumes "project v0 only = Inr p" and "proj_Selected p \<noteq> []"
    and "ledger_ok v1" and "v_PendingBase v1 = v_PendingBase v0"
    and "v_PendingMutations v1 = v_PendingMutations v0 @ extra"
    and "pi_TransactionIDs intent = map pm_ID (proj_Selected p)" and "identity_pattern (pi_TargetIdentity intent)"
    and "quiet w" and "w_rand w = Some salt # Some nonce # rs"
    and "d_conflict (w_dir w) \<noteq> Blocked" and "d_intent (w_dir w) \<noteq> Blocked"
    and "Load e pw w = (Inr v1, w1)" and "codec_ok e (markPublished v1 (proj_Selected p) (proj_Vault p))"
  shows "\<exists>receipt v2 w'. finalizePublishingIntent e describe pw t intent w = (Inr receipt, w')
    \<and> fst (Load e pw w') = Inr v2 \<and> ledger_ok v2 \<and> inventory_of v2 = inventory_of v1
    \<and> v_PendingMutations v2 = filter (\<lambda>m. pm_ID m \<notin> set (pi_TransactionIDs intent)) (v_PendingMutations v0) @ extra
    \<and> cachedRemoteIdentity (w_dir w') = pi_TargetIdentity intent \<and> d_intent (w_dir w') = Absent
    \<and> pub_Preflight receipt = mutationViews (proj_Selected p)
    \<and> pub_Remaining receipt = mutationViews (v_PendingMutations v2)"
proof -
  define v2 where "v2 = markPublished v1 (proj_Selected p) (proj_Vault p)"
  note ledger = grown_ledger_finalizes [OF assms(1-5), folded v2_def assms(6)]
  have load: "Load e pw w = (Inr v1, w1)" "w_dir w1 = w_dir w" "quiet w1" "w_rand w1 = w_rand w"
    using assms(8,12) Load_trace [OF assms(12)] Load_rand [OF assms(12)] by (auto simp: quiet_def)
  obtain blob w2 where w2: "Save e v2 pw w1 = (None, w2)" "quiet w2" "w_dir w2 = (w_dir w1)\<lparr>d_vault := File blob\<rparr>"
    "Decrypt (e_kdf e) (e_open e) blob pw = Inr (e_marshal e v2)"
    using quiet_Save [OF load(3) _ assms(13) [folded v2_def], of salt nonce rs pw] load(4) assms(9) by metis
  define w3 where "w3 = ConfirmPublication e describe t (pi_TargetIdentity intent) w2"
  have "d_conflict (w_dir w2) \<noteq> Blocked" using assms(10) w2(3) load(2) by simp
  then obtain s g st x where w3: "quiet w3" "w_dir w3 = (w_dir w2)\<lparr>d_superseded := s, d_generation := g,
      d_etag := File (pi_TargetIdentity intent @ [CHR 0x0A]), d_conflict := Absent, d_settings := st, d_state := x\<rparr>"
    using quiet_ConfirmPublication [OF w2(2) assms(7)] unfolding w3_def by blast
  have "d_intent (w_dir w3) \<noteq> Blocked" using assms(11) w3 w2(3) load(2) by simp
  then obtain w4 where w4: "clearPublishingIntent w3 = (True, w4)" "w_dir w4 = (w_dir w3)\<lparr>d_intent := Absent\<rparr>"
    using quiet_clearIntent [OF w3(1)] by metis
  have lock: "lockVaultWrite w = (None, w)" using assms(8) by (simp add: lockVaultWrite_def quiet_lock)
  define only' where "only' = (if pi_Scope intent = ''only'' \<and> length (pi_TransactionIDs intent) = 1
    then hd (pi_TransactionIDs intent) else '''')"
  have proj: "projectTransactionIDs v1 (pi_TransactionIDs intent) = Inr p" using ledger by blast
  have result: "finalizePublishingIntent e describe pw t intent w = (Inr (publicationReceipt only' (proj_Selected p) v2), w4)"
    using assms(2) unfolding finalizePublishingIntent_def lock prod.case option.case load(1) sum.case proj Let_def
      v2_def [symmetric] w2(1) confirm_published_def w3_def [symmetric] w4(1) only'_def by simp
  have vault: "d_vault (w_dir w4) = File blob" "d_etag (w_dir w4) = File (pi_TargetIdentity intent @ [CHR 0x0A])"
    "d_intent (w_dir w4) = Absent"
    using w4 w3 w2(3) by simp_all
  have "fst (Load e pw w4) = Inr v2"
    using vault(1) w2(4) assms(13) by (simp add: Load_def ReadFile_def codec_ok_def v2_def Let_def)
  moreover have "cachedRemoteIdentity (w_dir w4) = pi_TargetIdentity intent"
    using vault(2) trim_space_identity_line [OF assms(7)] by (simp add: cachedRemoteIdentity_def ReadFile_def)
  moreover have "pub_Preflight (publicationReceipt only' (proj_Selected p) v2) = mutationViews (proj_Selected p)"
    "pub_Remaining (publicationReceipt only' (proj_Selected p) v2) = mutationViews (v_PendingMutations v2)"
    by (simp_all add: publicationReceipt_def Pending_def)
  moreover have "set (pi_TransactionIDs intent) = pm_ID ` set (proj_Selected p)" by (simp add: assms(6))
  ultimately show ?thesis using result ledger vault(3) by auto
qed


theorem publication_finalizes_exactly_witness:
  "\<exists>e w intent receipt v2 w'.
     finalizePublishingIntent e (\<lambda>_. ('''', '''')) ''pw'' demo_txn intent w = (Inr receipt, w')
     \<and> pi_TransactionIDs intent = [''t2'']
     \<and> fst (Load e ''pw'' w') = Inr v2 \<and> ledger_ok v2 \<and> map pm_ID (v_PendingMutations v2) = [''t1'', ''t3'']"
proof -
  have "isl (project (demo_ledger_vault 2) ''t2'') = False" by code_simp
  then obtain p where p: "project (demo_ledger_vault 2) ''t2'' = Inr p"
    by (cases "project (demo_ledger_vault 2) ''t2''") auto
  have "map_sum id (\<lambda>p. map pm_ID (proj_Selected p)) (project (demo_ledger_vault 2) ''t2'') = Inr [''t2'']"
    by code_simp
  then have sel: "map pm_ID (proj_Selected p) = [''t2'']" using p by simp
  let ?v1 = "demo_ledger_vault 3" and ?v2 = "markPublished (demo_ledger_vault 3) (proj_Selected p) (proj_Vault p)"
  let ?e = "demo_env [?v1, ?v2]"
  have ledger: "ledger_ok ?v1" "v_PendingBase ?v1 = v_PendingBase (demo_ledger_vault 2)"
    "v_PendingMutations ?v1 = v_PendingMutations (demo_ledger_vault 2) @ drop 2 demo_ledger"
    by code_simp+
  have codec: "codec_ok ?e ?v1" "codec_ok ?e ?v2" by (auto intro: demo_codec_ok)
  have quiet: "quiet demo_world" "w_rand demo_world = [Some [1], Some [2], Some [3], Some [4], Some [5], Some [6]]"
    by (simp_all add: quiet_def demo_world_def)
  obtain blob w0 where blob: "Decrypt (e_kdf ?e) (e_open ?e) blob ''pw'' = Inr (e_marshal ?e ?v1)"
    using quiet_Save [OF quiet(1,2) codec(1)] by metis
  define w where "w = demo_world\<lparr>w_dir := demo_dir\<lparr>d_vault := File blob\<rparr>\<rparr>"
  obtain w1 where load: "Load ?e ''pw'' w = (Inr ?v1, w1)"
    using blob codec(1) by (simp add: Load_def ReadFile_def w_def codec_ok_def Let_def)
  define intent where "intent = demo_intent\<lparr>pi_TransactionIDs := [''t2'']\<rparr>"
  have intent: "pi_TransactionIDs intent = map pm_ID (proj_Selected p)" "identity_pattern (pi_TargetIdentity intent)"
    using sel by (simp add: intent_def) (simp add: intent_def, code_simp)
  have w: "quiet w" "w_rand w = [Some [1], Some [2], Some [3], Some [4], Some [5], Some [6]]" "d_conflict (w_dir w) \<noteq> Blocked"
    "d_intent (w_dir w) \<noteq> Blocked"
    using quiet by (simp_all add: w_def demo_dir_def)
  have ne: "proj_Selected p \<noteq> []" using sel by auto
  obtain receipt v2 w' where r: "finalizePublishingIntent ?e (\<lambda>_. ('''', '''')) ''pw'' demo_txn intent w = (Inr receipt, w')"
    "fst (Load ?e ''pw'' w') = Inr v2" "ledger_ok v2"
    "v_PendingMutations v2 = filter (\<lambda>m. pm_ID m \<notin> set (pi_TransactionIDs intent)) (v_PendingMutations (demo_ledger_vault 2)) @ drop 2 demo_ledger"
    using publication_finalizes_exactly [OF p ne ledger intent w load codec(2)] by metis
  have "map pm_ID (filter (\<lambda>m. pm_ID m \<notin> set [''t2'']) (v_PendingMutations (demo_ledger_vault 2)) @ drop 2 demo_ledger) = [''t1'', ''t3'']"
    by code_simp
  with r sel intent show ?thesis by (intro exI [of _ ?e] exI [of _ w] exI [of _ intent]) auto
qed

end
