(* ===== verification/Sync_Server.thy ===== *)
theory Sync_Server
  imports Cloud_Client
begin

text \<open>
  The sync service (\<^verbatim>\<open>internal/syncserver/server.go\<close>): accounts, bearer tokens, and one opaque blob per
  account with conditional replacement. A handler maps a request and the state of the service to a
  response and the new state. What a handler cannot control is its \<open>input\<close>: the outcome of bcrypt,
  random bytes, the clock, failing writes. Requests and responses are those of the client.
\<close>

section \<open>State\<close>

record user =
  u_Email :: string
  u_PasswordHash :: string
  u_TokenHash :: string
  u_TokenHashes :: "string list"
  u_Verified :: bool
  u_UpdatedAt :: string

text \<open>
  The map of users, in the order in which an iteration happens to visit it, its copy in
  \<^verbatim>\<open>users.json\<close>, and the files of \<^verbatim>\<open>vaults/\<close> by path.
\<close>

type_synonym user_map = "(string \<times> user) list"

record server =
  srv_users :: user_map
  srv_users_file :: "user_map json dfile"
  srv_vaults :: "string \<Rightarrow> bytes dfile"

datatype server_write_step =
    SrvMkdir | SrvChmodDir | SrvCreateTemp | SrvWriteTemp | SrvChmodTemp | SrvCloseTemp | SrvRename | SrvRestrict

record server_input =
  in_bcrypt :: "string option"
  in_random :: "bytes option"
  in_now :: int
  in_fail :: "server_write_step option"

text \<open>
  Library behaviour the service uses: SHA-256 in hexadecimal, the comparison of bcrypt, the format of
  time stamps, and the JSON decoder of a credentials request, which sees the first MiB of the body
  and fails on a value that does not end there.
\<close>

record server_env =
  se_sha256 :: "bytes \<Rightarrow> string"
  se_bcrypt_check :: "string \<Rightarrow> string \<Rightarrow> bool"
  se_format_time :: "int \<Rightarrow> string"
  se_decode_auth :: "bytes \<Rightarrow> (string \<times> string) option"

definition string_bytes :: "string \<Rightarrow> bytes" where
  "string_bytes s = map of_char s"

definition hashBytes :: "server_env \<Rightarrow> bytes \<Rightarrow> string" where
  "hashBytes e data = se_sha256 e data"

definition hashToken :: "server_env \<Rightarrow> string \<Rightarrow> string" where
  "hashToken e token = se_sha256 e (string_bytes token)"

definition quoteETag :: "string \<Rightarrow> string" where
  "quoteETag value = quote_mark @ value @ quote_mark"

definition vaultPath :: "server_env \<Rightarrow> string \<Rightarrow> string" where
  "vaultPath e email = se_sha256 e (string_bytes (to_lower email)) @ ''.blob''"

definition maxBlobBytes :: int where "maxBlobBytes = 67108864"
definition maxTokenHashes :: nat where "maxTokenHashes = 256"

definition appendTokenHash :: "string list \<Rightarrow> string \<Rightarrow> string list" where
  "appendTokenHash tokens tokenHash =
     (if tokenHash = '''' then tokens
      else if tokenHash \<in> set tokens then tokens
      else
        (let ts = tokens @ [tokenHash]
         in if length ts > maxTokenHashes then drop (length ts - maxTokenHashes) ts else ts))"

text \<open>\<^verbatim>\<open>writePrivateFile\<close> of the service: True for success; the target is replaced by the rename.\<close>

definition server_write :: "server_write_step option \<Rightarrow> 'a \<Rightarrow> 'a dfile \<Rightarrow> bool \<times> 'a dfile" where
  "server_write fail data old =
     (case fail of
        None \<Rightarrow> (True, File data)
      | Some SrvRestrict \<Rightarrow> (False, File data)
      | Some _ \<Rightarrow> (False, old))"

section \<open>Users\<close>

definition newToken :: "server_env \<Rightarrow> bytes option \<Rightarrow> (string \<times> string) option" where
  "newToken e random =
     (case random of
        None \<Rightarrow> None
      | Some bs \<Rightarrow> (let token = hex_encode (take 32 (bs @ replicate 32 0)) in Some (token, hashToken e token)))"

definition constantTimeEqual :: "string \<Rightarrow> string \<Rightarrow> bool" where
  "constantTimeEqual a b = (if a = '''' \<or> b = '''' \<or> length a \<noteq> length b then False else a = b)"

definition saveLocked :: "server_write_step option \<Rightarrow> server \<Rightarrow> bool \<times> server" where
  "saveLocked fail s =
     (case server_write fail (Json (srv_users s)) (srv_users_file s) of (ok, f) \<Rightarrow> (ok, s\<lparr>srv_users_file := f\<rparr>))"

definition loadUsers :: "server_write_step option \<Rightarrow> server \<Rightarrow> bool \<times> server" where
  "loadUsers fail s =
     (case ReadFile (srv_users_file s) of
        Inl NotExist \<Rightarrow> saveLocked fail (s\<lparr>srv_users := []\<rparr>)
      | Inl ReadErr \<Rightarrow> (False, s)
      | Inr (Malformed _) \<Rightarrow> (False, s)
      | Inr (Json users) \<Rightarrow> (True, s\<lparr>srv_users := users\<rparr>))"

definition put_user :: "user \<Rightarrow> server \<Rightarrow> server" where
  "put_user u s =
     (let key = to_lower (u_Email u)
      in s\<lparr>srv_users := (if map_of (srv_users s) key = None then srv_users s @ [(key, u)]
                         else map (\<lambda>(k, v). if k = key then (k, u) else (k, v)) (srv_users s))\<rparr>)"

datatype add_result = UserAdded | ErrUserExists | UserSaveErr

definition add_user :: "server_write_step option \<Rightarrow> user \<Rightarrow> server \<Rightarrow> add_result \<times> server" where
  "add_user fail u s =
     (if map_of (srv_users s) (to_lower (u_Email u)) \<noteq> None then (ErrUserExists, s)
      else case saveLocked fail (put_user u s) of (ok, s1) \<Rightarrow> (if ok then UserAdded else UserSaveErr, s1))"

definition update_user :: "server_write_step option \<Rightarrow> user \<Rightarrow> server \<Rightarrow> bool \<times> server" where
  "update_user fail u s = saveLocked fail (put_user u s)"

definition get_user :: "server \<Rightarrow> string \<Rightarrow> user option" where
  "get_user s email = map_of (srv_users s) (to_lower email)"

definition holds_token :: "user \<Rightarrow> string \<Rightarrow> bool" where
  "holds_token u tokenHash =
     (constantTimeEqual (u_TokenHash u) tokenHash \<or> list_ex (\<lambda>c. constantTimeEqual c tokenHash) (u_TokenHashes u))"

definition getByToken :: "server \<Rightarrow> string \<Rightarrow> user option" where
  "getByToken s tokenHash = List.find (\<lambda>u. holds_token u tokenHash) (map snd (srv_users s))"

text \<open>\<open>setup\<close>: the directories exist and are private.\<close>

definition New_server :: "string \<Rightarrow> bool \<Rightarrow> server_write_step option \<Rightarrow> server \<Rightarrow> bool \<times> server" where
  "New_server dataDir setup fail disk =
     (if dataDir = '''' then (False, disk) else if \<not> setup then (False, disk) else loadUsers fail disk)"

section \<open>Handlers\<close>

definition respond :: "int \<Rightarrow> http_response" where
  "respond status =
     \<lparr>resp_Status = status, resp_ETag = '''', resp_Body = Some [], resp_Error = None, resp_Token = None,
      resp_Verified = None\<rparr>"

definition writeError :: "int \<Rightarrow> string \<Rightarrow> http_response" where
  "writeError status msg = (respond status)\<lparr>resp_Error := Some msg\<rparr>"

text \<open>The header \<^verbatim>\<open>Authorization\<close>; the client sets it unless it has no token.\<close>

definition authorization :: "http_request \<Rightarrow> string" where
  "authorization r = (if req_Token r = '''' then '''' else ''Bearer '' @ req_Token r)"

definition authenticate :: "server_env \<Rightarrow> server \<Rightarrow> http_request \<Rightarrow> http_response + user" where
  "authenticate e s r =
     (if \<not> has_prefix (authorization r) ''Bearer '' then Inl (writeError 401 ''bearer token required'')
      else
        (let tokenHash = hashToken e (trim_space (drop 7 (authorization r))) in
         case getByToken s tokenHash of
           None \<Rightarrow> Inl (writeError 401 ''invalid token'')
         | Some u \<Rightarrow> Inr u))"

definition decodeAuthRequest :: "server_env \<Rightarrow> http_request \<Rightarrow> http_response + string \<times> string" where
  "decodeAuthRequest e r =
     (case se_decode_auth e (take 1048576 (req_Body r)) of
        None \<Rightarrow> Inl (writeError 400 ''invalid json'')
      | Some (email0, password) \<Rightarrow>
          (let email = trim_space (to_lower email0) in
           if email = '''' \<or> \<not> contains_sub email ''@'' then Inl (writeError 400 ''valid email required'')
           else if length password < 8 then Inl (writeError 400 ''password must be at least 8 characters'')
           else Inr (email, password)))"

definition handleHealth :: "http_request \<Rightarrow> http_response" where
  "handleHealth r = (if req_Path r \<noteq> ''/'' then writeError 404 ''not found'' else respond 200)"

definition handleRegister :: "server_env \<Rightarrow> server_input \<Rightarrow> http_request \<Rightarrow> server \<Rightarrow> http_response \<times> server" where
  "handleRegister e i r s =
     (case decodeAuthRequest e r of
        Inl resp \<Rightarrow> (resp, s)
      | Inr (email, password) \<Rightarrow>
          (case in_bcrypt i of
             None \<Rightarrow> (writeError 500 ''password hashing failed'', s)
           | Some passwordHash \<Rightarrow>
               (case newToken e (in_random i) of
                  None \<Rightarrow> (writeError 500 ''token generation failed'', s)
                | Some (token, tokenHash) \<Rightarrow>
                    (let u = \<lparr>u_Email = email, u_PasswordHash = passwordHash, u_TokenHash = tokenHash,
                             u_TokenHashes = [tokenHash], u_Verified = True, u_UpdatedAt = se_format_time e (in_now i)\<rparr>
                     in case add_user (in_fail i) u s of
                          (ErrUserExists, s1) \<Rightarrow> (writeError 409 ''account already exists'', s1)
                        | (UserSaveErr, s1) \<Rightarrow> (writeError 500 ''could not save account'', s1)
                        | (UserAdded, s1) \<Rightarrow> ((respond 200)\<lparr>resp_Token := Some token\<rparr>, s1)))))"

text \<open>
  \<^verbatim>\<open>handleLogin\<close> reads the user under the lock of the store, releases it, and takes it again to write:
  two steps between which other requests run.
\<close>

definition login_read :: "server_env \<Rightarrow> http_request \<Rightarrow> server \<Rightarrow> http_response + user" where
  "login_read e r s =
     (case decodeAuthRequest e r of
        Inl resp \<Rightarrow> Inl resp
      | Inr (email, password) \<Rightarrow>
          (case get_user s email of
             None \<Rightarrow> Inl (writeError 401 ''invalid credentials'')
           | Some u \<Rightarrow>
               if \<not> se_bcrypt_check e (u_PasswordHash u) password then Inl (writeError 401 ''invalid credentials'')
               else Inr u))"

definition login_write :: "server_env \<Rightarrow> server_input \<Rightarrow> user \<Rightarrow> server \<Rightarrow> http_response \<times> server" where
  "login_write e i u s =
     (case newToken e (in_random i) of
        None \<Rightarrow> (writeError 500 ''token generation failed'', s)
      | Some (token, tokenHash) \<Rightarrow>
          (let u' = u\<lparr>u_TokenHash := tokenHash, u_TokenHashes := appendTokenHash (u_TokenHashes u) tokenHash,
                     u_UpdatedAt := se_format_time e (in_now i)\<rparr>
           in case update_user (in_fail i) u' s of
                (False, s1) \<Rightarrow> (writeError 500 ''could not save account'', s1)
              | (True, s1) \<Rightarrow> ((respond 200)\<lparr>resp_Token := Some token\<rparr>, s1)))"

definition handleLogin :: "server_env \<Rightarrow> server_input \<Rightarrow> http_request \<Rightarrow> server \<Rightarrow> http_response \<times> server" where
  "handleLogin e i r s =
     (case login_read e r s of Inl resp \<Rightarrow> (resp, s) | Inr u \<Rightarrow> login_write e i u s)"

definition handleStatus :: "server_env \<Rightarrow> http_request \<Rightarrow> server \<Rightarrow> http_response" where
  "handleStatus e r s =
     (case authenticate e s r of
        Inl resp \<Rightarrow> resp
      | Inr u \<Rightarrow> (respond 200)\<lparr>resp_Verified := Some (u_Verified u)\<rparr>)"

text \<open>
  The part of \<^verbatim>\<open>handlePush\<close> under the push lock of the account. \<^verbatim>\<open>X-Sync-Precondition\<close> is not read by
  the client and left out.
\<close>

definition push_blob :: "server_env \<Rightarrow> server_input \<Rightarrow> http_request \<Rightarrow> user \<Rightarrow> server \<Rightarrow> http_response \<times> server" where
  "push_blob e i r u s =
     (let data = req_Body r;
          path = vaultPath e (u_Email u);
          read = ReadFile (srv_vaults s path)
      in if read = Inl ReadErr then (writeError 500 ''could not read sync blob'', s)
         else
           (let ifMatch = trim_space (req_IfMatch r);
                ifNoneMatch = trim_space (req_IfNoneMatch r);
                current = (case read of Inl _ \<Rightarrow> None | Inr c \<Rightarrow> Some c);
                matches = (case current of None \<Rightarrow> False
                           | Some c \<Rightarrow> ifMatch = ''*'' \<or> ifMatch = quoteETag (hashBytes e c))
            in if ifMatch \<noteq> '''' \<and> \<not> matches then (writeError 412 ''sync blob precondition failed'', s)
               else if ifNoneMatch = ''*'' \<and> current \<noteq> None then (writeError 412 ''sync blob precondition failed'', s)
               else case server_write (in_fail i) data (srv_vaults s path) of
                 (False, f) \<Rightarrow> (writeError 500 ''could not store sync blob'', s\<lparr>srv_vaults := (srv_vaults s)(path := f)\<rparr>)
               | (True, f) \<Rightarrow>
                   ((respond 200)\<lparr>resp_ETag := quoteETag (hashBytes e data)\<rparr>, s\<lparr>srv_vaults := (srv_vaults s)(path := f)\<rparr>)))"

definition handlePush :: "server_env \<Rightarrow> server_input \<Rightarrow> http_request \<Rightarrow> server \<Rightarrow> http_response \<times> server" where
  "handlePush e i r s =
     (case authenticate e s r of
        Inl resp \<Rightarrow> (resp, s)
      | Inr u \<Rightarrow>
          if int (length (req_Body r)) > maxBlobBytes then (writeError 413 ''sync blob too large'', s)
          else if req_Body r = [] then (writeError 400 ''sync blob required'', s)
          else push_blob e i r u s)"

definition handlePull :: "server_env \<Rightarrow> http_request \<Rightarrow> server \<Rightarrow> http_response" where
  "handlePull e r s =
     (case authenticate e s r of
        Inl resp \<Rightarrow> resp
      | Inr u \<Rightarrow>
          (case ReadFile (srv_vaults s (vaultPath e (u_Email u))) of
             Inl NotExist \<Rightarrow> writeError 404 ''no vault found''
           | Inl ReadErr \<Rightarrow> writeError 500 ''could not read sync blob''
           | Inr data \<Rightarrow> (respond 200)\<lparr>resp_ETag := quoteETag (hashBytes e data), resp_Body := Some data\<rparr>))"

definition handleHead :: "server_env \<Rightarrow> http_request \<Rightarrow> server \<Rightarrow> http_response" where
  "handleHead e r s =
     (case authenticate e s r of
        Inl resp \<Rightarrow> resp
      | Inr u \<Rightarrow>
          (case ReadFile (srv_vaults s (vaultPath e (u_Email u))) of
             Inl NotExist \<Rightarrow> writeError 404 ''no vault found''
           | Inl ReadErr \<Rightarrow> writeError 500 ''could not read sync blob''
           | Inr data \<Rightarrow> (respond 200)\<lparr>resp_ETag := quoteETag (hashBytes e data)\<rparr>))"

definition handleSync :: "server_env \<Rightarrow> server_input \<Rightarrow> http_request \<Rightarrow> server \<Rightarrow> http_response \<times> server" where
  "handleSync e i r s =
     (case req_Method r of
        PUT \<Rightarrow> handlePush e i r s
      | GET \<Rightarrow> (handlePull e r s, s)
      | HEAD \<Rightarrow> (handleHead e r s, s)
      | POST \<Rightarrow> (writeError 405 ''method not allowed'', s))"

text \<open>The routes; \<^verbatim>\<open>method\<close> checks the method before it calls the handler.\<close>

definition method_guard :: "http_method \<Rightarrow> http_request \<Rightarrow> http_response \<times> server \<Rightarrow> server \<Rightarrow> http_response \<times> server" where
  "method_guard m r result s = (if req_Method r \<noteq> m then (writeError 405 ''method not allowed'', s) else result)"

definition serve :: "server_env \<Rightarrow> server_input \<Rightarrow> http_request \<Rightarrow> server \<Rightarrow> http_response \<times> server" where
  "serve e i r s =
     (if req_Path r = ''/auth/register'' then method_guard POST r (handleRegister e i r s) s
      else if req_Path r = ''/auth/login'' then method_guard POST r (handleLogin e i r s) s
      else if req_Path r = ''/auth/status'' then method_guard GET r (handleStatus e r s, s) s
      else if req_Path r = ''/sync'' then handleSync e i r s
      else method_guard GET r (handleHealth r, s) s)"

end
