(* ===== verification/Server_Props.thy ===== *)
theory Server_Props
  imports Sync_Server
begin

text \<open>
  Properties of the sync service: who may change which blob, the exact condition of a conditional push
  and its agreement with the client, the accounts and their tokens, and the history of a blob under
  any interleaving of requests, restarts and half-finished logins.
\<close>

section \<open>What one request changes\<close>

lemma srv_store_same [simp]: "srv_vaults s p = f \<Longrightarrow> s\<lparr>srv_vaults := (srv_vaults s)(p := f)\<rparr> = s"
  by (cases s) (simp add: fun_upd_idem)

lemma server_write_cases:
  assumes "server_write fail data old = (ok, f)"
  shows "ok \<and> f = File data \<or> \<not> ok \<and> (f = File data \<or> f = old)"
proof (cases fail)
  case (Some step)
  with assms show ?thesis by (cases step) (auto simp: server_write_def)
qed (use assms in \<open>simp add: server_write_def\<close>)

lemma server_write_ok: "server_write fail data old = (True, f) \<Longrightarrow> f = File data"
  by (drule server_write_cases) simp

lemma saveLocked_frame [simp]:
  "srv_vaults (snd (saveLocked fail s)) = srv_vaults s" "srv_users (snd (saveLocked fail s)) = srv_users s"
  by (simp_all add: saveLocked_def split: prod.splits)

lemma put_user_vaults [simp]:
  "srv_vaults (put_user u s) = srv_vaults s" "srv_users_file (put_user u s) = srv_users_file s"
  by (simp_all add: put_user_def Let_def)

lemma update_user_vaults [simp]: "srv_vaults (snd (update_user fail u s)) = srv_vaults s"
  by (simp add: update_user_def)

lemma add_user_vaults [simp]: "srv_vaults (snd (add_user fail u s)) = srv_vaults s"
  by (simp add: add_user_def split: prod.splits) (metis put_user_vaults(1) saveLocked_frame(1) snd_conv)

lemma loadUsers_vaults [simp]: "srv_vaults (snd (loadUsers fail s)) = srv_vaults s"
  by (auto simp: loadUsers_def split: sum.splits read_error.splits json.splits)

lemma New_server_vaults [simp]: "srv_vaults (snd (New_server dir setup fail s)) = srv_vaults s"
  by (simp add: New_server_def)

lemma login_write_vaults [simp]: "srv_vaults (snd (login_write e i u s)) = srv_vaults s"
  by (simp add: login_write_def Let_def split: option.splits prod.splits bool.splits)
    (metis update_user_vaults snd_conv)

lemma handleLogin_vaults [simp]: "srv_vaults (snd (handleLogin e i r s)) = srv_vaults s"
  by (simp add: handleLogin_def split: sum.splits)

lemma handleRegister_vaults [simp]: "srv_vaults (snd (handleRegister e i r s)) = srv_vaults s"
  by (simp add: handleRegister_def Let_def split: sum.splits option.splits prod.splits add_result.splits)
    (metis add_user_vaults snd_conv)

text \<open>What the headers of a push demand of the blob it finds.\<close>

definition names_blob :: "server_env \<Rightarrow> bytes dfile \<Rightarrow> http_request \<Rightarrow> bool" where
  "names_blob e f r =
     ((trim_space (req_IfMatch r) = '''' \<or>
       (\<exists>c. f = File c \<and> (trim_space (req_IfMatch r) = ''*'' \<or> trim_space (req_IfMatch r) = quoteETag (hashBytes e c))))
      \<and> (trim_space (req_IfNoneMatch r) = ''*'' \<longrightarrow> (\<forall>c. f \<noteq> File c)))"

lemma push_blob_cases:
  assumes "push_blob e i r u s = (resp, s')"
  shows "s' = s
    \<or> names_blob e (srv_vaults s (vaultPath e (u_Email u))) r
      \<and> s' = s\<lparr>srv_vaults := (srv_vaults s)(vaultPath e (u_Email u) := File (req_Body r))\<rparr>"
  using assms
  by (auto simp: push_blob_def Let_def names_blob_def ReadFile_def split: if_splits prod.splits bool.splits
      sum.splits dfile.splits dest!: server_write_cases)

text \<open>
  A failure after the rename leaves the new blob in place although the response is an error, which the
  client classifies as an explicit rejection.
\<close>

lemma rejected_push_is_stored:
  assumes "in_fail i = Some SrvRestrict" and "req_IfMatch r = ''''" and "req_IfNoneMatch r = ''''"
    and "srv_vaults s (vaultPath e (u_Email u)) = File c"
  shows "push_blob e i r u s = (writeError 500 ''could not store sync blob'',
    s\<lparr>srv_vaults := (srv_vaults s)(vaultPath e (u_Email u) := File (req_Body r))\<rparr>)"
  using assms by (simp add: push_blob_def Let_def ReadFile_def server_write_def)

lemma handlePush_cases:
  assumes "handlePush e i r s = (resp, s')"
  shows "s' = s
    \<or> (\<exists>u. authenticate e s r = Inr u \<and> int (length (req_Body r)) \<le> maxBlobBytes \<and> req_Body r \<noteq> []
        \<and> names_blob e (srv_vaults s (vaultPath e (u_Email u))) r
        \<and> s' = s\<lparr>srv_vaults := (srv_vaults s)(vaultPath e (u_Email u) := File (req_Body r))\<rparr>)"
  using assms by (auto simp: handlePush_def split: sum.splits if_splits dest!: push_blob_cases)

lemma serve_vaults:
  "srv_vaults (snd (serve e i r s)) = srv_vaults s
   \<or> req_Path r = ''/sync'' \<and> req_Method r = PUT \<and> serve e i r s = handlePush e i r s"
  by (auto simp: serve_def method_guard_def handleSync_def split: http_method.splits)

lemma serve_cases:
  assumes "serve e i r s = (resp, s')"
  shows "srv_vaults s' = srv_vaults s
    \<or> req_Path r = ''/sync'' \<and> req_Method r = PUT \<and> handlePush e i r s = (resp, s')"
  using serve_vaults [of e i r s] assms by (cases "handlePush e i r s") auto

lemma authenticate_account:
  assumes "authenticate e s r = Inr u"
  shows "u \<in> snd ` set (srv_users s)" "holds_token u (hashToken e (trim_space (req_Token r)))"
    "req_Token r \<noteq> ''''"
  using assms
  by (auto simp: authenticate_def authorization_def getByToken_def Let_def find_Some_iff in_set_conv_nth
      split: if_splits option.splits) force+

text \<open>
  C25.
  A stored blob changes only by a push that carries a token of the account whose blob it is, is not empty
  and not too large, and whose conditions name the version it replaces; the new version is the body of the
  request and nothing else of the service changes.
\<close>

theorem blobs_change_only_by_authorized_push:
  assumes "serve e i r s = (resp, s')" and "srv_vaults s' \<noteq> srv_vaults s"
  shows "\<exists>u \<in> snd ` set (srv_users s).
      holds_token u (hashToken e (trim_space (req_Token r)))
    \<and> names_blob e (srv_vaults s (vaultPath e (u_Email u))) r
    \<and> s' = s\<lparr>srv_vaults := (srv_vaults s)(vaultPath e (u_Email u) := File (req_Body r))\<rparr>
    \<and> req_Method r = PUT \<and> req_Body r \<noteq> [] \<and> int (length (req_Body r)) \<le> maxBlobBytes"
proof -
  from serve_cases [OF assms(1)] assms(2)
  have put: "req_Method r = PUT" "handlePush e i r s = (resp, s')" by auto
  with handlePush_cases [OF put(2)] assms(2) obtain u where u: "authenticate e s r = Inr u"
    "int (length (req_Body r)) \<le> maxBlobBytes" "req_Body r \<noteq> []"
    "names_blob e (srv_vaults s (vaultPath e (u_Email u))) r"
    "s' = s\<lparr>srv_vaults := (srv_vaults s)(vaultPath e (u_Email u) := File (req_Body r))\<rparr>"
    by blast
  show ?thesis
    using authenticate_account [OF u(1)] u put(1) by (intro bexI [of _ u]) auto
qed

text \<open>A concrete service with one account, whose token is \<^verbatim>\<open>t\<close>.\<close>

definition demo_service_env :: server_env where
  "demo_service_env =
     \<lparr>se_sha256 = (\<lambda>b. ''h'' @ hex_encode [foldr (+) b 0]), se_bcrypt_check = (\<lambda>h p. h = p), se_format_time = (\<lambda>t. ''now''),
      se_decode_auth = (\<lambda>b. if b = [] then None else Some (''Ann@x'', ''password''))\<rparr>"

definition demo_user :: user where
  "demo_user =
     \<lparr>u_Email = ''ann@x'', u_PasswordHash = ''password'', u_TokenHash = hashToken demo_service_env ''t'',
      u_TokenHashes = [hashToken demo_service_env ''t''], u_Verified = True, u_UpdatedAt = ''now''\<rparr>"

definition demo_server :: server where
  "demo_server = \<lparr>srv_users = [(''ann@x'', demo_user)], srv_users_file = Absent, srv_vaults = (\<lambda>_. Absent)\<rparr>"

definition demo_input :: server_input where
  "demo_input = \<lparr>in_bcrypt = Some ''password'', in_random = Some [1, 2, 3], in_now = 0, in_fail = None\<rparr>"

definition demo_put :: http_request where
  "demo_put = \<lparr>req_Method = PUT, req_Path = ''/sync'', req_Token = ''t'', req_IfMatch = '''', req_IfNoneMatch = ''*'',
     req_Body = [5]\<rparr>"

definition demo_login :: http_request where
  "demo_login = \<lparr>req_Method = POST, req_Path = ''/auth/login'', req_Token = '''', req_IfMatch = '''',
     req_IfNoneMatch = '''', req_Body = [1]\<rparr>"

lemma demo_sha256_hex: "se_sha256 demo_service_env x \<noteq> ''''" "CHR 0x22 \<notin> set (hashBytes demo_service_env x)"
proof -
  have "CHR 0x22 \<notin> set hex_digits" by code_simp
  then show "CHR 0x22 \<notin> set (hashBytes demo_service_env x)" "se_sha256 demo_service_env x \<noteq> ''''"
    using hex_encode_digits [of "[foldr (+) x 0]"] by (auto simp: hashBytes_def demo_service_env_def list_all_iff)
qed

theorem blobs_change_only_by_authorized_push_witness:
  "srv_vaults (snd (serve demo_service_env demo_input demo_put demo_server)) \<noteq> srv_vaults demo_server
   \<and> (\<exists>u \<in> snd ` set (srv_users demo_server). holds_token u (hashToken demo_service_env ''t'')
      \<and> names_blob demo_service_env Absent demo_put)"
proof -
  have "srv_vaults (snd (serve demo_service_env demo_input demo_put demo_server))
      (vaultPath demo_service_env ''ann@x'') = File [5]"
    by code_simp
  then have changed: "srv_vaults (snd (serve demo_service_env demo_input demo_put demo_server)) \<noteq> srv_vaults demo_server"
    by (auto simp: demo_server_def)
  have t: "trim_space (req_Token demo_put) = ''t''" by code_simp
  show ?thesis
    using blobs_change_only_by_authorized_push [OF prod.collapse [symmetric] changed] changed
    by (auto simp: t) (auto simp: demo_server_def)
qed

section \<open>A conditional push against the service\<close>

text \<open>The identity a client learns of a blob, and the request with which it replaces the blob.\<close>

definition blob_identity :: "server_env \<Rightarrow> bytes dfile \<Rightarrow> remote_blob_identity" where
  "blob_identity e f =
     (case f of File c \<Rightarrow> \<lparr>rb_Exists = True, rb_Value = hashBytes e c\<rparr> | _ \<Rightarrow> \<lparr>rb_Exists = False, rb_Value = ''''\<rparr>)"

definition push_request :: "http_request \<Rightarrow> remote_blob_identity \<Rightarrow> http_request" where
  "push_request r pre =
     (if rb_Exists pre then r\<lparr>req_IfMatch := quote_mark @ trim_set (rb_Value pre) quote_mark @ quote_mark\<rparr>
      else r\<lparr>req_IfNoneMatch := ''*''\<rparr>)"

lemma trim_space_quoted: "trim_space (quoteETag v) = quoteETag v"
proof -
  have quote: "list_all (\<lambda>q. q \<noteq> [] \<and> hd q \<noteq> CHR 0x22) space_seqs"
    "list_all (\<lambda>q. q \<noteq> [] \<and> hd q \<noteq> CHR 0x22) (map rev space_seqs)"
    by code_simp+
  have "trim_front space_seqs (CHR 0x22 # r) = CHR 0x22 # r"
    "trim_front (map rev space_seqs) (CHR 0x22 # r) = CHR 0x22 # r" for r
    using strip_foreign_front [OF quote(1)] strip_foreign_front [OF quote(2)]
    by (simp_all add: trim_front_fixed)
  then show ?thesis by (simp add: trim_space_def quoteETag_def quote_mark_def)
qed

lemma trim_set_unquoted: "CHR 0x22 \<notin> set v \<Longrightarrow> trim_set v quote_mark = v"
proof -
  assume v: "CHR 0x22 \<notin> set v"
  have "dropWhile (\<lambda>c. c \<in> set quote_mark) w = w" if "CHR 0x22 \<notin> set w" for w
    using that by (cases w) (auto simp: quote_mark_def)
  from this [of v] this [of "rev v"] v show ?thesis by (simp add: trim_set_def trim_right_def)
qed

lemma trim_set_quoted: "CHR 0x22 \<notin> set v \<Longrightarrow> v \<noteq> '''' \<Longrightarrow> trim_set (quoteETag v) quote_mark = v"
proof -
  assume v: "CHR 0x22 \<notin> set v" "v \<noteq> ''''"
  then obtain c cs where c: "v = c # cs" "c \<noteq> CHR 0x22" by (cases v) auto
  from v obtain d ds where d: "rev v = d # ds" "d \<noteq> CHR 0x22"
    by (cases "rev v") (metis rev_is_Nil_conv, metis list.set_intros(1) set_rev)
  have "dropWhile (\<lambda>x. x \<in> set quote_mark) (quoteETag v) = v @ quote_mark"
    using c by (simp add: quoteETag_def quote_mark_def)
  then show ?thesis using d by (simp add: trim_set_def trim_right_def quote_mark_def rev_swap)
qed

lemma authenticate_token: "req_Token r = req_Token q \<Longrightarrow> authenticate e s r = authenticate e s q"
  by (simp add: authenticate_def authorization_def)

text \<open>A push from an account that the service accepts, under a condition of the client.\<close>

lemma push_blob_conditional:
  assumes "f = srv_vaults s (vaultPath e (u_Email u))" and "f = Absent \<or> (\<exists>c. f = File c)"
    and "\<And>x. CHR 0x22 \<notin> set (hashBytes e x)" and "CHR 0x22 \<notin> set (rb_Value pre)"
    and "rb_Exists pre \<or> rb_Value pre = ''''" and "in_fail i = None"
    and "req_IfMatch r = ''''" and "req_IfNoneMatch r = ''''"
  shows "push_blob e i (push_request r pre) u s =
    (if blob_identity e f = pre
     then ((respond 200)\<lparr>resp_ETag := quoteETag (hashBytes e (req_Body r))\<rparr>,
           s\<lparr>srv_vaults := (srv_vaults s)(vaultPath e (u_Email u) := File (req_Body r))\<rparr>)
     else (writeError 412 ''sync blob precondition failed'', s))"
proof (cases "rb_Exists pre")
  case True
  have req: "push_request r pre = r\<lparr>req_IfMatch := quoteETag (rb_Value pre)\<rparr>"
    using True trim_set_unquoted [OF assms(4)] by (simp add: push_request_def quoteETag_def)
  have id: "blob_identity e f = pre \<longleftrightarrow> (\<exists>c. f = File c \<and> quoteETag (hashBytes e c) = quoteETag (rb_Value pre))"
    using assms(2) True by (cases pre) (auto simp: blob_identity_def quoteETag_def)
  have ne: "quoteETag v \<noteq> ''*''" "quoteETag v \<noteq> ''''" for v by (simp_all add: quoteETag_def quote_mark_def)
  show ?thesis
    using assms(1,2,6,8) id unfolding req
    by (auto simp: push_blob_def Let_def ReadFile_def trim_space_quoted ne server_write_def)
next
  case False
  have star: "trim_space ''*'' = ''*''" by code_simp
  have id: "blob_identity e f = pre \<longleftrightarrow> f = Absent"
    using assms(2,5) False by (cases pre) (auto simp: blob_identity_def)
  show ?thesis
    using assms(1,2,6,7) id False
    by (auto simp: push_request_def push_blob_def Let_def ReadFile_def star server_write_def)
qed

lemma client_push_request:
  assumes "requireToken cfg" and "NewRequest e cfg PUT ''/sync'' data = Some req"
    and "w_http w = (others, Some resp) # rest"
  shows "fst (PushBlobObserved e cfg data pre w) =
    (if resp_Status resp \<noteq> 200 then Inl (PushFailed \<lparr>pf_err = parseError resp, pf_explicit = True, pf_ambiguous = False\<rparr>)
     else Inr (trim_set (resp_ETag resp) quote_mark, trim_set (resp_ETag resp) quote_mark \<noteq> ''''))"
    and "sent (w_trace (snd (PushBlobObserved e cfg data pre w))) = sent (w_trace w) @ [push_request req pre]"
  using assms
  by (auto simp: PushBlobObserved_def push_request_def http_Do_def emit_def Let_def)

text \<open>
  C23.
  Client and service together are a compare-and-swap: a push with the identity \<open>pre\<close> that the client
  observed sends one request; when the account still has the blob of that identity, the service stores the
  new blob and the client learns its hash, otherwise the service keeps every blob and the client sees an
  explicit conflict.
\<close>

theorem push_is_compare_and_swap:
  assumes client: "requireToken cfg" "NewRequest e cfg PUT ''/sync'' data = Some req"
    and exchange: "w_http w = (others, Some (fst (serve se i (push_request req pre) s))) # rest"
    and account: "authenticate se s req = Inr u"
    and body: "data \<noteq> []" "int (length data) \<le> maxBlobBytes" "in_fail i = None"
    and blob: "f = srv_vaults s (vaultPath se (u_Email u))" "f = Absent \<or> (\<exists>c. f = File c)"
    and sha: "\<And>x. CHR 0x22 \<notin> set (hashBytes se x) \<and> hashBytes se x \<noteq> ''''"
    and pre: "pre = blob_identity se f0"
  shows "sent (w_trace (snd (PushBlobObserved e cfg data pre w))) = sent (w_trace w) @ [push_request req pre]
    \<and> (if blob_identity se f = pre
       then fst (PushBlobObserved e cfg data pre w) = Inr (hashBytes se data, True)
          \<and> snd (serve se i (push_request req pre) s) =
              s\<lparr>srv_vaults := (srv_vaults s)(vaultPath se (u_Email u) := File data)\<rparr>
       else (\<exists>err. fst (PushBlobObserved e cfg data pre w) = Inl err \<and> PushFailureIsConflict err
            \<and> PushFailureIsExplicit err)
          \<and> snd (serve se i (push_request req pre) s) = s)"
proof -
  have req: "req_Method req = PUT" "req_Path req = ''/sync''" "req_Body req = data"
    "req_IfMatch req = ''''" "req_IfNoneMatch req = ''''"
    using client(2) by (auto simp: NewRequest_def split: if_splits)
  then have same: "req_Method (push_request req pre) = PUT" "req_Path (push_request req pre) = ''/sync''"
    "req_Body (push_request req pre) = data" "req_Token (push_request req pre) = req_Token req"
    by (simp_all add: push_request_def)
  have auth: "authenticate se s (push_request req pre) = Inr u"
    using account authenticate_token [OF same(4)] by simp
  have serve: "serve se i (push_request req pre) s = push_blob se i (push_request req pre) u s"
    using same auth body(1,2) by (simp add: serve_def handleSync_def handlePush_def)
  have unquoted: "CHR 0x22 \<notin> set (rb_Value pre)" "rb_Exists pre \<or> rb_Value pre = ''''"
    using sha unfolding pre by (auto simp: blob_identity_def split: dfile.splits)
  note cas = push_blob_conditional [OF blob(1,2) _ unquoted body(3) req(4,5), folded serve]
  have etag: "trim_set (quoteETag (hashBytes se data)) quote_mark = hashBytes se data"
    using sha by (intro trim_set_quoted) auto
  show ?thesis
    using client_push_request [OF client exchange] cas sha etag req(3)
    by (auto simp: respond_def writeError_def parseError_def readResponseBody_def maxResponseBodyBytes_def)
qed

definition demo_client :: cloud_config where
  "demo_client = \<lparr>cc_Server = ''https://h'', cc_Token = ''t'', cc_Email = ''''\<rparr>"

definition demo_plain_put :: http_request where
  "demo_plain_put = demo_put\<lparr>req_IfNoneMatch := ''''\<rparr>"

theorem push_is_compare_and_swap_witness:
  "let pre = \<lparr>rb_Exists = False, rb_Value = ''''\<rparr>;
       (resp, s') = serve demo_service_env demo_input (push_request demo_plain_put pre) demo_server
   in fst (PushBlobObserved (demo_env []) demo_client [5] pre (demo_world\<lparr>w_http := [(id, Some resp)]\<rparr>))
        = Inr (hashBytes demo_service_env [5], True)
      \<and> srv_vaults s' (vaultPath demo_service_env ''ann@x'') = File [5]"
proof -
  let ?pre = "blob_identity demo_service_env Absent"
  have req: "requireToken demo_client" "NewRequest (demo_env []) demo_client PUT ''/sync'' [5] = Some demo_plain_put"
    "authenticate demo_service_env demo_server demo_plain_put = Inr demo_user"
    by code_simp+
  let ?w = "demo_world\<lparr>w_http := [(id, Some (fst (serve demo_service_env demo_input
      (push_request demo_plain_put ?pre) demo_server)))]\<rparr>"
  have "fst (PushBlobObserved (demo_env []) demo_client [5] ?pre ?w) = Inr (hashBytes demo_service_env [5], True)
    \<and> snd (serve demo_service_env demo_input (push_request demo_plain_put ?pre) demo_server)
      = demo_server\<lparr>srv_vaults := (srv_vaults demo_server)(vaultPath demo_service_env (u_Email demo_user) := File [5])\<rparr>"
    using push_is_compare_and_swap [where f = Absent and f0 = Absent and w = ?w, OF req(1,2) _ req(3),
        of id demo_input ?pre "[]"] demo_sha256_hex
    by (simp add: maxBlobBytes_def demo_input_def demo_server_def hashBytes_def)
  then show ?thesis by (simp add: Let_def blob_identity_def demo_user_def case_prod_beta)
qed

section \<open>Accounts\<close>

text \<open>
  A well-formed account: its address is in lower case, and at most \<open>maxTokenHashes\<close> distinct token hashes are
  valid, the newest included. A well-formed user map has one account per address.
\<close>

definition user_ok :: "user \<Rightarrow> bool" where
  "user_ok u =
     (to_lower (u_Email u) = u_Email u \<and> u_TokenHash u \<in> set (u_TokenHashes u) \<and> distinct (u_TokenHashes u)
      \<and> length (u_TokenHashes u) \<le> maxTokenHashes)"

definition accounts_ok :: "user_map \<Rightarrow> bool" where
  "accounts_ok m = (distinct (map fst m) \<and> (\<forall>(k, u) \<in> set m. k = u_Email u \<and> user_ok u))"

definition server_ok :: "server \<Rightarrow> bool" where
  "server_ok s =
     (accounts_ok (srv_users s) \<and> (case srv_users_file s of File (Json m) \<Rightarrow> accounts_ok m | _ \<Rightarrow> True))"

lemma maxTokenHashes_pos: "0 < maxTokenHashes" "Suc 0 \<le> maxTokenHashes"
  by (simp_all add: maxTokenHashes_def)

lemma appendTokenHash_props:
  assumes "distinct ts" and "length ts \<le> maxTokenHashes" and "h \<noteq> ''''"
  shows "h \<in> set (appendTokenHash ts h)" "distinct (appendTokenHash ts h)"
    "length (appendTokenHash ts h) \<le> maxTokenHashes" "set (appendTokenHash ts h) \<subseteq> insert h (set ts)"
    "length ts < maxTokenHashes \<Longrightarrow> set ts \<subseteq> set (appendTokenHash ts h)"
proof -
  have full: "drop (Suc (length ts) - maxTokenHashes) (ts @ [h]) = drop (Suc (length ts) - maxTokenHashes) ts @ [h]"
    "Suc (maxTokenHashes - Suc 0) = maxTokenHashes"
    using maxTokenHashes_pos by simp_all
  have "h \<in> set (appendTokenHash ts h) \<and> distinct (appendTokenHash ts h)
    \<and> length (appendTokenHash ts h) \<le> maxTokenHashes \<and> set (appendTokenHash ts h) \<subseteq> insert h (set ts)
    \<and> (length ts < maxTokenHashes \<longrightarrow> set ts \<subseteq> set (appendTokenHash ts h))"
    using assms full by (auto simp: appendTokenHash_def Let_def dest: in_set_dropD)
  then show "h \<in> set (appendTokenHash ts h)" "distinct (appendTokenHash ts h)"
    "length (appendTokenHash ts h) \<le> maxTokenHashes" "set (appendTokenHash ts h) \<subseteq> insert h (set ts)"
    "length ts < maxTokenHashes \<Longrightarrow> set ts \<subseteq> set (appendTokenHash ts h)"
    by auto
qed

lemma map_of_replace:
  "map_of (map (\<lambda>(k, v). if k = key then (k, u) else (k, v)) m)
   = (map_of m)(key := (if map_of m key = None then None else Some u))"
  by (induction m) (auto simp: fun_eq_iff)

lemma fst_replace: "fst \<circ> (\<lambda>(k, v). if k = key then (k, u) else (k, v)) = fst"
  by (auto simp: fun_eq_iff)

lemma put_user_map: "map_of (srv_users (put_user u s)) = (map_of (srv_users s))(to_lower (u_Email u) \<mapsto> u)"
  by (auto simp: put_user_def Let_def map_of_replace map_add_def fun_eq_iff split: option.splits)

lemma put_user_ok:
  assumes "accounts_ok (srv_users s)" and "user_ok u"
  shows "accounts_ok (srv_users (put_user u s))"
proof (cases "map_of (srv_users s) (to_lower (u_Email u)) = None")
  case True
  then show ?thesis
    using assms by (auto simp: put_user_def Let_def accounts_ok_def user_ok_def map_of_eq_None_iff)
next
  case False
  then show ?thesis
    using assms
    by (auto simp: put_user_def Let_def accounts_ok_def user_ok_def fst_replace split: if_splits)
qed

lemma saveLocked_ok:
  assumes "server_ok s" and "saveLocked fail s = (ok, s')"
  shows "server_ok s'"
proof -
  obtain f where f: "server_write fail (Json (srv_users s)) (srv_users_file s) = (ok, f)"
    and s': "s' = s\<lparr>srv_users_file := f\<rparr>"
    using assms(2) by (auto simp: saveLocked_def split: prod.splits)
  from server_write_cases [OF f] show ?thesis
    using assms(1) unfolding s' by (auto simp: server_ok_def)
qed

lemma put_and_save_ok:
  assumes "server_ok s" and "user_ok u"
  shows "server_ok (snd (saveLocked fail (put_user u s)))"
proof -
  have "server_ok (put_user u s)"
    using assms put_user_ok by (auto simp: server_ok_def)
  then show ?thesis using saveLocked_ok by (metis prod.collapse)
qed

lemma trim_space_set: "set (trim_space s) \<subseteq> set s"
proof -
  have "set (trim_front qs t) \<subseteq> set t" for qs t
    using trim_front_suffix [of t qs] by (metis le_sup_iff set_append subset_refl)
  from this [of "map rev space_seqs" "rev (trim_front space_seqs s)"] this [of space_seqs s]
  show ?thesis by (auto simp: trim_space_def)
qed

lemma ascii_lower_idem [simp]: "ascii_lower (ascii_lower c) = ascii_lower c"
  by (auto simp: ascii_lower_def less_eq_char_def of_char_of)

lemma to_lower_trimmed: "to_lower (trim_space (to_lower s)) = trim_space (to_lower s)"
proof -
  have "c \<in> set (to_lower s) \<Longrightarrow> ascii_lower c = c" for c by (auto simp: to_lower_def)
  then have "\<forall>c \<in> set (trim_space (to_lower s)). ascii_lower c = c" using trim_space_set by blast
  then show ?thesis by (simp add: to_lower_def map_idI)
qed

lemma decodeAuthRequest_email:
  "decodeAuthRequest e r = Inr (email, password) \<Longrightarrow> to_lower email = email"
  by (auto simp: decodeAuthRequest_def Let_def to_lower_trimmed split: option.splits if_splits)

lemma newToken_cases:
  assumes "newToken e random = Some (token, h)"
  shows "h = hashToken e token" "length token = 64" "list_all (\<lambda>c. c \<in> set hex_digits) token"
  using assms hex_encode_digits by (auto simp: newToken_def Let_def split: option.splits)

lemma get_user_ok:
  assumes "server_ok s" and "get_user s email = Some u"
  shows "user_ok u" "u_Email u = to_lower email"
  using assms by (auto simp: server_ok_def accounts_ok_def get_user_def dest!: map_of_SomeD)

text \<open>The user a registration adds and the user a login writes back.\<close>

definition fresh_user :: "server_env \<Rightarrow> server_input \<Rightarrow> string \<Rightarrow> string \<Rightarrow> string \<Rightarrow> user" where
  "fresh_user e i email passwordHash tokenHash =
     \<lparr>u_Email = email, u_PasswordHash = passwordHash, u_TokenHash = tokenHash, u_TokenHashes = [tokenHash],
      u_Verified = True, u_UpdatedAt = se_format_time e (in_now i)\<rparr>"

definition renewed_user :: "server_env \<Rightarrow> server_input \<Rightarrow> user \<Rightarrow> string \<Rightarrow> user" where
  "renewed_user e i u tokenHash =
     u\<lparr>u_TokenHash := tokenHash, u_TokenHashes := appendTokenHash (u_TokenHashes u) tokenHash,
       u_UpdatedAt := se_format_time e (in_now i)\<rparr>"

lemma refused_without_token [simp]:
  "resp_Token (writeError status msg) = None" "resp_Token (respond status) = None"
  "resp_Status (writeError status msg) = status" "resp_Status (respond status) = status"
  by (simp_all add: writeError_def respond_def)

lemma decodeAuthRequest_refused: "decodeAuthRequest e r = Inl resp \<Longrightarrow> resp_Token resp = None \<and> resp_Status resp = 400"
  by (auto simp: decodeAuthRequest_def Let_def split: option.splits if_splits)

lemma handleRegister_cases:
  assumes "handleRegister e i r s = (resp, s')"
  obtains "s' = s" "resp_Token resp = None"
    | email password ph token where "decodeAuthRequest e r = Inr (email, password)"
        "newToken e (in_random i) = Some (token, hashToken e token)"
        "map_of (srv_users s) (to_lower email) = None"
        "s' = snd (saveLocked (in_fail i) (put_user (fresh_user e i email ph (hashToken e token)) s))"
        "resp_Token resp = None \<or> resp_Token resp = Some token"
proof (cases "decodeAuthRequest e r")
  case (Inl refused)
  then show ?thesis using assms that(1) decodeAuthRequest_refused by (auto simp: handleRegister_def)
next
  case (Inr credentials)
  obtain email password where decoded: "decodeAuthRequest e r = Inr (email, password)"
    using Inr by (cases credentials) auto
  show ?thesis
  proof (cases "in_bcrypt i = None \<or> newToken e (in_random i) = None")
    case True
    then show ?thesis
      using assms decoded by (intro that(1)) (auto simp: handleRegister_def split: option.splits)
  next
    case False
    then obtain ph token h where ph: "in_bcrypt i = Some ph" and token: "newToken e (in_random i) = Some (token, h)"
      by auto
    have h: "h = hashToken e token" using newToken_cases(1) token by blast
    let ?u = "fresh_user e i email ph h"
    have body: "(case add_user (in_fail i) ?u s of
        (ErrUserExists, s1) \<Rightarrow> (writeError 409 ''account already exists'', s1)
      | (UserSaveErr, s1) \<Rightarrow> (writeError 500 ''could not save account'', s1)
      | (UserAdded, s1) \<Rightarrow> ((respond 200)\<lparr>resp_Token := Some token\<rparr>, s1)) = (resp, s')"
      using assms decoded ph token by (simp add: handleRegister_def fresh_user_def Let_def)
    show ?thesis
    proof (cases "map_of (srv_users s) (to_lower email) = None")
      case True
      then show ?thesis
        using body decoded token unfolding h
        by (intro that(2) [of email password token ph])
          (auto simp: add_user_def fresh_user_def split: prod.splits if_splits)
    next
      case False
      then show ?thesis
        using body by (intro that(1)) (auto simp: add_user_def fresh_user_def)
    qed
  qed
qed

lemma login_write_cases:
  assumes "login_write e i u s = (resp, s')"
  obtains "s' = s" "resp_Token resp = None"
    | token where "newToken e (in_random i) = Some (token, hashToken e token)"
        "s' = snd (saveLocked (in_fail i) (put_user (renewed_user e i u (hashToken e token)) s))"
        "resp_Token resp = None \<or> resp_Token resp = Some token"
  using assms
  by (auto simp: login_write_def Let_def update_user_def renewed_user_def [symmetric] writeError_def respond_def
      dest: newToken_cases(1) split: option.splits prod.splits bool.splits)

lemma login_read_account:
  assumes "login_read e r s = Inr u"
  obtains email password where "decodeAuthRequest e r = Inr (email, password)" "get_user s email = Some u"
  using assms by (auto simp: login_read_def split: sum.splits option.splits if_splits)

lemma renewed_user_ok:
  assumes "user_ok u" and "h \<noteq> ''''"
  shows "user_ok (renewed_user e i u h)"
  using assms appendTokenHash_props [of "u_TokenHashes u" h]
  by (simp add: user_ok_def renewed_user_def)

lemma register_keeps_accounts:
  assumes "server_ok s" and "handleRegister e i r s = (resp, s')"
  shows "server_ok s'"
  using assms(2)
proof (cases rule: handleRegister_cases)
  case (2 email password ph token)
  then have "user_ok (fresh_user e i email ph (hashToken e token))"
    using decodeAuthRequest_email maxTokenHashes_pos by (auto simp: user_ok_def fresh_user_def)
  with 2 assms(1) show ?thesis using put_and_save_ok by simp
qed (use assms in simp)

lemma login_keeps_accounts:
  assumes "server_ok s" and "user_ok u" and "login_write e i u s = (resp, s')" and "\<And>x. se_sha256 e x \<noteq> ''''"
  shows "server_ok s'"
  using assms(3)
proof (cases rule: login_write_cases)
  case (2 token)
  then show ?thesis
    using assms put_and_save_ok renewed_user_ok [OF assms(2), of "hashToken e token" e i]
    by (simp add: hashToken_def)
qed (use assms in simp)

lemma sync_keeps_accounts:
  "srv_users (snd (handleSync e i r s)) = srv_users s" "srv_users_file (snd (handleSync e i r s)) = srv_users_file s"
proof -
  obtain resp s' where push: "handlePush e i r s = (resp, s')" by fastforce
  from handlePush_cases [OF this]
  show "srv_users (snd (handleSync e i r s)) = srv_users s"
    "srv_users_file (snd (handleSync e i r s)) = srv_users_file s"
    by (auto simp: handleSync_def push split: http_method.splits)
qed

lemma serve_keeps_accounts:
  assumes "server_ok s" and "\<And>x. se_sha256 e x \<noteq> ''''"
  shows "server_ok (snd (serve e i r s))"
proof -
  obtain resp s' where reg: "handleRegister e i r s = (resp, s')" by fastforce
  have "server_ok (snd (handleLogin e i r s))"
  proof (cases "login_read e r s")
    case (Inr u)
    then obtain email password where "get_user s email = Some u" by (auto elim: login_read_account)
    then have "user_ok u" using get_user_ok assms(1) by blast
    then show ?thesis
      using Inr login_keeps_accounts [OF assms(1) _ _ assms(2)] by (auto simp: handleLogin_def) (metis prod.collapse)
  qed (use assms in \<open>simp add: handleLogin_def\<close>)
  moreover have "server_ok (snd (handleSync e i r s))"
    using assms(1) sync_keeps_accounts by (simp add: server_ok_def)
  ultimately show ?thesis
    using assms(1) register_keeps_accounts [OF assms(1) reg]
    by (auto simp: serve_def method_guard_def reg)
qed

lemma restart_keeps_accounts:
  assumes "server_ok s" and "New_server dir setup fail s = (ok, s')"
  shows "server_ok s'"
proof -
  have "server_ok (s\<lparr>srv_users := []\<rparr>)" using assms(1) by (simp add: server_ok_def accounts_ok_def)
  with assms show ?thesis
    by (auto simp: New_server_def loadUsers_def ReadFile_def server_ok_def split: if_splits dfile.splits json.splits
        dest: saveLocked_ok [rotated])
qed

section \<open>Tokens\<close>

lemma constantTimeEqual_iff: "constantTimeEqual a b \<longleftrightarrow> a = b \<and> b \<noteq> ''''"
  by (auto simp: constantTimeEqual_def)

lemma holds_token_iff:
  "h \<noteq> '''' \<Longrightarrow> holds_token u h \<longleftrightarrow> u_TokenHash u = h \<or> h \<in> set (u_TokenHashes u)"
  by (auto simp: holds_token_def constantTimeEqual_iff list_ex_iff)

lemma find_unique:
  assumes "x \<in> set xs" and "P x" and unique: "\<And>y. y \<in> set xs \<Longrightarrow> P y \<Longrightarrow> y = x"
  shows "List.find P xs = Some x"
proof (cases "List.find P xs")
  case None
  then show ?thesis using assms(1,2) by (simp add: find_None_iff)
next
  case (Some z)
  then have "z \<in> set xs" "P z" by (auto simp: find_Some_iff)
  with unique have "z = x" by blast
  with Some show ?thesis by simp
qed

lemma put_user_values:
  "u \<in> snd ` set (srv_users (put_user u s))" "snd ` set (srv_users (put_user u s)) \<subseteq> insert u (snd ` set (srv_users s))"
proof -
  have "(to_lower (u_Email u), u) \<in> set (srv_users (put_user u s))"
    by (rule map_of_SomeD) (simp add: put_user_map)
  then show "u \<in> snd ` set (srv_users (put_user u s))" by force
  show "snd ` set (srv_users (put_user u s)) \<subseteq> insert u (snd ` set (srv_users s))"
    by (force simp: put_user_def Let_def split: if_splits)
qed

lemma getByToken_put_user:
  assumes "\<forall>v \<in> snd ` set (srv_users s). \<not> holds_token v h" and "holds_token u h"
  shows "getByToken (put_user u s) h = Some u"
  unfolding getByToken_def
proof (rule find_unique)
  show "u \<in> set (map snd (srv_users (put_user u s)))" using put_user_values(1) by simp
  show "v = u" if "v \<in> set (map snd (srv_users (put_user u s)))" "holds_token v h" for v
  proof -
    have "v \<in> snd ` set (srv_users (put_user u s))" using that(1) by simp
    then have "v = u \<or> v \<in> snd ` set (srv_users s)" using put_user_values(2) by blast
    with that(2) assms(1) show ?thesis by blast
  qed
qed (rule assms(2))

lemma getByToken_saved [simp]: "getByToken (snd (saveLocked fail s)) h = getByToken s h"
  by (simp add: getByToken_def)

lemma get_user_saved [simp]: "get_user (snd (saveLocked fail s)) email = get_user s email"
  by (simp add: get_user_def)

lemma trim_space_hex:
  assumes "list_all (\<lambda>c. c \<in> set hex_digits) s"
  shows "trim_space s = s"
proof -
  have hex: "c \<in> set s \<Longrightarrow> c \<in> set hex_digits" for c using assms by (auto simp: list_all_iff)
  have "trim_front space_seqs s = s"
    using hex by (cases s) (auto intro: trim_front_fixed simp: strip_hex_front(1))
  moreover have "trim_front (map rev space_seqs) (rev s) = rev s"
  proof (cases "rev s")
    case (Cons c cs)
    then have "c \<in> set hex_digits" using hex by (metis list.set_intros(1) set_rev)
    then show ?thesis unfolding Cons by (intro trim_front_fixed strip_hex_front(2))
  qed simp
  ultimately show ?thesis by (simp add: trim_space_def)
qed

lemma authenticate_token_of:
  assumes "req_Token q = token" and "newToken e random = Some (token, h)"
  shows "authenticate e s q = (case getByToken s h of None \<Rightarrow> Inl (writeError 401 ''invalid token'') | Some u \<Rightarrow> Inr u)"
proof -
  have "token \<noteq> ''''" "trim_space token = token" "h = hashToken e token"
    using newToken_cases [OF assms(2)] trim_space_hex by auto
  then show ?thesis by (simp add: authenticate_def authorization_def assms(1))
qed

text \<open>A token is given out by a registration or a login only.\<close>

lemma serve_token:
  assumes "serve e i r s = (resp, s')" and "resp_Token resp = Some token"
  shows "handleRegister e i r s = (resp, s') \<or> handleLogin e i r s = (resp, s')"
proof -
  have auth: "authenticate e s r = Inl refused \<Longrightarrow> resp_Token refused = None" for refused
    by (auto simp: authenticate_def Let_def split: if_splits option.splits)
  have "resp_Token (handleStatus e r s) = None" "resp_Token (handleHealth r) = None"
    "resp_Token (handlePull e r s) = None" "resp_Token (handleHead e r s) = None"
    using auth
    by (auto simp: handleStatus_def handleHealth_def handlePull_def handleHead_def split: sum.splits read_error.splits)
  moreover have "resp_Token (fst (handlePush e i r s)) = None"
    using auth by (auto simp: handlePush_def push_blob_def Let_def split: sum.splits prod.splits bool.splits)
  ultimately show ?thesis
    using assms
    by (auto simp: serve_def method_guard_def handleSync_def split: if_splits http_method.splits)
qed

text \<open>
  
  A token that registration or login returns authenticates its account at once: any request that carries it
  is served as the account whose credentials were presented, unless the hash was in use before. All older
  tokens of the account stay valid while there are fewer than 256 of them.
\<close>

theorem issued_token_authenticates:
  assumes "serve e i r s = (resp, s')" and token: "resp_Token resp = Some token"
    and fresh: "\<forall>v \<in> snd ` set (srv_users s). \<not> holds_token v (hashToken e token)"
    and ok: "server_ok s" and sha: "\<And>x. se_sha256 e x \<noteq> ''''" and q: "req_Token q = token"
  shows "\<exists>u email password. decodeAuthRequest e r = Inr (email, password)
    \<and> authenticate e s' q = Inr u \<and> u_Email u = email \<and> get_user s' email = Some u
    \<and> (\<forall>u0 h. get_user s email = Some u0 \<longrightarrow> length (u_TokenHashes u0) < maxTokenHashes \<longrightarrow> holds_token u0 h \<longrightarrow>
        holds_token u h)"
proof -
  have ne: "hashToken e token \<noteq> ''''" using sha by (simp add: hashToken_def)
  have authenticated: "authenticate e s' q = Inr u"
    if "newToken e (in_random i) = Some (token, hashToken e token)" "s' = snd (saveLocked fail (put_user u s))"
      "holds_token u (hashToken e token)" for u fail
    using that authenticate_token_of [OF q that(1)] getByToken_put_user [OF fresh that(3)] by simp
  from serve_token [OF assms(1,2)] consider "handleRegister e i r s = (resp, s')" | "handleLogin e i r s = (resp, s')"
    by blast
  then show ?thesis
  proof cases
    case 1
    then show ?thesis
    proof (cases rule: handleRegister_cases)
      case (2 email password ph t)
      let ?u = "fresh_user e i email ph (hashToken e token)"
      have t: "t = token" using 2(5) token by auto
      have low: "to_lower email = email" using decodeAuthRequest_email 2(1) by blast
      have "get_user s email = None" using 2(3) by (simp add: get_user_def)
      moreover have "get_user s' email = Some ?u"
        using 2(4) low by (simp add: t get_user_def put_user_map fresh_user_def)
      moreover have "authenticate e s' q = Inr ?u"
        by (rule authenticated) (use 2 ne in \<open>simp_all add: t holds_token_iff fresh_user_def\<close>)
      ultimately show ?thesis using 2(1) by (intro exI [of _ ?u]) (simp add: fresh_user_def)
    qed (use token in simp)
  next
    case 2
    then obtain u0 where checked: "login_read e r s = Inr u0" and renewed: "login_write e i u0 s = (resp, s')"
      using token decodeAuthRequest_refused
      by (auto simp: handleLogin_def login_read_def split: sum.splits option.splits if_splits)
    obtain email password where dec: "decodeAuthRequest e r = Inr (email, password)" "get_user s email = Some u0"
      using checked by (auto elim: login_read_account)
    have u0: "user_ok u0" "u_Email u0 = email"
      using get_user_ok [OF ok dec(2)] decodeAuthRequest_email [OF dec(1)] by simp_all
    from renewed show ?thesis
    proof (cases rule: login_write_cases)
      case (2 t)
      let ?u = "renewed_user e i u0 (hashToken e token)"
      have t: "t = token" using 2(3) token by auto
      note tokens = appendTokenHash_props [of "u_TokenHashes u0" "hashToken e token"]
      have "get_user s' email = Some ?u"
        using 2(2) u0 decodeAuthRequest_email [OF dec(1)] by (simp add: t get_user_def put_user_map renewed_user_def)
      moreover have "authenticate e s' q = Inr ?u"
        by (rule authenticated) (use 2 ne in \<open>simp_all add: t holds_token_iff renewed_user_def\<close>)
      moreover have "holds_token ?u h" if "length (u_TokenHashes u0) < maxTokenHashes" "holds_token u0 h" for h
        using that tokens ne u0(1)
        by (auto simp: holds_token_def constantTimeEqual_iff list_ex_iff renewed_user_def user_ok_def)
      ultimately show ?thesis
        using dec u0 by (intro exI [of _ ?u]) (auto simp: renewed_user_def)
    qed (use token in simp)
  qed
qed

lemma demo_decoded: "decodeAuthRequest demo_service_env demo_login = Inr (''ann@x'', ''password'')"
proof -
  have "trim_space (to_lower ''Ann@x'') = ''ann@x''" "contains_sub ''ann@x'' ''@''" by code_simp+
  then show ?thesis by (simp add: decodeAuthRequest_def demo_login_def demo_service_env_def Let_def)
qed

theorem issued_token_authenticates_witness:
  "\<exists>token u s'. s' = snd (serve demo_service_env demo_input demo_login demo_server)
    \<and> authenticate demo_service_env s' (demo_put\<lparr>req_Token := token\<rparr>) = Inr u \<and> u_Email u = ''ann@x''
    \<and> holds_token u (hashToken demo_service_env ''t'')"
proof -
  let ?r = "serve demo_service_env demo_input demo_login demo_server"
  let ?token = "hex_encode ([1, 2, 3] @ replicate 29 0)"
  have checked: "login_read demo_service_env demo_login demo_server = Inr demo_user"
    by (simp add: login_read_def demo_decoded) code_simp
  have "newToken demo_service_env (in_random demo_input) = Some (?token, hashToken demo_service_env ?token)"
    by (simp add: newToken_def demo_input_def Let_def)
  then have token: "resp_Token (fst ?r) = Some ?token"
    using checked
    by (simp add: serve_def demo_login_def method_guard_def handleLogin_def login_write_def update_user_def
        saveLocked_def server_write_def demo_input_def Let_def split: prod.splits)
  have fresh: "\<forall>v \<in> snd ` set (srv_users demo_server). \<not> holds_token v (hashToken demo_service_env ?token)"
    by code_simp
  have ok: "server_ok demo_server"
    unfolding server_ok_def accounts_ok_def user_ok_def by code_simp
  have old: "get_user demo_server ''ann@x'' = Some demo_user" "length (u_TokenHashes demo_user) < maxTokenHashes"
    "holds_token demo_user (hashToken demo_service_env ''t'')"
    by code_simp+
  have "req_Token (demo_put\<lparr>req_Token := ?token\<rparr>) = ?token" by simp
  from issued_token_authenticates [OF prod.collapse [symmetric] token fresh ok demo_sha256_hex(1) this] old demo_decoded
  show ?thesis by (intro exI [of _ ?token]) auto
qed

text \<open>
  An account whose file could not be written is refused with an error, and exists until the next restart:
  it can log in, and a second registration fails.
\<close>

lemma failed_registration_is_remembered:
  assumes "map_of (srv_users s) (to_lower (u_Email u)) = None" and "fail = Some SrvRename"
  shows "\<exists>s'. add_user fail u s = (UserSaveErr, s') \<and> get_user s' (u_Email u) = Some u
    \<and> srv_users_file s' = srv_users_file s"
  using assms put_user_map [of u s]
  by (auto simp: add_user_def saveLocked_def server_write_def get_user_def)

text \<open>
  Two logins whose reads both come before their writes: the second write puts back the tokens that its read
  saw, and the token that the first login has returned is not valid any more.
\<close>

lemma interleaved_logins_lose_token:
  assumes "login_read e r s = Inr u"
    and "login_write e i1 u s = (resp1, s1)" and "resp_Token resp1 = Some token1"
    and "login_write e i2 u s1 = (resp2, s2)" and "resp_Token resp2 = Some token2"
    and "hashToken e token1 \<noteq> hashToken e token2" and "\<not> holds_token u (hashToken e token1)"
    and "distinct (u_TokenHashes u)" and "length (u_TokenHashes u) \<le> maxTokenHashes" and "hashToken e token2 \<noteq> ''''"
  shows "\<exists>u2. get_user s2 (u_Email u) = Some u2 \<and> holds_token u2 (hashToken e token2)
    \<and> \<not> holds_token u2 (hashToken e token1)"
  using assms(4)
proof (cases rule: login_write_cases)
  case (2 t)
  have t: "t = token2" using 2(3) assms(5) by auto
  let ?u = "renewed_user e i2 u (hashToken e token2)"
  note tokens = appendTokenHash_props [OF assms(8-10)]
  have "get_user s2 (u_Email u) = Some ?u"
    using 2(2) by (simp add: t get_user_def put_user_map renewed_user_def)
  moreover have "holds_token ?u (hashToken e token2)" "\<not> holds_token ?u (hashToken e token1)"
    using tokens assms(6,7,10)
    by (auto simp: holds_token_def constantTimeEqual_iff list_ex_iff renewed_user_def)
  ultimately show ?thesis by blast
qed (use assms(5) in simp)

end
