(* ===== verification/Service_History.thy ===== *)
theory Service_History
  imports Server_Props
begin

text \<open>
  The service under any interleaving: requests of many clients, logins that have read their account and not
  yet written it back, and restarts. Every stored blob is an event; the events of one account form a chain
  of versions in which a conditional push always names the version stored directly before it.
\<close>

section \<open>Cells with a history\<close>

text \<open>Runs of a step relation, and the chain that the writes of a run form.\<close>

inductive labelled_run :: "('s \<Rightarrow> 'e \<Rightarrow> 's \<Rightarrow> bool) \<Rightarrow> 's \<Rightarrow> 'e list \<Rightarrow> 's \<Rightarrow> bool" for step where
  run_nil: "labelled_run step s [] s"
| run_step: "step s ev s1 \<Longrightarrow> labelled_run step s1 evs s2 \<Longrightarrow> labelled_run step s (ev # evs) s2"

fun version_chain :: "'v \<Rightarrow> ('v \<times> 'v) list \<Rightarrow> 'v \<Rightarrow> bool" where
  "version_chain v [] w = (v = w)"
| "version_chain v ((a, b) # ws) w = (a = v \<and> version_chain b ws w)"

lemma version_chain_append:
  "version_chain v (xs @ ys) w \<longleftrightarrow> (\<exists>u. version_chain v xs u \<and> version_chain u ys w)"
  by (induction xs arbitrary: v) auto

text \<open>
  The contract of a store with versions: a step writes the cell or leaves it alone, and its event records
  the version it replaced and the version it wrote.
\<close>

locale versioned_cell =
  fixes read :: "'s \<Rightarrow> 'v"
    and step :: "'s \<Rightarrow> 'e \<Rightarrow> 's \<Rightarrow> bool"
    and written :: "'e \<Rightarrow> ('v \<times> 'v) option"
  assumes keeps: "step s ev s' \<Longrightarrow> written ev = None \<Longrightarrow> read s' = read s"
    and writes: "step s ev s' \<Longrightarrow> written ev = Some (a, b) \<Longrightarrow> read s = a \<and> read s' = b"
begin

lemma history_chain:
  "labelled_run step s evs s' \<Longrightarrow> version_chain (read s) (List.map_filter written evs) (read s')"
proof (induction rule: labelled_run.induct)
  case (run_step s ev s1 evs s2)
  then show ?case
    using keeps [of s ev s1] writes [of s ev s1]
    by (cases "written ev") (auto simp: List.map_filter_simps)
qed (simp add: List.map_filter_simps)

text \<open>Between two consecutive writes the second one replaces what the first one wrote.\<close>

lemma consecutive_writes:
  assumes "labelled_run step s (pre @ ev # mid @ ev' # post) s'"
    and "written ev = Some (a, b)" and "written ev' = Some (a', b')"
    and "List.map_filter written mid = []"
  shows "a' = b"
  using history_chain [OF assms(1)] assms(2-4)
  by (auto simp: List.map_filter_simps List.map_filter_def version_chain_append)

lemma unwritten_run:
  "labelled_run step s evs s' \<Longrightarrow> List.map_filter written evs = [] \<Longrightarrow> read s' = read s"
  using history_chain by fastforce

end

section \<open>The service and its clients\<close>

record service =
  sv_server :: server
  sv_logins :: "user list"

datatype service_event =
    Stored string "bytes dfile" http_request
  | Quiet

text \<open>The event of a handled request: the blob it replaced, if it changed one.\<close>

definition blob_event :: "server_env \<Rightarrow> http_request \<Rightarrow> server \<Rightarrow> server \<Rightarrow> service_event" where
  "blob_event e r s s' =
     (case authenticate e s r of
        Inl _ \<Rightarrow> Quiet
      | Inr u \<Rightarrow>
          (let p = vaultPath e (u_Email u)
           in if srv_vaults s' p \<noteq> srv_vaults s p then Stored p (srv_vaults s p) r else Quiet))"

inductive service_step :: "server_env \<Rightarrow> service \<Rightarrow> service_event \<Rightarrow> service \<Rightarrow> bool" for e where
  handled: "serve e i r (sv_server v) = (resp, s') \<Longrightarrow>
    service_step e v (blob_event e r (sv_server v) s') (v\<lparr>sv_server := s'\<rparr>)"
| login_checked: "req_Path r = ''/auth/login'' \<Longrightarrow> req_Method r = POST \<Longrightarrow>
    login_read e r (sv_server v) = Inr u \<Longrightarrow>
    service_step e v Quiet (v\<lparr>sv_logins := u # sv_logins v\<rparr>)"
| login_written: "u \<in> set (sv_logins v) \<Longrightarrow> login_write e i u (sv_server v) = (resp, s') \<Longrightarrow>
    service_step e v Quiet (v\<lparr>sv_server := s', sv_logins := remove1 u (sv_logins v)\<rparr>)"
| restarted: "New_server dir True fail (sv_server v) = (True, s') \<Longrightarrow>
    service_step e v Quiet (v\<lparr>sv_server := s', sv_logins := []\<rparr>)"

inductive_cases stored_stepE: "service_step e v (Stored p f r) v'"
inductive_simps no_service_events: "labelled_run (service_step e) v [] v'"

fun stored_at :: "string \<Rightarrow> service_event \<Rightarrow> (bytes dfile \<times> bytes dfile) option" where
  "stored_at p (Stored q f r) = (if q = p then Some (f, File (req_Body r)) else None)"
| "stored_at p Quiet = None"

lemma serve_blob_event:
  assumes "serve e i r s = (resp, s')"
  shows "blob_event e r s s' = Quiet \<and> srv_vaults s' = srv_vaults s
    \<or> (\<exists>p. blob_event e r s s' = Stored p (srv_vaults s p) r \<and> names_blob e (srv_vaults s p) r
        \<and> srv_vaults s' = (srv_vaults s)(p := File (req_Body r)))"
proof (cases "srv_vaults s' = srv_vaults s")
  case True
  then show ?thesis by (simp add: blob_event_def Let_def split: sum.splits)
next
  case False
  with serve_cases [OF assms] have "handlePush e i r s = (resp, s')" by simp
  with handlePush_cases False obtain u where u: "authenticate e s r = Inr u"
    "names_blob e (srv_vaults s (vaultPath e (u_Email u))) r"
    "s' = s\<lparr>srv_vaults := (srv_vaults s)(vaultPath e (u_Email u) := File (req_Body r))\<rparr>"
    by blast
  with False have "File (req_Body r) \<noteq> srv_vaults s (vaultPath e (u_Email u))" by auto
  with u show ?thesis by (auto simp: blob_event_def Let_def)
qed

lemma service_step_blobs:
  assumes "service_step e v ev v'"
  shows "ev = Quiet \<and> srv_vaults (sv_server v') = srv_vaults (sv_server v)
    \<or> (\<exists>p r. ev = Stored p (srv_vaults (sv_server v) p) r \<and> names_blob e (srv_vaults (sv_server v) p) r
        \<and> srv_vaults (sv_server v') = (srv_vaults (sv_server v))(p := File (req_Body r)))"
  using assms
proof (cases rule: service_step.cases)
  case (handled i r resp s')
  then show ?thesis using serve_blob_event [OF handled(3)] by auto
next
  case (login_written u i resp s')
  then show ?thesis using login_write_vaults [of e i u "sv_server v"] by simp
next
  case (restarted dir fail s')
  then show ?thesis using New_server_vaults [of dir True fail "sv_server v"] by simp
qed auto

text \<open>Each blob of the service is such a cell.\<close>

interpretation blob: versioned_cell "\<lambda>v. srv_vaults (sv_server v) p" "service_step e" "stored_at p" for e p
proof (standard, goal_cases)
  case (1 s ev s')
  then show ?case using service_step_blobs [OF 1(1)] by (auto split: if_splits)
next
  case (2 s ev s' a b)
  then show ?case using service_step_blobs [OF 2(1)] by (auto split: if_splits)
qed

text \<open>Every stored version satisfies the conditions of its request.\<close>

fun event_named :: "server_env \<Rightarrow> service_event \<Rightarrow> bool" where
  "event_named e (Stored p f r) = names_blob e f r"
| "event_named e Quiet = True"

lemma run_events_named: "labelled_run (service_step e) v evs v' \<Longrightarrow> list_all (event_named e) evs"
proof (induction rule: labelled_run.induct)
  case (run_step v ev v1 evs v2)
  from service_step_blobs [OF run_step(1)] have "event_named e ev" by auto
  with run_step show ?case by simp
qed simp

text \<open>
  C24.
  Under every interleaving of requests, logins and restarts the versions of a blob form one chain from the
  first to the last, and a push that was conditional on a version and stored names, with its
  \<^verbatim>\<open>If-Match\<close>, exactly the blob stored directly before it: no conditional push overwrites a version that
  its client has not seen.
\<close>

theorem conditional_pushes_lose_no_version:
  assumes run: "labelled_run (service_step e) v (pre @ Stored p f r # mid @ Stored p f' r' # post) v'"
    and between: "List.map_filter (stored_at p) mid = []"
    and conditional: "trim_space (req_IfMatch r') \<noteq> ''''" "trim_space (req_IfMatch r') \<noteq> ''*''"
  shows "trim_space (req_IfMatch r') = quoteETag (hashBytes e (req_Body r))
    \<and> version_chain (srv_vaults (sv_server v) p)
        (List.map_filter (stored_at p) (pre @ Stored p f r # mid @ Stored p f' r' # post))
        (srv_vaults (sv_server v') p)"
proof -
  have "f' = File (req_Body r)"
    by (rule blob.consecutive_writes [OF run _ _ between]) simp_all
  moreover have "names_blob e f' r'"
    using run_events_named [OF run] by simp
  ultimately show ?thesis
    using conditional blob.history_chain [OF run] by (auto simp: names_blob_def)
qed

definition demo_next_put :: http_request where
  "demo_next_put = demo_put\<lparr>req_IfMatch := quoteETag (hashBytes demo_service_env [5]), req_IfNoneMatch := '''', req_Body := [6]\<rparr>"

definition demo_running :: service where
  "demo_running = \<lparr>sv_server = demo_server, sv_logins = []\<rparr>"

lemma demo_two_pushes:
  "\<exists>f p v'. labelled_run (service_step demo_service_env) demo_running
     ([] @ Stored p Absent demo_put # [Quiet] @ Stored p f demo_next_put # []) v'"
proof -
  let ?p = "vaultPath demo_service_env ''ann@x''"
  let ?s1 = "snd (serve demo_service_env demo_input demo_put demo_server)"
  let ?s2 = "snd (serve demo_service_env demo_input demo_next_put ?s1)"
  have step: "service_step demo_service_env \<lparr>sv_server = s, sv_logins = ls\<rparr>
      (blob_event demo_service_env r s (snd (serve demo_service_env demo_input r s)))
      \<lparr>sv_server = snd (serve demo_service_env demo_input r s), sv_logins = ls\<rparr>" for r s ls
    using handled [of demo_service_env demo_input r "\<lparr>sv_server = s, sv_logins = ls\<rparr>"
        "fst (serve demo_service_env demo_input r s)" "snd (serve demo_service_env demo_input r s)"] by simp
  have login: "service_step demo_service_env \<lparr>sv_server = ?s1, sv_logins = []\<rparr> Quiet
      \<lparr>sv_server = ?s1, sv_logins = [demo_user]\<rparr>"
  proof -
    have "login_read demo_service_env demo_login ?s1 = Inr demo_user"
      by (simp add: login_read_def demo_decoded) code_simp
    then show ?thesis
      using login_checked [of demo_login demo_service_env "\<lparr>sv_server = ?s1, sv_logins = []\<rparr>" demo_user]
      by (simp add: demo_login_def)
  qed
  have "blob_event demo_service_env demo_put demo_server ?s1 = Stored ?p Absent demo_put" by code_simp
  moreover have "blob_event demo_service_env demo_next_put ?s1 ?s2 = Stored ?p (File [5]) demo_next_put" by code_simp
  ultimately show ?thesis
    using step [of demo_server "[]" demo_put] step [of ?s1 "[demo_user]" demo_next_put] login
    by (auto intro!: exI run_step run_nil simp: demo_running_def)
qed

theorem conditional_pushes_lose_no_version_witness:
  "\<exists>p f v'. labelled_run (service_step demo_service_env) demo_running
      ([] @ Stored p Absent demo_put # [Quiet] @ Stored p f demo_next_put # []) v'
   \<and> version_chain Absent [(Absent, File [5]), (f, File [6])] (srv_vaults (sv_server v') p)
   \<and> trim_space (req_IfMatch demo_next_put) = quoteETag (hashBytes demo_service_env [5])"
proof -
  obtain f p v' where run: "labelled_run (service_step demo_service_env) demo_running
     ([] @ Stored p Absent demo_put # [Quiet] @ Stored p f demo_next_put # []) v'"
    using demo_two_pushes by blast
  have headers: "trim_space (req_IfMatch demo_next_put) \<noteq> ''''" "trim_space (req_IfMatch demo_next_put) \<noteq> ''*''"
    by code_simp+
  have bodies: "req_Body demo_put = [5]" "req_Body demo_next_put = [6]" "srv_vaults (sv_server demo_running) p = Absent"
    by (simp_all add: demo_put_def demo_next_put_def demo_running_def demo_server_def)
  from conditional_pushes_lose_no_version [OF run _ headers] bodies
  have "version_chain Absent [(Absent, File [5]), (f, File [6])] (srv_vaults (sv_server v') p)
    \<and> trim_space (req_IfMatch demo_next_put) = quoteETag (hashBytes demo_service_env [5])"
    by (simp add: List.map_filter_simps)
  with run show ?thesis by blast
qed

section \<open>Accounts under every interleaving\<close>

definition service_ok :: "service \<Rightarrow> bool" where
  "service_ok v = (server_ok (sv_server v) \<and> (\<forall>u \<in> set (sv_logins v). user_ok u))"

lemma service_step_ok:
  assumes "service_step e v ev v'" and "service_ok v" and sha: "\<And>x. se_sha256 e x \<noteq> ''''"
  shows "service_ok v'"
  using assms(1)
proof (cases rule: service_step.cases)
  case (handled i r resp s')
  then show ?thesis
    using assms(2) serve_keeps_accounts [OF _ sha, of "sv_server v" i r] by (simp add: service_ok_def)
next
  case (login_checked r u)
  then obtain email where "get_user (sv_server v) email = Some u" by (auto elim: login_read_account)
  then have "user_ok u" using get_user_ok(1) assms(2) by (auto simp: service_ok_def)
  then show ?thesis using assms(2) login_checked by (simp add: service_ok_def)
next
  case (login_written u i resp s')
  then show ?thesis
    using assms(2) login_keeps_accounts [OF _ _ _ sha, of "sv_server v" u i resp s']
    by (auto simp: service_ok_def dest: notin_set_remove1)
next
  case (restarted dir fail s')
  then show ?thesis using assms(2) restart_keeps_accounts by (auto simp: service_ok_def)
qed

text \<open>
  C26.
  Whatever requests, half-finished logins, failing writes and restarts do: the service keeps one account
  per lower-case address, each with at most 256 distinct valid tokens, the newest among them, and so does
  the file that a restart reads.
\<close>

theorem accounts_stay_well_formed:
  assumes "labelled_run (service_step e) v evs v'" and "service_ok v" and "\<And>x. se_sha256 e x \<noteq> ''''"
  shows "service_ok v'"
  using assms by (induction rule: labelled_run.induct) (auto intro: service_step_ok)

theorem accounts_stay_well_formed_witness:
  "\<exists>v'. service_ok demo_running \<and> labelled_run (service_step demo_service_env) demo_running
     [blob_event demo_service_env demo_login demo_server (snd (serve demo_service_env demo_input demo_login demo_server))] v'
   \<and> service_ok v'"
proof -
  have ok: "service_ok demo_running"
    unfolding service_ok_def server_ok_def accounts_ok_def user_ok_def by code_simp
  let ?s = "snd (serve demo_service_env demo_input demo_login demo_server)"
  have "service_step demo_service_env demo_running (blob_event demo_service_env demo_login demo_server ?s)
      (demo_running\<lparr>sv_server := ?s\<rparr>)"
    using handled [of demo_service_env demo_input demo_login demo_running
        "fst (serve demo_service_env demo_input demo_login demo_server)" ?s]
    by (simp add: demo_running_def)
  then have run: "labelled_run (service_step demo_service_env) demo_running
      [blob_event demo_service_env demo_login demo_server ?s] (demo_running\<lparr>sv_server := ?s\<rparr>)"
    by (rule run_step) (rule run_nil)
  show ?thesis using accounts_stay_well_formed [OF run ok demo_sha256_hex(1)] run ok by blast
qed

end
