(* ===== verification/Remote_Command.thy ===== *)
theory Remote_Command
  imports Inventory_Data
begin

text \<open>
  Text that goes to a remote shell (\<^verbatim>\<open>internal/ssh/command.go\<close>, \<^verbatim>\<open>script.go\<close> and the command
  builders of \<^verbatim>\<open>run.go\<close>): quoting, environment assignments, script runners, and the redaction of
  secrets in what is displayed. The last section states the quoting rules of the shell against which
  \<^verbatim>\<open>Shell_Quoting.thy\<close> proves the round trips.
\<close>

section \<open>String operations\<close>

text \<open>\<^verbatim>\<open>strings.ReplaceAll\<close> for a pattern that is not empty.\<close>

function replace_all :: "string \<Rightarrow> string \<Rightarrow> string \<Rightarrow> string" where
  "replace_all s old new =
     (if s = [] \<or> old = [] then s
      else if has_prefix s old then new @ replace_all (drop (length old) s) old new
      else hd s # replace_all (tl s) old new)"
  by pat_completeness auto
termination
  by (relation "measure (\<lambda>(s, old, new). length s)") auto

declare replace_all.simps [simp del]

text \<open>\<^verbatim>\<open>strings.Fields\<close>.\<close>

fun take_word :: "string \<Rightarrow> string" where
  "take_word [] = []"
| "take_word (c # s) = (if strip_prefix_len space_seqs (c # s) > 0 then [] else c # take_word s)"

function go_fields :: "string \<Rightarrow> string list" where
  "go_fields s =
     (let t = trim_front space_seqs s
      in if t = [] \<or> take_word t = [] then [] else take_word t # go_fields (drop (length (take_word t)) t))"
  by pat_completeness auto
termination
proof (relation "measure length", goal_cases)
  case (2 s t)
  then have "0 < length (take_word t)" "0 < length t" "length t \<le> length s"
    using trim_front_length [of space_seqs s] by auto
  then have "length t - length (take_word t) < length s" by linarith
  then show ?case by simp
qed simp

declare go_fields.simps [simp del]

text \<open>\<^verbatim>\<open>strings.Split\<close> at one character, and \<^verbatim>\<open>path.Base\<close>.\<close>

fun split_char :: "char \<Rightarrow> string \<Rightarrow> string list" where
  "split_char d [] = [[]]"
| "split_char d (c # s) =
     (if c = d then [] # split_char d s else (c # hd (split_char d s)) # tl (split_char d s))"

definition path_base :: "string \<Rightarrow> string" where
  "path_base p =
     (if p = '''' then ''.''
      else let t = trim_right p ''/'' in if t = '''' then ''/'' else last (split_char (CHR ''/'') t))"

section \<open>Quoting\<close>

definition apostrophe :: char where "apostrophe = CHR 0x27"
definition quoted_apostrophe :: string where
  "quoted_apostrophe = [CHR 0x27, CHR 0x22, CHR 0x27, CHR 0x22, CHR 0x27]"

definition ShellQuote :: "string \<Rightarrow> string" where
  "ShellQuote s =
     (if s = '''' then [apostrophe, apostrophe]
      else apostrophe # replace_all s [apostrophe] quoted_apostrophe @ [apostrophe])"

definition env_name_start :: "char \<Rightarrow> bool" where
  "env_name_start c =
     (CHR ''A'' \<le> c \<and> c \<le> CHR ''Z'' \<or> CHR ''a'' \<le> c \<and> c \<le> CHR ''z'' \<or> c = CHR ''_'')"

definition env_name_char :: "char \<Rightarrow> bool" where
  "env_name_char c = (env_name_start c \<or> CHR ''0'' \<le> c \<and> c \<le> CHR ''9'')"

definition isEnvName :: "string \<Rightarrow> bool" where
  "isEnvName s = (case s of [] \<Rightarrow> False | c # cs \<Rightarrow> env_name_start c \<and> list_all env_name_char cs)"

definition isEnvAssign :: "string \<Rightarrow> bool" where
  "isEnvAssign s =
     (let name = takeWhile (\<lambda>c. c \<noteq> CHR ''='') s
      in if name = s \<or> name = '''' then False else isEnvName name)"

definition formatEnvAssign :: "string \<Rightarrow> string" where
  "formatEnvAssign s =
     (let name = takeWhile (\<lambda>c. c \<noteq> CHR ''='') s
      in if name = s \<or> name = '''' then ShellQuote s
         else name @ ''='' @ ShellQuote (drop (Suc (length name)) s))"

fun env_end :: "string list \<Rightarrow> nat" where
  "env_end (p # q # ps) = (if isEnvAssign p then Suc (env_end (q # ps)) else 0)"
| "env_end _ = 0"

definition JoinRemoteCommand :: "string list \<Rightarrow> bool \<Rightarrow> string" where
  "JoinRemoteCommand parts raw =
     (if parts = [] then ''''
      else if raw \<or> length parts = 1 then join '' '' parts
      else join '' '' (map formatEnvAssign (take (env_end parts) parts) @ map ShellQuote (drop (env_end parts) parts)))"

definition JoinRemoteArgv :: "string list \<Rightarrow> string" where
  "JoinRemoteArgv parts = join '' '' (map ShellQuote parts)"

definition RemoteParentDir :: "string \<Rightarrow> string" where
  "RemoteParentDir remotePath =
     (let p = trim_right remotePath ''/'' in
      if p = '''' \<or> p = ''.'' then ''''
      else if CHR ''/'' \<notin> set p then ''''
      else let parent = take (length p - Suc (length (last (split_char (CHR ''/'') p)))) p
           in if parent = '''' then ''/'' else parent)"

section \<open>Secrets\<close>

text \<open>The map of secrets is an association list with distinct names; \<^verbatim>\<open>sort.Strings\<close> orders them.\<close>

type_synonym secrets = "(string \<times> string) list"

definition sorted_secrets :: "secrets \<Rightarrow> secrets" where
  "sorted_secrets secrets = sort_key fst (filter (\<lambda>(k, v). isEnvName k) secrets)"

definition BuildRemoteCommand :: "string \<Rightarrow> secrets \<Rightarrow> string" where
  "BuildRemoteCommand cmd secrets =
     concat (map (\<lambda>(k, v). k @ ''='' @ ShellQuote v @ '' '') (sorted_secrets secrets)) @ cmd"

definition BuildScriptRemoteCommand :: "string \<Rightarrow> secrets \<Rightarrow> string" where
  "BuildScriptRemoteCommand cmd secrets =
     concat (map (\<lambda>(k, v). ''export '' @ k @ ''='' @ ShellQuote v @ ''; '') (sorted_secrets secrets)) @ cmd"

text \<open>
  \<^verbatim>\<open>RedactSecrets\<close>: the values that are not empty, longer ones first. \<^verbatim>\<open>sort.Slice\<close> is not stable and the
  map has no order; \<open>values\<close> is any enumeration that the sort may produce.
\<close>

definition redact_value :: "string \<Rightarrow> string \<Rightarrow> string" where
  "redact_value v out =
     (let out1 = replace_all out (ShellQuote v) ([apostrophe] @ ''***'' @ [apostrophe])
      in if length v \<ge> 4 then replace_all out1 v ''***'' else out1)"

definition redaction_order :: "string list \<Rightarrow> string list" where
  "redaction_order values = rev (sort_key length (filter (\<lambda>v. v \<noteq> '''') values))"

definition RedactSecrets :: "string \<Rightarrow> string list \<Rightarrow> string" where
  "RedactSecrets s values = (if s = '''' then s else fold redact_value (redaction_order values) s)"

definition AssessRisk :: "string \<Rightarrow> string" where
  "AssessRisk cmd =
     (let low = to_lower cmd in
      if list_ex (contains_sub low)
           [''rm -rf /'', ''mkfs'', ''dd if='', ''shutdown'', ''reboot'', ''poweroff'', ''userdel'', ''passwd '',
            ''> /dev/sd'', ''curl | sh'', ''curl|sh'', ''wget | sh''] then ''high''
      else if contains_sub low ''rm '' \<or> contains_sub low ''dd '' \<or> contains_sub low ''chmod 777''
           \<or> contains_sub low ''iptables'' then ''medium''
      else ''low'')"

section \<open>Scripts\<close>

definition MaxScriptBytes :: nat where "MaxScriptBytes = 16777216"

record script_spec =
  ssp_Label :: string
  ssp_Body :: string
  ssp_Interpreter :: string
  ssp_Args :: "string list"
  ssp_NonShell :: bool
  ssp_Launcher :: string

datatype script_error =
    ScriptTooLarge | ScriptNul | ScriptEmpty | ArgumentNul | BothInterpreters | UnsupportedShell | ShebangNameless
  | ShebangUnsupported | InvalidInterpreter | SyntaxNeedsShell

definition isSupportedScriptShell :: "string \<Rightarrow> bool" where
  "isSupportedScriptShell shell = (shell \<in> set [''sh'', ''bash'', ''dash'', ''ash'', ''ksh'', ''zsh''])"

definition interpreter_char :: "char \<Rightarrow> bool" where
  "interpreter_char c =
     (c \<in> set ''_.+-/'' \<or> list_ex (\<lambda>(lo, hi). lo \<le> c \<and> c \<le> hi)
        [(CHR ''a'', CHR ''z''), (CHR ''A'', CHR ''Z''), (CHR ''0'', CHR ''9'')])"

definition validInterpreterProgram :: "string \<Rightarrow> bool" where
  "validInterpreterProgram program =
     (if program = '''' \<or> length program > 255 then False
      else if \<not> list_all interpreter_char program then False
      else if has_prefix program ''/'' then
        \<not> has_suffix program ''/'' \<and> ''..'' \<notin> set (split_char (CHR ''/'') program)
      else CHR ''/'' \<notin> set program \<and> hd program \<noteq> CHR ''-'' \<and> hd program \<noteq> CHR ''.'')"

fun drop_flags :: "string list \<Rightarrow> string list" where
  "drop_flags (f # fs) = (if has_prefix f ''-'' then drop_flags fs else f # fs)"
| "drop_flags [] = []"

definition ResolveScriptShell :: "string \<Rightarrow> string \<Rightarrow> script_error + string" where
  "ResolveScriptShell body requested0 =
     (let requested = trim_space requested0 in
      if requested \<noteq> '''' \<and> requested \<noteq> ''auto'' then
        (if isSupportedScriptShell requested then Inr requested else Inl UnsupportedShell)
      else
        (let firstLine = takeWhile (\<lambda>c. c \<noteq> CHR 0x0A) body in
         if \<not> has_prefix firstLine ''#!'' then Inr ''sh''
         else
           (case go_fields (trim_space (drop 2 firstLine)) of
              [] \<Rightarrow> Inr ''sh''
            | f # fs \<Rightarrow>
                (let check = (\<lambda>name. if isSupportedScriptShell name then Inr name else Inl ShebangUnsupported) in
                 if path_base f = ''env'' then
                   (case drop_flags fs of [] \<Rightarrow> Inl ShebangNameless | g # gs \<Rightarrow> check (path_base g))
                 else check (path_base f)))))"

record parsed_interpreter =
  pin_Program :: string
  pin_Launcher :: string
  pin_Shell :: bool

definition ParseInterpreter :: "string \<Rightarrow> script_error + parsed_interpreter" where
  "ParseInterpreter v =
     (let fields0 = go_fields v;
          env = (length fields0 = 2 \<and> hd fields0 \<in> set [''env'', ''/usr/bin/env'']);
          launcher = (if env then hd fields0 else '''');
          fields = (if env then tl fields0 else fields0)
      in if length fields \<noteq> 1 \<or> contains_any v [CHR 0x00, CHR 0x0D, CHR 0x0A, CHR 0x09] then Inl InvalidInterpreter
         else
           (let program = hd fields in
            if program = ''auto'' \<and> launcher = '''' then Inr \<lparr>pin_Program = ''auto'', pin_Launcher = '''', pin_Shell = True\<rparr>
            else if program = ''auto'' \<or> \<not> validInterpreterProgram program then Inl InvalidInterpreter
            else if isSupportedScriptShell (path_base program)
            then Inr \<lparr>pin_Program = program, pin_Launcher = '''', pin_Shell = True\<rparr>
            else Inr \<lparr>pin_Program = program, pin_Launcher = launcher, pin_Shell = False\<rparr>))"

definition byte_order_mark :: string where "byte_order_mark = [CHR 0xEF, CHR 0xBB, CHR 0xBF]"

text \<open>The normalization of the body that \<^verbatim>\<open>PrepareScriptWithInterpreter\<close> starts with.\<close>

definition normalize_body :: "string \<Rightarrow> script_error + string" where
  "normalize_body data0 =
     (if length data0 > MaxScriptBytes then Inl ScriptTooLarge
      else
        (let data = (if has_prefix data0 byte_order_mark then drop 3 data0 else data0) in
         if CHR 0x00 \<in> set data then Inl ScriptNul
         else
           (let body = replace_all (replace_all data [CHR 0x0D, CHR 0x0A] [CHR 0x0A]) [CHR 0x0D] [CHR 0x0A] in
            if trim_space body = '''' then Inl ScriptEmpty
            else Inr (if has_suffix body [CHR 0x0A] then body else body @ [CHR 0x0A]))))"

definition select_interpreter :: "string \<Rightarrow> string \<Rightarrow> string \<Rightarrow> script_error + string \<times> string \<times> bool" where
  "select_interpreter body requestedShell interpreter =
     (if interpreter \<noteq> '''' \<and> requestedShell \<noteq> '''' \<and> requestedShell \<noteq> interpreter then Inl BothInterpreters
      else if interpreter = '''' then
        (case ResolveScriptShell body requestedShell of Inl err \<Rightarrow> Inl err | Inr shell \<Rightarrow> Inr (shell, '''', False))
      else
        (case ParseInterpreter interpreter of
           Inl err \<Rightarrow> Inl err
         | Inr parsed \<Rightarrow>
             if pin_Shell parsed then
               (let request =
                      (if pin_Program parsed \<noteq> ''auto'' \<and> \<not> isSupportedScriptShell (pin_Program parsed)
                       then path_base (pin_Program parsed) else pin_Program parsed)
                in case ResolveScriptShell body request of
                     Inl err \<Rightarrow> Inl err
                   | Inr shell \<Rightarrow> Inr (if request \<noteq> pin_Program parsed then pin_Program parsed else shell, '''', False))
             else Inr (pin_Program parsed, pin_Launcher parsed, True)))"

definition PrepareScriptWithInterpreter ::
    "string \<Rightarrow> string \<Rightarrow> string \<Rightarrow> string \<Rightarrow> string list \<Rightarrow> script_error + script_spec" where
  "PrepareScriptWithInterpreter label data requestedShell interpreter args =
     (case normalize_body data of
        Inl err \<Rightarrow> Inl err
      | Inr body \<Rightarrow>
          if list_ex (\<lambda>arg. CHR 0x00 \<in> set arg) args then Inl ArgumentNul
          else
            (case select_interpreter body (trim_space requestedShell) (trim_space interpreter) of
               Inl err \<Rightarrow> Inl err
             | Inr (program, launcher, nonShell) \<Rightarrow>
                 Inr \<lparr>ssp_Label = (if label = '''' then ''<stdin>'' else label), ssp_Body = body,
                      ssp_Interpreter = program, ssp_Args = args, ssp_NonShell = nonShell, ssp_Launcher = launcher\<rparr>))"

definition PrepareScript :: "string \<Rightarrow> string \<Rightarrow> string \<Rightarrow> string list \<Rightarrow> script_error + script_spec" where
  "PrepareScript label data requestedShell args = PrepareScriptWithInterpreter label data requestedShell '''' args"

text \<open>\<open>prefix\<close>: the constant \<^verbatim>\<open>interpreterNotFoundPrefix\<close> of the machine contract.\<close>

definition interpreterNotFoundPrefix :: string where
  "interpreterNotFoundPrefix = ''ssm: error=interpreter_not_found interpreter=''"

definition InterpreterNotFoundDiagnostic :: "string \<Rightarrow> string" where
  "InterpreterNotFoundDiagnostic interpreter = interpreterNotFoundPrefix @ interpreter"

definition runner_words :: "script_spec \<Rightarrow> string list" where
  "runner_words spec =
     (if ssp_NonShell spec then
        (if ssp_Launcher spec \<noteq> '''' then [ssp_Launcher spec] else []) @ [ssp_Interpreter spec, ''-'']
      else [ssp_Interpreter spec, ''-s'', ''--'']) @ ssp_Args spec"

definition runner_guard :: "string \<Rightarrow> string" where
  "runner_guard interpreter =
     ''command -v '' @ ShellQuote interpreter @ '' >/dev/null 2>&1 || { printf '' @ [apostrophe] @ ''%s'' @ [CHR 0x5C] @ ''n''
     @ [apostrophe] @ '' '' @ ShellQuote (InterpreterNotFoundDiagnostic interpreter) @ '' >&2; exit 127; }; exec ''"

definition BuildScriptRunner :: "script_spec \<Rightarrow> string" where
  "BuildScriptRunner spec = runner_guard (ssp_Interpreter spec) @ JoinRemoteArgv (runner_words spec)"

definition BuildScriptSyntaxRunner :: "script_spec \<Rightarrow> script_error + string" where
  "BuildScriptSyntaxRunner spec =
     (if ssp_NonShell spec then Inl SyntaxNeedsShell
      else Inr (runner_guard (ssp_Interpreter spec) @ JoinRemoteArgv [ssp_Interpreter spec, ''-n'', ''-s'', ''--'']))"

section \<open>The quoting rules of the shell\<close>

text \<open>
  The token recognition of a POSIX shell (XCU 2.2 and 2.3) on command text without expansions: blanks
  separate words, text between apostrophes is literal, text between quotation marks is literal up to the
  characters that start an expansion. Each character of a word carries whether it was quoted. Text with
  operators, expansions or comments outside quotes is outside this fragment (None).
\<close>

type_synonym shell_word = "(char \<times> bool) list"

datatype quote_mode = Bare | Single | Double

definition shell_special :: "char \<Rightarrow> bool" where
  "shell_special c = (c \<in> set ''|&;<>()$*?[#~!'' \<or> c \<in> set [CHR 0x60, CHR 0x5C, CHR 0x0A])"

fun end_word :: "shell_word option \<Rightarrow> shell_word list" where
  "end_word None = []"
| "end_word (Some w) = [w]"

fun add_chars :: "shell_word option \<Rightarrow> shell_word \<Rightarrow> shell_word option" where
  "add_chars None cs = Some cs"
| "add_chars (Some w) cs = Some (w @ cs)"

fun shell_scan :: "quote_mode \<Rightarrow> shell_word option \<Rightarrow> string \<Rightarrow> shell_word list option" where
  "shell_scan Bare w [] = Some (end_word w)"
| "shell_scan Single w [] = None"
| "shell_scan Double w [] = None"
| "shell_scan Bare w (c # s) =
     (if c = CHR '' '' \<or> c = CHR 0x09 then map_option (\<lambda>ws. end_word w @ ws) (shell_scan Bare None s)
      else if c = CHR 0x27 then shell_scan Single (add_chars w []) s
      else if c = CHR 0x22 then shell_scan Double (add_chars w []) s
      else if shell_special c then None
      else shell_scan Bare (add_chars w [(c, False)]) s)"
| "shell_scan Single w (c # s) =
     (if c = CHR 0x27 then shell_scan Bare w s else shell_scan Single (add_chars w [(c, True)]) s)"
| "shell_scan Double w (c # s) =
     (if c = CHR 0x22 then shell_scan Bare w s
      else if c = CHR ''$'' \<or> c = CHR 0x60 \<or> c = CHR 0x5C then None
      else shell_scan Double (add_chars w [(c, True)]) s)"

text \<open>
  A word is an assignment when an unquoted name is followed by an unquoted \<^verbatim>\<open>=\<close> (XCU 2.9.1); the leading
  assignments of a simple command are not arguments.
\<close>

definition assignment_word :: "shell_word \<Rightarrow> bool" where
  "assignment_word w =
     (let name = takeWhile (\<lambda>(c, q). c \<noteq> CHR ''='') w
      in name \<noteq> w \<and> isEnvName (map fst name) \<and> list_all (\<lambda>(c, q). \<not> q) name \<and> \<not> snd (w ! length name))"

definition shell_command :: "string \<Rightarrow> (string list \<times> string list) option" where
  "shell_command text =
     map_option (\<lambda>ws. (map (map fst) (takeWhile assignment_word ws), map (map fst) (dropWhile assignment_word ws)))
       (shell_scan Bare None text)"

end
