(* ===== verification/Shell_Quoting.thy ===== *)
theory Shell_Quoting
  imports Remote_Command
begin

text \<open>
  The remote shell reads back exactly the words that were quoted, the environment assignments and nothing
  else as assignments; the words of an accepted interpreter are harmless; redacted text contains no secret.
\<close>

section \<open>Scanning quoted text\<close>

definition quoted :: "string \<Rightarrow> shell_word" where "quoted s = map (\<lambda>c. (c, True)) s"
definition bare :: "string \<Rightarrow> shell_word" where "bare s = map (\<lambda>c. (c, False)) s"

lemma word_text [simp]: "map fst (quoted s) = s" "map fst (bare s) = s"
  by (simp_all add: quoted_def bare_def comp_def)

lemma add_chars_add [simp]: "add_chars (add_chars w xs) ys = add_chars w (xs @ ys)"
  by (cases w) simp_all

lemma add_chars_Nil [simp]: "add_chars (add_chars w xs) [] = add_chars w xs"
  by (cases w) simp_all

lemma replace_char [simp]:
  "replace_all [] old new = []"
  "replace_all (c # s) [a] new = (if c = a then new else [c]) @ replace_all s [a] new"
  by (simp_all add: replace_all.simps)

lemma scan_single_quoted:
  "shell_scan Single (add_chars w xs) (replace_all s [apostrophe] quoted_apostrophe @ apostrophe # rest)
   = shell_scan Bare (add_chars w (xs @ quoted s)) rest"
proof (induction s arbitrary: xs)
  case (Cons c s)
  from Cons [of "xs @ [(c, True)]"] show ?case
    by (cases "c = CHR 0x27") (simp_all add: quoted_apostrophe_def quoted_def apostrophe_def)
qed (simp add: apostrophe_def quoted_def)

text \<open>
  \<open>scans_as t w\<close>: wherever a shell that is not inside quotes reads the text \<open>t\<close>, it appends \<open>w\<close> to the
  current word and is not inside quotes again.
\<close>

definition scans_as :: "string \<Rightarrow> shell_word \<Rightarrow> bool" where
  "scans_as t w = (\<forall>cur rest. shell_scan Bare cur (t @ rest) = shell_scan Bare (add_chars cur w) rest)"

lemma scans_as_append: "scans_as t w \<Longrightarrow> scans_as t' w' \<Longrightarrow> scans_as (t @ t') (w @ w')"
  by (simp add: scans_as_def)

lemma scans_as_quote: "scans_as (ShellQuote s) (quoted s)"
proof (cases "s = ''''")
  case True
  then show ?thesis by (simp add: scans_as_def ShellQuote_def apostrophe_def quoted_def)
next
  case False
  have "shell_scan Bare cur (ShellQuote s @ rest) = shell_scan Bare (add_chars cur (quoted s)) rest" for cur rest
    using False scan_single_quoted [of cur "[]" s rest]
    by (simp add: ShellQuote_def) (simp add: apostrophe_def)
  then show ?thesis by (simp add: scans_as_def)
qed

definition plain_char :: "char \<Rightarrow> bool" where
  "plain_char c = (\<not> shell_special c \<and> c \<notin> set [CHR '' '', CHR 0x09, CHR 0x27, CHR 0x22])"

lemma scans_as_bare: "s \<noteq> [] \<Longrightarrow> list_all plain_char s \<Longrightarrow> scans_as s (bare s)"
proof (induction s)
  case (Cons c s)
  have step: "scans_as [c] (bare [c])"
    using Cons.prems(2) by (auto simp: scans_as_def plain_char_def bare_def)
  show ?case
  proof (cases "s = []")
    case False
    then show ?thesis
      using Cons scans_as_append [OF step, of s "bare s"] by (simp add: bare_def)
  qed (use step in simp)
qed simp

lemma not_plain_chars:
  "list_all (\<lambda>c. \<not> env_name_char c \<and> \<not> interpreter_char c)
     (''|&;<>()$*?[#~!'' @ [CHR 0x60, CHR 0x5C, CHR 0x0A, CHR '' '', CHR 0x09, CHR 0x27, CHR 0x22])"
  by code_simp

lemma env_name_plain: "env_name_char c \<Longrightarrow> plain_char c"
  using not_plain_chars by (auto simp: plain_char_def shell_special_def)

lemma interpreter_plain: "interpreter_char c \<Longrightarrow> plain_char c"
  using not_plain_chars by (auto simp: plain_char_def shell_special_def)

lemma scan_join:
  assumes "list_all2 scans_as ts ws"
  shows "shell_scan Bare None (join '' '' ts) = Some ws"
proof (cases ts)
  case Nil
  with assms show ?thesis by (simp add: join_def)
next
  case (Cons t us)
  have space: "(@) '' '' = (#) (CHR '' '')" by (simp add: fun_eq_iff)
  have tail: "list_all2 scans_as us vs \<Longrightarrow>
      shell_scan Bare (Some w) (concat (map ((#) (CHR '' '')) us)) = Some (w # vs)" for vs w
  proof (induction us vs arbitrary: w rule: list_all2_induct)
    case (Cons u us v vs)
    then show ?case by (simp add: scans_as_def)
  qed simp
  from assms Cons obtain w vs where "ws = w # vs" "scans_as t w" "list_all2 scans_as us vs"
    by (auto simp: list_all2_Cons1)
  with tail Cons show ?thesis by (simp add: join_def scans_as_def space)
qed

section \<open>Assignments\<close>

lemma quoted_no_assignment: "\<not> assignment_word (quoted s)"
proof -
  have "takeWhile (\<lambda>(c, q). c \<noteq> CHR ''='') (quoted s) = quoted (takeWhile (\<lambda>c. c \<noteq> CHR ''='') s)"
    by (induction s) (auto simp: quoted_def)
  moreover have "\<not> isEnvName n \<or> \<not> list_all (\<lambda>(c, q). \<not> q) (quoted n)" for n
    by (cases n) (auto simp: quoted_def isEnvName_def)
  ultimately show ?thesis
    using word_text(1) by (auto simp: assignment_word_def Let_def)
qed

lemma isEnvName_chars: "isEnvName n \<Longrightarrow> n \<noteq> [] \<and> list_all env_name_char n"
  by (auto simp: isEnvName_def env_name_char_def split: list.splits)

lemma isEnvName_no_equals: "isEnvName n \<Longrightarrow> CHR ''='' \<notin> set n"
proof -
  have "\<not> env_name_char (CHR ''='')" by code_simp
  then show "isEnvName n \<Longrightarrow> CHR ''='' \<notin> set n" using isEnvName_chars by (auto simp: list_all_iff)
qed

definition assignment :: "string \<Rightarrow> string \<Rightarrow> shell_word" where
  "assignment n v = bare (n @ ''='') @ quoted v"

lemma assignment_word_assignment: "isEnvName n \<Longrightarrow> assignment_word (assignment n v)"
proof -
  assume n: "isEnvName n"
  then have "CHR ''='' \<notin> set n" by (rule isEnvName_no_equals)
  then have "takeWhile (\<lambda>(c, q). c \<noteq> CHR ''='') (assignment n v) = bare n"
    by (induction n) (auto simp: assignment_def bare_def)
  with n show ?thesis
    by (auto simp: assignment_word_def assignment_def nth_append bare_def list_all_iff comp_def)
qed

lemma scans_as_assignment: "isEnvName n \<Longrightarrow> scans_as (n @ ''='' @ ShellQuote v) (assignment n v)"
proof -
  assume n: "isEnvName n"
  have "plain_char (CHR ''='')" by code_simp
  with n isEnvName_chars env_name_plain have "list_all plain_char (n @ ''='')" by (auto simp: list_all_iff)
  then have "scans_as (n @ ''='') (bare (n @ ''=''))" by (intro scans_as_bare) simp_all
  from scans_as_append [OF this scans_as_quote [of v]] show ?thesis by (simp add: assignment_def)
qed

lemma isEnvAssign_split:
  assumes "isEnvAssign p"
  obtains n v where "p = n @ ''='' @ v" "isEnvName n" "formatEnvAssign p = n @ ''='' @ ShellQuote v"
proof -
  define n where "n = takeWhile (\<lambda>c. c \<noteq> CHR ''='') p"
  have n: "n \<noteq> p" "n \<noteq> ''''" "isEnvName n"
    using assms by (auto simp: isEnvAssign_def n_def Let_def split: if_splits)
  have rest: "dropWhile (\<lambda>c. c \<noteq> CHR ''='') p \<noteq> []"
    using n(1) takeWhile_dropWhile_id [of "\<lambda>c. c \<noteq> CHR ''=''" p] by (auto simp: n_def)
  then obtain v where "dropWhile (\<lambda>c. c \<noteq> CHR ''='') p = CHR ''='' # v"
    using hd_dropWhile [OF rest] by (cases "dropWhile (\<lambda>c. c \<noteq> CHR ''='') p") auto
  then have p: "p = n @ ''='' @ v"
    using takeWhile_dropWhile_id [of "\<lambda>c. c \<noteq> CHR ''=''" p] by (simp add: n_def)
  have "drop (Suc (length n)) p = v" unfolding p by simp
  then have "formatEnvAssign p = n @ ''='' @ ShellQuote v"
    using n(1,2) by (simp add: formatEnvAssign_def Let_def flip: n_def)
  with p n(3) that show ?thesis by blast
qed

lemma env_end_bounds:
  "env_end ps \<le> length ps" "ps \<noteq> [] \<Longrightarrow> env_end ps < length ps" "list_all isEnvAssign (take (env_end ps) ps)"
  by (induction ps rule: env_end.induct) auto

lemma dropWhile_quoted:
  assumes "list_all assignment_word as" and "list_all (\<lambda>w. \<not> assignment_word w) ws"
  shows "takeWhile assignment_word (as @ ws) = as" "dropWhile assignment_word (as @ ws) = ws"
  using assms by (induction as; cases ws; simp)+

lemma quoted_words: "list_all2 scans_as (map ShellQuote qs) (map quoted qs)"
  by (induction qs) (auto simp: scans_as_quote)

lemma quoted_words_no_assignments: "list_all (\<lambda>w. \<not> assignment_word w) (map quoted qs)"
  by (simp add: list_all_iff quoted_no_assignment)

lemma joined_command_round_trip_argv: "shell_command (JoinRemoteArgv parts) = Some ([], parts)"
  using scan_join [OF quoted_words] dropWhile_quoted [of "[]" "map quoted parts"] quoted_words_no_assignments
  by (simp add: shell_command_def JoinRemoteArgv_def comp_def)

text \<open>
  C35.
  What the remote shell reads back from quoted arguments is exactly the arguments, whatever bytes they
  contain; and from a joined command exactly the leading \<^verbatim>\<open>NAME=value\<close> words as assignments and all other
  words, at least one, as the command and its arguments.
\<close>

theorem joined_command_round_trip:
  "shell_command (JoinRemoteArgv parts) = Some ([], parts)
   \<and> (length parts \<ge> 2 \<longrightarrow>
       shell_command (JoinRemoteCommand parts False) = Some (take (env_end parts) parts, drop (env_end parts) parts)
       \<and> drop (env_end parts) parts \<noteq> [])"
proof
  show "shell_command (JoinRemoteArgv parts) = Some ([], parts)" by (rule joined_command_round_trip_argv)
  show "length parts \<ge> 2 \<longrightarrow>
       shell_command (JoinRemoteCommand parts False) = Some (take (env_end parts) parts, drop (env_end parts) parts)
       \<and> drop (env_end parts) parts \<noteq> []"
  proof
    assume two: "length parts \<ge> 2"
    have "list_all isEnvAssign ps \<Longrightarrow> \<exists>as. list_all2 scans_as (map formatEnvAssign ps) as
        \<and> list_all assignment_word as \<and> map (map fst) as = ps" for ps
    proof (induction ps)
      case (Cons p ps)
      then obtain as where as: "list_all2 scans_as (map formatEnvAssign ps) as" "list_all assignment_word as"
        "map (map fst) as = ps" by auto
      from Cons.prems obtain n v where "p = n @ ''='' @ v" "isEnvName n"
        "formatEnvAssign p = n @ ''='' @ ShellQuote v" by (auto elim: isEnvAssign_split)
      with as scans_as_assignment [of n v] assignment_word_assignment [of n v] show ?case
        by (intro exI [of _ "assignment n v # as"]) (simp add: assignment_def)
    qed simp
    from this [OF env_end_bounds(3) [of parts]] obtain as where
      as: "list_all2 scans_as (map formatEnvAssign (take (env_end parts) parts)) as"
        "list_all assignment_word as" "map (map fst) as = take (env_end parts) parts" by blast
    let ?ws = "map quoted (drop (env_end parts) parts)"
    have "shell_scan Bare None (JoinRemoteCommand parts False) = Some (as @ ?ws)"
      using two scan_join [OF list_all2_appendI [OF as(1) quoted_words]]
      by (auto simp: JoinRemoteCommand_def)
    moreover have "env_end parts < length parts" using env_end_bounds(2) [of parts] two by (cases parts) auto
    ultimately show "shell_command (JoinRemoteCommand parts False) = Some (take (env_end parts) parts, drop (env_end parts) parts)
       \<and> drop (env_end parts) parts \<noteq> []"
      using dropWhile_quoted [OF as(2) quoted_words_no_assignments] as(3) by (simp add: shell_command_def comp_def)
  qed
qed

theorem joined_command_round_trip_witness:
  "shell_command (JoinRemoteCommand [''A=b c'', ''echo'', [CHR 0x27] @ ''$x'', ''B=d''] False)
   = Some ([''A=b c''], [''echo'', [CHR 0x27] @ ''$x'', ''B=d''])"
proof -
  have "env_end [''A=b c'', ''echo'', [CHR 0x27] @ ''$x'', ''B=d''] = 1" by code_simp
  then show ?thesis
    using joined_command_round_trip [of "[''A=b c'', ''echo'', [CHR 0x27] @ ''$x'', ''B=d'']"] by simp
qed

section \<open>Secrets on a command line\<close>

lemma sort_filtered [simp]: "list_all (\<lambda>(k, v). isEnvName k) (sorted_secrets secrets)"
  by (simp add: sorted_secrets_def list_all_iff)

lemma scan_assignments:
  "list_all (\<lambda>(k, v). isEnvName k) kvs \<Longrightarrow>
   shell_scan Bare None (concat (map (\<lambda>(k, v). k @ ''='' @ ShellQuote v @ '' '') kvs) @ cmd)
   = map_option (\<lambda>ws. map (\<lambda>(k, v). assignment k v) kvs @ ws) (shell_scan Bare None cmd)"
proof (induction kvs)
  case (Cons kv kvs)
  obtain k v where kv: "kv = (k, v)" by (rule prod.exhaust)
  with Cons.prems scans_as_assignment [of k v] have "scans_as (k @ ''='' @ ShellQuote v) (assignment k v)" by simp
  then have "shell_scan Bare None ((k @ ''='' @ ShellQuote v) @ rest)
      = shell_scan Bare (Some (assignment k v)) rest" for rest
    unfolding scans_as_def by simp
  with Cons kv show ?case by (simp add: option.map_comp comp_def)
next
  case Nil
  show ?case by (cases "shell_scan Bare None cmd") simp_all
qed

text \<open>
  Secrets reach the remote command as assignments, one for each secret with a valid name, in the order of
  the names and with their exact values, and change nothing in how the shell reads the command behind them.
\<close>

theorem secrets_are_assignments:
  "shell_command (BuildRemoteCommand cmd secrets)
   = map_option (\<lambda>(assigns, argv). (map (\<lambda>(k, v). k @ ''='' @ v) (sorted_secrets secrets) @ assigns, argv))
       (shell_command cmd)
   \<and> map fst (sorted_secrets secrets) = sort (filter isEnvName (map fst secrets))"
proof
  let ?kvs = "sorted_secrets secrets"
  have assigns: "list_all assignment_word (map (\<lambda>(k, v). assignment k v) ?kvs)"
    using sort_filtered [of secrets] assignment_word_assignment by (auto simp: list_all_iff)
  have "takeWhile assignment_word (map (\<lambda>(k, v). assignment k v) ?kvs @ ws)
      = map (\<lambda>(k, v). assignment k v) ?kvs @ takeWhile assignment_word ws" for ws
    by (rule takeWhile_append2) (use assigns in \<open>simp only: list_all_iff\<close>)
  moreover have "dropWhile assignment_word (map (\<lambda>(k, v). assignment k v) ?kvs @ ws) = dropWhile assignment_word ws" for ws
    by (rule dropWhile_append2) (use assigns in \<open>simp only: list_all_iff\<close>)
  ultimately show "shell_command (BuildRemoteCommand cmd secrets)
     = map_option (\<lambda>(assigns, argv). (map (\<lambda>(k, v). k @ ''='' @ v) ?kvs @ assigns, argv)) (shell_command cmd)"
    using scan_assignments [OF sort_filtered, of secrets cmd]
    by (simp add: shell_command_def BuildRemoteCommand_def option.map_comp comp_def case_prod_unfold assignment_def)
  have "map fst (sort_key fst ps) = sort (map fst ps)" for ps :: secrets
    by (rule properties_for_sort [symmetric]) (simp_all add: mset_map)
  then show "map fst ?kvs = sort (filter isEnvName (map fst secrets))"
    by (simp add: sorted_secrets_def filter_map comp_def case_prod_unfold)
qed

section \<open>Redaction\<close>

text \<open>\<open>occurs v s\<close>: the text \<open>v\<close> is part of \<open>s\<close>.\<close>

definition occurs :: "string \<Rightarrow> string \<Rightarrow> bool" where
  "occurs v s = (\<exists>a b. s = a @ v @ b)"

lemma contains_sub_occurs: "contains_sub s v \<longleftrightarrow> occurs v s"
proof (induction s v rule: contains_sub.induct)
  case (1 t)
  then show ?case by (simp add: occurs_def)
next
  case (2 c s t)
  have "has_prefix (c # s) t \<longleftrightarrow> (\<exists>b. c # s = t @ b)"
    by (metis append_eq_conv_conj append_take_drop_id has_prefix_iff)
  moreover have "occurs t (c # s) \<longleftrightarrow> (\<exists>b. c # s = t @ b) \<or> occurs t s"
    unfolding occurs_def by (auto simp: Cons_eq_append_conv)
  ultimately show ?case using 2 by simp
qed

lemma replace_all_cases:
  obtains "s = [] \<or> old = []" "replace_all s old new = s"
    | rest where "old \<noteq> []" "s = old @ rest" "replace_all s old new = new @ replace_all rest old new"
    | c rest where "old \<noteq> []" "s = c # rest" "\<not> has_prefix s old" "replace_all s old new = c # replace_all rest old new"
proof (cases "s = [] \<or> old = []")
  case False
  then show ?thesis
    using that(2) [of "drop (length old) s"] that(3) [of "hd s" "tl s"] replace_all.simps [of s old new]
    by (cases "has_prefix s old") (simp_all add: has_prefix_iff, metis append_take_drop_id)
qed (use that(1) in \<open>simp add: replace_all.simps [of s]\<close>)

text \<open>
  \<open>q\<close> is the quotation mark around a value, or empty; the replacement keeps it around stars. A text without
  stars that occurs after such a replacement occurred before.
\<close>

lemma starless_prefix:
  assumes "u @ CHR ''*'' # r = v @ b" and "CHR ''*'' \<notin> set v"
  shows "\<exists>u2. u = v @ u2"
  using assms by (auto simp: append_eq_append_conv2 Cons_eq_append_conv)

definition masks :: "string \<Rightarrow> string \<Rightarrow> string \<Rightarrow> bool" where
  "masks q old new = (new = q @ ''***'' @ q \<and> (\<exists>mid. old = q @ mid @ q) \<and> old \<noteq> [])"

lemma prefix_of_replaced:
  assumes "masks q old new" and "CHR ''*'' \<notin> set v" and "replace_all s old new = v @ b"
  shows "\<exists>b'. s = v @ b'"
  using assms(2,3)
proof (induction v arbitrary: s b)
  case (Cons x v)
  show ?case
  proof (cases rule: replace_all_cases [of s old new])
    case 1
    then show ?thesis using Cons.prems by auto
  next
    case (2 rest)
    have "q @ CHR ''*'' # (''**'' @ q @ replace_all rest old new) = (x # v) @ b"
      using 2(3) Cons.prems assms(1) by (simp add: masks_def)
    from starless_prefix [OF this Cons.prems(1)] obtain u where "q = (x # v) @ u" by blast
    then show ?thesis using 2(2) assms(1) by (auto simp: masks_def)
  next
    case (3 c rest)
    with Cons show ?thesis by force
  qed
qed auto

lemma occurs_within: "occurs v s \<Longrightarrow> occurs v (a @ s @ b)"
  unfolding occurs_def by (metis append.assoc)

lemma replacing_adds_nothing:
  assumes "masks q old new" and "CHR ''*'' \<notin> set v" and "v \<noteq> []" and "occurs v (replace_all s old new)"
  shows "occurs v s"
  using assms(4)
proof (induction "length s" arbitrary: s rule: less_induct)
  case less
  obtain a b where ab: "replace_all s old new = a @ v @ b" using less.prems by (auto simp: occurs_def)
  show ?case
  proof (cases rule: replace_all_cases [of s old new])
    case 1
    then show ?thesis using less.prems by simp
  next
    case (3 c rest)
    show ?thesis
    proof (cases a)
      case Nil
      with ab prefix_of_replaced [OF assms(1,2), of s b] show ?thesis by (force simp: occurs_def)
    next
      case (Cons x a')
      with ab 3(4) have "replace_all rest old new = a' @ v @ b" by simp
      then have "occurs v (replace_all rest old new)" unfolding occurs_def by blast
      with less.hyps [of rest] 3 have "occurs v rest" by simp
      with 3 occurs_within [of v rest "[c]" "[]"] show ?thesis by simp
    qed
  next
    case (2 rest)
    obtain mid where old: "old = q @ mid @ q" "new = q @ ''***'' @ q" using assms(1) by (auto simp: masks_def)
    let ?R = "replace_all rest old new"
    have eq: "q @ ''***'' @ q @ ?R = a @ v @ b" using 2(3) old ab by simp
    have in_rest: "occurs v ?R \<Longrightarrow> occurs v s"
      using less.hyps [of rest] 2 occurs_within [of v rest old "[]"] by (auto simp: assms(1))
    have in_q: "occurs v q \<Longrightarrow> occurs v s"
      using 2 old occurs_within [of v q "[]" "mid @ q @ rest"] by simp
    have in_tail: "occurs v s" if tail: "q @ ?R = a' @ v @ b" for a'
    proof -
      from tail consider a2 where "?R = a2 @ v @ b" | q2 where "q = a' @ q2" "q2 @ ?R = v @ b"
        by (auto simp: append_eq_append_conv2)
      then show ?thesis
      proof cases
        case 1
        then show ?thesis using in_rest by (auto simp: occurs_def)
      next
        case (2 q2)
        then consider u where "q2 = v @ u" | v2 where "v = q2 @ v2" "?R = v2 @ b"
          by (auto simp: append_eq_append_conv2)
        then show ?thesis
        proof cases
          case 1
          with 2 show ?thesis using in_q by (auto simp: occurs_def)
        next
          case (2 v2)
          with assms(2) prefix_of_replaced [OF assms(1), of v2 rest b] obtain b' where "rest = v2 @ b'" by auto
          with \<open>s = old @ rest\<close> old \<open>q = a' @ q2\<close> 2 have "s = (q @ mid @ a') @ v @ b'" by simp
          then show ?thesis unfolding occurs_def by blast
        qed
      qed
    qed
    from eq consider q2 where "q = a @ q2" "q2 @ ''***'' @ q @ ?R = v @ b"
      | a2 where "a = q @ a2" "''***'' @ q @ ?R = a2 @ v @ b"
      unfolding append_eq_append_conv2 [of q _ a] by blast
    then show ?thesis
    proof cases
      case (1 q2)
      from starless_prefix [of q2 "''**'' @ q @ ?R" v b] 1 assms(2) obtain u where "q2 = v @ u" by auto
      with 1 show ?thesis using in_q by (auto simp: occurs_def)
    next
      case (2 a2)
      obtain x v' where v: "v = x # v'" "x \<noteq> CHR ''*''" using assms(2,3) by (cases v) auto
      then obtain a3 where "a2 = ''***'' @ a3" "q @ ?R = a3 @ v @ b"
        using 2(2) by (auto simp: Cons_eq_append_conv append_eq_Cons_conv)
      then show ?thesis using in_tail by blast
    qed
  qed
qed

lemma replaced_is_gone:
  assumes "v \<noteq> []" and "CHR ''*'' \<notin> set v"
  shows "\<not> occurs v (replace_all s v ''***'')"
proof (induction "length s" arbitrary: s rule: less_induct)
  case less
  have mask: "masks [] v ''***''" using assms(1) by (simp add: masks_def)
  obtain x v' where v: "v = x # v'" "x \<noteq> CHR ''*''" using assms by (cases v) auto
  show ?case
  proof (cases rule: replace_all_cases [of s v "''***''"])
    case 1
    then show ?thesis using assms(1) by (auto simp: occurs_def)
  next
    case (2 rest)
    with less [of rest] have "\<not> occurs v (replace_all rest v ''***'')" using assms(1) by simp
    then show ?thesis
      unfolding 2(3) using v by (auto simp: occurs_def Cons_eq_append_conv append_eq_Cons_conv)
  next
    case (3 c rest)
    show ?thesis
    proof
      assume "occurs v (replace_all s v ''***'')"
      then obtain a b where ab: "c # replace_all rest v ''***'' = a @ v @ b" using 3 by (auto simp: occurs_def)
      show False
      proof (cases a)
        case Nil
        with ab 3 prefix_of_replaced [OF mask assms(2), of s b] show False
          by (auto simp: has_prefix_iff)
      next
        case (Cons y a')
        with ab have "occurs v (replace_all rest v ''***'')" by (auto simp: occurs_def)
        with less [of rest] 3 show False by simp
      qed
    qed
  qed
qed

lemma masks_quote: "masks [apostrophe] (ShellQuote w) ([apostrophe] @ ''***'' @ [apostrophe])"
  by (auto simp: masks_def ShellQuote_def intro: exI [of _ "[]"])

lemma redacting_keeps_absence:
  assumes "v \<noteq> []" and "CHR ''*'' \<notin> set v" and "\<not> occurs v out" and "w \<noteq> []"
  shows "\<not> occurs v (redact_value w out)"
proof -
  have "\<not> occurs v (replace_all out (ShellQuote w) ([apostrophe] @ ''***'' @ [apostrophe]))"
    using replacing_adds_nothing [OF masks_quote assms(2,1)] assms(3) by blast
  moreover have "masks [] w ''***''" using assms(4) by (simp add: masks_def)
  ultimately show ?thesis
    using replacing_adds_nothing [OF _ assms(2,1), of "[]" w "''***''"]
    by (auto simp: redact_value_def Let_def)
qed

lemma redacted_value_absent:
  "length v \<ge> 4 \<Longrightarrow> CHR ''*'' \<notin> set v \<Longrightarrow> \<not> occurs v (redact_value v out)"
  using replaced_is_gone [of v] by (cases v) (auto simp: redact_value_def Let_def)



section \<open>Scripts\<close>

lemma plain_text_one_word:
  assumes "s \<noteq> ''''" and "list_all plain_char s" and "CHR ''='' \<notin> set s"
  shows "shell_command s = Some ([], [s])"
proof -
  have "shell_scan Bare None s = Some [bare s]"
    using scans_as_bare [OF assms(1,2), unfolded scans_as_def, rule_format, of None "[]"] by simp
  moreover have "takeWhile (\<lambda>(c, q). c \<noteq> CHR ''='') (bare s) = bare s"
    using assms(3) by (induction s) (auto simp: bare_def)
  then have "\<not> assignment_word (bare s)" by (simp add: assignment_word_def Let_def)
  ultimately show ?thesis by (simp add: shell_command_def)
qed

lemma supported_shells_plain:
  "isSupportedScriptShell s \<Longrightarrow> s \<noteq> '''' \<and> list_all interpreter_char s"
proof -
  have "list_all (\<lambda>s. s \<noteq> '''' \<and> list_all interpreter_char s) [''sh'', ''bash'', ''dash'', ''ash'', ''ksh'', ''zsh'']"
    by code_simp
  then show "isSupportedScriptShell s \<Longrightarrow> s \<noteq> '''' \<and> list_all interpreter_char s"
    unfolding isSupportedScriptShell_def list_all_iff by blast
qed

lemma ResolveScriptShell_supported: "ResolveScriptShell body r = Inr shell \<Longrightarrow> isSupportedScriptShell shell"
proof -
  have sh: "isSupportedScriptShell ''sh''" by code_simp
  assume "ResolveScriptShell body r = Inr shell"
  then show ?thesis
    by (auto simp: ResolveScriptShell_def Let_def sh split: if_splits list.splits)
qed

lemma ParseInterpreter_valid:
  "ParseInterpreter v = Inr p \<Longrightarrow> pin_Program p = ''auto'' \<and> pin_Shell p \<or> validInterpreterProgram (pin_Program p)"
  by (auto simp: ParseInterpreter_def Let_def split: if_splits)

lemma select_interpreter_plain:
  assumes "select_interpreter body sh i = Inr (program, launcher, nonShell)"
  shows "program \<noteq> '''' \<and> list_all interpreter_char program \<and> (nonShell \<or> isSupportedScriptShell (path_base program) \<or> isSupportedScriptShell program)"
proof -
  have valid: "validInterpreterProgram p \<Longrightarrow> p \<noteq> '''' \<and> list_all interpreter_char p" for p
    by (auto simp: validInterpreterProgram_def split: if_splits)
  show ?thesis
  proof (cases "i = ''''")
    case True
    with assms show ?thesis
      using supported_shells_plain ResolveScriptShell_supported
      by (auto simp: select_interpreter_def split: sum.splits)
  next
    case False
    with assms obtain p where p: "ParseInterpreter i = Inr p"
      by (auto simp: select_interpreter_def split: sum.splits if_splits)
    note v = ParseInterpreter_valid [OF p]
    show ?thesis
    proof (cases "pin_Shell p")
      case False
      with assms p v valid \<open>i \<noteq> ''''\<close> show ?thesis
        by (auto simp: select_interpreter_def split: if_splits)
    next
      case True
      define request where "request = (if pin_Program p \<noteq> ''auto'' \<and> \<not> isSupportedScriptShell (pin_Program p)
        then path_base (pin_Program p) else pin_Program p)"
      obtain shell where shell: "ResolveScriptShell body request = Inr shell"
        "program = (if request \<noteq> pin_Program p then pin_Program p else shell)"
        using assms p True \<open>i \<noteq> ''''\<close>
        by (auto simp: select_interpreter_def Let_def request_def [symmetric] split: if_splits sum.splits)
      have ok: "isSupportedScriptShell shell" using ResolveScriptShell_supported shell(1) by blast
      show ?thesis
      proof (cases "request = pin_Program p")
        case True
        with shell ok supported_shells_plain show ?thesis by auto
      next
        case False
        then have auto: "pin_Program p \<noteq> ''auto''" "request = path_base (pin_Program p)"
          by (auto simp: request_def split: if_splits)
        from v auto have "validInterpreterProgram (pin_Program p)" by auto
        moreover have "isSupportedScriptShell (path_base (pin_Program p))"
        proof -
          have "pin_Shell p \<and> pin_Program p \<noteq> ''auto'' \<Longrightarrow> isSupportedScriptShell (path_base (pin_Program p))"
            using p by (auto simp: ParseInterpreter_def Let_def split: if_splits)
          then show ?thesis using True auto by blast
        qed
        ultimately show ?thesis using shell(2) False valid by auto
      qed
    qed
  qed
qed

lemma replace_char_set: "CHR 0x0D \<notin> set (replace_all s [CHR 0x0D] [CHR 0x0A])"
  by (induction s) auto

lemma set_replace_all: "set (replace_all s old new) \<subseteq> set s \<union> set new"
proof (induction "length s" arbitrary: s rule: less_induct)
  case less
  show ?case
  proof (cases rule: replace_all_cases [of s old new])
    case (2 rest)
    with less [of rest] show ?thesis by auto
  next
    case (3 c rest)
    with less [of rest] show ?thesis by auto
  qed auto
qed

lemma normalize_body_form:
  assumes "normalize_body data = Inr body"
  shows "CHR 0x0D \<notin> set body" "CHR 0x00 \<notin> set body" "has_suffix body [CHR 0x0A]"
proof -
  define d where "d = (if has_prefix data byte_order_mark then drop 3 data else data)"
  define t where "t = replace_all (replace_all d [CHR 0x0D, CHR 0x0A] [CHR 0x0A]) [CHR 0x0D] [CHR 0x0A]"
  have nul: "CHR 0x00 \<notin> set d" and body: "body = (if has_suffix t [CHR 0x0A] then t else t @ [CHR 0x0A])"
    using assms by (auto simp: normalize_body_def Let_def d_def t_def split: if_splits)
  have "set t \<subseteq> set d \<union> {CHR 0x0A}"
    using set_replace_all [of d "[CHR 0x0D, CHR 0x0A]" "[CHR 0x0A]"]
      set_replace_all [of "replace_all d [CHR 0x0D, CHR 0x0A] [CHR 0x0A]" "[CHR 0x0D]" "[CHR 0x0A]"]
    unfolding t_def by auto
  then have "CHR 0x00 \<notin> set t" using nul by auto
  then show "CHR 0x00 \<notin> set body" using body by (auto split: if_splits)
  show "CHR 0x0D \<notin> set body" using body replace_char_set by (auto simp: t_def split: if_splits)
  show "has_suffix body [CHR 0x0A]" using body by (auto simp: has_suffix_def split: if_splits)
qed



end
