(* ===== verification/Dial_Protocol.thy ===== *)
theory Dial_Protocol
  imports Alias_Resolution Remote_Command
begin

text \<open>
  Connecting through a chain of hosts and giving up (\<^verbatim>\<open>internal/ssh/jump.go\<close>, \<^verbatim>\<open>auth.go\<close>, \<^verbatim>\<open>pool.go\<close>,
  \<^verbatim>\<open>wait.go\<close>, the dial loop of \<^verbatim>\<open>run.go\<close>). Two threads share a \<^verbatim>\<open>dialAbort\<close>: one dials hop after hop, the
  other waits and may abandon the dial. The SSH library is the environment: it presents a host key before
  it sends credentials, and sends credentials only if the host-key callback accepted.
\<close>

section \<open>The state of a dial\<close>

text \<open>Where the dialing thread is, for the hop with the given index.\<close>

datatype dial_pc =
    NextHop nat        \<comment> \<open>about to start the hop\<close>
  | Connecting nat     \<comment> \<open>TCP connect or tunnel channel\<close>
  | Registering nat    \<comment> \<open>connection open, not yet known to the abort\<close>
  | AwaitingKey nat    \<comment> \<open>handshake before the host key\<close>
  | KeyStored nat      \<comment> \<open>the callback has stored the flag of the hop\<close>
  | Verifying nat      \<comment> \<open>the callback has seen that the dial is not aborted\<close>
  | Authenticating nat \<comment> \<open>the key was accepted: credentials may be sent\<close>
  | Connected
  | Failed nat

fun hop_of :: "nat \<Rightarrow> dial_pc \<Rightarrow> nat" where
  "hop_of n (NextHop i) = i"
| "hop_of n (Connecting i) = i"
| "hop_of n (Registering i) = i"
| "hop_of n (AwaitingKey i) = i"
| "hop_of n (KeyStored i) = i"
| "hop_of n (Verifying i) = i"
| "hop_of n (Authenticating i) = i"
| "hop_of n Connected = n"
| "hop_of n (Failed i) = i"

text \<open>Where the waiting thread is: waiting, after \<^verbatim>\<open>abort()\<close>, after reading the flag, or done in time.\<close>

datatype probe_pc = Waiting | Abandoned | FlagRead bool | InTime

record dial =
  dl_pc :: dial_pc
  dl_probe :: probe_pc
  dl_done :: bool
  dl_conns :: "nat list"
  dl_current :: "nat option"
  dl_reached :: "nat set"
  dl_sent :: "nat set"       \<comment> \<open>hops that credentials were sent to\<close>
  dl_accepted :: "nat set"   \<comment> \<open>hops that accepted the login\<close>

definition dial_start :: dial where
  "dial_start = \<lparr>dl_pc = NextHop 0, dl_probe = Waiting, dl_done = False, dl_conns = [], dl_current = None,
     dl_reached = {}, dl_sent = {}, dl_accepted = {}\<rparr>"

section \<open>The operations of the shared abort\<close>

definition set_current :: "nat \<Rightarrow> dial \<Rightarrow> dial" where
  "set_current i d = d\<lparr>dl_current := Some i\<rparr>"

definition register_conn :: "nat \<Rightarrow> dial \<Rightarrow> bool \<times> dial" where
  "register_conn i d = (if dl_done d then (False, d) else (True, d\<lparr>dl_conns := dl_conns d @ [i]\<rparr>))"

definition abort_dial :: "dial \<Rightarrow> dial" where
  "abort_dial d = d\<lparr>dl_done := True, dl_conns := []\<rparr>"

definition current_reached :: "dial \<Rightarrow> bool" where
  "current_reached d = (case dl_current d of None \<Rightarrow> False | Some i \<Rightarrow> i \<in> dl_reached d)"

section \<open>Steps\<close>

text \<open>\<open>n\<close> is the number of hops of the chain.\<close>

inductive dial_step :: "nat \<Rightarrow> dial \<Rightarrow> dial \<Rightarrow> bool" for n where
  chain_done: "dl_pc d = NextHop n \<Longrightarrow> dial_step n d (d\<lparr>dl_pc := Connected\<rparr>)"
| start_hop: "dl_pc d = NextHop i \<Longrightarrow> i < n \<Longrightarrow> dial_step n d ((set_current i d)\<lparr>dl_pc := Connecting i\<rparr>)"
| no_credentials: "dl_pc d = Connecting i \<Longrightarrow> dial_step n d (d\<lparr>dl_pc := Failed i\<rparr>)"
| connect_ok: "dl_pc d = Connecting i \<Longrightarrow> dial_step n d (d\<lparr>dl_pc := Registering i\<rparr>)"
| registered: "dl_pc d = Registering i \<Longrightarrow> register_conn i d = (True, d1) \<Longrightarrow>
    dial_step n d (d1\<lparr>dl_pc := AwaitingKey i\<rparr>)"
| register_refused: "dl_pc d = Registering i \<Longrightarrow> register_conn i d = (False, d1) \<Longrightarrow>
    dial_step n d (d1\<lparr>dl_pc := Failed i\<rparr>)"
| handshake_failed: "dl_pc d = AwaitingKey i \<Longrightarrow> dial_step n d (d\<lparr>dl_pc := Failed i\<rparr>)"
| key_arrived: "dl_pc d = AwaitingKey i \<Longrightarrow>
    dial_step n d (d\<lparr>dl_pc := KeyStored i, dl_reached := insert i (dl_reached d)\<rparr>)"
| key_refused: "dl_pc d = KeyStored i \<Longrightarrow> dl_done d \<Longrightarrow> dial_step n d (d\<lparr>dl_pc := Failed i\<rparr>)"
| key_checked: "dl_pc d = KeyStored i \<Longrightarrow> \<not> dl_done d \<Longrightarrow> dial_step n d (d\<lparr>dl_pc := Verifying i\<rparr>)"
| key_rejected: "dl_pc d = Verifying i \<Longrightarrow> dial_step n d (d\<lparr>dl_pc := Failed i\<rparr>)"
| key_accepted: "dl_pc d = Verifying i \<Longrightarrow> dial_step n d (d\<lparr>dl_pc := Authenticating i\<rparr>)"
| credentials_sent: "dl_pc d = Authenticating i \<Longrightarrow> dial_step n d (d\<lparr>dl_sent := insert i (dl_sent d)\<rparr>)"
| login_failed: "dl_pc d = Authenticating i \<Longrightarrow> dial_step n d (d\<lparr>dl_pc := Failed i\<rparr>)"
| login_accepted: "dl_pc d = Authenticating i \<Longrightarrow> i \<in> dl_sent d \<Longrightarrow>
    dial_step n d (d\<lparr>dl_pc := NextHop (Suc i), dl_accepted := insert i (dl_accepted d)\<rparr>)"
| timer: "dl_probe d = Waiting \<Longrightarrow> dial_step n d ((abort_dial d)\<lparr>dl_probe := Abandoned\<rparr>)"
| read_flag: "dl_probe d = Abandoned \<Longrightarrow> dial_step n d (d\<lparr>dl_probe := FlagRead (current_reached d)\<rparr>)"
| in_time: "dl_probe d = Waiting \<Longrightarrow> dl_pc d = Connected \<or> dl_pc d = Failed i \<Longrightarrow>
    dial_step n d (d\<lparr>dl_probe := InTime\<rparr>)"

inductive dial_run :: "nat \<Rightarrow> dial \<Rightarrow> dial \<Rightarrow> bool" for n where
  dial_run_refl: "dial_run n d d"
| dial_run_step: "dial_run n d d1 \<Longrightarrow> dial_step n d1 d2 \<Longrightarrow> dial_run n d d2"

section \<open>Failures and retries\<close>

text \<open>The fields of \<^verbatim>\<open>machinecontract.Failure\<close> that decide about a retry.\<close>

record dial_failure =
  df_Error :: string
  df_Message :: string
  df_PastKeyExchange :: bool

definition CodeHandshakeFailed :: string where "CodeHandshakeFailed = ''handshake_failed''"

definition RetryableTransportFailure :: "dial_failure \<Rightarrow> bool" where
  "RetryableTransportFailure f =
     (if df_PastKeyExchange f then False
      else if has_prefix (df_Error f) ''dial_'' then True
      else df_Error f = CodeHandshakeFailed \<and> \<not> contains_sub (to_lower (df_Message f)) ''no common algorithm'')"

text \<open>
  What \<^verbatim>\<open>waitChainProbe\<close> reports of a dial: the failure of the hop with the flag of that hop
  (\<^verbatim>\<open>classifyHop\<close>), or the timeout with the flag that was read. \<open>code\<close> and \<open>msg\<close> classify the error.
\<close>

definition probe_failure :: "dial \<Rightarrow> string \<Rightarrow> string \<Rightarrow> dial_failure option" where
  "probe_failure d code msg =
     (case dl_probe d of
        FlagRead past \<Rightarrow>
          Some \<lparr>df_Error = CodeHandshakeFailed, df_Message = ''ssh: handshake failed: i/o timeout through jump chain'',
                df_PastKeyExchange = past\<rparr>
      | InTime \<Rightarrow>
          (case dl_pc d of
             Failed i \<Rightarrow> Some \<lparr>df_Error = code, df_Message = msg, df_PastKeyExchange = (i \<in> dl_reached d)\<rparr>
           | _ \<Rightarrow> None)
      | _ \<Rightarrow> None)"

definition millisecond :: int where "millisecond = 1000000"
definition MaxBackoff :: int where "MaxBackoff = 30000000000"
definition MaxRetryDial :: int where "MaxRetryDial = 10"

text \<open>The doubling loop of \<^verbatim>\<open>RetryDelay\<close>; it ends because the delay is positive and bounded.\<close>

fun retry_doubling :: "nat \<Rightarrow> int \<Rightarrow> int" where
  "retry_doubling 0 delay = delay"
| "retry_doubling (Suc k) delay = (if delay < MaxBackoff then retry_doubling k (2 * delay) else delay)"

text \<open>\<open>jitter\<close> is the random number below its exclusive bound.\<close>

definition RetryDelay :: "(int \<Rightarrow> int) \<Rightarrow> int \<Rightarrow> int \<Rightarrow> int" where
  "RetryDelay jitter base0 attempt =
     (let base = (if base0 \<le> 0 then 250 * millisecond else base0);
          grown = retry_doubling (nat (attempt - 1)) base;
          delay = (if grown > MaxBackoff \<and> base \<le> MaxBackoff then MaxBackoff else grown);
          bound = delay div 4
      in if bound > 0 then delay + jitter (bound + 1) else delay)"

datatype acquire_outcome = Acquired | DialFailed dial_failure | SessionFailed dial_failure

text \<open>
  The attempt loop of \<^verbatim>\<open>Run\<close>: \<open>outcome k\<close> is what the k-th call of \<^verbatim>\<open>acquireSSHSession\<close> gives. The result is
  the last outcome and the number of attempts.
\<close>

fun dial_loop :: "(nat \<Rightarrow> acquire_outcome) \<Rightarrow> nat \<Rightarrow> nat \<Rightarrow> acquire_outcome \<times> nat" where
  "dial_loop outcome 0 attempt = (outcome attempt, attempt)"
| "dial_loop outcome (Suc left) attempt =
     (case outcome attempt of
        DialFailed f \<Rightarrow>
          if RetryableTransportFailure f then dial_loop outcome left (Suc attempt) else (DialFailed f, attempt)
      | r \<Rightarrow> (r, attempt))"

definition run_dial :: "(nat \<Rightarrow> acquire_outcome) \<Rightarrow> int \<Rightarrow> acquire_outcome \<times> nat" where
  "run_dial outcome retryDial =
     (let retries = (if retryDial < 0 then 0 else if retryDial > MaxRetryDial then MaxRetryDial else retryDial)
      in dial_loop outcome (nat retries) 1)"

section \<open>Invariants of a dial\<close>

text \<open>
  The flag of a hop is stored before credentials can be sent to it, the hop in progress is the current one
  of the abort, and every earlier hop accepted its login.
\<close>

definition dial_ok :: "nat \<Rightarrow> dial \<Rightarrow> bool" where
  "dial_ok n d =
     (dl_sent d \<subseteq> dl_reached d
      \<and> (\<forall>i \<in> dl_reached d. i \<le> hop_of n (dl_pc d))
      \<and> (\<forall>i < hop_of n (dl_pc d). i \<in> dl_accepted d)
      \<and> (case dl_pc d of
           NextHop i \<Rightarrow> (i = 0 \<or> dl_current d = Some (i - 1) \<and> i - 1 \<in> dl_reached d) \<and> (i = 0 \<longrightarrow> dl_current d = None) \<and> i \<notin> dl_reached d
         | Connecting i \<Rightarrow> dl_current d = Some i \<and> i \<notin> dl_reached d
         | Registering i \<Rightarrow> dl_current d = Some i \<and> i \<notin> dl_reached d
         | AwaitingKey i \<Rightarrow> dl_current d = Some i \<and> i \<notin> dl_reached d
         | KeyStored i \<Rightarrow> dl_current d = Some i \<and> i \<in> dl_reached d \<and> i \<notin> dl_sent d
         | Verifying i \<Rightarrow> dl_current d = Some i \<and> i \<in> dl_reached d \<and> i \<notin> dl_sent d
         | Authenticating i \<Rightarrow> dl_current d = Some i \<and> i \<in> dl_reached d
         | Connected \<Rightarrow> (n = 0 \<or> dl_current d = Some (n - 1) \<and> n - 1 \<in> dl_reached d) \<and> n \<notin> dl_reached d
         | Failed i \<Rightarrow> dl_current d = Some i)
      \<and> (dl_probe d = Abandoned \<or> (\<exists>b. dl_probe d = FlagRead b) \<longrightarrow> dl_done d)
      \<and> (dl_probe d = FlagRead False \<longrightarrow>
           (case dl_pc d of
              Verifying i \<Rightarrow> False | Authenticating i \<Rightarrow> False | NextHop i \<Rightarrow> i = 0
            | Connected \<Rightarrow> n = 0 | Failed i \<Rightarrow> i \<notin> dl_sent d | _ \<Rightarrow> True)))"

lemma dial_start_ok: "dial_ok n dial_start"
  by (simp add: dial_ok_def dial_start_def)

lemma dial_step_ok:
  assumes "dial_step n d d'" and "dial_ok n d"
  shows "dial_ok n d'"
  using assms
proof (cases rule: dial_step.cases)
  case (credentials_sent i)
  with assms(2) show ?thesis by (auto simp: dial_ok_def)
next
  case (login_accepted i)
  with assms(2) show ?thesis by (fastforce simp: dial_ok_def less_Suc_eq)
next
  case (read_flag)
  with assms(2) show ?thesis
    by (auto simp: dial_ok_def current_reached_def split: dial_pc.splits)
qed (use assms(2) in \<open>force simp: dial_ok_def set_current_def register_conn_def abort_dial_def less_Suc_eq
    split: dial_pc.splits if_splits\<close>)+

lemma dial_run_ok: "dial_run n d d' \<Longrightarrow> dial_ok n d \<Longrightarrow> dial_ok n d'"
  by (induction rule: dial_run.induct) (auto intro: dial_step_ok)

text \<open>After the flag was read as unset, and after a failure, no further step sends credentials.\<close>

lemma settled_step:
  assumes "dial_step n d d'" and "dial_ok n d"
    and "dl_probe d = FlagRead False \<or> dl_probe d = InTime \<and> dl_pc d = Failed i"
  shows "dl_sent d' = dl_sent d \<and> (dl_probe d' = FlagRead False \<or> dl_probe d' = InTime \<and> dl_pc d' = Failed i)"
  using assms
  by (cases rule: dial_step.cases)
    (auto simp: dial_ok_def set_current_def register_conn_def split: if_splits)

lemma settled_run:
  assumes "dial_run n d d'" and "dial_ok n d"
    and "dl_probe d = FlagRead False \<or> dl_probe d = InTime \<and> dl_pc d = Failed i"
  shows "dl_sent d' = dl_sent d \<and> (dl_probe d' = FlagRead False \<or> dl_probe d' = InTime \<and> dl_pc d' = Failed i)"
  using assms
proof (induction rule: dial_run.induct)
  case (dial_run_step d d1 d2)
  then have "dial_ok n d1" using dial_run_ok by blast
  with dial_run_step settled_step [of n d1 d2 i] show ?case by auto
qed simp

lemma sent_hops_accepted:
  assumes "dial_ok n d" and "dl_probe d = FlagRead False \<or> dl_probe d = InTime \<and> dl_pc d = Failed i \<and> i \<notin> dl_reached d"
  shows "dl_sent d \<subseteq> dl_accepted d"
proof
  fix j assume j: "j \<in> dl_sent d"
  then have le: "j \<in> dl_reached d" "j \<le> hop_of n (dl_pc d)" using assms(1) by (auto simp: dial_ok_def)
  moreover have "j \<noteq> hop_of n (dl_pc d)"
    using assms j le(1) by (auto simp: dial_ok_def split: dial_pc.splits)
  ultimately have "j < hop_of n (dl_pc d)" by simp
  then show "j \<in> dl_accepted d" using assms(1) by (auto simp: dial_ok_def)
qed

text \<open>
  C38.
  Retrying is safe: when a dial through a chain of hosts is reported as retryable, whether it failed or was
  abandoned while it was still running, credentials have been sent only to hosts that accepted the login,
  and none will be sent afterwards, however the two threads interleave.
\<close>

theorem retryable_failure_leaked_no_credentials:
  assumes "dial_run n dial_start d" and "probe_failure d code msg = Some f" and "RetryableTransportFailure f"
    and "dial_run n d later"
  shows "dl_sent later = dl_sent d \<and> dl_sent d \<subseteq> dl_accepted d"
proof -
  have ok: "dial_ok n d" using dial_run_ok [OF assms(1) dial_start_ok] .
  have past: "\<not> df_PastKeyExchange f" using assms(3) by (auto simp: RetryableTransportFailure_def split: if_splits)
  with assms(2) obtain i where settled: "dl_probe d = FlagRead False \<or> dl_probe d = InTime \<and> dl_pc d = Failed i \<and> i \<notin> dl_reached d"
    by (auto simp: probe_failure_def split: probe_pc.splits dial_pc.splits)
  then show ?thesis
    using settled_run [OF assms(4) ok, of i] sent_hops_accepted [OF ok] by auto
qed

theorem retryable_failure_leaked_no_credentials_witness:
  "\<exists>d f. dial_run 1 dial_start d \<and> probe_failure d '''' '''' = Some f \<and> RetryableTransportFailure f \<and> dl_sent d = {}"
proof -
  let ?d1 = "(set_current 0 dial_start)\<lparr>dl_pc := Connecting 0\<rparr>"
  let ?d2 = "(abort_dial ?d1)\<lparr>dl_probe := Abandoned\<rparr>"
  let ?d3 = "?d2\<lparr>dl_probe := FlagRead (current_reached ?d2)\<rparr>"
  have "dial_step 1 dial_start ?d1" by (rule start_hop) (simp_all add: dial_start_def)
  moreover have "dial_step 1 ?d1 ?d2" by (rule timer) (simp add: dial_start_def set_current_def)
  moreover have "dial_step 1 ?d2 ?d3" by (rule read_flag) simp
  ultimately have run: "dial_run 1 dial_start ?d3"
    by (meson dial_run_refl dial_run_step)
  have flag: "\<not> current_reached ?d2"
    by (simp add: current_reached_def set_current_def abort_dial_def dial_start_def)
  then obtain f where f: "probe_failure ?d3 '''' '''' = Some f" by (simp add: probe_failure_def)
  moreover have "\<not> contains_sub (to_lower ''ssh: handshake failed: i/o timeout through jump chain'') ''no common algorithm''"
    by code_simp
  moreover have "\<not> has_prefix CodeHandshakeFailed ''dial_''" by code_simp
  ultimately have "RetryableTransportFailure f"
    using flag by (auto simp: probe_failure_def RetryableTransportFailure_def)
  with retryable_failure_leaked_no_credentials [OF run f _ dial_run_refl] run f show ?thesis
    by (intro exI [of _ ?d3]) (auto simp: dial_start_def set_current_def abort_dial_def)
qed

section \<open>The attempts of a run\<close>

lemma dial_loop_props:
  assumes "dial_loop outcome left a = (r, k)"
  shows "a \<le> k \<and> k \<le> a + left \<and> r = outcome k
    \<and> (\<forall>j. a \<le> j \<and> j < k \<longrightarrow> (\<exists>f. outcome j = DialFailed f \<and> RetryableTransportFailure f))
    \<and> (k < a + left \<longrightarrow> (\<forall>f. outcome k = DialFailed f \<longrightarrow> \<not> RetryableTransportFailure f))"
  using assms
proof (induction left arbitrary: a)
  case (Suc left)
  show ?case
  proof (cases "\<exists>f. outcome a = DialFailed f \<and> RetryableTransportFailure f")
    case True
    then have "dial_loop outcome left (Suc a) = (r, k)" using Suc.prems by auto
    note rest = Suc.IH [OF this]
    have "\<exists>f. outcome j = DialFailed f \<and> RetryableTransportFailure f" if "a \<le> j" "j < k" for j
      using that True rest by (cases "j = a") auto
    with rest show ?thesis by auto
  next
    case False
    then have "r = outcome a" "k = a" using Suc.prems by (auto split: acquire_outcome.splits if_splits)
    with False show ?thesis by auto
  qed
qed auto

text \<open>
  A run dials at most eleven times, and at most once more than was asked for; each attempt but the last
  failed in a way that may be retried, and the loop stops earlier only at a success or at a failure that
  must not be retried.
\<close>

theorem run_dial_attempts:
  "\<exists>k. run_dial outcome retryDial = (outcome k, k) \<and> 1 \<le> k \<and> k \<le> 11
    \<and> int k \<le> max 0 retryDial + 1
    \<and> (\<forall>j. 1 \<le> j \<and> j < k \<longrightarrow> (\<exists>f. outcome j = DialFailed f \<and> RetryableTransportFailure f))
    \<and> (int k < min (max 0 retryDial) 10 + 1 \<longrightarrow> (\<forall>f. outcome k = DialFailed f \<longrightarrow> \<not> RetryableTransportFailure f))"
proof -
  define retries where "retries = (if retryDial < 0 then 0 else if retryDial > MaxRetryDial then MaxRetryDial else retryDial)"
  have retries: "retries = min (max 0 retryDial) 10" by (auto simp: retries_def MaxRetryDial_def)
  obtain r k where run: "dial_loop outcome (nat retries) 1 = (r, k)" by (rule prod.exhaust)
  then have "run_dial outcome retryDial = (r, k)" by (simp add: run_dial_def retries_def Let_def)
  with dial_loop_props [OF run] retries show ?thesis by (intro exI [of _ k]) auto
qed

text \<open>The pause before a retry: doubled per attempt up to 30 seconds, never below the base.\<close>

lemma retry_doubling_exact:
  "0 < b \<Longrightarrow> b \<le> MaxBackoff \<Longrightarrow> min (retry_doubling k b) MaxBackoff = min (b * 2 ^ k) MaxBackoff"
proof (induction k arbitrary: b)
  case (Suc k)
  show ?case
  proof (cases "2 * b \<le> MaxBackoff")
    case True
    then show ?thesis using Suc.IH [of "2 * b"] Suc.prems by (auto simp: ac_simps)
  next
    case False
    have stop: "retry_doubling j c = c" if "\<not> c < MaxBackoff" for j c
      using that by (cases j) simp_all
    have "2 * b * 1 \<le> 2 * b * 2 ^ k" using Suc.prems by (intro mult_left_mono) simp_all
    with False have "MaxBackoff < b * 2 ^ Suc k" by (simp add: ac_simps)
    moreover have "min (retry_doubling (Suc k) b) MaxBackoff = MaxBackoff"
      using False Suc.prems by (auto simp: stop)
    ultimately show ?thesis by (simp add: min_def)
  qed
qed simp

lemma RetryDelay_bounds:
  assumes "\<And>b. 0 < b \<Longrightarrow> 0 \<le> jitter b \<and> jitter b < b" and "0 < base" and "base \<le> MaxBackoff"
  shows "min (base * 2 ^ nat (attempt - 1)) MaxBackoff \<le> RetryDelay jitter base attempt"
    and "RetryDelay jitter base attempt \<le> min (base * 2 ^ nat (attempt - 1)) MaxBackoff * 5 div 4"
proof -
  define y where "y = min (base * 2 ^ nat (attempt - 1)) MaxBackoff"
  define x where "x = jitter (y div 4 + 1)"
  have "(if retry_doubling (nat (attempt - 1)) base > MaxBackoff \<and> base \<le> MaxBackoff then MaxBackoff
      else retry_doubling (nat (attempt - 1)) base) = y"
    using retry_doubling_exact [OF assms(2,3), of "nat (attempt - 1)"] assms(3) unfolding y_def
    by (auto simp: min_def split: if_splits)
  then have delay: "RetryDelay jitter base attempt = (if y div 4 > 0 then y + x else y)"
    using assms(2) by (simp add: RetryDelay_def Let_def x_def)
  have jit: "0 \<le> x \<and> x < y div 4 + 1" if "y div 4 > 0"
    unfolding x_def by (rule assms(1)) (use that in linarith)
  have "0 < y" using assms(2) by (simp add: y_def MaxBackoff_def)
  moreover have "y * 5 div 4 = y + y div 4"
    using div_mult_self1 [of 4 y y] by (simp add: ac_simps)
  ultimately have "y \<le> RetryDelay jitter base attempt \<and> RetryDelay jitter base attempt \<le> y * 5 div 4"
    unfolding delay using jit by auto
  then show "min (base * 2 ^ nat (attempt - 1)) MaxBackoff \<le> RetryDelay jitter base attempt"
    "RetryDelay jitter base attempt \<le> min (base * 2 ^ nat (attempt - 1)) MaxBackoff * 5 div 4"
    by (simp_all add: y_def)
qed

end
