(* ===== verification/Session_Pool.thy ===== *)
theory Session_Pool
  imports Dial_Protocol "HOL-Library.Sublist"
begin

text \<open>
  Connection reuse and liveness (\<^verbatim>\<open>internal/ssh/pool.go\<close>, \<^verbatim>\<open>keepalive.go\<close>): one pooled client per
  destination, the wait for a free session slot, and the probe that closes a silent connection. The server
  decides how a dial and a session request end; these outcomes are scripts of the state.
\<close>

section \<open>The pooled client of one destination\<close>

datatype session_outcome = SessionOpened | SessionLimit | SessionBroken

record pool =
  pl_entry :: "nat option"
  pl_closed :: "nat set"
  pl_next :: nat
  pl_dials :: "bool list"
  pl_sessions :: "session_outcome list"

text \<open>An exhausted script of dials fails, an exhausted script of sessions opens one.\<close>

definition next_dial :: "pool \<Rightarrow> bool \<times> pool" where
  "next_dial p = (case pl_dials p of [] \<Rightarrow> (False, p) | d # ds \<Rightarrow> (d, p\<lparr>pl_dials := ds\<rparr>))"

definition NewSession :: "pool \<Rightarrow> session_outcome \<times> pool" where
  "NewSession p = (case pl_sessions p of [] \<Rightarrow> (SessionOpened, p) | r # rs \<Rightarrow> (r, p\<lparr>pl_sessions := rs\<rparr>))"

definition close_client :: "nat \<Rightarrow> pool \<Rightarrow> pool" where
  "close_client c p = p\<lparr>pl_closed := insert c (pl_closed p), pl_entry := None\<rparr>"

datatype acquire_error = AcquireDial | AcquireLimit | AcquireSession | AcquireCancelled

definition IsSessionLimit :: "acquire_error \<Rightarrow> bool" where
  "IsSessionLimit e = (e = AcquireLimit)"

text \<open>A fresh connection and the session on it, under the lock of the entry.\<close>

definition dial_pooled :: "pool \<Rightarrow> (acquire_error + nat) \<times> pool" where
  "dial_pooled p =
     (case next_dial p of
        (False, p1) \<Rightarrow> (Inl AcquireDial, p1)
      | (True, p1) \<Rightarrow>
          (let c = pl_next p1; p2 = p1\<lparr>pl_entry := Some c, pl_next := Suc c\<rparr> in
           case NewSession p2 of
             (SessionOpened, p3) \<Rightarrow> (Inr c, p3)
           | (SessionLimit, p3) \<Rightarrow> (Inl AcquireLimit, p3)
           | (SessionBroken, p3) \<Rightarrow> (Inl AcquireSession, close_client c p3)))"

definition tryPooledSession :: "pool \<Rightarrow> (acquire_error + nat) \<times> pool" where
  "tryPooledSession p =
     (case pl_entry p of
        None \<Rightarrow> dial_pooled p
      | Some c \<Rightarrow>
          (case NewSession p of
             (SessionOpened, p1) \<Rightarrow> (Inr c, p1)
           | (SessionLimit, p1) \<Rightarrow> (Inl AcquireLimit, p1)
           | (SessionBroken, p1) \<Rightarrow> dial_pooled (close_client c p1)))"

section \<open>Waiting for a session slot\<close>

definition sessionSlotBackoffMin :: int where "sessionSlotBackoffMin = 25 * millisecond"
definition sessionSlotBackoffMax :: int where "sessionSlotBackoffMax = 250 * millisecond"

text \<open>\<^verbatim>\<open>rand.N(n)\<close> is a number below \<open>n\<close>: the remainder of an arbitrary one.\<close>

definition sessionSlotBackoff :: "int \<Rightarrow> nat \<Rightarrow> int" where
  "sessionSlotBackoff r attempt =
     (let delay = (if attempt < 4 then sessionSlotBackoffMin * 2 ^ attempt else sessionSlotBackoffMax);
          half = delay div 2
      in half + r mod (half + 1))"

lemma sessionSlotBackoff_pos: "0 < sessionSlotBackoff r attempt"
  by (auto simp: sessionSlotBackoff_def Let_def sessionSlotBackoffMin_def sessionSlotBackoffMax_def millisecond_def
      intro!: add_pos_nonneg)

text \<open>
  The loop of \<^verbatim>\<open>acquireSSHSessionContext\<close> after the first dial decision: \<open>now\<close> is the clock, \<open>rnd\<close> the random
  numbers, \<open>late k\<close> how much longer than asked the k-th timer runs, \<open>cancelled k\<close> whether the context ends
  during it. The result carries the time of return and the number of retries.
\<close>

function acquire_loop :: "int \<Rightarrow> (nat \<Rightarrow> int) \<Rightarrow> (nat \<Rightarrow> nat) \<Rightarrow> (nat \<Rightarrow> bool) \<Rightarrow> int \<Rightarrow> nat \<Rightarrow> pool \<Rightarrow>
    (acquire_error + nat) \<times> int \<times> nat \<times> pool" where
  "acquire_loop deadline rnd late cancelled now attempt p =
     (case tryPooledSession p of
        (r, p1) \<Rightarrow>
          if r \<noteq> Inl AcquireLimit then (r, now, attempt, p1)
          else if deadline - now \<le> 0 then (r, now, attempt, p1)
          else if cancelled attempt then (Inl AcquireCancelled, now, attempt, p1)
          else acquire_loop deadline rnd late cancelled
                 (now + min (sessionSlotBackoff (rnd attempt) attempt) (deadline - now) + int (late attempt))
                 (Suc attempt) p1)"
  by pat_completeness auto
termination
proof (relation "measure (\<lambda>(deadline, rnd, late, cancelled, now, attempt, p). nat (deadline - now))", goal_cases)
  case (2 deadline rnd late cancelled now attempt p x y)
  then have "0 < min (sessionSlotBackoff (rnd attempt) attempt) (deadline - now)"
    using sessionSlotBackoff_pos [of "rnd attempt" attempt] by simp
  with 2 show ?case by (simp add: nat_less_iff)
qed simp

declare acquire_loop.simps [simp del]

definition acquirePooled :: "int \<Rightarrow> (nat \<Rightarrow> int) \<Rightarrow> (nat \<Rightarrow> nat) \<Rightarrow> (nat \<Rightarrow> bool) \<Rightarrow> int \<Rightarrow> pool \<Rightarrow>
    (acquire_error + nat) \<times> int \<times> nat \<times> pool" where
  "acquirePooled dialTimeout rnd late cancelled now p =
     acquire_loop (now + dialTimeout) rnd late cancelled now 0 p"

section \<open>Keepalive\<close>

datatype keepalive_event = Tick | Reply bool
datatype keepalive_status = Probing | ClosedSilent | ClosedError

record keepalive =
  ka_status :: keepalive_status
  ka_inflight :: bool
  ka_reply :: "bool option"
  ka_misses :: nat

definition keepaliveMaxMisses :: nat where "keepaliveMaxMisses = 3"

definition keepalive_start :: keepalive where
  "keepalive_start = \<lparr>ka_status = Probing, ka_inflight = False, ka_reply = None, ka_misses = 0\<rparr>"

text \<open>
  \<^verbatim>\<open>runKeepalive\<close>. Only one probe is outstanding, so one reply can arrive; False is a transport error. A
  probe that is not outstanding has no reply.
\<close>

fun keepalive_step :: "nat \<Rightarrow> keepalive_event \<Rightarrow> keepalive \<Rightarrow> keepalive" where
  "keepalive_step maxMisses (Reply ok) k =
     (if ka_inflight k \<and> ka_reply k = None then k\<lparr>ka_reply := Some ok\<rparr> else k)"
| "keepalive_step maxMisses Tick k =
     (if ka_status k \<noteq> Probing then k
      else if \<not> ka_inflight k then k\<lparr>ka_inflight := True\<rparr>
      else case ka_reply k of
        Some False \<Rightarrow> k\<lparr>ka_status := ClosedError\<rparr>
      | Some True \<Rightarrow> k\<lparr>ka_misses := 0, ka_reply := None, ka_inflight := True\<rparr>
      | None \<Rightarrow>
          (let k1 = k\<lparr>ka_misses := Suc (ka_misses k)\<rparr>
           in if ka_misses k1 \<ge> maxMisses then k1\<lparr>ka_status := ClosedSilent\<rparr> else k1))"

definition keepalive_run :: "nat \<Rightarrow> keepalive_event list \<Rightarrow> keepalive" where
  "keepalive_run maxMisses evs = fold (keepalive_step maxMisses) evs keepalive_start"

section \<open>Properties of the pool\<close>

definition pool_ok :: "pool \<Rightarrow> bool" where
  "pool_ok p =
     ((case pl_entry p of None \<Rightarrow> True | Some c \<Rightarrow> c \<notin> pl_closed p \<and> c < pl_next p)
      \<and> (\<forall>c \<in> pl_closed p. c < pl_next p))"

lemma NewSession_frame:
  "NewSession p = (r, p') \<Longrightarrow> pl_entry p' = pl_entry p \<and> pl_closed p' = pl_closed p \<and> pl_next p' = pl_next p \<and> pl_dials p' = pl_dials p"
  by (auto simp: NewSession_def split: list.splits)

lemma dial_pooled_spec:
  assumes "dial_pooled p = (r, p')" and "pool_ok p" and "pl_entry p = None"
  shows "pool_ok p' \<and> pl_closed p \<subseteq> pl_closed p'
    \<and> (\<forall>c. r = Inr c \<longrightarrow> pl_entry p' = Some c) \<and> (r = Inl AcquireLimit \<longrightarrow> pl_closed p' = pl_closed p)
    \<and> r \<noteq> Inl AcquireCancelled"
proof (cases "next_dial p")
  case (Pair d p1)
  then have p1: "pl_entry p1 = None" "pl_closed p1 = pl_closed p" "pl_next p1 = pl_next p"
    using assms(3) by (auto simp: next_dial_def split: list.splits)
  show ?thesis
  proof (cases d)
    case False
    with Pair assms(1,2) p1 show ?thesis by (auto simp: dial_pooled_def pool_ok_def)
  next
    case True
    obtain o3 p3 where new: "NewSession (p1\<lparr>pl_entry := Some (pl_next p1), pl_next := Suc (pl_next p1)\<rparr>) = (o3, p3)"
      by (rule prod.exhaust)
    with NewSession_frame [OF new] Pair True assms(1,2) p1 show ?thesis
      by (cases o3) (force simp: dial_pooled_def pool_ok_def close_client_def Let_def)+
  qed
qed

lemma tryPooledSession_spec:
  assumes "tryPooledSession p = (r, p')" and "pool_ok p"
  shows "pool_ok p' \<and> pl_closed p \<subseteq> pl_closed p'
    \<and> (\<forall>c. r = Inr c \<longrightarrow> pl_entry p' = Some c) \<and> r \<noteq> Inl AcquireCancelled"
proof (cases "pl_entry p")
  case None
  with assms dial_pooled_spec show ?thesis by (simp add: tryPooledSession_def)
next
  case (Some c)
  obtain o1 p1 where new: "NewSession p = (o1, p1)" by (rule prod.exhaust)
  note frame = NewSession_frame [OF new]
  show ?thesis
  proof (cases o1)
    case SessionBroken
    with Some new assms(1) have dial: "dial_pooled (close_client c p1) = (r, p')" by (simp add: tryPooledSession_def)
    have "pool_ok (close_client c p1)" using frame Some assms(2) by (auto simp: pool_ok_def close_client_def)
    from dial_pooled_spec [OF dial this] frame show ?thesis by (auto simp: close_client_def)
  qed (use Some new assms frame in \<open>auto simp: tryPooledSession_def pool_ok_def\<close>)
qed

text \<open>A full session limit leaves the shared connection, on which other sessions run, open and pooled.\<close>

lemma session_limit_keeps_client:
  assumes "pl_entry p = Some c" and "pl_sessions p = SessionLimit # rs"
  shows "tryPooledSession p = (Inl AcquireLimit, p\<lparr>pl_sessions := rs\<rparr>)"
  using assms by (simp add: tryPooledSession_def NewSession_def)

lemma acquire_loop_spec:
  "acquire_loop deadline rnd late cancelled now attempt p = (r, t, k, p') \<Longrightarrow> pool_ok p \<Longrightarrow>
   pool_ok p' \<and> pl_closed p \<subseteq> pl_closed p' \<and> (\<forall>c. r = Inr c \<longrightarrow> pl_entry p' = Some c \<and> c \<notin> pl_closed p')
    \<and> now \<le> t \<and> ((\<forall>j. late j = 0) \<and> now \<le> deadline \<longrightarrow> t \<le> deadline) \<and> (r = Inl AcquireLimit \<longrightarrow> deadline \<le> t)"
proof (induction deadline rnd late cancelled now attempt p rule: acquire_loop.induct)
  case (1 deadline rnd late cancelled now attempt p)
  obtain r1 p1 where tried: "tryPooledSession p = (r1, p1)" by (rule prod.exhaust)
  note spec = tryPooledSession_spec [OF tried 1(3)]
  have open_client: "pl_entry p1 = Some c \<Longrightarrow> c \<notin> pl_closed p1" for c
    using spec by (auto simp: pool_ok_def)
  let ?wait = "min (sessionSlotBackoff (rnd attempt) attempt) (deadline - now)"
  show ?case
  proof (cases "r1 = Inl AcquireLimit \<and> 0 < deadline - now \<and> \<not> cancelled attempt")
    case False
    with 1(2) tried spec open_client show ?thesis
      by (auto simp: acquire_loop.simps [of deadline rnd late cancelled now attempt p] split: if_splits)
  next
    case True
    then have rest: "acquire_loop deadline rnd late cancelled (now + ?wait + int (late attempt)) (Suc attempt) p1 = (r, t, k, p')"
      using 1(2) tried by (simp add: acquire_loop.simps [of deadline rnd late cancelled now attempt p])
    have "0 < ?wait" using True sessionSlotBackoff_pos [of "rnd attempt" attempt] by simp
    moreover have "now + ?wait \<le> deadline" by simp
    ultimately show ?thesis
      using 1(1) [OF tried [symmetric] _ _ _ rest] True spec by auto
  qed
qed


definition demo_pool :: pool where
  "demo_pool = \<lparr>pl_entry = Some 0, pl_closed = {}, pl_next = 1, pl_dials = [True],
     pl_sessions = [SessionLimit, SessionBroken, SessionOpened]\<rparr>"


section \<open>Properties of the keepalive\<close>

text \<open>The number of ticks since the last reply.\<close>

definition silent_ticks :: "keepalive_event list \<Rightarrow> nat" where
  "silent_ticks evs = length (takeWhile (\<lambda>e. e = Tick) (rev evs))"

lemma silent_ticks_snoc [simp]:
  "silent_ticks [] = 0" "silent_ticks (evs @ [Tick]) = Suc (silent_ticks evs)" "silent_ticks (evs @ [Reply ok]) = 0"
  by (simp_all add: silent_ticks_def)

lemma keepalive_run_snoc [simp]:
  "keepalive_run m [] = keepalive_start" "keepalive_run m (evs @ [ev]) = keepalive_step m ev (keepalive_run m evs)"
  by (simp_all add: keepalive_run_def)

lemma keepalive_tracks:
  assumes "0 < m" and "Reply False \<notin> set evs"
  shows "(if \<exists>pre. prefix pre evs \<and> silent_ticks pre > m then ka_status (keepalive_run m evs) = ClosedSilent
    else ka_status (keepalive_run m evs) = Probing
      \<and> ka_reply (keepalive_run m evs) \<noteq> Some False
      \<and> (if silent_ticks evs = 0 then ka_inflight (keepalive_run m evs) \<longrightarrow> ka_reply (keepalive_run m evs) = Some True
         else ka_inflight (keepalive_run m evs) \<and> ka_reply (keepalive_run m evs) = None
           \<and> Suc (ka_misses (keepalive_run m evs)) = silent_ticks evs)
      \<and> (\<not> ka_inflight (keepalive_run m evs) \<longrightarrow> ka_misses (keepalive_run m evs) = 0 \<and> ka_reply (keepalive_run m evs) = None))"
  using assms(2)
proof (induction evs rule: rev_induct)
  case Nil
  then show ?case by (simp add: keepalive_start_def)
next
  case (snoc ev evs)
  let ?k = "keepalive_run m evs"
  have noerr: "ev \<noteq> Reply False" "Reply False \<notin> set evs" using snoc.prems by auto
  show ?case
  proof (cases "\<exists>pre. prefix pre evs \<and> silent_ticks pre > m")
    case True
    then have "ka_status ?k = ClosedSilent" using snoc.IH noerr by simp
    moreover have "ka_status (keepalive_step m ev ?k) = ka_status ?k" if "ka_status ?k = ClosedSilent"
      using that by (cases ev) auto
    ultimately show ?thesis using True by (auto simp: prefix_snoc)
  next
    case False
    then have IH: "ka_status ?k = Probing" "ka_reply ?k \<noteq> Some False"
      "silent_ticks evs = 0 \<Longrightarrow> ka_inflight ?k \<Longrightarrow> ka_reply ?k = Some True"
      "silent_ticks evs \<noteq> 0 \<Longrightarrow> ka_inflight ?k \<and> ka_reply ?k = None \<and> Suc (ka_misses ?k) = silent_ticks evs"
      "\<not> ka_inflight ?k \<Longrightarrow> ka_misses ?k = 0 \<and> ka_reply ?k = None"
      using snoc.IH noerr by (auto split: if_splits)
    show ?thesis
    proof (cases ev)
      case (Reply ok)
      with noerr have "ok = True" by auto
      with False IH Reply show ?thesis by (auto simp: prefix_snoc)
    next
      case Tick
      have "silent_ticks evs \<le> m" using False by (meson not_le prefix_order.order_refl)
      with False IH Tick assms(1) show ?thesis
        by (cases "silent_ticks evs = 0"; cases "ka_reply ?k") (auto simp: prefix_snoc Let_def)
    qed
  qed
qed

text \<open>
  
  The keepalive closes a connection exactly when four ticks pass without a reply in between: a silent peer is
  closed at the fourth tick, three intervals after the first probe, and a peer that answers at least once
  in every four ticks is never closed.
\<close>

theorem keepalive_closes_exactly_silent_peers:
  assumes "Reply False \<notin> set evs"
  shows "ka_status (keepalive_run keepaliveMaxMisses evs)
    = (if \<exists>pre. prefix pre evs \<and> silent_ticks pre \<ge> 4 then ClosedSilent else Probing)"
  using keepalive_tracks [of keepaliveMaxMisses evs] assms
  by (auto simp: keepaliveMaxMisses_def Suc_le_eq numeral_eq_Suc split: if_splits)

theorem keepalive_closes_exactly_silent_peers_witness:
  "ka_status (keepalive_run keepaliveMaxMisses [Tick, Tick, Reply True, Tick, Tick, Tick, Tick]) = ClosedSilent
   \<and> (\<exists>pre. prefix pre [Tick, Tick, Reply True, Tick, Tick, Tick, Tick] \<and> silent_ticks pre \<ge> 4)"
proof -
  have "\<exists>pre. prefix pre [Tick, Tick, Reply True, Tick, Tick, Tick, Tick] \<and> silent_ticks pre \<ge> 4"
    by (rule exI [of _ "[Tick, Tick, Reply True, Tick, Tick, Tick, Tick]"]) (simp add: silent_ticks_def)
  then show ?thesis
    using keepalive_closes_exactly_silent_peers [of "[Tick, Tick, Reply True, Tick, Tick, Tick, Tick]"] by simp
qed

end
