(* ===== verification/Host_Keys.thy ===== *)
theory Host_Keys
  imports Remote_Command
begin

text \<open>
  Trust in host keys (\<^verbatim>\<open>internal/ssh/hostkey.go\<close>, \<^verbatim>\<open>hostkey_types.go\<close>, the callbacks of \<^verbatim>\<open>auth.go\<close>): the
  status of an observed key, the explicit acceptance of a fingerprint, the edit of \<^verbatim>\<open>known_hosts\<close>, and the
  order of the host-key algorithms. The file is text; the database of the SSH library that reads it, its
  normal form of addresses, its line format and the hash of host names are parameters.
\<close>

section \<open>Keys and the library\<close>

record public_key =
  pk_Type :: string
  pk_Data :: string
  pk_Certified :: "string option"   \<comment> \<open>for a certificate the type of the certified key\<close>

text \<open>The result of the database of the library for an observed key: accepted, not accepted with the keys it wanted, or another error.\<close>

record known_key =
  kk_Key :: public_key
  kk_Line :: nat

datatype database_answer = KeyKnown | KeyWanted "known_key list" | KeyOther

record hostkey_env =
  he_fingerprint :: "public_key \<Rightarrow> string"
  he_database :: "string \<Rightarrow> (string \<Rightarrow> public_key \<Rightarrow> database_answer) option"
  he_normalize :: "string \<Rightarrow> string"
  he_line :: "string \<Rightarrow> public_key \<Rightarrow> string"
  he_base64 :: "string \<Rightarrow> string option"
  he_hmac :: "string \<Rightarrow> string \<Rightarrow> string"

text \<open>\<^verbatim>\<open>known_hosts\<close> as the program finds it.\<close>

datatype known_hosts_file = HostsMissing | HostsStatFails | HostsText string

datatype hostkey_error =
    KnownHostsPermissionsFailed | KnownHostsMalformed | KnownHostsInspectionFailed | HostKeyScanFailed
  | HostKeyFingerprintMismatch | HostKeyFingerprintChanged | KnownHostsUnchanged | SSHDirectoryPermissionsFailed

datatype host_status = Trusted | NewHost | Mismatch | TypeChanged

section \<open>Certificate authorities and key types\<close>

definition observedKeyType :: "public_key \<Rightarrow> string" where
  "observedKeyType key = (case pk_Certified key of Some t \<Rightarrow> t | None \<Rightarrow> pk_Type key)"

definition wantHasKeyType :: "known_key list \<Rightarrow> public_key \<Rightarrow> bool" where
  "wantHasKeyType want key = list_ex (\<lambda>k. pk_Type (kk_Key k) = observedKeyType key) want"

definition trim_blanks :: "string \<Rightarrow> string" where
  "trim_blanks s = dropWhile (\<lambda>c. c \<in> set [CHR '' '', CHR 0x09]) s"

definition authority_line :: "string \<Rightarrow> bool" where
  "authority_line line =
     (let text = trim_blanks line; n = length ''@cert-authority'' in
      has_prefix text ''@cert-authority'' \<and> (length text = n \<or> text ! n = CHR '' '' \<or> text ! n = CHR 0x09))"

text \<open>The lines of the file, numbered from 1; a line that cannot be read back counts as an authority.\<close>

definition is_authority :: "string list \<Rightarrow> known_key \<Rightarrow> bool" where
  "is_authority lines k =
     (if 1 \<le> kk_Line k \<and> kk_Line k \<le> length lines then authority_line (lines ! (kk_Line k - 1)) else True)"

definition splitCertAuthorities :: "string \<Rightarrow> known_key list \<Rightarrow> known_key list \<times> bool" where
  "splitCertAuthorities content want =
     (let lines = split_char (CHR 0x0A) content
      in (filter (\<lambda>k. \<not> is_authority lines k) want, list_ex (is_authority lines) want))"

section \<open>Status of an observed key\<close>

definition inspectKnownHost :: "hostkey_env \<Rightarrow> known_hosts_file \<Rightarrow> string \<Rightarrow> public_key \<Rightarrow>
    hostkey_error + host_status \<times> string list" where
  "inspectKnownHost e file address observed =
     (case file of
        HostsMissing \<Rightarrow> Inr (NewHost, [])
      | HostsStatFails \<Rightarrow> Inl KnownHostsPermissionsFailed
      | HostsText content \<Rightarrow>
          (case he_database e content of
             None \<Rightarrow> Inl KnownHostsMalformed
           | Some check \<Rightarrow>
               (case check address observed of
                  KeyKnown \<Rightarrow> Inr (Trusted, [he_fingerprint e observed])
                | KeyOther \<Rightarrow> Inl KnownHostsInspectionFailed
                | KeyWanted want \<Rightarrow>
                    if want = [] then Inr (NewHost, [])
                    else
                      (let fingerprints = sort (remdups (map (\<lambda>k. he_fingerprint e (kk_Key k)) want)) in
                       case splitCertAuthorities content want of
                         (plain, hasAuthority) \<Rightarrow>
                           if \<not> hasAuthority \<and> \<not> wantHasKeyType plain observed then Inr (TypeChanged, fingerprints)
                           else Inr (Mismatch, fingerprints)))))"

text \<open>The verification of a connection: None accepts the key.\<close>

datatype key_refusal = RefusedUnknown | RefusedTypeChanged | RefusedMismatch | RefusedFile

definition host_key_callback :: "hostkey_env \<Rightarrow> known_hosts_file \<Rightarrow> string \<Rightarrow> public_key \<Rightarrow> key_refusal option" where
  "host_key_callback e file address key =
     (case file of
        HostsMissing \<Rightarrow> Some RefusedUnknown
      | HostsStatFails \<Rightarrow> Some RefusedFile
      | HostsText content \<Rightarrow>
          (case he_database e content of
             None \<Rightarrow> Some RefusedFile
           | Some check \<Rightarrow>
               (case check address key of
                  KeyKnown \<Rightarrow> None
                | KeyOther \<Rightarrow> Some RefusedFile
                | KeyWanted want \<Rightarrow>
                    if want = [] then Some RefusedUnknown
                    else (case splitCertAuthorities content want of
                       (plain, hasAuthority) \<Rightarrow>
                         if \<not> hasAuthority \<and> \<not> wantHasKeyType plain key then Some RefusedTypeChanged
                         else Some RefusedMismatch))))"

section \<open>Editing known\_hosts\<close>

definition knownHostPatternIs :: "hostkey_env \<Rightarrow> string \<Rightarrow> string \<Rightarrow> bool" where
  "knownHostPatternIs e pattern token =
     (if has_prefix pattern ''|'' then
        (case split_char (CHR ''|'') pattern of
           [_, one, salt64, want64] \<Rightarrow>
             if one \<noteq> ''1'' then False
             else (case (he_base64 e salt64, he_base64 e want64) of
               (Some salt, Some want) \<Rightarrow> he_hmac e salt token = want
             | _ \<Rightarrow> False)
         | _ \<Rightarrow> False)
      else if has_prefix pattern ''!'' \<or> contains_any pattern ''*?'' then False
      else he_normalize e pattern = token)"

definition dropKnownHostEntry :: "hostkey_env \<Rightarrow> string \<Rightarrow> string \<Rightarrow> string \<Rightarrow> string" where
  "dropKnownHostEntry e line token keyType =
     (let trimmed = trim_blanks line in
      if trimmed = '''' \<or> hd trimmed \<in> set [CHR ''#'', CHR ''@'', CHR 0x0A, CHR 0x0D] then line
      else
        (let fields = go_fields trimmed in
         if length fields < 3 \<or> fields ! 1 \<noteq> keyType then line
         else
           (let patterns = split_char (CHR '','') (fields ! 0);
                kept = filter (\<lambda>p. \<not> knownHostPatternIs e p token) patterns
            in if kept = patterns then line
               else if kept = [] then ''''
               else take (length line - length trimmed) line @ join '','' kept @ drop (length (fields ! 0)) trimmed)))"

text \<open>The lines with their line ends.\<close>

fun split_lines :: "string \<Rightarrow> string list" where
  "split_lines [] = []"
| "split_lines (c # s) =
     (if c = CHR 0x0A then [c] # split_lines s
      else case split_lines s of [] \<Rightarrow> [[c]] | l # ls \<Rightarrow> (c # l) # ls)"

definition replaced_hosts :: "hostkey_env \<Rightarrow> string \<Rightarrow> string \<Rightarrow> public_key \<Rightarrow> string" where
  "replaced_hosts e original token key =
     (let updated = concat (map (\<lambda>line. dropKnownHostEntry e line token (pk_Type key)) (split_lines original))
      in (if updated \<noteq> '''' \<and> last updated \<noteq> CHR 0x0A then updated @ [CHR 0x0A] else updated)
         @ he_line e token key @ [CHR 0x0A])"

definition appended_hosts :: "hostkey_env \<Rightarrow> string \<Rightarrow> string \<Rightarrow> public_key \<Rightarrow> string" where
  "appended_hosts e original token key =
     original @ (if original \<noteq> '''' \<and> last original \<noteq> CHR 0x0A then [CHR 0x0A] else [])
     @ he_line e token key @ [CHR 0x0A]"

text \<open>
  The effects of \<^verbatim>\<open>replaceKnownHost\<close> and \<^verbatim>\<open>saveHostKey\<close> on the file. A replacement fails before the rename or
  not at all; an append that is complete can still be followed by an error when the permissions of the file
  are restricted.
\<close>

definition replaceKnownHost :: "hostkey_env \<Rightarrow> hostkey_error option \<Rightarrow> string \<Rightarrow> public_key \<Rightarrow> known_hosts_file \<Rightarrow>
    hostkey_error option \<times> known_hosts_file" where
  "replaceKnownHost e failure token key file =
     (case file of
        HostsText original \<Rightarrow>
          (case failure of Some err \<Rightarrow> (Some err, file) | None \<Rightarrow> (None, HostsText (replaced_hosts e original token key)))
      | _ \<Rightarrow> (Some KnownHostsPermissionsFailed, file))"

datatype append_outcome = Appended | AppendFails | AppendedUnrestricted

definition saveHostKey :: "hostkey_env \<Rightarrow> append_outcome \<Rightarrow> string \<Rightarrow> public_key \<Rightarrow> known_hosts_file \<Rightarrow>
    hostkey_error option \<times> known_hosts_file" where
  "saveHostKey e outcome token key file =
     (if outcome = AppendFails \<or> file = HostsStatFails then (Some KnownHostsPermissionsFailed, file)
      else
        (let original = (case file of HostsText text \<Rightarrow> text | _ \<Rightarrow> '''')
         in (if outcome = Appended then None else Some KnownHostsPermissionsFailed,
             HostsText (appended_hosts e original token key))))"

section \<open>Accepting a fingerprint\<close>

text \<open>
  \<open>scan1\<close> and \<open>scan2\<close> are the keys that the two unauthenticated handshakes present, None if there is none.
\<close>

record host_endpoint =
  hp_Address :: string
  hp_Token :: string

definition InspectHostKey :: "hostkey_env \<Rightarrow> host_endpoint \<Rightarrow> public_key option \<Rightarrow> known_hosts_file \<Rightarrow>
    hostkey_error + host_status \<times> string \<times> string list" where
  "InspectHostKey e c scan file =
     (case scan of
        None \<Rightarrow> Inl HostKeyScanFailed
      | Some observed \<Rightarrow>
          (case inspectKnownHost e file (hp_Address c) observed of
             Inl err \<Rightarrow> Inl err
           | Inr (status, known) \<Rightarrow> Inr (status, he_fingerprint e observed, known)))"

text \<open>\<open>mkdir\<close>: the directory of the file exists; \<open>failure\<close> and \<open>outcome\<close> decide the write.\<close>

definition AcceptHostKey :: "hostkey_env \<Rightarrow> host_endpoint \<Rightarrow> string \<Rightarrow> public_key option \<Rightarrow> public_key option \<Rightarrow> bool \<Rightarrow>
    hostkey_error option \<Rightarrow> append_outcome \<Rightarrow> known_hosts_file \<Rightarrow> hostkey_error option \<times> known_hosts_file" where
  "AcceptHostKey e c expected scan1 scan2 mkdir failure outcome file =
     (case InspectHostKey e c scan1 file of
        Inl err \<Rightarrow> (Some err, file)
      | Inr (status, fingerprint, known) \<Rightarrow>
          if expected = '''' \<or> expected \<noteq> fingerprint then (Some HostKeyFingerprintMismatch, file)
          else if status = Trusted then (None, file)
          else case scan2 of
            None \<Rightarrow> (Some HostKeyScanFailed, file)
          | Some key \<Rightarrow>
              if he_fingerprint e key \<noteq> expected then (Some HostKeyFingerprintChanged, file)
              else if \<not> mkdir then (Some SSHDirectoryPermissionsFailed, file)
              else if status = Mismatch then replaceKnownHost e failure (hp_Token c) key file
              else saveHostKey e outcome (hp_Token c) key file)"

section \<open>Algorithms\<close>

definition defaultHostKeyAlgorithms :: "string list" where
  "defaultHostKeyAlgorithms =
     [''rsa-sha2-256-cert-v01@openssh.com'', ''rsa-sha2-512-cert-v01@openssh.com'', ''ssh-rsa-cert-v01@openssh.com'',
      ''ssh-dss-cert-v01@openssh.com'', ''ecdsa-sha2-nistp256-cert-v01@openssh.com'',
      ''ecdsa-sha2-nistp384-cert-v01@openssh.com'', ''ecdsa-sha2-nistp521-cert-v01@openssh.com'',
      ''ssh-ed25519-cert-v01@openssh.com'', ''ecdsa-sha2-nistp256'', ''ecdsa-sha2-nistp384'', ''ecdsa-sha2-nistp521'',
      ''rsa-sha2-256'', ''rsa-sha2-512'', ''ssh-rsa'', ''ssh-dss'', ''ssh-ed25519'']"

definition signatureAlgorithmsForKeyType :: "string \<Rightarrow> string list" where
  "signatureAlgorithmsForKeyType keyType =
     (if keyType = ''ssh-rsa'' then [''rsa-sha2-512'', ''rsa-sha2-256'', ''ssh-rsa'']
      else if keyType \<in> set [''ecdsa-sha2-nistp256'', ''ecdsa-sha2-nistp384'', ''ecdsa-sha2-nistp521'', ''ssh-ed25519'', ''ssh-dss'']
      then [keyType] else [])"

text \<open>\<open>probe\<close> is the throw-away key that no entry matches.\<close>

definition knownHostKeyTypes :: "hostkey_env \<Rightarrow> public_key \<Rightarrow> known_hosts_file \<Rightarrow> string \<Rightarrow> string list \<times> bool" where
  "knownHostKeyTypes e probe file address =
     (case file of
        HostsText content \<Rightarrow>
          (case he_database e content of
             None \<Rightarrow> ([], False)
           | Some check \<Rightarrow>
               (case check address probe of
                  KeyWanted want \<Rightarrow>
                    (case splitCertAuthorities content want of
                       (plain, hasAuthority) \<Rightarrow> (rev (remdups (rev (map (\<lambda>k. pk_Type (kk_Key k)) plain))), hasAuthority))
                | _ \<Rightarrow> ([], False)))
      | _ \<Rightarrow> ([], False))"

fun add_new :: "string list \<Rightarrow> string list \<Rightarrow> string list" where
  "add_new acc [] = acc"
| "add_new acc (a # as) = (if a \<in> set acc then add_new acc as else add_new (acc @ [a]) as)"

text \<open>None is the preference of the library.\<close>

definition hostKeyAlgorithmsFor :: "hostkey_env \<Rightarrow> public_key \<Rightarrow> known_hosts_file \<Rightarrow> string \<Rightarrow> string list option" where
  "hostKeyAlgorithmsFor e probe file address =
     (case knownHostKeyTypes e probe file address of
        (types, hasAuthority) \<Rightarrow>
          if hasAuthority then None
          else
            (let preferred = add_new [] (concat (map signatureAlgorithmsForKeyType types))
             in if preferred = [] then None else Some (add_new preferred defaultHostKeyAlgorithms)))"

end
