(* ===== verification/Field_Text.thy ===== *)
theory Field_Text
  imports Remote_Command
begin

text \<open>
  What \<^verbatim>\<open>strings.Fields\<close> and \<^verbatim>\<open>strings.TrimSpace\<close> do to ASCII text: the lemmas that the readers of lines share.
\<close>

section \<open>Fields of ASCII text\<close>

definition ascii_space :: "char \<Rightarrow> bool" where
  "ascii_space c = (c \<in> set [CHR 0x09, CHR 0x0A, CHR 0x0B, CHR 0x0C, CHR 0x0D, CHR 0x20])"

definition ascii :: "char \<Rightarrow> bool" where "ascii c = (c < CHR 0x80)"

lemma strip_low:
  assumes high: "list_all (\<lambda>q. length q = 1 \<and> ascii_space (hd q) \<or> q \<noteq> [] \<and> \<not> ascii (hd q)) qs"
    and low: "list_all (\<lambda>d. [d] \<in> set qs) [CHR 0x09, CHR 0x0A, CHR 0x0B, CHR 0x0C, CHR 0x0D, CHR 0x20]"
    and c: "ascii c"
  shows "strip_prefix_len qs (c # s) = (if ascii_space c then 1 else 0)"
proof (cases "ascii_space c")
  case True
  then have "[c] \<in> set qs" using low by (auto simp: ascii_space_def)
  moreover have "[] \<notin> set qs" using high by (auto simp: list_all_iff)
  moreover have "has_prefix (c # s) [c]" by simp
  ultimately have "strip_prefix_len qs (c # s) \<noteq> 0" by (metis strip_prefix_len_zero_iff)
  with strip_prefix_len_cases [of qs "c # s"] obtain q where
    q: "q \<in> set qs" "has_prefix (c # s) q" "strip_prefix_len qs (c # s) = length q" by auto
  have "length q = 1 \<or> q \<noteq> [] \<and> \<not> ascii (hd q)" using high q(1) unfolding list_all_iff by blast
  then have "length q = 1" using q(2) c by (cases q) auto
  with q(3) show ?thesis using True by simp
next
  case False
  have none: "\<not> has_prefix (c # s) q" if "q \<in> set qs" for q
    using high c False that by (cases q) (auto simp: list_all_iff)
  have "strip_prefix_len qs' (c # s) = 0" if "set qs' \<subseteq> set qs" for qs'
    using that none by (induction qs') auto
  with False show ?thesis by simp
qed

lemma strip_ascii: "ascii c \<Longrightarrow> strip_prefix_len space_seqs (c # s) = (if ascii_space c then 1 else 0)"
  and strip_ascii_rev: "ascii c \<Longrightarrow> strip_prefix_len (map rev space_seqs) (c # s) = (if ascii_space c then 1 else 0)"
  by (rule strip_low, code_simp, code_simp, assumption)+

lemma trim_front_ascii: "list_all ascii s \<Longrightarrow> trim_front space_seqs s = dropWhile ascii_space s"
proof (induction s)
  case (Cons c s)
  then show ?case
    using strip_ascii [of c s] by (subst trim_front.simps) (simp add: Let_def)
qed simp

lemma take_word_ascii: "list_all ascii s \<Longrightarrow> take_word s = takeWhile (\<lambda>c. \<not> ascii_space c) s"
  by (induction s) (simp_all add: strip_ascii)

lemma go_fields_ascii:
  assumes "list_all ascii s"
  shows "go_fields s = (let t = dropWhile ascii_space s in
    if t = [] then [] else takeWhile (\<lambda>c. \<not> ascii_space c) t # go_fields (dropWhile (\<lambda>c. \<not> ascii_space c) t))"
proof -
  let ?t = "dropWhile ascii_space s"
  have t: "list_all ascii ?t" using assms by (auto simp: list_all_iff dest: set_dropWhileD)
  have "?t \<noteq> [] \<Longrightarrow> takeWhile (\<lambda>c. \<not> ascii_space c) ?t \<noteq> []"
    using hd_dropWhile [of ascii_space s] by (cases ?t) auto
  moreover have "drop (length (takeWhile (\<lambda>c. \<not> ascii_space c) ?t)) ?t = dropWhile (\<lambda>c. \<not> ascii_space c) ?t"
    by (metis dropWhile_eq_drop)
  ultimately show ?thesis
    using trim_front_ascii [OF assms] take_word_ascii [OF t] by (subst go_fields.simps) (auto simp: Let_def)
qed

lemma go_fields_word:
  assumes "list_all ascii (w @ rest)" and "w \<noteq> []" and "list_all (\<lambda>c. \<not> ascii_space c) w"
    and "rest = [] \<or> ascii_space (hd rest)"
  shows "go_fields (w @ rest) = w # go_fields rest"
proof -
  have "dropWhile ascii_space (w @ rest) = w @ rest" using assms(2,3) by (cases w) auto
  moreover have "takeWhile (\<lambda>c. \<not> ascii_space c) (w @ rest) = w" "dropWhile (\<lambda>c. \<not> ascii_space c) (w @ rest) = rest"
    using assms(3,4) by (cases rest; auto simp: list_all_iff takeWhile_append2 dropWhile_append2)+
  ultimately show ?thesis using go_fields_ascii [OF assms(1)] assms(2) by (simp add: Let_def)
qed

lemma go_fields_newline: "list_all ascii s \<Longrightarrow> go_fields (s @ [CHR 0x0A]) = go_fields s"
proof (induction "length s" arbitrary: s rule: less_induct)
  case less
  have nl: "ascii_space (CHR 0x0A)" "ascii (CHR 0x0A)" by code_simp+
  have asc: "list_all ascii (s @ [CHR 0x0A])" using less.prems nl by simp
  let ?t = "dropWhile ascii_space s"
  show ?case
  proof (cases "?t = []")
    case True
    then have "dropWhile ascii_space (s @ [CHR 0x0A]) = []" using nl by (simp add: dropWhile_append)
    with True show ?thesis using go_fields_ascii [OF asc] go_fields_ascii [OF less.prems] by simp
  next
    case False
    let ?r = "dropWhile (\<lambda>c. \<not> ascii_space c) ?t"
    have front: "dropWhile ascii_space (s @ [CHR 0x0A]) = ?t @ [CHR 0x0A]" using False by (simp add: dropWhile_append)
    have word: "takeWhile (\<lambda>c. \<not> ascii_space c) (?t @ [CHR 0x0A]) = takeWhile (\<lambda>c. \<not> ascii_space c) ?t"
      "dropWhile (\<lambda>c. \<not> ascii_space c) (?t @ [CHR 0x0A]) = ?r @ [CHR 0x0A]"
      using nl by (simp_all add: takeWhile_append dropWhile_append takeWhile_eq_all_conv)
        (metis takeWhile_eq_all_conv dropWhile_eq_Nil_conv takeWhile_dropWhile_id append_Nil2)+
    have "length ?r < length s"
    proof -
      have "\<not> ascii_space (hd ?t)" using hd_dropWhile False by blast
      then have "length ?r < length ?t" using False by (cases ?t) (auto simp: length_dropWhile_le le_imp_less_Suc)
      then show ?thesis using length_dropWhile_le [of ascii_space s] by linarith
    qed
    moreover have "list_all ascii ?r" using less.prems by (auto simp: list_all_iff dest!: set_dropWhileD)
    ultimately have "go_fields (?r @ [CHR 0x0A]) = go_fields ?r" using less.hyps by blast
    then show ?thesis
      using go_fields_ascii [OF asc] go_fields_ascii [OF less.prems] False front word by (simp add: Let_def)
  qed
qed

definition word :: "string \<Rightarrow> bool" where
  "word w \<longleftrightarrow> w \<noteq> [] \<and> list_all (\<lambda>c. ascii c \<and> \<not> ascii_space c) w"

lemma go_fields_space: "list_all ascii (c # s) \<Longrightarrow> ascii_space c \<Longrightarrow> go_fields (c # s) = go_fields s"
  using go_fields_ascii [of "c # s"] go_fields_ascii [of s] by (simp add: Let_def)

lemma go_fields_cons_word:
  "word w \<Longrightarrow> list_all ascii rest \<Longrightarrow> rest = [] \<or> ascii_space (hd rest) \<Longrightarrow> go_fields (w @ rest) = w # go_fields rest"
  by (rule go_fields_word) (auto simp: word_def list_all_iff)

lemma spaces_ascii [simp]: "ascii_space (CHR '' '')" "ascii_space (CHR 0x0A)" "ascii (CHR '' '')" "ascii (CHR 0x0A)"
  by code_simp+

lemma go_fields_blank [simp]: "go_fields [] = []" "go_fields [CHR 0x0A] = []"
  by code_simp+

lemma trim_space_word_line:
  assumes "list_all ascii s" "s \<noteq> []" "\<not> ascii_space (hd s)" "\<not> ascii_space (last s)"
  shows "trim_space (s @ [CHR 0x0A]) = s"
proof -
  have front: "trim_front space_seqs (s @ [CHR 0x0A]) = s @ [CHR 0x0A]"
    using assms trim_front_ascii [of "s @ [CHR 0x0A]"] by (cases s) auto
  obtain d ds where d: "rev s = d # ds" using assms(2) by (cases "rev s") auto
  then have "d = last s" "ascii d" using assms(1,2) by (auto simp: hd_rev [symmetric] list_all_iff)
  then have "trim_front (map rev space_seqs) (d # ds) = d # ds"
    using strip_ascii_rev [of d] assms(4) by (subst trim_front.simps) simp
  moreover have "trim_front (map rev space_seqs) (CHR 0x0A # d # ds) = trim_front (map rev space_seqs) (d # ds)"
    using strip_ascii_rev [of "CHR 0x0A"] by (subst trim_front.simps) simp
  ultimately show ?thesis using d front by (simp add: trim_space_def)
qed

lemma three_words:
  assumes "word a" "word b" "word d"
  shows "go_fields (trim_space (a @ '' '' @ b @ '' '' @ d @ [CHR 0x0A])) = [a, b, d]"
proof -
  let ?s = "a @ '' '' @ b @ '' '' @ d"
  have asc: "list_all ascii a" "list_all ascii b" "list_all ascii d" using assms by (auto simp: word_def list_all_iff)
  have "\<not> ascii_space (last ?s)" "\<not> ascii_space (hd ?s)" using assms(1,3) by (auto simp: word_def list_all_iff)
  then have trim: "trim_space (?s @ [CHR 0x0A]) = ?s" using asc assms(1) by (intro trim_space_word_line) (auto simp: word_def)
  have "go_fields ?s = a # go_fields ('' '' @ b @ '' '' @ d)"
    by (rule go_fields_cons_word [OF assms(1)]) (use asc in auto)
  also have "go_fields ('' '' @ b @ '' '' @ d) = b # go_fields ('' '' @ d)"
    using go_fields_space [of "CHR '' ''" "b @ '' '' @ d"] go_fields_cons_word [OF assms(2), of "'' '' @ d"] asc by simp
  also have "go_fields ('' '' @ d) = [d]"
    using go_fields_space [of "CHR '' ''" d] go_fields_cons_word [OF assms(3), of "[]"] asc by simp
  finally show ?thesis using trim by simp
qed

end
