(* ===== verification/Host_Key_Props.thy ===== *)
theory Host_Key_Props
  imports Host_Keys Field_Text "HOL-Library.Multiset"
begin

text \<open>
  Properties of host-key trust: what an edit of \<^verbatim>\<open>known_hosts\<close> changes for every host and key type, that
  only the fingerprint the user named is ever recorded, and that connections trust nothing else.
\<close>

section \<open>Patterns of a host field\<close>

lemma split_char_not_Nil [simp]: "split_char d s \<noteq> []"
  by (cases s) auto

lemma split_char_no_delimiter: "p \<in> set (split_char d s) \<Longrightarrow> d \<notin> set p"
proof (induction s arbitrary: p)
  case (Cons c s)
  then show ?case by (cases "split_char d s") (auto split: if_splits)
qed simp

lemma split_char_single: "d \<notin> set s \<Longrightarrow> split_char d s = [s]"
  by (induction s) auto

lemma split_char_append: "d \<notin> set p \<Longrightarrow> split_char d (p @ d # s) = p # split_char d s"
  by (induction p) auto

lemma split_join_char:
  "ps \<noteq> [] \<Longrightarrow> (\<And>p. p \<in> set ps \<Longrightarrow> d \<notin> set p) \<Longrightarrow> split_char d (join [d] ps) = ps"
proof (induction ps)
  case (Cons p ps)
  show ?case
  proof (cases ps)
    case Nil
    then show ?thesis using Cons.prems by (simp add: join_def split_char_single)
  next
    case (Cons q qs)
    then have "join [d] (p # ps) = p @ d # join [d] ps" by (simp add: join_def)
    with Cons.IH Cons.prems \<open>ps = q # qs\<close> show ?thesis by (simp add: split_char_append)
  qed
qed simp

lemma set_join: "set (join [d] ps) \<subseteq> insert d (\<Union>p \<in> set ps. set p)"
  by (cases ps) (auto simp: join_def)

lemma set_split_char: "p \<in> set (split_char d s) \<Longrightarrow> set p \<subseteq> set s"
proof (induction s arbitrary: p)
  case (Cons c s)
  then show ?case by (cases "split_char d s") (fastforce split: if_splits)+
qed simp

section \<open>The entries of the file\<close>

text \<open>
  What a line records for a host: key type and key data, when one of the patterns of its host field names
  the host. Comments, blank lines, markers and lines with fewer than three fields record nothing.
\<close>

definition blank_or_marked :: "string \<Rightarrow> bool" where
  "blank_or_marked text = (text = [] \<or> hd text \<in> set [CHR ''#'', CHR ''@'', CHR 0x0A, CHR 0x0D])"

definition line_entries :: "hostkey_env \<Rightarrow> string \<Rightarrow> string \<Rightarrow> (string \<times> string) list" where
  "line_entries e token line =
     (let text = trim_blanks line; fields = go_fields text in
      if blank_or_marked text \<or> length fields < 3 then []
      else if list_ex (\<lambda>p. knownHostPatternIs e p token) (split_char (CHR '','') (fields ! 0))
      then [(fields ! 1, fields ! 2)] else [])"

definition host_entries :: "hostkey_env \<Rightarrow> string \<Rightarrow> string \<Rightarrow> (string \<times> string) list" where
  "host_entries e token content = concat (map (line_entries e token) (split_lines content))"

text \<open>A line of ASCII text whose host field is a list of nonempty patterns that do not look like a comment or a marker.\<close>

definition clean_line :: "string \<Rightarrow> bool" where
  "clean_line line =
     (let text = trim_blanks line in
      list_all ascii line \<and>
      (blank_or_marked text \<or>
       \<not> ascii_space (hd text) \<and>
       list_all (\<lambda>p. p \<noteq> [] \<and> hd p \<notin> set [CHR ''#'', CHR ''@'']) (split_char (CHR '','') (go_fields text ! 0))))"

lemma split_lines_concat [simp]: "concat (split_lines s) = s"
  by (induction s) (auto split: list.splits)

lemma split_lines_shape: "l \<in> set (split_lines s) \<Longrightarrow> l \<noteq> [] \<and> CHR 0x0A \<notin> set (butlast l)"
proof (induction s arbitrary: l)
  case (Cons c s)
  then show ?case by (cases "split_lines s") (fastforce split: if_splits)+
qed simp

lemma split_lines_line: "CHR 0x0A \<notin> set l \<Longrightarrow> split_lines (l @ CHR 0x0A # s) = (l @ [CHR 0x0A]) # split_lines s"
  by (induction l) auto

lemma split_lines_open: "CHR 0x0A \<notin> set l \<Longrightarrow> l \<noteq> [] \<Longrightarrow> split_lines l = [l]"
proof (induction l)
  case (Cons c l)
  then show ?case by (cases l) auto
qed simp

subsection \<open>One line\<close>

lemma trim_blanks_lead:
  "list_all (\<lambda>c. c \<in> set [CHR '' '', CHR 0x09]) lead \<Longrightarrow> t = [] \<or> \<not> ascii_space (hd t) \<Longrightarrow> trim_blanks (lead @ t) = t"
  by (induction lead) (cases t; auto simp: trim_blanks_def ascii_space_def)+

definition host_line :: "string \<Rightarrow> string \<Rightarrow> string \<Rightarrow> bool" where
  "host_line lead field rest \<longleftrightarrow>
     list_all (\<lambda>c. c \<in> set [CHR '' '', CHR 0x09]) lead \<and> list_all ascii (field @ rest) \<and> field \<noteq> [] \<and>
     list_all (\<lambda>c. \<not> ascii_space c) field \<and> (rest = [] \<or> ascii_space (hd rest)) \<and>
     list_all (\<lambda>p. p \<noteq> [] \<and> hd p \<notin> set [CHR ''#'', CHR ''@'']) (split_char (CHR '','') field)"

lemma hd_split_char: "field \<noteq> [] \<Longrightarrow> hd (split_char d field) \<noteq> [] \<Longrightarrow> hd (hd (split_char d field)) = hd field"
  by (cases field; cases "split_char d (tl field)") (auto split: if_splits)

lemma host_line_text:
  assumes "host_line lead field rest"
  shows "trim_blanks (lead @ field @ rest) = field @ rest" "\<not> blank_or_marked (field @ rest)"
    "go_fields (field @ rest) = field # go_fields rest"
proof -
  note h = assms [unfolded host_line_def]
  have hd_field: "\<not> ascii_space (hd field)" using h by (cases field) auto
  then show "trim_blanks (lead @ field @ rest) = field @ rest" using h by (intro trim_blanks_lead) auto
  have "hd (split_char (CHR '','') field) \<in> set (split_char (CHR '','') field)" by simp
  with h have "hd (split_char (CHR '','') field) \<noteq> []" "hd (hd (split_char (CHR '','') field)) \<notin> set [CHR ''#'', CHR ''@'']"
    unfolding list_all_iff by blast+
  with hd_split_char [of field "CHR '',''"] h have "hd field \<notin> set [CHR ''#'', CHR ''@'']" by simp
  with hd_field h show "\<not> blank_or_marked (field @ rest)" by (auto simp: blank_or_marked_def ascii_space_def)
  show "go_fields (field @ rest) = field # go_fields rest" using h by (intro go_fields_word) auto
qed

lemma line_entries_host_line:
  assumes "host_line lead field rest"
  shows "line_entries e token (lead @ field @ rest) =
    (if length (go_fields rest) \<ge> 2 \<and> list_ex (\<lambda>p. knownHostPatternIs e p token) (split_char (CHR '','') field)
     then [(go_fields rest ! 0, go_fields rest ! 1)] else [])"
  using host_line_text [OF assms] by (simp add: line_entries_def Let_def not_le)

lemma dropKnownHostEntry_host_line:
  assumes "host_line lead field rest"
  shows "dropKnownHostEntry e (lead @ field @ rest) token T =
    (let patterns = split_char (CHR '','') field; kept = filter (\<lambda>p. \<not> knownHostPatternIs e p token) patterns in
     if length (go_fields rest) < 2 \<or> go_fields rest ! 0 \<noteq> T \<or> kept = patterns then lead @ field @ rest
     else if kept = [] then [] else lead @ join '','' kept @ rest)"
proof -
  note t = host_line_text [OF assms]
  have "\<not> (field @ rest = [] \<or> hd (field @ rest) \<in> set [CHR ''#'', CHR ''@'', CHR 0x0A, CHR 0x0D])"
    using t(2) unfolding blank_or_marked_def .
  moreover have "field \<noteq> []" using assms by (simp add: host_line_def)
  ultimately show ?thesis unfolding dropKnownHostEntry_def t(1) Let_def t(3) by (simp add: t(3))
qed

lemma clean_line_cases:
  assumes "clean_line line"
  obtains "blank_or_marked (trim_blanks line)" | lead field rest where "line = lead @ field @ rest" "host_line lead field rest"
proof (cases "blank_or_marked (trim_blanks line)")
  case False
  let ?t = "trim_blanks line"
  let ?field = "takeWhile (\<lambda>c. \<not> ascii_space c) ?t" and ?rest = "dropWhile (\<lambda>c. \<not> ascii_space c) ?t"
  let ?lead = "takeWhile (\<lambda>c. c \<in> set [CHR '' '', CHR 0x09]) line"
  have c: "list_all ascii line" "\<not> ascii_space (hd ?t)"
    "list_all (\<lambda>p. p \<noteq> [] \<and> hd p \<notin> set [CHR ''#'', CHR ''@'']) (split_char (CHR '','') (go_fields ?t ! 0))"
    using assms False by (simp_all add: clean_line_def Let_def)
  have ne: "?t \<noteq> []" using False by (auto simp: blank_or_marked_def)
  have line: "line = ?lead @ ?t" unfolding trim_blanks_def by simp
  have asc: "list_all ascii ?t" using c(1) unfolding trim_blanks_def by (auto simp: list_all_iff dest: set_dropWhileD)
  have field: "?field \<noteq> []" using ne c(2) by (cases ?t) auto
  have rest: "?rest = [] \<or> ascii_space (hd ?rest)" using hd_dropWhile [of "\<lambda>c. \<not> ascii_space c" ?t] by blast
  have "dropWhile ascii_space ?t = ?t" using ne c(2) by (cases ?t) auto
  then have "go_fields ?t ! 0 = ?field" using go_fields_ascii [OF asc] ne by (simp add: Let_def)
  then have "host_line ?lead ?field ?rest"
    using c(3) field rest asc by (auto simp: host_line_def list_all_iff dest: set_takeWhileD)
  with line that(2) show ?thesis by (metis takeWhile_dropWhile_id)
qed (use that(1) in blast)

lemma line_entries_marked: "blank_or_marked (trim_blanks line) \<Longrightarrow> line_entries e token line = []"
  by (simp add: line_entries_def Let_def)

lemma dropKnownHostEntry_marked: "blank_or_marked (trim_blanks line) \<Longrightarrow> dropKnownHostEntry e line token T = line"
  unfolding blank_or_marked_def dropKnownHostEntry_def Let_def by simp

lemma host_line_kept:
  assumes "host_line lead field rest" and "kept = filter P (split_char (CHR '','') field)" and "kept \<noteq> []"
  shows "host_line lead (join '','' kept) rest" "split_char (CHR '','') (join '','' kept) = kept"
proof -
  note h = assms(1) [unfolded host_line_def]
  have sub: "set kept \<subseteq> set (split_char (CHR '','') field)" using assms(2) by auto
  show split: "split_char (CHR '','') (join '','' kept) = kept"
    using sub split_char_no_delimiter assms(3) by (intro split_join_char) blast+
  have chars: "set (join '','' kept) \<subseteq> insert (CHR '','') (set field)"
    using set_join [of "CHR '',''" kept] set_split_char [of _ "CHR '',''" field] sub by blast
  have "join '','' kept \<noteq> []"
  proof
    assume "join '','' kept = []"
    then have "kept = [[]]" using split by simp
    then show False using sub h by (auto simp: list_all_iff)
  qed
  moreover have comma: "\<not> ascii_space (CHR '','')" "ascii (CHR '','')" by code_simp+
  moreover have "list_all (\<lambda>c. \<not> ascii_space c \<and> ascii c) field" using h by (simp add: list_all_iff)
  with chars comma have "list_all (\<lambda>c. \<not> ascii_space c \<and> ascii c) (join '','' kept)"
    unfolding list_all_iff by blast
  moreover have "list_all (\<lambda>p. p \<noteq> [] \<and> hd p \<notin> set [CHR ''#'', CHR ''@'']) kept"
    using h sub unfolding list_all_iff by blast
  ultimately show "host_line lead (join '','' kept) rest"
    using h unfolding host_line_def split list_all_append by (simp add: list_all_iff)
qed

text \<open>No hash makes two hosts equal.\<close>

definition tokens_apart :: "hostkey_env \<Rightarrow> string \<Rightarrow> string \<Rightarrow> bool" where
  "tokens_apart e token other \<longleftrightarrow> token \<noteq> other \<and> (\<forall>salt. he_hmac e salt token \<noteq> he_hmac e salt other)"

lemma tokens_apart_patterns:
  "tokens_apart e token other \<Longrightarrow> knownHostPatternIs e p token \<Longrightarrow> \<not> knownHostPatternIs e p other"
  by (auto simp: tokens_apart_def knownHostPatternIs_def split: if_splits list.splits option.splits) metis+

lemma drop_line_entries:
  assumes "clean_line line"
  shows "line_entries e token (dropKnownHostEntry e line token T) = filter (\<lambda>(t, d). t \<noteq> T) (line_entries e token line)"
    and "tokens_apart e token other \<Longrightarrow> line_entries e other (dropKnownHostEntry e line token T) = line_entries e other line"
proof -
  have empty: "line_entries e tok [] = []" for tok by (simp add: line_entries_def trim_blanks_def blank_or_marked_def)
  let ?new = "dropKnownHostEntry e line token T"
  have "line_entries e token ?new = filter (\<lambda>(t, d). t \<noteq> T) (line_entries e token line) \<and>
    (tokens_apart e token other \<longrightarrow> line_entries e other ?new = line_entries e other line)"
    using assms
  proof (cases rule: clean_line_cases)
    case (2 lead field rest)
    let ?ps = "split_char (CHR '','') field"
    let ?kept = "filter (\<lambda>p. \<not> knownHostPatternIs e p token) ?ps"
    note entries = line_entries_host_line [OF 2(2), folded 2(1)]
    note new = dropKnownHostEntry_host_line [OF 2(2), of e token T, folded 2(1), unfolded Let_def]
    have other: "list_ex (\<lambda>p. knownHostPatternIs e p other) ?kept = list_ex (\<lambda>p. knownHostPatternIs e p other) ?ps"
      if "tokens_apart e token other"
      using tokens_apart_patterns [OF that] by (auto simp: list_ex_iff)
    consider "length (go_fields rest) < 2 \<or> go_fields rest ! 0 \<noteq> T \<or> ?kept = ?ps"
      | "\<not> (length (go_fields rest) < 2 \<or> go_fields rest ! 0 \<noteq> T \<or> ?kept = ?ps)" "?kept = []"
      | "\<not> (length (go_fields rest) < 2 \<or> go_fields rest ! 0 \<noteq> T \<or> ?kept = ?ps)" "?kept \<noteq> []"
      by blast
    then show ?thesis
    proof cases
      case 1
      then have "?new = line" using new by simp
      moreover have "\<not> list_ex (\<lambda>p. knownHostPatternIs e p token) ?ps" if "?kept = ?ps"
        using that by (auto simp: filter_id_conv list_ex_iff)
      ultimately show ?thesis using 1 entries [of e token] by auto
    next
      case kept: 2
      then have "?new = []" using new by simp
      then show ?thesis using kept other entries [of e token] entries [of e other] empty by (simp add: list_ex_iff)
    next
      case 3
      note k = host_line_kept [OF 2(2) refl 3(2)]
      have "?new = lead @ join '','' ?kept @ rest" using 3 new by simp
      moreover have "\<not> list_ex (\<lambda>p. knownHostPatternIs e p token) ?kept" by (auto simp: list_ex_iff)
      ultimately show ?thesis
        using 3 other line_entries_host_line [OF k(1), unfolded k(2)] entries [of e token] entries [of e other] by simp
    qed
  qed (simp add: line_entries_marked dropKnownHostEntry_marked)
  then show "line_entries e token ?new = filter (\<lambda>(t, d). t \<noteq> T) (line_entries e token line)"
    and "tokens_apart e token other \<Longrightarrow> line_entries e other ?new = line_entries e other line" by blast+
qed

lemma host_line_no_newline: "host_line lead field rest \<Longrightarrow> CHR 0x0A \<notin> set lead \<and> CHR 0x0A \<notin> set field"
proof (intro conjI notI)
  assume h: "host_line lead field rest" and "CHR 0x0A \<in> set lead"
  then have "CHR 0x0A \<in> set [CHR '' '', CHR 0x09]" unfolding host_line_def list_all_iff by blast
  then show False by simp
next
  have "ascii_space (CHR 0x0A)" by code_simp
  moreover assume "host_line lead field rest" and "CHR 0x0A \<in> set field"
  ultimately show False unfolding host_line_def list_all_iff by blast
qed

lemma drop_line_shape:
  assumes "clean_line line" and "line \<noteq> []" and "CHR 0x0A \<notin> set (butlast line)" and "new = dropKnownHostEntry e line token T"
  shows "new = [] \<or> CHR 0x0A \<notin> set (butlast new) \<and> last new = last line"
  using assms(1)
proof (cases rule: clean_line_cases)
  case (2 lead field rest)
  note new = dropKnownHostEntry_host_line [OF 2(2), of e token T, folded 2(1), folded assms(4), unfolded Let_def]
  let ?kept = "filter (\<lambda>p. \<not> knownHostPatternIs e p token) (split_char (CHR '','') field)"
  consider "new = line" | "new = []" | "new = lead @ join '','' ?kept @ rest" "?kept \<noteq> []" "\<not> length (go_fields rest) < 2"
  proof -
    let ?A = "length (go_fields rest) < 2 \<or> go_fields rest ! 0 \<noteq> T \<or> ?kept = split_char (CHR '','') field"
    consider ?A | "\<not> ?A" "?kept = []" | "\<not> ?A" "?kept \<noteq> []" by argo
    then show ?thesis
    proof cases
      case 1
      with new have "new = line" by (simp only: if_True simp_thms)
      then show ?thesis by (rule that(1))
    next
      case 2
      note a = 2(1) and b = 2(2)
      have "new = []" using new unfolding if_not_P [OF a] if_P [OF b] .
      then show ?thesis by (rule that(2))
    next
      case 3
      note a = 3(1) and b = 3(2)
      have "new = lead @ join '','' ?kept @ rest" using new unfolding if_not_P [OF a] if_not_P [OF b] .
      moreover have "\<not> length (go_fields rest) < 2" using a by argo
      ultimately show ?thesis using b that(3) by blast
    qed
  qed
  then show ?thesis
  proof cases
    case 3
    have "CHR 0x0A \<notin> set lead" "CHR 0x0A \<notin> set (join '','' ?kept)"
      using host_line_no_newline [OF host_line_kept(1) [OF 2(2) refl 3(2)]] by blast+
    then have "CHR 0x0A \<notin> set (lead @ join '','' ?kept)" by (simp del: set_filter)
    moreover have "rest \<noteq> []"
    proof
      assume "rest = []"
      moreover have "go_fields [] = []" by code_simp
      ultimately show False using 3(3) by simp
    qed
    moreover from this have "butlast line = lead @ field @ butlast rest" "last line = last rest"
      unfolding 2(1) by (simp_all add: butlast_append)
    moreover have "butlast new = (lead @ join '','' ?kept) @ butlast rest" "last new = last rest"
      using \<open>rest \<noteq> []\<close> unfolding 3(1) by (simp_all add: butlast_append)
    ultimately show ?thesis using assms(3) by auto
  qed (use assms(3) in auto)
qed (use assms dropKnownHostEntry_marked in auto)

subsection \<open>The file\<close>

definition clean_hosts :: "string \<Rightarrow> bool" where
  "clean_hosts content = list_all clean_line (split_lines content)"

abbreviation drop_lines :: "hostkey_env \<Rightarrow> string \<Rightarrow> string \<Rightarrow> string list \<Rightarrow> string" where
  "drop_lines e token T ls \<equiv> concat (map (\<lambda>line. dropKnownHostEntry e line token T) ls)"

abbreviation line_shape :: "string \<Rightarrow> bool" where
  "line_shape l \<equiv> l \<noteq> [] \<and> CHR 0x0A \<notin> set (butlast l)"

lemma split_lines_closed: "line_shape l \<Longrightarrow> last l = CHR 0x0A \<Longrightarrow> split_lines (l @ s) = l # split_lines s"
  using split_lines_line [of "butlast l" s] by (metis append.assoc append_Cons append_Nil append_butlast_last_id)

fun lines_ok :: "string list \<Rightarrow> bool" where
  "lines_ok [] = True"
| "lines_ok [l] = line_shape l"
| "lines_ok (l # m # ls) = (line_shape l \<and> last l = CHR 0x0A \<and> lines_ok (m # ls))"

lemma lines_ok_split: "lines_ok (split_lines s)"
proof (induction s)
  case (Cons c s)
  show ?case
  proof (cases "split_lines s")
    case (Cons m ms)
    with \<open>lines_ok (split_lines s)\<close> show ?thesis by (cases ms) auto
  qed simp
qed simp

text \<open>The text after the drop, closed by a line end, has the same entries line by line.\<close>

definition closed :: "string \<Rightarrow> string" where
  "closed s = (if s \<noteq> '''' \<and> last s \<noteq> CHR 0x0A then s @ [CHR 0x0A] else s)"

lemma line_entries_newline: "list_all ascii l \<Longrightarrow> line_entries e tok (l @ [CHR 0x0A]) = line_entries e tok l"
proof -
  assume a: "list_all ascii l"
  have t: "trim_blanks (l @ [CHR 0x0A]) = trim_blanks l @ [CHR 0x0A]"
    by (induction l) (simp_all add: trim_blanks_def)
  have "list_all ascii (trim_blanks l)" using a by (auto simp: trim_blanks_def list_all_iff dest: set_dropWhileD)
  then have f: "go_fields (trim_blanks l @ [CHR 0x0A]) = go_fields (trim_blanks l)" by (rule go_fields_newline)
  show ?thesis
  proof (cases "trim_blanks l = []")
    case True
    then show ?thesis by (simp add: line_entries_def t blank_or_marked_def)
  next
    case False
    then have "blank_or_marked (trim_blanks l @ [CHR 0x0A]) = blank_or_marked (trim_blanks l)"
      by (simp add: blank_or_marked_def)
    then show ?thesis unfolding line_entries_def t f Let_def by simp
  qed
qed

lemma host_entries_line:
  "line_shape l \<Longrightarrow> last l = CHR 0x0A \<Longrightarrow> host_entries e tok (l @ s) = line_entries e tok l @ host_entries e tok s"
  by (simp add: host_entries_def split_lines_closed)

lemma line_entries_Nil [simp]: "line_entries e tok [] = []"
  by (simp add: line_entries_def trim_blanks_def blank_or_marked_def)

lemma ascii_drop:
  assumes "clean_line line"
  shows "list_all ascii (dropKnownHostEntry e line token T)"
  using assms
proof (cases rule: clean_line_cases)
  case 1
  with assms show ?thesis by (simp add: dropKnownHostEntry_marked clean_line_def Let_def)
next
  case (2 lead field rest)
  have asc: "list_all ascii line" using assms by (simp add: clean_line_def Let_def)
  show ?thesis
    using asc host_line_kept(1) [OF 2(2) refl, of "\<lambda>p. \<not> knownHostPatternIs e p token"]
    unfolding 2(1) dropKnownHostEntry_host_line [OF 2(2)] Let_def host_line_def by (simp split: if_split)
qed

lemma no_newline: "line_shape l \<Longrightarrow> last l \<noteq> CHR 0x0A \<Longrightarrow> CHR 0x0A \<notin> set l"
  by (cases l rule: rev_cases) auto

lemma closed_append: "t = [] \<or> last t = CHR 0x0A \<Longrightarrow> closed (t @ r) = t @ closed r"
  by (cases "r = []") (auto simp: closed_def)

text \<open>An edit by lines: a line disappears or keeps its line end.\<close>

definition edits_line :: "(string \<Rightarrow> string) \<Rightarrow> string \<Rightarrow> bool" where
  "edits_line f l \<longleftrightarrow> list_all ascii (f l) \<and> (f l = [] \<or> CHR 0x0A \<notin> set (butlast (f l)) \<and> last (f l) = last l)"

lemma host_entries_edit:
  assumes "lines_ok ls" and "list_all (edits_line f) ls"
  shows "host_entries e tok (closed (concat (map f ls)) @ s) = concat (map (line_entries e tok \<circ> f) ls) @ host_entries e tok s"
  using assms
proof (induction ls rule: lines_ok.induct)
  case (2 l)
  consider "f l = []" | "line_shape (f l)" "last (f l) = CHR 0x0A" | "line_shape (f l)" "last (f l) \<noteq> CHR 0x0A"
    using 2 by (auto simp: edits_line_def)
  then show ?case
  proof cases
    case 3
    then have "line_shape (f l @ [CHR 0x0A])" using no_newline by simp
    with 3 host_entries_line [of "f l @ [CHR 0x0A]" e tok s] line_entries_newline [of "f l"] 2
    show ?thesis by (simp add: closed_def edits_line_def)
  qed (simp_all add: closed_def host_entries_line)
next
  case (3 l m ls)
  have new: "f l = [] \<or> line_shape (f l) \<and> last (f l) = CHR 0x0A" using 3 by (auto simp: edits_line_def)
  then have "host_entries e tok (closed (concat (map f (l # m # ls))) @ s) =
      line_entries e tok (f l) @ host_entries e tok (closed (concat (map f (m # ls))) @ s)"
    using host_entries_line by (auto simp: closed_append)
  with 3 show ?case by simp
qed (simp add: closed_def)

lemma list_all_line: "list_all P (split_lines s) \<Longrightarrow> list_all Q (split_lines s) \<Longrightarrow>
    (\<And>l. P l \<Longrightarrow> Q l \<Longrightarrow> R l) \<Longrightarrow> list_all R (split_lines s)"
  by (auto simp: list_all_iff)

lemma host_entries_drop:
  assumes "clean_hosts content"
  shows "host_entries e tok (closed (drop_lines e token T (split_lines content)) @ s) =
    concat (map (\<lambda>l. line_entries e tok (dropKnownHostEntry e l token T)) (split_lines content)) @ host_entries e tok s"
proof -
  have "edits_line (\<lambda>line. dropKnownHostEntry e line token T) l" if "l \<in> set (split_lines content)" for l
    using that assms drop_line_shape [OF _ _ _ refl, of l e token T] ascii_drop [of l e token T] split_lines_shape [OF that]
    by (auto simp: edits_line_def clean_hosts_def list_all_iff)
  then show ?thesis using host_entries_edit [OF lines_ok_split] by (simp add: list_all_iff comp_def)
qed

lemma host_entries_closed:
  assumes "clean_hosts content"
  shows "host_entries e tok (closed content @ s) = host_entries e tok content @ host_entries e tok s"
proof -
  have "edits_line id l" if "l \<in> set (split_lines content)" for l
    using that assms split_lines_shape [OF that]
    by (auto simp: edits_line_def clean_hosts_def list_all_iff clean_line_def Let_def)
  then show ?thesis
    using host_entries_edit [OF lines_ok_split, of id content e tok s] by (simp add: list_all_iff host_entries_def)
qed

section \<open>The recorded line\<close>

text \<open>The line format of the library, for a normalized host and a key whose texts are single words.\<close>

definition recordable :: "hostkey_env \<Rightarrow> string \<Rightarrow> public_key \<Rightarrow> bool" where
  "recordable e token key \<longleftrightarrow>
     he_line e token key = token @ '' '' @ pk_Type key @ '' '' @ pk_Data key \<and>
     word token \<and> word (pk_Type key) \<and> word (pk_Data key) \<and>
     CHR '','' \<notin> set token \<and> hd token \<notin> set [CHR ''#'', CHR ''@''] \<and> knownHostPatternIs e token token"

lemma recorded_line:
  assumes "recordable e token key"
  shows "host_entries e tok (he_line e token key @ [CHR 0x0A]) =
    (if knownHostPatternIs e token tok then [(pk_Type key, pk_Data key)] else [])"
proof -
  let ?rest = "'' '' @ pk_Type key @ '' '' @ pk_Data key @ [CHR 0x0A]"
  note r = assms [unfolded recordable_def]
  have words: "list_all ascii w" "CHR 0x0A \<notin> set w" if "word w" for w
    using that spaces_ascii(2) by (auto simp: word_def list_all_iff)
  have asc: "list_all ascii ?rest" using r words by simp
  have "go_fields ?rest = [pk_Type key, pk_Data key]"
    using r asc words go_fields_cons_word [of "pk_Type key" "'' '' @ pk_Data key @ [CHR 0x0A]"]
      go_fields_cons_word [of "pk_Data key" "[CHR 0x0A]"] by (simp add: go_fields_space)
  moreover have "split_char (CHR '','') token = [token]" using r by (simp add: split_char_single)
  moreover have "host_line [] token ?rest"
    using r asc words(1) [of token] by (auto simp: host_line_def split_char_single word_def list_all_iff)
  ultimately have entries: "line_entries e tok (token @ ?rest) =
      (if knownHostPatternIs e token tok then [(pk_Type key, pk_Data key)] else [])"
    using line_entries_host_line [of "[]" token ?rest e tok] by simp
  have "CHR 0x0A \<notin> set (token @ '' '' @ pk_Type key @ '' '' @ pk_Data key)" using r words(2) by auto
  then have "split_lines (he_line e token key @ [CHR 0x0A]) = [token @ ?rest]"
    using r split_lines_line [of _ "[]"] by (metis append.assoc split_lines.simps(1))
  with entries show ?thesis by (simp add: host_entries_def)
qed

section \<open>What an acceptance changes\<close>

lemma replaced_hosts_entries:
  assumes "clean_hosts original" and "recordable e token key"
  shows "host_entries e token (replaced_hosts e original token key) =
      filter (\<lambda>(t, d). t \<noteq> pk_Type key) (host_entries e token original) @ [(pk_Type key, pk_Data key)]"
    and "tokens_apart e token other \<Longrightarrow>
      host_entries e other (replaced_hosts e original token key) = host_entries e other original"
proof -
  have new: "replaced_hosts e original token key =
      closed (drop_lines e token (pk_Type key) (split_lines original)) @ he_line e token key @ [CHR 0x0A]"
    by (simp add: replaced_hosts_def closed_def Let_def)
  have clean: "clean_line l" if "l \<in> set (split_lines original)" for l
    using assms(1) that by (simp add: clean_hosts_def list_all_iff)
  have "concat (map (\<lambda>l. line_entries e token (dropKnownHostEntry e l token (pk_Type key))) (split_lines original)) =
      concat (map (\<lambda>l. filter (\<lambda>(t, d). t \<noteq> pk_Type key) (line_entries e token l)) (split_lines original))"
    using drop_line_entries(1) [OF clean] by (intro arg_cong [of _ _ concat] map_cong refl)
  moreover have "knownHostPatternIs e token token" using assms(2) by (simp add: recordable_def)
  ultimately show "host_entries e token (replaced_hosts e original token key) =
      filter (\<lambda>(t, d). t \<noteq> pk_Type key) (host_entries e token original) @ [(pk_Type key, pk_Data key)]"
    unfolding new host_entries_drop [OF assms(1)] recorded_line [OF assms(2)]
    by (simp add: host_entries_def filter_concat comp_def)
  assume apart: "tokens_apart e token other"
  have "concat (map (\<lambda>l. line_entries e other (dropKnownHostEntry e l token (pk_Type key))) (split_lines original)) =
      concat (map (line_entries e other) (split_lines original))"
    using drop_line_entries(2) [OF clean apart] by (intro arg_cong [of _ _ concat] map_cong refl)
  then show "host_entries e other (replaced_hosts e original token key) = host_entries e other original"
    unfolding new host_entries_drop [OF assms(1)] recorded_line [OF assms(2)]
    using tokens_apart_patterns [OF apart] assms(2) by (auto simp: host_entries_def recordable_def)
qed

lemma appended_hosts_entries:
  assumes "clean_hosts original" and "recordable e token key"
  shows "host_entries e token (appended_hosts e original token key) =
      host_entries e token original @ [(pk_Type key, pk_Data key)]"
    and "tokens_apart e token other \<Longrightarrow>
      host_entries e other (appended_hosts e original token key) = host_entries e other original"
proof -
  have new: "appended_hosts e original token key = closed original @ he_line e token key @ [CHR 0x0A]"
    by (simp add: appended_hosts_def closed_def)
  have same: "knownHostPatternIs e token token" using assms(2) by (simp add: recordable_def)
  then show "host_entries e token (appended_hosts e original token key) =
      host_entries e token original @ [(pk_Type key, pk_Data key)]"
    unfolding new host_entries_closed [OF assms(1)] recorded_line [OF assms(2)] by simp
  assume "tokens_apart e token other"
  then show "host_entries e other (appended_hosts e original token key) = host_entries e other original"
    unfolding new host_entries_closed [OF assms(1)] recorded_line [OF assms(2)]
    using tokens_apart_patterns same by auto
qed

lemma AcceptHostKey_change:
  assumes "AcceptHostKey e c expected scan1 scan2 mkdir failure outcome file = (err, file')" and "file' \<noteq> file"
  obtains first key where "scan1 = Some first" "scan2 = Some key" "expected \<noteq> ''''"
    "he_fingerprint e first = expected" "he_fingerprint e key = expected"
    "(\<exists>original. file = HostsText original \<and> file' = HostsText (replaced_hosts e original (hp_Token c) key)) \<or>
     file' = HostsText (appended_hosts e (case file of HostsText text \<Rightarrow> text | _ \<Rightarrow> '''') (hp_Token c) key)"
  using assms
  by (auto simp: AcceptHostKey_def InspectHostKey_def replaceKnownHost_def saveHostKey_def Let_def
      split: option.splits sum.splits prod.splits if_splits known_hosts_file.splits)


definition demo_env :: hostkey_env where
  "demo_env = \<lparr>he_fingerprint = pk_Data,
     he_database = \<lambda>content. Some (\<lambda>address key. KeyWanted [\<lparr>kk_Key = \<lparr>pk_Type = ''ed'', pk_Data = ''A'', pk_Certified = None\<rparr>, kk_Line = 1\<rparr>]),
     he_normalize = id, he_line = \<lambda>token key. token @ '' '' @ pk_Type key @ '' '' @ pk_Data key,
     he_base64 = Some, he_hmac = \<lambda>salt token. salt @ token\<rparr>"


section \<open>Algorithms\<close>

lemma add_new_facts: "distinct acc \<Longrightarrow> distinct (add_new acc as) \<and> set (add_new acc as) = set acc \<union> set as"
  by (induction acc as rule: add_new.induct) auto

lemma add_new_extends: "\<exists>rest. add_new acc as = acc @ rest"
  by (induction acc as rule: add_new.induct) auto

lemma signature_algorithms_default: "set (signatureAlgorithmsForKeyType t) \<subseteq> set defaultHostKeyAlgorithms"
  by (auto simp: signatureAlgorithmsForKeyType_def defaultHostKeyAlgorithms_def)

text \<open>
  The host-key algorithms offered for a known host are the library's own list in another order, so no
  algorithm is added or withheld, and the algorithms of the recorded key types come before all others.
\<close>

theorem known_types_are_preferred:
  assumes "hostKeyAlgorithmsFor e probe file address = Some algorithms"
  shows "mset algorithms = mset defaultHostKeyAlgorithms \<and>
    (\<exists>n. set (take n algorithms) =
       (\<Union>t \<in> set (fst (knownHostKeyTypes e probe file address)). set (signatureAlgorithmsForKeyType t)) \<and> 0 < n)"
proof -
  obtain types where types: "knownHostKeyTypes e probe file address = (types, False)"
    and ne: "add_new [] (concat (map signatureAlgorithmsForKeyType types)) \<noteq> []"
    and alg: "algorithms = add_new (add_new [] (concat (map signatureAlgorithmsForKeyType types))) defaultHostKeyAlgorithms"
    using assms by (auto simp: hostKeyAlgorithmsFor_def Let_def split: prod.splits if_splits)
  let ?pref = "add_new [] (concat (map signatureAlgorithmsForKeyType types))"
  have pref: "distinct ?pref" "set ?pref = (\<Union>t \<in> set types. set (signatureAlgorithmsForKeyType t))"
    using add_new_facts [of "[]"] by auto
  then have "distinct algorithms" "set algorithms = set defaultHostKeyAlgorithms"
    using add_new_facts [OF pref(1), of defaultHostKeyAlgorithms] signature_algorithms_default unfolding alg by auto
  moreover have "distinct defaultHostKeyAlgorithms" by code_simp
  ultimately have "mset algorithms = mset defaultHostKeyAlgorithms" by (simp add: set_eq_iff_mset_eq_distinct)
  moreover obtain rest where "algorithms = ?pref @ rest" using add_new_extends unfolding alg by blast
  then have "take (length ?pref) algorithms = ?pref" by simp
  ultimately show ?thesis using pref(2) ne types by (metis fst_conv length_greater_0_conv)
qed

theorem known_types_are_preferred_witness:
  "mset (the (hostKeyAlgorithmsFor (demo_env\<lparr>he_database := \<lambda>content. Some (\<lambda>address key.
      KeyWanted [\<lparr>kk_Key = \<lparr>pk_Type = ''ssh-ed25519'', pk_Data = ''A'', pk_Certified = None\<rparr>, kk_Line = 1\<rparr>])\<rparr>)
      \<lparr>pk_Type = ''p'', pk_Data = '''', pk_Certified = None\<rparr> (HostsText ''a ssh-ed25519 A'') ''a'')) =
   mset defaultHostKeyAlgorithms"
proof -
  let ?e = "demo_env\<lparr>he_database := \<lambda>content. Some (\<lambda>address key.
      KeyWanted [\<lparr>kk_Key = \<lparr>pk_Type = ''ssh-ed25519'', pk_Data = ''A'', pk_Certified = None\<rparr>, kk_Line = 1\<rparr>])\<rparr>"
  let ?p = "\<lparr>pk_Type = ''p'', pk_Data = '''', pk_Certified = None\<rparr>"
  have "hostKeyAlgorithmsFor ?e ?p (HostsText ''a ssh-ed25519 A'') ''a'' =
      Some (add_new [''ssh-ed25519''] defaultHostKeyAlgorithms)"
    by code_simp
  from known_types_are_preferred [OF this] this show ?thesis by simp
qed

end
