(* ===== verification/Replacement_Record.thy ===== *)
theory Replacement_Record
  imports Ssm_Prelude
begin

text \<open>
  The durable ownership record of an executable replacement on Windows
  (\<^verbatim>\<open>internal/update/replace_windows.go\<close>, \<^verbatim>\<open>replace_security_windows.go\<close>): file identities, the semantic
  binding of a security descriptor, and the fixed binary format with its checksum. CRC-32 is a parameter.
\<close>

section \<open>Little-endian integers (encoding/binary)\<close>

type_synonym uint32 = "32 word"

definition le_put32 :: "uint32 \<Rightarrow> bytes" where
  "le_put32 v = map (\<lambda>k. ucast (drop_bit k v)) [0, 8, 16, 24]"

definition le_get32 :: "bytes \<Rightarrow> uint32" where
  "le_get32 b = foldr (\<lambda>x acc. push_bit 8 acc OR ucast x) b 0"

definition le_put64 :: "uint64 \<Rightarrow> bytes" where "le_put64 v = rev (be_put64 v)"

definition le_get64 :: "bytes \<Rightarrow> uint64" where "le_get64 b = be_get64 (rev b)"

lemma length_le_put [simp]: "length (le_put32 v) = 4" "length (le_put64 u) = 8"
  by (simp_all add: le_put32_def le_put64_def)

lemma le_get64_put64 [simp]: "le_get64 (le_put64 v) = v"
  by (simp add: le_put64_def le_get64_def)

lemma low_byte32: "push_bit 8 (drop_bit (k + 8) v) OR ucast (ucast (drop_bit k v) :: byte) = drop_bit k (v :: uint32)"
  by (rule bit_word_eqI) (auto simp: bit_simps)

lemma top_byte32: "ucast (ucast (drop_bit 24 v) :: byte) = drop_bit 24 (v :: uint32)"
proof (rule bit_word_eqI)
  fix n
  show "bit (ucast (ucast (drop_bit 24 v) :: byte) :: uint32) n = bit (drop_bit 24 v) n"
    using bit_imp_le_length [of v "24 + n"] by (auto simp: bit_simps)
qed

lemma le_get32_put32 [simp]: "le_get32 (le_put32 v) = v"
  using low_byte32 [of 16 v] low_byte32 [of 8 v] low_byte32 [of 0 v]
  by (simp add: le_put32_def le_get32_def top_byte32)

section \<open>Identities and security bindings\<close>

record file_identity =
  fi_Volume :: uint64
  fi_File :: bytes

record security_binding =
  sb_Metadata :: uint32
  sb_Digest :: bytes

definition bindingOrdinary :: uint32 where "bindingOrdinary = 1"
definition bindingFull :: uint32 where "bindingFull = 2"
definition bindingTierMask :: uint32 where "bindingTierMask = 0xff"
definition bindingAutoInherited :: uint32 where "bindingAutoInherited = 0x100"

definition validateWindowsSecurityBinding :: "security_binding \<Rightarrow> bool" where
  "validateWindowsSecurityBinding b =
     (let tier = sb_Metadata b AND bindingTierMask in
      if tier = bindingOrdinary then sb_Metadata b AND NOT (bindingTierMask OR bindingAutoInherited) = 0
      else if tier = bindingFull then sb_Metadata b = bindingFull
      else False)"

definition compareWindowsSecurityBindings :: "security_binding \<Rightarrow> security_binding \<Rightarrow> bool" where
  "compareWindowsSecurityBindings want got =
     (validateWindowsSecurityBinding want \<and> validateWindowsSecurityBinding got \<and>
      sb_Metadata want AND bindingTierMask = sb_Metadata got AND bindingTierMask \<and>
      sb_Digest got = sb_Digest want \<and>
      \<not> (sb_Metadata want AND bindingAutoInherited \<noteq> 0 \<and> sb_Metadata got AND bindingAutoInherited = 0))"

lemma binding_matches_itself [simp]:
  "compareWindowsSecurityBindings b b = validateWindowsSecurityBinding b"
  by (auto simp: compareWindowsSecurityBindings_def)

section \<open>The record\<close>

record replacement_record =
  rr_State :: uint32
  rr_Original :: file_identity
  rr_Installed :: file_identity
  rr_RollbackDigest :: bytes
  rr_Binding :: security_binding

definition recordPrepared :: uint32 where "recordPrepared = 1"
definition recordCompleted :: uint32 where "recordCompleted = 2"
definition recordVersion :: uint32 where "recordVersion = 3"
definition recordSize :: nat where "recordSize = 136"

definition recordMagic :: bytes where
  "recordMagic = [0x53, 0x53, 0x4D, 0x4F, 0x4C, 0x44, 0x33, 0]"   \<comment> \<open>\<open>SSMOLD3\<close> and a zero\<close>

definition putWindowsFileIdentity :: "file_identity \<Rightarrow> bytes" where
  "putWindowsFileIdentity i = le_put64 (fi_Volume i) @ fi_File i"

definition getWindowsFileIdentity :: "bytes \<Rightarrow> file_identity" where
  "getWindowsFileIdentity d = \<lparr>fi_Volume = le_get64 (take 8 d), fi_File = take 16 (drop 8 d)\<rparr>"

definition record_body :: "replacement_record \<Rightarrow> bytes" where
  "record_body r =
     recordMagic @ le_put32 recordVersion @ le_put32 (rr_State r)
     @ putWindowsFileIdentity (rr_Original r) @ putWindowsFileIdentity (rr_Installed r)
     @ le_put32 (sb_Metadata (rr_Binding r)) @ sb_Digest (rr_Binding r) @ rr_RollbackDigest r"

definition encodeWindowsReplacementRecord :: "(bytes \<Rightarrow> uint32) \<Rightarrow> replacement_record \<Rightarrow> bytes" where
  "encodeWindowsReplacementRecord crc r = record_body r @ le_put32 (crc (record_body r))"

datatype record_error =
    RecordLegacy | RecordSizeWrong | RecordMagicWrong | RecordVersionWrong | RecordChecksumWrong
  | RecordStateWrong | RecordBindingWrong

definition slice :: "nat \<Rightarrow> nat \<Rightarrow> bytes \<Rightarrow> bytes" where
  "slice a b d = take (b - a) (drop a d)"

definition decodeWindowsReplacementRecord :: "(bytes \<Rightarrow> uint32) \<Rightarrow> bytes \<Rightarrow> record_error + replacement_record" where
  "decodeWindowsReplacementRecord crc d =
     (if length d \<noteq> recordSize then
        (if 12 \<le> length d \<and> le_get32 (slice 8 12 d) < recordVersion then Inl RecordLegacy else Inl RecordSizeWrong)
      else if slice 0 8 d \<noteq> recordMagic then Inl RecordMagicWrong
      else if le_get32 (slice 8 12 d) \<noteq> recordVersion then Inl RecordVersionWrong
      else if le_get32 (slice 132 136 d) \<noteq> crc (slice 0 132 d) then Inl RecordChecksumWrong
      else if le_get32 (slice 12 16 d) \<notin> {recordPrepared, recordCompleted} then Inl RecordStateWrong
      else
        (let r = \<lparr>rr_State = le_get32 (slice 12 16 d), rr_Original = getWindowsFileIdentity (slice 16 40 d),
                  rr_Installed = getWindowsFileIdentity (slice 40 64 d), rr_RollbackDigest = slice 100 132 d,
                  rr_Binding = \<lparr>sb_Metadata = le_get32 (slice 64 68 d), sb_Digest = slice 68 100 d\<rparr>\<rparr>
         in if validateWindowsSecurityBinding (rr_Binding r) then Inr r else Inl RecordBindingWrong))"

text \<open>The lengths of the arrays of the Go types, and the two states.\<close>

definition record_shaped :: "replacement_record \<Rightarrow> bool" where
  "record_shaped r \<longleftrightarrow>
     length (fi_File (rr_Original r)) = 16 \<and> length (fi_File (rr_Installed r)) = 16 \<and>
     length (rr_RollbackDigest r) = 32 \<and> length (sb_Digest (rr_Binding r)) = 32 \<and>
     rr_State r \<in> {recordPrepared, recordCompleted} \<and> validateWindowsSecurityBinding (rr_Binding r)"

lemma identity_codec [simp]:
  "length (fi_File i) = 16 \<Longrightarrow> getWindowsFileIdentity (putWindowsFileIdentity i) = i"
  by (simp add: getWindowsFileIdentity_def putWindowsFileIdentity_def)

lemma length_identity [simp]: "length (fi_File i) = 16 \<Longrightarrow> length (putWindowsFileIdentity i) = 24"
  by (simp add: putWindowsFileIdentity_def)

lemma length_magic [simp]: "length recordMagic = 8"
  by (simp add: recordMagic_def)

lemma slice_here: "length x = b - a \<Longrightarrow> a = length p \<Longrightarrow> a \<le> b \<Longrightarrow> slice a b (p @ x @ q) = x"
  by (simp add: slice_def)

lemma length_record_body: "record_shaped r \<Longrightarrow> length (record_body r) = 132"
  by (simp add: record_body_def record_shaped_def)

lemma record_decode_encode:
  assumes "record_shaped r"
  shows "decodeWindowsReplacementRecord crc (encodeWindowsReplacementRecord crc r) = Inr r"
proof -
  note shape = assms [unfolded record_shaped_def]
  let ?d = "encodeWindowsReplacementRecord crc r"
  have len: "length ?d = 136" using length_record_body [OF assms] by (simp add: encodeWindowsReplacementRecord_def)
  let ?crc = "le_put32 (crc (record_body r))"
  have parts: "?d = recordMagic @ le_put32 recordVersion @ le_put32 (rr_State r)
     @ putWindowsFileIdentity (rr_Original r) @ putWindowsFileIdentity (rr_Installed r)
     @ le_put32 (sb_Metadata (rr_Binding r)) @ sb_Digest (rr_Binding r) @ rr_RollbackDigest r @ ?crc"
    by (simp add: encodeWindowsReplacementRecord_def record_body_def)
  have s: "slice 0 8 ?d = recordMagic" "slice 8 12 ?d = le_put32 recordVersion" "slice 12 16 ?d = le_put32 (rr_State r)"
    "slice 16 40 ?d = putWindowsFileIdentity (rr_Original r)" "slice 40 64 ?d = putWindowsFileIdentity (rr_Installed r)"
    "slice 64 68 ?d = le_put32 (sb_Metadata (rr_Binding r))" "slice 68 100 ?d = sb_Digest (rr_Binding r)"
    "slice 100 132 ?d = rr_RollbackDigest r" "slice 132 136 ?d = ?crc"
    unfolding parts slice_def using shape by simp_all
  have body: "slice 0 132 ?d = record_body r"
    using length_record_body [OF assms] by (simp add: slice_def encodeWindowsReplacementRecord_def)
  show ?thesis
    unfolding decodeWindowsReplacementRecord_def s body using len shape
    by (cases "rr_Binding r") (simp add: recordSize_def Let_def)
qed

section \<open>Torn writes\<close>

text \<open>Completing a record rewrites it in place; a write that stops after \<open>k\<close> bytes leaves this.\<close>

definition torn_write :: "nat \<Rightarrow> bytes \<Rightarrow> bytes \<Rightarrow> bytes" where
  "torn_write k new old = take k new @ drop k old"

lemma le_put32_get32: "length x = 4 \<Longrightarrow> le_put32 (le_get32 x) = x"
proof -
  assume "length x = 4"
  then obtain a b c d where x: "x = [a, b, c, d]"
    by (auto simp: numeral_eq_Suc length_Suc_conv)
  have high: "\<not> bit (y :: byte) (8 + n)" "\<not> bit y (16 + n)" "\<not> bit y (24 + n)" for y n
    using bit_imp_le_length by fastforce+
  have "ucast (drop_bit k (le_get32 [a, b, c, d])) = (if k = 0 then a else if k = 8 then b else if k = 16 then c else d)"
    if "k \<in> {0, 8, 16, 24}" for k :: nat
    using that by (auto intro!: bit_word_eqI simp: le_get32_def bit_simps high)
  from this [of 0] this [of 8] this [of 16] this [of 24] show ?thesis by (simp add: x le_put32_def)
qed

lemma completed_state_bytes: "le_put32 recordPrepared = [1, 0, 0, 0]" "le_put32 recordCompleted = [2, 0, 0, 0]"
  by (simp_all add: le_put32_def recordPrepared_def recordCompleted_def)

lemma torn_append: "take j (t @ x) @ drop j (t @ y) = t @ take (j - length t) x @ drop (j - length t) y"
  by (cases "j \<le> length t") simp_all

lemma torn_completion:
  assumes shape: "record_shaped old" and "rr_State old = recordPrepared" and new: "new = old\<lparr>rr_State := recordCompleted\<rparr>"
    and decode: "decodeWindowsReplacementRecord crc
      (torn_write k (encodeWindowsReplacementRecord crc new) (encodeWindowsReplacementRecord crc old)) = Inr r"
  shows "r = old \<or> r = new"
proof -
  let ?head = "recordMagic @ le_put32 recordVersion"
  let ?tail = "[0, 0, 0] @ putWindowsFileIdentity (rr_Original old) @ putWindowsFileIdentity (rr_Installed old)
     @ le_put32 (sb_Metadata (rr_Binding old)) @ sb_Digest (rr_Binding old) @ rr_RollbackDigest old"
  let ?co = "le_put32 (crc (record_body old))" and ?cn = "le_put32 (crc (record_body new))"
  have shape': "record_shaped new" using shape by (simp add: new record_shaped_def)
  have body: "record_body old = ?head @ [1] @ ?tail" "record_body new = ?head @ [2] @ ?tail"
    using assms(2) by (simp_all add: record_body_def new completed_state_bytes)
  have len: "length ?head = 12" "length ?tail = 119" "length (record_body new) = 132" "length (record_body old) = 132"
    using length_record_body [OF shape] length_record_body [OF shape'] shape by (simp_all add: record_shaped_def)
  let ?d = "torn_write k (encodeWindowsReplacementRecord crc new) (encodeWindowsReplacementRecord crc old)"
  consider "k \<le> 12" | "13 \<le> k" by linarith
  then show ?thesis
  proof cases
    case 1
    then have "take k (encodeWindowsReplacementRecord crc new) = take k (encodeWindowsReplacementRecord crc old)"
      using len by (simp add: encodeWindowsReplacementRecord_def body)
    then have "?d = encodeWindowsReplacementRecord crc old" by (simp add: torn_write_def)
    with decode record_decode_encode [OF shape] show ?thesis by simp
  next
    case 2
    then have "take (k - 12) ([2] @ ?tail @ ?cn) @ drop (k - 12) ([1] @ ?tail @ ?co) =
        [2] @ take (k - 13) (?tail @ ?cn) @ drop (k - 13) (?tail @ ?co)"
      by (simp add: take_Cons' drop_Cons')
    moreover have "take (k - 13) (?tail @ ?cn) @ drop (k - 13) (?tail @ ?co) =
        ?tail @ take (k - 132) ?cn @ drop (k - 132) ?co"
      using torn_append [of "k - 13" ?tail ?cn ?co] unfolding len(2) by (simp only: diff_diff_left) simp
    moreover have "?d = ?head @ take (k - 12) ([2] @ ?tail @ ?cn) @ drop (k - 12) ([1] @ ?tail @ ?co)"
      unfolding torn_write_def encodeWindowsReplacementRecord_def body using len 2 by simp
    ultimately obtain c where d: "?d = record_body new @ c" and c: "length c = 4" by (auto simp: body)
    have slices: "slice 0 132 ?d = record_body new" "slice 132 136 ?d = c"
      unfolding d slice_def using len c by simp_all
    have "le_get32 (slice 132 136 ?d) = crc (slice 0 132 ?d)"
      using decode unfolding decodeWindowsReplacementRecord_def by (auto split: if_splits)
    then have "c = ?cn" using le_put32_get32 [OF c] slices by simp
    then have "?d = encodeWindowsReplacementRecord crc new" using d by (simp add: encodeWindowsReplacementRecord_def)
    with decode record_decode_encode [OF shape'] show ?thesis by simp
  qed
qed

end
