(* ===== verification/Windows_Replacement.thy ===== *)
theory Windows_Replacement
  imports Replacement_Record
begin

text \<open>
  Replacement of the running executable on Windows and its recovery after a crash
  (\<^verbatim>\<open>internal/update/replace_windows.go\<close>, \<^verbatim>\<open>recovery.go\<close>). The directory of the executable is a map from the five
  names the updater uses to file objects. Every system call can fail, and the process can stop before any
  of them; a write can also stop in the middle. Handles are the objects they hold open.
\<close>

section \<open>Directory and objects\<close>

datatype wname = Target | Backup | RecordFile | MappedLink | Staged

definition all_names :: "wname list" where
  "all_names = [Target, Backup, RecordFile, MappedLink, Staged]"

record win_object =
  wo_Bytes :: bytes
  wo_Binding :: security_binding   \<comment> \<open>of the security descriptor of the object\<close>

record win_fs =
  wf_Name :: "wname \<Rightarrow> file_identity option"
  wf_Object :: "file_identity \<Rightarrow> win_object"

definition links :: "win_fs \<Rightarrow> file_identity \<Rightarrow> nat" where
  "links fs i = length (filter (\<lambda>n. wf_Name fs n = Some i) all_names)"

text \<open>The name through which a held object with one link is renamed.\<close>

definition link_of :: "win_fs \<Rightarrow> file_identity \<Rightarrow> wname option" where
  "link_of fs i = find (\<lambda>n. wf_Name fs n = Some i) all_names"

definition set_name :: "wname \<Rightarrow> file_identity option \<Rightarrow> win_fs \<Rightarrow> win_fs" where
  "set_name n i fs = fs\<lparr>wf_Name := (wf_Name fs)(n := i)\<rparr>"

definition set_object :: "file_identity \<Rightarrow> win_object \<Rightarrow> win_fs \<Rightarrow> win_fs" where
  "set_object i obj fs = fs\<lparr>wf_Object := (wf_Object fs)(i := obj)\<rparr>"

text \<open>
  What the computation uses besides the directory: SHA-256, CRC-32, the identity and the descriptor of the
  next new file, the object that the running process is mapped from, and the descriptor that an object has
  after the one of another was applied to it.
\<close>

record win_env =
  we_sha :: "bytes \<Rightarrow> bytes"
  we_crc :: "bytes \<Rightarrow> uint32"
  we_New :: file_identity
  we_Control :: security_binding
  we_Image :: file_identity
  we_Applied :: "security_binding \<Rightarrow> security_binding"

section \<open>Errors and steps\<close>

text \<open>The wrappers that an error tree contains (\<^verbatim>\<open>errors.As\<close>), and whether the path was not found.\<close>

record update_error =
  ue_NotFound :: bool
  ue_Required :: bool
  ue_Blocked :: bool
  ue_Preserved :: bool

definition plain :: update_error where
  "plain = \<lparr>ue_NotFound = False, ue_Required = False, ue_Blocked = False, ue_Preserved = False\<rparr>"

definition not_found :: update_error where "not_found = plain\<lparr>ue_NotFound := True\<rparr>"

text \<open>\<^verbatim>\<open>errors.Join\<close>\<close>

definition join_errors :: "update_error \<Rightarrow> update_error \<Rightarrow> update_error" where
  "join_errors a b =
     \<lparr>ue_NotFound = ue_NotFound a \<or> ue_NotFound b, ue_Required = ue_Required a \<or> ue_Required b,
      ue_Blocked = ue_Blocked a \<or> ue_Blocked b, ue_Preserved = ue_Preserved a \<or> ue_Preserved b\<rparr>"

definition requireRecovery :: "update_error \<Rightarrow> update_error" where
  "requireRecovery e = e\<lparr>ue_Required := True\<rparr>"

definition preserveCanonical :: "update_error \<Rightarrow> update_error" where
  "preserveCanonical e = e\<lparr>ue_Preserved := True\<rparr>"

definition blockOnRecoveryEvidence :: "update_error \<Rightarrow> update_error" where
  "blockOnRecoveryEvidence e = (if ue_Required e \<or> ue_Preserved e then e else e\<lparr>ue_Blocked := True\<rparr>)"

text \<open>
  The fate of a system call: it works, it fails, or the process stops before it. A write can also stop
  after some bytes, with the process (\<open>Tear\<close>) or with an error (\<open>Short\<close>).
\<close>

datatype fate = Go | Fail | Crash | Tear nat | Short nat

record win_world =
  ww_Fs :: win_fs
  ww_Fates :: "fate list"

datatype 'a outcome = Crashed win_fs | Returned "update_error + 'a" win_world

type_synonym 'a act = "win_world \<Rightarrow> 'a outcome"

definition yield :: "'a \<Rightarrow> 'a act" where "yield x w = Returned (Inr x) w"
definition refuse :: "update_error \<Rightarrow> 'a act" where "refuse e w = Returned (Inl e) w"

definition attempt :: "'a act \<Rightarrow> (update_error + 'a \<Rightarrow> 'b act) \<Rightarrow> 'b act" where
  "attempt m k w = (case m w of Crashed fs \<Rightarrow> Crashed fs | Returned r w1 \<Rightarrow> k r w1)"

definition andThen :: "'a act \<Rightarrow> ('a \<Rightarrow> 'b act) \<Rightarrow> 'b act" where
  "andThen m k = attempt m (\<lambda>r. case r of Inl e \<Rightarrow> refuse e | Inr x \<Rightarrow> k x)"

text \<open>Errors of a step changed by a wrapper, or handled by another step.\<close>

definition orElse :: "'a act \<Rightarrow> (update_error \<Rightarrow> 'a act) \<Rightarrow> 'a act" where
  "orElse m h = attempt m (\<lambda>r. case r of Inl e \<Rightarrow> h e | Inr x \<Rightarrow> yield x)"

definition wrapping :: "(update_error \<Rightarrow> update_error) \<Rightarrow> 'a act \<Rightarrow> 'a act" where
  "wrapping f m = orElse m (\<lambda>e. refuse (f e))"

text \<open>An error that replaces the cause instead of wrapping it.\<close>

definition opaque :: "'a act \<Rightarrow> 'a act" where
  "opaque m = wrapping (\<lambda>_. plain) m"

definition require :: "bool \<Rightarrow> unit act" where
  "require b = (if b then yield () else refuse plain)"

definition next_fate :: "win_world \<Rightarrow> fate" where
  "next_fate w = (case ww_Fates w of [] \<Rightarrow> Go | f # _ \<Rightarrow> f)"

definition spend :: "win_fs \<Rightarrow> win_world \<Rightarrow> win_world" where
  "spend fs w = \<lparr>ww_Fs = fs, ww_Fates = tl (ww_Fates w)\<rparr>"

definition syscall :: "(win_fs \<Rightarrow> update_error + 'a \<times> win_fs) \<Rightarrow> 'a act" where
  "syscall f w =
     (case next_fate w of
        Go \<Rightarrow>
          (case f (ww_Fs w) of
             Inl e \<Rightarrow> Returned (Inl e) (spend (ww_Fs w) w)
           | Inr (x, fs) \<Rightarrow> Returned (Inr x) (spend fs w))
      | Fail \<Rightarrow> Returned (Inl plain) (spend (ww_Fs w) w)
      | Short _ \<Rightarrow> Returned (Inl plain) (spend (ww_Fs w) w)
      | _ \<Rightarrow> Crashed (ww_Fs w))"

definition observe :: "(win_fs \<Rightarrow> update_error + 'a) \<Rightarrow> 'a act" where
  "observe f = syscall (\<lambda>fs. case f fs of Inl e \<Rightarrow> Inl e | Inr x \<Rightarrow> Inr (x, fs))"

definition change :: "(win_fs \<Rightarrow> win_fs) \<Rightarrow> unit act" where
  "change f = syscall (\<lambda>fs. Inr ((), f fs))"

text \<open>A call without effect on the directory: it can only fail. Closing a handle is one.\<close>

definition bare_call :: "unit act" where "bare_call = change id"

abbreviation closeHandle :: "unit act" where "closeHandle \<equiv> bare_call"

text \<open>A deferred close whose error is joined to the result, on success as well or only on failure.\<close>

definition closing :: "bool \<Rightarrow> unit act \<Rightarrow> 'a act \<Rightarrow> 'a act" where
  "closing always close m =
     attempt m (\<lambda>r. attempt close (\<lambda>c. case (r, c) of
        (Inl e, Inl e') \<Rightarrow> refuse (join_errors e e')
      | (Inl e, Inr _) \<Rightarrow> refuse e
      | (Inr x, Inl e') \<Rightarrow> if always then refuse e' else yield x
      | (Inr x, Inr _) \<Rightarrow> yield x))"

section \<open>Inspection\<close>

definition openFile :: "wname \<Rightarrow> file_identity act" where
  "openFile n = observe (\<lambda>fs. case wf_Name fs n of None \<Rightarrow> Inl not_found | Some i \<Rightarrow> Inr i)"

definition inspectHandleObject :: "file_identity \<Rightarrow> nat act" where
  "inspectHandleObject h = observe (\<lambda>fs. Inr (links fs h))"

definition inspectHandle :: "file_identity \<Rightarrow> unit act" where
  "inspectHandle h = andThen (inspectHandleObject h) (\<lambda>n. require (n = 1))"

text \<open>Inspect and close; an error of the inspection wins over one of the close.\<close>

definition inspect_and_close :: "'a act \<Rightarrow> 'a act" where
  "inspect_and_close m =
     attempt m (\<lambda>r. attempt closeHandle (\<lambda>c. case r of Inl e \<Rightarrow> refuse e | Inr x \<Rightarrow>
        (case c of Inl e \<Rightarrow> refuse e | Inr _ \<Rightarrow> yield x)))"

definition inspectPath :: "wname \<Rightarrow> file_identity act" where
  "inspectPath n = andThen (openFile n) (\<lambda>h. inspect_and_close (andThen (inspectHandle h) (\<lambda>_. yield h)))"

definition inspectOptionalPath :: "wname \<Rightarrow> file_identity option act" where
  "inspectOptionalPath n =
     attempt (inspectPath n) (\<lambda>r. case r of
        Inl e \<Rightarrow> if ue_NotFound e then yield None else refuse e
      | Inr i \<Rightarrow> yield (Some i))"

definition digestHandle :: "win_env \<Rightarrow> file_identity \<Rightarrow> bytes act" where
  "digestHandle e h = observe (\<lambda>fs. Inr (we_sha e (wo_Bytes (wf_Object fs h))))"

definition requireHandleDigest :: "win_env \<Rightarrow> file_identity \<Rightarrow> bytes \<Rightarrow> unit act" where
  "requireHandleDigest e h expected = andThen (digestHandle e h) (\<lambda>d. require (d = expected))"

definition requireHandleIdentity :: "file_identity \<Rightarrow> file_identity \<Rightarrow> unit act" where
  "requireHandleIdentity h expected = andThen (inspectHandle h) (\<lambda>_. require (h = expected))"

definition requireHandleObjectIdentity :: "file_identity \<Rightarrow> file_identity \<Rightarrow> nat \<Rightarrow> unit act" where
  "requireHandleObjectIdentity h expected n =
     andThen (inspectHandleObject h) (\<lambda>k. require (h = expected \<and> k = n))"

definition requirePathIdentity :: "wname \<Rightarrow> file_identity \<Rightarrow> unit act" where
  "requirePathIdentity p expected = andThen (inspectPath p) (\<lambda>i. require (i = expected))"

definition requirePathObjectIdentity :: "wname \<Rightarrow> file_identity \<Rightarrow> nat \<Rightarrow> unit act" where
  "requirePathObjectIdentity p expected n =
     andThen (openFile p) (\<lambda>h. andThen (inspect_and_close (inspectHandleObject h)) (\<lambda>k. require (h = expected \<and> k = n)))"

definition requirePathAbsent :: "wname \<Rightarrow> unit act" where
  "requirePathAbsent p = andThen (inspectOptionalPath p) (\<lambda>x. require (x = None))"

section \<open>Moving and linking\<close>

definition renameHandle :: "file_identity \<Rightarrow> wname \<Rightarrow> bool \<Rightarrow> unit act" where
  "renameHandle h dest overwrite =
     syscall (\<lambda>fs.
       if \<not> overwrite \<and> wf_Name fs dest \<noteq> None then Inl plain
       else case link_of fs h of
         None \<Rightarrow> Inl plain
       | Some n \<Rightarrow> Inr ((), set_name dest (Some h) (set_name n None fs)))"

definition linkHandle :: "file_identity \<Rightarrow> wname \<Rightarrow> unit act" where
  "linkHandle h dest = change (set_name dest (Some h))"

text \<open>Removal of the link through which the object was opened.\<close>

definition unlinkHandle :: "wname \<Rightarrow> unit act" where
  "unlinkHandle n = change (set_name n None)"

definition requireHandleFinalPath :: "file_identity \<Rightarrow> wname \<Rightarrow> unit act" where
  "requireHandleFinalPath h dest = observe (\<lambda>fs. if wf_Name fs dest = Some h then Inr () else Inl plain)"

definition renameExpectedHandle :: "file_identity \<Rightarrow> wname \<Rightarrow> file_identity \<Rightarrow> bool \<Rightarrow> unit act" where
  "renameExpectedHandle h dest expected overwrite =
     andThen (requireHandleIdentity h expected) (\<lambda>_.
     andThen bare_call (\<lambda>_.   \<comment> \<open>the canonical form of the destination\<close>
     andThen (if overwrite then yield () else requirePathAbsent dest) (\<lambda>_.
     andThen (renameHandle h dest overwrite) (\<lambda>_.
     andThen (requireHandleIdentity h expected) (\<lambda>_.
     requireHandleFinalPath h dest)))))"

section \<open>Security binding\<close>

definition beginVerifier :: "security_binding \<Rightarrow> unit act" where
  "beginVerifier b = andThen (require (validateWindowsSecurityBinding b)) (\<lambda>_. bare_call)"

definition verifyBinding :: "security_binding \<Rightarrow> file_identity \<Rightarrow> unit act" where
  "verifyBinding b h =
     andThen (observe (\<lambda>fs. Inr (wo_Binding (wf_Object fs h)))) (\<lambda>got.
     closing True bare_call (require (compareWindowsSecurityBindings b got)))"

definition verifyRollbackBinding :: "file_identity \<Rightarrow> security_binding \<Rightarrow> unit act" where
  "verifyRollbackBinding h b = andThen (beginVerifier b) (\<lambda>_. closing True bare_call (verifyBinding b h))"

section \<open>The ownership record\<close>

text \<open>\<^verbatim>\<open>WriteFile\<close> at the beginning of the file.\<close>

definition put_bytes :: "file_identity \<Rightarrow> bytes \<Rightarrow> win_fs \<Rightarrow> win_fs" where
  "put_bytes h b fs = set_object h ((wf_Object fs h)\<lparr>wo_Bytes := b\<rparr>) fs"

definition writeFile :: "file_identity \<Rightarrow> bytes \<Rightarrow> unit act" where
  "writeFile h data w =
     (let fs = ww_Fs w; torn = (\<lambda>k. put_bytes h (torn_write k data (wo_Bytes (wf_Object fs h))) fs) in
      case next_fate w of
        Go \<Rightarrow> Returned (Inr ()) (spend (torn (length data)) w)
      | Fail \<Rightarrow> Returned (Inl plain) (spend fs w)
      | Crash \<Rightarrow> Crashed fs
      | Tear k \<Rightarrow> Crashed (torn k)
      | Short k \<Rightarrow> Returned (Inl plain) (spend (torn k) w))"

definition setEndOfFile :: "file_identity \<Rightarrow> nat \<Rightarrow> unit act" where
  "setEndOfFile h n = change (\<lambda>fs. put_bytes h (take n (wo_Bytes (wf_Object fs h))) fs)"

definition write_record :: "win_env \<Rightarrow> file_identity \<Rightarrow> replacement_record \<Rightarrow> unit act" where
  "write_record e h r =
     (let data = encodeWindowsReplacementRecord (we_crc e) r in
      andThen bare_call (\<lambda>_.
      andThen (writeFile h data) (\<lambda>_.
      andThen (setEndOfFile h (length data)) (\<lambda>_. bare_call))))"

definition remove_record :: "unit act" where
  "remove_record = unlinkHandle RecordFile"

definition validate_control :: "win_env \<Rightarrow> file_identity \<Rightarrow> unit act" where
  "validate_control e h = observe (\<lambda>fs. if wo_Binding (wf_Object fs h) = we_Control e then Inr () else Inl plain)"

text \<open>An error of a step, followed by a clean-up whose errors are joined or dropped.\<close>

definition also_do :: "unit act \<Rightarrow> update_error \<Rightarrow> update_error act" where
  "also_do m e = attempt m (\<lambda>r. yield (case r of Inl e' \<Rightarrow> join_errors e e' | Inr _ \<Rightarrow> e))"

definition create_new :: "file_identity \<Rightarrow> security_binding \<Rightarrow> unit act" where
  "create_new i b =
     syscall (\<lambda>fs. if wf_Name fs RecordFile \<noteq> None then Inl plain
        else Inr ((), set_object i \<lparr>wo_Bytes = [], wo_Binding = b\<rparr> (set_name RecordFile (Some i) fs)))"

definition createWindowsReplacementRecord :: "win_env \<Rightarrow> replacement_record \<Rightarrow> file_identity act" where
  "createWindowsReplacementRecord e r =
     andThen (require (validateWindowsSecurityBinding (rr_Binding r))) (\<lambda>_.
     andThen (requirePathAbsent RecordFile) (\<lambda>_.
     andThen (create_new (we_New e) (we_Control e)) (\<lambda>_.
     andThen (orElse (andThen (inspectHandle (we_New e)) (\<lambda>_. validate_control e (we_New e)))
                     (\<lambda>err. attempt closeHandle (\<lambda>_. refuse err))) (\<lambda>_.
     andThen (orElse (write_record e (we_New e) r)
                     (\<lambda>err. andThen (also_do remove_record err) (\<lambda>err1. andThen (also_do closeHandle err1) refuse))) (\<lambda>_.
     yield (we_New e))))))"

definition markCompleted :: "win_env \<Rightarrow> file_identity \<Rightarrow> replacement_record \<Rightarrow> unit act" where
  "markCompleted e h r = write_record e h (r\<lparr>rr_State := recordCompleted\<rparr>)"

definition read_record :: "win_env \<Rightarrow> file_identity \<Rightarrow> replacement_record act" where
  "read_record e h =
     observe (\<lambda>fs. case decodeWindowsReplacementRecord (we_crc e) (take (recordSize + 1) (wo_Bytes (wf_Object fs h))) of
        Inl _ \<Rightarrow> Inl plain | Inr r \<Rightarrow> Inr r)"

definition openWindowsReplacementRecord :: "win_env \<Rightarrow> replacement_record act" where
  "openWindowsReplacementRecord e =
     andThen (openFile RecordFile) (\<lambda>h.
     orElse (andThen (inspectHandle h) (\<lambda>_. andThen (validate_control e h) (\<lambda>_. read_record e h)))
            (\<lambda>err. attempt closeHandle (\<lambda>_. refuse err)))"

section \<open>Rollback of a failed replacement\<close>

text \<open>The security state: the held original and the held verified replacement, and the captured descriptor.\<close>

record security_state =
  ss_Target :: file_identity
  ss_Staged :: file_identity
  ss_Source :: security_binding

definition retainWindowsRollbackAuthenticationEvidence :: "security_state \<Rightarrow> update_error \<Rightarrow> unit act" where
  "retainWindowsRollbackAuthenticationEvidence s authErr =
     attempt
       (andThen (requirePathAbsent Backup) (\<lambda>_.
        andThen (renameHandle (ss_Target s) Backup False) (\<lambda>_.
        andThen (requireHandleIdentity (ss_Target s) (ss_Target s)) (\<lambda>_.
        requirePathIdentity Backup (ss_Target s)))))
       (\<lambda>r. case r of Inl e \<Rightarrow> refuse (blockOnRecoveryEvidence (join_errors authErr e))
             | Inr _ \<Rightarrow> refuse (blockOnRecoveryEvidence authErr))"

definition restored_original :: "win_env \<Rightarrow> security_state \<Rightarrow> bytes \<Rightarrow> security_binding \<Rightarrow> unit act" where
  "restored_original e s digest b =
     andThen (wrapping requireRecovery
       (andThen (renameHandle (ss_Target s) Target True) (\<lambda>_.
        andThen (requireHandleIdentity (ss_Target s) (ss_Target s)) (\<lambda>_.
        requirePathIdentity Target (ss_Target s))))) (\<lambda>_.
     orElse (andThen (verifyRollbackBinding (ss_Target s) b) (\<lambda>_. requireHandleDigest e (ss_Target s) digest))
       (retainWindowsRollbackAuthenticationEvidence s))"

text \<open>Is the held original already canonical? The inspection of the current target decides.\<close>

definition canonical_is_original :: "security_state \<Rightarrow> bool act" where
  "canonical_is_original s =
     attempt (openFile Target) (\<lambda>r. case r of
        Inl e \<Rightarrow> if ue_NotFound e then yield False else refuse (requireRecovery e)
      | Inr current \<Rightarrow>
          wrapping requireRecovery
            (andThen (inspect_and_close (inspectHandle current)) (\<lambda>_. yield (current = ss_Target s))))"

definition rollbackWindowsReplacement :: "win_env \<Rightarrow> security_state \<Rightarrow> bytes \<Rightarrow> security_binding \<Rightarrow> unit act" where
  "rollbackWindowsReplacement e s digest b =
     andThen (requireHandleIdentity (ss_Target s) (ss_Target s)) (\<lambda>_.
     andThen (requireHandleDigest e (ss_Target s) digest) (\<lambda>_.
     andThen (verifyRollbackBinding (ss_Target s) b) (\<lambda>_.
     andThen (canonical_is_original s) (\<lambda>same.
     if same then yield ()
     else andThen (wrapping requireRecovery closeHandle) (\<lambda>_. restored_original e s digest b)))))"

section \<open>Replacement\<close>

definition acquireWindowsReplacementLock :: "unit act" where
  "acquireWindowsReplacementLock = andThen bare_call (\<lambda>_. orElse bare_call (\<lambda>err. attempt closeHandle (\<lambda>_. refuse err)))"

definition apply_security :: "win_env \<Rightarrow> security_state \<Rightarrow> unit act" where
  "apply_security e s =
     change (\<lambda>fs. set_object (ss_Staged s)
       ((wf_Object fs (ss_Staged s))\<lparr>wo_Binding := we_Applied e (ss_Source s)\<rparr>) fs)"

definition verify_security :: "security_state \<Rightarrow> unit act" where
  "verify_security s =
     andThen (observe (\<lambda>fs. Inr (wo_Binding (wf_Object fs (ss_Staged s))))) (\<lambda>got.
     closing True bare_call (require (compareWindowsSecurityBindings (ss_Source s) got)))"

definition prepareWindowsReplacementSecurity :: "win_env \<Rightarrow> security_state act" where
  "prepareWindowsReplacementSecurity e =
     orElse
       (andThen (openFile Target) (\<lambda>t.
        andThen (inspectHandle t) (\<lambda>_.
        andThen (observe (\<lambda>fs. Inr (wo_Binding (wf_Object fs t)))) (\<lambda>source.
        andThen (openFile Staged) (\<lambda>st.
        andThen (inspectHandle st) (\<lambda>_.
        andThen (require (t \<noteq> st)) (\<lambda>_.
        andThen bare_call (\<lambda>_.   \<comment> \<open>\<open>prepareOrdinaryOwnerAndGroup\<close>\<close>
        (let s = \<lparr>ss_Target = t, ss_Staged = st, ss_Source = source\<rparr> in
         andThen (apply_security e s) (\<lambda>_. andThen (verify_security s) (\<lambda>_. yield s)))))))))))
       (\<lambda>err. andThen (also_do closeHandle err) refuse)"

text \<open>\<open>failBeforeRecord\<close>, \<open>failBeforeBackup\<close>, \<open>failAfterBackup\<close>\<close>

definition failBeforeRecord :: "update_error \<Rightarrow> 'a act" where
  "failBeforeRecord err = andThen (also_do closeHandle err) refuse"

definition failBeforeBackup :: "update_error \<Rightarrow> 'a act" where
  "failBeforeBackup err =
     andThen (also_do remove_record err) (\<lambda>e1. andThen (also_do closeHandle e1) (\<lambda>e2. andThen (also_do closeHandle e2) refuse))"

definition failAfterBackup :: "win_env \<Rightarrow> security_state \<Rightarrow> replacement_record \<Rightarrow> update_error \<Rightarrow> 'a act" where
  "failAfterBackup e s r err =
     attempt (rollbackWindowsReplacement e s (rr_RollbackDigest r) (rr_Binding r)) (\<lambda>rollback.
     andThen (case rollback of Inr _ \<Rightarrow> also_do remove_record err | Inl _ \<Rightarrow> yield err) (\<lambda>e1.
     andThen (also_do closeHandle e1) (\<lambda>e2.
     andThen (also_do closeHandle e2) (\<lambda>e3.
     case rollback of
       Inl re \<Rightarrow> refuse (if ue_Required re then requireRecovery e3 else blockOnRecoveryEvidence e3)
     | Inr _ \<Rightarrow> refuse e3))))"

definition preserve_running :: "win_env \<Rightarrow> security_state \<Rightarrow> replacement_record \<Rightarrow> unit act" where
  "preserve_running e s r =
     orElse (renameExpectedHandle (ss_Target s) Backup (ss_Target s) False)
       (\<lambda>err. attempt (requirePathIdentity Target (ss_Target s)) (\<lambda>t. case t of
           Inr _ \<Rightarrow> failBeforeBackup err
         | Inl _ \<Rightarrow> failAfterBackup e s r err))"

definition install_replacement :: "win_env \<Rightarrow> security_state \<Rightarrow> file_identity \<Rightarrow> replacement_record \<Rightarrow> unit act" where
  "install_replacement e s h r =
     orElse
       (andThen (renameExpectedHandle (ss_Staged s) Target (ss_Staged s) True) (\<lambda>_.
        andThen (requirePathIdentity Backup (ss_Target s)) (\<lambda>_.
        andThen (apply_security e s) (\<lambda>_.
        andThen (verify_security s) (\<lambda>_.
        andThen (requirePathIdentity Target (ss_Staged s)) (\<lambda>_.
        andThen bare_call (\<lambda>_.   \<comment> \<open>the privileges are restored\<close>
        markCompleted e h r)))))))
       (failAfterBackup e s r)"

section \<open>Recovery of a prepared replacement\<close>

definition cleanupDisplacedMapped :: "file_identity \<Rightarrow> unit act" where
  "cleanupDisplacedMapped expected =
     attempt (openFile MappedLink) (\<lambda>r. case r of
        Inl err \<Rightarrow> if ue_NotFound err then yield () else refuse err
      | Inr h \<Rightarrow>
          andThen
            (orElse
              (andThen (requireHandleObjectIdentity h expected 1) (\<lambda>_.
               andThen (unlinkHandle MappedLink) (\<lambda>_. closeHandle)))
              (\<lambda>err. andThen (also_do closeHandle err) refuse))
            (\<lambda>_. requirePathAbsent MappedLink))"

text \<open>The last steps of a recovery: the displaced image, the verifier, the record.\<close>

definition finish_recovery :: "replacement_record \<Rightarrow> unit act" where
  "finish_recovery r =
     wrapping preserveCanonical
       (andThen (cleanupDisplacedMapped (rr_Installed r)) (\<lambda>_.
        andThen bare_call (\<lambda>_.
        andThen remove_record (\<lambda>_. closeHandle))))"

definition completePreparedAtCanonical :: "win_env \<Rightarrow> replacement_record \<Rightarrow> unit act" where
  "completePreparedAtCanonical e r =
     andThen (opaque (openFile Target)) (\<lambda>h. closing True closeHandle
       (andThen (inspectHandle h) (\<lambda>_.
        andThen (require (h = rr_Original r)) (\<lambda>_.
        andThen (requireHandleDigest e h (rr_RollbackDigest r)) (\<lambda>_.
        andThen (verifyBinding (rr_Binding r) h) (\<lambda>_.
        finish_recovery r))))))"

text \<open>
  The installed image that must not stay canonical is the one this process runs: it is moved aside. A
  second link left by an interrupted attempt is removed first.
\<close>

definition drop_second_link :: "file_identity \<Rightarrow> unit act" where
  "drop_second_link t =
     andThen (requirePathObjectIdentity MappedLink t 2) (\<lambda>_.
     andThen (openFile MappedLink) (\<lambda>m.
     andThen (orElse
       (andThen (requireHandleObjectIdentity m t 2) (\<lambda>_. andThen (unlinkHandle MappedLink) (\<lambda>_. closeHandle)))
       (\<lambda>err. andThen (also_do closeHandle err) refuse)) (\<lambda>_.
     requirePathAbsent MappedLink)))"

definition restoreMapped :: "file_identity \<Rightarrow> file_identity \<Rightarrow> nat \<Rightarrow> unit act" where
  "restoreMapped t b targetLinks =
     orElse
       (andThen (if targetLinks = 1 then requirePathAbsent MappedLink
                 else if targetLinks = 2 then drop_second_link t else refuse plain) (\<lambda>_.
        andThen (requireHandleObjectIdentity t t 1) (\<lambda>_.
        andThen (requirePathObjectIdentity Target t 1) (\<lambda>_.
        andThen (renameHandle t MappedLink False) (\<lambda>_.
        andThen (requireHandleObjectIdentity t t 1) (\<lambda>_.
        andThen (requirePathObjectIdentity MappedLink t 1) (\<lambda>_.
        andThen (requirePathAbsent Target) (\<lambda>_.
        andThen (renameHandle b Target True) (\<lambda>_. closeHandle)))))))))
       (\<lambda>err. andThen (also_do closeHandle err) refuse)"

text \<open>
  The original is linked at the canonical name: the rollback link is removed and its handle closed. The
  result \<open>True\<close> says that the recovery goes on at the canonical name.
\<close>

definition completeLinkedRecovery :: "bool act" where
  "completeLinkedRecovery =
     andThen (wrapping preserveCanonical (andThen (unlinkHandle Backup) (\<lambda>_. closeHandle))) (\<lambda>_. yield True)"

text \<open>The checks on the rollback image, and its number of links.\<close>

definition authenticate_backup :: "win_env \<Rightarrow> replacement_record \<Rightarrow> file_identity \<Rightarrow> nat act" where
  "authenticate_backup e r b =
     andThen (inspectHandleObject b) (\<lambda>n.
     andThen (require (b = rr_Original r)) (\<lambda>_.
     andThen (require (n = 1 \<or> n = 2)) (\<lambda>_.
     andThen (requireHandleDigest e b (rr_RollbackDigest r)) (\<lambda>_.
     andThen (verifyBinding (rr_Binding r) b) (\<lambda>_. yield n)))))"

text \<open>\<open>displaced\<close>: the image of this process was moved aside and still has to be removed by a later start.\<close>

definition authenticate_restored :: "win_env \<Rightarrow> replacement_record \<Rightarrow> file_identity \<Rightarrow> bool \<Rightarrow> bool act" where
  "authenticate_restored e r b displaced =
     andThen (wrapping requireRecovery
       (andThen (requireHandleIdentity b (rr_Original r)) (\<lambda>_.
        andThen (requirePathIdentity Target (rr_Original r)) (\<lambda>_.
        andThen (verifyBinding (rr_Binding r) b) (\<lambda>_.
        requireHandleDigest e b (rr_RollbackDigest r)))))) (\<lambda>_.
     if displaced then refuse (requireRecovery plain) else andThen (finish_recovery r) (\<lambda>_. yield False))"

definition replace_by_link :: "replacement_record \<Rightarrow> file_identity \<Rightarrow> bool act" where
  "replace_by_link r b =
     andThen (wrapping requireRecovery
       (andThen (orElse (linkHandle b Target) (\<lambda>err. andThen (also_do closeHandle err) refuse)) (\<lambda>_.
        andThen closeHandle (\<lambda>_.
        andThen (requireHandleObjectIdentity b (rr_Original r) 2) (\<lambda>_.
        requirePathObjectIdentity Target (rr_Original r) 2)))))
       (\<lambda>_. completeLinkedRecovery)"

definition restore_over_target :: "win_env \<Rightarrow> replacement_record \<Rightarrow> file_identity \<Rightarrow> file_identity \<Rightarrow> bool act" where
  "restore_over_target e r b t =
     andThen (orElse (inspectHandleObject t) (\<lambda>err. attempt closeHandle (\<lambda>_. refuse (requireRecovery err)))) (\<lambda>n.
     andThen (orElse bare_call (\<lambda>err. attempt closeHandle (\<lambda>_. refuse (requireRecovery err)))) (\<lambda>_.
     if t = we_Image e then
       andThen (wrapping requireRecovery (restoreMapped t b n)) (\<lambda>_. authenticate_restored e r b True)
     else if n \<noteq> 1 then attempt closeHandle (\<lambda>_. refuse (requireRecovery plain))
     else replace_by_link r b))"

definition recover_from_backup :: "win_env \<Rightarrow> replacement_record \<Rightarrow> file_identity \<Rightarrow> bool act" where
  "recover_from_backup e r b =
     andThen (authenticate_backup e r b) (\<lambda>n.
     if n = 2 then
       andThen (opaque (requirePathObjectIdentity Target (rr_Original r) 2)) (\<lambda>_. completeLinkedRecovery)
     else attempt (openFile Target) (\<lambda>t. case t of
        Inl err \<Rightarrow>
          if ue_NotFound err then
            andThen (wrapping requireRecovery (renameHandle b Target True)) (\<lambda>_. authenticate_restored e r b False)
          else refuse (requireRecovery err)
      | Inr target \<Rightarrow> restore_over_target e r b target))"

text \<open>
  The verifier is closed before every success, so the deferred close can only add to an error. The handle
  of the rollback image is still open unless the recovery goes on at the canonical name.
\<close>

definition recoverPreparedWindowsReplacement :: "win_env \<Rightarrow> replacement_record \<Rightarrow> unit act" where
  "recoverPreparedWindowsReplacement e r =
     andThen (beginVerifier (rr_Binding r)) (\<lambda>_. closing False bare_call
       (attempt (openFile Backup) (\<lambda>b. case b of
          Inl err \<Rightarrow> if ue_NotFound err then completePreparedAtCanonical e r else refuse err
        | Inr backup \<Rightarrow>
            attempt (recover_from_backup e r backup) (\<lambda>res. case res of
               Inl err \<Rightarrow> closing True closeHandle (refuse err)
             | Inr linked \<Rightarrow> if linked then completePreparedAtCanonical e r else closing True closeHandle (yield ())))))"

section \<open>Clean-up at start\<close>

text \<open>After the checks the result is success whatever the deletions give.\<close>

definition discard_backup :: "unit act" where
  "discard_backup =
     orElse (andThen (unlinkHandle Backup) (\<lambda>_. andThen closeHandle (\<lambda>_. remove_record))) (\<lambda>_. yield ())"

definition cleanup_completed :: "win_env \<Rightarrow> replacement_record \<Rightarrow> unit act" where
  "cleanup_completed e r =
     andThen (opaque (openFile Target)) (\<lambda>t. closing False closeHandle
       (andThen (inspectHandle t) (\<lambda>_.
        andThen (require (t = rr_Installed r)) (\<lambda>_.
        attempt (openFile Backup) (\<lambda>b. case b of
          Inl err \<Rightarrow> if ue_NotFound err then orElse remove_record (\<lambda>_. yield ()) else refuse err
        | Inr backup \<Rightarrow> closing False closeHandle
            (andThen (inspectHandle backup) (\<lambda>_.
             andThen (require (backup = rr_Original r)) (\<lambda>_.
             andThen (requireHandleDigest e backup (rr_RollbackDigest r)) (\<lambda>_.
             discard_backup)))))))))"

definition cleanupCompletedWindowsRollbackUnderLock :: "win_env \<Rightarrow> unit act" where
  "cleanupCompletedWindowsRollbackUnderLock e =
     andThen (inspectOptionalPath RecordFile) (\<lambda>rec.
     if rec = None then
       andThen (inspectOptionalPath Backup) (\<lambda>b. require (b = None))
     else andThen (openWindowsReplacementRecord e) (\<lambda>r. closing False closeHandle
       (if rr_State r \<noteq> recordCompleted then recoverPreparedWindowsReplacement e r
        else cleanup_completed e r)))"

definition windowsReplacementRecoveryRequired :: "bool act" where
  "windowsReplacementRecoveryRequired =
     andThen (inspectOptionalPath RecordFile) (\<lambda>r.
     if r \<noteq> None then yield True
     else andThen (inspectOptionalPath Backup) (\<lambda>b. yield (b \<noteq> None)))"

definition cleanupPreviousExecutable :: "win_env \<Rightarrow> unit act" where
  "cleanupPreviousExecutable e =
     wrapping blockOnRecoveryEvidence
       (andThen windowsReplacementRecoveryRequired (\<lambda>needed.
        if \<not> needed then yield ()
        else andThen acquireWindowsReplacementLock (\<lambda>_.
          closing False closeHandle (cleanupCompletedWindowsRollbackUnderLock e))))"

section \<open>The whole replacement\<close>

definition new_record :: "security_state \<Rightarrow> bytes \<Rightarrow> security_binding \<Rightarrow> replacement_record" where
  "new_record s digest b =
     \<lparr>rr_State = recordPrepared, rr_Original = ss_Target s, rr_Installed = ss_Staged s,
      rr_RollbackDigest = digest, rr_Binding = b\<rparr>"

definition replace_recorded :: "win_env \<Rightarrow> security_state \<Rightarrow> replacement_record \<Rightarrow> unit act" where
  "replace_recorded e s r =
     andThen (orElse (createWindowsReplacementRecord e r) failBeforeRecord) (\<lambda>h.
     andThen (preserve_running e s r) (\<lambda>_.
     andThen (install_replacement e s h r) (\<lambda>_.
     attempt closeHandle (\<lambda>_. attempt closeHandle (\<lambda>_. yield ())))))"

definition replace_under_lock :: "win_env \<Rightarrow> bytes \<Rightarrow> unit act" where
  "replace_under_lock e expected =
     andThen (wrapping blockOnRecoveryEvidence (cleanupCompletedWindowsRollbackUnderLock e)) (\<lambda>_.
     andThen (prepareWindowsReplacementSecurity e) (\<lambda>s.
     andThen (orElse (requireHandleDigest e (ss_Staged s) expected) failBeforeRecord) (\<lambda>_.
     andThen (orElse (digestHandle e (ss_Target s)) failBeforeRecord) (\<lambda>digest.
     andThen (orElse bare_call failBeforeRecord) (\<lambda>_.   \<comment> \<open>the binding of the captured descriptor\<close>
     replace_recorded e s (new_record s digest (ss_Source s)))))))"

definition replaceExecutable :: "win_env \<Rightarrow> bytes \<Rightarrow> unit act" where
  "replaceExecutable e expected =
     andThen acquireWindowsReplacementLock (\<lambda>_. closing False closeHandle (replace_under_lock e expected))"

end
