(* ===== verification/Windows_Recovery.thy ===== *)
theory Windows_Recovery
  imports Windows_Replacement
begin

text \<open>
  Crash safety of the executable replacement: whatever system call fails or wherever the process stops, in the
  replacement or in any later recovery, the original or the committed replacement stays in place and authentic.
\<close>

lemma error_flags [simp]: "\<not> ue_NotFound plain" "ue_NotFound not_found"
  by (simp_all add: plain_def not_found_def)

section \<open>Safety of a computation\<close>

text \<open>
  \<open>safe I m Q fs\<close>: started in \<open>fs\<close> under any fates, \<open>m\<close> stops only in directories with \<open>I\<close>, and its results
  satisfy \<open>Q\<close>.
\<close>

definition safe :: "(win_fs \<Rightarrow> bool) \<Rightarrow> 'a act \<Rightarrow> (update_error + 'a \<Rightarrow> win_fs \<Rightarrow> bool) \<Rightarrow> win_fs \<Rightarrow> bool" where
  "safe I m Q fs \<longleftrightarrow>
     (\<forall>fates. case m \<lparr>ww_Fs = fs, ww_Fates = fates\<rparr> of Crashed fs' \<Rightarrow> I fs' | Returned r w \<Rightarrow> Q r (ww_Fs w))"

lemma safeD_crash: "safe I m Q (ww_Fs w) \<Longrightarrow> m w = Crashed fs \<Longrightarrow> I fs"
  by (cases w) (fastforce simp: safe_def dest: spec [of _ "ww_Fates w"])

lemma safeD_return: "safe I m Q (ww_Fs w) \<Longrightarrow> m w = Returned r w' \<Longrightarrow> Q r (ww_Fs w')"
  by (cases w) (fastforce simp: safe_def dest: spec [of _ "ww_Fates w"])

lemma safe_yield: "Q (Inr x) fs \<Longrightarrow> safe I (yield x) Q fs"
  by (simp add: safe_def yield_def)

lemma safe_refuse: "Q (Inl e) fs \<Longrightarrow> safe I (refuse e) Q fs"
  by (simp add: safe_def refuse_def)

lemma safe_attempt:
  assumes "safe I m (\<lambda>r s. safe I (k r) Q s) fs"
  shows "safe I (attempt m k) Q fs"
  unfolding safe_def
proof
  fix fates
  let ?w = "\<lparr>ww_Fs = fs, ww_Fates = fates\<rparr>"
  show "case attempt m k ?w of Crashed fs' \<Rightarrow> I fs' | Returned r w \<Rightarrow> Q r (ww_Fs w)"
  proof (cases "m ?w")
    case (Crashed fs')
    then show ?thesis using safeD_crash [of I m _ ?w] assms by (simp add: attempt_def)
  next
    case (Returned r w)
    then have next_safe: "safe I (k r) Q (ww_Fs w)"
      using safeD_return [of I m "\<lambda>r s. safe I (k r) Q s" ?w r w] assms by simp
    show ?thesis
      using Returned safeD_crash [OF next_safe] safeD_return [OF next_safe]
      by (simp add: attempt_def split: outcome.split)
  qed
qed

lemma safe_mono: "safe I m Q fs \<Longrightarrow> (\<And>r s. Q r s \<Longrightarrow> Q' r s) \<Longrightarrow> safe I m Q' fs"
  by (fastforce simp: safe_def split: outcome.splits)

lemma safe_andThen:
  "safe I m (\<lambda>r s. case r of Inl e \<Rightarrow> Q (Inl e) s | Inr x \<Rightarrow> safe I (k x) Q s) fs \<Longrightarrow> safe I (andThen m k) Q fs"
  unfolding andThen_def
  by (rule safe_attempt, erule safe_mono) (auto intro: safe_refuse split: sum.splits)

lemma safe_orElse:
  "safe I m (\<lambda>r s. case r of Inl e \<Rightarrow> safe I (h e) Q s | Inr x \<Rightarrow> Q (Inr x) s) fs \<Longrightarrow> safe I (orElse m h) Q fs"
  unfolding orElse_def
  by (rule safe_attempt, erule safe_mono) (auto intro: safe_yield split: sum.splits)

lemma safe_wrapping:
  "safe I m (\<lambda>r s. case r of Inl e \<Rightarrow> Q (Inl (f e)) s | Inr x \<Rightarrow> Q (Inr x) s) fs \<Longrightarrow> safe I (wrapping f m) Q fs"
  unfolding wrapping_def
  by (rule safe_orElse, erule safe_mono) (auto intro: safe_refuse split: sum.splits)

lemma safe_opaque:
  "safe I m (\<lambda>r s. case r of Inl e \<Rightarrow> Q (Inl plain) s | Inr x \<Rightarrow> Q (Inr x) s) fs \<Longrightarrow> safe I (opaque m) Q fs"
  unfolding opaque_def by (rule safe_wrapping)

lemma safe_require: "(b \<Longrightarrow> Q (Inr ()) fs) \<Longrightarrow> (\<not> b \<Longrightarrow> Q (Inl plain) fs) \<Longrightarrow> safe I (require b) Q fs"
  by (simp add: require_def safe_yield safe_refuse)

lemma safe_syscall:
  "I fs \<Longrightarrow> Q (Inl plain) fs \<Longrightarrow> (\<And>e. f fs = Inl e \<Longrightarrow> Q (Inl e) fs) \<Longrightarrow>
   (\<And>x s. f fs = Inr (x, s) \<Longrightarrow> Q (Inr x) s) \<Longrightarrow> safe I (syscall f) Q fs"
  by (auto simp: safe_def syscall_def spend_def split: fate.split sum.split)

lemma safe_observe:
  "I fs \<Longrightarrow> Q (Inl plain) fs \<Longrightarrow> (\<And>e. f fs = Inl e \<Longrightarrow> Q (Inl e) fs) \<Longrightarrow>
   (\<And>x. f fs = Inr x \<Longrightarrow> Q (Inr x) fs) \<Longrightarrow> safe I (observe f) Q fs"
  unfolding observe_def by (rule safe_syscall) (auto split: sum.splits)

lemma safe_change: "I fs \<Longrightarrow> Q (Inl plain) fs \<Longrightarrow> Q (Inr ()) (f fs) \<Longrightarrow> safe I (change f) Q fs"
  unfolding change_def by (rule safe_syscall) auto

lemma safe_bare: "I fs \<Longrightarrow> Q (Inl plain) fs \<Longrightarrow> Q (Inr ()) fs \<Longrightarrow> safe I bare_call Q fs"
  unfolding bare_call_def by (rule safe_change) auto

lemmas safe_intros =
  safe_yield safe_refuse safe_attempt safe_andThen safe_orElse safe_wrapping safe_opaque safe_require safe_bare

text \<open>
  Calls that leave the directory alone. An error says nothing, except that an absent path was found absent.
\<close>

lemma safe_openFile:
  "I fs \<Longrightarrow> (\<And>e. (ue_NotFound e \<longrightarrow> wf_Name fs n = None) \<Longrightarrow> Q (Inl e) fs) \<Longrightarrow>
   (\<And>i. wf_Name fs n = Some i \<Longrightarrow> Q (Inr i) fs) \<Longrightarrow> safe I (openFile n) Q fs"
  unfolding openFile_def by (rule safe_observe) (auto split: option.splits)

lemma safe_inspectHandleObject:
  "I fs \<Longrightarrow> Q (Inl plain) fs \<Longrightarrow> Q (Inr (links fs h)) fs \<Longrightarrow> safe I (inspectHandleObject h) Q fs"
  unfolding inspectHandleObject_def by (rule safe_observe) auto

lemma safe_inspectHandle:
  "I fs \<Longrightarrow> Q (Inl plain) fs \<Longrightarrow> (links fs h = 1 \<Longrightarrow> Q (Inr ()) fs) \<Longrightarrow> safe I (inspectHandle h) Q fs"
  unfolding inspectHandle_def by (auto intro!: safe_intros safe_inspectHandleObject)

lemma safe_inspect_and_close:
  assumes "safe I m (\<lambda>r s. I s \<and> (case r of Inl e \<Rightarrow> Q (Inl e) s | Inr x \<Rightarrow> Q (Inl plain) s \<and> Q (Inr x) s)) fs"
  shows "safe I (inspect_and_close m) Q fs"
  unfolding inspect_and_close_def
  by (rule safe_attempt, rule safe_mono [OF assms]) (auto intro!: safe_intros split: sum.splits)

lemma safe_inspectPath:
  "I fs \<Longrightarrow> (\<And>e. (ue_NotFound e \<longrightarrow> wf_Name fs n = None) \<Longrightarrow> Q (Inl e) fs) \<Longrightarrow>
   (\<And>i. wf_Name fs n = Some i \<Longrightarrow> links fs i = 1 \<Longrightarrow> Q (Inr i) fs) \<Longrightarrow> safe I (inspectPath n) Q fs"
  unfolding inspectPath_def
  by (auto intro!: safe_intros safe_openFile safe_inspect_and_close safe_inspectHandle)

lemma safe_inspectOptionalPath:
  "I fs \<Longrightarrow> (\<And>e. Q (Inl e) fs) \<Longrightarrow> (wf_Name fs n = None \<Longrightarrow> Q (Inr None) fs) \<Longrightarrow>
   (\<And>i. wf_Name fs n = Some i \<Longrightarrow> links fs i = 1 \<Longrightarrow> Q (Inr (Some i)) fs) \<Longrightarrow> safe I (inspectOptionalPath n) Q fs"
  unfolding inspectOptionalPath_def
  by (auto intro!: safe_intros safe_inspectPath)

lemma safe_requireHandleDigest:
  "I fs \<Longrightarrow> (\<And>e. Q (Inl e) fs) \<Longrightarrow> (we_sha e (wo_Bytes (wf_Object fs h)) = d \<Longrightarrow> Q (Inr ()) fs) \<Longrightarrow>
   safe I (requireHandleDigest e h d) Q fs"
  unfolding requireHandleDigest_def digestHandle_def by (auto intro!: safe_intros safe_observe)

lemma safe_requireHandleIdentity:
  "I fs \<Longrightarrow> (\<And>e. Q (Inl e) fs) \<Longrightarrow> (links fs h = 1 \<Longrightarrow> h = i \<Longrightarrow> Q (Inr ()) fs) \<Longrightarrow>
   safe I (requireHandleIdentity h i) Q fs"
  unfolding requireHandleIdentity_def by (auto intro!: safe_intros safe_inspectHandle)

lemma safe_requireHandleObjectIdentity:
  "I fs \<Longrightarrow> (\<And>e. Q (Inl e) fs) \<Longrightarrow> (links fs h = n \<Longrightarrow> h = i \<Longrightarrow> Q (Inr ()) fs) \<Longrightarrow>
   safe I (requireHandleObjectIdentity h i n) Q fs"
  unfolding requireHandleObjectIdentity_def by (auto intro!: safe_intros safe_inspectHandleObject)

lemma safe_requirePathIdentity:
  "I fs \<Longrightarrow> (\<And>e. Q (Inl e) fs) \<Longrightarrow> (links fs i = 1 \<Longrightarrow> wf_Name fs n = Some i \<Longrightarrow> Q (Inr ()) fs) \<Longrightarrow>
   safe I (requirePathIdentity n i) Q fs"
  unfolding requirePathIdentity_def by (auto intro!: safe_intros safe_inspectPath)

lemma safe_requirePathObjectIdentity:
  "I fs \<Longrightarrow> (\<And>e. Q (Inl e) fs) \<Longrightarrow> (links fs i = k \<Longrightarrow> wf_Name fs n = Some i \<Longrightarrow> Q (Inr ()) fs) \<Longrightarrow>
   safe I (requirePathObjectIdentity n i k) Q fs"
  unfolding requirePathObjectIdentity_def
  by (auto intro!: safe_intros safe_openFile safe_inspect_and_close safe_inspectHandleObject)

lemma safe_requirePathAbsent:
  "I fs \<Longrightarrow> (\<And>e. Q (Inl e) fs) \<Longrightarrow> (wf_Name fs n = None \<Longrightarrow> Q (Inr ()) fs) \<Longrightarrow> safe I (requirePathAbsent n) Q fs"
  unfolding requirePathAbsent_def by (auto intro!: safe_intros safe_inspectOptionalPath)

lemma safe_beginVerifier:
  "I fs \<Longrightarrow> (\<And>e. Q (Inl e) fs) \<Longrightarrow> Q (Inr ()) fs \<Longrightarrow> safe I (beginVerifier b) Q fs"
  unfolding beginVerifier_def by (auto intro!: safe_intros)

lemma safe_closing:
  assumes "safe I m (\<lambda>r s. I s \<and> (case r of Inl e \<Rightarrow> \<forall>e. Q (Inl e) s | Inr x \<Rightarrow> (\<forall>e. Q (Inl e) s) \<and> Q (Inr x) s)) fs"
  shows "safe I (closing always bare_call m) Q fs"
  unfolding closing_def
  by (rule safe_attempt, rule safe_mono [OF assms]) (auto intro!: safe_intros split: sum.splits)

lemma safe_verifyBinding:
  "I fs \<Longrightarrow> (\<And>e. Q (Inl e) fs) \<Longrightarrow> (compareWindowsSecurityBindings b (wo_Binding (wf_Object fs h)) \<Longrightarrow> Q (Inr ()) fs) \<Longrightarrow>
   safe I (verifyBinding b h) Q fs"
  unfolding verifyBinding_def by (auto intro!: safe_intros safe_observe safe_closing)

lemma safe_verifyRollbackBinding:
  "I fs \<Longrightarrow> (\<And>e. Q (Inl e) fs) \<Longrightarrow> Q (Inr ()) fs \<Longrightarrow> safe I (verifyRollbackBinding h b) Q fs"
  unfolding verifyRollbackBinding_def
  by (auto intro!: safe_intros safe_beginVerifier safe_closing safe_verifyBinding)

lemma safe_also_do:
  "safe I m (\<lambda>r s. \<forall>e. Q (Inr e) s) fs \<Longrightarrow> safe I (also_do m e) Q fs"
  unfolding also_do_def
  by (rule safe_attempt, erule safe_mono) (auto intro!: safe_yield)

lemma safe_renameHandle:
  "I fs \<Longrightarrow> (\<And>e. Q (Inl e) fs) \<Longrightarrow>
   (\<And>n. link_of fs h = Some n \<Longrightarrow> overwrite \<or> wf_Name fs dest = None \<Longrightarrow>
      Q (Inr ()) (set_name dest (Some h) (set_name n None fs))) \<Longrightarrow>
   safe I (renameHandle h dest overwrite) Q fs"
  unfolding renameHandle_def by (rule safe_syscall) (auto split: if_splits option.splits)

lemma safe_unlinkHandle:
  "I fs \<Longrightarrow> (\<And>e. Q (Inl e) fs) \<Longrightarrow> Q (Inr ()) (set_name n None fs) \<Longrightarrow> safe I (unlinkHandle n) Q fs"
  unfolding unlinkHandle_def by (rule safe_change) auto

lemma safe_linkHandle:
  "I fs \<Longrightarrow> (\<And>e. Q (Inl e) fs) \<Longrightarrow> Q (Inr ()) (set_name n (Some h) fs) \<Longrightarrow> safe I (linkHandle h n) Q fs"
  unfolding linkHandle_def by (rule safe_change) auto

lemmas safe_checks =
  safe_openFile safe_inspectHandleObject safe_inspectHandle safe_inspect_and_close safe_inspectOptionalPath
  safe_requireHandleDigest safe_requireHandleIdentity safe_requireHandleObjectIdentity safe_requirePathIdentity
  safe_requirePathObjectIdentity safe_requirePathAbsent safe_verifyBinding safe_beginVerifier safe_closing
  safe_verifyRollbackBinding safe_also_do safe_renameHandle safe_unlinkHandle safe_linkHandle

section \<open>One update\<close>

text \<open>The identities of the original, of the verified replacement and of the record file, and their contents.\<close>

record update_case =
  uc_Original :: file_identity
  uc_Staged :: file_identity
  uc_Record :: file_identity
  uc_Bytes :: bytes
  uc_Binding :: security_binding
  uc_New :: bytes

definition prepared_of :: "win_env \<Rightarrow> update_case \<Rightarrow> replacement_record" where
  "prepared_of e u = new_record \<lparr>ss_Target = uc_Original u, ss_Staged = uc_Staged u, ss_Source = uc_Binding u\<rparr> (we_sha e (uc_Bytes u)) (uc_Binding u)"

definition completed_of :: "win_env \<Rightarrow> update_case \<Rightarrow> replacement_record" where
  "completed_of e u = (prepared_of e u)\<lparr>rr_State := recordCompleted\<rparr>"

definition case_ok :: "win_env \<Rightarrow> update_case \<Rightarrow> bool" where
  "case_ok e u \<longleftrightarrow>
     uc_Original u \<noteq> uc_Staged u \<and> uc_Record u \<noteq> uc_Original u \<and> uc_Record u \<noteq> uc_Staged u \<and>
     record_shaped (prepared_of e u)"

text \<open>What a reader of the record sees: no file, unreadable bytes, or a record.\<close>

definition rec_of :: "win_env \<Rightarrow> win_fs \<Rightarrow> (record_error + replacement_record) option" where
  "rec_of e fs =
     map_option (\<lambda>i. decodeWindowsReplacementRecord (we_crc e) (take (recordSize + 1) (wo_Bytes (wf_Object fs i))))
       (wf_Name fs RecordFile)"

definition intact :: "update_case \<Rightarrow> win_fs \<Rightarrow> bool" where
  "intact u fs \<longleftrightarrow>
     wf_Object fs (uc_Original u) = \<lparr>wo_Bytes = uc_Bytes u, wo_Binding = uc_Binding u\<rparr> \<and>
     wo_Bytes (wf_Object fs (uc_Staged u)) = uc_New u \<and>
     (wf_Name fs RecordFile = None \<or> wf_Name fs RecordFile = Some (uc_Record u))"

definition bound :: "update_case \<Rightarrow> win_fs \<Rightarrow> bool" where
  "bound u fs = compareWindowsSecurityBindings (uc_Binding u) (wo_Binding (wf_Object fs (uc_Staged u)))"

text \<open>The names of the executable, of the rollback image, of the displaced image and of the staged file.\<close>

definition names_are :: "win_fs \<Rightarrow> file_identity option \<Rightarrow> file_identity option \<Rightarrow> file_identity option \<Rightarrow>
    file_identity option \<Rightarrow> bool" where
  "names_are fs t b m st \<longleftrightarrow>
     wf_Name fs Target = t \<and> wf_Name fs Backup = b \<and> wf_Name fs MappedLink = m \<and> wf_Name fs Staged = st"

definition untouched :: "win_env \<Rightarrow> update_case \<Rightarrow> win_fs \<Rightarrow> bool" where
  "untouched e u fs \<longleftrightarrow>
     (\<exists>st. st \<in> {None, Some (uc_Staged u)} \<and> names_are fs (Some (uc_Original u)) None None st) \<and>
     (\<forall>r. rec_of e fs = Some (Inr r) \<longrightarrow> r = prepared_of e u \<or> r = completed_of e u)"

definition moved :: "win_env \<Rightarrow> update_case \<Rightarrow> win_fs \<Rightarrow> bool" where
  "moved e u fs \<longleftrightarrow>
     (\<exists>m st. (m, st) \<in> {(None, None), (None, Some (uc_Staged u)), (Some (uc_Staged u), None)} \<and>
       names_are fs None (Some (uc_Original u)) m st) \<and>
     rec_of e fs \<noteq> None \<and> (\<forall>r. rec_of e fs = Some (Inr r) \<longrightarrow> r = prepared_of e u \<or> r = completed_of e u)"

definition linked :: "win_env \<Rightarrow> update_case \<Rightarrow> win_fs \<Rightarrow> bool" where
  "linked e u fs \<longleftrightarrow>
     names_are fs (Some (uc_Original u)) (Some (uc_Original u)) None None \<and> rec_of e fs = Some (Inr (prepared_of e u))"

definition displaced :: "win_env \<Rightarrow> update_case \<Rightarrow> win_fs \<Rightarrow> bool" where
  "displaced e u fs \<longleftrightarrow>
     names_are fs (Some (uc_Original u)) None (Some (uc_Staged u)) None \<and> rec_of e fs = Some (Inr (prepared_of e u))"

definition replaced :: "win_env \<Rightarrow> update_case \<Rightarrow> win_fs \<Rightarrow> bool" where
  "replaced e u fs \<longleftrightarrow>
     names_are fs (Some (uc_Staged u)) (Some (uc_Original u)) None None \<and> rec_of e fs \<noteq> None \<and>
     (\<forall>r. rec_of e fs = Some (Inr r) \<longrightarrow> r = prepared_of e u \<or> r = completed_of e u \<and> bound u fs)"

definition committed :: "win_env \<Rightarrow> update_case \<Rightarrow> win_fs \<Rightarrow> bool" where
  "committed e u fs \<longleftrightarrow>
     names_are fs (Some (uc_Staged u)) None None None \<and> bound u fs \<and>
     (rec_of e fs = None \<or> rec_of e fs = Some (Inr (completed_of e u)))"

lemmas stage_defs = untouched_def moved_def linked_def displaced_def replaced_def committed_def names_are_def

definition recoverable :: "win_env \<Rightarrow> update_case \<Rightarrow> win_fs \<Rightarrow> bool" where
  "recoverable e u fs \<longleftrightarrow>
     intact u fs \<and>
     (untouched e u fs \<or> moved e u fs \<or> linked e u fs \<or> displaced e u fs \<or> replaced e u fs \<or> committed e u fs)"

text \<open>The canonical executable is the original, or the replacement with the security of the original.\<close>

definition canonical :: "win_env \<Rightarrow> update_case \<Rightarrow> win_fs \<Rightarrow> bool" where
  "canonical e u fs \<longleftrightarrow>
     wf_Name fs Target = Some (uc_Original u) \<or>
     wf_Name fs Target = Some (uc_Staged u) \<and> bound u fs \<and>
       (rec_of e fs = None \<or> rec_of e fs = Some (Inr (completed_of e u)))"

lemma set_name_simps [simp]:
  "wf_Name (set_name n i fs) = (wf_Name fs)(n := i)" "wf_Object (set_name n i fs) = wf_Object fs"
  by (simp_all add: set_name_def)

lemma rec_of_set_name [simp]:
  "n \<noteq> RecordFile \<Longrightarrow> rec_of e (set_name n i fs) = rec_of e fs" "rec_of e (set_name RecordFile None fs) = None"
  by (simp_all add: rec_of_def)

lemma bound_set_name [simp]: "bound u (set_name n i fs) = bound u fs"
  by (simp add: bound_def)

lemma intact_set_name [simp]:
  "n \<noteq> RecordFile \<Longrightarrow> intact u (set_name n i fs) = intact u fs"
  "intact u fs \<Longrightarrow> intact u (set_name RecordFile None fs)"
  by (simp_all add: intact_def)

lemma completed_not_prepared [simp]: "completed_of e u \<noteq> prepared_of e u" "prepared_of e u \<noteq> completed_of e u"
  by (simp_all add: completed_of_def prepared_of_def new_record_def recordPrepared_def recordCompleted_def)

lemma prepared_fields [simp]:
  "rr_State (prepared_of e u) = recordPrepared" "rr_Original (prepared_of e u) = uc_Original u"
  "rr_Installed (prepared_of e u) = uc_Staged u" "rr_Binding (prepared_of e u) = uc_Binding u"
  "rr_RollbackDigest (prepared_of e u) = we_sha e (uc_Bytes u)"
  "rr_State (completed_of e u) = recordCompleted" "rr_Original (completed_of e u) = uc_Original u"
  "rr_Installed (completed_of e u) = uc_Staged u" "rr_Binding (completed_of e u) = uc_Binding u"
  "rr_RollbackDigest (completed_of e u) = we_sha e (uc_Bytes u)"
  by (simp_all add: completed_of_def prepared_of_def new_record_def)

section \<open>Recovery keeps the update recoverable\<close>

abbreviation done_well :: "win_env \<Rightarrow> update_case \<Rightarrow> update_error + 'a \<Rightarrow> win_fs \<Rightarrow> bool" where
  "done_well e u r s \<equiv> recoverable e u s \<and> (isl r \<or> canonical e u s)"

lemma finish_recovery_safe:
  assumes "case_ok e u" and "intact u fs" and "untouched e u fs \<or> displaced e u fs"
    and "rec_of e fs = Some (Inr (prepared_of e u))"
  shows "safe (recoverable e u) (finish_recovery (prepared_of e u)) (done_well e u) fs"
  unfolding finish_recovery_def cleanupDisplacedMapped_def remove_record_def
  using assms
  by (auto intro!: safe_intros safe_checks simp: recoverable_def stage_defs canonical_def case_ok_def)

lemma completePrepared_safe:
  assumes "case_ok e u" and "recoverable e u fs" and "wf_Name fs Backup = None"
    and "rec_of e fs = Some (Inr (prepared_of e u))"
  shows "safe (recoverable e u) (completePreparedAtCanonical e (prepared_of e u)) (done_well e u) fs"
proof -
  have stage: "intact u fs" "untouched e u fs \<or> displaced e u fs"
    using assms by (auto simp: recoverable_def stage_defs)
  show ?thesis
    unfolding completePreparedAtCanonical_def
    using assms(1,2,4) stage
    by (auto intro!: safe_intros safe_checks safe_mono [OF finish_recovery_safe] split: sum.splits)
qed

lemma all_names_filter: "links fs i = (if wf_Name fs Target = Some i then 1 else 0) + (if wf_Name fs Backup = Some i then 1 else 0)
    + (if wf_Name fs RecordFile = Some i then 1 else 0) + (if wf_Name fs MappedLink = Some i then 1 else 0)
    + (if wf_Name fs Staged = Some i then 1 else 0)"
  by (simp add: links_def all_names_def)

lemma link_of_names: "link_of fs i = (if wf_Name fs Target = Some i then Some Target
    else if wf_Name fs Backup = Some i then Some Backup
    else if wf_Name fs RecordFile = Some i then Some RecordFile else if wf_Name fs MappedLink = Some i then Some MappedLink
    else if wf_Name fs Staged = Some i then Some Staged else None)"
  by (simp add: link_of_def all_names_def)

text \<open>After the rollback link is gone the recovery goes on at the canonical name.\<close>

abbreviation goes_on :: "win_env \<Rightarrow> update_case \<Rightarrow> update_error + bool \<Rightarrow> win_fs \<Rightarrow> bool" where
  "goes_on e u r s \<equiv> recoverable e u s \<and>
     (case r of Inl _ \<Rightarrow> True
      | Inr b \<Rightarrow> if b then wf_Name s Backup = None \<and> rec_of e s = Some (Inr (prepared_of e u)) else canonical e u s)"

lemma stage_recoverable:
  "intact u fs \<Longrightarrow> untouched e u fs \<Longrightarrow> recoverable e u fs" "intact u fs \<Longrightarrow> moved e u fs \<Longrightarrow> recoverable e u fs"
  "intact u fs \<Longrightarrow> linked e u fs \<Longrightarrow> recoverable e u fs" "intact u fs \<Longrightarrow> displaced e u fs \<Longrightarrow> recoverable e u fs"
  "intact u fs \<Longrightarrow> replaced e u fs \<Longrightarrow> recoverable e u fs" "intact u fs \<Longrightarrow> committed e u fs \<Longrightarrow> recoverable e u fs"
  by (simp_all add: recoverable_def)

lemma completeLinked_safe:
  assumes "case_ok e u" and "intact u fs" and "linked e u fs"
  shows "safe (recoverable e u) completeLinkedRecovery (goes_on e u) fs"
proof -
  let ?fs1 = "set_name Backup None fs"
  have "untouched e u ?fs1" and rec: "rec_of e ?fs1 = Some (Inr (prepared_of e u))" using assms(3) by (auto simp: stage_defs)
  then have r: "recoverable e u fs" "recoverable e u ?fs1" using assms by (simp_all add: stage_recoverable)
  show ?thesis
    unfolding completeLinkedRecovery_def using rec by (auto intro!: safe_intros safe_checks r)
qed

lemma replace_by_link_safe:
  assumes "case_ok e u" and "intact u fs" and "replaced e u fs" and "rec_of e fs = Some (Inr (prepared_of e u))"
  shows "safe (recoverable e u) (replace_by_link (prepared_of e u) (uc_Original u)) (goes_on e u) fs"
proof -
  let ?fs1 = "set_name Target (Some (uc_Original u)) fs"
  have l: "linked e u ?fs1" using assms by (auto simp: stage_defs)
  have i: "intact u ?fs1" using assms by simp
  have r: "recoverable e u fs" "recoverable e u ?fs1" using assms l i by (simp_all add: stage_recoverable)
  note go_on = safe_mono [OF completeLinked_safe [OF assms(1) i l]]
  show ?thesis
    unfolding replace_by_link_def by (auto intro!: safe_intros safe_checks go_on r split: sum.splits if_splits)
qed

lemma restoreMapped_safe:
  assumes "case_ok e u" and "intact u fs" and "replaced e u fs" and "rec_of e fs = Some (Inr (prepared_of e u))"
  shows "safe (recoverable e u) (restoreMapped (uc_Staged u) (uc_Original u) n)
    (\<lambda>r s. recoverable e u s \<and> (isl r \<or> displaced e u s)) fs"
proof -
  let ?fs1 = "set_name MappedLink (Some (uc_Staged u)) (set_name Target None fs)"
  let ?fs2 = "set_name Target (Some (uc_Original u)) (set_name Backup None ?fs1)"
  have rec: "wf_Name fs RecordFile = Some (uc_Record u)" using assms by (auto simp: intact_def rec_of_def)
  have names: "wf_Name fs MappedLink = None" "wf_Name fs Target = Some (uc_Staged u)" "wf_Name fs Backup = Some (uc_Original u)"
    "wf_Name fs Staged = None" using assms by (auto simp: stage_defs)
  have distinct: "uc_Staged u \<noteq> uc_Original u" "uc_Record u \<noteq> uc_Original u" using assms(1) by (auto simp: case_ok_def)
  have link: "link_of fs (uc_Staged u) = Some Target" "link_of ?fs1 (uc_Original u) = Some Backup"
    using names rec distinct by (simp_all add: link_of_names)
  have d: "displaced e u ?fs2" and m: "moved e u ?fs1" using assms names by (simp_all add: stage_defs)
  have r: "recoverable e u fs" "recoverable e u ?fs1" "recoverable e u ?fs2"
    using assms d m by (simp_all add: stage_recoverable)
  have no_second: "safe (recoverable e u) (drop_second_link (uc_Staged u)) Q fs" if "\<And>e. Q (Inl e) fs" for Q
    unfolding drop_second_link_def using that names(1) by (auto intro!: safe_intros safe_checks r)
  show ?thesis
    unfolding restoreMapped_def
    by (auto intro!: safe_intros safe_checks r d no_second simp: link)
qed

lemma canonical_stages: "displaced e u fs \<Longrightarrow> canonical e u fs" "untouched e u fs \<Longrightarrow> canonical e u fs"
  by (auto simp: stage_defs canonical_def)

lemma authenticate_restored_safe:
  assumes "case_ok e u" and "intact u fs" and "untouched e u fs \<or> displaced e u fs"
    and "rec_of e fs = Some (Inr (prepared_of e u))"
  shows "safe (recoverable e u) (authenticate_restored e (prepared_of e u) b moved_aside) (goes_on e u) fs"
proof -
  have r: "recoverable e u fs" using assms by (auto simp: stage_recoverable)
  show ?thesis
    unfolding authenticate_restored_def
    by (auto intro!: safe_intros safe_checks r safe_mono [OF finish_recovery_safe [OF assms]] split: sum.splits)
qed

lemma restore_over_target_safe:
  assumes "case_ok e u" and "intact u fs" and "replaced e u fs" and "rec_of e fs = Some (Inr (prepared_of e u))"
  shows "safe (recoverable e u) (restore_over_target e (prepared_of e u) (uc_Original u) (uc_Staged u)) (goes_on e u) fs"
proof -
  have r: "recoverable e u fs" using assms by (simp add: stage_recoverable)
  have aside: "safe (recoverable e u) (authenticate_restored e (prepared_of e u) (uc_Original u) True) (goes_on e u) s"
    if "recoverable e u s" "displaced e u s" for s
    using that by (intro authenticate_restored_safe) (auto simp: assms(1) recoverable_def stage_defs)
  have mapped: "safe (recoverable e u) (restoreMapped t (uc_Original u) n)
      (\<lambda>r s. recoverable e u s \<and> (isl r \<or> displaced e u s)) fs" if "t = uc_Staged u" for t n
    using restoreMapped_safe [OF assms] that by simp
  show ?thesis
    unfolding restore_over_target_def
    by (auto intro!: safe_intros safe_checks r safe_mono [OF mapped]
      safe_mono [OF replace_by_link_safe [OF assms]] safe_mono [OF aside] split: sum.splits)
qed

lemma recover_from_backup_safe:
  assumes "case_ok e u" and "recoverable e u fs" and "wf_Name fs Backup = Some (uc_Original u)"
    and rec: "rec_of e fs = Some (Inr (prepared_of e u))"
  shows "safe (recoverable e u) (recover_from_backup e (prepared_of e u) (uc_Original u)) (goes_on e u) fs"
proof -
  have i: "intact u fs" using assms(2) by (simp add: recoverable_def)
  have name: "wf_Name fs RecordFile = Some (uc_Record u)" using rec i by (auto simp: intact_def rec_of_def)
  have distinct: "uc_Staged u \<noteq> uc_Original u" "uc_Record u \<noteq> uc_Original u" using assms(1) by (auto simp: case_ok_def)
  consider (l) "linked e u fs" | (m) "moved e u fs" | (p) "replaced e u fs"
    using assms(2,3) by (auto simp: recoverable_def stage_defs)
  then show ?thesis
  proof cases
    case l
    have "links fs (uc_Original u) = 2" using l name distinct by (auto simp: all_names_filter stage_defs)
    then show ?thesis
      unfolding recover_from_backup_def authenticate_backup_def
      by (auto intro!: safe_intros safe_checks assms(2) safe_mono [OF completeLinked_safe [OF assms(1) i l]]
        split: sum.splits if_splits)
  next
    case m
    let ?fs1 = "set_name Target (Some (uc_Original u)) (set_name Backup None fs)"
    have names: "wf_Name fs Target = None" "links fs (uc_Original u) = 1" "link_of fs (uc_Original u) = Some Backup"
      using m name distinct by (auto simp: all_names_filter link_of_names stage_defs)
    have "untouched e u ?fs1 \<or> displaced e u ?fs1" "intact u ?fs1" "rec_of e ?fs1 = Some (Inr (prepared_of e u))"
      using m i rec by (auto simp: stage_defs)
    note restored = authenticate_restored_safe [OF assms(1) this(2,1,3)]
    show ?thesis
      unfolding recover_from_backup_def authenticate_backup_def
      by (auto intro!: safe_intros safe_checks assms(2) safe_mono [OF restored] simp: names split: sum.splits if_splits)
  next
    case p
    have names: "wf_Name fs Target = Some (uc_Staged u)" "links fs (uc_Original u) = 1"
      using p name distinct by (auto simp: all_names_filter stage_defs)
    show ?thesis
      unfolding recover_from_backup_def authenticate_backup_def
      by (auto intro!: safe_intros safe_checks assms(2) safe_mono [OF restore_over_target_safe [OF assms(1) i p rec]]
        simp: names split: sum.splits if_splits)
  qed
qed

lemma recoverPrepared_safe:
  assumes "case_ok e u" and r: "recoverable e u fs" and rec: "rec_of e fs = Some (Inr (prepared_of e u))"
  shows "safe (recoverable e u) (recoverPreparedWindowsReplacement e (prepared_of e u)) (done_well e u) fs"
proof -
  have from_backup: "safe (recoverable e u) (recover_from_backup e (prepared_of e u) i) (goes_on e u) fs"
    if "wf_Name fs Backup = Some i" for i
  proof -
    have "i = uc_Original u" using that r by (auto simp: recoverable_def stage_defs)
    with that show ?thesis using recover_from_backup_safe [OF assms(1) r _ rec] by simp
  qed
  have go_on: "safe (recoverable e u) (completePreparedAtCanonical e (prepared_of e u)) (done_well e u) s"
    if "recoverable e u s" "wf_Name s Backup = None" "rec_of e s = Some (Inr (prepared_of e u))" for s
    using completePrepared_safe [OF assms(1) that] .
  show ?thesis
    unfolding recoverPreparedWindowsReplacement_def
    by (auto intro!: safe_intros safe_checks r rec safe_mono [OF go_on] safe_mono [OF from_backup]
      split: sum.splits if_splits)
qed

lemma bare_and_remove_safe:
  assumes "recoverable e u fs" and "canonical e u fs" and "committed e u fs"
  shows "safe (recoverable e u) remove_record (\<lambda>r s. recoverable e u s \<and> canonical e u s) fs"
proof -
  let ?fs1 = "set_name RecordFile None fs"
  have i: "intact u fs" using assms(1) by (simp add: recoverable_def)
  have "committed e u ?fs1" using assms(3) by (simp add: stage_defs)
  then have "recoverable e u ?fs1" "canonical e u ?fs1"
    using i assms(2) by (auto simp: stage_recoverable canonical_def)
  then show ?thesis
    unfolding remove_record_def using assms by (auto intro!: safe_checks)
qed

lemma cleanup_completed_safe:
  assumes "case_ok e u" and r: "recoverable e u fs" and rec: "rec_of e fs = Some (Inr (completed_of e u))"
  shows "safe (recoverable e u) (cleanup_completed e (completed_of e u)) (done_well e u) fs"
proof -
  have i: "intact u fs" using r by (simp add: recoverable_def)
  show ?thesis
  proof (cases "replaced e u fs \<or> committed e u fs")
    case False
    then have "untouched e u fs \<or> moved e u fs" using r rec by (auto simp: recoverable_def stage_defs)
    then have "wf_Name fs Target = None \<or> wf_Name fs Target = Some (uc_Original u)" by (auto simp: stage_defs)
    moreover have "uc_Original u \<noteq> uc_Staged u" using assms(1) by (simp add: case_ok_def)
    ultimately show ?thesis
      unfolding cleanup_completed_def by (auto intro!: safe_intros safe_checks r)
  next
  case stage: True
  have b: "bound u fs" using stage rec by (auto simp: stage_defs)
  have c: "canonical e u fs" using stage b rec by (auto simp: canonical_def stage_defs)
  let ?fs1 = "set_name Backup None fs"
  have commit: "committed e u ?fs1" using stage b rec by (auto simp: stage_defs)
  then have r1: "recoverable e u ?fs1" "canonical e u ?fs1"
    using i c by (simp_all add: stage_recoverable canonical_def)
  have absent: "committed e u fs" if "wf_Name fs Backup = None" using stage that by (auto simp: stage_defs)
  note gone = safe_mono [OF bare_and_remove_safe [OF r c absent]] and gone1 = safe_mono [OF bare_and_remove_safe [OF r1 commit]]
  show ?thesis
    unfolding cleanup_completed_def discard_backup_def
    by (auto intro!: safe_intros safe_checks r r1 c gone gone1 split: sum.splits)
  qed
qed

lemma openRecord_safe:
  assumes "recoverable e u fs"
  shows "safe (recoverable e u) (openWindowsReplacementRecord e)
    (\<lambda>r s. s = fs \<and> (case r of Inl _ \<Rightarrow> True | Inr x \<Rightarrow> rec_of e fs = Some (Inr x))) fs"
  unfolding openWindowsReplacementRecord_def validate_control_def read_record_def
  using assms
  by (auto intro!: safe_intros safe_checks safe_observe simp: rec_of_def split: sum.splits if_splits)

lemma readable_record:
  assumes "recoverable e u fs" and "rec_of e fs = Some (Inr r)"
  shows "r = prepared_of e u \<or> r = completed_of e u"
  using assms by (auto simp: recoverable_def stage_defs)

lemma no_record_canonical:
  "recoverable e u fs \<Longrightarrow> wf_Name fs RecordFile = None \<Longrightarrow> canonical e u fs"
  by (auto simp: recoverable_def stage_defs canonical_def rec_of_def)

lemma cleanupUnderLock_safe:
  assumes "case_ok e u" and r: "recoverable e u fs"
  shows "safe (recoverable e u) (cleanupCompletedWindowsRollbackUnderLock e) (done_well e u) fs"
proof -
  have by_record: "rr_State x \<noteq> recordCompleted \<Longrightarrow>
      safe (recoverable e u) (recoverPreparedWindowsReplacement e x) (done_well e u) fs"
    "rr_State x = recordCompleted \<Longrightarrow> safe (recoverable e u) (cleanup_completed e x) (done_well e u) fs"
    if "rec_of e fs = Some (Inr x)" for x
    using readable_record [OF r that] that recoverPrepared_safe [OF assms] cleanup_completed_safe [OF assms]
    by (auto simp: recordPrepared_def recordCompleted_def)
  show ?thesis
    unfolding cleanupCompletedWindowsRollbackUnderLock_def
    by (auto intro!: safe_intros safe_checks r safe_mono [OF openRecord_safe [OF r]] safe_mono [OF by_record(1)]
      safe_mono [OF by_record(2)]
      simp: no_record_canonical [OF r] split: sum.splits)
qed

lemma cleanupPrevious_safe:
  assumes "case_ok e u" and r: "recoverable e u fs"
  shows "safe (recoverable e u) (cleanupPreviousExecutable e) (done_well e u) fs"
  unfolding cleanupPreviousExecutable_def windowsReplacementRecoveryRequired_def acquireWindowsReplacementLock_def
  by (auto intro!: safe_intros safe_checks r safe_mono [OF cleanupUnderLock_safe [OF assms]]
    simp: no_record_canonical [OF r] split: sum.splits)

end
