(* ===== verification/Windows_Update.thy ===== *)
theory Windows_Update
  imports Windows_Recovery
begin

text \<open>
  The replacement of the executable keeps the update recoverable at every step, and with the recovery it
  gives the promises of a whole update: one replacement and any number of later starts.
\<close>

section \<open>Writing the record\<close>

lemma put_bytes_simps [simp]:
  "wf_Name (put_bytes h b fs) = wf_Name fs" "wo_Bytes (wf_Object (put_bytes h b fs) h) = b"
  "put_bytes h b (put_bytes h c fs) = put_bytes h b fs" "put_bytes h (wo_Bytes (wf_Object fs h)) fs = fs"
  "i \<noteq> h \<Longrightarrow> wf_Object (put_bytes h b fs) i = wf_Object fs i"
  "wf_Object (put_bytes h b fs) h = (wf_Object fs h)\<lparr>wo_Bytes := b\<rparr>"
  by (simp_all add: put_bytes_def set_object_def)

lemma put_bytes_links [simp]: "links (put_bytes h b fs) = links fs"
  by (rule ext) (simp add: links_def)

lemma torn_ends [simp]: "torn_write 0 new old = old" "length old \<le> length new \<Longrightarrow> torn_write (length new) new old = new"
  by (simp_all add: torn_write_def)

lemma torn_full [simp]: "length old = n \<Longrightarrow> length new = n \<Longrightarrow> torn_write n new old = new"
  by (simp add: torn_write_def)

lemma safe_writeFile:
  assumes "\<And>k. I (put_bytes h (torn_write k data (wo_Bytes (wf_Object fs h))) fs)"
    and "\<And>k. Q (Inl plain) (put_bytes h (torn_write k data (wo_Bytes (wf_Object fs h))) fs)"
    and "Q (Inr ()) (put_bytes h (torn_write (length data) data (wo_Bytes (wf_Object fs h))) fs)"
  shows "safe I (writeFile h data) Q fs"
  using assms assms(1,2) [of 0]
  by (auto simp: safe_def writeFile_def Let_def spend_def split: fate.split)

text \<open>Every stop and every error of writing a record leaves a torn write or the record.\<close>

lemma safe_write_record:
  fixes fs h r
  defines "old \<equiv> wo_Bytes (wf_Object fs h)"
  assumes "length old \<le> length (encodeWindowsReplacementRecord (we_crc e) r)"
    and I: "\<And>k. I (put_bytes h (torn_write k (encodeWindowsReplacementRecord (we_crc e) r) old) fs)"
    and E: "\<And>k. Q (Inl plain) (put_bytes h (torn_write k (encodeWindowsReplacementRecord (we_crc e) r) old) fs)"
    and "Q (Inr ()) (put_bytes h (encodeWindowsReplacementRecord (we_crc e) r) fs)"
  shows "safe I (write_record e h r) Q fs"
proof -
  let ?data = "encodeWindowsReplacementRecord (we_crc e) r"
  have full: "torn_write (length ?data) ?data old = ?data" using assms(2) by simp
  have ends: "I fs" "Q (Inl plain) fs" "I (put_bytes h ?data fs)" "Q (Inl plain) (put_bytes h ?data fs)"
    using I [of 0] E [of 0] I [of "length ?data"] E [of "length ?data"] unfolding full by (simp_all add: old_def)
  show ?thesis
    unfolding write_record_def setEndOfFile_def Let_def
    using ends assms(5) I E
    by (auto intro!: safe_intros safe_writeFile safe_change simp: old_def [symmetric] full)
qed

lemma intact_put_record [simp]:
  "case_ok e u \<Longrightarrow> intact u (put_bytes (uc_Record u) b fs) = intact u fs"
  by (auto simp: intact_def case_ok_def)

lemma bound_put_record [simp]: "case_ok e u \<Longrightarrow> bound u (put_bytes (uc_Record u) b fs) = bound u fs"
  by (auto simp: bound_def case_ok_def)

lemma rec_of_put_record [simp]:
  "wf_Name fs RecordFile = Some (uc_Record u) \<Longrightarrow>
   rec_of e (put_bytes (uc_Record u) b fs) = Some (decodeWindowsReplacementRecord (we_crc e) (take (recordSize + 1) b))"
  by (simp add: rec_of_def)

lemma length_encoded: "record_shaped r \<Longrightarrow> length (encodeWindowsReplacementRecord crc r) = recordSize"
  using length_record_body [of r] by (simp add: encodeWindowsReplacementRecord_def recordSize_def)

lemma shaped_case:
  assumes "case_ok e u"
  shows "record_shaped (prepared_of e u)" "record_shaped (completed_of e u)"
  using assms by (simp_all add: case_ok_def completed_of_def record_shaped_def)

lemma decode_short: "length d < recordSize \<Longrightarrow> decodeWindowsReplacementRecord crc d \<noteq> Inr r"
  by (auto simp: decodeWindowsReplacementRecord_def)

lemma created_record:
  assumes "case_ok e u"
    and "decodeWindowsReplacementRecord (we_crc e)
      (take (recordSize + 1) (torn_write k (encodeWindowsReplacementRecord (we_crc e) (prepared_of e u)) [])) = Inr r"
  shows "r = prepared_of e u"
proof -
  let ?data = "encodeWindowsReplacementRecord (we_crc e) (prepared_of e u)"
  note len = length_encoded [OF shaped_case(1) [OF assms(1)], of "we_crc e"]
  have torn: "take (recordSize + 1) (torn_write k ?data []) = take k ?data"
    using len by (cases "k \<le> recordSize") (simp_all add: torn_write_def)
  then have "\<not> k < recordSize" using assms(2) decode_short [of "take k ?data"] len by auto
  then have "take k ?data = ?data" using len by simp
  with assms(2) torn record_decode_encode [OF shaped_case(1) [OF assms(1)]] show ?thesis by simp
qed

lemma take_record [simp]: "length d = recordSize \<Longrightarrow> take (Suc recordSize) d = d"
  by simp

lemma completing_record:
  assumes "case_ok e u" and old: "old = encodeWindowsReplacementRecord (we_crc e) (prepared_of e u)"
    and "decodeWindowsReplacementRecord (we_crc e)
      (take (recordSize + 1) (torn_write k (encodeWindowsReplacementRecord (we_crc e) (completed_of e u)) old)) = Inr r"
  shows "r = prepared_of e u \<or> r = completed_of e u"
proof -
  note shaped = shaped_case [OF assms(1)]
  have "length (torn_write k (encodeWindowsReplacementRecord (we_crc e) (completed_of e u)) old) = recordSize"
    using length_encoded shaped by (simp add: old torn_write_def)
  then show ?thesis
    using torn_completion [OF shaped(1) _ completed_of_def] assms(3) by (simp add: old)
qed

lemma renamed_link:
  assumes "case_ok e u" and "intact u fs" and "wf_Name fs MappedLink = None"
  shows "wf_Name fs Target = Some (uc_Original u) \<Longrightarrow> link_of fs (uc_Original u) = Some Target"
    and "wf_Name fs Target \<noteq> Some (uc_Original u) \<Longrightarrow> wf_Name fs Backup = Some (uc_Original u) \<Longrightarrow>
      link_of fs (uc_Original u) = Some Backup"
    and "wf_Name fs Target \<noteq> Some (uc_Staged u) \<Longrightarrow> wf_Name fs Backup \<noteq> Some (uc_Staged u) \<Longrightarrow>
      wf_Name fs Staged = Some (uc_Staged u) \<Longrightarrow> link_of fs (uc_Staged u) = Some Staged"
  using assms by (auto simp: link_of_names intact_def case_ok_def)

section \<open>Creating and completing the record\<close>

definition fresh :: "win_env \<Rightarrow> update_case \<Rightarrow> win_fs \<Rightarrow> bool" where
  "fresh e u fs \<longleftrightarrow>
     intact u fs \<and> we_New e = uc_Record u \<and> wf_Name fs RecordFile = None \<and>
     names_are fs (Some (uc_Original u)) None None (Some (uc_Staged u))"

text \<open>The original is at its place and the record, if there is one, may be removed.\<close>

abbreviation stopped :: "win_env \<Rightarrow> update_case \<Rightarrow> update_error + 'a \<Rightarrow> win_fs \<Rightarrow> bool" where
  "stopped e u r s \<equiv> isl r \<and> recoverable e u s"

definition prepared_at :: "win_env \<Rightarrow> update_case \<Rightarrow> file_identity option \<Rightarrow> file_identity option \<Rightarrow>
    file_identity option \<Rightarrow> win_fs \<Rightarrow> bool" where
  "prepared_at e u t b st fs \<longleftrightarrow>
     intact u fs \<and> names_are fs t b None st \<and> wf_Name fs RecordFile = Some (uc_Record u) \<and>
     wo_Bytes (wf_Object fs (uc_Record u)) = encodeWindowsReplacementRecord (we_crc e) (prepared_of e u)"

abbreviation recorded :: "win_env \<Rightarrow> update_case \<Rightarrow> win_fs \<Rightarrow> bool" where
  "recorded e u \<equiv> prepared_at e u (Some (uc_Original u)) None (Some (uc_Staged u))"

abbreviation set_aside :: "win_env \<Rightarrow> update_case \<Rightarrow> win_fs \<Rightarrow> bool" where
  "set_aside e u \<equiv> prepared_at e u None (Some (uc_Original u)) (Some (uc_Staged u))"

abbreviation installed :: "win_env \<Rightarrow> update_case \<Rightarrow> win_fs \<Rightarrow> bool" where
  "installed e u \<equiv> prepared_at e u (Some (uc_Staged u)) (Some (uc_Original u)) None"

lemma fresh_recoverable: "fresh e u fs \<Longrightarrow> recoverable e u fs"
  by (auto simp: fresh_def recoverable_def stage_defs rec_of_def)

lemma createRecord_safe:
  assumes c: "case_ok e u" and f: "fresh e u fs"
  shows "safe (recoverable e u) (createWindowsReplacementRecord e (prepared_of e u))
    (\<lambda>r s. recoverable e u s \<and> (case r of Inl _ \<Rightarrow> wf_Name s Target = Some (uc_Original u) | Inr h \<Rightarrow> h = uc_Record u \<and> recorded e u s)) fs"
proof -
  let ?new = "set_object (uc_Record u) \<lparr>wo_Bytes = [], wo_Binding = we_Control e\<rparr> (set_name RecordFile (Some (uc_Record u)) fs)"
  let ?data = "encodeWindowsReplacementRecord (we_crc e) (prepared_of e u)"
  have names: "wf_Name ?new = (wf_Name fs)(RecordFile := Some (uc_Record u))"
    and object: "wf_Object ?new (uc_Record u) = \<lparr>wo_Bytes = [], wo_Binding = we_Control e\<rparr>"
    by (simp_all add: set_object_def)
  have i: "intact u ?new" using c f by (auto simp: intact_def case_ok_def fresh_def set_object_def)
  have torn: "recoverable e u (put_bytes (uc_Record u) (torn_write k ?data []) ?new)" for k
    using created_record [OF c] i f c by (auto simp: recoverable_def stage_defs names fresh_def)
  have gone: "recoverable e u (set_name RecordFile None (put_bytes (uc_Record u) (torn_write k ?data []) ?new))" for k
    using f i c by (auto simp: recoverable_def stage_defs names fresh_def)
  have empty: "put_bytes (uc_Record u) [] ?new = ?new"
    using put_bytes_simps(4) [of "uc_Record u" ?new] unfolding object by simp
  have full: "recorded e u (put_bytes (uc_Record u) ?data ?new)"
    using f i c object by (simp add: prepared_at_def names names_are_def fresh_def)
  have r: "recoverable e u ?new" using torn [of 0] empty by simp
  have written: "safe (recoverable e u) (write_record e (uc_Record u) (prepared_of e u))
     (\<lambda>r s. recoverable e u s \<and> (case r of Inl _ \<Rightarrow>
          recoverable e u (set_name RecordFile None s) \<and> wf_Name s Target = Some (uc_Original u)
        | Inr _ \<Rightarrow> recorded e u s)) ?new"
    using torn gone full torn [of "length ?data"] f
    by (intro safe_write_record) (simp_all add: object names fresh_def names_are_def)
  show ?thesis
    unfolding createWindowsReplacementRecord_def create_new_def remove_record_def validate_control_def
    using f r
    by (auto intro!: safe_intros safe_checks safe_syscall safe_observe fresh_recoverable safe_mono [OF written]
      simp: fresh_def names_are_def names split: sum.splits if_splits)
qed

section \<open>Rolling back\<close>

text \<open>What a failed replacement has to undo: the record may already say completed.\<close>

definition undoable :: "win_env \<Rightarrow> update_case \<Rightarrow> win_fs \<Rightarrow> bool" where
  "undoable e u fs \<longleftrightarrow>
     intact u fs \<and> wf_Name fs MappedLink = None \<and> rec_of e fs \<noteq> None \<and>
     (untouched e u fs \<or> moved e u fs \<or> replaced e u fs)"

definition state_of :: "update_case \<Rightarrow> security_state" where
  "state_of u = \<lparr>ss_Target = uc_Original u, ss_Staged = uc_Staged u, ss_Source = uc_Binding u\<rparr>"

lemma state_of_fields [simp]: "ss_Target (state_of u) = uc_Original u" "ss_Staged (state_of u) = uc_Staged u" "ss_Source (state_of u) = uc_Binding u"
  by (simp_all add: state_of_def)

lemma undoable_recoverable: "undoable e u fs \<Longrightarrow> recoverable e u fs"
  by (auto simp: undoable_def recoverable_def)

text \<open>The original moves between its place and the rollback name.\<close>

lemma moved_back:
  assumes "undoable e u fs" and "wf_Name fs Target \<noteq> Some (uc_Original u)"
  shows "undoable e u (set_name Target (Some (uc_Original u)) (set_name Backup None fs))"
  using assms by (auto simp: undoable_def stage_defs)

lemma moved_away:
  assumes "undoable e u fs" and "wf_Name fs Target = Some (uc_Original u)" and "uc_Original u \<noteq> uc_Staged u"
  shows "undoable e u (set_name Backup (Some (uc_Original u)) (set_name Target None fs))"
  using assms by (auto simp: undoable_def stage_defs)

abbreviation undone :: "win_env \<Rightarrow> update_case \<Rightarrow> update_error + 'a \<Rightarrow> win_fs \<Rightarrow> bool" where
  "undone e u r s \<equiv> recoverable e u s \<and> (isl r \<or> untouched e u s)"

lemma retain_safe:
  assumes "case_ok e u" and u: "undoable e u fs" and t: "wf_Name fs Target = Some (uc_Original u)"
  shows "safe (recoverable e u) (retainWindowsRollbackAuthenticationEvidence (state_of u) err) (undone e u) fs"
proof -
  note r = undoable_recoverable [OF u]
  have o: "uc_Original u \<noteq> uc_Staged u" using assms(1) by (simp add: case_ok_def)
  have l: "link_of fs (uc_Original u) = Some Target"
    using renamed_link(1) [OF assms(1) _ _ t] u by (simp add: undoable_def)
  note away = undoable_recoverable [OF moved_away [OF u t o]]
  show ?thesis
    unfolding retainWindowsRollbackAuthenticationEvidence_def
    by (auto intro!: safe_intros safe_checks r away simp: l split: sum.splits)
qed

lemma restored_original_safe:
  assumes "case_ok e u" and u: "undoable e u fs" and t: "wf_Name fs Target \<noteq> Some (uc_Original u)"
  shows "safe (recoverable e u) (restored_original e (state_of u) d b) (undone e u) fs"
proof -
  let ?fs1 = "set_name Target (Some (uc_Original u)) (set_name Backup None fs)"
  note r = undoable_recoverable [OF u] and u1 = moved_back [OF u t]
  note r1 = undoable_recoverable [OF u1]
  have "wf_Name fs Backup = Some (uc_Original u)" using u t by (auto simp: undoable_def stage_defs)
  then have l: "link_of fs (uc_Original u) = Some Backup"
    using renamed_link(2) [OF assms(1) _ _ t] u by (simp add: undoable_def)
  have "untouched e u ?fs1" using u1 assms(1) by (auto simp: undoable_def stage_defs case_ok_def)
  then show ?thesis
    unfolding restored_original_def
    by (auto intro!: safe_intros safe_checks r r1 retain_safe [OF assms(1) u1] simp: l split: sum.splits)
qed

lemma rollback_safe:
  assumes "case_ok e u" and u: "undoable e u fs"
  shows "safe (recoverable e u) (rollbackWindowsReplacement e (state_of u) d b) (undone e u) fs"
proof -
  have "untouched e u fs" if "wf_Name fs Target = Some (uc_Original u)"
    using u that assms(1) by (auto simp: undoable_def stage_defs case_ok_def)
  then show ?thesis
    unfolding rollbackWindowsReplacement_def canonical_is_original_def
    using restored_original_safe [OF assms]
    by (auto intro!: safe_intros safe_checks undoable_recoverable [OF u] split: sum.splits)
qed

lemma untouched_unrecorded:
  "intact u fs \<Longrightarrow> untouched e u fs \<Longrightarrow> recoverable e u (set_name RecordFile None fs)"
  by (auto simp: recoverable_def stage_defs)

lemma failAfterBackup_safe:
  assumes "case_ok e u" and u: "undoable e u fs"
  shows "safe (recoverable e u) (failAfterBackup e (state_of u) r err) (stopped e u) fs"
proof -
  have i: "recoverable e u s \<Longrightarrow> intact u s" for s by (simp add: recoverable_def)
  show ?thesis
    unfolding failAfterBackup_def remove_record_def
    by (auto intro!: safe_intros safe_checks safe_mono [OF rollback_safe [OF assms]] untouched_unrecorded i split: sum.splits)
qed

lemma failBeforeBackup_safe:
  assumes "recoverable e u fs" and "wf_Name fs Target = Some (uc_Original u)" and "uc_Original u \<noteq> uc_Staged u"
    and "wf_Name fs Backup = None" and "wf_Name fs MappedLink = None"
  shows "safe (recoverable e u) (failBeforeBackup err) (stopped e u) fs"
proof -
  have i: "intact u fs" "untouched e u fs"
    using assms by (auto simp: recoverable_def stage_defs)
  show ?thesis
    unfolding failBeforeBackup_def remove_record_def
    by (auto intro!: safe_intros safe_checks assms untouched_unrecorded i)
qed

section \<open>Installing\<close>

lemma prepared_record:
  "case_ok e u \<Longrightarrow> prepared_at e u t b st fs \<Longrightarrow> rec_of e fs = Some (Inr (prepared_of e u))"
  using length_encoded [OF shaped_case(1)] record_decode_encode [OF shaped_case(1)]
  by (simp add: prepared_at_def rec_of_def)

lemma prepared_undoable:
  assumes "case_ok e u"
    and "recorded e u fs \<or> set_aside e u fs \<or> installed e u fs"
  shows "undoable e u fs"
  using assms prepared_record [OF assms(1)]
  by (auto simp: undoable_def stage_defs prepared_at_def)

lemma safe_renameExpectedHandle:
  assumes "I fs" and "\<And>e. Q (Inl e) fs"
    and "\<And>n. link_of fs h = Some n \<Longrightarrow> overwrite \<or> wf_Name fs dest = None \<Longrightarrow>
      I (set_name dest (Some h) (set_name n None fs)) \<and> (\<forall>e. Q (Inl e) (set_name dest (Some h) (set_name n None fs))) \<and>
      Q (Inr ()) (set_name dest (Some h) (set_name n None fs))"
  shows "safe I (renameExpectedHandle h dest expected overwrite) Q fs"
  unfolding renameExpectedHandle_def requireHandleFinalPath_def
  using assms by (auto intro!: safe_intros safe_checks safe_observe split: if_splits)

lemma preserve_running_safe:
  assumes c: "case_ok e u" and p: "recorded e u fs"
  shows "safe (recoverable e u) (preserve_running e (state_of u) (prepared_of e u))
    (\<lambda>r s. recoverable e u s \<and> (isl r \<or> set_aside e u s)) fs"
proof -
  let ?fs1 = "set_name Backup (Some (uc_Original u)) (set_name Target None fs)"
  have o: "uc_Original u \<noteq> uc_Staged u" using c by (simp add: case_ok_def)
  have l: "link_of fs (uc_Original u) = Some Target"
    using renamed_link(1) [OF c] p by (auto simp: prepared_at_def names_are_def)
  have a: "set_aside e u ?fs1" using p by (simp add: prepared_at_def names_are_def)
  note u = prepared_undoable [OF c disjI1, OF p] and u1 = prepared_undoable [OF c disjI2, OF disjI1, OF a]
  note r = undoable_recoverable [OF u] and r1 = undoable_recoverable [OF u1]
  have f: "safe (recoverable e u) (failBeforeBackup err) (stopped e u) fs" for err
    using failBeforeBackup_safe [OF r _ o] p by (simp add: prepared_at_def names_are_def)
  show ?thesis
    unfolding preserve_running_def
    using p
    by (auto intro!: safe_intros safe_checks safe_renameExpectedHandle r r1 safe_mono [OF f]
      safe_mono [OF failAfterBackup_safe [OF c u]] safe_mono [OF failAfterBackup_safe [OF c u1]]
      simp: l a split: sum.splits)
qed

definition bind_staged :: "win_env \<Rightarrow> update_case \<Rightarrow> win_fs \<Rightarrow> win_fs" where
  "bind_staged e u fs =
     set_object (uc_Staged u) ((wf_Object fs (uc_Staged u))\<lparr>wo_Binding := we_Applied e (uc_Binding u)\<rparr>) fs"

lemma bind_staged_simps [simp]:
  "wf_Name (bind_staged e u fs) = wf_Name fs" "case_ok e u \<Longrightarrow> intact u (bind_staged e u fs) = intact u fs"
  "case_ok e u \<Longrightarrow> prepared_at e u t b st (bind_staged e u fs) = prepared_at e u t b st fs"
  "case_ok e u \<Longrightarrow> fresh e u (bind_staged e u fs) = fresh e u fs"
  by (auto simp: bind_staged_def set_object_def intact_def prepared_at_def names_are_def case_ok_def fresh_def)

lemma safe_apply_security:
  "I fs \<Longrightarrow> (\<And>e. Q (Inl e) fs) \<Longrightarrow> Q (Inr ()) (bind_staged e u fs) \<Longrightarrow> safe I (apply_security e (state_of u)) Q fs"
  unfolding apply_security_def bind_staged_def by (rule safe_change) simp_all

lemma safe_verify_security:
  "I fs \<Longrightarrow> (\<And>e. Q (Inl e) fs) \<Longrightarrow> (bound u fs \<Longrightarrow> Q (Inr ()) fs) \<Longrightarrow>
   safe I (verify_security (state_of u)) Q fs"
  unfolding verify_security_def by (auto intro!: safe_intros safe_observe safe_closing simp: bound_def)

lemma markCompleted_safe:
  assumes c: "case_ok e u" and p: "installed e u fs" and b: "bound u fs"
  shows "safe (recoverable e u) (markCompleted e (uc_Record u) (prepared_of e u))
    (\<lambda>r s. undoable e u s \<and> (isl r \<or> canonical e u s)) fs"
proof -
  let ?data = "encodeWindowsReplacementRecord (we_crc e) (completed_of e u)"
  let ?old = "wo_Bytes (wf_Object fs (uc_Record u))"
  note lens = length_encoded [OF shaped_case(1) [OF c], of "we_crc e"] length_encoded [OF shaped_case(2) [OF c], of "we_crc e"]
  have old: "?old = encodeWindowsReplacementRecord (we_crc e) (prepared_of e u)" using p by (simp add: prepared_at_def)
  have torn: "undoable e u (put_bytes (uc_Record u) (torn_write k ?data ?old) fs)" for k
    using completing_record [OF c old] p b c by (auto simp: undoable_def stage_defs prepared_at_def)
  have full: "canonical e u (put_bytes (uc_Record u) ?data fs)"
    using p b c lens record_decode_encode [OF shaped_case(2) [OF c]]
    by (simp add: canonical_def prepared_at_def names_are_def)
  have ends: "undoable e u (put_bytes (uc_Record u) ?data fs)" using torn [of "length ?data"] lens old by simp
  show ?thesis
    unfolding markCompleted_def completed_of_def [symmetric]
    by (rule safe_write_record) (use torn full ends lens old undoable_recoverable in auto)
qed

lemma install_replacement_safe:
  assumes c: "case_ok e u" and p: "set_aside e u fs"
  shows "safe (recoverable e u) (install_replacement e (state_of u) (uc_Record u) (prepared_of e u)) (done_well e u) fs"
proof -
  let ?fs1 = "set_name Target (Some (uc_Staged u)) (set_name Staged None fs)"
  have l: "link_of fs (uc_Staged u) = Some Staged"
    using renamed_link(3) [OF c] p c by (auto simp: prepared_at_def names_are_def case_ok_def)
  have q: "installed e u ?fs1" using p by (simp add: prepared_at_def names_are_def)
  then have q2: "installed e u (bind_staged e u ?fs1)" using c by simp
  have u: "undoable e u fs" "undoable e u ?fs1" "undoable e u (bind_staged e u ?fs1)"
    using prepared_undoable [OF c] p q q2 by blast+
  have i: "intact u (bind_staged e u ?fs1)" using u(3) by (simp add: undoable_def)
  note r = u [THEN undoable_recoverable]
  have fail: "safe (recoverable e u) (failAfterBackup e (state_of u) (prepared_of e u) err) (done_well e u) s"
    if "undoable e u s" for err s
    by (rule safe_mono [OF failAfterBackup_safe [OF c that]]) auto
  show ?thesis
    unfolding install_replacement_def
    by (auto intro!: safe_intros safe_checks safe_renameExpectedHandle safe_apply_security safe_verify_security
      r u i fail safe_mono [OF markCompleted_safe [OF c q2]] simp: l undoable_recoverable split: sum.splits)
qed

section \<open>The whole replacement\<close>

lemma failBeforeRecord_safe:
  "recoverable e u fs \<Longrightarrow> safe (recoverable e u) (failBeforeRecord err) (stopped e u) fs"
  unfolding failBeforeRecord_def by (auto intro!: safe_intros safe_checks)

lemma replace_recorded_safe:
  assumes c: "case_ok e u" and f: "fresh e u fs"
  shows "safe (recoverable e u) (replace_recorded e (state_of u) (prepared_of e u)) (done_well e u) fs"
proof -
  show ?thesis
    unfolding replace_recorded_def
    by (auto intro!: safe_intros safe_checks safe_mono [OF failBeforeRecord_safe] safe_mono [OF createRecord_safe [OF c f]]
      safe_mono [OF preserve_running_safe [OF c]] safe_mono [OF install_replacement_safe [OF c]] split: sum.splits)
qed

lemma fresh_cleanup_safe:
  assumes "fresh e u fs"
  shows "safe (recoverable e u) (cleanupCompletedWindowsRollbackUnderLock e) (\<lambda>r s. s = fs) fs"
  unfolding cleanupCompletedWindowsRollbackUnderLock_def
  using assms fresh_recoverable [OF assms]
  by (auto intro!: safe_intros safe_checks simp: fresh_def names_are_def)

lemma prepare_safe:
  assumes c: "case_ok e u" and f: "fresh e u fs"
  shows "safe (recoverable e u) (prepareWindowsReplacementSecurity e)
    (\<lambda>r s. fresh e u s \<and> (isl r \<or> r = Inr (state_of u))) fs"
proof -
  have f2: "fresh e u (bind_staged e u fs)" using c f by simp
  have names: "wf_Name fs Target = Some (uc_Original u)" "wf_Name fs Staged = Some (uc_Staged u)"
    using f by (simp_all add: fresh_def names_are_def)
  have i: "wo_Binding (wf_Object fs (uc_Original u)) = uc_Binding u" using f by (simp add: fresh_def intact_def)
  show ?thesis
    unfolding prepareWindowsReplacementSecurity_def state_of_def [symmetric] Let_def
    using fresh_recoverable [OF f] fresh_recoverable [OF f2] f f2
    by (auto intro!: safe_intros safe_checks safe_observe safe_apply_security safe_verify_security
      simp: names i state_of_def [symmetric] split: sum.splits)
qed

text \<open>The replacement stops or ends only in recoverable directories, and ends well only with the verified bytes.\<close>

lemma replace_under_lock_safe:
  assumes c: "case_ok e u" and f: "fresh e u fs"
  shows "safe (recoverable e u) (replace_under_lock e expected)
    (\<lambda>r s. done_well e u r s \<and> (isl r \<or> we_sha e (uc_New u) = expected)) fs"
proof -
  have steps: "safe (recoverable e u)
      (andThen (orElse (requireHandleDigest e (ss_Staged (state_of u)) expected) failBeforeRecord) (\<lambda>_.
       andThen (orElse (digestHandle e (ss_Target (state_of u))) failBeforeRecord) (\<lambda>digest.
       andThen (orElse bare_call failBeforeRecord) (\<lambda>_.
       replace_recorded e (state_of u) (new_record (state_of u) digest (ss_Source (state_of u)))))))
     (\<lambda>r s. done_well e u r s \<and> (isl r \<or> we_sha e (uc_New u) = expected)) s" if f: "fresh e u s" for s
  proof -
    have contents: "wf_Object s (uc_Original u) = \<lparr>wo_Bytes = uc_Bytes u, wo_Binding = uc_Binding u\<rparr>"
      "wo_Bytes (wf_Object s (uc_Staged u)) = uc_New u" using f by (simp_all add: fresh_def intact_def)
    note rec = replace_recorded_safe [OF c f, unfolded prepared_of_def, folded state_of_def]
    show ?thesis
      unfolding digestHandle_def
      using contents fresh_recoverable [OF f]
      by (auto intro!: safe_intros safe_checks safe_observe safe_mono [OF failBeforeRecord_safe] safe_mono [OF rec] split: sum.splits)
  qed
  show ?thesis
    unfolding replace_under_lock_def
    by (auto intro!: safe_intros safe_mono [OF fresh_cleanup_safe [OF f]] safe_mono [OF prepare_safe [OF c]] steps [simplified] f
      fresh_recoverable split: sum.splits)
qed

lemma replaceExecutable_safe:
  assumes c: "case_ok e u" and f: "fresh e u fs"
  shows "safe (recoverable e u) (replaceExecutable e expected)
    (\<lambda>r s. done_well e u r s \<and> (isl r \<or> we_sha e (uc_New u) = expected)) fs"
  unfolding replaceExecutable_def acquireWindowsReplacementLock_def closing_def
  using fresh_recoverable [OF f]
  by (auto intro!: safe_intros safe_mono [OF replace_under_lock_safe [OF c f]] split: sum.splits)

end
