(* ===== verification/Windows_Update_Props.thy ===== *)
theory Windows_Update_Props
  imports Windows_Update
begin

text \<open>
  Properties of a whole update on Windows: one run of the replacement, stopped anywhere, and any number of
  later starts, each stopped anywhere.
\<close>

section \<open>Histories of an update\<close>

fun stops_in :: "'a outcome \<Rightarrow> win_fs \<Rightarrow> bool" where
  "stops_in (Crashed fs') fs \<longleftrightarrow> fs' = fs"
| "stops_in (Returned r w) fs \<longleftrightarrow> ww_Fs w = fs"

inductive update_history :: "win_env \<Rightarrow> bytes \<Rightarrow> win_fs \<Rightarrow> win_fs \<Rightarrow> bool" for e expected start where
  replacement: "stops_in (replaceExecutable e expected \<lparr>ww_Fs = start, ww_Fates = fates\<rparr>) fs \<Longrightarrow>
    update_history e expected start fs"
| later_start: "update_history e expected start fs \<Longrightarrow> we_sha e' = we_sha e \<Longrightarrow> we_crc e' = we_crc e \<Longrightarrow>
    stops_in (cleanupPreviousExecutable e' \<lparr>ww_Fs = fs, ww_Fates = fates\<rparr>) fs' \<Longrightarrow>
    update_history e expected start fs'"

text \<open>The digest and checksum functions are all that the stages use of the environment.\<close>

lemma same_functions:
  assumes "we_sha e' = we_sha e" and "we_crc e' = we_crc e"
  shows "prepared_of e' u = prepared_of e u" "completed_of e' u = completed_of e u" "rec_of e' = rec_of e"
    "case_ok e' u = case_ok e u" "recoverable e' u = recoverable e u" "canonical e' u = canonical e u"
proof -
  show p: "prepared_of e' u = prepared_of e u" and c: "completed_of e' u = completed_of e u" and r: "rec_of e' = rec_of e"
    using assms by (auto simp: prepared_of_def completed_of_def new_record_def rec_of_def)
  show "case_ok e' u = case_ok e u" by (simp add: case_ok_def p)
  show "recoverable e' u = recoverable e u" "canonical e' u = canonical e u"
    by (rule ext, simp add: recoverable_def stage_defs canonical_def p c r)+
qed

lemma safe_stops: "safe I m Q fs \<Longrightarrow> (\<And>r s. Q r s \<Longrightarrow> I s) \<Longrightarrow> stops_in (m \<lparr>ww_Fs = fs, ww_Fates = fates\<rparr>) fs' \<Longrightarrow> I fs'"
  by (cases "m \<lparr>ww_Fs = fs, ww_Fates = fates\<rparr>") (auto simp: safe_def dest: spec [of _ fates])

lemma history_recoverable:
  assumes "case_ok e u" and "fresh e u start" and "update_history e expected start fs"
  shows "recoverable e u fs"
  using assms(3)
proof induction
  case (replacement fates fs)
  show ?case by (rule safe_stops [OF replaceExecutable_safe [OF assms(1,2)] _ replacement]) simp
next
  case (later_start fs e' fates fs')
  note same = same_functions [OF later_start(2,3)]
  have "recoverable e' u fs'"
    by (rule safe_stops [OF cleanupPrevious_safe _ later_start(4)]) (use assms(1) later_start(5) same in simp_all)
  then show ?case by (simp add: same)
qed

section \<open>An unverified file changes nothing\<close>

lemma fresh_verify_safe:
  assumes c: "case_ok e u" and f: "fresh e u fs" and bad: "we_sha e (uc_New u) \<noteq> expected"
  shows "safe (fresh e u) (replaceExecutable e expected) (\<lambda>r s. isl r \<and> fresh e u s) fs"
proof -
  have bind: "fresh e u (bind_staged e u fs)" using c f by simp
  then have i: "intact u (bind_staged e u fs)" "wo_Binding (wf_Object fs (uc_Original u)) = uc_Binding u"
    using f by (simp_all add: fresh_def intact_def)
  have names: "wf_Name fs Target = Some (uc_Original u)" "wf_Name fs Staged = Some (uc_Staged u)"
    "wf_Name fs RecordFile = None" "wf_Name fs Backup = None"
    using f by (simp_all add: fresh_def names_are_def)
  have staged: "wo_Bytes (wf_Object (bind_staged e u fs) (uc_Staged u)) = uc_New u" using i(1) by (simp add: intact_def)
  show ?thesis
    unfolding replaceExecutable_def acquireWindowsReplacementLock_def replace_under_lock_def
      cleanupCompletedWindowsRollbackUnderLock_def prepareWindowsReplacementSecurity_def
      failBeforeRecord_def state_of_def [symmetric] Let_def closing_def
    using f bind bad
    by (auto intro!: safe_intros safe_checks safe_observe safe_apply_security safe_verify_security
      simp: names staged i(2) state_of_def [symmetric] split: sum.splits)
qed

lemma fresh_start_safe:
  assumes "fresh e u fs"
  shows "safe (fresh e u) (cleanupPreviousExecutable e') (\<lambda>r s. fresh e u s) fs"
  unfolding cleanupPreviousExecutable_def windowsReplacementRecoveryRequired_def
  using assms
  by (auto intro!: safe_intros safe_checks simp: fresh_def names_are_def)

lemma rejected_history:
  assumes "case_ok e u" and "fresh e u start" and "we_sha e (uc_New u) \<noteq> expected" and "update_history e expected start fs"
  shows "fresh e u fs"
  using assms(4)
proof induction
  case (replacement fates fs)
  show ?case by (rule safe_stops [OF fresh_verify_safe [OF assms(1-3)] _ replacement]) simp
next
  case (later_start fs e' fates fs')
  show ?case by (rule safe_stops [OF fresh_start_safe [OF later_start(5)] _ later_start(4)])
qed

section \<open>Undisturbed runs\<close>

text \<open>A run in which no call fails for another reason than the directory.\<close>

abbreviation calm :: "win_fs \<Rightarrow> win_world" where
  "calm fs \<equiv> \<lparr>ww_Fs = fs, ww_Fates = []\<rparr>"

lemma calm_syscall:
  "syscall f (calm fs) = (case f fs of Inl e \<Rightarrow> Returned (Inl e) (calm fs) | Inr (x, s) \<Rightarrow> Returned (Inr x) (calm s))"
  by (auto simp: syscall_def next_fate_def spend_def split: sum.splits)

lemma calm_andThen: "andThen m k w = (case m w of Crashed fs \<Rightarrow> Crashed fs
    | Returned r w1 \<Rightarrow> (case r of Inl e \<Rightarrow> Returned (Inl e) w1 | Inr x \<Rightarrow> k x w1))"
  by (auto simp: andThen_def attempt_def refuse_def split: outcome.split sum.split)

lemma calm_orElse: "orElse m h w = (case m w of Crashed fs \<Rightarrow> Crashed fs
    | Returned r w1 \<Rightarrow> (case r of Inl e \<Rightarrow> h e w1 | Inr x \<Rightarrow> Returned (Inr x) w1))"
  by (auto simp: orElse_def attempt_def yield_def split: outcome.split sum.split)

lemma calm_attempt: "attempt m k w = (case m w of Crashed fs \<Rightarrow> Crashed fs | Returned r w1 \<Rightarrow> k r w1)"
  by (simp add: attempt_def)

lemma calm_observe:
  "observe f (calm fs) = Returned (f fs) (calm fs)"
  by (auto simp: observe_def calm_syscall split: sum.splits)

lemma calm_change: "change f (calm fs) = Returned (Inr ()) (calm (f fs))"
  by (simp add: change_def calm_syscall)

lemma calm_bare: "bare_call (calm fs) = Returned (Inr ()) (calm fs)"
  by (simp add: bare_call_def calm_change)

lemma calm_closing: "closing a bare_call m w = (case m w of Crashed fs \<Rightarrow> Crashed fs
    | Returned r w1 \<Rightarrow> (case bare_call w1 of Crashed fs \<Rightarrow> Crashed fs | Returned c w2 \<Rightarrow> (case (r, c) of
        (Inl e, Inl e') \<Rightarrow> refuse (join_errors e e') w2
      | (Inl e, Inr _) \<Rightarrow> refuse e w2
      | (Inr x, Inl e') \<Rightarrow> if a then refuse e' w2 else yield x w2
      | (Inr x, Inr _) \<Rightarrow> yield x w2)))"
  by (auto simp: closing_def attempt_def split: outcome.split sum.split)

lemmas calm_steps =
  calm_andThen calm_orElse calm_attempt calm_observe calm_change calm_bare calm_closing wrapping_def opaque_def
  yield_def refuse_def require_def

lemma calm_openFile:
  "openFile n (calm fs) = (case wf_Name fs n of None \<Rightarrow> Returned (Inl not_found) (calm fs) | Some i \<Rightarrow> Returned (Inr i) (calm fs))"
  by (simp add: openFile_def calm_observe split: option.split)

lemma calm_inspectOptionalPath:
  "inspectOptionalPath n (calm fs) = (case wf_Name fs n of None \<Rightarrow> Returned (Inr None) (calm fs)
     | Some i \<Rightarrow> if links fs i = 1 then Returned (Inr (Some i)) (calm fs) else Returned (Inl plain) (calm fs))"
  by (auto simp: inspectOptionalPath_def inspectPath_def inspect_and_close_def inspectHandle_def inspectHandleObject_def
    calm_steps calm_openFile split: option.split)

lemma calm_requirePathAbsent:
  "wf_Name fs n = None \<Longrightarrow> requirePathAbsent n (calm fs) = Returned (Inr ()) (calm fs)"
  by (simp add: requirePathAbsent_def calm_steps calm_inspectOptionalPath)

lemma calm_requirePathIdentity:
  "requirePathIdentity n i (calm fs) = (if wf_Name fs n = Some i \<and> links fs i = 1 then Returned (Inr ()) (calm fs)
     else if wf_Name fs n = None then Returned (Inl not_found) (calm fs) else Returned (Inl plain) (calm fs))"
  by (auto simp: requirePathIdentity_def inspectPath_def inspect_and_close_def inspectHandle_def inspectHandleObject_def
    calm_steps calm_openFile split: option.split)

lemma calm_requirePathObjectIdentity:
  "wf_Name fs n = Some i \<Longrightarrow> links fs i = k \<Longrightarrow> requirePathObjectIdentity n i k (calm fs) = Returned (Inr ()) (calm fs)"
  by (simp add: requirePathObjectIdentity_def inspect_and_close_def inspectHandleObject_def calm_steps calm_openFile)

lemma calm_inspectHandle:
  "inspectHandle h (calm fs) = Returned (if links fs h = 1 then Inr () else Inl plain) (calm fs)"
  "inspectHandleObject h (calm fs) = Returned (Inr (links fs h)) (calm fs)"
  "requireHandleIdentity h i (calm fs) = Returned (if links fs h = 1 \<and> h = i then Inr () else Inl plain) (calm fs)"
  "requireHandleObjectIdentity h i n (calm fs) = Returned (if links fs h = n \<and> h = i then Inr () else Inl plain) (calm fs)"
  by (auto simp: inspectHandle_def inspectHandleObject_def requireHandleIdentity_def requireHandleObjectIdentity_def calm_steps)

lemma calm_requireHandleDigest:
  "requireHandleDigest e h d (calm fs) = Returned (if we_sha e (wo_Bytes (wf_Object fs h)) = d then Inr () else Inl plain) (calm fs)"
  "digestHandle e h (calm fs) = Returned (Inr (we_sha e (wo_Bytes (wf_Object fs h)))) (calm fs)"
  by (simp_all add: requireHandleDigest_def digestHandle_def calm_steps)

lemma calm_renameHandle:
  "link_of fs h = Some n \<Longrightarrow> overwrite \<or> wf_Name fs dest = None \<Longrightarrow>
   renameHandle h dest overwrite (calm fs) = Returned (Inr ()) (calm (set_name dest (Some h) (set_name n None fs)))"
  by (simp add: renameHandle_def calm_syscall)

lemma calm_links:
  "linkHandle h n (calm fs) = Returned (Inr ()) (calm (set_name n (Some h) fs))"
  "unlinkHandle n (calm fs) = Returned (Inr ()) (calm (set_name n None fs))"
  "remove_record (calm fs) = Returned (Inr ()) (calm (set_name RecordFile None fs))"
  by (simp_all add: linkHandle_def unlinkHandle_def remove_record_def calm_steps)

lemma calm_binding:
  "validateWindowsSecurityBinding b \<Longrightarrow> beginVerifier b (calm fs) = Returned (Inr ()) (calm fs)"
  "verifyBinding b h (calm fs) = Returned (if compareWindowsSecurityBindings b (wo_Binding (wf_Object fs h)) then Inr () else Inl plain) (calm fs)"
  by (simp_all add: beginVerifier_def verifyBinding_def calm_steps)

lemma calm_lock: "acquireWindowsReplacementLock (calm fs) = Returned (Inr ()) (calm fs)"
  by (simp add: acquireWindowsReplacementLock_def calm_steps)

lemmas calm_calls =
  calm_openFile calm_inspectOptionalPath calm_requirePathAbsent calm_requirePathIdentity calm_requirePathObjectIdentity
  calm_inspectHandle calm_requireHandleDigest calm_renameHandle calm_links calm_binding calm_lock

lemmas cleanup_defs =
  cleanupPreviousExecutable_def windowsReplacementRecoveryRequired_def cleanupCompletedWindowsRollbackUnderLock_def
  cleanup_completed_def discard_backup_def recoverPreparedWindowsReplacement_def recover_from_backup_def
  completePreparedAtCanonical_def finish_recovery_def cleanupDisplacedMapped_def authenticate_backup_def
  authenticate_restored_def restore_over_target_def restoreMapped_def replace_by_link_def completeLinkedRecovery_def

text \<open>Nothing of the update is left but the canonical executable and perhaps the staged file.\<close>

definition settled :: "win_fs \<Rightarrow> bool" where
  "settled fs \<longleftrightarrow> wf_Name fs Target \<noteq> None \<and> (\<forall>n \<in> {Backup, RecordFile, MappedLink}. wf_Name fs n = None)"

definition recorded_as :: "win_env \<Rightarrow> update_case \<Rightarrow> replacement_record \<Rightarrow> win_fs \<Rightarrow> bool" where
  "recorded_as e u r fs \<longleftrightarrow>
     intact u fs \<and> rec_of e fs = Some (Inr r) \<and> wo_Binding (wf_Object fs (uc_Record u)) = we_Control e"

definition resumable :: "win_env \<Rightarrow> update_case \<Rightarrow> win_fs \<Rightarrow> bool" where
  "resumable e u fs \<longleftrightarrow> recoverable e u fs \<and>
     (wf_Name fs RecordFile = None
      \<or> recorded_as e u (prepared_of e u) fs
      \<or> recorded_as e u (completed_of e u) fs \<and> (replaced e u fs \<or> committed e u fs))"

lemma case_distinct:
  assumes "case_ok e u"
  shows "uc_Original u \<noteq> uc_Staged u" "uc_Staged u \<noteq> uc_Original u" "uc_Record u \<noteq> uc_Original u" "uc_Original u \<noteq> uc_Record u"
    "uc_Record u \<noteq> uc_Staged u" "uc_Staged u \<noteq> uc_Record u" "validateWindowsSecurityBinding (uc_Binding u)"
  using assms by (auto simp: case_ok_def record_shaped_def)

lemma recorded_as_facts:
  assumes "recorded_as e u r fs"
  shows "wf_Name fs RecordFile = Some (uc_Record u)" "wo_Binding (wf_Object fs (uc_Record u)) = we_Control e"
    "decodeWindowsReplacementRecord (we_crc e) (take (Suc recordSize) (wo_Bytes (wf_Object fs (uc_Record u)))) = Inr r"
    "wf_Object fs (uc_Original u) = \<lparr>wo_Bytes = uc_Bytes u, wo_Binding = uc_Binding u\<rparr>"
  using assms by (auto simp: recorded_as_def rec_of_def intact_def)

lemma calm_openRecord:
  assumes "recorded_as e u r fs" and "links fs (uc_Record u) = 1"
  shows "openWindowsReplacementRecord e (calm fs) = Returned (Inr r) (calm fs)"
  using recorded_as_facts [OF assms(1)] assms(2)
  by (simp add: openWindowsReplacementRecord_def validate_control_def read_record_def calm_steps calm_calls)

lemmas calm_cleanup = cleanup_defs calm_steps calm_calls calm_openRecord all_names_filter link_of_names not_found_def [symmetric]

lemma settle_unrecorded:
  assumes "recoverable e u fs" and "wf_Name fs RecordFile = None"
  shows "cleanupPreviousExecutable e' (calm fs) = Returned (Inr ()) (calm fs) \<and> settled fs"
  using assms by (auto simp: calm_cleanup recoverable_def stage_defs rec_of_def settled_def)

lemma settle_prepared:
  assumes c: "case_ok e u" and r: "recorded_as e u (prepared_of e u) fs"
    and s: "untouched e u fs \<or> displaced e u fs \<or> linked e u fs \<or> moved e u fs \<or> replaced e u fs \<and> we_Image e \<noteq> uc_Staged u"
  shows "\<exists>fs1. cleanupPreviousExecutable e (calm fs) = Returned (Inr ()) (calm fs1) \<and> settled fs1
    \<and> wf_Name fs1 Target = Some (uc_Original u)"
  using s r case_distinct [OF c] recorded_as_facts [OF r]
  by (elim disjE conjE) (auto simp: calm_cleanup stage_defs settled_def recordPrepared_def recordCompleted_def)

lemma settle_completed:
  assumes c: "case_ok e u" and r: "recorded_as e u (completed_of e u) fs" and s: "replaced e u fs \<or> committed e u fs"
  shows "\<exists>fs1. cleanupPreviousExecutable e (calm fs) = Returned (Inr ()) (calm fs1) \<and> settled fs1
    \<and> wf_Name fs1 Target = Some (uc_Staged u)"
  using r s case_distinct [OF c] recorded_as_facts [OF r]
  by (auto simp: calm_cleanup stage_defs settled_def recordPrepared_def recordCompleted_def)

lemma displace_mapped:
  assumes c: "case_ok e u" and r: "recorded_as e u (prepared_of e u) fs" and s: "replaced e u fs"
    and "we_Image e = uc_Staged u"
  shows "\<exists>fs1 err. cleanupPreviousExecutable e (calm fs) = Returned (Inl err) (calm fs1) \<and> ue_Required err
    \<and> displaced e u fs1 \<and> recorded_as e u (prepared_of e u) fs1"
  using r s assms(4) case_distinct [OF c] recorded_as_facts [OF r]
  by (auto simp: calm_cleanup stage_defs recorded_as_def recordPrepared_def recordCompleted_def
    blockOnRecoveryEvidence_def requireRecovery_def)

section \<open>An undisturbed replacement\<close>

lemma calm_write_record:
  assumes "length (wo_Bytes (wf_Object fs h)) \<le> length (encodeWindowsReplacementRecord (we_crc e) r)"
  shows "write_record e h r (calm fs) = Returned (Inr ()) (calm (put_bytes h (encodeWindowsReplacementRecord (we_crc e) r) fs))"
  using assms
  by (simp add: write_record_def Let_def calm_steps writeFile_def next_fate_def spend_def setEndOfFile_def torn_write_def)

lemma calm_renameExpectedHandle:
  assumes "links fs h = 1" and "link_of fs h = Some n" and "overwrite \<or> wf_Name fs dest = None"
    and "fs1 = set_name dest (Some h) (set_name n None fs)" and "links fs1 h = 1"
  shows "renameExpectedHandle h dest h overwrite (calm fs) = Returned (Inr ()) (calm fs1)"
  using assms by (auto simp: renameExpectedHandle_def requireHandleFinalPath_def calm_steps calm_calls)

lemma calm_prepare:
  assumes c: "case_ok e u" and f: "fresh e u fs"
    and "compareWindowsSecurityBindings (uc_Binding u) (we_Applied e (uc_Binding u))"
  shows "prepareWindowsReplacementSecurity e (calm fs) = Returned (Inr (state_of u)) (calm (bind_staged e u fs))"
  using f assms(3) case_distinct [OF c]
  by (auto simp: prepareWindowsReplacementSecurity_def apply_security_def verify_security_def calm_steps calm_calls Let_def
    fresh_def names_are_def all_names_filter bind_staged_def state_of_def set_object_def intact_def)

lemma calm_create:
  assumes c: "case_ok e u" and f: "fresh e u fs"
  shows "\<exists>fs1. createWindowsReplacementRecord e (prepared_of e u) (calm fs) = Returned (Inr (uc_Record u)) (calm fs1)
    \<and> recorded e u fs1 \<and> wo_Binding (wf_Object fs1 (uc_Record u)) = we_Control e"
  using f case_distinct [OF c]
  by (auto simp: createWindowsReplacementRecord_def create_new_def validate_control_def calm_steps calm_calls calm_syscall
    fresh_def names_are_def all_names_filter calm_write_record set_object_def prepared_at_def intact_def)

lemma calm_preserve:
  assumes c: "case_ok e u" and p: "recorded e u fs"
  shows "\<exists>fs1. preserve_running e (state_of u) r (calm fs) = Returned (Inr ()) (calm fs1)
    \<and> set_aside e u fs1 \<and> wf_Object fs1 = wf_Object fs"
  using p case_distinct [OF c]
  by (auto simp: preserve_running_def calm_steps calm_renameExpectedHandle prepared_at_def names_are_def
    all_names_filter link_of_names)

lemma calm_install:
  assumes c: "case_ok e u" and p: "set_aside e u fs" and b: "compareWindowsSecurityBindings (uc_Binding u) (we_Applied e (uc_Binding u))"
    and w: "wo_Binding (wf_Object fs (uc_Record u)) = we_Control e"
  shows "\<exists>fs1. install_replacement e (state_of u) (uc_Record u) (prepared_of e u) (calm fs) = Returned (Inr ()) (calm fs1)
    \<and> recorded_as e u (completed_of e u) fs1 \<and> replaced e u fs1"
proof -
  let ?fs1 = "bind_staged e u (set_name Target (Some (uc_Staged u)) (set_name Staged None fs))"
  let ?fs2 = "put_bytes (uc_Record u) (encodeWindowsReplacementRecord (we_crc e) (completed_of e u)) ?fs1"
  note lens = length_encoded [OF shaped_case(1) [OF c], of "we_crc e"] length_encoded [OF shaped_case(2) [OF c], of "we_crc e"]
  have "installed e u (set_name Target (Some (uc_Staged u)) (set_name Staged None fs))"
    using p by (simp add: prepared_at_def names_are_def)
  then have q: "installed e u ?fs1" using c by simp
  have bd: "bound u ?fs1" using p b by (auto simp: bound_def bind_staged_def set_object_def prepared_at_def intact_def)
  have w1: "wo_Binding (wf_Object ?fs1 (uc_Record u)) = we_Control e"
    using w case_distinct [OF c] by (simp add: bind_staged_def set_object_def)
  have rec: "rec_of e ?fs2 = Some (Inr (completed_of e u))"
    using q lens record_decode_encode [OF shaped_case(2) [OF c]] by (simp add: prepared_at_def)
  have final: "recorded_as e u (completed_of e u) ?fs2 \<and> replaced e u ?fs2"
    using q bd rec w1 c by (simp add: recorded_as_def replaced_def prepared_at_def names_are_def)
  have apply_s: "apply_security e (state_of u) (calm s) = Returned (Inr ()) (calm (bind_staged e u s))" for s
    by (simp add: apply_security_def bind_staged_def calm_steps)
  have verify: "verify_security (state_of u) (calm ?fs1) = Returned (Inr ()) (calm ?fs1)"
    using bd q by (auto simp: verify_security_def calm_steps bound_def prepared_at_def intact_def)
  have mark: "markCompleted e (uc_Record u) (prepared_of e u) (calm ?fs1) = Returned (Inr ()) (calm ?fs2)"
    using q lens unfolding markCompleted_def completed_of_def [symmetric]
    by (subst calm_write_record) (auto simp: prepared_at_def)
  show ?thesis
    using p case_distinct [OF c] final
    by (intro exI [of _ ?fs2])
      (simp add: install_replacement_def calm_steps calm_renameExpectedHandle calm_requirePathIdentity apply_s verify mark
        prepared_at_def names_are_def all_names_filter link_of_names)
qed

lemma calm_replace:
  assumes c: "case_ok e u" and f: "fresh e u fs" and d: "we_sha e (uc_New u) = expected"
    and b: "compareWindowsSecurityBindings (uc_Binding u) (we_Applied e (uc_Binding u))"
  shows "\<exists>fs1. replaceExecutable e expected (calm fs) = Returned (Inr ()) (calm fs1)
    \<and> recorded_as e u (completed_of e u) fs1 \<and> replaced e u fs1"
proof -
  have f1: "fresh e u (bind_staged e u fs)" using f c by simp
  obtain s1 where s1: "createWindowsReplacementRecord e (prepared_of e u) (calm (bind_staged e u fs)) =
      Returned (Inr (uc_Record u)) (calm s1)" "recorded e u s1" "wo_Binding (wf_Object s1 (uc_Record u)) = we_Control e"
    using calm_create [OF c f1] by blast
  obtain s2 where s2: "preserve_running e (state_of u) (prepared_of e u) (calm s1) = Returned (Inr ()) (calm s2)"
    "set_aside e u s2" "wf_Object s2 = wf_Object s1"
    using calm_preserve [OF c s1(2)] by blast
  obtain s3 where s3: "install_replacement e (state_of u) (uc_Record u) (prepared_of e u) (calm s2) = Returned (Inr ()) (calm s3)"
    "recorded_as e u (completed_of e u) s3" "replaced e u s3"
    using calm_install [OF c s2(2) b] s1(3) s2(3) by auto
  have contents: "wf_Object (bind_staged e u fs) (uc_Original u) = \<lparr>wo_Bytes = uc_Bytes u, wo_Binding = uc_Binding u\<rparr>"
    "wo_Bytes (wf_Object (bind_staged e u fs) (uc_Staged u)) = uc_New u" "wf_Name fs RecordFile = None" "wf_Name fs Backup = None"
    using f f1 by (simp_all add: fresh_def intact_def names_are_def)
  have p: "new_record (state_of u) (we_sha e (uc_Bytes u)) (uc_Binding u) = prepared_of e u"
    by (simp add: prepared_of_def state_of_def)
  show ?thesis
    using s3(2,3) d
    by (simp add: replaceExecutable_def replace_under_lock_def replace_recorded_def cleanupCompletedWindowsRollbackUnderLock_def
      calm_steps calm_calls calm_prepare [OF c f b] contents p s1(1) s2(1) s3(1))
qed

section \<open>A record without content\<close>

lemma unreadable_blocks:
  assumes "wf_Name fs RecordFile \<noteq> None" and "\<And>r. rec_of e fs \<noteq> Some (Inr r)"
  shows "safe (\<lambda>s. s = fs) (cleanupPreviousExecutable e) (\<lambda>r s. isl r \<and> s = fs) fs"
  unfolding cleanupPreviousExecutable_def windowsReplacementRecoveryRequired_def acquireWindowsReplacementLock_def
    cleanupCompletedWindowsRollbackUnderLock_def openWindowsReplacementRecord_def validate_control_def read_record_def
  using assms
  by (auto intro!: safe_intros safe_checks safe_observe simp: rec_of_def split: sum.splits if_splits)

text \<open>The calls up to the creation of the record file succeed; the process stops before its content is written.\<close>

lemma spend_Go:
  "syscall f \<lparr>ww_Fs = fs, ww_Fates = Go # fates\<rparr> = (case f fs of Inl e \<Rightarrow> Returned (Inl e) \<lparr>ww_Fs = fs, ww_Fates = fates\<rparr>
     | Inr (x, s) \<Rightarrow> Returned (Inr x) \<lparr>ww_Fs = s, ww_Fates = fates\<rparr>)"
  by (auto simp: syscall_def next_fate_def spend_def split: sum.splits)

lemma spend_Crash: "syscall f \<lparr>ww_Fs = fs, ww_Fates = Crash # fates\<rparr> = Crashed fs"
  by (simp add: syscall_def next_fate_def)

lemmas fated_calls =
  calm_andThen calm_orElse calm_attempt require_def yield_def refuse_def observe_def spend_Go spend_Crash change_def
  bare_call_def openFile_def inspectHandle_def inspectHandleObject_def inspectOptionalPath_def inspectPath_def

definition blank_record :: "win_env \<Rightarrow> update_case \<Rightarrow> win_fs \<Rightarrow> win_fs" where
  "blank_record e u fs =
     set_object (uc_Record u) \<lparr>wo_Bytes = [], wo_Binding = we_Control e\<rparr> (set_name RecordFile (Some (uc_Record u)) fs)"

lemma create_then_stop:
  assumes "wf_Name fs RecordFile = None" and "validateWindowsSecurityBinding (uc_Binding u)" and "we_New e = uc_Record u"
  shows "createWindowsReplacementRecord e (prepared_of e u) \<lparr>ww_Fs = fs, ww_Fates = [Go, Go, Crash]\<rparr> =
    Crashed (blank_record e u fs)"
  using assms
  by (simp add: createWindowsReplacementRecord_def requirePathAbsent_def fated_calls create_new_def blank_record_def)

lemma replace_then_stop:
  assumes c: "case_ok e u" and f: "fresh e u fs" and d: "we_sha e (uc_New u) = expected"
    and b: "compareWindowsSecurityBindings (uc_Binding u) (we_Applied e (uc_Binding u))"
  shows "replaceExecutable e expected \<lparr>ww_Fs = fs, ww_Fates = replicate 18 Go @ [Crash]\<rparr> =
    Crashed (blank_record e u (bind_staged e u fs))"
proof -
  have p: "new_record (state_of u) (we_sha e (uc_Bytes u)) (uc_Binding u) = prepared_of e u"
    by (simp add: prepared_of_def state_of_def)
  have contents: "wf_Object (bind_staged e u fs) (uc_Original u) = \<lparr>wo_Bytes = uc_Bytes u, wo_Binding = uc_Binding u\<rparr>"
    "wo_Bytes (wf_Object (bind_staged e u fs) (uc_Staged u)) = uc_New u" "wf_Name fs RecordFile = None" "we_New e = uc_Record u"
    using f c bind_staged_simps(4) [OF c, of fs] by (simp_all add: fresh_def intact_def)
  note stop = create_then_stop [of "bind_staged e u fs" u e]
  have prepared: "prepareWindowsReplacementSecurity e
      \<lparr>ww_Fs = fs, ww_Fates = Go # Go # Go # Go # Go # Go # Go # Go # Go # rest\<rparr> =
      Returned (Inr (state_of u)) \<lparr>ww_Fs = bind_staged e u fs, ww_Fates = rest\<rparr>" for rest
    using f b case_distinct [OF c]
    by (auto simp: prepareWindowsReplacementSecurity_def apply_security_def verify_security_def closing_def fated_calls Let_def
      fresh_def names_are_def all_names_filter bind_staged_def state_of_def set_object_def intact_def)
  have b0: "wf_Name fs Backup = None" using f by (simp add: fresh_def names_are_def)
  show ?thesis
    using d b0 contents case_distinct [OF c]
    by (simp add: replaceExecutable_def replace_under_lock_def replace_recorded_def cleanupCompletedWindowsRollbackUnderLock_def
      acquireWindowsReplacementLock_def wrapping_def closing_def requireHandleDigest_def digestHandle_def
      fated_calls numeral_eq_Suc prepared p stop)
qed

section \<open>A concrete update\<close>

definition demo_id :: "byte \<Rightarrow> file_identity" where
  "demo_id n = \<lparr>fi_Volume = 7, fi_File = replicate 16 n\<rparr>"

definition demo_binding :: security_binding where
  "demo_binding = \<lparr>sb_Metadata = bindingOrdinary, sb_Digest = replicate 32 9\<rparr>"

definition demo_env :: win_env where
  "demo_env = \<lparr>we_sha = (\<lambda>b. replicate 32 (foldr (+) b 0)), we_crc = (\<lambda>b. foldr (\<lambda>x a. a + ucast x) b 0),
     we_New = demo_id 3, we_Control = demo_binding, we_Image = demo_id 1, we_Applied = id\<rparr>"

definition demo_case :: update_case where
  "demo_case = \<lparr>uc_Original = demo_id 1, uc_Staged = demo_id 2, uc_Record = demo_id 3,
     uc_Bytes = [1, 1], uc_Binding = demo_binding, uc_New = [2, 2]\<rparr>"

definition demo_start :: win_fs where
  "demo_start = \<lparr>wf_Name = (\<lambda>n. case n of Target \<Rightarrow> Some (demo_id 1) | Staged \<Rightarrow> Some (demo_id 2) | _ \<Rightarrow> None),
     wf_Object = (\<lambda>i. if i = demo_id 1 then \<lparr>wo_Bytes = [1, 1], wo_Binding = demo_binding\<rparr>
       else \<lparr>wo_Bytes = [2, 2], wo_Binding = demo_binding\<rparr>)\<rparr>"

lemma demo_ids [simp]: "demo_id a = demo_id b \<longleftrightarrow> a = b"
  by (simp add: demo_id_def)

lemma demo_binding_valid [simp]: "validateWindowsSecurityBinding demo_binding"
  by (simp add: demo_binding_def validateWindowsSecurityBinding_def bindingOrdinary_def bindingTierMask_def bindingAutoInherited_def)

lemma demo_case_ok: "case_ok demo_env demo_case"
  by (simp add: case_ok_def demo_case_def prepared_of_def new_record_def record_shaped_def demo_env_def)
    (simp add: demo_id_def demo_binding_def)

lemma demo_fresh: "fresh demo_env demo_case demo_start"
  by (simp add: fresh_def intact_def names_are_def demo_case_def demo_start_def demo_env_def)

lemma demo_digest: "we_sha demo_env (uc_New demo_case) = replicate 32 4"
  by (simp add: demo_env_def demo_case_def)

lemma demo_applied: "compareWindowsSecurityBindings (uc_Binding demo_case) (we_Applied demo_env (uc_Binding demo_case))"
  by (simp add: demo_env_def demo_case_def)

text \<open>The state of the concrete update after the replacement was stopped before the record had any content.\<close>

lemma demo_history:
  "update_history demo_env (replicate 32 4) demo_start (blank_record demo_env demo_case (bind_staged demo_env demo_case demo_start))"
  by (rule update_history.replacement [of _ _ _ "replicate 18 Go @ [Crash]"])
    (simp only: replace_then_stop [OF demo_case_ok demo_fresh demo_digest demo_applied] stops_in.simps)

lemma demo_unrecorded: "resumable demo_env demo_case demo_start"
  using fresh_recoverable [OF demo_fresh] demo_fresh by (simp add: resumable_def fresh_def)

lemma demo_committed:
  "\<exists>fs fs1. update_history demo_env (replicate 32 4) demo_start fs \<and>
     cleanupPreviousExecutable demo_env (calm fs) = Returned (Inr ()) (calm fs1) \<and> wf_Name fs1 Target = Some (demo_id 2)"
proof -
  obtain fs where fs: "replaceExecutable demo_env (replicate 32 4) (calm demo_start) = Returned (Inr ()) (calm fs)"
    "recorded_as demo_env demo_case (completed_of demo_env demo_case) fs" "replaced demo_env demo_case fs"
    using calm_replace [OF demo_case_ok demo_fresh demo_digest demo_applied] by blast
  have "update_history demo_env (replicate 32 4) demo_start fs"
    by (rule update_history.replacement [of _ _ _ "[]"]) (simp add: fs(1))
  then show ?thesis
    using settle_completed [OF demo_case_ok fs(2)] fs(3) by (auto simp: demo_case_def)
qed

section \<open>Properties\<close>

text \<open>
  C1. Whatever system call of the replacement fails, wherever the process stops, and however many later starts
  stop anywhere in their recovery: the original executable is at its own name or at the rollback name with its
  bytes and security descriptor, or the canonical name holds the file whose digest was verified, under
  the security binding of the original.
\<close>

theorem update_never_loses_the_executable:
  assumes "case_ok e u" and "fresh e u start" and "update_history e expected start fs"
  shows "(\<exists>n \<in> {Target, Backup}. wf_Name fs n = Some (uc_Original u)
            \<and> wf_Object fs (uc_Original u) = \<lparr>wo_Bytes = uc_Bytes u, wo_Binding = uc_Binding u\<rparr>)
       \<or> (wf_Name fs Target = Some (uc_Staged u) \<and> wo_Bytes (wf_Object fs (uc_Staged u)) = uc_New u
            \<and> we_sha e (uc_New u) = expected
            \<and> compareWindowsSecurityBindings (uc_Binding u) (wo_Binding (wf_Object fs (uc_Staged u))))"
proof (cases "we_sha e (uc_New u) = expected")
  case True
  with history_recoverable [OF assms] show ?thesis
    by (auto simp: recoverable_def stage_defs intact_def bound_def)
next
  case False
  with rejected_history [OF assms(1,2) _ assms(3)] show ?thesis by (auto simp: fresh_def names_are_def intact_def)
qed

theorem update_never_loses_the_executable_witness:
  "let fs = blank_record demo_env demo_case (bind_staged demo_env demo_case demo_start) in
   (\<exists>n \<in> {Target, Backup}. wf_Name fs n = Some (demo_id 1))
   \<or> (wf_Name fs Target = Some (demo_id 2) \<and> wo_Bytes (wf_Object fs (demo_id 2)) = [2, 2])"
  using update_never_loses_the_executable [OF demo_case_ok demo_fresh demo_history]
  unfolding Let_def by (auto simp: demo_case_def)

text \<open>
  C2. A later start that reports no error, wherever the update and the starts before it stopped, leaves an
  authentic executable at the canonical name: the untouched original, or the verified replacement under the
  security binding of the original.
\<close>

theorem successful_start_runs_an_authentic_executable:
  assumes "case_ok e u" and "fresh e u start" and "update_history e expected start fs"
    and "we_sha e' = we_sha e" and "we_crc e' = we_crc e"
    and "cleanupPreviousExecutable e' \<lparr>ww_Fs = fs, ww_Fates = fates\<rparr> = Returned (Inr ()) w"
  shows "(wf_Name (ww_Fs w) Target = Some (uc_Original u)
            \<and> wf_Object (ww_Fs w) (uc_Original u) = \<lparr>wo_Bytes = uc_Bytes u, wo_Binding = uc_Binding u\<rparr>)
       \<or> (wf_Name (ww_Fs w) Target = Some (uc_Staged u) \<and> wo_Bytes (wf_Object (ww_Fs w) (uc_Staged u)) = uc_New u
            \<and> we_sha e (uc_New u) = expected
            \<and> compareWindowsSecurityBindings (uc_Binding u) (wo_Binding (wf_Object (ww_Fs w) (uc_Staged u))))"
proof -
  note same = same_functions [OF assms(4,5)]
  have "update_history e expected start (ww_Fs w)"
    using update_history.later_start [OF assms(3-5)] assms(6) by (metis stops_in.simps(2))
  then have unverified: "we_sha e (uc_New u) \<noteq> expected \<Longrightarrow> wf_Name (ww_Fs w) Target = Some (uc_Original u)"
    using rejected_history [OF assms(1,2)] by (simp add: fresh_def names_are_def)
  have "done_well e' u (Inr ()) (ww_Fs w)"
    using safeD_return [OF cleanupPrevious_safe [of e' u], of "\<lparr>ww_Fs = fs, ww_Fates = fates\<rparr>"]
      history_recoverable [OF assms(1-3)] assms(1,6) by (simp add: same)
  then show ?thesis
    using unverified by (auto simp: recoverable_def canonical_def intact_def bound_def)
qed

theorem successful_start_runs_an_authentic_executable_witness:
  "\<exists>fs w. update_history demo_env (replicate 32 4) demo_start fs \<and>
     cleanupPreviousExecutable demo_env \<lparr>ww_Fs = fs, ww_Fates = []\<rparr> = Returned (Inr ()) w \<and>
     wf_Name (ww_Fs w) Target = Some (demo_id 2) \<and> wo_Bytes (wf_Object (ww_Fs w) (demo_id 2)) = [2, 2]"
proof -
  obtain fs fs1 where run: "update_history demo_env (replicate 32 4) demo_start fs"
    "cleanupPreviousExecutable demo_env \<lparr>ww_Fs = fs, ww_Fates = []\<rparr> = Returned (Inr ()) \<lparr>ww_Fs = fs1, ww_Fates = []\<rparr>"
    "wf_Name fs1 Target = Some (demo_id 2)"
    using demo_committed by blast
  then show ?thesis
    using successful_start_runs_an_authentic_executable [OF demo_case_ok demo_fresh run(1) refl refl run(2)]
    by (fastforce simp: demo_case_def)
qed



text \<open>
  An undisturbed replacement of a verified file succeeds, and the next undisturbed start removes the
  rollback image and the record: the verified file is the executable and nothing else is left.
\<close>

theorem undisturbed_update_commits:
  assumes c: "case_ok e u" and f: "fresh e u start" and d: "we_sha e (uc_New u) = expected"
    and b: "compareWindowsSecurityBindings (uc_Binding u) (we_Applied e (uc_Binding u))"
  shows "\<exists>fs1 fs2. replaceExecutable e expected \<lparr>ww_Fs = start, ww_Fates = []\<rparr> = Returned (Inr ()) \<lparr>ww_Fs = fs1, ww_Fates = []\<rparr>
    \<and> wf_Name fs1 Target = Some (uc_Staged u) \<and> wf_Name fs1 Backup = Some (uc_Original u)
    \<and> cleanupPreviousExecutable e \<lparr>ww_Fs = fs1, ww_Fates = []\<rparr> = Returned (Inr ()) \<lparr>ww_Fs = fs2, ww_Fates = []\<rparr>
    \<and> wf_Name fs2 Target = Some (uc_Staged u) \<and> settled fs2"
proof -
  obtain fs1 where fs1: "replaceExecutable e expected (calm start) = Returned (Inr ()) (calm fs1)"
    "recorded_as e u (completed_of e u) fs1" "replaced e u fs1"
    using calm_replace [OF c f d b] by blast
  with settle_completed [OF c fs1(2)] show ?thesis by (auto simp: replaced_def names_are_def)
qed

theorem undisturbed_update_commits_witness:
  "\<exists>fs1. replaceExecutable demo_env (replicate 32 4) \<lparr>ww_Fs = demo_start, ww_Fates = []\<rparr> = Returned (Inr ()) \<lparr>ww_Fs = fs1, ww_Fates = []\<rparr>
     \<and> wf_Name fs1 Target = Some (demo_id 2)"
  using undisturbed_update_commits [OF demo_case_ok demo_fresh demo_digest demo_applied]
  by (auto simp: demo_case_def)

text \<open>
  C4. A staged file whose digest is not the expected one is never installed: the replacement reports an
  error, and neither it nor any later start changes a name or the bytes of the original.
\<close>

theorem unverified_file_is_never_installed:
  assumes "case_ok e u" and "fresh e u start" and "we_sha e (uc_New u) \<noteq> expected"
  shows "(\<forall>w r. replaceExecutable e expected \<lparr>ww_Fs = start, ww_Fates = fates\<rparr> = Returned r w \<longrightarrow> isl r)
    \<and> (\<forall>fs. update_history e expected start fs \<longrightarrow> wf_Name fs = wf_Name start
          \<and> wf_Object fs (uc_Original u) = wf_Object start (uc_Original u))"
proof (intro conjI allI impI)
  fix w r
  assume "replaceExecutable e expected \<lparr>ww_Fs = start, ww_Fates = fates\<rparr> = Returned r w"
  then show "isl r"
    using fresh_verify_safe [OF assms] unfolding safe_def by (auto dest!: spec [of _ fates])
next
  fix fs
  assume "update_history e expected start fs"
  then have "fresh e u fs" using rejected_history [OF assms] by simp
  then show "wf_Name fs = wf_Name start" "wf_Object fs (uc_Original u) = wf_Object start (uc_Original u)"
    using assms(2) by (auto simp: fresh_def names_are_def intact_def intro!: ext) (metis wname.exhaust)+
qed

theorem unverified_file_is_never_installed_witness:
  "case replaceExecutable demo_env [] \<lparr>ww_Fs = demo_start, ww_Fates = [Go, Fail]\<rparr> of Crashed fs \<Rightarrow> True | Returned r w \<Rightarrow> isl r"
  using unverified_file_is_never_installed [OF demo_case_ok demo_fresh, where expected = "[]" and fates = "[Go, Fail]"] demo_digest
  by (auto split: outcome.split)

text \<open>
  The record file is created before it has any content. A process that stops in between leaves the
  original in place and intact, yet from then on every start fails and changes nothing, whatever it
  meets: the file has to be removed by hand.
\<close>

theorem stopped_record_creation_blocks_every_start:
  assumes c: "case_ok e u" and f: "fresh e u start" and d: "we_sha e (uc_New u) = expected"
    and b: "compareWindowsSecurityBindings (uc_Binding u) (we_Applied e (uc_Binding u))"
  shows "\<exists>fates fs. replaceExecutable e expected \<lparr>ww_Fs = start, ww_Fates = fates\<rparr> = Crashed fs
    \<and> wf_Name fs Target = Some (uc_Original u)
    \<and> wf_Object fs (uc_Original u) = \<lparr>wo_Bytes = uc_Bytes u, wo_Binding = uc_Binding u\<rparr>
    \<and> (\<forall>e' fates'. case cleanupPreviousExecutable e' \<lparr>ww_Fs = fs, ww_Fates = fates'\<rparr> of
         Crashed fs' \<Rightarrow> fs' = fs
       | Returned r w \<Rightarrow> isl r \<and> ww_Fs w = fs)"
proof (intro exI conjI)
  let ?fs = "blank_record e u (bind_staged e u start)"
  show "replaceExecutable e expected \<lparr>ww_Fs = start, ww_Fates = replicate 18 Go @ [Crash]\<rparr> = Crashed ?fs"
    by (rule replace_then_stop [OF c f d b])
  have f1: "fresh e u (bind_staged e u start)" using f c by simp
  then show "wf_Name ?fs Target = Some (uc_Original u)"
    "wf_Object ?fs (uc_Original u) = \<lparr>wo_Bytes = uc_Bytes u, wo_Binding = uc_Binding u\<rparr>"
    using case_distinct [OF c] by (auto simp: blank_record_def set_object_def fresh_def names_are_def intact_def)
  have "wf_Name ?fs RecordFile \<noteq> None" "rec_of e' ?fs \<noteq> Some (Inr r)" for e' r
    by (auto simp: blank_record_def set_object_def rec_of_def decode_short recordSize_def)
  then show "\<forall>e' fates'. case cleanupPreviousExecutable e' \<lparr>ww_Fs = ?fs, ww_Fates = fates'\<rparr> of
      Crashed fs' \<Rightarrow> fs' = ?fs | Returned r w \<Rightarrow> isl r \<and> ww_Fs w = ?fs"
    using unreadable_blocks [of ?fs, unfolded safe_def] by blast
qed

theorem stopped_record_creation_blocks_every_start_witness:
  "\<exists>fates fs. replaceExecutable demo_env (replicate 32 4) \<lparr>ww_Fs = demo_start, ww_Fates = fates\<rparr> = Crashed fs
    \<and> wf_Name fs Target = Some (demo_id 1)"
  using stopped_record_creation_blocks_every_start [OF demo_case_ok demo_fresh demo_digest demo_applied]
  by (auto simp: demo_case_def)

text \<open>Decoding an encoded ownership record gives the record back, whatever checksum function is used.\<close>

theorem ownership_record_round_trip:
  assumes "record_shaped r"
  shows "decodeWindowsReplacementRecord crc (encodeWindowsReplacementRecord crc r) = Inr r"
  by (rule record_decode_encode [OF assms])

theorem ownership_record_round_trip_witness:
  "decodeWindowsReplacementRecord (\<lambda>_. 5) (encodeWindowsReplacementRecord (\<lambda>_. 5) (prepared_of demo_env demo_case)) =
     Inr (prepared_of demo_env demo_case)"
  using ownership_record_round_trip shaped_case(1) [OF demo_case_ok] by blast

text \<open>
  Completing a record rewrites it in place. A write of the completed record over the prepared one that
  stops after any number of bytes is refused by the reader or read as one of the two records, never as another.
\<close>

theorem torn_completion_reads_old_or_new:
  assumes "record_shaped r" and "rr_State r = recordPrepared"
    and "decodeWindowsReplacementRecord crc
      (torn_write k (encodeWindowsReplacementRecord crc (r\<lparr>rr_State := recordCompleted\<rparr>)) (encodeWindowsReplacementRecord crc r)) = Inr s"
  shows "s = r \<or> s = r\<lparr>rr_State := recordCompleted\<rparr>"
  by (rule torn_completion [OF assms(1,2) refl assms(3)])

theorem torn_completion_reads_old_or_new_witness:
  "let r = prepared_of demo_env demo_case;
       d = decodeWindowsReplacementRecord (\<lambda>_. 0)
         (torn_write 14 (encodeWindowsReplacementRecord (\<lambda>_. 0) (r\<lparr>rr_State := recordCompleted\<rparr>)) (encodeWindowsReplacementRecord (\<lambda>_. 0) r)) in
   isl d \<or> d = Inr r \<or> d = Inr (r\<lparr>rr_State := recordCompleted\<rparr>)"
proof -
  let ?r = "prepared_of demo_env demo_case"
  let ?d = "decodeWindowsReplacementRecord (\<lambda>_. 0)
     (torn_write 14 (encodeWindowsReplacementRecord (\<lambda>_. 0) (?r\<lparr>rr_State := recordCompleted\<rparr>)) (encodeWindowsReplacementRecord (\<lambda>_. 0) ?r))"
  have "s = ?r \<or> s = ?r\<lparr>rr_State := recordCompleted\<rparr>" if "?d = Inr s" for s
    by (rule torn_completion_reads_old_or_new [OF shaped_case(1) [OF demo_case_ok] _ that]) simp
  then show ?thesis unfolding Let_def by (cases ?d) auto
qed

end
