(* ===== verification/Security_Contract.thy ===== *)
theory Security_Contract
  imports Replacement_Record
begin

text \<open>
  The durable contract of a Windows security descriptor (\<^verbatim>\<open>internal/update/replace_security_windows.go\<close>,
  \<^verbatim>\<open>replace_security_binding.go\<close>): reading the access control lists, the bytes that are hashed into the
  binding, and the comparison of two descriptors while both are at hand. A descriptor is what the Windows
  calls return for it; SHA-256 and the textual form of a descriptor are parameters.
\<close>

section \<open>Descriptors\<close>

datatype raw_acl = NotFoundAcl | NullAcl | Acl byte "bytes list"   \<comment> \<open>revision and the bytes of the entries\<close>

record descriptor =
  sd_Owner :: bytes
  sd_Group :: bytes
  sd_Dacl :: raw_acl
  sd_Sacl :: raw_acl
  sd_Control :: "16 word"
  sd_RMControl :: byte

definition SE_DACL_AUTO_INHERITED :: "16 word" where "SE_DACL_AUTO_INHERITED = 0x400"
definition SE_DACL_PROTECTED :: "16 word" where "SE_DACL_PROTECTED = 0x1000"
definition SE_RM_CONTROL_VALID :: "16 word" where "SE_RM_CONTROL_VALID = 0x4000"

text \<open>All control bits but \<open>SE_SELF_RELATIVE\<close> and the two for callers of the access check.\<close>

definition fullControlMask :: "16 word" where "fullControlMask = 0x7F3F"

datatype acl_state = AclAbsent | AclNull | AclPresent

fun acl_state_code :: "acl_state \<Rightarrow> uint32" where
  "acl_state_code AclAbsent = 0"
| "acl_state_code AclNull = 1"
| "acl_state_code AclPresent = 2"

record acl_contract =
  ac_State :: acl_state
  ac_Revision :: byte
  ac_Aces :: "bytes list"

definition aceHeaderSize :: nat where "aceHeaderSize = 4"
definition maxACLBytes :: nat where "maxACLBytes = 65536"
definition maxSIDBytes :: nat where "maxSIDBytes = 256"

fun read_aces :: "nat \<Rightarrow> bytes list \<Rightarrow> bytes list option" where
  "read_aces used [] = Some []"
| "read_aces used (ace # aces) =
     (if length ace < aceHeaderSize then None
      else if maxACLBytes < used + length ace then None
      else map_option ((#) ace) (read_aces (used + length ace) aces))"

fun readWindowsACLContract :: "raw_acl \<Rightarrow> acl_contract option" where
  "readWindowsACLContract NotFoundAcl = Some \<lparr>ac_State = AclAbsent, ac_Revision = 0, ac_Aces = []\<rparr>"
| "readWindowsACLContract NullAcl = Some \<lparr>ac_State = AclNull, ac_Revision = 0, ac_Aces = []\<rparr>"
| "readWindowsACLContract (Acl revision aces) =
     map_option (\<lambda>xs. \<lparr>ac_State = AclPresent, ac_Revision = revision, ac_Aces = xs\<rparr>) (read_aces 0 aces)"

section \<open>The hashed contract\<close>

definition contractUint32 :: "nat \<Rightarrow> bytes" where "contractUint32 n = le_put32 (of_nat n)"

definition contractSID :: "bytes \<Rightarrow> bytes option" where
  "contractSID sid =
     (if length sid = 0 \<or> maxSIDBytes < length sid then None else Some (contractUint32 (length sid) @ sid))"

definition contractACE :: "bytes \<Rightarrow> bytes" where "contractACE ace = contractUint32 (length ace) @ ace"

definition contractACL :: "acl_contract \<Rightarrow> bytes" where
  "contractACL c =
     le_put32 (acl_state_code (ac_State c)) @ le_put32 (ucast (ac_Revision c)) @ contractUint32 (length (ac_Aces c))
     @ concat (map contractACE (ac_Aces c))"

definition contractControl :: "16 word \<Rightarrow> bytes" where "contractControl w = le_put32 (ucast w)"

definition contractRMControl :: "bool \<Rightarrow> byte \<Rightarrow> bytes" where
  "contractRMControl present v = (if present then [1, v] else [0, 0])"

definition contractVersion :: bytes where
  "contractVersion = [0x53, 0x53, 0x4D, 0x2D, 0x57, 0x49, 0x4E, 0x44, 0x4F, 0x57, 0x53, 0x2D, 0x53, 0x45, 0x43, 0x55,
     0x52, 0x49, 0x54, 0x59, 0x2D, 0x43, 0x4F, 0x4E, 0x54, 0x52, 0x41, 0x43, 0x54, 0x2D, 0x56, 0x31, 0]"

definition ordinary_contract :: "descriptor \<Rightarrow> bytes option" where
  "ordinary_contract d =
     (case (readWindowsACLContract (sd_Dacl d), contractSID (sd_Owner d), contractSID (sd_Group d)) of
        (Some dacl, Some owner, Some grp) \<Rightarrow>
          Some (contractVersion @ le_put32 bindingOrdinary @ owner @ grp @ contractACL dacl
            @ contractControl (sd_Control d AND SE_DACL_PROTECTED))
      | _ \<Rightarrow> None)"

definition full_contract :: "descriptor \<Rightarrow> bytes option" where
  "full_contract d =
     (case (ordinary_contract d, readWindowsACLContract (sd_Sacl d)) of
        (Some ordinary, Some sacl) \<Rightarrow>
          Some (ordinary @ le_put32 bindingFull @ contractACL sacl @ contractControl (sd_Control d AND fullControlMask)
            @ (let present = sd_Control d AND SE_RM_CONTROL_VALID \<noteq> 0 in
               contractRMControl present (if present then sd_RMControl d else 0)))
      | _ \<Rightarrow> None)"

definition bindWindowsSecurityDescriptor :: "(bytes \<Rightarrow> bytes) \<Rightarrow> bool \<Rightarrow> descriptor \<Rightarrow> security_binding option" where
  "bindWindowsSecurityDescriptor sha full d =
     (if full then map_option (\<lambda>c. \<lparr>sb_Metadata = bindingFull, sb_Digest = sha c\<rparr>) (full_contract d)
      else map_option (\<lambda>c. \<lparr>sb_Metadata =
          (if sd_Control d AND SE_DACL_AUTO_INHERITED \<noteq> 0 then bindingOrdinary OR bindingAutoInherited else bindingOrdinary),
          sb_Digest = sha c\<rparr>) (ordinary_contract d))"

section \<open>Comparing descriptors\<close>

definition compareWindowsOrdinarySecurityDescriptors :: "descriptor \<Rightarrow> descriptor \<Rightarrow> bool" where
  "compareWindowsOrdinarySecurityDescriptors want got =
     (sd_Owner want = sd_Owner got \<and> sd_Group want = sd_Group got \<and>
      (case (readWindowsACLContract (sd_Dacl want), readWindowsACLContract (sd_Dacl got)) of
         (Some w, Some g) \<Rightarrow>
           ac_State w = ac_State g \<and> ac_Revision w = ac_Revision g \<and> length (ac_Aces w) = length (ac_Aces g) \<and>
           list_all (\<lambda>(a, b). a = b) (zip (ac_Aces w) (ac_Aces g)) \<and>
           (sd_Control want AND SE_DACL_PROTECTED \<noteq> 0) = (sd_Control got AND SE_DACL_PROTECTED \<noteq> 0) \<and>
           \<not> (sd_Control want AND SE_DACL_AUTO_INHERITED \<noteq> 0 \<and> sd_Control got AND SE_DACL_AUTO_INHERITED = 0)
       | _ \<Rightarrow> False))"

definition compareWindowsSecurityDescriptors ::
    "(descriptor \<Rightarrow> string) \<Rightarrow> descriptor \<Rightarrow> descriptor \<Rightarrow> bool \<Rightarrow> bool" where
  "compareWindowsSecurityDescriptors sddl want got full =
     (if \<not> full then compareWindowsOrdinarySecurityDescriptors want got
      else
        (let wantRM = sd_Control want AND SE_RM_CONTROL_VALID \<noteq> 0; gotRM = sd_Control got AND SE_RM_CONTROL_VALID \<noteq> 0 in
         wantRM = gotRM \<and> (wantRM \<longrightarrow> sd_RMControl want = sd_RMControl got) \<and>
         sddl want \<noteq> [] \<and> sddl got \<noteq> [] \<and> sddl want = sddl got \<and>
         sd_Control want AND fullControlMask = sd_Control got AND fullControlMask))"

section \<open>The contract determines what it hashes\<close>

lemma le_put32_inj: "le_put32 a = le_put32 b \<longleftrightarrow> a = b"
  by (metis le_get32_put32)

lemma put32_append: "le_put32 a @ x = le_put32 b @ y \<longleftrightarrow> a = b \<and> x = y"
  by (simp add: append_eq_append_conv le_put32_inj)

lemma length_contractUint32 [simp]: "length (contractUint32 n) = 4"
  by (simp add: contractUint32_def)

lemma uint32_append:
  assumes "m < 2 ^ 32" and "n < 2 ^ 32"
  shows "contractUint32 m @ x = contractUint32 n @ y \<longleftrightarrow> m = n \<and> x = y"
proof -
  have "(of_nat m :: uint32) = of_nat n \<longleftrightarrow> m = n"
    using assms by (simp add: word_of_nat_eq_iff take_bit_nat_eq_self)
  then show ?thesis by (simp add: contractUint32_def put32_append)
qed

lemma contractUint32_inj [simp]:
  "m < 2 ^ 32 \<Longrightarrow> n < 2 ^ 32 \<Longrightarrow> contractUint32 m = contractUint32 n \<longleftrightarrow> m = n"
  using uint32_append [of m n "[]" "[]"] by simp

lemma framed_append:
  assumes "length x < 2 ^ 32" and "length y < 2 ^ 32"
  shows "contractACE x @ r = contractACE y @ s \<longleftrightarrow> x = y \<and> r = s"
  unfolding contractACE_def append_assoc uint32_append [OF assms] by auto

lemma contractSID_append:
  assumes "contractSID x = Some a" and "contractSID y = Some b"
  shows "a @ r = b @ s \<longleftrightarrow> x = y \<and> r = s"
  using assms framed_append [of x y r s]
  by (auto simp: contractSID_def contractACE_def maxSIDBytes_def split: if_splits)

lemma read_aces_small:
  assumes "read_aces used aces = Some xs"
  shows "xs = aces \<and> (\<forall>ace \<in> set aces. length ace < 2 ^ 32) \<and> 4 * length aces + used \<le> max used maxACLBytes"
  using assms
proof (induction used aces arbitrary: xs rule: read_aces.induct)
  case (2 used ace aces)
  then obtain ys where ys: "read_aces (used + length ace) aces = Some ys" "xs = ace # ys" "4 \<le> length ace"
    "used + length ace \<le> maxACLBytes" by (auto simp: aceHeaderSize_def split: if_splits)
  with 2(1) [OF _ _ ys(1)] show ?case by (auto simp: aceHeaderSize_def maxACLBytes_def)
qed simp

lemma concat_framed:
  assumes "length xs = length ys" and "\<forall>x \<in> set xs. length x < 2 ^ 32" and "\<forall>y \<in> set ys. length y < 2 ^ 32"
  shows "concat (map contractACE xs) @ r = concat (map contractACE ys) @ s \<longleftrightarrow> xs = ys \<and> r = s"
  using assms by (induction xs ys rule: list_induct2) (auto simp: framed_append)

lemma acl_state_code_inj [simp]: "acl_state_code a = acl_state_code b \<longleftrightarrow> a = b"
  by (cases a; cases b) auto

lemma contractACL_append:
  assumes "readWindowsACLContract a = Some c" and "readWindowsACLContract b = Some d"
  shows "contractACL c @ r = contractACL d @ s \<longleftrightarrow> c = d \<and> r = s"
proof -
  have small: "length (ac_Aces c) < 2 ^ 32 \<and> (\<forall>x \<in> set (ac_Aces c). length x < 2 ^ 32)"
    if "readWindowsACLContract a = Some c" for a c
    using that by (cases a) (auto dest!: read_aces_small simp: maxACLBytes_def)
  have revision: "(ucast x :: uint32) = ucast y \<longleftrightarrow> x = y" for x y :: byte
    by (auto intro!: bit_word_eqI simp: bit_eq_iff [of "ucast x"] bit_simps)
  show ?thesis
    using small [OF assms(1)] small [OF assms(2)]
    by (cases c; cases d) (auto simp: contractACL_def put32_append uint32_append concat_framed revision)
qed

section \<open>The binding decides the comparison\<close>

text \<open>What the contract of the ordinary parts holds.\<close>

definition ordinary_parts :: "descriptor \<Rightarrow> bytes \<times> bytes \<times> acl_contract option \<times> bool" where
  "ordinary_parts d = (sd_Owner d, sd_Group d, readWindowsACLContract (sd_Dacl d), sd_Control d AND SE_DACL_PROTECTED \<noteq> 0)"

lemma one_bit: "x AND SE_DACL_PROTECTED = y AND SE_DACL_PROTECTED \<longleftrightarrow>
    (x AND SE_DACL_PROTECTED \<noteq> 0) = (y AND SE_DACL_PROTECTED \<noteq> 0)" for x y :: "16 word"
proof -
  have mask: "bit SE_DACL_PROTECTED n \<longleftrightarrow> n = 12" for n
    by (simp add: SE_DACL_PROTECTED_def bit_push_bit_iff [of 12 1, simplified])
      (auto simp: bit_1_iff dest: bit_imp_le_length)
  have "z AND SE_DACL_PROTECTED \<in> {0, SE_DACL_PROTECTED}" for z :: "16 word"
    by (cases "bit z 12") (auto intro!: bit_word_eqI simp: bit_simps mask)
  then show ?thesis by (metis insert_iff singletonD)
qed

lemma contractControl_append: "contractControl v @ r = contractControl w @ s \<longleftrightarrow> v = w \<and> r = s"
proof -
  have "(ucast v :: uint32) = ucast w \<longleftrightarrow> v = w"
    by (auto intro!: bit_word_eqI simp: bit_eq_iff [of "ucast v"] bit_simps)
  then show ?thesis by (simp add: contractControl_def put32_append)
qed

lemma ordinary_contract_append:
  assumes "ordinary_contract a = Some x" and "ordinary_contract b = Some y"
  shows "x @ r = y @ s \<longleftrightarrow> ordinary_parts a = ordinary_parts b \<and> r = s"
proof -
  obtain dacl owner grp where a: "readWindowsACLContract (sd_Dacl a) = Some dacl" "contractSID (sd_Owner a) = Some owner"
    "contractSID (sd_Group a) = Some grp"
    "x = contractVersion @ le_put32 bindingOrdinary @ owner @ grp @ contractACL dacl
       @ contractControl (sd_Control a AND SE_DACL_PROTECTED)"
    using assms(1) by (auto simp: ordinary_contract_def split: option.splits)
  obtain dacl' owner' grp' where b: "readWindowsACLContract (sd_Dacl b) = Some dacl'" "contractSID (sd_Owner b) = Some owner'"
    "contractSID (sd_Group b) = Some grp'"
    "y = contractVersion @ le_put32 bindingOrdinary @ owner' @ grp' @ contractACL dacl'
       @ contractControl (sd_Control b AND SE_DACL_PROTECTED)"
    using assms(2) by (auto simp: ordinary_contract_def split: option.splits)
  show ?thesis
    unfolding a(4) b(4) append_assoc same_append_eq contractSID_append [OF a(2) b(2)] contractSID_append [OF a(3) b(3)]
      contractACL_append [OF a(1) b(1)] contractControl_append one_bit
    using a b by (auto simp: ordinary_parts_def)
qed

lemmas ordinary_contract_eq = ordinary_contract_append [where r = "[]" and s = "[]", simplified]

lemma binding_metadata:
  "(bindingOrdinary OR bindingAutoInherited) AND bindingTierMask = bindingOrdinary"
  "bindingOrdinary AND bindingTierMask = bindingOrdinary"
  "(bindingOrdinary OR bindingAutoInherited) AND bindingAutoInherited \<noteq> 0"
  "bindingOrdinary AND bindingAutoInherited = 0"
  "bindingFull AND bindingTierMask = bindingFull" "bindingFull AND bindingAutoInherited = 0" "bindingFull \<noteq> bindingOrdinary" "bindingAutoInherited \<noteq> 0"
  by (simp_all add: bindingOrdinary_def bindingAutoInherited_def bindingTierMask_def bindingFull_def)

lemma bound_valid:
  "bindWindowsSecurityDescriptor sha full d = Some b \<Longrightarrow> validateWindowsSecurityBinding b"
  by (auto simp: bindWindowsSecurityDescriptor_def validateWindowsSecurityBinding_def Let_def binding_metadata
    bindingOrdinary_def bindingAutoInherited_def bindingTierMask_def bindingFull_def split: if_splits)

lemma zip_equal: "length xs = length ys \<Longrightarrow> list_all (\<lambda>(a, b). a = b) (zip xs ys) \<longleftrightarrow> xs = ys"
  by (induction xs ys rule: list_induct2) auto

lemma ordinary_comparison:
  assumes "ordinary_contract want = Some c" and "ordinary_contract got = Some c'"
  shows "compareWindowsOrdinarySecurityDescriptors want got \<longleftrightarrow>
    ordinary_parts want = ordinary_parts got
    \<and> \<not> (sd_Control want AND SE_DACL_AUTO_INHERITED \<noteq> 0 \<and> sd_Control got AND SE_DACL_AUTO_INHERITED = 0)"
proof -
  obtain w where w: "readWindowsACLContract (sd_Dacl want) = Some w"
    using assms(1) by (auto simp: ordinary_contract_def split: option.splits)
  obtain g where g: "readWindowsACLContract (sd_Dacl got) = Some g"
    using assms(2) by (auto simp: ordinary_contract_def split: option.splits)
  show ?thesis
    by (cases w; cases g) (auto simp: compareWindowsOrdinarySecurityDescriptors_def ordinary_parts_def w g zip_equal)
qed

text \<open>
  C6. The durable binding decides exactly what the comparison of two descriptors at hand decides, as long as the
  hash does not collide on their contracts: owner, group, every entry of the access control list in
  order, protection, and that inheritance was not lost.
\<close>

theorem binding_decides_the_comparison:
  assumes "bindWindowsSecurityDescriptor sha False want = Some w" and "bindWindowsSecurityDescriptor sha False got = Some g"
    and "\<forall>c c'. ordinary_contract want = Some c \<and> ordinary_contract got = Some c' \<and> sha c = sha c' \<longrightarrow> c = c'"
  shows "compareWindowsSecurityBindings w g \<longleftrightarrow> compareWindowsOrdinarySecurityDescriptors want got"
proof -
  obtain c c' where c: "ordinary_contract want = Some c" "ordinary_contract got = Some c'"
    using assms(1,2) by (auto simp: bindWindowsSecurityDescriptor_def)
  have "sha c = sha c' \<longleftrightarrow> ordinary_parts want = ordinary_parts got"
    using assms(3) c ordinary_contract_eq [OF c] by auto
  moreover have "validateWindowsSecurityBinding w" "validateWindowsSecurityBinding g"
    using bound_valid assms(1,2) by blast+
  ultimately show ?thesis
    unfolding ordinary_comparison [OF c] compareWindowsSecurityBindings_def
    using assms(1,2) c by (auto simp: bindWindowsSecurityDescriptor_def binding_metadata)
qed

definition demo_descriptor :: descriptor where
  "demo_descriptor = \<lparr>sd_Owner = [1, 2], sd_Group = [3], sd_Dacl = Acl 2 [[0, 0, 4, 0], [1, 0, 5, 0, 9]],
     sd_Sacl = NotFoundAcl, sd_Control = 0x9404, sd_RMControl = 0\<rparr>"

theorem binding_decides_the_comparison_witness:
  "let got = demo_descriptor\<lparr>sd_Dacl := Acl 2 [[1, 0, 5, 0, 9], [0, 0, 4, 0]]\<rparr> in
   compareWindowsSecurityBindings (the (bindWindowsSecurityDescriptor id False demo_descriptor))
     (the (bindWindowsSecurityDescriptor id False got))
   \<longleftrightarrow> compareWindowsOrdinarySecurityDescriptors demo_descriptor got"
  unfolding Let_def
  by (rule binding_decides_the_comparison [where sha = id])
    (auto simp: bindWindowsSecurityDescriptor_def ordinary_contract_def demo_descriptor_def contractSID_def
      maxSIDBytes_def maxACLBytes_def aceHeaderSize_def)

text \<open>What the contract of the complete descriptor holds.\<close>

definition complete_parts where
  "complete_parts d = (ordinary_parts d, readWindowsACLContract (sd_Sacl d), sd_Control d AND fullControlMask,
     if sd_Control d AND SE_RM_CONTROL_VALID \<noteq> 0 then Some (sd_RMControl d) else None)"

text \<open>
  Two complete descriptors get the same contract exactly if they agree in owner, group, both access control
  lists, every control bit that matters and the resource manager control: the hashed bytes are an injective encoding.
\<close>

theorem complete_contract_is_injective:
  assumes "full_contract a = Some x" and "full_contract b = Some y"
  shows "x = y \<longleftrightarrow> complete_parts a = complete_parts b"
proof -
  obtain o1 s1 where a: "ordinary_contract a = Some o1" "readWindowsACLContract (sd_Sacl a) = Some s1"
    using assms(1) by (auto simp: full_contract_def split: option.splits)
  obtain o2 s2 where b: "ordinary_contract b = Some o2" "readWindowsACLContract (sd_Sacl b) = Some s2"
    using assms(2) by (auto simp: full_contract_def split: option.splits)
  let ?rm = "\<lambda>d. contractRMControl (sd_Control d AND SE_RM_CONTROL_VALID \<noteq> 0)
     (if sd_Control d AND SE_RM_CONTROL_VALID \<noteq> 0 then sd_RMControl d else 0)"
  have x: "x = o1 @ le_put32 bindingFull @ contractACL s1 @ contractControl (sd_Control a AND fullControlMask) @ ?rm a"
    and y: "y = o2 @ le_put32 bindingFull @ contractACL s2 @ contractControl (sd_Control b AND fullControlMask) @ ?rm b"
    using assms a b by (auto simp: full_contract_def Let_def)
  have eq: "x = y \<longleftrightarrow> ordinary_parts a = ordinary_parts b \<and> s1 = s2
      \<and> sd_Control a AND fullControlMask = sd_Control b AND fullControlMask \<and> ?rm a = ?rm b"
    unfolding x y ordinary_contract_append [OF a(1) b(1)] put32_append contractACL_append [OF a(2) b(2)]
      contractControl_append by blast
  show ?thesis unfolding eq complete_parts_def using a b by (auto simp: contractRMControl_def)
qed

theorem complete_contract_is_injective_witness:
  "the (full_contract demo_descriptor) = the (full_contract (demo_descriptor\<lparr>sd_Control := 0x9404, sd_RMControl := 3\<rparr>))
   \<longleftrightarrow> complete_parts demo_descriptor = complete_parts (demo_descriptor\<lparr>sd_Control := 0x9404, sd_RMControl := 3\<rparr>)"
  by (rule complete_contract_is_injective)
    (auto simp: full_contract_def ordinary_contract_def demo_descriptor_def contractSID_def
      maxSIDBytes_def maxACLBytes_def aceHeaderSize_def)

end
