(* ===== verification/Self_Update.thy ===== *)
theory Self_Update
  imports Remote_Command
begin

text \<open>
  Selection, download and verification of a release (\<^verbatim>\<open>internal/update/update.go\<close>,
  \<^verbatim>\<open>internal/releaseasset/targets.go\<close>): semantic versions, the choice between an ordinary and a
  cross-major release, the asset manifest, the checksum file, and the sequence of checks that precede the
  replacement of the executable. HTTP exchanges, the file system, SHA-256 and the provenance check are parameters.
\<close>

section \<open>Semantic versions\<close>

datatype semantic_version = Version (ver_major: int) (ver_minor: int) (ver_patch: int)

definition trim_prefix :: "string \<Rightarrow> string \<Rightarrow> string" where
  "trim_prefix s p = (if has_prefix s p then drop (length p) s else s)"

definition max_int :: int where "max_int = 2 ^ 63 - 1"

text \<open>\<^verbatim>\<open>strconv.Atoi\<close> of a part without a sign.\<close>

definition version_part :: "string \<Rightarrow> int option" where
  "version_part p =
     (if p = [] \<or> (1 < length p \<and> hd p = CHR ''0'') then None
      else case digits_value 0 p of
        None \<Rightarrow> None
      | Some n \<Rightarrow> if n \<le> max_int then Some n else None)"

definition parseSemanticVersion :: "string \<Rightarrow> semantic_version option" where
  "parseSemanticVersion s =
     (let v = trim_prefix (trim_space s) ''v'' in
      if v = [] \<or> contains_any v ''-+'' then None
      else case map version_part (split_char (CHR ''.'') v) of
        [Some a, Some b, Some c] \<Rightarrow> Some (Version a b c)
      | _ \<Rightarrow> None)"

definition compareVersion :: "semantic_version \<Rightarrow> semantic_version \<Rightarrow> int" where
  "compareVersion l r =
     (if ver_major l \<noteq> ver_major r then ver_major l - ver_major r
      else if ver_minor l \<noteq> ver_minor r then ver_minor l - ver_minor r
      else ver_patch l - ver_patch r)"

text \<open>The order that the comparison decides.\<close>

instantiation semantic_version :: linorder
begin

definition less_eq_semantic_version :: "semantic_version \<Rightarrow> semantic_version \<Rightarrow> bool" where
  "l \<le> r \<longleftrightarrow> compareVersion l r \<le> 0"

definition less_semantic_version :: "semantic_version \<Rightarrow> semantic_version \<Rightarrow> bool" where
  "l < r \<longleftrightarrow> compareVersion l r < 0"

instance
proof
  fix x y z :: semantic_version
  show "(x < y) = (x \<le> y \<and> \<not> y \<le> x)" "x \<le> x" "x \<le> y \<or> y \<le> x"
    by (auto simp: less_eq_semantic_version_def less_semantic_version_def compareVersion_def split: if_splits)
  show "x \<le> z" if "x \<le> y" "y \<le> z"
    using that by (auto simp: less_eq_semantic_version_def compareVersion_def split: if_splits)
  show "x = y" if "x \<le> y" "y \<le> x"
    using that by (cases x; cases y) (auto simp: less_eq_semantic_version_def compareVersion_def split: if_splits)
qed

end

lemma compareVersion_order:
  "compareVersion l r \<le> 0 \<longleftrightarrow> l \<le> r" "0 < compareVersion l r \<longleftrightarrow> r < l"
  by (auto simp: less_eq_semantic_version_def less_semantic_version_def compareVersion_def split: if_splits)

section \<open>Releases\<close>

record release =
  rel_TagName :: string
  rel_Name :: string
  rel_Body :: string
  rel_Draft :: bool
  rel_Prerelease :: bool
  rel_Assets :: "string list"

definition releaseNewer :: "string \<Rightarrow> string \<Rightarrow> bool" where
  "releaseNewer l r =
     (case (parseSemanticVersion l, parseSemanticVersion r) of
        (Some a, Some b) \<Rightarrow> 0 < compareVersion a b
      | _ \<Rightarrow> False)"

definition select_step :: "semantic_version \<Rightarrow> release option \<times> release option \<Rightarrow> release \<Rightarrow> release option \<times> release option" where
  "select_step v acc candidate =
     (let (sameMajor, crossMajor) = acc in
      case parseSemanticVersion (rel_TagName candidate) of
        None \<Rightarrow> acc
      | Some version \<Rightarrow>
          if rel_Draft candidate \<or> rel_Prerelease candidate \<or> compareVersion version v \<le> 0 then acc
          else if ver_major version = ver_major v then
            (if sameMajor = None \<or> releaseNewer (rel_TagName candidate) (rel_TagName (the sameMajor))
             then (Some candidate, crossMajor) else acc)
          else if ver_major v < ver_major version then
            (case crossMajor of
               None \<Rightarrow> (sameMajor, Some candidate)
             | Some c \<Rightarrow>
                 (let selected = (case parseSemanticVersion (rel_TagName c) of Some w \<Rightarrow> w | None \<Rightarrow> Version 0 0 0) in
                  if 0 < compareVersion version selected then (sameMajor, Some candidate) else acc))
          else acc)"

definition SelectRelease :: "release list \<Rightarrow> string \<Rightarrow> release option \<times> release option" where
  "SelectRelease releases current =
     (case parseSemanticVersion current of
        None \<Rightarrow> (None, None)
      | Some v \<Rightarrow> foldl (select_step v) (None, None) releases)"

section \<open>Release assets\<close>

definition supportedTargets :: "(string \<times> string) list" where
  "supportedTargets =
     [(''linux'', ''amd64''), (''linux'', ''arm64''), (''darwin'', ''amd64''), (''darwin'', ''arm64''),
      (''windows'', ''amd64''), (''windows'', ''arm64'')]"

definition asset_name :: "string \<Rightarrow> string \<Rightarrow> string" where
  "asset_name goos goarch = ''ssm-'' @ goos @ ''-'' @ goarch @ (if goos = ''windows'' then ''.exe'' else [])"

definition ProvenanceName :: "string \<Rightarrow> string" where
  "ProvenanceName asset = asset @ ''.sigstore.json''"

definition ExpectedReleaseNames :: "string list" where
  "ExpectedReleaseNames =
     map (\<lambda>(os, arch). asset_name os arch) supportedTargets
     @ map (\<lambda>(os, arch). ProvenanceName (asset_name os arch)) supportedTargets
     @ [''install.sh'', ''checksums.txt'']"

datatype asset_error = WrongCount | Unsupported string | Duplicated string | MissingAsset string

fun scan_names :: "string list \<Rightarrow> string list \<Rightarrow> string set \<Rightarrow> asset_error + string set" where
  "scan_names allowed [] seen = Inr seen"
| "scan_names allowed (n # ns) seen =
     (if n \<notin> set allowed then Inl (Unsupported n)
      else if n \<in> seen then Inl (Duplicated n)
      else scan_names allowed ns (insert n seen))"

definition ValidateReleaseNames :: "string list \<Rightarrow> asset_error option" where
  "ValidateReleaseNames names =
     (let expected = ExpectedReleaseNames in
      if length names \<noteq> length expected then Some WrongCount
      else case scan_names expected names {} of
        Inl e \<Rightarrow> Some e
      | Inr seen \<Rightarrow> map_option MissingAsset (find (\<lambda>n. n \<notin> seen) expected))"

section \<open>The checksum file\<close>

datatype checksum_error = InvalidChecksum | MultipleChecksums | ChecksumNotFound

definition checksum_sum :: "string \<Rightarrow> bool" where
  "checksum_sum d \<longleftrightarrow> length d = 64 \<and> list_all (\<lambda>c. c \<in> set ''0123456789abcdef'') d"

fun checksum_scan :: "string \<Rightarrow> string list \<Rightarrow> string option \<Rightarrow> checksum_error + string" where
  "checksum_scan asset [] found = (case found of Some d \<Rightarrow> Inr d | None \<Rightarrow> Inl ChecksumNotFound)"
| "checksum_scan asset (line # rest) found =
     (let fields = go_fields line in
      if length fields < 2 then checksum_scan asset rest found
      else if trim_prefix (fields ! 1) ''*'' \<noteq> asset then checksum_scan asset rest found
      else
        (let d = to_lower (fields ! 0) in
         if \<not> checksum_sum d then Inl InvalidChecksum
         else if found \<noteq> None then Inl MultipleChecksums
         else checksum_scan asset rest (Some d)))"

definition checksumForAsset :: "string \<Rightarrow> string \<Rightarrow> checksum_error + string" where
  "checksumForAsset data asset = checksum_scan asset (split_char (CHR 0x0A) data) None"

section \<open>Downloading\<close>

record response =
  rs_Status :: nat
  rs_ContentLength :: int
  rs_Body :: bytes
  rs_Broken :: bool   \<comment> \<open>reading past the body gives an error instead of its end\<close>

datatype update_failure =
    NoRepository | DownloadFailed | TooLarge | BadChecksum checksum_error | EmptyProvenance | ForeignExecutable
  | StagingFailed | DigestMismatch | ProvenanceRefused | Interrupted | ReplacementFailed

definition maxChecksums :: nat where "maxChecksums = 16384"
definition maxBinary :: nat where "maxBinary = 67108864"

definition checksumsAsset :: string where "checksumsAsset = ''checksums.txt''"

definition release_url :: "string \<Rightarrow> string \<Rightarrow> string \<Rightarrow> string \<Rightarrow> string" where
  "release_url base repo version asset =
     trim_right base ''/'' @ ''/'' @ repo @ ''/releases/download/'' @ version @ ''/'' @ asset"

text \<open>
  What the download uses: the answers of the server, the installed executable and its mode, the calls on the
  staged file, the provenance check, the callback and the replacement.
\<close>

record update_env =
  up_Base :: string
  up_Get :: "string \<Rightarrow> response option"
  up_Asset :: string
  up_MaxBundle :: nat
  up_Executable :: "string option"
  up_Stat :: "(bool \<times> nat) option"
  up_CreateTemp :: bool
  up_Write :: "bytes \<Rightarrow> bool"
  up_Close :: bool
  up_sha :: "bytes \<Rightarrow> bytes"
  up_Provenance :: "bytes \<Rightarrow> string \<Rightarrow> string \<Rightarrow> bytes \<Rightarrow> bool"
  up_BeforeReplace :: "bool option"   \<comment> \<open>the result of the callback, if there is one\<close>
  up_Replace :: "bytes \<Rightarrow> string \<Rightarrow> bytes \<Rightarrow> nat \<Rightarrow> bool"

definition getReleaseAsset :: "update_env \<Rightarrow> string \<Rightarrow> string \<Rightarrow> string \<Rightarrow> update_failure + response" where
  "getReleaseAsset e repo version asset =
     (case up_Get e (release_url (up_Base e) repo version asset) of
        None \<Rightarrow> Inl DownloadFailed
      | Some r \<Rightarrow> if rs_Status r \<noteq> 200 then Inl DownloadFailed else Inr r)"

text \<open>Reading a body through \<^verbatim>\<open>io.LimitReader\<close> of one byte more than the limit.\<close>

definition read_limited :: "response \<Rightarrow> nat \<Rightarrow> update_failure + bytes" where
  "read_limited r limit =
     (if rs_Broken r \<and> length (rs_Body r) \<le> limit then Inl DownloadFailed else Inr (take (limit + 1) (rs_Body r)))"

definition downloadReleaseAssetLimited ::
    "update_env \<Rightarrow> string \<Rightarrow> string \<Rightarrow> string \<Rightarrow> nat \<Rightarrow> update_failure + bytes" where
  "downloadReleaseAssetLimited e repo version asset limit =
     (case getReleaseAsset e repo version asset of
        Inl err \<Rightarrow> Inl err
      | Inr r \<Rightarrow>
          (case read_limited r limit of
             Inl err \<Rightarrow> Inl err
           | Inr data \<Rightarrow> if limit < length data then Inl TooLarge else Inr data))"

definition copyAndVerifyDigest :: "update_env \<Rightarrow> response \<Rightarrow> string \<Rightarrow> update_failure + bytes \<times> bytes" where
  "copyAndVerifyDigest e r expected =
     (case read_limited r maxBinary of
        Inl err \<Rightarrow> Inl err
      | Inr data \<Rightarrow>
          if \<not> up_Write e data then Inl StagingFailed
          else if maxBinary < length data then Inl TooLarge
          else if hex_encode (up_sha e data) \<noteq> to_lower expected then Inl DigestMismatch
          else Inr (data, up_sha e data))"

datatype update_event =
    TempCreated | Staged bytes | CallbackRun | ReplaceCalled bytes string bytes nat | FlagCleared | TempRemoved

definition bytes_text :: "bytes \<Rightarrow> string" where
  "bytes_text b = map (\<lambda>x. char_of (unat x)) b"

text \<open>From the staged file on; the deferred removal of the staged file is the last event.\<close>

definition install_staged :: "update_env \<Rightarrow> string \<Rightarrow> bytes \<Rightarrow> string \<Rightarrow> string \<Rightarrow> nat \<Rightarrow> response \<Rightarrow>
    (update_failure + unit) \<times> update_event list" where
  "install_staged e version bundle expected exe mode r =
     (case copyAndVerifyDigest e r expected of
        Inl err \<Rightarrow> (Inl err, [])
      | Inr (data, digest) \<Rightarrow>
          if \<not> up_Close e then (Inl StagingFailed, [Staged data])
          else if \<not> up_Provenance e bundle (up_Asset e) version digest then (Inl ProvenanceRefused, [Staged data])
          else
            (let called = [Staged data] @ (if up_BeforeReplace e = None then [] else [CallbackRun]) in
             if up_BeforeReplace e = Some False then (Inl Interrupted, called)
             else if \<not> up_Replace e data exe digest mode then
               (Inl ReplacementFailed, called @ [ReplaceCalled data exe digest mode])
             else (Inr (), called @ [ReplaceCalled data exe digest mode, FlagCleared])))"

definition DownloadVersionBeforeReplace ::
    "update_env \<Rightarrow> string \<Rightarrow> string \<Rightarrow> (update_failure + unit) \<times> update_event list" where
  "DownloadVersionBeforeReplace e repo version =
     (if repo = [] then (Inl NoRepository, [])
      else case downloadReleaseAssetLimited e repo version checksumsAsset maxChecksums of
        Inl err \<Rightarrow> (Inl err, [])
      | Inr checksums \<Rightarrow>
      (case checksumForAsset (bytes_text checksums) (up_Asset e) of
        Inl err \<Rightarrow> (Inl (BadChecksum err), [])
      | Inr expected \<Rightarrow>
      (case downloadReleaseAssetLimited e repo version (ProvenanceName (up_Asset e)) (up_MaxBundle e) of
        Inl err \<Rightarrow> (Inl err, [])
      | Inr bundle \<Rightarrow>
          if bundle = [] then (Inl EmptyProvenance, [])
          else (case getReleaseAsset e repo version (up_Asset e) of
            Inl err \<Rightarrow> (Inl err, [])
          | Inr r \<Rightarrow>
              if int maxBinary < rs_ContentLength r then (Inl TooLarge, [])
              else (case (up_Executable e, up_Stat e) of
                (Some exe, Some (True, mode)) \<Rightarrow>
                  if \<not> up_CreateTemp e then (Inl StagingFailed, [])
                  else (let (res, events) = install_staged e version bundle expected exe mode r
                        in (res, TempCreated # events @ [TempRemoved]))
              | _ \<Rightarrow> (Inl ForeignExecutable, []))))))"

definition DownloadVersion :: "update_env \<Rightarrow> string \<Rightarrow> string \<Rightarrow> (update_failure + unit) \<times> update_event list" where
  "DownloadVersion e repo version = DownloadVersionBeforeReplace (e\<lparr>up_BeforeReplace := None\<rparr>) repo version"

section \<open>Ordinary updates\<close>

definition validateReleaseAssets :: "release \<Rightarrow> bool" where
  "validateReleaseAssets r = (ValidateReleaseNames (rel_Assets r) = None)"

record ordinary_result =
  or_Installed :: string
  or_CrossMajorAvailable :: string

text \<open>A step of an update that is visible outside: the flag file is written, or a version is downloaded.\<close>

datatype auto_event = Checked string | Downloading string "update_event list"

text \<open>\<open>releases\<close> is the answer of \<^verbatim>\<open>listReleases\<close>; an empty list stands for a disabled repository.\<close>

definition Download :: "update_env \<Rightarrow> string \<Rightarrow> release list option \<Rightarrow> string \<Rightarrow>
    (bool \<times> ordinary_result) \<times> auto_event list" where
  "Download e repo releases current =
     (case releases of
        None \<Rightarrow> ((False, \<lparr>or_Installed = [], or_CrossMajorAvailable = []\<rparr>), [])
      | Some rs \<Rightarrow>
          (let (sameMajor, crossMajor) = SelectRelease rs current;
               cross = (case crossMajor of Some c \<Rightarrow> rel_TagName c | None \<Rightarrow> []);
               result = \<lparr>or_Installed = [], or_CrossMajorAvailable = cross\<rparr> in
           case sameMajor of
             None \<Rightarrow>
               ((cross \<noteq> [] \<or>
                 list_ex (\<lambda>r. parseSemanticVersion (rel_TagName r) \<noteq> None \<and> \<not> rel_Draft r \<and> \<not> rel_Prerelease r) rs, result), [])
           | Some r \<Rightarrow>
               if \<not> validateReleaseAssets r then ((False, result), [])
               else (case DownloadVersion e repo (rel_TagName r) of
                   (Inl _, events) \<Rightarrow> ((False, result), [Downloading (rel_TagName r) events])
                 | (Inr _, events) \<Rightarrow>
                     ((True, result\<lparr>or_Installed := rel_TagName r\<rparr>), [Downloading (rel_TagName r) events]))))"

definition Auto :: "update_env \<Rightarrow> string \<Rightarrow> bool \<Rightarrow> release list option \<Rightarrow> string \<Rightarrow> bool \<times> auto_event list" where
  "Auto e repo due releases current =
     (if repo = [] \<or> \<not> due then (True, [])
      else case releases of
        None \<Rightarrow> (False, [Checked []])
      | Some rs \<Rightarrow>
          (let (sameMajor, crossMajor) = SelectRelease rs current;
               available = (case crossMajor of Some c \<Rightarrow> rel_TagName c | None \<Rightarrow> []) in
           case sameMajor of
             None \<Rightarrow> (True, [Checked [], Checked available])
           | Some r \<Rightarrow>
               if \<not> validateReleaseAssets r then (False, [Checked [], Checked available])
               else (case DownloadVersion e repo (rel_TagName r) of
                   (Inl _, events) \<Rightarrow> (False, [Checked [], Checked available, Downloading (rel_TagName r) events])
                 | (Inr _, events) \<Rightarrow>
                     (True, [Checked [], Checked available, Downloading (rel_TagName r) events]
                        @ (if available \<noteq> [] then [Checked available] else [])))))"

section \<open>The repository and the check interval\<close>

definition updateDisabled :: "string \<Rightarrow> bool" where
  "updateDisabled repo = (to_lower (trim_space repo) \<in> {''off'', ''none'', ''disabled''})"

definition defaultRepo :: string where "defaultRepo = ''Cd1s/ssm''"

text \<open>The environment variable, the file if it can be read, and the setting, in this order.\<close>

fun releaseRepo_of :: "string list \<Rightarrow> string" where
  "releaseRepo_of [] = defaultRepo"
| "releaseRepo_of (candidate # rest) =
     (let repo = trim_space candidate in
      if repo = [] then releaseRepo_of rest
      else if updateDisabled repo then [] else repo)"

definition releaseRepo :: "string \<Rightarrow> string option \<Rightarrow> string \<Rightarrow> string" where
  "releaseRepo variable file_text setting =
     releaseRepo_of ([variable] @ (case file_text of Some t \<Rightarrow> [t] | None \<Rightarrow> []) @ [setting])"

definition flag_text :: "string \<Rightarrow> int \<Rightarrow> string" where
  "flag_text latest now = (if latest = [] then ''-'' else latest) @ [CHR 0x0A] @ itoa now"

text \<open>
  \<^verbatim>\<open>fmt.Sscanf\<close> with \<open>%d\<close>: white space but a newline is skipped; a failure leaves the value 0.
\<close>

definition scan_int :: "string \<Rightarrow> int" where
  "scan_int s =
     (let t = trim_front (removeAll [CHR 0x0A] space_seqs) s;
          negative = has_prefix t ''-'';
          u = (if negative \<or> has_prefix t ''+'' then tl t else t);
          digits = takeWhile (\<lambda>c. digit_value c \<noteq> None) u in
      case (if digits = [] then None else digits_value 0 digits) of
        None \<Rightarrow> 0
      | Some n \<Rightarrow>
          if negative then (if n \<le> max_int + 1 then - n else 0) else (if n \<le> max_int then n else 0))"

definition cooldown :: int where "cooldown = 6 * 60 * 60 * 10 ^ 9"

text \<open>\<open>now\<close> is the time in nanoseconds.\<close>

definition shouldCheck :: "string option \<Rightarrow> int \<Rightarrow> bool" where
  "shouldCheck flag now =
     (case flag of
        None \<Rightarrow> True
      | Some data \<Rightarrow>
          (case dropWhile (\<lambda>c. c \<noteq> CHR 0x0A) data of
             [] \<Rightarrow> True
           | _ # stamp \<Rightarrow> cooldown < now - scan_int stamp * 10 ^ 9))"

section \<open>The installed executable\<close>

definition installedNames :: "string list" where
  "installedNames = [''ssm'', ''sshctl'', ''ssm.exe'', ''sshctl.exe'']"

definition installed_name :: "string \<Rightarrow> bool" where
  "installed_name path = (path_base path \<in> set installedNames)"

record process_env =
  pe_Executable :: "string option"
  pe_EvalSymlinks :: "string \<Rightarrow> string option"
  pe_CommandLineName :: string
  pe_LookPath :: "string \<Rightarrow> string option"
  pe_Abs :: "string \<Rightarrow> string option"
  pe_Regular :: "string \<Rightarrow> bool"

definition resolveInstalledExecutable :: "process_env \<Rightarrow> string option" where
  "resolveInstalledExecutable p =
     (case pe_Executable p of
        None \<Rightarrow> None
      | Some exe \<Rightarrow>
      (case pe_EvalSymlinks p exe of
        None \<Rightarrow> None
      | Some canonical \<Rightarrow>
          if installed_name exe \<or> installed_name canonical then Some canonical
          else if \<not> installed_name (pe_CommandLineName p) then None
          else (case pe_LookPath p (pe_CommandLineName p) of
            None \<Rightarrow> None
          | Some found \<Rightarrow>
          (case (if has_prefix found ''/'' then Some found else pe_Abs p found) of
            None \<Rightarrow> None
          | Some absolute \<Rightarrow>
          (case pe_EvalSymlinks p absolute of
            None \<Rightarrow> None
          | Some real \<Rightarrow> if installed_name real \<and> pe_Regular p real then Some real else None)))))"

section \<open>Major updates (internal/update/migration.go)\<close>

datatype configuration_state = Unconfigured | Configured | OtherConfiguration
datatype stat_answer = StatFound | StatMissing | StatError

text \<open>
  What the migration preflight observes: the local synchronization facts and the error of reading them, the two
  recovery intents, the vault with the number of its pending mutations, and the installed executable.
\<close>

record migration_env =
  me_FactsError :: bool
  me_Configuration :: configuration_state
  me_Conflict :: bool
  me_Intents :: "stat_answer list"
  me_VaultExists :: bool
  me_PassVariable :: string
  me_ReadPass :: "string \<Rightarrow> string option"
  me_LoadPending :: "string \<Rightarrow> nat option"
  me_Executable :: "string option"
  me_Regular :: bool
  me_Probe :: "(bool \<times> bool) option"   \<comment> \<open>creation of the probe file; its close and removal\<close>

datatype check_status = CheckPassed | CheckFailed

definition check :: "bool \<Rightarrow> check_status" where "check ok = (if ok then CheckPassed else CheckFailed)"

definition checkCloudConfiguration :: "migration_env \<Rightarrow> check_status" where
  "checkCloudConfiguration m =
     (if \<not> me_FactsError m \<and> me_Configuration m = Unconfigured then CheckPassed
      else if \<not> me_FactsError m \<and> me_Configuration m = Configured then CheckPassed
      else CheckFailed)"

definition checkPendingRecovery :: "migration_env \<Rightarrow> string \<Rightarrow> check_status" where
  "checkPendingRecovery m masterPassPath =
     (if list_ex (\<lambda>s. s \<noteq> StatMissing) (me_Intents m) then CheckFailed
      else if \<not> me_VaultExists m then CheckPassed
      else
        (let path = trim_space masterPassPath;
             passwordPath = (if path = [] then trim_space (me_PassVariable m) else path) in
         if passwordPath = [] then CheckFailed
         else case me_ReadPass m passwordPath of
           None \<Rightarrow> CheckFailed
         | Some password \<Rightarrow>
             (case me_LoadPending m (trim_right password [CHR 0x0D, CHR 0x0A]) of
                None \<Rightarrow> CheckFailed
              | Some n \<Rightarrow> if n \<noteq> 0 then CheckFailed else CheckPassed)))"

definition checkDivergence :: "migration_env \<Rightarrow> check_status" where
  "checkDivergence m = (if me_Conflict m then CheckFailed else CheckPassed)"

definition checkReleaseAsset :: "release \<Rightarrow> check_status" where
  "checkReleaseAsset r = (if validateReleaseAssets r then CheckPassed else CheckFailed)"

definition checkRollbackReadiness :: "migration_env \<Rightarrow> check_status" where
  "checkRollbackReadiness m =
     (if me_Executable m = None then CheckFailed
      else if \<not> me_Regular m then CheckFailed
      else case me_Probe m of
        None \<Rightarrow> CheckFailed
      | Some (closed, removed) \<Rightarrow> if \<not> closed \<or> \<not> removed then CheckFailed else CheckPassed)"

definition migrationPreflight :: "migration_env \<Rightarrow> release \<Rightarrow> string \<Rightarrow> check_status list" where
  "migrationPreflight m target masterPassPath =
     [checkCloudConfiguration m, checkPendingRecovery m masterPassPath, checkDivergence m, checkReleaseAsset target,
      checkRollbackReadiness m]"

definition checksPassed :: "check_status list \<Rightarrow> bool" where
  "checksPassed checks = list_all (\<lambda>c. c = CheckPassed) checks"

text \<open>The reviewed target, or \<open>None\<close> for an error. The review itself installs nothing.\<close>

definition ReviewMajor :: "migration_env \<Rightarrow> release list option \<Rightarrow> string \<Rightarrow> string \<Rightarrow> string option" where
  "ReviewMajor m releases current masterPassPath =
     (case releases of
        None \<Rightarrow> None
      | Some rs \<Rightarrow>
      (case snd (SelectRelease rs current) of
        None \<Rightarrow> None
      | Some target \<Rightarrow>
          (let notes = trim_space (rel_Body target);
               ok = notes \<noteq> [] \<and> checksPassed (migrationPreflight m target masterPassPath) in
           if notes = [] then None else if \<not> ok then None else Some (rel_TagName target))))"

text \<open>
  \<open>runUpdate\<close>: the arguments decide between the ordinary update, a review, and a reviewed major update. The callback
  renders the review; it is the last step before the replacement.
\<close>

definition runUpdate :: "update_env \<Rightarrow> migration_env \<Rightarrow> string \<Rightarrow> release list option \<Rightarrow> string \<Rightarrow> string \<Rightarrow> bool \<Rightarrow>
    string list \<Rightarrow> bool \<times> auto_event list" where
  "runUpdate e m repo releases current masterPassPath rendered args =
     (let major = ''--major'' \<in> set args; yes = ''--yes'' \<in> set args in
      if \<not> set args \<subseteq> {''--major'', ''--yes''} then (False, [])
      else if yes \<and> \<not> major then (False, [])
      else if major then
        (case ReviewMajor m releases current masterPassPath of
           None \<Rightarrow> (False, [])
         | Some target \<Rightarrow>
             if \<not> yes then (rendered, [])
             else (case DownloadVersionBeforeReplace (e\<lparr>up_BeforeReplace := Some rendered\<rparr>) repo target of
                 (Inl _, events) \<Rightarrow> (False, [Downloading target events])
               | (Inr _, events) \<Rightarrow> (True, [Downloading target events])))
      else (let ((ok, _), events) = Download e repo releases current in (ok, events)))"

end
