(* ===== verification/Self_Update_Props.thy ===== *)
theory Self_Update_Props
  imports Self_Update Host_Key_Props
begin

text \<open>
  Properties of the self-update: which release is chosen, what may be installed, and the reading of versions,
  manifests, checksum files and the check interval.
\<close>

section \<open>Versions\<close>

lemma digits_value_nonneg: "0 \<le> acc \<Longrightarrow> digits_value acc s = Some n \<Longrightarrow> acc \<le> n"
proof (induction s arbitrary: acc)
  case (Cons c s)
  then obtain d where d: "digit_value c = Some d" "digits_value (10 * acc + d) s = Some n" by (auto split: option.splits)
  then have "0 \<le> d" by (auto simp: digit_value_def less_eq_char_def split: if_splits)
  with Cons.prems have "0 \<le> 10 * acc + d" "acc \<le> 10 * acc + d" by simp_all
  with Cons.IH [OF this(1) d(2)] show ?case by simp
qed simp

lemma digit_char_value: "digit_value c = Some d \<Longrightarrow> 0 \<le> d \<and> d < 10 \<and> digit_char d = c"
  by (auto simp: digit_value_def digit_char_def less_eq_char_def nat_diff_distrib split: if_splits)

lemma int_digits_snoc:
  assumes "0 < m" and "0 \<le> d" and "d < 10"
  shows "int_digits (10 * m + d) = int_digits m @ [digit_char d]"
  using assms by (subst int_digits.simps) auto

lemma zero_char: "char_of (48 :: nat) = CHR ''0''"
  by code_simp

lemma digits_value_canonical:
  assumes "digits_value 0 s = Some n" and "s \<noteq> []" and "\<not> (1 < length s \<and> hd s = CHR ''0'')"
  shows "s = int_digits n"
  using assms
proof (induction s arbitrary: n rule: rev_induct)
  case (snoc c s)
  obtain m where m: "digits_value 0 s = Some m" "digits_value m [c] = Some n"
    using snoc.prems(1) by (auto simp: digits_value_append split: option.splits)
  then obtain d where d: "digit_value c = Some d" "n = 10 * m + d" by (auto split: option.splits)
  note c = digit_char_value [OF d(1)]
  show ?case
  proof (cases "s = []")
    case True
    with m d c show ?thesis by (subst int_digits.simps) auto
  next
    case False
    have s: "s = int_digits m"
      using snoc.IH [OF m(1) False] snoc.prems(3) False by (cases s) auto
    have "m \<noteq> 0"
    proof
      assume "m = 0"
      then have "s = [CHR ''0'']" using s by (subst (asm) int_digits.simps) (simp add: digit_char_def zero_char)
      with snoc.prems(3) show False by simp
    qed
    moreover have "0 \<le> m" using digits_value_nonneg [OF _ m(1)] by simp
    ultimately show ?thesis using int_digits_snoc [of m d] c d s by simp
  qed
qed simp

lemma int_digits_zero_head:
  assumes "0 \<le> n" and "1 < length (int_digits n)"
  shows "hd (int_digits n) \<noteq> CHR ''0''"
  using assms
proof (induction n rule: int_digits.induct)
  case (1 n)
  then have big: "10 \<le> n" by (subst (asm) (2) int_digits.simps) (auto split: if_splits)
  have step: "int_digits n = int_digits (n div 10) @ [digit_char (n mod 10)]"
    using big by (subst int_digits.simps) simp
  have ne: "int_digits (n div 10) \<noteq> []" by (subst int_digits.simps) simp
  show ?case
  proof (cases "1 < length (int_digits (n div 10))")
    case True
    with 1 big step ne show ?thesis by simp
  next
    case False
    with ne have "length (int_digits (n div 10)) = 1" by (cases "int_digits (n div 10)") auto
    then have small: "n div 10 < 10" by (subst (asm) int_digits.simps) (auto split: if_splits, subst (asm) int_digits.simps, auto split: if_splits)
    have "0 < n div 10" using big by (simp add: zdiv_mono1 pos_imp_zdiv_pos_iff)
    then have "digit_char (n div 10) \<noteq> CHR ''0''"
      using digit_value_char [of "n div 10"] small by (auto simp: digit_value_def)
    with small step show ?thesis by (subst (asm) int_digits.simps) simp
  qed
qed

lemma version_part_iff: "version_part p = Some n \<longleftrightarrow> p = int_digits n \<and> 0 \<le> n \<and> n \<le> max_int"
proof
  assume "version_part p = Some n"
  then show "p = int_digits n \<and> 0 \<le> n \<and> n \<le> max_int"
    using digits_value_canonical [of p n] digits_value_nonneg [of 0 p n]
    by (auto simp: version_part_def split: if_splits option.splits)
next
  assume n: "p = int_digits n \<and> 0 \<le> n \<and> n \<le> max_int"
  have "int_digits n \<noteq> []" by (subst int_digits.simps) simp
  then show "version_part p = Some n"
    using n digits_value_int_digits [of n] int_digits_zero_head [of n] by (auto simp: version_part_def)
qed

definition version_text :: "semantic_version \<Rightarrow> string" where
  "version_text v = int_digits (ver_major v) @ ''.'' @ int_digits (ver_minor v) @ ''.'' @ int_digits (ver_patch v)"

definition version_in_range :: "semantic_version \<Rightarrow> bool" where
  "version_in_range v \<longleftrightarrow> list_all (\<lambda>n. 0 \<le> n \<and> n \<le> max_int) [ver_major v, ver_minor v, ver_patch v]"

lemma int_digits_values: "0 \<le> n \<Longrightarrow> c \<in> set (int_digits n) \<Longrightarrow> digit_value c \<noteq> None"
proof (induction n rule: int_digits.induct)
  case (1 n)
  then show ?case
    by (cases "n < 10") (auto simp: int_digits.simps [of n] pos_imp_zdiv_nonneg_iff digit_value_char)
qed

lemma punctuation_values [simp]:
  "digit_value (CHR ''.'') = None" "digit_value (CHR ''-'') = None" "digit_value (CHR ''+'') = None" "digit_value (CHR 0x0A) = None"
  by code_simp+

lemma not_in_digits: "0 \<le> n \<Longrightarrow> digit_value c = None \<Longrightarrow> c \<notin> set (int_digits n)"
  using int_digits_values by fastforce

lemma split_three:
  assumes "0 \<le> a" and "0 \<le> b" and "0 \<le> c"
  shows "split_char (CHR ''.'') (int_digits a @ ''.'' @ int_digits b @ ''.'' @ int_digits c)
    = [int_digits a, int_digits b, int_digits c]"
  using assms not_in_digits [of _ "CHR ''.''"] by (simp add: split_char_append split_char_single)

lemma join_split_char: "join [d] (split_char d s) = s"
proof (induction s)
  case (Cons c s)
  then show ?case by (cases "split_char d s") (auto simp: join_def)
qed (simp add: join_def)

lemma split_char_three:
  assumes "split_char d s = [a, b, c]"
  shows "s = a @ d # b @ d # c"
  using join_split_char [of d s] assms by (simp add: join_def)

lemma parse_version_iff:
  "parseSemanticVersion s = Some v \<longleftrightarrow> version_in_range v \<and> trim_prefix (trim_space s) ''v'' = version_text v"
proof
  assume p: "parseSemanticVersion s = Some v"
  let ?t = "trim_prefix (trim_space s) ''v''"
  obtain a b c where parts: "map version_part (split_char (CHR ''.'') ?t) = [Some a, Some b, Some c]" "v = Version a b c"
    using p by (auto simp: parseSemanticVersion_def Let_def split: if_splits list.splits option.splits)
  then obtain x y z where "split_char (CHR ''.'') ?t = [x, y, z]"
    "version_part x = Some a" "version_part y = Some b" "version_part z = Some c" by auto
  with split_char_three [OF this(1)] parts show "version_in_range v \<and> ?t = version_text v"
    by (simp add: version_part_iff version_in_range_def version_text_def)
next
  assume v: "version_in_range v \<and> trim_prefix (trim_space s) ''v'' = version_text v"
  then have r: "0 \<le> ver_major v" "0 \<le> ver_minor v" "0 \<le> ver_patch v" by (simp_all add: version_in_range_def)
  have signs: "\<not> contains_any (version_text v) ''-+''"
    using not_in_digits [OF r(1)] not_in_digits [OF r(2)] not_in_digits [OF r(3)]
    by (auto simp: contains_any_def list_ex_iff version_text_def)
  have ne: "version_text v \<noteq> []" by (simp add: version_text_def)
  have parts: "map version_part (split_char (CHR ''.'') (version_text v)) = [Some (ver_major v), Some (ver_minor v), Some (ver_patch v)]"
    unfolding version_text_def split_three [OF r] using v r by (simp add: version_part_iff version_in_range_def)
  show "parseSemanticVersion s = Some v"
    unfolding parseSemanticVersion_def Let_def conjunct2 [OF v] parts using ne signs by simp
qed

section \<open>Selecting a release\<close>

definition release_version :: "release \<Rightarrow> semantic_version" where
  "release_version r = (case parseSemanticVersion (rel_TagName r) of Some v \<Rightarrow> v | None \<Rightarrow> Version 0 0 0)"

text \<open>A published release with a version above \<open>v\<close>.\<close>

definition newer_release :: "semantic_version \<Rightarrow> release \<Rightarrow> bool" where
  "newer_release v r \<longleftrightarrow>
     parseSemanticVersion (rel_TagName r) \<noteq> None \<and> \<not> rel_Draft r \<and> \<not> rel_Prerelease r \<and> v < release_version r"

definition newest_of :: "release set \<Rightarrow> release option \<Rightarrow> bool" where
  "newest_of C x \<longleftrightarrow> (case x of None \<Rightarrow> C = {} | Some r \<Rightarrow> r \<in> C \<and> (\<forall>r' \<in> C. release_version r' \<le> release_version r))"

definition same_major :: "semantic_version \<Rightarrow> release set \<Rightarrow> release set" where
  "same_major v rs = {r \<in> rs. newer_release v r \<and> ver_major (release_version r) = ver_major v}"

definition cross_major :: "semantic_version \<Rightarrow> release set \<Rightarrow> release set" where
  "cross_major v rs = {r \<in> rs. newer_release v r \<and> ver_major v < ver_major (release_version r)}"

lemma newest_of_insert:
  "newest_of C None \<Longrightarrow> newest_of (insert r C) (Some r)"
  "newest_of C (Some x) \<Longrightarrow> release_version x < release_version r \<Longrightarrow> newest_of (insert r C) (Some r)"
  "newest_of C (Some x) \<Longrightarrow> release_version r \<le> release_version x \<Longrightarrow> newest_of (insert r C) (Some x)"
  by (auto simp: newest_of_def)

lemma select_step_newest:
  assumes "newest_of (same_major v rs) (fst acc)" and "newest_of (cross_major v rs) (snd acc)"
  shows "newest_of (same_major v (insert c rs)) (fst (select_step v acc c))"
    and "newest_of (cross_major v (insert c rs)) (snd (select_step v acc c))"
proof -
  obtain x y where acc: "acc = (x, y)" by (cases acc)
  have member: "parseSemanticVersion (rel_TagName z) \<noteq> None" if "x = Some z \<or> y = Some z" for z
    using that assms by (auto simp: acc newest_of_def same_major_def cross_major_def newer_release_def)
  have outside: "same_major v (insert c rs) = same_major v rs" "cross_major v (insert c rs) = cross_major v rs"
    if "\<not> newer_release v c"
    using that by (auto simp: same_major_def cross_major_def)
  show "newest_of (same_major v (insert c rs)) (fst (select_step v acc c))"
    and "newest_of (cross_major v (insert c rs)) (snd (select_step v acc c))"
  proof (atomize(full), cases "newer_release v c")
    case False
    then have "select_step v acc c = acc"
      by (auto simp: select_step_def acc newer_release_def release_version_def compareVersion_order not_less split: option.splits)
    with outside [OF False] assms show "newest_of (same_major v (insert c rs)) (fst (select_step v acc c)) \<and>
        newest_of (cross_major v (insert c rs)) (snd (select_step v acc c))" by simp
  next
    case True
    then obtain w where w: "parseSemanticVersion (rel_TagName c) = Some w" "release_version c = w" "v < w"
      "\<not> rel_Draft c" "\<not> rel_Prerelease c" "\<not> w \<le> v"
      by (auto simp: newer_release_def release_version_def)
    consider "ver_major w = ver_major v" | "ver_major v < ver_major w" | "ver_major w < ver_major v" by linarith
    then show "newest_of (same_major v (insert c rs)) (fst (select_step v acc c)) \<and>
        newest_of (cross_major v (insert c rs)) (snd (select_step v acc c))"
    proof cases
      case 1
      then have sets: "same_major v (insert c rs) = insert c (same_major v rs)" "cross_major v (insert c rs) = cross_major v rs"
        using True w by (auto simp: same_major_def cross_major_def)
      have keep: "newest_of (cross_major v rs) y" using assms by (simp add: acc)
      show ?thesis
      proof (cases x)
        case None
        with 1 w keep assms newest_of_insert(1) [of "same_major v rs" c] show ?thesis
          unfolding sets by (simp add: acc select_step_def compareVersion_order)
      next
        case (Some z)
        then obtain wz where wz: "parseSemanticVersion (rel_TagName z) = Some wz" using member by blast
        then have rz: "release_version z = wz" by (simp add: release_version_def)
        have "fst (select_step v acc c) = (if wz < w then Some c else Some z)" "snd (select_step v acc c) = y"
          using 1 w wz Some by (simp_all add: acc select_step_def compareVersion_order releaseNewer_def)
        then show ?thesis
          unfolding sets using newest_of_insert(2,3) [of "same_major v rs" z c] assms(1) keep Some rz w(2)
          by (auto simp: acc not_less)
      qed
    next
      case 2
      then have sets: "same_major v (insert c rs) = same_major v rs" "cross_major v (insert c rs) = insert c (cross_major v rs)"
        using True w by (auto simp: same_major_def cross_major_def)
      have keep: "newest_of (same_major v rs) x" using assms by (simp add: acc)
      show ?thesis
      proof (cases y)
        case None
        with 2 w keep assms newest_of_insert(1) [of "cross_major v rs" c] show ?thesis
          unfolding sets by (simp add: acc select_step_def compareVersion_order)
      next
        case (Some z)
        then obtain wz where wz: "parseSemanticVersion (rel_TagName z) = Some wz" using member by blast
        then have rz: "release_version z = wz" by (simp add: release_version_def)
        have "snd (select_step v acc c) = (if wz < w then Some c else Some z)" "fst (select_step v acc c) = x"
          using 2 w wz Some by (simp_all add: acc select_step_def compareVersion_order)
        then show ?thesis
          unfolding sets using newest_of_insert(2,3) [of "cross_major v rs" z c] assms(2) keep Some rz w(2)
          by (auto simp: acc not_less)
      qed
    next
      case 3
      then have "compareVersion w v < 0" by (simp add: compareVersion_def)
      with w(3) show ?thesis by (simp add: less_semantic_version_def compareVersion_def split: if_splits)
    qed
  qed
qed

lemma select_fold_newest:
  "newest_of (same_major v rs) (fst acc) \<Longrightarrow> newest_of (cross_major v rs) (snd acc) \<Longrightarrow>
   newest_of (same_major v (rs \<union> set xs)) (fst (foldl (select_step v) acc xs)) \<and>
   newest_of (cross_major v (rs \<union> set xs)) (snd (foldl (select_step v) acc xs))"
proof (induction xs arbitrary: acc rs)
  case (Cons x xs)
  from Cons.IH [OF select_step_newest [OF Cons.prems, of x]] show ?case by simp
qed simp

section \<open>The asset manifest\<close>

lemma scan_names_Inr:
  "scan_names allowed ns seen = Inr s \<longleftrightarrow> set ns \<subseteq> set allowed \<and> distinct ns \<and> set ns \<inter> seen = {} \<and> s = seen \<union> set ns"
  by (induction ns arbitrary: seen) auto

lemma distinct_manifest: "distinct ExpectedReleaseNames"
  by (simp add: ExpectedReleaseNames_def supportedTargets_def asset_name_def ProvenanceName_def)

lemma find_None_all: "find P xs = None \<longleftrightarrow> (\<forall>x \<in> set xs. \<not> P x)"
  by (induction xs) auto

lemma manifest_accepts: "ValidateReleaseNames names = None \<longleftrightarrow> mset names = mset ExpectedReleaseNames"
proof
  assume v: "ValidateReleaseNames names = None"
  then obtain s where len: "length names = length ExpectedReleaseNames" and s: "scan_names ExpectedReleaseNames names {} = Inr s"
    and all: "\<forall>n \<in> set ExpectedReleaseNames. n \<in> s"
    by (auto simp: ValidateReleaseNames_def Let_def find_None_all split: if_splits sum.splits)
  then have "distinct names" "set names = set ExpectedReleaseNames" by (auto simp: scan_names_Inr)
  then show "mset names = mset ExpectedReleaseNames"
    using distinct_manifest set_eq_iff_mset_eq_distinct by blast
next
  assume m: "mset names = mset ExpectedReleaseNames"
  then have "set names = set ExpectedReleaseNames" "length names = length ExpectedReleaseNames" "distinct names"
    using distinct_manifest mset_eq_setD mset_eq_length mset_eq_imp_distinct_iff by blast+
  moreover from this have "scan_names ExpectedReleaseNames names {} = Inr (set names)" by (simp add: scan_names_Inr)
  ultimately show "ValidateReleaseNames names = None"
    by (simp add: ValidateReleaseNames_def find_None_all)
qed

section \<open>The checksum file\<close>

text \<open>The digests that the lines of the file give for an asset.\<close>

definition listed_digests :: "string \<Rightarrow> string list \<Rightarrow> string list" where
  "listed_digests asset lines =
     map (\<lambda>line. to_lower (go_fields line ! 0))
       (filter (\<lambda>line. 2 \<le> length (go_fields line) \<and> trim_prefix (go_fields line ! 1) ''*'' = asset) lines)"

lemma checksum_scan_Inr:
  "checksum_scan asset lines found = Inr d \<longleftrightarrow>
     (case found of None \<Rightarrow> listed_digests asset lines = [d] \<and> checksum_sum d
      | Some x \<Rightarrow> listed_digests asset lines = [] \<and> x = d)"
proof (induction asset lines found rule: checksum_scan.induct)
  case (2 asset line rest found)
  show ?case
  proof (cases "2 \<le> length (go_fields line) \<and> trim_prefix (go_fields line ! 1) ''*'' = asset")
    case True
    with 2 show ?thesis by (auto simp: listed_digests_def Let_def split: option.splits)
  next
    case False
    with 2 show ?thesis by (auto simp: listed_digests_def Let_def split: option.splits)
  qed
qed (auto simp: listed_digests_def split: option.splits)

lemma lower_hex_digits: "list_all (\<lambda>c. ascii_lower c = c) ''0123456789abcdef''"
  by code_simp

lemma lower_checksum: "checksum_sum d \<Longrightarrow> to_lower d = d"
  unfolding to_lower_def
  by (rule map_idI) (use lower_hex_digits in \<open>auto simp only: checksum_sum_def list_all_iff\<close>)

section \<open>Installing\<close>

lemma read_limited_Inr:
  "read_limited r n = Inr d \<Longrightarrow> length d \<le> n \<Longrightarrow> d = rs_Body r"
  by (auto simp: read_limited_def split: if_splits)

lemma asset_Inr:
  assumes "downloadReleaseAssetLimited e repo version asset limit = Inr d"
  shows "length d \<le> limit" "\<exists>r. up_Get e (release_url (up_Base e) repo version asset) = Some r \<and> rs_Status r = 200 \<and> rs_Body r = d"
  using assms read_limited_Inr
  by (auto simp: downloadReleaseAssetLimited_def getReleaseAsset_def split: sum.splits if_splits option.splits)

lemma copy_Inr:
  "copyAndVerifyDigest e r expected = Inr (data, digest) \<longleftrightarrow>
     read_limited r maxBinary = Inr data \<and> up_Write e data \<and> length data \<le> maxBinary \<and>
     digest = up_sha e data \<and> hex_encode digest = to_lower expected"
  by (auto simp: copyAndVerifyDigest_def split: sum.splits if_splits)

text \<open>What an attempted replacement is preceded by.\<close>

lemma install_staged_replaces:
  assumes "ReplaceCalled data exe' digest mode' \<in> set (snd (install_staged e version bundle expected exe mode r))"
  shows "exe' = exe" "mode' = mode" "copyAndVerifyDigest e r expected = Inr (data, digest)"
    "up_Provenance e bundle (up_Asset e) version digest" "up_BeforeReplace e \<noteq> Some False"
  using assms by (auto simp: install_staged_def Let_def split: sum.splits prod.splits if_splits)

lemma download_replaces:
  assumes "ReplaceCalled data exe digest mode \<in> set (snd (DownloadVersionBeforeReplace e repo version))"
  obtains checksums expected evidence r where
    "downloadReleaseAssetLimited e repo version checksumsAsset maxChecksums = Inr checksums"
    "checksumForAsset (bytes_text checksums) (up_Asset e) = Inr expected"
    "downloadReleaseAssetLimited e repo version (ProvenanceName (up_Asset e)) (up_MaxBundle e) = Inr evidence" "evidence \<noteq> []"
    "up_Executable e = Some exe" "up_Stat e = Some (True, mode)"
    "getReleaseAsset e repo version (up_Asset e) = Inr r"
    "copyAndVerifyDigest e r expected = Inr (data, digest)" "up_Provenance e evidence (up_Asset e) version digest"
proof -
  obtain checksums expected evidence r exe' mode' where steps:
    "downloadReleaseAssetLimited e repo version checksumsAsset maxChecksums = Inr checksums"
    "checksumForAsset (bytes_text checksums) (up_Asset e) = Inr expected"
    "downloadReleaseAssetLimited e repo version (ProvenanceName (up_Asset e)) (up_MaxBundle e) = Inr evidence" "evidence \<noteq> []"
    "up_Executable e = Some exe'" "up_Stat e = Some (True, mode')" "getReleaseAsset e repo version (up_Asset e) = Inr r"
    "ReplaceCalled data exe digest mode \<in> set (snd (install_staged e version evidence expected exe' mode' r))"
    using assms
    by (auto simp: DownloadVersionBeforeReplace_def Let_def split: if_splits sum.splits option.splits prod.splits bool.splits)
  with install_staged_replaces [OF steps(8)] that [OF steps(1-4)] show thesis by blast
qed

text \<open>
  C7. The executable is replaced at most once, and only by bytes within the size limit that the server sent for
  the asset of this platform, whose SHA-256 is the only digest that the checksum file of that version lists for the
  asset, and whose provenance was verified for this asset, version and digest; the replaced file is the
  installed executable, a regular file, and it keeps its mode.
\<close>

theorem only_verified_bytes_are_installed:
  assumes "ReplaceCalled data exe digest mode \<in> set (snd (DownloadVersionBeforeReplace e repo version))"
  shows "digest = up_sha e data \<and> length data \<le> maxBinary
    \<and> up_Executable e = Some exe \<and> up_Stat e = Some (True, mode)
    \<and> (\<exists>r. up_Get e (release_url (up_Base e) repo version (up_Asset e)) = Some r \<and> rs_Status r = 200 \<and> rs_Body r = data)
    \<and> (\<exists>c. up_Get e (release_url (up_Base e) repo version ''checksums.txt'') = Some c \<and> rs_Status c = 200
         \<and> listed_digests (up_Asset e) (split_char (CHR 0x0A) (bytes_text (rs_Body c))) = [hex_encode digest])
    \<and> (\<exists>evidence. evidence \<noteq> [] \<and> up_Provenance e evidence (up_Asset e) version digest)
    \<and> length (filter (\<lambda>ev. \<exists>a b c d. ev = ReplaceCalled a b c d) (snd (DownloadVersionBeforeReplace e repo version))) = 1"
proof -
  from assms obtain checksums expected evidence r where steps:
    "downloadReleaseAssetLimited e repo version checksumsAsset maxChecksums = Inr checksums"
    "checksumForAsset (bytes_text checksums) (up_Asset e) = Inr expected"
    "downloadReleaseAssetLimited e repo version (ProvenanceName (up_Asset e)) (up_MaxBundle e) = Inr evidence" "evidence \<noteq> []"
    "up_Executable e = Some exe" "up_Stat e = Some (True, mode)" "getReleaseAsset e repo version (up_Asset e) = Inr r"
    "copyAndVerifyDigest e r expected = Inr (data, digest)" "up_Provenance e evidence (up_Asset e) version digest"
    by (rule download_replaces)
  have copied: "read_limited r maxBinary = Inr data" "length data \<le> maxBinary" "digest = up_sha e data"
    "hex_encode digest = to_lower expected" using steps(8) by (auto simp: copy_Inr)
  have listed: "listed_digests (up_Asset e) (split_char (CHR 0x0A) (bytes_text checksums)) = [expected]" "checksum_sum expected"
    using steps(2) by (auto simp: checksumForAsset_def checksum_scan_Inr)
  have "expected = hex_encode digest"
    using lower_checksum [OF listed(2)] copied(4) by simp
  moreover have "length (filter (\<lambda>ev. \<exists>a b c d. ev = ReplaceCalled a b c d) (snd (DownloadVersionBeforeReplace e repo version))) = 1"
    using assms by (auto simp: DownloadVersionBeforeReplace_def install_staged_def Let_def
      split: if_splits sum.splits option.splits prod.splits bool.splits)
  ultimately show ?thesis
    using steps copied listed(1) asset_Inr(2) [OF steps(1)] read_limited_Inr [OF copied(1,2)]
    by (auto simp: checksumsAsset_def getReleaseAsset_def split: option.splits if_splits)
qed

section \<open>A concrete release\<close>

definition demo_up :: update_env where
  "demo_up = \<lparr>up_Base = ''h'',
     up_Get = (\<lambda>url.
       if url = ''h/r/releases/download/v1.2.4/a'' then Some \<lparr>rs_Status = 200, rs_ContentLength = 1, rs_Body = [7], rs_Broken = False\<rparr>
       else if url = ''h/r/releases/download/v1.2.4/checksums.txt'' then
         Some \<lparr>rs_Status = 200, rs_ContentLength = -1, rs_Body = replicate 64 0x30 @ [0x20, 0x61], rs_Broken = False\<rparr>
       else Some \<lparr>rs_Status = 200, rs_ContentLength = -1, rs_Body = [1], rs_Broken = False\<rparr>),
     up_Asset = ''a'', up_MaxBundle = 10, up_Executable = Some ''/bin/ssm'', up_Stat = Some (True, 493), up_CreateTemp = True,
     up_Write = (\<lambda>_. True), up_Close = True, up_sha = (\<lambda>_. replicate 32 0), up_Provenance = (\<lambda>_ _ _ _. True),
     up_BeforeReplace = None, up_Replace = (\<lambda>_ _ _ _. True)\<rparr>"

lemma zero_not_space: "strip_prefix_len space_seqs (CHR ''0'' # s) = 0"
  by (simp add: space_seqs_def)

lemma take_zeros: "take_word (replicate n (CHR ''0'') @ CHR '' '' # s) = replicate n (CHR ''0'')"
proof (induction n)
  case 0
  show ?case by (simp add: space_seqs_def)
next
  case (Suc n)
  then show ?case by (simp add: zero_not_space)
qed

lemma demo_fields: "go_fields (replicate 64 (CHR ''0'') @ '' a'') = [replicate 64 (CHR ''0''), ''a'']"
proof -
  obtain n where n: "(64 :: nat) = Suc n" by (metis numeral_eq_Suc)
  have front: "trim_front space_seqs (replicate 64 (CHR ''0'') @ '' a'') = replicate 64 (CHR ''0'') @ '' a''"
    unfolding n by (rule trim_front_fixed) (simp add: zero_not_space)
  have rest: "go_fields '' a'' = [''a'']" by code_simp
  show ?thesis
    using take_zeros [of 64 "''a''"] by (subst go_fields.simps) (simp add: front rest Let_def)
qed

lemma demo_text: "bytes_text (replicate 64 0x30 @ [0x20, 0x61]) = replicate 64 (CHR ''0'') @ '' a''"
proof -
  have "map (\<lambda>x. char_of (unat x)) [0x30, 0x20, 0x61 :: byte] = ''0 a''" by code_simp
  then show ?thesis by (simp add: bytes_text_def map_replicate_const)
qed

lemma demo_sum: "checksum_sum (replicate 64 (CHR ''0''))"
  by (simp add: checksum_sum_def list_all_iff)

lemma demo_checksum:
  "checksumForAsset (bytes_text (replicate 64 0x30 @ [0x20, 0x61])) ''a'' = Inr (replicate 64 (CHR ''0''))"
proof -
  have "CHR 0x0A \<notin> set (replicate 64 (CHR ''0'') @ '' a'')" by simp
  then show ?thesis
    unfolding demo_text
    by (simp add: checksumForAsset_def split_char_single checksum_scan_Inr listed_digests_def demo_fields demo_sum
      lower_checksum trim_prefix_def del: replicate.simps)
qed

lemma read_limited_all: "\<not> rs_Broken r \<Longrightarrow> length (rs_Body r) \<le> n \<Longrightarrow> read_limited r n = Inr (rs_Body r)"
  by (simp add: read_limited_def)

lemma demo_digest_text: "hex_encode (replicate 32 0) = to_lower (replicate 64 (CHR ''0''))"
  by code_simp

lemma demo_urls:
  "release_url ''h'' ''r'' ''v1.2.4'' ''a'' = ''h/r/releases/download/v1.2.4/a''"
  "release_url ''h'' ''r'' ''v1.2.4'' checksumsAsset = ''h/r/releases/download/v1.2.4/checksums.txt''"
  "release_url ''h'' ''r'' ''v1.2.4'' (ProvenanceName ''a'') = ''h/r/releases/download/v1.2.4/a.sigstore.json''"
  by code_simp+

lemma demo_up_download:
  "DownloadVersionBeforeReplace demo_up ''r'' ''v1.2.4'' =
     (Inr (), [TempCreated, Staged [7], ReplaceCalled [7] ''/bin/ssm'' (replicate 32 0) 493, FlagCleared, TempRemoved])"
  by (simp add: DownloadVersionBeforeReplace_def downloadReleaseAssetLimited_def getReleaseAsset_def install_staged_def
    copyAndVerifyDigest_def demo_up_def demo_urls read_limited_all maxChecksums_def maxBinary_def demo_checksum
    demo_digest_text)

theorem only_verified_bytes_are_installed_witness:
  "listed_digests ''a'' (split_char (CHR 0x0A) (bytes_text (replicate 64 0x30 @ [0x20, 0x61]))) = [hex_encode (replicate 32 0)]"
proof -
  have "ReplaceCalled [7] ''/bin/ssm'' (replicate 32 0) 493 \<in> set (snd (DownloadVersionBeforeReplace demo_up ''r'' ''v1.2.4''))"
    by (simp add: demo_up_download)
  from only_verified_bytes_are_installed [OF this] show ?thesis
    using demo_urls(2) by (auto simp: demo_up_def checksumsAsset_def)
qed

section \<open>Ordinary updates\<close>

lemma SelectRelease_newest:
  assumes "parseSemanticVersion current = Some v"
  shows "newest_of (same_major v (set rs)) (fst (SelectRelease rs current))"
    and "newest_of (cross_major v (set rs)) (snd (SelectRelease rs current))"
proof -
  have "newest_of (same_major v {}) None" "newest_of (cross_major v {}) None"
    by (simp_all add: newest_of_def same_major_def cross_major_def)
  then show "newest_of (same_major v (set rs)) (fst (SelectRelease rs current))"
    "newest_of (cross_major v (set rs)) (snd (SelectRelease rs current))"
    using select_fold_newest [of v "{}" "(None, None)" rs] assms by (simp_all add: SelectRelease_def)
qed

lemma selected_same_major:
  assumes "fst (SelectRelease rs current) = Some r"
  obtains v where "parseSemanticVersion current = Some v" "r \<in> same_major v (set rs)"
    "\<forall>r' \<in> same_major v (set rs). release_version r' \<le> release_version r"
proof -
  obtain v where v: "parseSemanticVersion current = Some v"
    using assms by (auto simp: SelectRelease_def split: option.splits)
  then show thesis using SelectRelease_newest(1) [OF v, of rs] assms that by (auto simp: newest_of_def)
qed

text \<open>
  The release offered within the current major version is the newest published one above the current
  version, the one offered across a major boundary the newest published one of a higher major version, and none is
  offered exactly if there is none; drafts, prereleases and malformed tags never count.
\<close>

theorem selected_releases_are_newest:
  assumes "parseSemanticVersion current = Some v"
  shows "(case fst (SelectRelease rs current) of
       None \<Rightarrow> same_major v (set rs) = {}
     | Some r \<Rightarrow> r \<in> same_major v (set rs) \<and> (\<forall>r' \<in> same_major v (set rs). release_version r' \<le> release_version r))
    \<and> (case snd (SelectRelease rs current) of
       None \<Rightarrow> cross_major v (set rs) = {}
     | Some r \<Rightarrow> r \<in> cross_major v (set rs) \<and> (\<forall>r' \<in> cross_major v (set rs). release_version r' \<le> release_version r))"
  using SelectRelease_newest [OF assms, of rs] by (simp add: newest_of_def)

definition demo_release :: "string \<Rightarrow> bool \<Rightarrow> release" where
  "demo_release tag draft = \<lparr>rel_TagName = tag, rel_Name = [], rel_Body = [], rel_Draft = draft, rel_Prerelease = False,
     rel_Assets = ExpectedReleaseNames\<rparr>"

definition demo_releases :: "release list" where
  "demo_releases = [demo_release ''v1.2.4'' False, demo_release ''v1.10.0'' False, demo_release ''v1.11.0'' True,
     demo_release ''v2.0.0'' False]"

lemma demo_selection:
  "SelectRelease demo_releases ''1.2.3'' = (Some (demo_release ''v1.10.0'' False), Some (demo_release ''v2.0.0'' False))"
  by code_simp

lemma demo_current: "parseSemanticVersion ''1.2.3'' = Some (Version 1 2 3)"
  by code_simp

theorem selected_releases_are_newest_witness:
  "demo_release ''v1.10.0'' False \<in> same_major (Version 1 2 3) (set demo_releases)
   \<and> demo_release ''v2.0.0'' False \<in> cross_major (Version 1 2 3) (set demo_releases)"
  using selected_releases_are_newest [OF demo_current, of demo_releases] by (simp add: demo_selection)

lemma ordinary_target:
  assumes "Downloading tag events \<in> set (snd (Auto e repo due releases current)) \<union> set (snd (Download e repo releases current))"
  shows "\<exists>rs v r. releases = Some rs \<and> parseSemanticVersion current = Some v \<and> r \<in> same_major v (set rs) \<and> rel_TagName r = tag
    \<and> (\<forall>r' \<in> same_major v (set rs). release_version r' \<le> release_version r)
    \<and> mset (rel_Assets r) = mset ExpectedReleaseNames"
proof -
  from assms obtain rs r where rs: "releases = Some rs" and r: "fst (SelectRelease rs current) = Some r"
    "rel_TagName r = tag" "validateReleaseAssets r"
    by (cases releases) (auto simp: Auto_def Download_def Let_def split: if_splits prod.splits option.splits sum.splits)
  from selected_same_major [OF r(1)] obtain v where "parseSemanticVersion current = Some v" "r \<in> same_major v (set rs)"
    "\<forall>r' \<in> same_major v (set rs). release_version r' \<le> release_version r" by blast
  with rs r(2,3) show ?thesis by (auto simp: validateReleaseAssets_def manifest_accepts)
qed

text \<open>
  C8. Neither the automatic nor the manual update leaves the major version: the only version they download is
  a published one above the current version with the same major number, the newest of these, and its assets
  are exactly the names of the release manifest.
\<close>

theorem ordinary_updates_stay_in_the_major_version:
  assumes "Downloading tag events \<in> set (snd (Auto e repo due releases current)) \<union> set (snd (Download e repo releases current))"
  shows "\<exists>rs v r. releases = Some rs \<and> parseSemanticVersion current = Some v \<and> r \<in> same_major v (set rs) \<and> rel_TagName r = tag
    \<and> (\<forall>r' \<in> same_major v (set rs). release_version r' \<le> release_version r)
    \<and> mset (rel_Assets r) = mset ExpectedReleaseNames"
  by (rule ordinary_target [OF assms])

theorem ordinary_updates_stay_in_the_major_version_witness:
  "\<exists>v r. parseSemanticVersion ''1.2.3'' = Some v \<and> r \<in> same_major v (set demo_releases) \<and> rel_TagName r = ''v1.10.0''"
proof -
  have "validateReleaseAssets (demo_release ''v1.10.0'' False)"
    by (simp add: validateReleaseAssets_def manifest_accepts demo_release_def)
  then have "\<exists>events. Downloading ''v1.10.0'' events \<in> set (snd (Download demo_up ''r'' (Some demo_releases) ''1.2.3''))"
    by (cases "DownloadVersion demo_up ''r'' ''v1.10.0''"; cases "fst (DownloadVersion demo_up ''r'' ''v1.10.0'')")
      (auto simp: Download_def demo_selection demo_release_def Let_def)
  then obtain events where "Downloading ''v1.10.0'' events
      \<in> set (snd (Auto demo_up ''r'' True (Some demo_releases) ''1.2.3'')) \<union> set (snd (Download demo_up ''r'' (Some demo_releases) ''1.2.3''))"
    by blast
  from ordinary_updates_stay_in_the_major_version [OF this] show ?thesis by auto
qed

text \<open>
  A version is accepted exactly if, after white space and one leading v, it is the canonical decimal text of three
  numbers that fit a signed 64-bit integer: no sign, no leading zero, no other suffix.
\<close>

theorem accepted_versions_are_canonical:
  "parseSemanticVersion s = Some v \<longleftrightarrow> version_in_range v \<and> trim_prefix (trim_space s) ''v'' = version_text v"
  by (rule parse_version_iff)

text \<open>
  The scan over the declared asset names accepts exactly the permutations of the manifest.\<close>

theorem manifest_is_exact:
  "ValidateReleaseNames names = None \<longleftrightarrow> mset names = mset ExpectedReleaseNames"
  by (rule manifest_accepts)

section \<open>The executable that is replaced\<close>

lemma foreign_programs_are_not_replaced:
  assumes "resolveInstalledExecutable p = Some path"
  shows "\<exists>exe. pe_Executable p = Some exe \<and>
    (installed_name path \<or> installed_name exe \<and> pe_EvalSymlinks p exe = Some path)"
  using assms by (auto simp: resolveInstalledExecutable_def split: option.splits if_splits)

section \<open>The check interval\<close>

lemma space_heads: "list_all (\<lambda>q. q \<noteq> [] \<and> digit_value (hd q) = None) space_seqs"
  by code_simp

lemma digit_not_space: "digit_value c \<noteq> None \<Longrightarrow> strip_prefix_len (removeAll [CHR 0x0A] space_seqs) (c # s) = 0"
proof -
  assume c: "digit_value c \<noteq> None"
  have "\<not> has_prefix (c # s) q" if "q \<in> set space_seqs" for q
  proof -
    have "q \<noteq> [] \<and> digit_value (hd q) = None" using that space_heads unfolding list_all_iff by blast
    then show ?thesis using c by (cases q) auto
  qed
  moreover have "[] \<notin> set space_seqs" using space_heads unfolding list_all_iff by blast
  ultimately show ?thesis by (subst strip_prefix_len_zero_iff) auto
qed

lemma scan_int_digits: "0 \<le> t \<Longrightarrow> t \<le> max_int \<Longrightarrow> scan_int (int_digits t) = t"
proof -
  assume t: "0 \<le> t" "t \<le> max_int"
  have all: "\<forall>c \<in> set (int_digits t). digit_value c \<noteq> None" using int_digits_values [OF t(1)] by blast
  obtain c s where cs: "int_digits t = c # s" by (cases "int_digits t") (auto simp: int_digits.simps [of t] split: if_splits)
  have front: "trim_front (removeAll [CHR 0x0A] space_seqs) (int_digits t) = int_digits t"
    unfolding cs by (rule trim_front_fixed) (use all cs digit_not_space in auto)
  have sign: "\<not> has_prefix (int_digits t) ''-''" "\<not> has_prefix (int_digits t) ''+''"
    using all by (auto simp: cs)
  have digits: "takeWhile (\<lambda>c. digit_value c \<noteq> None) (int_digits t) = int_digits t"
    using all by (simp add: takeWhile_eq_all_conv)
  have ne: "int_digits t \<noteq> []" by (simp add: cs)
  show ?thesis
    unfolding scan_int_def Let_def front using t sign ne by (simp del: not_None_eq add: digits digits_value_int_digits)
qed

lemma check_interval:
  assumes "0 \<le> t" and "t \<le> max_int" and "CHR 0x0A \<notin> set latest"
  shows "shouldCheck (Some (flag_text latest t)) now \<longleftrightarrow> cooldown < now - t * 10 ^ 9"
proof -
  have skip: "dropWhile (\<lambda>c. c \<noteq> CHR 0x0A) (l @ CHR 0x0A # x) = CHR 0x0A # x" if "CHR 0x0A \<notin> set l" for l x
    using that by (induction l) auto
  have "dropWhile (\<lambda>c. c \<noteq> CHR 0x0A) (flag_text latest t) = CHR 0x0A # int_digits t"
    using assms skip [of latest] skip [of "''-''"] by (simp add: flag_text_def itoa_def)
  then show ?thesis using scan_int_digits [OF assms(1,2)] by (simp add: shouldCheck_def)
qed

section \<open>Major updates\<close>

text \<open>What the preflight of a major update demands.\<close>

definition ready_to_migrate :: "migration_env \<Rightarrow> string \<Rightarrow> bool" where
  "ready_to_migrate m masterPassPath \<longleftrightarrow>
     \<not> me_FactsError m \<and> me_Configuration m \<in> {Unconfigured, Configured} \<and> \<not> me_Conflict m
     \<and> (\<forall>s \<in> set (me_Intents m). s = StatMissing)
     \<and> (me_VaultExists m \<longrightarrow> (\<exists>path password. me_ReadPass m path = Some password \<and>
          me_LoadPending m (trim_right password [CHR 0x0D, CHR 0x0A]) = Some 0))
     \<and> me_Executable m \<noteq> None \<and> me_Regular m \<and> me_Probe m = Some (True, True)"

lemma preflight_ready:
  "checksPassed (migrationPreflight m target path) \<Longrightarrow> ready_to_migrate m path \<and> validateReleaseAssets target"
  by (auto simp: checksPassed_def migrationPreflight_def ready_to_migrate_def checkCloudConfiguration_def
    checkPendingRecovery_def checkDivergence_def checkReleaseAsset_def checkRollbackReadiness_def Let_def list_ex_iff
    split: if_splits option.splits prod.splits)

lemma reviewed_target:
  assumes "ReviewMajor m releases current path = Some tag"
  shows "\<exists>rs v r. releases = Some rs \<and> parseSemanticVersion current = Some v \<and> r \<in> cross_major v (set rs) \<and> rel_TagName r = tag
    \<and> (\<forall>r' \<in> cross_major v (set rs). release_version r' \<le> release_version r)
    \<and> trim_space (rel_Body r) \<noteq> [] \<and> mset (rel_Assets r) = mset ExpectedReleaseNames \<and> ready_to_migrate m path"
proof -
  obtain rs r where rs: "releases = Some rs" "snd (SelectRelease rs current) = Some r" "rel_TagName r = tag"
    "trim_space (rel_Body r) \<noteq> []" "checksPassed (migrationPreflight m r path)"
    using assms by (auto simp: ReviewMajor_def Let_def split: option.splits if_splits)
  obtain v where v: "parseSemanticVersion current = Some v"
    using rs(2) by (auto simp: SelectRelease_def split: option.splits)
  with SelectRelease_newest(2) [OF v, of rs] rs preflight_ready [OF rs(5)] show ?thesis
    by (auto simp: newest_of_def validateReleaseAssets_def manifest_accepts)
qed

text \<open>
  C9. The update command crosses a major version only when both \<open>--major\<close> and \<open>--yes\<close> were given, only to the
  newest published release of a higher major version that has release notes and exactly the assets of the manifest,
  and only after every check of the preflight has passed: no pending publication or mutation, no recorded conflict, a
  valid cloud configuration and an executable that can be replaced.
\<close>

theorem major_updates_are_reviewed:
  assumes "Downloading tag events \<in> set (snd (runUpdate e m repo releases current path rendered args))"
    and "parseSemanticVersion current = Some v" and "parseSemanticVersion tag = Some w" and "ver_major w \<noteq> ver_major v"
  shows "''--major'' \<in> set args \<and> ''--yes'' \<in> set args \<and> ready_to_migrate m path
    \<and> (\<exists>rs r. releases = Some rs \<and> r \<in> cross_major v (set rs) \<and> rel_TagName r = tag
        \<and> (\<forall>r' \<in> cross_major v (set rs). release_version r' \<le> release_version r)
        \<and> trim_space (rel_Body r) \<noteq> [] \<and> mset (rel_Assets r) = mset ExpectedReleaseNames)"
proof (cases "''--major'' \<in> set args")
  case False
  then have "Downloading tag events \<in> set (snd (Download e repo releases current))"
    using assms(1) by (auto simp: runUpdate_def Let_def split: if_splits prod.splits)
  then have "Downloading tag events
      \<in> set (snd (Auto e repo True releases current)) \<union> set (snd (Download e repo releases current))" by blast
  from ordinary_target [OF this] have "ver_major w = ver_major v"
    using assms(2,3) by (auto simp: same_major_def release_version_def)
  with assms(4) show ?thesis by simp
next
  case True
  then have "''--yes'' \<in> set args" "ReviewMajor m releases current path = Some tag"
    using assms(1) by (auto simp: runUpdate_def Let_def split: if_splits prod.splits option.splits sum.splits)
  with True reviewed_target [OF this(2)] assms(2) show ?thesis by auto
qed

definition demo_migration :: migration_env where
  "demo_migration = \<lparr>me_FactsError = False, me_Configuration = Configured, me_Conflict = False,
     me_Intents = [StatMissing, StatMissing], me_VaultExists = True, me_PassVariable = [],
     me_ReadPass = (\<lambda>_. Some ''pw''), me_LoadPending = (\<lambda>_. Some 0), me_Executable = Some ''/bin/ssm'', me_Regular = True,
     me_Probe = Some (True, True)\<rparr>"

definition demo_major :: release where
  "demo_major = demo_release ''v2.0.0'' False\<lparr>rel_Body := ''notes''\<rparr>"

theorem major_updates_are_reviewed_witness:
  "ready_to_migrate demo_migration ''p'' \<and> (\<exists>r. r \<in> cross_major (Version 1 2 3) {demo_major} \<and> rel_TagName r = ''v2.0.0'')"
proof -
  have select: "SelectRelease [demo_major] ''1.2.3'' = (None, Some demo_major)" by code_simp
  have assets: "validateReleaseAssets demo_major"
    by (simp add: validateReleaseAssets_def manifest_accepts demo_major_def demo_release_def)
  have texts: "trim_space ''p'' = ''p''" "trim_space ''notes'' = ''notes''" by code_simp+
  have fields: "rel_Body demo_major = ''notes''" "rel_TagName demo_major = ''v2.0.0''"
    by (simp_all add: demo_major_def demo_release_def)
  have "checksPassed (migrationPreflight demo_migration demo_major ''p'')"
    by (simp add: checksPassed_def migrationPreflight_def checkCloudConfiguration_def checkPendingRecovery_def
      checkDivergence_def checkReleaseAsset_def checkRollbackReadiness_def demo_migration_def texts assets)
  then have review: "ReviewMajor demo_migration (Some [demo_major]) ''1.2.3'' ''p'' = Some ''v2.0.0''"
    by (simp add: ReviewMajor_def select texts fields)
  have "\<exists>events. Downloading ''v2.0.0'' events \<in>
      set (snd (runUpdate demo_up demo_migration ''r'' (Some [demo_major]) ''1.2.3'' ''p'' True [''--major'', ''--yes'']))"
    by (simp add: runUpdate_def review split: sum.split prod.split)
  then obtain events where run: "Downloading ''v2.0.0'' events \<in>
      set (snd (runUpdate demo_up demo_migration ''r'' (Some [demo_major]) ''1.2.3'' ''p'' True [''--major'', ''--yes'']))" by blast
  have v2: "parseSemanticVersion ''v2.0.0'' = Some (Version 2 0 0)" by code_simp
  show ?thesis using major_updates_are_reviewed [OF run demo_current v2] by auto
qed

end
