(* ===== verification/Interfered_Steps.thy ===== *)
theory Interfered_Steps
  imports Ssm_Prelude
begin

text \<open>
  Programs whose steps are system calls. Before every call other processes may change the state, and every call
  works, fails, is cut short after some bytes, or is the last one of the process. A triple \<open>valid R I P m Q\<close> says what
  \<open>m\<close> guarantees when the others keep to the relation \<open>R\<close>: \<open>I\<close> wherever it stops, and \<open>Q\<close> of its results.
\<close>

section \<open>Steps\<close>

datatype call_error = Missing | Failed

datatype call_fate = Works | Fails | Stops | Partial nat bool

record 's step_world =
  sw_State :: 's
  sw_Schedule :: "(('s \<Rightarrow> 's) \<times> call_fate) list"   \<comment> \<open>what others do before a call, and its fate\<close>

datatype ('s, 'a) run = Stopped 's | Finished "call_error + 'a" "'s step_world"

type_synonym ('s, 'a) prog = "'s step_world \<Rightarrow> ('s, 'a) run"

definition result :: "'a \<Rightarrow> ('s, 'a) prog" where "result x w = Finished (Inr x) w"
definition failure :: "call_error \<Rightarrow> ('s, 'a) prog" where "failure e w = Finished (Inl e) w"

definition handle :: "('s, 'a) prog \<Rightarrow> (call_error + 'a \<Rightarrow> ('s, 'b) prog) \<Rightarrow> ('s, 'b) prog" where
  "handle m k w = (case m w of Stopped s \<Rightarrow> Stopped s | Finished r w1 \<Rightarrow> k r w1)"

definition bind_step :: "('s, 'a) prog \<Rightarrow> ('a \<Rightarrow> ('s, 'b) prog) \<Rightarrow> ('s, 'b) prog" where
  "bind_step m k = handle m (\<lambda>r. case r of Inl e \<Rightarrow> failure e | Inr x \<Rightarrow> k x)"

definition check_that :: "bool \<Rightarrow> ('s, unit) prog" where
  "check_that b = (if b then result () else failure Failed)"

text \<open>A deferred action; its own error is dropped, as in \<^verbatim>\<open>defer func() { _ = ... }()\<close>.\<close>

definition deferring :: "('s, 'c) prog \<Rightarrow> ('s, 'a) prog \<Rightarrow> ('s, 'a) prog" where
  "deferring cleanup m = handle m (\<lambda>r. handle cleanup (\<lambda>_ w. Finished r w))"

definition next_entry :: "'s step_world \<Rightarrow> ('s \<Rightarrow> 's) \<times> call_fate" where
  "next_entry w = (case sw_Schedule w of [] \<Rightarrow> (id, Works) | x # _ \<Rightarrow> x)"

text \<open>A call with its effect when it works, and the one it has when it is cut short after \<open>n\<close> bytes.\<close>

definition write_call :: "(nat \<Rightarrow> 's \<Rightarrow> 's) \<Rightarrow> ('s \<Rightarrow> call_error + 'a \<times> 's) \<Rightarrow> ('s, 'a) prog" where
  "write_call short f w =
     (case next_entry w of (others, fate) \<Rightarrow>
        let s = others (sw_State w); rest = tl (sw_Schedule w) in
        case fate of
          Works \<Rightarrow> (case f s of
              Inl e \<Rightarrow> Finished (Inl e) \<lparr>sw_State = s, sw_Schedule = rest\<rparr>
            | Inr (x, s1) \<Rightarrow> Finished (Inr x) \<lparr>sw_State = s1, sw_Schedule = rest\<rparr>)
        | Fails \<Rightarrow> Finished (Inl Failed) \<lparr>sw_State = s, sw_Schedule = rest\<rparr>
        | Stops \<Rightarrow> Stopped s
        | Partial n stop \<Rightarrow>
            if stop then Stopped (short n s) else Finished (Inl Failed) \<lparr>sw_State = short n s, sw_Schedule = rest\<rparr>)"

definition call :: "('s \<Rightarrow> call_error + 'a \<times> 's) \<Rightarrow> ('s, 'a) prog" where
  "call = write_call (\<lambda>_. id)"

definition look :: "('s \<Rightarrow> call_error + 'a) \<Rightarrow> ('s, 'a) prog" where
  "look f = call (\<lambda>s. case f s of Inl e \<Rightarrow> Inl e | Inr x \<Rightarrow> Inr (x, s))"

definition act :: "('s \<Rightarrow> 's) \<Rightarrow> ('s, unit) prog" where
  "act f = call (\<lambda>s. Inr ((), f s))"

text \<open>A call that the model gives no effect: it can only fail.\<close>

definition plain_call :: "('s, unit) prog" where "plain_call = act id"

section \<open>Triples\<close>

definition keeps_to :: "('s \<Rightarrow> 's \<Rightarrow> bool) \<Rightarrow> (('s \<Rightarrow> 's) \<times> call_fate) list \<Rightarrow> bool" where
  "keeps_to R steps \<longleftrightarrow> (\<forall>(f, _) \<in> set steps. \<forall>s. R s (f s))"

definition valid :: "('s \<Rightarrow> 's \<Rightarrow> bool) \<Rightarrow> ('s \<Rightarrow> bool) \<Rightarrow> ('s \<Rightarrow> bool) \<Rightarrow> ('s, 'a) prog \<Rightarrow>
    (call_error + 'a \<Rightarrow> 's \<Rightarrow> bool) \<Rightarrow> bool" where
  "valid R I P m Q \<longleftrightarrow>
     (\<forall>w. P (sw_State w) \<longrightarrow> keeps_to R (sw_Schedule w) \<longrightarrow>
        (case m w of Stopped s' \<Rightarrow> I s' | Finished r w' \<Rightarrow> Q r (sw_State w') \<and> keeps_to R (sw_Schedule w')))"

definition stable :: "('s \<Rightarrow> 's \<Rightarrow> bool) \<Rightarrow> ('s \<Rightarrow> bool) \<Rightarrow> bool" where
  "stable R P \<longleftrightarrow> (\<forall>s s'. P s \<longrightarrow> R s s' \<longrightarrow> P s')"

lemma validI:
  assumes "\<And>w. P (sw_State w) \<Longrightarrow> keeps_to R (sw_Schedule w) \<Longrightarrow>
    (case m w of Stopped s' \<Rightarrow> I s' | Finished r w' \<Rightarrow> Q r (sw_State w') \<and> keeps_to R (sw_Schedule w'))"
  shows "valid R I P m Q"
  using assms by (simp add: valid_def)

lemma valid_stopped: "valid R I P m Q \<Longrightarrow> P (sw_State w) \<Longrightarrow> keeps_to R (sw_Schedule w) \<Longrightarrow> m w = Stopped s \<Longrightarrow> I s"
  by (fastforce simp: valid_def)

lemma valid_finished:
  "valid R I P m Q \<Longrightarrow> P (sw_State w) \<Longrightarrow> keeps_to R (sw_Schedule w) \<Longrightarrow> m w = Finished r w' \<Longrightarrow>
   Q r (sw_State w') \<and> keeps_to R (sw_Schedule w')"
  by (fastforce simp: valid_def)

lemma valid_result: "(\<And>s. P s \<Longrightarrow> Q (Inr x) s) \<Longrightarrow> valid R I P (result x) Q"
  by (rule validI) (simp add: result_def)

lemma valid_failure: "(\<And>s. P s \<Longrightarrow> Q (Inl e) s) \<Longrightarrow> valid R I P (failure e) Q"
  by (rule validI) (simp add: failure_def)

lemma valid_handle:
  assumes m: "valid R I P m M" and k: "\<And>r. valid R I (M r) (k r) Q"
  shows "valid R I P (handle m k) Q"
proof (rule validI)
  fix w :: "'a step_world" assume w: "P (sw_State w)" "keeps_to R (sw_Schedule w)"
  show "case handle m k w of Stopped s' \<Rightarrow> I s' | Finished r w' \<Rightarrow> Q r (sw_State w') \<and> keeps_to R (sw_Schedule w')"
  proof (cases "m w")
    case (Stopped s)
    then show ?thesis using valid_stopped [OF m w] by (simp add: handle_def)
  next
    case (Finished r w1)
    with valid_finished [OF m w] k [of r] show ?thesis by (simp add: handle_def valid_def)
  qed
qed

lemma valid_weaken:
  assumes "valid R I P m Q" "\<And>s. P' s \<Longrightarrow> P s" "\<And>r s. Q r s \<Longrightarrow> Q' r s"
  shows "valid R I P' m Q'"
  using assms by (fastforce simp: valid_def split: run.splits)

lemma valid_post: "valid R I P m Q \<Longrightarrow> (\<And>r s. Q r s \<Longrightarrow> Q' r s) \<Longrightarrow> valid R I P m Q'"
  by (erule valid_weaken)

lemma valid_pre: "valid R I P m Q \<Longrightarrow> (\<And>s. P' s \<Longrightarrow> P s) \<Longrightarrow> valid R I P' m Q"
  by (erule valid_weaken)

lemma valid_stop: "valid R I P m Q \<Longrightarrow> (\<And>s. I s \<Longrightarrow> I' s) \<Longrightarrow> valid R I' P m Q"
  unfolding valid_def by (fastforce split: run.splits)

lemma valid_never: "valid R I (\<lambda>_. False) m Q"
  by (simp add: valid_def)

lemma valid_bind:
  assumes "valid R I P m (\<lambda>r s. case r of Inl e \<Rightarrow> Q (Inl e) s | Inr x \<Rightarrow> M x s)" and "\<And>x. valid R I (M x) (k x) Q"
  shows "valid R I P (bind_step m k) Q"
  unfolding bind_step_def
  by (rule valid_handle [OF assms(1)]) (auto split: sum.split intro: valid_failure assms(2))

lemma valid_check: "(\<And>s. P s \<Longrightarrow> b \<Longrightarrow> Q (Inr ()) s) \<Longrightarrow> (\<And>s. P s \<Longrightarrow> Q (Inl Failed) s) \<Longrightarrow> valid R I P (check_that b) Q"
  by (auto simp: check_that_def intro: valid_result valid_failure)

lemma valid_deferring:
  assumes "valid R I P m M" and "\<And>r. valid R I (M r) cleanup (\<lambda>_ s. Q r s)"
  shows "valid R I P (deferring cleanup m) Q"
  unfolding deferring_def
proof (rule valid_handle [OF assms(1)])
  fix r
  have "valid R I (Q r) (\<lambda>w. Finished r w) Q" by (rule validI) simp
  then show "valid R I (M r) (handle cleanup (\<lambda>_ w. Finished r w)) Q"
    by (rule valid_handle [OF assms(2)])
qed

lemma valid_deferring_given:
  "valid R I P cleanup (\<lambda>_. Q (Inl e)) \<Longrightarrow> valid R I P (deferring cleanup (failure e)) Q"
  "valid R I P cleanup (\<lambda>_. Q (Inr x)) \<Longrightarrow> valid R I P (deferring cleanup (result x)) Q"
  by (rule valid_deferring [where M = "\<lambda>r s. r = Inl e \<and> P s"], rule valid_failure, simp, fastforce simp: valid_def,
      rule valid_deferring [where M = "\<lambda>r s. r = Inr x \<and> P s"], rule valid_result, simp, fastforce simp: valid_def)

lemma keeps_to_next:
  fixes w :: "'a step_world"
  shows "keeps_to R (sw_Schedule w) \<Longrightarrow> (\<And>s. R s s) \<Longrightarrow> R s (fst (next_entry w) s)"
  by (cases "sw_Schedule w") (auto simp: next_entry_def keeps_to_def)

lemma keeps_to_tl: "keeps_to R steps \<Longrightarrow> keeps_to R (tl steps)"
  by (cases steps) (auto simp: keeps_to_def)

lemma valid_write_call:
  assumes refl: "\<And>s. R s s" and stable: "stable R P"
    and "\<And>s. P s \<Longrightarrow> I s" "\<And>s n. P s \<Longrightarrow> I (short n s)" "\<And>s. P s \<Longrightarrow> Q (Inl Failed) s" "\<And>s n. P s \<Longrightarrow> Q (Inl Failed) (short n s)"
    and "\<And>s e. P s \<Longrightarrow> f s = Inl e \<Longrightarrow> Q (Inl e) s" "\<And>s x s1. P s \<Longrightarrow> f s = Inr (x, s1) \<Longrightarrow> Q (Inr x) s1"
  shows "valid R I P (write_call short f) Q"
proof (rule validI)
  fix w :: "'a step_world" assume w: "P (sw_State w)" "keeps_to R (sw_Schedule w)"
  obtain others fate where e: "next_entry w = (others, fate)" by fastforce
  from keeps_to_next [OF w(2) refl, of "sw_State w"] e have "R (sw_State w) (others (sw_State w))" by simp
  with w(1) stable have "P (others (sw_State w))" by (auto simp: stable_def)
  with assms(3-) keeps_to_tl [OF w(2)] show "case write_call short f w of
      Stopped s' \<Rightarrow> I s' | Finished r w' \<Rightarrow> Q r (sw_State w') \<and> keeps_to R (sw_Schedule w')"
    by (auto simp: write_call_def e Let_def split: call_fate.split sum.split)
qed

lemma valid_call:
  assumes "\<And>s. R s s" "stable R P" "\<And>s. P s \<Longrightarrow> I s" "\<And>s. P s \<Longrightarrow> Q (Inl Failed) s"
    and "\<And>s e. P s \<Longrightarrow> f s = Inl e \<Longrightarrow> Q (Inl e) s" "\<And>s x s1. P s \<Longrightarrow> f s = Inr (x, s1) \<Longrightarrow> Q (Inr x) s1"
  shows "valid R I P (call f) Q"
  unfolding call_def by (rule valid_write_call) (auto intro: assms)

lemma valid_look:
  assumes "\<And>s. R s s" "stable R P" "\<And>s. P s \<Longrightarrow> I s" "\<And>s. P s \<Longrightarrow> Q (Inl Failed) s"
    and "\<And>s e. P s \<Longrightarrow> f s = Inl e \<Longrightarrow> Q (Inl e) s" "\<And>s x. P s \<Longrightarrow> f s = Inr x \<Longrightarrow> Q (Inr x) s"
  shows "valid R I P (look f) Q"
  unfolding look_def by (rule valid_call) (auto intro: assms split: sum.splits)

lemma valid_act:
  assumes "\<And>s. R s s" "stable R P" "\<And>s. P s \<Longrightarrow> I s" "\<And>s. P s \<Longrightarrow> Q (Inl Failed) s" "\<And>s. P s \<Longrightarrow> Q (Inr ()) (f s)"
  shows "valid R I P (act f) Q"
  unfolding act_def by (rule valid_call) (auto intro: assms)

lemma valid_plain:
  assumes "\<And>s. R s s" "stable R P" "\<And>s. P s \<Longrightarrow> I s" "\<And>s. P s \<Longrightarrow> Q (Inl Failed) s" "\<And>s. P s \<Longrightarrow> Q (Inr ()) s"
  shows "valid R I P plain_call Q"
  unfolding plain_call_def by (rule valid_act) (auto intro: assms)

text \<open>Rules that follow the structure of a program.\<close>

lemma valid_given:
  assumes "\<And>s. P' s \<Longrightarrow> valid R I P m Q" and "\<And>s. P' s \<Longrightarrow> P s"
  shows "valid R I P' m Q"
  using assms unfolding valid_def by blast

lemma valid_exists: "(\<And>x. valid R I (P x) m Q) \<Longrightarrow> valid R I (\<lambda>s. \<exists>x. P x s) m Q"
  unfolding valid_def by blast

lemma valid_if: "(b \<Longrightarrow> valid R I P m Q) \<Longrightarrow> (\<not> b \<Longrightarrow> valid R I P n Q) \<Longrightarrow> valid R I P (if b then m else n) Q"
  by simp

lemma bind_if:
  "(b \<Longrightarrow> valid R I P (bind_step m k) Q) \<Longrightarrow> (\<not> b \<Longrightarrow> valid R I P (bind_step n k) Q) \<Longrightarrow>
   valid R I P (bind_step (if b then m else n) k) Q"
  by simp

lemma bind_result: "valid R I P (k x) Q \<Longrightarrow> valid R I P (bind_step (result x) k) Q"
  by (simp add: bind_step_def handle_def result_def valid_def)

section \<open>Undisturbed runs\<close>

lemma step_simps:
  "result x w = Finished (Inr x) w" "failure e w = Finished (Inl e) w"
  by (rule result_def) (rule failure_def)

lemma handle_finished: "m w = Finished r w1 \<Longrightarrow> handle m k w = k r w1"
  by (simp add: handle_def)

lemma bind_step_finished: "m w = Finished (Inr x) w1 \<Longrightarrow> bind_step m k w = k x w1"
  by (simp add: bind_step_def handle_def)

definition calm :: "'s \<Rightarrow> 's step_world" where "calm s = \<lparr>sw_State = s, sw_Schedule = []\<rparr>"

lemma sw_State_calm [simp]: "sw_State (calm s) = s" by (simp add: calm_def)

lemma call_calm: "call f (calm s) = (case f s of Inl e \<Rightarrow> Finished (Inl e) (calm s) | Inr (x, s1) \<Rightarrow> Finished (Inr x) (calm s1))"
  by (simp add: call_def write_call_def next_entry_def calm_def split: sum.split)

lemma write_call_calm:
  "write_call short f (calm s) = (case f s of Inl e \<Rightarrow> Finished (Inl e) (calm s) | Inr (x, s1) \<Rightarrow> Finished (Inr x) (calm s1))"
  by (simp add: write_call_def next_entry_def calm_def split: sum.split)

lemma look_calm: "look f (calm s) = Finished (f s) (calm s)"
  by (simp add: look_def call_calm split: sum.split)

lemma act_calm: "act f (calm s) = Finished (Inr ()) (calm (f s))"
  by (simp add: act_def call_calm)

lemma plain_calm: "plain_call (calm s) = Finished (Inr ()) (calm s)"
  by (simp add: plain_call_def act_calm)

lemma check_calm: "check_that b (calm s) = Finished (if b then Inr () else Inl Failed) (calm s)"
  by (simp add: check_that_def result_def failure_def)

lemmas calm_steps = step_simps call_calm write_call_calm look_calm act_calm plain_calm check_calm

end
