(* ===== verification/Unix_Replacement.thy ===== *)
theory Unix_Replacement
  imports Interfered_Steps Self_Update
begin

text \<open>
  Replacement of the executable on Unix (\<^verbatim>\<open>internal/update/replace_other.go\<close>, \<^verbatim>\<open>replace_commit_unix.go\<close> for Linux and
  \<^verbatim>\<open>replace_commit_copy_unix.go\<close> for Darwin and BSD). The state holds the names that the updater uses, in the directory
  of the executable and in the private commit directory, and the objects they name; other processes may act between
  any two calls. Descriptors are the objects they hold open.
\<close>

section \<open>Names and objects\<close>

datatype unix_name =
    TargetName | StagedName | InstallName            \<comment> \<open>in the directory of the executable\<close>
  | CommitEntry | RollbackEntry | DiscardedEntry     \<comment> \<open>in the private commit directory\<close>

definition unix_names :: "unix_name list" where
  "unix_names = [TargetName, StagedName, InstallName, CommitEntry, RollbackEntry, DiscardedEntry]"

datatype file_kind = RegularFile | DirectoryKind | OtherKind

record unix_object =
  uo_Kind :: file_kind
  uo_Bytes :: bytes
  uo_Mode :: nat              \<comment> \<open>permission bits\<close>
  uo_OtherLinks :: nat        \<comment> \<open>links by names that the updater does not use\<close>

record unix_fs =
  ux_Name :: "unix_name \<Rightarrow> nat option"
  ux_Object :: "nat \<Rightarrow> unix_object"
  ux_DirMode :: "nat option"  \<comment> \<open>the commit directory, when it exists\<close>
  ux_DirPath :: bool          \<comment> \<open>its pathname still names it\<close>
  ux_Seen :: "nat option list" \<comment> \<open>what the executable's name was seen to name, latest first\<close>

definition link_count :: "unix_fs \<Rightarrow> nat \<Rightarrow> nat" where
  "link_count s i = uo_OtherLinks (ux_Object s i) + length (filter (\<lambda>n. ux_Name s n = Some i) unix_names)"

definition bind_name :: "unix_name \<Rightarrow> nat option \<Rightarrow> unix_fs \<Rightarrow> unix_fs" where
  "bind_name n i s = s\<lparr>ux_Name := (ux_Name s)(n := i)\<rparr>"

definition put_object :: "nat \<Rightarrow> unix_object \<Rightarrow> unix_fs \<Rightarrow> unix_fs" where
  "put_object i obj s = s\<lparr>ux_Object := (ux_Object s)(i := obj)\<rparr>"

text \<open>
  What the computation uses besides: SHA-256, the numbers of the next two new files, the permission bits that
  \<^verbatim>\<open>MkdirTemp\<close> leaves under the process's umask, whether the descriptor namespace resolves a descriptor to its object,
  and whether target and copy have sibling names.
\<close>

record unix_env =
  un_sha :: "bytes \<Rightarrow> bytes"
  un_Install :: nat
  un_Copy :: nat
  un_DirMode :: nat
  un_Descriptors :: bool
  un_Siblings :: bool

section \<open>System calls\<close>

text \<open>\<^verbatim>\<open>open\<close> and \<^verbatim>\<open>lstat\<close> of a name\<close>

definition lookup_name :: "unix_name \<Rightarrow> (unix_fs, nat) prog" where
  "lookup_name n = look (\<lambda>s. case ux_Name s n of None \<Rightarrow> Inl Missing | Some i \<Rightarrow> Inr i)"

definition stat_object :: "nat \<Rightarrow> (unix_fs, unix_object \<times> nat) prog" where
  "stat_object i = look (\<lambda>s. Inr (ux_Object s i, link_count s i))"

definition lstat_name :: "unix_name \<Rightarrow> (unix_fs, nat \<times> unix_object \<times> nat) prog" where
  "lstat_name n = look (\<lambda>s. case ux_Name s n of
      None \<Rightarrow> Inl Missing
    | Some i \<Rightarrow> Inr (i, ux_Object s i, link_count s i))"

text \<open>\<^verbatim>\<open>fstatat\<close> of the executable's name; the observation is recorded.\<close>

definition stat_target :: "(unix_fs, nat \<times> unix_object) prog" where
  "stat_target = call (\<lambda>s. case ux_Name s TargetName of
      None \<Rightarrow> Inl Missing
    | Some i \<Rightarrow> Inr ((i, ux_Object s i), s\<lparr>ux_Seen := Some i # ux_Seen s\<rparr>))"

text \<open>A new file with mode 0600 (384) under a name that must be free.\<close>

definition create_file :: "unix_name \<Rightarrow> nat \<Rightarrow> (unix_fs, unit) prog" where
  "create_file n i = call (\<lambda>s.
     if ux_Name s n \<noteq> None then Inl Failed
     else Inr ((), bind_name n (Some i)
       (put_object i \<lparr>uo_Kind = RegularFile, uo_Bytes = [], uo_Mode = 384, uo_OtherLinks = 0\<rparr> s)))"

definition read_chunk :: "nat \<Rightarrow> nat \<Rightarrow> nat \<Rightarrow> (unix_fs, bytes) prog" where
  "read_chunk i offset len = look (\<lambda>s. Inr (take len (drop offset (uo_Bytes (ux_Object s i)))))"

definition write_at :: "nat \<Rightarrow> bytes \<Rightarrow> bytes \<Rightarrow> bytes" where
  "write_at offset data old =
     take offset old @ replicate (offset - length old) 0 @ data @ drop (offset + length data) old"

definition put_bytes :: "nat \<Rightarrow> nat \<Rightarrow> bytes \<Rightarrow> unix_fs \<Rightarrow> unix_fs" where
  "put_bytes i offset data s =
     put_object i ((ux_Object s i)\<lparr>uo_Bytes := write_at offset data (uo_Bytes (ux_Object s i))\<rparr>) s"

definition write_chunk :: "nat \<Rightarrow> nat \<Rightarrow> bytes \<Rightarrow> (unix_fs, unit) prog" where
  "write_chunk i offset data =
     write_call (\<lambda>n. put_bytes i offset (take n data)) (\<lambda>s. Inr ((), put_bytes i offset data s))"

definition chmod_object :: "nat \<Rightarrow> nat \<Rightarrow> (unix_fs, unit) prog" where
  "chmod_object i mode = act (\<lambda>s. put_object i ((ux_Object s i)\<lparr>uo_Mode := mode\<rparr>) s)"

text \<open>\<^verbatim>\<open>linkat\<close>: the new name must be free; an object without links cannot be linked again.\<close>

definition link_object :: "nat \<Rightarrow> unix_name \<Rightarrow> (unix_fs, unit) prog" where
  "link_object i n = call (\<lambda>s.
     if ux_Name s n \<noteq> None \<or> link_count s i = 0 \<or> uo_Kind (ux_Object s i) = DirectoryKind then Inl Failed
     else Inr ((), bind_name n (Some i) s))"

definition link_name :: "unix_name \<Rightarrow> unix_name \<Rightarrow> (unix_fs, unit) prog" where
  "link_name m n = call (\<lambda>s. case ux_Name s m of
      None \<Rightarrow> Inl Missing
    | Some i \<Rightarrow> if ux_Name s n \<noteq> None \<or> uo_Kind (ux_Object s i) = DirectoryKind then Inl Failed
        else Inr ((), bind_name n (Some i) s))"

text \<open>\<^verbatim>\<open>unlinkat\<close>, with \<^verbatim>\<open>AT_REMOVEDIR\<close> for a directory\<close>

definition unlink_name :: "bool \<Rightarrow> unix_name \<Rightarrow> (unix_fs, unit) prog" where
  "unlink_name directory n = call (\<lambda>s. case ux_Name s n of
      None \<Rightarrow> Inl Missing
    | Some i \<Rightarrow> if directory \<noteq> (uo_Kind (ux_Object s i) = DirectoryKind) then Inl Failed
        else Inr ((), bind_name n None s))"

text \<open>
  \<^verbatim>\<open>renameat\<close>: two names of one object are left alone, a directory is not replaced by a file and a file not
  by a directory.
\<close>

definition rename_name :: "unix_name \<Rightarrow> unix_name \<Rightarrow> (unix_fs, unit) prog" where
  "rename_name m n = call (\<lambda>s. case ux_Name s m of
      None \<Rightarrow> Inl Missing
    | Some i \<Rightarrow>
        if ux_Name s n = Some i then Inr ((), s)
        else if ux_Name s n \<noteq> None \<and>
            (uo_Kind (ux_Object s i) = DirectoryKind) \<noteq> (uo_Kind (ux_Object s (the (ux_Name s n))) = DirectoryKind)
          then Inl Failed
        else Inr ((), bind_name n (Some i) (bind_name m None s)))"

text \<open>\<^verbatim>\<open>os.Remove\<close> removes a file or an empty directory.\<close>

definition remove_path :: "unix_name \<Rightarrow> (unix_fs, unit) prog" where
  "remove_path n = act (bind_name n None)"

definition make_directory :: "unix_env \<Rightarrow> (unix_fs, unit) prog" where
  "make_directory e = act (\<lambda>s. bind_name CommitEntry None (bind_name RollbackEntry None (bind_name DiscardedEntry None
     (s\<lparr>ux_DirMode := Some (un_DirMode e), ux_DirPath := True\<rparr>))))"

definition remove_directory :: "(unix_fs, unit) prog" where
  "remove_directory = call (\<lambda>s.
     if ux_DirPath s \<and> ux_DirMode s \<noteq> None
       \<and> list_all (\<lambda>n. ux_Name s n = None) [CommitEntry, RollbackEntry, DiscardedEntry]
     then Inr ((), s\<lparr>ux_DirMode := None\<rparr>) else Inl Failed)"

text \<open>
  \<^verbatim>\<open>io.Copy\<close> from an \<^verbatim>\<open>io.LimitReader\<close> in chunks of 32 KiB: every chunk is written (when the copy has a destination)
  before the next one is read; the result are the bytes read, which the hash sees as well.
\<close>

definition copy_chunk :: nat where "copy_chunk = 32768"

function copy_limited :: "nat \<Rightarrow> nat option \<Rightarrow> nat \<Rightarrow> bytes \<Rightarrow> (unix_fs, bytes) prog" where
  "copy_limited source dest limit acc =
     (if limit = 0 then result acc
      else bind_step (read_chunk source (length acc) (min copy_chunk limit)) (\<lambda>data.
        let data = take limit data in
        if data = [] then result acc
        else bind_step (case dest of None \<Rightarrow> result () | Some i \<Rightarrow> write_chunk i (length acc) data) (\<lambda>_.
          copy_limited source dest (limit - length data) (acc @ data))))"
  by pat_completeness auto
termination
  by (relation "measure (\<lambda>(source, dest, limit, acc). limit)") (auto simp: min_def)

declare copy_limited.simps [simp del]

section \<open>Authentication\<close>

definition authenticateUnixReplacement :: "unix_env \<Rightarrow> nat \<Rightarrow> bytes \<Rightarrow> nat \<Rightarrow> nat \<Rightarrow> (unix_fs, unit) prog" where
  "authenticateUnixReplacement e i expectedDigest expectedMode expectedLinks =
     bind_step plain_call (\<lambda>_.   \<comment> \<open>rewind\<close>
     bind_step (copy_limited i None (maxBinary + 1) []) (\<lambda>data.
     bind_step (check_that (length data \<le> maxBinary)) (\<lambda>_.
     bind_step (check_that (un_sha e data = expectedDigest)) (\<lambda>_.
     bind_step (stat_object i) (\<lambda>(info, links).
     bind_step (check_that (uo_Kind info = RegularFile)) (\<lambda>_.
     bind_step (check_that (uo_Mode info = expectedMode)) (\<lambda>_.
     check_that (links = expectedLinks))))))))"

definition authenticateCanonicalUnixReplacement :: "unix_env \<Rightarrow> nat \<Rightarrow> bytes \<Rightarrow> nat \<Rightarrow> (unix_fs, unit) prog" where
  "authenticateCanonicalUnixReplacement e source expectedDigest expectedMode =
     bind_step (authenticateUnixReplacement e source expectedDigest expectedMode 1) (\<lambda>_.
     bind_step stat_target (\<lambda>(canonical, info).
     bind_step plain_call (\<lambda>_.   \<comment> \<open>\<^verbatim>\<open>fstat\<close> of the source\<close>
     check_that (uo_Kind info = RegularFile \<and> canonical = source))))"

section \<open>Committing and restoring\<close>

text \<open>Only a failure of \<^verbatim>\<open>fstatat\<close> with \<^verbatim>\<open>ENOENT\<close> counts as removed.\<close>

definition removeUnixCommitEntry :: "unix_name \<Rightarrow> (unix_fs, unit) prog" where
  "removeUnixCommitEntry n =
     handle (lstat_name n) (\<lambda>r. case r of
        Inl e \<Rightarrow> if e = Missing then result () else failure e
      | Inr (_, info, _) \<Rightarrow> unlink_name (uo_Kind info = DirectoryKind) n)"

text \<open>Whether the original was restored; the errors on the way only reach the message.\<close>

definition restoreOriginalUnixTarget :: "(unix_fs, bool) prog" where
  "restoreOriginalUnixTarget =
     handle (rename_name TargetName DiscardedEntry) (\<lambda>displaced.
     handle (if isl displaced then result () else removeUnixCommitEntry DiscardedEntry) (\<lambda>_.
     handle (rename_name RollbackEntry TargetName) (\<lambda>r. result (\<not> isl r))))"

text \<open>
  The rollback entry is removed on return unless the restoration was tried; the commit succeeds when the
  replacement was authenticated twice under the executable's name.
\<close>

definition commit_over_original :: "unix_env \<Rightarrow> nat \<Rightarrow> bytes \<Rightarrow> nat \<Rightarrow> nat \<Rightarrow> nat \<Rightarrow> (unix_fs, unit) prog" where
  "commit_over_original e source expectedDigest expectedMode original original_links =
     handle
       (bind_step (lstat_name RollbackEntry) (\<lambda>(retained, _, links).
        bind_step (check_that (retained = original \<and> links = original_links + 1)) (\<lambda>_.
        rename_name CommitEntry TargetName)))
     (\<lambda>renamed. case renamed of
        Inl err \<Rightarrow> deferring (unlink_name False RollbackEntry) (failure err)
      | Inr _ \<Rightarrow>
          handle
            (bind_step (authenticateCanonicalUnixReplacement e source expectedDigest expectedMode) (\<lambda>_.
             authenticateCanonicalUnixReplacement e source expectedDigest expectedMode))
          (\<lambda>authenticated. case authenticated of
             Inr _ \<Rightarrow> deferring (unlink_name False RollbackEntry) (result ())
           | Inl err \<Rightarrow> handle restoreOriginalUnixTarget (\<lambda>_. failure err)))"

definition commitVerifiedUnixEntry :: "unix_env \<Rightarrow> nat \<Rightarrow> bytes \<Rightarrow> nat \<Rightarrow> (unix_fs, unit) prog" where
  "commitVerifiedUnixEntry e source expectedDigest expectedMode =
     deferring (removeUnixCommitEntry DiscardedEntry)
       (bind_step (lstat_name TargetName) (\<lambda>(original, info, links).
        bind_step (check_that (uo_Kind info = RegularFile)) (\<lambda>_.
        bind_step (link_name TargetName RollbackEntry) (\<lambda>_.
        commit_over_original e source expectedDigest expectedMode original links))))"

section \<open>The commit primitives\<close>

text \<open>
  The private directory around a commit: creation, inspection, and removal on return. \<open>body\<close> runs with the directory;
  what it leaves in the entry is removed when it fails after having made it (\<open>entry_made\<close>).
\<close>

definition discard_entry :: "(unix_fs, unit) prog \<Rightarrow> (unix_fs, unit) prog" where
  "discard_entry m =
     handle m (\<lambda>r. handle (if isl r then unlink_name False CommitEntry else result ()) (\<lambda>_ w. Finished r w))"

definition in_commit_directory :: "unix_env \<Rightarrow> (unix_fs, unit) prog \<Rightarrow> (unix_fs, unit) prog" where
  "in_commit_directory e body =
     bind_step (make_directory e) (\<lambda>_.
     handle plain_call (\<lambda>opened. case opened of
        Inl err \<Rightarrow> deferring remove_directory (failure err)
      | Inr _ \<Rightarrow>
          deferring (handle plain_call (\<lambda>_. remove_directory))
            (bind_step (look (\<lambda>s. Inr (ux_DirMode s))) (\<lambda>mode.
             bind_step (look (\<lambda>s. if ux_DirPath s then Inr () else Inl Failed)) (\<lambda>_.
             bind_step (check_that (mode = Some 448)) (\<lambda>_.
             body))))))"

definition require_install_path :: "nat \<Rightarrow> (unix_fs, unit) prog" where
  "require_install_path install =
     bind_step (lstat_name InstallName) (\<lambda>(i, info, _).
     check_that (uo_Kind info = RegularFile \<and> i = install))"

text \<open>Linux: the entry is a second link to the object that the descriptor holds.\<close>

definition commitAuthenticatedUnixReplacement :: "unix_env \<Rightarrow> nat \<Rightarrow> bytes \<Rightarrow> nat \<Rightarrow> (unix_fs, unit) prog" where
  "commitAuthenticatedUnixReplacement e install expectedDigest expectedMode =
     bind_step (check_that (un_Siblings e)) (\<lambda>_.
     bind_step plain_call (\<lambda>_.   \<comment> \<open>the directory is opened\<close>
     deferring plain_call
       (bind_step (stat_object install) (\<lambda>_.
        bind_step plain_call (\<lambda>_.
        bind_step (check_that (un_Descriptors e)) (\<lambda>_.
        in_commit_directory e
          (bind_step (link_object install CommitEntry) (\<lambda>_.
           discard_entry
             (bind_step (stat_object install) (\<lambda>(_, links).
              bind_step (check_that (links = 2)) (\<lambda>_.
              bind_step (require_install_path install) (\<lambda>_.
              bind_step (unlink_name False InstallName) (\<lambda>_.
              bind_step (authenticateUnixReplacement e install expectedDigest expectedMode 1) (\<lambda>_.
              bind_step (lookup_name CommitEntry) (\<lambda>entry.
              deferring plain_call
                (bind_step (stat_object entry) (\<lambda>(info, _).
                 bind_step plain_call (\<lambda>_.
                 bind_step (check_that (uo_Kind info = RegularFile \<and> entry = install)) (\<lambda>_.
                 commitVerifiedUnixEntry e install expectedDigest expectedMode)))))))))))))))))))"

text \<open>Darwin and BSD: the entry is a fresh copy from the descriptor.\<close>

definition commitAuthenticatedUnixReplacementByCopy :: "unix_env \<Rightarrow> nat \<Rightarrow> bytes \<Rightarrow> nat \<Rightarrow> (unix_fs, unit) prog" where
  "commitAuthenticatedUnixReplacementByCopy e install expectedDigest expectedMode =
     bind_step (check_that (un_Siblings e)) (\<lambda>_.
     bind_step (authenticateUnixReplacement e install expectedDigest expectedMode 1) (\<lambda>_.
     bind_step plain_call (\<lambda>_.
     deferring plain_call
       (in_commit_directory e
         (bind_step (create_file CommitEntry (un_Copy e)) (\<lambda>_.
          discard_entry
            (deferring plain_call
              (bind_step plain_call (\<lambda>_.   \<comment> \<open>rewind\<close>
               bind_step (copy_limited install (Some (un_Copy e)) (maxBinary + 1) []) (\<lambda>data.
               bind_step (check_that (length data \<le> maxBinary)) (\<lambda>_.
               bind_step (check_that (un_sha e data = expectedDigest)) (\<lambda>_.
               bind_step (chmod_object (un_Copy e) expectedMode) (\<lambda>_.
               bind_step plain_call (\<lambda>_.
               bind_step (authenticateUnixReplacement e (un_Copy e) expectedDigest expectedMode 1) (\<lambda>_.
               bind_step (stat_object install) (\<lambda>_.
               bind_step (require_install_path install) (\<lambda>_.
               bind_step (unlink_name False InstallName) (\<lambda>_.
               bind_step (authenticateUnixReplacement e install expectedDigest expectedMode 0) (\<lambda>_.
               bind_step (authenticateUnixReplacement e (un_Copy e) expectedDigest expectedMode 1) (\<lambda>_.
               bind_step plain_call (\<lambda>_.
               bind_step (lstat_name CommitEntry) (\<lambda>(entry, info, _).
               bind_step (check_that (uo_Kind info = RegularFile \<and> entry = un_Copy e)) (\<lambda>_.
               commitVerifiedUnixEntry e (un_Copy e) expectedDigest expectedMode)))))))))))))))))))))))"

section \<open>The replacement\<close>

text \<open>\<open>commit\<close> is the primitive that the build tags select.\<close>

definition install_copy :: "unix_env \<Rightarrow> (nat \<Rightarrow> bytes \<Rightarrow> nat \<Rightarrow> (unix_fs, unit) prog) \<Rightarrow> nat \<Rightarrow> bytes \<Rightarrow> nat \<Rightarrow>
    (unix_fs, unit) prog" where
  "install_copy e commit source expectedDigest mode =
     (let install = un_Install e in
      bind_step (copy_limited source (Some install) (maxBinary + 1) []) (\<lambda>data.
      bind_step (check_that (length data \<le> maxBinary)) (\<lambda>_.
      bind_step (check_that (un_sha e data = expectedDigest)) (\<lambda>_.
      bind_step plain_call (\<lambda>_.   \<comment> \<open>sync\<close>
      bind_step plain_call (\<lambda>_.   \<comment> \<open>rewind\<close>
      bind_step (copy_limited install None (maxBinary + 1) []) (\<lambda>copy.
      bind_step (check_that (un_sha e copy = expectedDigest)) (\<lambda>_.
      bind_step (stat_object install) (\<lambda>(_, links).
      bind_step (check_that (links = 1)) (\<lambda>_.
      bind_step (require_install_path install) (\<lambda>_.
      bind_step (chmod_object install mode) (\<lambda>_.
      bind_step plain_call (\<lambda>_.   \<comment> \<open>sync\<close>
      bind_step (authenticateUnixReplacement e install expectedDigest mode 1) (\<lambda>_.
      bind_step (stat_object install) (\<lambda>_.
      bind_step (require_install_path install) (\<lambda>_.
      commit install expectedDigest mode))))))))))))))))"

definition replaceUnixExecutable :: "unix_env \<Rightarrow> (nat \<Rightarrow> bytes \<Rightarrow> nat \<Rightarrow> (unix_fs, unit) prog) \<Rightarrow> bytes \<Rightarrow> nat \<Rightarrow>
    (unix_fs, unit) prog" where
  "replaceUnixExecutable e commit expectedDigest mode =
     bind_step (lookup_name StagedName) (\<lambda>source.
     deferring plain_call
       (bind_step (stat_object source) (\<lambda>(info, _).
        bind_step (check_that (uo_Kind info = RegularFile)) (\<lambda>_.
        bind_step (create_file InstallName (un_Install e)) (\<lambda>_.
        handle (install_copy e commit source expectedDigest mode) (\<lambda>r.
        handle plain_call (\<lambda>_.   \<comment> \<open>the copy is closed\<close>
        handle (if isl r then remove_path InstallName else result ()) (\<lambda>_ w. Finished r w))))))))"

end
