(* ===== verification/Unix_Update_Props.thy ===== *)
theory Unix_Update_Props
  imports Unix_Replacement
begin

text \<open>
  Properties of the replacement on Unix: other processes may act between any two calls, any call may fail, and the
  process may stop anywhere.
\<close>

section \<open>One replacement and what the others may do\<close>

record unix_job =
  uj_Env :: unix_env
  uj_Digest :: bytes
  uj_Mode :: nat
  uj_Original :: nat           \<comment> \<open>the object that the executable's name names at the start\<close>
  uj_Object :: unix_object
  uj_Quiet :: bool             \<comment> \<open>nobody else touches the executable itself\<close>

definition made_by :: "unix_job \<Rightarrow> nat set" where
  "made_by j = {un_Install (uj_Env j), un_Copy (uj_Env j)}"

definition proper :: "unix_job \<Rightarrow> bool" where
  "proper j \<longleftrightarrow> uj_Original j \<notin> made_by j \<and> un_Install (uj_Env j) \<noteq> un_Copy (uj_Env j)"

abbreviation core :: "unix_fs \<Rightarrow> nat \<Rightarrow> file_kind \<times> bytes \<times> nat" where
  "core s i \<equiv> (uo_Kind (ux_Object s i), uo_Bytes (ux_Object s i), uo_Mode (ux_Object s i))"

text \<open>
  Others may rename, link, replace and write everything in the directory of the executable, except that they do not
  enter the private directory, do not write the objects that the updater makes and, when \<open>uj_Quiet\<close>, leave the
  executable alone.
\<close>

definition others :: "unix_job \<Rightarrow> unix_fs \<Rightarrow> unix_fs \<Rightarrow> bool" where
  "others j s s' \<longleftrightarrow>
     (\<forall>n \<in> {CommitEntry, RollbackEntry, DiscardedEntry}. ux_Name s' n = ux_Name s n)
     \<and> (\<forall>i \<in> made_by j. core s' i = core s i) \<and> ux_Seen s' = ux_Seen s
     \<and> (uj_Quiet j \<longrightarrow> ux_Name s' TargetName = ux_Name s TargetName \<and> core s' (uj_Original j) = core s (uj_Original j))"

definition verified :: "unix_job \<Rightarrow> nat \<Rightarrow> unix_fs \<Rightarrow> bool" where
  "verified j i s \<longleftrightarrow> i \<in> made_by j \<and> uo_Kind (ux_Object s i) = RegularFile
     \<and> un_sha (uj_Env j) (uo_Bytes (ux_Object s i)) = uj_Digest j \<and> length (uo_Bytes (ux_Object s i)) \<le> maxBinary
     \<and> uo_Mode (ux_Object s i) = uj_Mode j"

definition original_kept :: "unix_job \<Rightarrow> unix_fs \<Rightarrow> bool" where
  "original_kept j s \<longleftrightarrow> core s (uj_Original j)
     = (uo_Kind (uj_Object j), uo_Bytes (uj_Object j), uo_Mode (uj_Object j))"

definition in_place :: "unix_job \<Rightarrow> unix_fs \<Rightarrow> bool" where
  "in_place j s \<longleftrightarrow> (uj_Quiet j \<longrightarrow> original_kept j s \<and> ux_Name s TargetName = Some (uj_Original j))"

definition kept :: "unix_job \<Rightarrow> unix_fs \<Rightarrow> bool" where
  "kept j s \<longleftrightarrow> (uj_Quiet j \<longrightarrow> original_kept j s
     \<and> (ux_Name s TargetName = Some (uj_Original j) \<or> ux_Name s RollbackEntry = Some (uj_Original j)))"

definition installed :: "unix_job \<Rightarrow> unix_fs \<Rightarrow> bool" where
  "installed j s \<longleftrightarrow> (\<exists>i seen. verified j i s \<and> ux_Seen s = Some i # seen
     \<and> (uj_Quiet j \<longrightarrow> original_kept j s \<and> ux_Name s TargetName = Some i))"

text \<open>What holds wherever the process stops.\<close>

definition unlost :: "unix_job \<Rightarrow> unix_fs \<Rightarrow> bool" where
  "unlost j s \<longleftrightarrow> (uj_Quiet j \<longrightarrow> original_kept j s
     \<and> (ux_Name s TargetName = Some (uj_Original j) \<or> ux_Name s RollbackEntry = Some (uj_Original j)
        \<or> (\<exists>i. verified j i s \<and> ux_Name s TargetName = Some i)))"

definition outcome_of :: "unix_job \<Rightarrow> call_error + unit \<Rightarrow> unix_fs \<Rightarrow> bool" where
  "outcome_of j r s \<longleftrightarrow> (case r of Inl _ \<Rightarrow> kept j s | Inr _ \<Rightarrow> installed j s)"

text \<open>The stages of a commit: the entry is made, the original is retained, the names are exchanged.\<close>

definition entered :: "unix_job \<Rightarrow> nat \<Rightarrow> unix_fs \<Rightarrow> bool" where
  "entered j x s \<longleftrightarrow> in_place j s \<and> ux_Name s CommitEntry = Some x"

definition retained :: "unix_job \<Rightarrow> nat \<Rightarrow> nat \<Rightarrow> unix_fs \<Rightarrow> bool" where
  "retained j x i s \<longleftrightarrow> entered j x s \<and> verified j x s \<and> ux_Name s RollbackEntry = Some i \<and> (uj_Quiet j \<longrightarrow> i = uj_Original j)"

definition exchanged :: "unix_job \<Rightarrow> nat \<Rightarrow> unix_fs \<Rightarrow> bool" where
  "exchanged j x s \<longleftrightarrow> verified j x s \<and> (uj_Quiet j \<longrightarrow> original_kept j s
     \<and> ux_Name s TargetName = Some x \<and> ux_Name s RollbackEntry = Some (uj_Original j))"

definition confirmed :: "unix_job \<Rightarrow> nat \<Rightarrow> unix_fs \<Rightarrow> bool" where
  "confirmed j x s \<longleftrightarrow> exchanged j x s \<and> (\<exists>seen. ux_Seen s = Some x # seen)"

lemmas stages = entered_def retained_def exchanged_def confirmed_def in_place_def kept_def installed_def unlost_def

lemma others_refl [simp]: "others j s s" by (simp add: others_def)

lemma stable_core: "i \<in> made_by j \<Longrightarrow> stable (others j) (\<lambda>s. core s i = t)"
  by (auto simp: stable_def others_def)

lemma stable_conj: "stable R P \<Longrightarrow> stable R Q \<Longrightarrow> stable R (\<lambda>s. P s \<and> Q s)"
  by (auto simp: stable_def)

lemma others_facts:
  assumes "others j s s'"
  shows "verified j i s' = verified j i s" "in_place j s' = in_place j s" "kept j s' = kept j s" "installed j s' = installed j s"
    "unlost j s' = unlost j s" "entered j x s' = entered j x s" "exchanged j x s' = exchanged j x s"
    "confirmed j x s' = confirmed j x s" "retained j x i s' = retained j x i s"
proof -
  have v: "verified j k s' = verified j k s" for k
    using assms by (auto simp: verified_def others_def)
  have o: "original_kept j s' = original_kept j s \<and> ux_Name s' TargetName = ux_Name s TargetName" if "uj_Quiet j"
    using assms that by (auto simp: others_def original_kept_def)
  have p: "ux_Name s' CommitEntry = ux_Name s CommitEntry" "ux_Name s' RollbackEntry = ux_Name s RollbackEntry" "ux_Seen s' = ux_Seen s"
    using assms by (auto simp: others_def)
  show "verified j i s' = verified j i s" by (rule v)
  show "in_place j s' = in_place j s" "kept j s' = kept j s" "installed j s' = installed j s" "unlost j s' = unlost j s"
    "entered j x s' = entered j x s" "exchanged j x s' = exchanged j x s" "confirmed j x s' = confirmed j x s"
    "retained j x i s' = retained j x i s"
    using o by (cases "uj_Quiet j"; simp add: stages v p)+
qed

lemma stable_stages [simp]:
  "stable (others j) (verified j i)" "stable (others j) (in_place j)" "stable (others j) (kept j)"
  "stable (others j) (installed j)" "stable (others j) (entered j x)" "stable (others j) (exchanged j x)"
  "stable (others j) (confirmed j x)" "stable (others j) (retained j x i)"
  by (auto simp: stable_def others_facts)

lemma stage_unlost:
  "in_place j s \<Longrightarrow> unlost j s" "kept j s \<Longrightarrow> unlost j s" "installed j s \<Longrightarrow> unlost j s" "entered j x s \<Longrightarrow> unlost j s"
  "exchanged j x s \<Longrightarrow> unlost j s" "confirmed j x s \<Longrightarrow> unlost j s" "retained j x i s \<Longrightarrow> unlost j s"
  by (auto simp: stages)

lemma stage_kept:
  "in_place j s \<Longrightarrow> kept j s" "entered j x s \<Longrightarrow> kept j s" "exchanged j x s \<Longrightarrow> kept j s" "retained j x i s \<Longrightarrow> kept j s"
  "confirmed j x s \<Longrightarrow> kept j s"
  by (auto simp: stages)

section \<open>Calls that keep a stage\<close>

text \<open>An assertion that others respect and that is good enough wherever the process stops.\<close>

definition firm :: "unix_job \<Rightarrow> (unix_fs \<Rightarrow> bool) \<Rightarrow> bool" where
  "firm j P \<longleftrightarrow> stable (others j) P \<and> (\<forall>s. P s \<longrightarrow> unlost j s)"

lemma firm_stages [simp]:
  "firm j (in_place j)" "firm j (kept j)" "firm j (installed j)" "firm j (entered j x)" "firm j (exchanged j x)"
  "firm j (confirmed j x)" "firm j (retained j x i)"
  by (auto simp: firm_def stage_unlost)

lemma firm_conj: "firm j P \<Longrightarrow> stable (others j) Q \<Longrightarrow> firm j (\<lambda>s. P s \<and> Q s)"
  by (auto simp: firm_def stable_conj)

abbreviation triple :: "unix_job \<Rightarrow> (unix_fs \<Rightarrow> bool) \<Rightarrow> (unix_fs, 'a) prog \<Rightarrow> (call_error + 'a \<Rightarrow> unix_fs \<Rightarrow> bool) \<Rightarrow> bool" where
  "triple j \<equiv> valid (others j) (unlost j)"

lemma firm_call:
  "firm j P \<Longrightarrow> (\<And>s x s1. P s \<Longrightarrow> f s = Inr (x, s1) \<Longrightarrow> P s1) \<Longrightarrow> triple j P (call f) (\<lambda>_. P)"
  unfolding firm_def by (rule valid_call) auto

lemma firm_look: "firm j P \<Longrightarrow> triple j P (look f) (\<lambda>_. P)"
  unfolding look_def by (rule firm_call) (auto split: sum.splits)

lemma firm_act: "firm j P \<Longrightarrow> (\<And>s. P s \<Longrightarrow> P (f s)) \<Longrightarrow> triple j P (act f) (\<lambda>_. P)"
  unfolding act_def by (rule firm_call) auto

lemma firm_plain: "firm j P \<Longrightarrow> triple j P plain_call (\<lambda>_. P)"
  unfolding plain_call_def by (rule firm_act) auto

lemma firm_looks:
  assumes "firm j P"
  shows "triple j P (lookup_name n) (\<lambda>_. P)" "triple j P (stat_object i) (\<lambda>_. P)" "triple j P (lstat_name n) (\<lambda>_. P)"
    "triple j P (read_chunk i k l) (\<lambda>_. P)" "triple j P plain_call (\<lambda>_. P)" "triple j P (look f) (\<lambda>_. P)"
  using assms by (auto simp: lookup_name_def stat_object_def lstat_name_def read_chunk_def firm_look firm_plain)

lemma keep_bind:
  assumes "triple j P m (\<lambda>_. P)" "\<And>s e. P s \<Longrightarrow> Q (Inl e) s" "\<And>x. triple j P (k x) Q"
  shows "triple j P (bind_step m k) Q"
  by (rule valid_bind [where M = "\<lambda>_. P"])
    (rule valid_post [OF assms(1)], auto simp: assms(2,3) split: sum.split)

lemma keep_check:
  assumes "b \<Longrightarrow> triple j P k Q" "\<And>s. P s \<Longrightarrow> Q (Inl Failed) s"
  shows "triple j P (bind_step (check_that b) (\<lambda>_. k)) Q"
proof (cases b)
  case True
  then have "bind_step (check_that b) (\<lambda>_. k) = k" by (simp add: fun_eq_iff bind_step_def handle_def check_that_def result_def failure_def)
  with assms(1) True show ?thesis by simp
next
  case False
  then have "bind_step (check_that b) (\<lambda>_. k) = failure Failed"
    by (simp add: fun_eq_iff bind_step_def handle_def check_that_def result_def failure_def)
  then show ?thesis using assms(2) by (simp add: valid_failure)
qed

lemma keep_deferring:
  "triple j P m (\<lambda>r. Q r) \<Longrightarrow> (\<And>r. triple j (Q r) cleanup (\<lambda>_. Q r)) \<Longrightarrow> triple j P (deferring cleanup m) Q"
  by (rule valid_deferring)

lemma valid_ex: "(\<And>b. valid R I (\<lambda>s. P s \<and> f s = b) m Q) \<Longrightarrow> valid R I P m Q"
  by (simp add: valid_def)

lemma valid_fact:
  assumes "\<And>s. P s \<Longrightarrow> b" and "b \<Longrightarrow> valid R I P m Q"
  shows "valid R I P m Q"
proof (cases b)
  case False
  then have "\<not> P s" for s using assms(1) by blast
  then show ?thesis by (simp add: valid_def)
qed (rule assms(2))

section \<open>Copying and authenticating\<close>

lemma bind_step_result [simp]: "bind_step (result x) k = k x"
  by (simp add: fun_eq_iff bind_step_def handle_def result_def)

lemma copy_limited_none [simp]: "copy_limited source dest 0 acc = result acc"
  by (subst copy_limited.simps) simp

text \<open>A copy whose destination is irrelevant for the assertion keeps it.\<close>

lemma firm_write_chunk:
  assumes "firm j P" "\<And>s k data. P s \<Longrightarrow> P (put_bytes d k data s)"
  shows "triple j P (write_chunk d offset data) (\<lambda>_. P)"
  unfolding write_chunk_def by (rule valid_write_call) (use assms in \<open>auto simp: firm_def\<close>)

lemma firm_copy:
  assumes "firm j P" "\<And>s d k data. dest = Some d \<Longrightarrow> P s \<Longrightarrow> P (put_bytes d k data s)"
  shows "triple j P (copy_limited source dest limit acc) (\<lambda>_. P)"
  using assms
proof (induction source dest limit acc rule: copy_limited.induct)
  case (1 source dest limit acc)
  note IH = 1(1) and firm = 1(2,3)
  show ?case
  proof (cases "limit = 0")
    case True
    then show ?thesis by (simp add: valid_result)
  next
    case False
    have written: "triple j P (case dest of None \<Rightarrow> result () | Some i \<Rightarrow> write_chunk i k d) (\<lambda>_. P)" for k d
    proof (cases dest)
      case (Some i)
      have "triple j P (write_chunk i k d) (\<lambda>_. P)" by (rule firm_write_chunk [OF firm(1)], rule firm(2) [OF Some])
      with Some show ?thesis by simp
    qed (simp add: valid_result)
    have step: "triple j P (bind_step (case dest of None \<Rightarrow> result () | Some i \<Rightarrow> write_chunk i (length acc) d)
        (\<lambda>_. copy_limited source dest (limit - length d) (acc @ d))) (\<lambda>_. P)" if "d = take limit data" "d \<noteq> []" for d data
      by (rule keep_bind [OF written]) (use IH [OF False that(1) that(2) firm] firm(1) in \<open>auto simp: firm_def\<close>)
    have chunk: "triple j P (if take limit data = [] then result acc
        else bind_step (case dest of None \<Rightarrow> result () | Some i \<Rightarrow> write_chunk i (length acc) (take limit data))
          (\<lambda>_. copy_limited source dest (limit - length (take limit data)) (acc @ take limit data))) (\<lambda>_. P)" for data
      using step [OF refl] by (cases "take limit data = []") (auto intro: valid_result)
    show ?thesis
      unfolding copy_limited.simps [of source dest limit acc] Let_def if_not_P [OF False]
      by (rule keep_bind [OF firm_looks(4) [OF firm(1)] _ chunk])
  qed
qed

text \<open>Reading an object that nobody writes gives its bytes, up to the limit.\<close>

lemma copy_reads:
  assumes "firm j P" "\<And>s. P s \<Longrightarrow> uo_Bytes (ux_Object s i) = b" "acc = take (length acc) b"
  shows "triple j P (copy_limited i None limit acc)
    (\<lambda>r s. P s \<and> (case r of Inl _ \<Rightarrow> True | Inr data \<Rightarrow> data = take (length acc + limit) b))"
  using assms(3)
proof (induction limit arbitrary: acc rule: less_induct)
  case (less limit)
  show ?case
  proof (cases "limit = 0")
    case True
    then show ?thesis
      using less.prems by (simp add: valid_result)
  next
    case False
    let ?c = "take (min copy_chunk limit) (drop (length acc) b)"
    have read: "triple j P (read_chunk i (length acc) (min copy_chunk limit)) (\<lambda>r s. P s \<and> (r = Inl Failed \<or> r = Inr ?c))"
      unfolding read_chunk_def by (rule valid_look) (use assms(1,2) in \<open>auto simp: firm_def\<close>)
    have short: "length ?c \<le> limit" by simp
    have next_acc: "acc @ ?c = take (length acc + length ?c) b"
    proof -
      have "take (length ?c) (drop (length acc) b) = ?c" by (simp add: min_def)
      with less.prems take_add [of "length acc" "length ?c" b] show ?thesis by metis
    qed
    have rest: "triple j P (copy_limited i None (limit - length ?c) (acc @ ?c))
      (\<lambda>r s. P s \<and> (case r of Inl _ \<Rightarrow> True | Inr data \<Rightarrow> data = take (length acc + limit) b))" if "?c \<noteq> []"
    proof -
      have "length ?c > 0" using that by simp
      with short False have lt: "limit - length ?c < limit" by linarith
      have eq: "length (acc @ ?c) + (limit - length ?c) = length acc + limit" using short by simp
      have "acc @ ?c = take (length (acc @ ?c)) b" using next_acc unfolding length_append .
      from less.IH [OF lt this] show ?thesis unfolding eq .
    qed
    have end_of_file: "acc = take (length acc + limit) b" if "?c = []"
    proof -
      have "drop (length acc) b = []" using that False by (auto simp: copy_chunk_def min_def split: if_splits)
      then show ?thesis using less.prems by simp
    qed
    show ?thesis
      unfolding copy_limited.simps [of i None limit acc] Let_def if_not_P [OF False]
    proof (rule valid_bind [where M = "\<lambda>data s. P s \<and> data = ?c"])
      show "triple j P (read_chunk i (length acc) (min copy_chunk limit))
        (\<lambda>r s. case r of Inl e \<Rightarrow> P s \<and> (case Inl e of Inl _ \<Rightarrow> True | Inr data \<Rightarrow> data = take (length acc + limit) b)
           | Inr data \<Rightarrow> P s \<and> data = ?c)"
        by (rule valid_post [OF read]) (auto split: sum.splits)
    next
      fix data
      show "triple j (\<lambda>s. P s \<and> data = ?c)
        (if take limit data = [] then result acc
         else bind_step (case None of None \<Rightarrow> result () | Some i \<Rightarrow> write_chunk i (length acc) (take limit data))
           (\<lambda>_. copy_limited i None (limit - length (take limit data)) (acc @ take limit data)))
        (\<lambda>r s. P s \<and> (case r of Inl _ \<Rightarrow> True | Inr data \<Rightarrow> data = take (length acc + limit) b))"
      proof (rule valid_fact [where b = "data = ?c"])
        assume data: "data = ?c"
        then have whole: "take limit data = ?c" by simp
        show "triple j (\<lambda>s. P s \<and> data = ?c)
          (if take limit data = [] then result acc
           else bind_step (case None of None \<Rightarrow> result () | Some i \<Rightarrow> write_chunk i (length acc) (take limit data))
             (\<lambda>_. copy_limited i None (limit - length (take limit data)) (acc @ take limit data)))
          (\<lambda>r s. P s \<and> (case r of Inl _ \<Rightarrow> True | Inr data \<Rightarrow> data = take (length acc + limit) b))"
          unfolding whole
          using rest end_of_file data
          by (auto intro!: valid_result split: if_splits)
      qed simp
    qed
  qed
qed

lemma authenticate_verifies:
  assumes firm: "firm j P" and i: "i \<in> made_by j"
  shows "triple j P (authenticateUnixReplacement (uj_Env j) i (uj_Digest j) (uj_Mode j) k)
    (\<lambda>r s. P s \<and> (r = Inr () \<longrightarrow> verified j i s))"
proof (rule valid_ex [where f = "\<lambda>s. core s i"])
  fix t :: "file_kind \<times> bytes \<times> nat"
  obtain kind b mode where t: "t = (kind, b, mode)" by (cases t) auto
  let ?P = "\<lambda>s. P s \<and> core s i = t"
  let ?Q = "\<lambda>r s. P s \<and> (r = Inr () \<longrightarrow> verified j i s)"
  have P: "firm j ?P" by (rule firm_conj [OF firm stable_core [OF i]])
  have read: "triple j ?P (copy_limited i None (maxBinary + 1) [])
      (\<lambda>r s. ?P s \<and> (case r of Inl _ \<Rightarrow> True | Inr data \<Rightarrow> data = take (maxBinary + 1) b))"
    by (rule valid_post [OF copy_reads [OF P, of i b "[]" "maxBinary + 1"]]) (auto simp: t split: sum.splits)
  have stat: "triple j ?P (stat_object i)
      (\<lambda>r s. case r of Inl e \<Rightarrow> ?Q (Inl e) s | Inr x \<Rightarrow> ?P s \<and> uo_Kind (fst x) = kind \<and> uo_Mode (fst x) = mode)"
    unfolding stat_object_def by (rule valid_look) (use P in \<open>auto simp: firm_def t\<close>)
  have final: "triple j (\<lambda>s. ?P s \<and> uo_Kind info = kind \<and> uo_Mode info = mode)
      (bind_step (check_that (uo_Kind info = RegularFile)) (\<lambda>_.
       bind_step (check_that (uo_Mode info = uj_Mode j)) (\<lambda>_. check_that (links = k)))) ?Q"
    if "length b \<le> maxBinary" "un_sha (uj_Env j) b = uj_Digest j" for info :: unix_object and links :: nat
    by (intro keep_check valid_check) (use that i t in \<open>auto simp: verified_def\<close>)
  have rest: "triple j (\<lambda>s. ?P s \<and> data = take (maxBinary + 1) b)
      (bind_step (check_that (length data \<le> maxBinary)) (\<lambda>_.
       bind_step (check_that (un_sha (uj_Env j) data = uj_Digest j)) (\<lambda>_.
       bind_step (stat_object i) (\<lambda>(info, links).
       bind_step (check_that (uo_Kind info = RegularFile)) (\<lambda>_.
       bind_step (check_that (uo_Mode info = uj_Mode j)) (\<lambda>_. check_that (links = k))))))) ?Q" for data
  proof (rule valid_fact [where b = "data = take (maxBinary + 1) b"])
    assume data: "data = take (maxBinary + 1) b"
    show ?thesis
    proof (intro keep_check)
      assume "length data \<le> maxBinary" "un_sha (uj_Env j) data = uj_Digest j"
      with data have b: "length b \<le> maxBinary" "un_sha (uj_Env j) b = uj_Digest j" by (auto simp: min_def split: if_splits)
      show "triple j (\<lambda>s. ?P s \<and> data = take (maxBinary + 1) b) (bind_step (stat_object i) (\<lambda>(info, links).
          bind_step (check_that (uo_Kind info = RegularFile)) (\<lambda>_.
          bind_step (check_that (uo_Mode info = uj_Mode j)) (\<lambda>_. check_that (links = k))))) ?Q"
      proof (rule valid_weaken [OF valid_bind [OF stat]])
        fix x :: "unix_object \<times> nat"
        obtain info links where x: "x = (info, links)" by fastforce
        show "triple j (\<lambda>s. ?P s \<and> uo_Kind (fst x) = kind \<and> uo_Mode (fst x) = mode) (case x of (info, links) \<Rightarrow>
          bind_step (check_that (uo_Kind info = RegularFile)) (\<lambda>_.
          bind_step (check_that (uo_Mode info = uj_Mode j)) (\<lambda>_. check_that (links = k)))) ?Q"
          unfolding x prod.case fst_conv by (rule final [OF b])
      qed auto
    qed auto
  qed auto
  have all: "triple j ?P (bind_step (copy_limited i None (maxBinary + 1) []) (\<lambda>data.
      bind_step (check_that (length data \<le> maxBinary)) (\<lambda>_.
       bind_step (check_that (un_sha (uj_Env j) data = uj_Digest j)) (\<lambda>_.
       bind_step (stat_object i) (\<lambda>(info, links).
       bind_step (check_that (uo_Kind info = RegularFile)) (\<lambda>_.
       bind_step (check_that (uo_Mode info = uj_Mode j)) (\<lambda>_. check_that (links = k)))))))) ?Q"
    by (rule valid_bind [OF _ rest], rule valid_post [OF read]) (auto split: sum.splits)
  show "triple j ?P (authenticateUnixReplacement (uj_Env j) i (uj_Digest j) (uj_Mode j) k) ?Q"
    unfolding authenticateUnixReplacement_def
    by (rule keep_bind [OF firm_plain [OF P] _ all]) simp
qed

section \<open>What a change of the state leaves alone\<close>

lemma bind_name_simps [simp]:
  "ux_Object (bind_name n i s) = ux_Object s" "ux_Seen (bind_name n i s) = ux_Seen s"
  "ux_Name (bind_name n i s) m = (if m = n then i else ux_Name s m)"
  by (simp_all add: bind_name_def)

lemma bind_name_stages:
  "n \<noteq> TargetName \<Longrightarrow> in_place j (bind_name n i s) = in_place j s"
  "n \<noteq> TargetName \<Longrightarrow> n \<noteq> RollbackEntry \<Longrightarrow> kept j (bind_name n i s) = kept j s"
  "n \<noteq> TargetName \<Longrightarrow> installed j (bind_name n i s) = installed j s"
  "n \<noteq> TargetName \<Longrightarrow> n \<noteq> CommitEntry \<Longrightarrow> entered j x (bind_name n i s) = entered j x s"
  "verified j x (bind_name n i s) = verified j x s"
  by (simp_all add: stages original_kept_def verified_def)

lemma directory_stages [simp]:
  "in_place j (s\<lparr>ux_DirMode := d\<rparr>) = in_place j s" "kept j (s\<lparr>ux_DirMode := d\<rparr>) = kept j s"
  "installed j (s\<lparr>ux_DirMode := d\<rparr>) = installed j s" "in_place j (s\<lparr>ux_DirPath := p\<rparr>) = in_place j s"
  by (simp_all add: stages original_kept_def verified_def)

lemma put_object_stages:
  "proper j \<Longrightarrow> i \<in> made_by j \<Longrightarrow> in_place j (put_object i obj s) = in_place j s"
  "proper j \<Longrightarrow> i \<in> made_by j \<Longrightarrow> entered j x (put_object i obj s) = entered j x s"
  by (auto simp: stages original_kept_def put_object_def proper_def)

lemma put_bytes_stages:
  "proper j \<Longrightarrow> i \<in> made_by j \<Longrightarrow> in_place j (put_bytes i k data s) = in_place j s"
  "proper j \<Longrightarrow> i \<in> made_by j \<Longrightarrow> entered j x (put_bytes i k data s) = entered j x s"
  by (simp_all add: put_bytes_def put_object_stages)

lemma outcome_simps [simp]: "outcome_of j (Inl e) = kept j" "outcome_of j (Inr ()) = installed j"
  by (simp_all add: outcome_of_def fun_eq_iff)

lemma firm_outcome [simp]: "firm j (outcome_of j r)"
  by (cases r) auto

lemma outcome_bind: "n \<notin> {TargetName, RollbackEntry} \<Longrightarrow> outcome_of j r (bind_name n i s) = outcome_of j r s"
  by (cases r) (auto simp: bind_name_stages)

lemma outcome_directory [simp]: "outcome_of j r (s\<lparr>ux_DirMode := d\<rparr>) = outcome_of j r s"
  by (cases r) auto

lemma firm_unlink:
  "firm j P \<Longrightarrow> (\<And>s. P s \<Longrightarrow> P (bind_name n None s)) \<Longrightarrow> triple j P (unlink_name d n) (\<lambda>_. P)"
  unfolding unlink_name_def by (rule firm_call) (auto split: option.splits if_splits)

lemma firm_remove_entry:
  assumes "firm j P" "\<And>s. P s \<Longrightarrow> P (bind_name n None s)"
  shows "triple j P (removeUnixCommitEntry n) (\<lambda>_. P)"
  unfolding removeUnixCommitEntry_def
  by (rule valid_handle [OF firm_looks(3) [OF assms(1)]])
    (auto split: sum.split intro: valid_result valid_failure firm_unlink assms)

lemma firm_remove_directory:
  "firm j P \<Longrightarrow> (\<And>s. P s \<Longrightarrow> P (s\<lparr>ux_DirMode := None\<rparr>)) \<Longrightarrow> triple j P remove_directory (\<lambda>_. P)"
  unfolding remove_directory_def by (rule firm_call) (auto split: if_splits)

lemma firm_require_install: "firm j P \<Longrightarrow> triple j P (require_install_path i) (\<lambda>_. P)"
  unfolding require_install_path_def
  by (rule keep_bind) (auto intro: firm_looks valid_check split: prod.split)

section \<open>Committing\<close>

lemma seen_exchanged: "exchanged j x (s\<lparr>ux_Seen := v\<rparr>) = exchanged j x s"
  by (simp add: exchanged_def original_kept_def verified_def)

lemma canonical_confirms:
  "triple j (exchanged j x) (authenticateCanonicalUnixReplacement (uj_Env j) x (uj_Digest j) (uj_Mode j))
     (\<lambda>r s. case r of Inl _ \<Rightarrow> exchanged j x s | Inr _ \<Rightarrow> confirmed j x s)"
proof (cases "x \<in> made_by j")
  case True
  let ?Q = "\<lambda>r s. case r of Inl _ \<Rightarrow> exchanged j x s | Inr _ \<Rightarrow> confirmed j x s"
  let ?S = "\<lambda>i s. exchanged j x s \<and> (\<exists>seen. ux_Seen s = Some i # seen)"
  have firm: "firm j (?S i)" for i
    by (rule firm_conj) (auto simp: stable_def others_def)
  have stat: "triple j (exchanged j x) stat_target (\<lambda>r s. case r of Inl e \<Rightarrow> ?Q (Inl e) s | Inr y \<Rightarrow> ?S (fst y) s)"
    unfolding stat_target_def
    by (rule valid_call) (auto simp: stage_unlost seen_exchanged split: option.splits)
  have final: "triple j (?S i) (bind_step plain_call (\<lambda>_. check_that (uo_Kind info = RegularFile \<and> i = x))) ?Q"
    for i and info :: unix_object
    by (rule keep_bind [OF firm_plain [OF firm]]) (auto intro!: valid_check simp: confirmed_def)
  have auth: "triple j (exchanged j x) (authenticateUnixReplacement (uj_Env j) x (uj_Digest j) (uj_Mode j) 1) (\<lambda>_. exchanged j x)"
    by (rule valid_post [OF authenticate_verifies [OF _ True]]) auto
  show ?thesis
    unfolding authenticateCanonicalUnixReplacement_def
    by (rule keep_bind [OF auth], simp, rule valid_bind [OF stat]) (use final in \<open>auto simp: split_beta\<close>)
next
  case False
  then have "\<not> exchanged j x s" for s by (auto simp: exchanged_def verified_def)
  then show ?thesis by (simp add: valid_def)
qed

text \<open>While the original is restored, its link in the private directory keeps it.\<close>

definition set_aside :: "unix_job \<Rightarrow> unix_fs \<Rightarrow> bool" where
  "set_aside j s \<longleftrightarrow> (uj_Quiet j \<longrightarrow> original_kept j s \<and> ux_Name s RollbackEntry = Some (uj_Original j))"

lemma firm_set_aside: "firm j (set_aside j)"
  by (auto simp: firm_def stable_def set_aside_def unlost_def others_def original_kept_def)

lemma set_aside_bind: "n \<noteq> RollbackEntry \<Longrightarrow> set_aside j (bind_name n i s) = set_aside j s"
  by (simp add: set_aside_def original_kept_def)

lemma restore_keeps: "triple j (exchanged j x) restoreOriginalUnixTarget (\<lambda>_. kept j)"
proof -
  have away: "triple j (set_aside j) (rename_name TargetName DiscardedEntry) (\<lambda>_. set_aside j)"
    unfolding rename_name_def
    by (rule firm_call [OF firm_set_aside]) (auto simp: set_aside_bind split: option.splits if_splits)
  have returned: "triple j (set_aside j) (rename_name RollbackEntry TargetName) (\<lambda>_. kept j)"
    unfolding rename_name_def
    by (rule valid_call) (use firm_set_aside [of j] in
      \<open>auto simp: firm_def set_aside_def kept_def original_kept_def split: option.splits if_splits\<close>)
  have clean: "triple j (set_aside j) (if isl r then result () else removeUnixCommitEntry DiscardedEntry) (\<lambda>_. set_aside j)"
    for r :: "call_error + unit"
    by (auto intro: valid_result firm_remove_entry [OF firm_set_aside] simp: set_aside_bind)
  have "triple j (set_aside j) restoreOriginalUnixTarget (\<lambda>_. kept j)"
    unfolding restoreOriginalUnixTarget_def
    by (rule valid_handle [OF away], rule valid_handle [OF clean], rule valid_handle [OF returned]) (rule valid_result)
  then show ?thesis
    by (rule valid_weaken) (auto simp: set_aside_def exchanged_def)
qed

text \<open>The original has its second link, the entry is authenticated.\<close>

definition ready :: "unix_job \<Rightarrow> nat \<Rightarrow> unix_fs \<Rightarrow> bool" where
  "ready j x s \<longleftrightarrow> entered j x s \<and> verified j x s \<and> set_aside j s"

lemma firm_ready: "firm j (ready j x)"
  unfolding ready_def using firm_set_aside [of j] by (auto simp: firm_def stable_def others_facts)

lemma confirmed_installed: "confirmed j x s \<Longrightarrow> installed j s"
  by (auto simp: confirmed_def exchanged_def installed_def)

lemma commit_over_original_outcome:
  assumes "proper j"
  shows "triple j (ready j x) (commit_over_original (uj_Env j) x (uj_Digest j) (uj_Mode j) i k) (outcome_of j)"
proof -
  have rename: "triple j (ready j x) (rename_name CommitEntry TargetName)
      (\<lambda>r s. case r of Inl _ \<Rightarrow> in_place j s | Inr _ \<Rightarrow> exchanged j x s)"
    unfolding rename_name_def
  proof (rule valid_call)
    fix s y s1
    assume "ready j x s" and step: "(case ux_Name s CommitEntry of
        None \<Rightarrow> Inl Missing
      | Some i \<Rightarrow> if ux_Name s TargetName = Some i then Inr ((), s)
          else if ux_Name s TargetName \<noteq> None \<and>
            (uo_Kind (ux_Object s i) = DirectoryKind) \<noteq> (uo_Kind (ux_Object s (the (ux_Name s TargetName))) = DirectoryKind)
          then Inl Failed
          else Inr ((), bind_name TargetName (Some i) (bind_name CommitEntry None s))) = Inr (y, s1)"
    then have s: "ux_Name s CommitEntry = Some x" "verified j x s" "set_aside j s"
      by (simp_all add: ready_def entered_def)
    with step have "ux_Name s1 TargetName = Some x \<and> verified j x s1 \<and> set_aside j s1"
      by (auto simp: set_aside_bind bind_name_stages split: if_splits)
    then show "case Inr y of Inl _ \<Rightarrow> in_place j s1 | Inr _ \<Rightarrow> exchanged j x s1"
      by (auto simp: exchanged_def set_aside_def)
  qed (use firm_ready [of j x] in \<open>auto simp: firm_def ready_def entered_def\<close>)
  have checked: "triple j (ready j x) (bind_step (check_that b) (\<lambda>_. rename_name CommitEntry TargetName))
      (\<lambda>r s. case r of Inl _ \<Rightarrow> in_place j s | Inr _ \<Rightarrow> exchanged j x s)" for b
    by (rule keep_check [OF rename]) (simp add: ready_def entered_def)
  have first: "triple j (ready j x) (bind_step (lstat_name RollbackEntry) (\<lambda>(retained, _, links).
      bind_step (check_that (retained = i \<and> links = k + 1)) (\<lambda>_. rename_name CommitEntry TargetName)))
      (\<lambda>r s. case r of Inl _ \<Rightarrow> in_place j s | Inr _ \<Rightarrow> exchanged j x s)"
    by (rule keep_bind [OF firm_looks(3) [OF firm_ready]], simp add: ready_def entered_def)
      (simp only: case_prod_beta checked)
  have twice: "triple j (exchanged j x)
      (bind_step (authenticateCanonicalUnixReplacement (uj_Env j) x (uj_Digest j) (uj_Mode j)) (\<lambda>_.
       authenticateCanonicalUnixReplacement (uj_Env j) x (uj_Digest j) (uj_Mode j)))
      (\<lambda>r s. case r of Inl _ \<Rightarrow> exchanged j x s | Inr _ \<Rightarrow> confirmed j x s)"
  proof -
    have "triple j (exchanged j x) (authenticateCanonicalUnixReplacement (uj_Env j) x (uj_Digest j) (uj_Mode j)) (\<lambda>_. exchanged j x)"
      by (rule valid_post [OF canonical_confirms]) (auto simp: confirmed_def split: sum.splits)
    from keep_bind [OF this _ canonical_confirms] show ?thesis by simp
  qed
  have failed: "triple j (in_place j) (deferring (unlink_name False RollbackEntry) (failure err)) (outcome_of j)"
    for err :: call_error
    by (rule valid_deferring_given, rule valid_weaken [OF firm_unlink [where P = "in_place j"]])
      (auto simp: bind_name_stages stage_kept)
  have succeeded: "triple j (confirmed j x) (deferring (unlink_name False RollbackEntry) (result ())) (outcome_of j)"
    by (rule valid_deferring_given, rule valid_weaken [OF firm_unlink [where P = "installed j"]])
      (simp_all add: bind_name_stages confirmed_installed)
  have restored: "triple j (exchanged j x) (handle restoreOriginalUnixTarget (\<lambda>_. failure err)) (outcome_of j)"
    for err :: call_error
    by (rule valid_handle [OF restore_keeps]) (simp add: valid_failure)
  have settle: "triple j (exchanged j x)
      (handle (bind_step (authenticateCanonicalUnixReplacement (uj_Env j) x (uj_Digest j) (uj_Mode j)) (\<lambda>_.
         authenticateCanonicalUnixReplacement (uj_Env j) x (uj_Digest j) (uj_Mode j)))
       (\<lambda>authenticated. case authenticated of
          Inr _ \<Rightarrow> deferring (unlink_name False RollbackEntry) (result ())
        | Inl err \<Rightarrow> handle restoreOriginalUnixTarget (\<lambda>_. failure err))) (outcome_of j)"
    by (rule valid_handle [OF twice]) (auto split: sum.split simp: succeeded restored)
  show ?thesis
    unfolding commit_over_original_def
    by (rule valid_handle [OF first]) (auto split: sum.split simp: failed settle)
qed

definition proven :: "unix_job \<Rightarrow> nat \<Rightarrow> unix_fs \<Rightarrow> bool" where
  "proven j x s \<longleftrightarrow> entered j x s \<and> verified j x s"

lemma firm_proven: "firm j (proven j x)"
  unfolding proven_def by (rule firm_conj) auto

lemma proven_kept: "proven j x s \<Longrightarrow> kept j s" "entered j x s \<Longrightarrow> kept j s"
  by (auto simp: proven_def stage_kept(2))

lemma proven_bind: "n \<notin> {TargetName, CommitEntry} \<Longrightarrow> proven j x (bind_name n i s) = proven j x s"
  by (simp add: proven_def bind_name_stages)

lemma commit_verified_outcome:
  assumes "proper j"
  shows "triple j (proven j x) (commitVerifiedUnixEntry (uj_Env j) x (uj_Digest j) (uj_Mode j)) (outcome_of j)"
proof -
  have link: "triple j (proven j x) (link_name TargetName RollbackEntry)
      (\<lambda>r s. case r of Inl e \<Rightarrow> outcome_of j (Inl e) s | Inr _ \<Rightarrow> ready j x s)"
    unfolding link_name_def
    by (rule valid_call) (use firm_proven [of j x] in
      \<open>auto simp: firm_def proven_kept proven_bind ready_def proven_def bind_name_stages set_aside_def entered_def in_place_def
        original_kept_def split: option.splits if_splits\<close>)
  have linked: "triple j (proven j x) (bind_step (link_name TargetName RollbackEntry)
      (\<lambda>_. commit_over_original (uj_Env j) x (uj_Digest j) (uj_Mode j) i k)) (outcome_of j)" for i k
    by (rule valid_bind [OF link]) (simp add: commit_over_original_outcome [OF assms])
  have "triple j (proven j x) (bind_step (lstat_name TargetName) (\<lambda>(original, info, links).
        bind_step (check_that (uo_Kind info = RegularFile)) (\<lambda>_.
        bind_step (link_name TargetName RollbackEntry) (\<lambda>_.
        commit_over_original (uj_Env j) x (uj_Digest j) (uj_Mode j) original links)))) (outcome_of j)"
    by (rule keep_bind [OF firm_looks(3) [OF firm_proven]])
      (auto simp: proven_kept split: prod.split intro!: keep_check linked)
  then show ?thesis
    unfolding commitVerifiedUnixEntry_def
    by (rule valid_deferring) (auto intro!: firm_remove_entry simp: outcome_bind)
qed

lemma in_directory_outcome:
  assumes "triple j (in_place j) body (outcome_of j)"
  shows "triple j (in_place j) (in_commit_directory (uj_Env j) body) (outcome_of j)"
proof -
  have make: "triple j (in_place j) (make_directory (uj_Env j)) (\<lambda>_. in_place j)"
    unfolding make_directory_def by (rule firm_act) (simp_all add: bind_name_stages in_place_def original_kept_def)
  have refused: "triple j (in_place j) (deferring remove_directory (failure err)) (outcome_of j)" for err :: call_error
    by (rule valid_deferring_given, rule valid_weaken [OF firm_remove_directory [where P = "in_place j"]])
      (auto simp: stage_kept)
  have inspected: "triple j (in_place j) (bind_step (look (\<lambda>s. Inr (ux_DirMode s))) (\<lambda>mode.
       bind_step (look (\<lambda>s. if ux_DirPath s then Inr () else Inl Failed)) (\<lambda>_.
       bind_step (check_that (mode = Some 448)) (\<lambda>_. body)))) (outcome_of j)"
    by (auto intro!: keep_bind firm_look keep_check assms simp: stage_kept)
  have clean: "triple j (outcome_of j r) (handle plain_call (\<lambda>_. remove_directory)) (\<lambda>_. outcome_of j r)" for r
    by (rule valid_handle [OF firm_plain]) (auto intro!: firm_remove_directory)
  have opened: "triple j (in_place j)
      (deferring (handle plain_call (\<lambda>_. remove_directory)) (bind_step (look (\<lambda>s. Inr (ux_DirMode s))) (\<lambda>mode.
       bind_step (look (\<lambda>s. if ux_DirPath s then Inr () else Inl Failed)) (\<lambda>_.
       bind_step (check_that (mode = Some 448)) (\<lambda>_. body))))) (outcome_of j)"
    by (rule valid_deferring [OF inspected clean])
  have "triple j (in_place j) (handle plain_call (\<lambda>opened. case opened of
        Inl err \<Rightarrow> deferring remove_directory (failure err)
      | Inr _ \<Rightarrow> deferring (handle plain_call (\<lambda>_. remove_directory))
          (bind_step (look (\<lambda>s. Inr (ux_DirMode s))) (\<lambda>mode.
           bind_step (look (\<lambda>s. if ux_DirPath s then Inr () else Inl Failed)) (\<lambda>_.
           bind_step (check_that (mode = Some 448)) (\<lambda>_. body)))))) (outcome_of j)"
    by (rule valid_handle [OF firm_plain]) (auto simp: refused opened split: sum.split)
  then show ?thesis
    unfolding in_commit_directory_def by (rule keep_bind [OF make, rotated]) (simp add: stage_kept)
qed

lemma discard_outcome:
  assumes "triple j P body (outcome_of j)"
  shows "triple j P (discard_entry body) (outcome_of j)"
  unfolding discard_entry_def
proof (rule valid_handle [OF assms])
  fix r :: "call_error + unit"
  have "triple j (outcome_of j r) (if isl r then unlink_name False CommitEntry else result ()) (\<lambda>_. outcome_of j r)"
    by (auto intro!: firm_unlink valid_result simp: outcome_bind)
  then show "triple j (outcome_of j r)
      (handle (if isl r then unlink_name False CommitEntry else result ()) (\<lambda>_ w. Finished r w)) (outcome_of j)"
    by (rule valid_handle) (simp add: valid_def)
qed

lemma plain_deferred:
  assumes "triple j P m (outcome_of j)"
  shows "triple j P (deferring plain_call m) (outcome_of j)"
  by (rule valid_deferring [OF assms]) (rule firm_plain, simp)

section \<open>The two commit primitives\<close>

lemma link_enters:
  "triple j (in_place j) (link_object x CommitEntry) (\<lambda>r s. case r of Inl e \<Rightarrow> outcome_of j (Inl e) s | Inr _ \<Rightarrow> entered j x s)"
  unfolding link_object_def
  by (rule valid_call) (auto simp: stage_unlost stage_kept bind_name_stages entered_def split: if_splits)

lemma create_enters:
  assumes "proper j" "x \<in> made_by j"
  shows "triple j (in_place j) (create_file CommitEntry x)
    (\<lambda>r s. case r of Inl e \<Rightarrow> outcome_of j (Inl e) s | Inr _ \<Rightarrow> entered j x s)"
  unfolding create_file_def
  by (rule valid_call) (use assms in \<open>auto simp: stage_unlost stage_kept bind_name_stages put_object_stages entered_def
    split: if_splits\<close>)

lemma keep_authenticate:
  "firm j P \<Longrightarrow> i \<in> made_by j \<Longrightarrow> triple j P (authenticateUnixReplacement (uj_Env j) i (uj_Digest j) (uj_Mode j) k) (\<lambda>_. P)"
  by (rule valid_post [OF authenticate_verifies]) auto

lemma authenticate_proves:
  assumes "x \<in> made_by j" "triple j (proven j x) m (outcome_of j)"
  shows "triple j (entered j x)
    (bind_step (authenticateUnixReplacement (uj_Env j) x (uj_Digest j) (uj_Mode j) k) (\<lambda>_. m)) (outcome_of j)"
  by (rule valid_bind [where M = "\<lambda>_. proven j x"], rule valid_post [OF authenticate_verifies])
    (use assms in \<open>auto simp: proven_def stage_kept(2) split: sum.splits\<close>)

text \<open>Calls that keep the assertion, up to the last step.\<close>

lemmas keep_steps = firm_looks firm_require_install keep_authenticate firm_unlink firm_copy firm_proven

lemma linux_commit_outcome:
  assumes "proper j"
  shows "triple j (in_place j)
    (commitAuthenticatedUnixReplacement (uj_Env j) (un_Install (uj_Env j)) (uj_Digest j) (uj_Mode j)) (outcome_of j)"
proof -
  let ?x = "un_Install (uj_Env j)" and ?e = "uj_Env j" and ?d = "uj_Digest j" and ?m = "uj_Mode j"
  have x: "?x \<in> made_by j" by (simp add: made_by_def)
  have inspected: "triple j (proven j ?x) (bind_step (stat_object entry) (\<lambda>(info, _). bind_step plain_call (\<lambda>_.
      bind_step (check_that (uo_Kind info = RegularFile \<and> entry = ?x)) (\<lambda>_. commitVerifiedUnixEntry ?e ?x ?d ?m)))) (outcome_of j)"
    for entry
    by (auto intro!: keep_bind keep_check keep_steps commit_verified_outcome assms simp: proven_kept split: prod.split)
  have entry: "triple j (proven j ?x) (bind_step (lookup_name CommitEntry) (\<lambda>entry. deferring plain_call
      (bind_step (stat_object entry) (\<lambda>(info, _). bind_step plain_call (\<lambda>_.
       bind_step (check_that (uo_Kind info = RegularFile \<and> entry = ?x)) (\<lambda>_. commitVerifiedUnixEntry ?e ?x ?d ?m)))))) (outcome_of j)"
    by (rule keep_bind [OF firm_looks(1) [OF firm_proven]]) (auto simp: proven_kept intro!: plain_deferred inspected)
  have checked: "triple j (entered j ?x) (bind_step (check_that b) (\<lambda>_. bind_step (require_install_path ?x) (\<lambda>_.
      bind_step (unlink_name False InstallName) (\<lambda>_. bind_step (authenticateUnixReplacement ?e ?x ?d ?m 1) (\<lambda>_.
      bind_step (lookup_name CommitEntry) (\<lambda>entry. deferring plain_call
      (bind_step (stat_object entry) (\<lambda>(info, _). bind_step plain_call (\<lambda>_.
       bind_step (check_that (uo_Kind info = RegularFile \<and> entry = ?x)) (\<lambda>_. commitVerifiedUnixEntry ?e ?x ?d ?m)))))))))) (outcome_of j)"
    for b
    by (intro keep_check keep_bind [OF firm_require_install] keep_bind [OF firm_unlink] authenticate_proves [OF x entry])
      (auto simp: stage_kept bind_name_stages)
  have bound: "triple j (in_place j) (bind_step (link_object ?x CommitEntry) (\<lambda>_. discard_entry
      (bind_step (stat_object ?x) (\<lambda>(_, links). bind_step (check_that (links = 2)) (\<lambda>_. bind_step (require_install_path ?x) (\<lambda>_.
      bind_step (unlink_name False InstallName) (\<lambda>_. bind_step (authenticateUnixReplacement ?e ?x ?d ?m 1) (\<lambda>_.
      bind_step (lookup_name CommitEntry) (\<lambda>entry. deferring plain_call
      (bind_step (stat_object entry) (\<lambda>(info, _). bind_step plain_call (\<lambda>_.
       bind_step (check_that (uo_Kind info = RegularFile \<and> entry = ?x)) (\<lambda>_. commitVerifiedUnixEntry ?e ?x ?d ?m))))))))))))) (outcome_of j)"
    by (rule valid_bind [OF link_enters], rule discard_outcome, rule keep_bind [OF firm_looks(2)], simp, simp add: stage_kept)
      (simp only: split_paired_all prod.case, rule checked)
  show ?thesis
    unfolding commitAuthenticatedUnixReplacement_def
    by (intro keep_check keep_bind [OF firm_plain] keep_bind [OF firm_looks(2)] plain_deferred in_directory_outcome [OF bound])
      (auto simp: stage_kept)
qed

lemma copy_commit_outcome:
  assumes "proper j"
  shows "triple j (in_place j)
    (commitAuthenticatedUnixReplacementByCopy (uj_Env j) (un_Install (uj_Env j)) (uj_Digest j) (uj_Mode j)) (outcome_of j)"
proof -
  let ?i = "un_Install (uj_Env j)" and ?x = "un_Copy (uj_Env j)"
    and ?e = "uj_Env j" and ?d = "uj_Digest j" and ?m = "uj_Mode j"
  have x: "?x \<in> made_by j" and i: "?i \<in> made_by j" by (simp_all add: made_by_def)
  have entry: "triple j (proven j ?x) (bind_step plain_call (\<lambda>_. bind_step (lstat_name CommitEntry) (\<lambda>(entry, info, _).
      bind_step (check_that (uo_Kind info = RegularFile \<and> entry = ?x)) (\<lambda>_. commitVerifiedUnixEntry ?e ?x ?d ?m)))) (outcome_of j)"
    by (auto intro!: keep_bind keep_check keep_steps commit_verified_outcome assms simp: proven_kept split: prod.split)
  have removed: "triple j (entered j ?x) (bind_step (stat_object ?i) (\<lambda>_. bind_step (require_install_path ?i) (\<lambda>_.
      bind_step (unlink_name False InstallName) (\<lambda>_. bind_step (authenticateUnixReplacement ?e ?i ?d ?m 0) (\<lambda>_.
      bind_step (authenticateUnixReplacement ?e ?x ?d ?m 1) (\<lambda>_.
      bind_step plain_call (\<lambda>_. bind_step (lstat_name CommitEntry) (\<lambda>(entry, info, _).
      bind_step (check_that (uo_Kind info = RegularFile \<and> entry = ?x)) (\<lambda>_. commitVerifiedUnixEntry ?e ?x ?d ?m))))))))) (outcome_of j)"
    by (intro keep_bind [OF firm_looks(2)] keep_bind [OF firm_require_install] keep_bind [OF firm_unlink]
        keep_bind [OF keep_authenticate [OF _ i]] authenticate_proves [OF x entry])
      (auto simp: stage_kept bind_name_stages)
  have chmod: "triple j (entered j ?x) (chmod_object ?x ?m) (\<lambda>_. entered j ?x)"
    unfolding chmod_object_def by (rule firm_act) (simp_all add: put_object_stages [OF assms x])
  have copied: "triple j (entered j ?x) (bind_step plain_call (\<lambda>_.
      bind_step (copy_limited ?i (Some ?x) (maxBinary + 1) []) (\<lambda>data.
      bind_step (check_that (length data \<le> maxBinary)) (\<lambda>_. bind_step (check_that (un_sha ?e data = ?d)) (\<lambda>_.
      bind_step (chmod_object ?x ?m) (\<lambda>_. bind_step plain_call (\<lambda>_. bind_step (authenticateUnixReplacement ?e ?x ?d ?m 1) (\<lambda>_.
      bind_step (stat_object ?i) (\<lambda>_. bind_step (require_install_path ?i) (\<lambda>_.
      bind_step (unlink_name False InstallName) (\<lambda>_. bind_step (authenticateUnixReplacement ?e ?i ?d ?m 0) (\<lambda>_.
      bind_step (authenticateUnixReplacement ?e ?x ?d ?m 1) (\<lambda>_.
      bind_step plain_call (\<lambda>_. bind_step (lstat_name CommitEntry) (\<lambda>(entry, info, _).
      bind_step (check_that (uo_Kind info = RegularFile \<and> entry = ?x)) (\<lambda>_. commitVerifiedUnixEntry ?e ?x ?d ?m))))))))))))))))
      (outcome_of j)"
    by (intro keep_bind [OF firm_plain] keep_bind [OF firm_copy] keep_check keep_bind [OF chmod] keep_bind [OF keep_authenticate [OF _ x]] removed)
      (auto simp: stage_kept put_bytes_stages [OF assms x])
  have made: "triple j (in_place j) (bind_step (create_file CommitEntry ?x) (\<lambda>_. discard_entry (deferring plain_call m))) (outcome_of j)"
    if "triple j (entered j ?x) m (outcome_of j)" for m
    by (rule valid_bind [OF create_enters [OF assms x]]) (rule discard_outcome, rule plain_deferred, rule that)
  show ?thesis
    unfolding commitAuthenticatedUnixReplacementByCopy_def
    by (intro keep_check keep_bind [OF keep_authenticate [OF _ i]] keep_bind [OF firm_plain] plain_deferred
        in_directory_outcome made copied)
      (auto simp: stage_kept)
qed

section \<open>The contract of a commit\<close>

text \<open>
  \<open>replaceExecutable\<close> relies on the commit that the build selects: from a state with the original in place it
  installs the verified object or keeps the original, and loses neither wherever it stops.
\<close>

locale unix_commit =
  fixes commit :: "unix_env \<Rightarrow> nat \<Rightarrow> bytes \<Rightarrow> nat \<Rightarrow> (unix_fs, unit) prog"
  assumes commit_outcome: "proper j \<Longrightarrow>
    triple j (in_place j) (commit (uj_Env j) (un_Install (uj_Env j)) (uj_Digest j) (uj_Mode j)) (outcome_of j)"
begin

lemma install_outcome:
  assumes "proper j"
  shows "triple j (in_place j)
    (install_copy (uj_Env j) (commit (uj_Env j)) source (uj_Digest j) (uj_Mode j)) (outcome_of j)"
proof -
  let ?i = "un_Install (uj_Env j)"
  have i: "?i \<in> made_by j" by (simp add: made_by_def)
  have chmod: "triple j (in_place j) (chmod_object ?i (uj_Mode j)) (\<lambda>_. in_place j)"
    unfolding chmod_object_def by (rule firm_act) (simp_all add: put_object_stages [OF assms i])
  have linked: "triple j (in_place j) (bind_step (check_that b) (\<lambda>_. bind_step (require_install_path ?i) (\<lambda>_.
      bind_step (chmod_object ?i (uj_Mode j)) (\<lambda>_. bind_step plain_call (\<lambda>_.
      bind_step (authenticateUnixReplacement (uj_Env j) ?i (uj_Digest j) (uj_Mode j) 1) (\<lambda>_.
      bind_step (stat_object ?i) (\<lambda>_. bind_step (require_install_path ?i) (\<lambda>_.
      commit (uj_Env j) ?i (uj_Digest j) (uj_Mode j))))))))) (outcome_of j)" for b
    by (intro keep_check keep_bind [OF firm_require_install] keep_bind [OF chmod] keep_bind [OF firm_plain]
        keep_bind [OF keep_authenticate [OF _ i]] keep_bind [OF firm_looks(2)] commit_outcome assms)
      (auto simp: stage_kept)
  show ?thesis
    unfolding install_copy_def Let_def case_prod_beta
    by (intro keep_bind [OF firm_copy] keep_check keep_bind [OF firm_plain] keep_bind [OF firm_looks(2)] linked)
      (auto simp: stage_kept put_bytes_stages [OF assms i])
qed

lemma replace_outcome:
  assumes "proper j"
  shows "triple j (in_place j)
    (replaceUnixExecutable (uj_Env j) (commit (uj_Env j)) (uj_Digest j) (uj_Mode j)) (outcome_of j)"
proof -
  let ?i = "un_Install (uj_Env j)"
  have i: "?i \<in> made_by j" by (simp add: made_by_def)
  have create: "triple j (in_place j) (create_file InstallName ?i) (\<lambda>_. in_place j)"
    unfolding create_file_def
    by (rule firm_call) (auto simp: bind_name_stages put_object_stages [OF assms i] split: if_splits)
  have remove: "triple j (outcome_of j r) (if isl r then remove_path InstallName else result ()) (\<lambda>_. outcome_of j r)"
    for r :: "call_error + unit"
    unfolding remove_path_def by (auto intro!: firm_act valid_result simp: outcome_bind)
  have cleanup: "triple j (outcome_of j r)
      (handle (if isl r then remove_path InstallName else result ()) (\<lambda>_ w. Finished r w)) (outcome_of j)" for r
    by (rule valid_handle [OF remove]) (simp add: valid_def)
  have copied: "triple j (in_place j) (handle (install_copy (uj_Env j) (commit (uj_Env j)) source (uj_Digest j) (uj_Mode j)) (\<lambda>r.
      handle plain_call (\<lambda>_. handle (if isl r then remove_path InstallName else result ()) (\<lambda>_ w. Finished r w)))) (outcome_of j)"
    for source
    by (rule valid_handle [OF install_outcome [OF assms]], rule valid_handle [OF firm_plain]) (auto simp: cleanup)
  have checked: "triple j (in_place j) (bind_step (check_that b) (\<lambda>_. bind_step (create_file InstallName ?i) (\<lambda>_.
      handle (install_copy (uj_Env j) (commit (uj_Env j)) source (uj_Digest j) (uj_Mode j)) (\<lambda>r.
      handle plain_call (\<lambda>_. handle (if isl r then remove_path InstallName else result ()) (\<lambda>_ w. Finished r w)))))) (outcome_of j)"
    for b source
    by (intro keep_check keep_bind [OF create] copied) (auto simp: stage_kept)
  show ?thesis
    unfolding replaceUnixExecutable_def case_prod_beta
    by (intro keep_bind [OF firm_looks(1)] plain_deferred keep_bind [OF firm_looks(2)] checked) (auto simp: stage_kept)
qed

end

interpretation linux: unix_commit commitAuthenticatedUnixReplacement
  by unfold_locales (rule linux_commit_outcome)

interpretation bsd: unix_commit commitAuthenticatedUnixReplacementByCopy
  by unfold_locales (rule copy_commit_outcome)

section \<open>Undisturbed runs\<close>

lemma bind_run:
  "bind_step m k w = (case m w of Stopped s \<Rightarrow> Stopped s
     | Finished r w1 \<Rightarrow> (case r of Inl e \<Rightarrow> Finished (Inl e) w1 | Inr x \<Rightarrow> k x w1))"
  by (auto simp: bind_step_def handle_def failure_def split: run.split sum.split)

lemma handle_run: "handle m k w = (case m w of Stopped s \<Rightarrow> Stopped s | Finished r w1 \<Rightarrow> k r w1)"
  by (simp add: handle_def)

lemmas runs = bind_run handle_run deferring_def calm_steps

lemma copy_run:
  assumes "limit \<noteq> 0" and c: "c = take (min copy_chunk limit) (drop (length acc) (uo_Bytes (ux_Object s i)))"
  shows "copy_limited i dest limit acc (calm s) =
    (if c = [] then Finished (Inr acc) (calm s)
     else copy_limited i dest (limit - length c) (acc @ c)
       (calm (case dest of None \<Rightarrow> s | Some d \<Rightarrow> put_bytes d (length acc) c s)))"
proof -
  have "take limit c = c" by (simp add: c)
  then show ?thesis
    by (subst copy_limited.simps) (auto simp: assms(1) runs read_chunk_def write_chunk_def Let_def simp flip: c split: option.split)
qed

lemma chunk_facts:
  assumes "acc = take (length acc) b" "limit \<noteq> 0"
  obtains c where "c = take (min copy_chunk limit) (drop (length acc) b)" "length c \<le> limit"
    "acc @ c = take (length (acc @ c)) b" "c = [] \<longrightarrow> take (length acc + limit) b = acc"
proof
  let ?c = "take (min copy_chunk limit) (drop (length acc) b)"
  show "?c = ?c" "length ?c \<le> limit" by simp_all
  have "take (length ?c) (drop (length acc) b) = ?c" by (simp add: min_def)
  with assms(1) take_add [of "length acc" "length ?c" b] show "acc @ ?c = take (length (acc @ ?c)) b"
    unfolding length_append by metis
  show "?c = [] \<longrightarrow> take (length acc + limit) b = acc"
    using assms by (auto simp: copy_chunk_def min_def split: if_splits)
qed

lemma copy_calm:
  assumes "acc = take (length acc) (uo_Bytes (ux_Object s i))"
  shows "copy_limited i None limit acc (calm s) = Finished (Inr (take (length acc + limit) (uo_Bytes (ux_Object s i)))) (calm s)"
  using assms
proof (induction limit arbitrary: acc rule: less_induct)
  case (less limit)
  show ?case
  proof (cases "limit = 0")
    case False
    obtain c where c: "c = take (min copy_chunk limit) (drop (length acc) (uo_Bytes (ux_Object s i)))" "length c \<le> limit"
      "acc @ c = take (length (acc @ c)) (uo_Bytes (ux_Object s i))"
      "c = [] \<longrightarrow> take (length acc + limit) (uo_Bytes (ux_Object s i)) = acc"
      by (rule chunk_facts [OF less.prems False])
    show ?thesis
    proof (cases "c = []")
      case True
      then show ?thesis using c(4) by (simp add: copy_run [OF False c(1)])
    next
      case nonempty: False
      then have "limit - length c < limit" using False by (simp add: diff_less)
      from less.IH [OF this c(3)] c(2) show ?thesis by (simp add: copy_run [OF False c(1)] nonempty)
    qed
  qed (use less.prems in \<open>simp add: runs\<close>)
qed

lemma put_bytes_end: "uo_Bytes (ux_Object s d) = acc \<Longrightarrow>
  put_bytes d (length acc) c s = put_object d ((ux_Object s d)\<lparr>uo_Bytes := acc @ c\<rparr>) s"
  by (simp add: put_bytes_def write_at_def)

lemma put_object_simps [simp]:
  "ux_Object (put_object d obj s) = (ux_Object s)(d := obj)" "ux_Name (put_object d obj s) = ux_Name s"
  "put_object d obj (put_object d obj' s) = put_object d obj s" "ux_Seen (put_object d obj s) = ux_Seen s"
  "ux_DirMode (put_object d obj s) = ux_DirMode s" "ux_DirPath (put_object d obj s) = ux_DirPath s"
  by (simp_all add: put_object_def)

lemma copy_to_calm:
  assumes "acc = take (length acc) (uo_Bytes (ux_Object s i))" "i \<noteq> d" "uo_Bytes (ux_Object s d) = acc"
  shows "copy_limited i (Some d) limit acc (calm s) =
    Finished (Inr (take (length acc + limit) (uo_Bytes (ux_Object s i))))
      (calm (put_object d ((ux_Object s d)\<lparr>uo_Bytes := take (length acc + limit) (uo_Bytes (ux_Object s i))\<rparr>) s))"
  using assms(1,3)
proof (induction limit arbitrary: acc s rule: less_induct)
  case (less limit)
  have same: "put_object d ((ux_Object s d)\<lparr>uo_Bytes := acc\<rparr>) s = s"
    using less.prems(2) by (simp add: put_object_def flip: less.prems(2))
  show ?case
  proof (cases "limit = 0")
    case True
    then show ?thesis using less.prems(1) same by (simp add: runs)
  next
    case False
    obtain c where c: "c = take (min copy_chunk limit) (drop (length acc) (uo_Bytes (ux_Object s i)))" "length c \<le> limit"
      "acc @ c = take (length (acc @ c)) (uo_Bytes (ux_Object s i))"
      "c = [] \<longrightarrow> take (length acc + limit) (uo_Bytes (ux_Object s i)) = acc"
      by (rule chunk_facts [OF less.prems(1) False])
    let ?s = "put_object d ((ux_Object s d)\<lparr>uo_Bytes := acc @ c\<rparr>) s"
    show ?thesis
    proof (cases "c = []")
      case True
      then show ?thesis using c(4) same by (simp add: copy_run [OF False c(1)])
    next
      case nonempty: False
      then have "limit - length c < limit" using False by (simp add: diff_less)
      moreover have "uo_Bytes (ux_Object ?s i) = uo_Bytes (ux_Object s i)" "uo_Bytes (ux_Object ?s d) = acc @ c"
        using assms(2) by simp_all
      moreover have "length (acc @ c) + (limit - length c) = length acc + limit" using c(2) by simp
      ultimately have "copy_limited i (Some d) (limit - length c) (acc @ c) (calm ?s) =
        Finished (Inr (take (length acc + limit) (uo_Bytes (ux_Object s i))))
          (calm (put_object d ((ux_Object ?s d)\<lparr>uo_Bytes := take (length acc + limit) (uo_Bytes (ux_Object s i))\<rparr>) ?s))"
        using less.IH [of "limit - length c" "acc @ c" ?s] c(3) by metis
      then show ?thesis
        by (simp add: copy_run [OF False c(1)] nonempty put_bytes_end [OF less.prems(2)])
    qed
  qed
qed

definition sound :: "unix_job \<Rightarrow> nat \<Rightarrow> unix_fs \<Rightarrow> bool" where
  "sound j x s \<longleftrightarrow> uo_Kind (ux_Object s x) = RegularFile
     \<and> un_sha (uj_Env j) (uo_Bytes (ux_Object s x)) = uj_Digest j \<and> length (uo_Bytes (ux_Object s x)) \<le> maxBinary
     \<and> uo_Mode (ux_Object s x) = uj_Mode j"

lemma authenticate_calm:
  assumes "sound j x s" "link_count s x = k"
  shows "authenticateUnixReplacement (uj_Env j) x (uj_Digest j) (uj_Mode j) k (calm s) = Finished (Inr ()) (calm s)"
  using assms copy_calm [of "[]" s x "maxBinary + 1"]
  by (simp add: authenticateUnixReplacement_def runs stat_object_def sound_def)

lemma sound_names [simp]:
  "sound j x (s\<lparr>ux_Name := f\<rparr>) = sound j x s" "sound j x (s\<lparr>ux_Seen := v\<rparr>) = sound j x s"
  "sound j x (bind_name n i s) = sound j x s" "sound j x (s\<lparr>ux_DirMode := m\<rparr>) = sound j x s"
  by (simp_all add: sound_def)

lemmas calls = lookup_name_def stat_object_def lstat_name_def stat_target_def create_file_def chmod_object_def
  link_object_def link_name_def unlink_name_def rename_name_def remove_path_def make_directory_def remove_directory_def

lemma canonical_calm:
  assumes "sound j x s" "link_count s x = 1" "ux_Name s TargetName = Some x"
  shows "authenticateCanonicalUnixReplacement (uj_Env j) x (uj_Digest j) (uj_Mode j) (calm s)
    = Finished (Inr ()) (calm (s\<lparr>ux_Seen := Some x # ux_Seen s\<rparr>))"
  using assms authenticate_calm [OF assms(1,2)]
  by (simp add: authenticateCanonicalUnixReplacement_def runs stat_target_def sound_def)

lemma link_count_seen [simp]: "link_count (s\<lparr>ux_Seen := v\<rparr>) = link_count s"
  by (simp add: link_count_def fun_eq_iff)

lemma commit_verified_calm:
  assumes "sound j x s" "uo_OtherLinks (ux_Object s x) = 0" "uo_Kind (ux_Object s i) = RegularFile" "x \<noteq> i" "t \<noteq> x" "t \<noteq> i"
    and names: "ux_Name s = [TargetName \<mapsto> i, StagedName \<mapsto> t, CommitEntry \<mapsto> x]"
  shows "commitVerifiedUnixEntry (uj_Env j) x (uj_Digest j) (uj_Mode j) (calm s)
    = Finished (Inr ()) (calm (s\<lparr>ux_Name := [TargetName \<mapsto> x, StagedName \<mapsto> t], ux_Seen := Some x # Some x # ux_Seen s\<rparr>))"
proof -
  let ?s = "s\<lparr>ux_Name := [TargetName \<mapsto> x, StagedName \<mapsto> t, RollbackEntry \<mapsto> i]\<rparr>"
  have moved: "bind_name TargetName (Some x) (bind_name CommitEntry None (bind_name RollbackEntry (Some i) s)) = ?s"
    by (simp add: bind_name_def names fun_eq_iff)
  have twice: "sound j x ?s" "link_count ?s x = 1" "ux_Name ?s TargetName = Some x"
    "sound j x (?s\<lparr>ux_Seen := v\<rparr>)" "link_count (?s\<lparr>ux_Seen := v\<rparr>) x = 1" "ux_Name (?s\<lparr>ux_Seen := v\<rparr>) TargetName = Some x" for v
    using assms by (simp_all add: link_count_def unix_names_def)
  have end_state: "bind_name RollbackEntry None (?s\<lparr>ux_Seen := v\<rparr>) = s\<lparr>ux_Name := [TargetName \<mapsto> x, StagedName \<mapsto> t], ux_Seen := v\<rparr>" for v
    by (simp add: bind_name_def fun_eq_iff)
  have "uo_Kind (ux_Object s x) = RegularFile" using assms(1) by (simp add: sound_def)
  with assms(3-6) show ?thesis
    by (simp add: commitVerifiedUnixEntry_def commit_over_original_def removeUnixCommitEntry_def runs calls names moved
        canonical_calm [OF twice(1-3)] canonical_calm [OF twice(4-6)] end_state link_count_def unix_names_def)
qed

text \<open>The environment of an undisturbed run.\<close>

definition ordinary :: "unix_env \<Rightarrow> bool" where
  "ordinary e \<longleftrightarrow> un_Siblings e \<and> un_Descriptors e \<and> un_DirMode e = 448"

lemma bind_name_none: "ux_Name s n = None \<Longrightarrow> bind_name n None s = s"
  by (simp add: bind_name_def fun_upd_idem)

lemma sound_directory [simp]:
  "sound j x (s\<lparr>ux_Name := f, ux_DirMode := d, ux_DirPath := p\<rparr>) = sound j x s"
  by (simp add: sound_def)

lemma linux_commit_calm:
  assumes x: "sound j x s" "uo_OtherLinks (ux_Object s x) = 0" and kind: "uo_Kind (ux_Object s i) = RegularFile"
    and distinct: "x \<noteq> i" "t \<noteq> x" "t \<noteq> i" and e: "ordinary (uj_Env j)"
    and names: "ux_Name s = [TargetName \<mapsto> i, StagedName \<mapsto> t, InstallName \<mapsto> x]"
  shows "commitAuthenticatedUnixReplacement (uj_Env j) x (uj_Digest j) (uj_Mode j) (calm s)
    = Finished (Inr ()) (calm (s\<lparr>ux_DirPath := True, ux_Name := [TargetName \<mapsto> x, StagedName \<mapsto> t],
        ux_Seen := Some x # Some x # ux_Seen s, ux_DirMode := None\<rparr>))"
proof -
  let ?s = "s\<lparr>ux_Name := [TargetName \<mapsto> i, StagedName \<mapsto> t, CommitEntry \<mapsto> x], ux_DirMode := Some 448, ux_DirPath := True\<rparr>"
  let ?d = "s\<lparr>ux_DirMode := Some 448, ux_DirPath := True\<rparr>"
  have made: "bind_name CommitEntry None (bind_name RollbackEntry None (bind_name DiscardedEntry None ?d)) = ?d"
    by (simp add: bind_name_none names)
  have bound: "bind_name InstallName None (bind_name CommitEntry (Some x) ?d) = ?s"
    by (simp add: bind_name_def names fun_eq_iff)
  have s: "sound j x ?s" "link_count ?s x = 1"
    using x distinct by (simp_all add: link_count_def unix_names_def)
  note commit = commit_verified_calm [of j x ?s i t]
  have "uo_Kind (ux_Object s x) = RegularFile" using x by (simp add: sound_def)
  with assms show ?thesis
    by (simp add: commitAuthenticatedUnixReplacement_def in_commit_directory_def discard_entry_def require_install_path_def
        runs calls made bound authenticate_calm [OF s] commit ordinary_def link_count_def unix_names_def del: One_nat_def)
qed

lemma copy_commit_calm:
  assumes x: "sound j x s" "uo_OtherLinks (ux_Object s x) = 0" and kind: "uo_Kind (ux_Object s i) = RegularFile"
    and distinct: "x \<noteq> i" "t \<noteq> x" "t \<noteq> i" "c \<noteq> x" "c \<noteq> i" "c \<noteq> t" and e: "ordinary (uj_Env j)" "un_Copy (uj_Env j) = c"
    and names: "ux_Name s = [TargetName \<mapsto> i, StagedName \<mapsto> t, InstallName \<mapsto> x]"
  shows "commitAuthenticatedUnixReplacementByCopy (uj_Env j) x (uj_Digest j) (uj_Mode j) (calm s)
    = Finished (Inr ()) (calm (s\<lparr>ux_DirPath := True, ux_Object := (ux_Object s)(c := (ux_Object s x)),
        ux_Name := [TargetName \<mapsto> c, StagedName \<mapsto> t], ux_Seen := Some c # Some c # ux_Seen s, ux_DirMode := None\<rparr>))"
proof -
  let ?d = "s\<lparr>ux_DirMode := Some 448, ux_DirPath := True\<rparr>"
  let ?n = "[TargetName \<mapsto> i, StagedName \<mapsto> t, InstallName \<mapsto> x, CommitEntry \<mapsto> c]"
  let ?o = "(ux_Object s)(c := ux_Object s x)"
  let ?s = "?d\<lparr>ux_Name := ?n, ux_Object := ?o\<rparr>" and ?u = "?d\<lparr>ux_Name := [TargetName \<mapsto> i, StagedName \<mapsto> t, CommitEntry \<mapsto> c], ux_Object := ?o\<rparr>"
  have made: "bind_name CommitEntry None (bind_name RollbackEntry None (bind_name DiscardedEntry None ?d)) = ?d"
    by (simp add: bind_name_none names)
  let ?f = "\<lparr>uo_Kind = RegularFile, uo_Bytes = [], uo_Mode = 384, uo_OtherLinks = 0\<rparr>"
  let ?c = "bind_name CommitEntry (Some c) (put_object c ?f ?d)"
  have bytes: "take (maxBinary + 1) (uo_Bytes (ux_Object s x)) = uo_Bytes (ux_Object s x)" using x by (simp add: sound_def)
  have copied: "copy_limited x (Some c) (maxBinary + 1) [] (calm ?c) = Finished (Inr (uo_Bytes (ux_Object s x)))
      (calm (put_object c (?f\<lparr>uo_Bytes := uo_Bytes (ux_Object s x)\<rparr>) ?c))"
    using copy_to_calm [of "[]" ?c x c "maxBinary + 1"] distinct bytes by (simp add: bind_name_def put_object_def)
  let ?g = "\<lparr>uo_Kind = RegularFile, uo_Bytes = uo_Bytes (ux_Object s x), uo_Mode = uj_Mode j, uo_OtherLinks = 0\<rparr>"
  have "ux_Object s x = ?g"
    using x by (cases "ux_Object s x") (simp add: sound_def)
  then have complete: "put_object c ?g ?c = ?s"
    by (simp add: put_object_def bind_name_def names)
  have first: "sound j x s" "link_count s x = 1"
    using x distinct by (simp_all add: link_count_def unix_names_def names)
  have s: "sound j c ?s" "link_count ?s c = 1"
    using x distinct by (simp_all add: link_count_def unix_names_def sound_def)
  have unlinked: "bind_name InstallName None ?s = ?u"
    by (simp add: bind_name_def fun_eq_iff)
  have u: "sound j x ?u" "link_count ?u x = 0" "sound j c ?u" "link_count ?u c = 1"
    using x distinct by (simp_all add: link_count_def unix_names_def sound_def)
  have commit: "commitVerifiedUnixEntry (uj_Env j) c (uj_Digest j) (uj_Mode j) (calm ?u)
    = Finished (Inr ()) (calm (?u\<lparr>ux_Name := [TargetName \<mapsto> c, StagedName \<mapsto> t], ux_Seen := Some c # Some c # ux_Seen ?u\<rparr>))"
    by (rule commit_verified_calm [OF u(3), of i t]) (use x kind distinct in auto)
  have kinds: "uo_Kind (ux_Object s x) = RegularFile" and sha: "un_sha (uj_Env j) (uo_Bytes (ux_Object s x)) = uj_Digest j"
    and len: "length (uo_Bytes (ux_Object s x)) \<le> maxBinary" using x by (simp_all add: sound_def)
  show ?thesis
    using assms kinds sha len
    by (simp add: commitAuthenticatedUnixReplacementByCopy_def in_commit_directory_def discard_entry_def require_install_path_def
        runs calls made copied complete unlinked authenticate_calm [OF first] authenticate_calm [OF s]
        authenticate_calm [OF u(1,2)] authenticate_calm [OF u(3,4)] commit ordinary_def del: One_nat_def)
qed

text \<open>Everything before the commit; the commit continues from the authenticated copy.\<close>

lemma replace_calm:
  fixes j :: unix_job
  assumes staged: "uo_Kind (ux_Object s t) = RegularFile" "un_sha (uj_Env j) (uo_Bytes (ux_Object s t)) = uj_Digest j"
      "length (uo_Bytes (ux_Object s t)) \<le> maxBinary"
    and distinct: "t \<noteq> i" "x \<noteq> i" "x \<noteq> t" and x: "x = un_Install (uj_Env j)"
    and names: "ux_Name s = [TargetName \<mapsto> i, StagedName \<mapsto> t]"
    and commit: "commit x (uj_Digest j) (uj_Mode j) (calm (s\<lparr>ux_Name := [TargetName \<mapsto> i, StagedName \<mapsto> t, InstallName \<mapsto> x],
      ux_Object := (ux_Object s)(x := \<lparr>uo_Kind = RegularFile, uo_Bytes = uo_Bytes (ux_Object s t), uo_Mode = uj_Mode j, uo_OtherLinks = 0\<rparr>)\<rparr>))
      = Finished (Inr ()) (calm s')"
  shows "replaceUnixExecutable (uj_Env j) commit (uj_Digest j) (uj_Mode j) (calm s) = Finished (Inr ()) (calm s')"
proof -
  let ?b = "uo_Bytes (ux_Object s t)"
  let ?f = "\<lambda>b m. \<lparr>uo_Kind = RegularFile, uo_Bytes = b, uo_Mode = m, uo_OtherLinks = 0\<rparr>"
  let ?s = "\<lambda>b m. s\<lparr>ux_Name := [TargetName \<mapsto> i, StagedName \<mapsto> t, InstallName \<mapsto> x], ux_Object := (ux_Object s)(x := ?f b m)\<rparr>"
  have created: "bind_name InstallName (Some x) (put_object x (?f [] 384) s) = ?s [] 384"
    by (simp add: bind_name_def put_object_def names)
  have bytes: "take (maxBinary + 1) ?b = ?b" using staged by simp
  have copied: "copy_limited t (Some x) (maxBinary + 1) [] (calm (?s [] 384)) = Finished (Inr ?b) (calm (?s ?b 384))"
    using copy_to_calm [of "[]" "?s [] 384" t x "maxBinary + 1"] distinct bytes by (simp add: put_object_def)
  have reread: "copy_limited x None (maxBinary + 1) [] (calm (?s ?b m)) = Finished (Inr ?b) (calm (?s ?b m))" for m
    using copy_calm [of "[]" "?s ?b m" x "maxBinary + 1"] bytes by simp
  have chmod: "put_object x (?f ?b (uj_Mode j)) (?s ?b 384) = ?s ?b (uj_Mode j)"
    by (simp add: put_object_def)
  have s: "sound j x (?s ?b (uj_Mode j))" "link_count (?s ?b m) x = 1" for m
    using staged distinct by (simp_all add: sound_def link_count_def unix_names_def)
  note authenticated = authenticate_calm [OF s]
  show ?thesis
    unfolding replaceUnixExecutable_def install_copy_def Let_def require_install_path_def x [symmetric]
    using staged distinct
    by (simp add: runs calls names created copied reread chmod s(2) authenticated commit del: One_nat_def)
qed

text \<open>What an undisturbed update finds at its start.\<close>

definition prepared :: "unix_job \<Rightarrow> nat \<Rightarrow> unix_fs \<Rightarrow> bool" where
  "prepared j t s \<longleftrightarrow> proper j \<and> ordinary (uj_Env j) \<and> t \<noteq> uj_Original j \<and> t \<notin> made_by j
     \<and> ux_Name s = [TargetName \<mapsto> uj_Original j, StagedName \<mapsto> t]
     \<and> uo_Kind (ux_Object s (uj_Original j)) = RegularFile \<and> uo_Kind (ux_Object s t) = RegularFile
     \<and> un_sha (uj_Env j) (uo_Bytes (ux_Object s t)) = uj_Digest j \<and> length (uo_Bytes (ux_Object s t)) \<le> maxBinary"

lemma linux_replace_calm:
  assumes "prepared j t s"
  shows "\<exists>s'. replaceUnixExecutable (uj_Env j) (commitAuthenticatedUnixReplacement (uj_Env j)) (uj_Digest j) (uj_Mode j) (calm s)
      = Finished (Inr ()) (calm s')
    \<and> ux_Name s' = [TargetName \<mapsto> un_Install (uj_Env j), StagedName \<mapsto> t] \<and> ux_DirMode s' = None
    \<and> ux_Object s' (un_Install (uj_Env j))
        = \<lparr>uo_Kind = RegularFile, uo_Bytes = uo_Bytes (ux_Object s t), uo_Mode = uj_Mode j, uo_OtherLinks = 0\<rparr>"
proof -
  let ?x = "un_Install (uj_Env j)" and ?i = "uj_Original j"
  let ?f = "\<lparr>uo_Kind = RegularFile, uo_Bytes = uo_Bytes (ux_Object s t), uo_Mode = uj_Mode j, uo_OtherLinks = 0\<rparr>"
  let ?s = "s\<lparr>ux_Name := [TargetName \<mapsto> ?i, StagedName \<mapsto> t, InstallName \<mapsto> ?x], ux_Object := (ux_Object s)(?x := ?f)\<rparr>"
  from assms have p: "?x \<noteq> ?i" "t \<noteq> ?x" "t \<noteq> ?i" "ordinary (uj_Env j)"
    by (auto simp: prepared_def proper_def made_by_def)
  have "sound j ?x ?s" using assms by (simp add: prepared_def sound_def)
  from linux_commit_calm [OF this _ _ p] assms p
  have commit: "commitAuthenticatedUnixReplacement (uj_Env j) ?x (uj_Digest j) (uj_Mode j) (calm ?s)
    = Finished (Inr ()) (calm (?s\<lparr>ux_DirPath := True, ux_Name := [TargetName \<mapsto> ?x, StagedName \<mapsto> t],
        ux_Seen := Some ?x # Some ?x # ux_Seen ?s, ux_DirMode := None\<rparr>))"
    by (simp add: prepared_def)
  have "replaceUnixExecutable (uj_Env j) (commitAuthenticatedUnixReplacement (uj_Env j)) (uj_Digest j) (uj_Mode j) (calm s)
    = Finished (Inr ()) (calm (?s\<lparr>ux_DirPath := True, ux_Name := [TargetName \<mapsto> ?x, StagedName \<mapsto> t],
        ux_Seen := Some ?x # Some ?x # ux_Seen ?s, ux_DirMode := None\<rparr>))"
    by (rule replace_calm [where t = t and i = ?i and x = ?x]) (use assms p commit in \<open>simp_all add: prepared_def\<close>)
  then show ?thesis by (intro exI conjI, assumption) simp_all
qed

lemma bsd_replace_calm:
  assumes "prepared j t s"
  shows "\<exists>s'. replaceUnixExecutable (uj_Env j) (commitAuthenticatedUnixReplacementByCopy (uj_Env j)) (uj_Digest j) (uj_Mode j) (calm s)
      = Finished (Inr ()) (calm s')
    \<and> ux_Name s' = [TargetName \<mapsto> un_Copy (uj_Env j), StagedName \<mapsto> t] \<and> ux_DirMode s' = None
    \<and> ux_Object s' (un_Copy (uj_Env j))
        = \<lparr>uo_Kind = RegularFile, uo_Bytes = uo_Bytes (ux_Object s t), uo_Mode = uj_Mode j, uo_OtherLinks = 0\<rparr>"
proof -
  let ?x = "un_Install (uj_Env j)" and ?i = "uj_Original j" and ?c = "un_Copy (uj_Env j)"
  let ?f = "\<lparr>uo_Kind = RegularFile, uo_Bytes = uo_Bytes (ux_Object s t), uo_Mode = uj_Mode j, uo_OtherLinks = 0\<rparr>"
  let ?s = "s\<lparr>ux_Name := [TargetName \<mapsto> ?i, StagedName \<mapsto> t, InstallName \<mapsto> ?x], ux_Object := (ux_Object s)(?x := ?f)\<rparr>"
  from assms have p: "?x \<noteq> ?i" "t \<noteq> ?x" "t \<noteq> ?i" "?c \<noteq> ?x" "?c \<noteq> ?i" "?c \<noteq> t" "ordinary (uj_Env j)"
    by (auto simp: prepared_def proper_def made_by_def)
  have "sound j ?x ?s" using assms by (simp add: prepared_def sound_def)
  from copy_commit_calm [OF this _ _ p refl] assms p
  have commit: "commitAuthenticatedUnixReplacementByCopy (uj_Env j) ?x (uj_Digest j) (uj_Mode j) (calm ?s)
    = Finished (Inr ()) (calm (?s\<lparr>ux_DirPath := True, ux_Object := (ux_Object ?s)(?c := (ux_Object ?s ?x)),
        ux_Name := [TargetName \<mapsto> ?c, StagedName \<mapsto> t], ux_Seen := Some ?c # Some ?c # ux_Seen ?s, ux_DirMode := None\<rparr>))"
    by (simp add: prepared_def)
  have "replaceUnixExecutable (uj_Env j) (commitAuthenticatedUnixReplacementByCopy (uj_Env j)) (uj_Digest j) (uj_Mode j) (calm s)
    = Finished (Inr ()) (calm (?s\<lparr>ux_DirPath := True, ux_Object := (ux_Object ?s)(?c := (ux_Object ?s ?x)),
        ux_Name := [TargetName \<mapsto> ?c, StagedName \<mapsto> t], ux_Seen := Some ?c # Some ?c # ux_Seen ?s, ux_DirMode := None\<rparr>))"
    by (rule replace_calm [where t = t and i = ?i and x = ?x]) (use assms p commit in \<open>simp_all add: prepared_def\<close>)
  then show ?thesis by (intro exI conjI, assumption) simp_all
qed

section \<open>A concrete update\<close>

definition unix_commits :: "unix_env \<Rightarrow> (nat \<Rightarrow> bytes \<Rightarrow> nat \<Rightarrow> (unix_fs, unit) prog) set" where
  "unix_commits e = {commitAuthenticatedUnixReplacement e, commitAuthenticatedUnixReplacementByCopy e}"

definition demo_unix :: "bool \<Rightarrow> unix_job" where
  "demo_unix quiet = \<lparr>uj_Env = \<lparr>un_sha = id, un_Install = 2, un_Copy = 3, un_DirMode = 448, un_Descriptors = True, un_Siblings = True\<rparr>,
     uj_Digest = [7], uj_Mode = 493, uj_Original = 0,
     uj_Object = \<lparr>uo_Kind = RegularFile, uo_Bytes = [1], uo_Mode = 493, uo_OtherLinks = 0\<rparr>, uj_Quiet = quiet\<rparr>"

definition demo_unix_fs :: unix_fs where
  "demo_unix_fs = \<lparr>ux_Name = [TargetName \<mapsto> 0, StagedName \<mapsto> 1],
     ux_Object = (\<lambda>i. if i = 0 then uj_Object (demo_unix True)
       else \<lparr>uo_Kind = RegularFile, uo_Bytes = [7], uo_Mode = 384, uo_OtherLinks = 0\<rparr>),
     ux_DirMode = None, ux_DirPath = False, ux_Seen = []\<rparr>"

lemma demo_proper: "proper (demo_unix q)"
  by (simp add: proper_def made_by_def demo_unix_def)

lemma demo_prepared: "prepared (demo_unix q) 1 demo_unix_fs"
  by (simp add: prepared_def demo_proper) (simp add: demo_unix_def demo_unix_fs_def ordinary_def made_by_def maxBinary_def)

lemma keeps_to_id: "list_all (\<lambda>x. fst x = id) steps \<Longrightarrow> keeps_to (others j) steps"
  by (auto simp: keeps_to_def list_all_iff)

section \<open>Properties\<close>

lemma unix_outcome:
  assumes "proper j" "commit \<in> unix_commits (uj_Env j)"
  shows "triple j (in_place j) (replaceUnixExecutable (uj_Env j) commit (uj_Digest j) (uj_Mode j)) (outcome_of j)"
  using assms linux.replace_outcome bsd.replace_outcome by (auto simp: unix_commits_def)

text \<open>
  C5. While nobody else touches the executable, but others may rename, link and write everything else in its
  directory, whatever call of the replacement fails or is the last one: the original is unchanged and still at the
  executable's name or at its private link, or a verified replacement is in place; a reported failure leaves the
  original at one of its names, a success a verified replacement at the executable's name.
\<close>

theorem unix_update_never_loses_the_executable:
  assumes "proper j" "uj_Quiet j" "commit \<in> unix_commits (uj_Env j)"
    and "ux_Name (sw_State w) TargetName = Some (uj_Original j)" "original_kept j (sw_State w)"
    and "keeps_to (others j) (sw_Schedule w)"
  shows "case replaceUnixExecutable (uj_Env j) commit (uj_Digest j) (uj_Mode j) w of
      Stopped s \<Rightarrow> original_kept j s \<and> (ux_Name s TargetName = Some (uj_Original j)
        \<or> ux_Name s RollbackEntry = Some (uj_Original j) \<or> (\<exists>i. verified j i s \<and> ux_Name s TargetName = Some i))
    | Finished (Inl _) w' \<Rightarrow> original_kept j (sw_State w') \<and> (ux_Name (sw_State w') TargetName = Some (uj_Original j)
        \<or> ux_Name (sw_State w') RollbackEntry = Some (uj_Original j))
    | Finished (Inr _) w' \<Rightarrow> \<exists>i. verified j i (sw_State w') \<and> ux_Name (sw_State w') TargetName = Some i"
proof -
  have start: "in_place j (sw_State w)" using assms(4,5) by (simp add: in_place_def)
  note outcome = unix_outcome [OF assms(1,3)]
  show ?thesis
  proof (cases "replaceUnixExecutable (uj_Env j) commit (uj_Digest j) (uj_Mode j) w")
    case (Stopped s)
    from valid_stopped [OF outcome start assms(6) this] Stopped assms(2) show ?thesis by (simp add: unlost_def)
  next
    case (Finished r w')
    from valid_finished [OF outcome start assms(6) this] Finished assms(2) show ?thesis
      by (cases r) (auto simp: kept_def installed_def)
  qed
qed

theorem unix_update_never_loses_the_executable_witness:
  "case replaceUnixExecutable (uj_Env (demo_unix True)) (commitAuthenticatedUnixReplacement (uj_Env (demo_unix True)))
      (uj_Digest (demo_unix True)) (uj_Mode (demo_unix True))
      \<lparr>sw_State = demo_unix_fs, sw_Schedule = replicate 60 (id, Works) @ [(id, Fails), (id, Works), (id, Stops)]\<rparr> of
      Stopped s \<Rightarrow> original_kept (demo_unix True) s \<and> (ux_Name s TargetName = Some (uj_Original (demo_unix True))
        \<or> ux_Name s RollbackEntry = Some (uj_Original (demo_unix True))
        \<or> (\<exists>i. verified (demo_unix True) i s \<and> ux_Name s TargetName = Some i))
    | Finished (Inl _) w' \<Rightarrow> original_kept (demo_unix True) (sw_State w')
        \<and> (ux_Name (sw_State w') TargetName = Some (uj_Original (demo_unix True))
          \<or> ux_Name (sw_State w') RollbackEntry = Some (uj_Original (demo_unix True)))
    | Finished (Inr _) w' \<Rightarrow> \<exists>i. verified (demo_unix True) i (sw_State w') \<and> ux_Name (sw_State w') TargetName = Some i"
  by (rule unix_update_never_loses_the_executable [OF demo_proper])
    (auto simp: unix_commits_def demo_unix_def demo_unix_fs_def original_kept_def list_all_iff intro!: keeps_to_id)

text \<open>
  Even when other processes rename, link or replace everything in the directory, the executable included, the
  replacement reports success only if its last look at the executable's name showed the object that it made itself,
  whose bytes have the authenticated digest and which has the mode of the original.
\<close>

theorem unix_success_was_observed:
  assumes "proper j" "\<not> uj_Quiet j" "commit \<in> unix_commits (uj_Env j)" "keeps_to (others j) (sw_Schedule w)"
    and "replaceUnixExecutable (uj_Env j) commit (uj_Digest j) (uj_Mode j) w = Finished (Inr u) w'"
  shows "\<exists>i seen. verified j i (sw_State w') \<and> ux_Seen (sw_State w') = Some i # seen"
proof -
  have "in_place j (sw_State w)" using assms(2) by (simp add: in_place_def)
  from valid_finished [OF unix_outcome [OF assms(1,3)] this assms(4,5)] show ?thesis
    by (auto simp: outcome_of_def installed_def)
qed

theorem unix_success_was_observed_witness:
  "\<exists>i s seen. verified (demo_unix False) i s \<and> ux_Seen s = Some i # seen"
proof -
  obtain s' where run: "replaceUnixExecutable (uj_Env (demo_unix False)) (commitAuthenticatedUnixReplacementByCopy (uj_Env (demo_unix False)))
      (uj_Digest (demo_unix False)) (uj_Mode (demo_unix False)) (calm demo_unix_fs) = Finished (Inr ()) (calm s')"
    using bsd_replace_calm [OF demo_prepared] by blast
  have quiet: "\<not> uj_Quiet (demo_unix False)" by (simp add: demo_unix_def)
  show ?thesis
    using unix_success_was_observed [OF demo_proper quiet _ _ run]
    by (auto simp: unix_commits_def calm_def keeps_to_def)
qed

text \<open>
  An undisturbed replacement of a verified staged file succeeds with either commit primitive: the executable's
  name names a new object with the staged bytes, the mode of the original and no other link, and no name and no
  directory of the updater is left behind.
\<close>

theorem undisturbed_unix_update_installs:
  assumes "prepared j t s" "commit \<in> unix_commits (uj_Env j)"
  shows "\<exists>i s'. replaceUnixExecutable (uj_Env j) commit (uj_Digest j) (uj_Mode j) (calm s) = Finished (Inr ()) (calm s')
    \<and> ux_Name s' = [TargetName \<mapsto> i, StagedName \<mapsto> t] \<and> ux_DirMode s' = None
    \<and> ux_Object s' i = \<lparr>uo_Kind = RegularFile, uo_Bytes = uo_Bytes (ux_Object s t), uo_Mode = uj_Mode j, uo_OtherLinks = 0\<rparr>"
  using assms(2) linux_replace_calm [OF assms(1)] bsd_replace_calm [OF assms(1)] unfolding unix_commits_def by blast

theorem undisturbed_unix_update_installs_witness:
  "\<exists>i s'. replaceUnixExecutable (uj_Env (demo_unix True)) (commitAuthenticatedUnixReplacement (uj_Env (demo_unix True)))
      (uj_Digest (demo_unix True)) (uj_Mode (demo_unix True)) (calm demo_unix_fs) = Finished (Inr ()) (calm s')
    \<and> ux_Name s' = [TargetName \<mapsto> i, StagedName \<mapsto> 1] \<and> ux_DirMode s' = None
    \<and> ux_Object s' i = \<lparr>uo_Kind = RegularFile, uo_Bytes = uo_Bytes (ux_Object demo_unix_fs 1),
        uo_Mode = uj_Mode (demo_unix True), uo_OtherLinks = 0\<rparr>"
  by (rule undisturbed_unix_update_installs [OF demo_prepared]) (simp add: unix_commits_def)

text \<open>
  A process that stops between the isolation of a refused replacement and the restoration leaves no executable; the
  original keeps its private link, and on Unix no later start restores it.
\<close>

lemma stopped_restoration_leaves_no_executable:
  assumes "ux_Name s TargetName = Some x" "ux_Name s DiscardedEntry = None" "ux_Name s RollbackEntry = Some i"
    and "uo_Kind (ux_Object s x) = RegularFile"
  shows "\<exists>s'. restoreOriginalUnixTarget \<lparr>sw_State = s, sw_Schedule = replicate 3 (id, Works) @ [(id, Stops)]\<rparr> = Stopped s'
    \<and> ux_Name s' TargetName = None \<and> ux_Name s' RollbackEntry = Some i"
  using assms
  by (simp add: restoreOriginalUnixTarget_def removeUnixCommitEntry_def handle_run calls call_def look_def write_call_def
      next_entry_def numeral_3_eq_3 Let_def)

end
