(* ===== verification/Remote_Transfer.thy ===== *)
theory Remote_Transfer
  imports Interfered_Steps Remote_Command
begin

text \<open>
  Uploads of a regular file (\<^verbatim>\<open>internal/ssh/filecopy.go\<close>, \<^verbatim>\<open>resume.go\<close>) and copies between two hosts
  (\<^verbatim>\<open>internal/ssh/copy.go\<close>). A transfer is a local client and a shell script that the client sends to the remote host.
  The scripts are given twice: as the text that is sent, and as the computation that a POSIX shell makes of it, over the
  files of the remote host that it names; every command of the script is a step that may fail or be the last one.
\<close>

section \<open>The text of the commands\<close>

text \<open>\<^verbatim>\<open>%03o\<close> and \<^verbatim>\<open>%04o\<close> of permission bits\<close>

definition octal :: "nat \<Rightarrow> nat \<Rightarrow> string" where
  "octal width n = map (\<lambda>k. digit_char (int (n div 8 ^ k mod 8))) (rev [0..<width])"

definition integrityToolMissingMarker :: string where
  "integrityToolMissingMarker = ''SSM_INTEGRITY_TOOL_MISSING''"

definition remoteSHA256Helpers :: string where
  \<open>remoteSHA256Helpers =
     ''ssm_sha256_tool() { if command -v sha256sum >/dev/null 2>&1; then echo sha256sum; '' @
     ''elif command -v shasum >/dev/null 2>&1; then echo shasum; '' @
     ''elif command -v openssl >/dev/null 2>&1; then echo openssl; else return 1; fi; }; '' @
     ''ssm_sha256() { case "$(ssm_sha256_tool)" in '' @
     ''sha256sum) sha256sum < "$1" | awk '{print $1}';; '' @
     ''shasum) shasum -a 256 < "$1" | awk '{print $1}';; '' @
     ''openssl) openssl dgst -sha256 < "$1" | awk '{print $NF}';; '' @
     ''*) return 127;; esac; }; ''\<close>

definition remoteMkdirParents :: "string \<Rightarrow> nat \<Rightarrow> string" where
  "remoteMkdirParents dir mode = ''(umask '' @ octal 3 (511 - mode mod 512) @ ''; mkdir -p -- '' @ ShellQuote dir @ '')''"

definition tool_guard :: "string \<Rightarrow> string" where
  "tool_guard marker = remoteSHA256Helpers @ ''ssm_sha256_tool >/dev/null || { echo '' @ marker @ ''; exit 69; }; ''"

text \<open>A relative path that begins with a hyphen is no option.\<close>

definition upload_path :: "string \<Rightarrow> string" where
  "upload_path p = (if has_prefix p ''-'' then ''./'' @ p else p)"

definition upload_checks :: "int \<Rightarrow> string \<Rightarrow> string" where
  \<open>upload_checks expected digest =
     ''actual_size=$(wc -c < "$tmp" | tr -d ' ') || exit 74; '' @
     (if 0 \<le> expected then ''[ "$actual_size" = '' @ itoa expected @ '' ] || { echo SSM_INTEGRITY_MISMATCH; exit 65; }; '' else []) @
     (if digest \<noteq> [] then ''actual_sha=$(ssm_sha256 "$tmp") || exit 74; [ "$actual_sha" = '' @ ShellQuote digest @
        '' ] || { echo SSM_INTEGRITY_MISMATCH; exit 65; }; ''
      else ''actual_sha=-; '')\<close>

definition upload_prefix :: "string \<Rightarrow> string \<Rightarrow> nat \<Rightarrow> string" where
  "upload_prefix path digest dirMode =
     ''umask 077; '' @ (if digest \<noteq> [] then tool_guard integrityToolMissingMarker else []) @
     (if RemoteParentDir path \<noteq> [] then remoteMkdirParents (RemoteParentDir path) dirMode @ '' && '' else [])"

definition uploadCommandWithIntegrity :: "string \<Rightarrow> nat \<Rightarrow> int \<Rightarrow> string \<Rightarrow> nat \<Rightarrow> string" where
  \<open>uploadCommandWithIntegrity remotePath mode expected digest dirMode =
     (let path = upload_path remotePath; quotedPath = ShellQuote path in
      upload_prefix path digest dirMode @ ''tmp='' @ quotedPath @ ''.ssm-upload.$$; trap 'rm -f -- "$tmp"' EXIT HUP INT TERM; '' @
      ''cat > "$tmp" && chmod '' @ octal 4 (mode mod 512) @ '' "$tmp" || exit $?; '' @ upload_checks expected digest @
      ''[ -d '' @ quotedPath @ '' ] && { rm -f -- "$tmp"; echo "remote destination '' @ quotedPath @
      '' is a directory" >&2; exit 73; }; mv -f -- "$tmp" '' @ quotedPath @
      '' && trap - EXIT HUP INT TERM && printf 'SSM_TRANSFER %s %s'' @ [CHR 0x5C] @ ''n' "$actual_size" "$actual_sha"'')\<close>

definition downloadCommand :: "string \<Rightarrow> string" where
  "downloadCommand remotePath = ''cat -- '' @ ShellQuote remotePath"

section \<open>The upload script\<close>

datatype remote_node = RemoteFile bytes nat | RemoteDirectory

text \<open>
  The files that the script names: the destination, its own temporary file beside it, and what the variable \<^verbatim>\<open>tmp\<close> of
  the login environment names (nothing when it is not set or names no file).
\<close>

record upload_fs =
  up_Dest :: "remote_node option"
  up_Tmp :: "(bytes \<times> nat) option"
  up_Inherited :: "(bytes \<times> nat) option"
  up_Parent :: bool

record upload_remote =
  ur_sha :: "bytes \<Rightarrow> string"       \<comment> \<open>the hexadecimal SHA-256\<close>
  ur_Tool :: bool
  ur_InheritedSet :: bool           \<comment> \<open>\<^verbatim>\<open>tmp\<close> is set in the login environment\<close>

text \<open>Which file \<^verbatim>\<open>$tmp\<close> names: the assignment is skipped when the creation of the parent directory fails.\<close>

datatype tmp_file = OwnTmp | InheritedTmp

definition get_tmp :: "tmp_file \<Rightarrow> upload_fs \<Rightarrow> (bytes \<times> nat) option" where
  "get_tmp t s = (case t of OwnTmp \<Rightarrow> up_Tmp s | InheritedTmp \<Rightarrow> up_Inherited s)"

definition set_tmp :: "tmp_file \<Rightarrow> (bytes \<times> nat) option \<Rightarrow> upload_fs \<Rightarrow> upload_fs" where
  "set_tmp t v s = (case t of OwnTmp \<Rightarrow> s\<lparr>up_Tmp := v\<rparr> | InheritedTmp \<Rightarrow> s\<lparr>up_Inherited := v\<rparr>)"

text \<open>The exit status and what the script has written to its two outputs.\<close>

type_synonym script_result = "nat \<times> string \<times> string"

definition output_line :: "string \<Rightarrow> string" where "output_line s = s @ [CHR 0x0A]"

definition tmp_usable :: "upload_remote \<Rightarrow> tmp_file \<Rightarrow> bool" where
  "tmp_usable r t = (t = OwnTmp \<or> ur_InheritedSet r)"

text \<open>The trap on exit removes the temporary file.\<close>

definition trap_exit :: "upload_remote \<Rightarrow> tmp_file \<Rightarrow> nat \<Rightarrow> string \<Rightarrow> string \<Rightarrow> (upload_fs, script_result) prog" where
  "trap_exit r t code out err =
     handle (if tmp_usable r t then act (set_tmp t None) else result ()) (\<lambda>_. result (code, out, err))"

definition receipt :: "string \<Rightarrow> string \<Rightarrow> string" where
  "receipt expected sha = output_line (''SSM_TRANSFER '' @ expected @ '' '' @ sha)"

text \<open>
  The part after the checks: a directory is refused, the temporary file is renamed over the destination, and the
  receipt is printed. \<^verbatim>\<open>mv\<close> moves a file into a directory that has appeared in the meantime.
\<close>

definition move_over :: "bytes \<Rightarrow> nat \<Rightarrow> upload_fs \<Rightarrow> upload_fs" where
  "move_over data mode s = (if up_Dest s = Some RemoteDirectory then s else s\<lparr>up_Dest := Some (RemoteFile data mode)\<rparr>)"

definition upload_publish :: "upload_remote \<Rightarrow> tmp_file \<Rightarrow> string \<Rightarrow> string \<Rightarrow> (upload_fs, script_result) prog" where
  "upload_publish r t expected sha =
     handle (look (\<lambda>s. if up_Dest s = Some RemoteDirectory then Inr () else Inl Failed)) (\<lambda>directory.
     if \<not> isl directory then
       handle (act (set_tmp t None)) (\<lambda>_. trap_exit r t 73 [] (output_line ''remote destination is a directory''))
     else handle (call (\<lambda>s. case get_tmp t s of
              None \<Rightarrow> Inl Missing
            | Some (data, mode) \<Rightarrow> Inr ((), move_over data mode (set_tmp t None s))))
       (\<lambda>moved. if isl moved then trap_exit r t 1 [] []
          else handle plain_call (\<lambda>printed. result (if isl printed then (1, [], []) else (0, receipt expected sha, [])))))"

text \<open>A command substitution whose pipeline fails gives the empty text; its status is that of the last command.\<close>

definition upload_checksum :: "upload_remote \<Rightarrow> tmp_file \<Rightarrow> string \<Rightarrow> string \<Rightarrow> (upload_fs, script_result) prog" where
  "upload_checksum r t digest actual_size =
     handle (look (\<lambda>s. case get_tmp t s of None \<Rightarrow> Inl Missing | Some (data, _) \<Rightarrow> Inr (ur_sha r data))) (\<lambda>sum.
       let actual_sha = (case sum of Inl _ \<Rightarrow> [] | Inr d \<Rightarrow> d) in
       if actual_sha \<noteq> digest then trap_exit r t 65 (output_line ''SSM_INTEGRITY_MISMATCH'') []
       else upload_publish r t actual_size actual_sha)"

definition upload_verify :: "upload_remote \<Rightarrow> tmp_file \<Rightarrow> int \<Rightarrow> string \<Rightarrow> (upload_fs, script_result) prog" where
  "upload_verify r t expected digest =
     handle (look (\<lambda>s. case get_tmp t s of None \<Rightarrow> Inl Missing | Some (data, _) \<Rightarrow> Inr (itoa (int (length data))))) (\<lambda>wc.
     let actual_size = (case wc of Inl _ \<Rightarrow> [] | Inr n \<Rightarrow> n) in
     if 0 \<le> expected \<and> actual_size \<noteq> itoa expected then trap_exit r t 65 (output_line ''SSM_INTEGRITY_MISMATCH'') []
     else if digest = [] then upload_publish r t actual_size ''-''
     else upload_checksum r t digest actual_size)"

text \<open>\<open>input\<close> is what arrives before the end of the input; \<^verbatim>\<open>cat\<close> writes a part of it when it is cut short.\<close>

definition upload_receive :: "upload_remote \<Rightarrow> tmp_file \<Rightarrow> nat \<Rightarrow> int \<Rightarrow> string \<Rightarrow> bytes \<Rightarrow> (upload_fs, script_result) prog" where
  "upload_receive r t mode expected digest input =
     (if \<not> tmp_usable r t then trap_exit r t 1 [] []
      else handle
        (bind_step (act (set_tmp t (Some ([], 384)))) (\<lambda>_.
         bind_step (write_call (\<lambda>n. set_tmp t (Some (take n input, 384))) (\<lambda>s. Inr ((), set_tmp t (Some (input, 384)) s))) (\<lambda>_.
         call (\<lambda>s. case get_tmp t s of None \<Rightarrow> Inl Missing | Some (data, _) \<Rightarrow> Inr ((), set_tmp t (Some (data, mode)) s)))))
        (\<lambda>received. if isl received then trap_exit r t 1 [] [] else upload_verify r t expected digest))"

definition upload_script :: "upload_remote \<Rightarrow> string \<Rightarrow> nat \<Rightarrow> int \<Rightarrow> string \<Rightarrow> bytes \<Rightarrow> (upload_fs, script_result) prog" where
  "upload_script r path mode expected digest input =
     handle (if digest = [] then result () else look (\<lambda>_. if ur_Tool r then Inr () else Inl Failed)) (\<lambda>tool.
     if isl tool then result (69, output_line integrityToolMissingMarker, [])
     else if RemoteParentDir (upload_path path) = [] then upload_receive r OwnTmp mode expected digest input
     else handle (act (\<lambda>s. s\<lparr>up_Parent := True\<rparr>)) (\<lambda>made.
       upload_receive r (if isl made then InheritedTmp else OwnTmp) mode expected digest input))"

section \<open>The local side of an upload\<close>

text \<open>The kinds of failure that the transfers report; a failed dial carries the class of \<^verbatim>\<open>ClassifyError\<close>; \<open>DiagnosticsFailed\<close>, \<open>SessionFailed\<close>
  and \<open>PathMissing\<close> are plain errors of the diagnostic spool, of the connection and of the path probe.\<close>

datatype transfer_kind =
    DialClassified | RemoteShellUnsupported | IntegrityToolUnavailable
  | TransferLocalRead | TransferLocalFileStat | TransferRegularFileRequired | TransferIntegritySourceRead
  | TransferSeekableSourceRequired | TransferSessionOpenFailed | TransferStdinOpenFailed | TransferStartFailed
  | TransferTimedOut | TransferRemoteWriteFailed | TransferRemoteCloseFailed | TransferIntegrityMismatch
  | TransferRemotePermissionsFailed | TransferReceiptInvalid
  | ResumeVersionUnsupported | ResumeRegularFileRequired | ResumeSourceReadFailed | ResumeSourceChanged
  | ResumePartialMismatch | ResumeSourceSeekFailed | ResumeStdinOpenFailed | ResumeStartFailed | ResumeTimedOut
  | ResumeRemoteWriteFailed | ResumeRetryFailed | ResumeVerificationToolMissing | ResumeStateChanged
  | ResumeIntegrityMismatch | ResumePublishFailed | ResumeReceiptInvalid | ResumeProbeSessionFailed
  | ResumeStateIncompatible | ResumeProbeFailed | ResumeProbeResponseInvalid
  | TransferDownloadRemoteRead | TransferDownloadLocalWrite | TransferDownloadPublish | TransferDownloadRestoreFailed
  | TransferDownloadIntegrityMismatch | TransferSFTPUnsupported | CopyDirectoryUnsupported | DiagnosticsFailed
  | SessionFailed | PathMissing | RunInterrupted | TransferRemoteExtractFailed
  | TransferDirectorySourceUnsupported | TransferDirectoryOptionsUnsupported

record TransferResult =
  tr_OK :: bool
  tr_Stage :: string
  tr_BytesSent :: int
  tr_BytesReceived :: int
  tr_Integrity :: string
  tr_LocalSHA256 :: string
  tr_RemoteSHA256 :: string
  tr_Resume :: string
  tr_BytesReused :: int

definition initial_result :: "string \<Rightarrow> string \<Rightarrow> TransferResult" where
  "initial_result stage resume =
     \<lparr>tr_OK = False, tr_Stage = stage, tr_BytesSent = 0, tr_BytesReceived = 0, tr_Integrity = ''not_checked'',
      tr_LocalSHA256 = [], tr_RemoteSHA256 = [], tr_Resume = resume, tr_BytesReused = 0\<rparr>"

text \<open>A result with the error beside it, if there is one: its kind and the bytes sent.\<close>

type_synonym outcome = "TransferResult \<times> (transfer_kind \<times> int) option"

text \<open>
  The local file: what its checks say, what the first reading delivers to the digest (None: it fails) and what the
  second reading delivers to the stream.
\<close>

record local_file =
  lf_Opens :: bool
  lf_Stats :: bool
  lf_Regular :: bool
  lf_Size :: nat
  lf_Mode :: nat
  lf_Hashed :: "bytes option"
  lf_Seeks :: bool
  lf_Streamed :: bytes

text \<open>
  The connection: which of its calls fail, how many bytes it takes, how many of them arrive, and whether the exit status
  and the outputs come back; if not, some other text may have come.
\<close>

datatype start_reply = Accepted | Refused | NotStarted

record link =
  lk_Dials :: bool
  lk_Session :: bool
  lk_Stdin :: bool
  lk_Start :: start_reply
  lk_CopyFails :: bool
  lk_Written :: nat
  lk_Arrived :: nat
  lk_CloseFails :: bool
  lk_TimedOut :: bool
  lk_Reports :: bool
  lk_Stray :: "string \<times> string"

datatype session_wait = WaitOk | WaitStatus nat | WaitLost

record session_end =
  se_Wait :: session_wait
  se_Stdout :: string
  se_Stderr :: string

definition lost_session :: "link \<Rightarrow> session_end" where
  "lost_session lk = \<lparr>se_Wait = WaitLost, se_Stdout = fst (lk_Stray lk), se_Stderr = snd (lk_Stray lk)\<rparr>"

definition remote_end :: "link \<Rightarrow> ('s, script_result) run \<Rightarrow> session_end \<times> 's" where
  "remote_end lk r =
     (case r of
        Stopped s \<Rightarrow> (lost_session lk, s)
      | Finished (Inl _) w \<Rightarrow> (lost_session lk, sw_State w)
      | Finished (Inr (code, out, err)) w \<Rightarrow>
          (if lk_Reports lk
           then \<lparr>se_Wait = (if code = 0 then WaitOk else WaitStatus code), se_Stdout = out, se_Stderr = err\<rparr>
           else lost_session lk, sw_State w))"

text \<open>\<^verbatim>\<open>strconv.ParseInt\<close> with base 10 and 64 bits.\<close>

definition parse_int64 :: "string \<Rightarrow> int option" where
  "parse_int64 s =
     (let negative = (take 1 s = ''-''); ds = (if take 1 s \<in> {''-'', ''+''} then drop 1 s else s) in
      if ds = [] then None
      else case digits_value 0 ds of
        None \<Rightarrow> None
      | Some n \<Rightarrow> let v = (if negative then - n else n) in if - (2 ^ 63) \<le> v \<and> v < 2 ^ 63 then Some v else None)"

definition parseUploadReceipt :: "string \<Rightarrow> (int \<times> string) option" where
  "parseUploadReceipt out =
     (case go_fields (trim_space out) of
        [tag, size_text, digest] \<Rightarrow>
          if tag \<noteq> ''SSM_TRANSFER'' then None
          else map_option (\<lambda>n. (n, if digest = ''-'' then [] else digest)) (parse_int64 size_text)
      | _ \<Rightarrow> None)"

definition collectRemoteFirst :: "TransferResult \<Rightarrow> int \<Rightarrow> bool \<Rightarrow> session_end \<Rightarrow> transfer_kind \<Rightarrow> outcome" where
  "collectRemoteFirst res written timedOut e fallback =
     (if timedOut then (res, Some (TransferTimedOut, written))
      else if se_Wait e \<noteq> WaitOk \<and> contains_sub (se_Stdout e) integrityToolMissingMarker
      then (res\<lparr>tr_Stage := ''capability''\<rparr>, Some (IntegrityToolUnavailable, written))
      else if se_Wait e \<noteq> WaitOk \<and> contains_sub (se_Stdout e) ''SSM_INTEGRITY_MISMATCH''
      then (res\<lparr>tr_Stage := ''integrity'', tr_Integrity := ''mismatch''\<rparr>, Some (TransferIntegrityMismatch, written))
      else (res, Some (fallback, written)))"

definition upload_wait_failure :: "TransferResult \<Rightarrow> int \<Rightarrow> bool \<Rightarrow> session_end \<Rightarrow> outcome" where
  "upload_wait_failure res written timedOut e =
     (let message = trim_space (se_Stderr e) in
      if timedOut then (res, Some (TransferTimedOut, written))
      else if contains_sub (se_Stdout e) integrityToolMissingMarker
      then (res\<lparr>tr_Stage := ''capability''\<rparr>, Some (IntegrityToolUnavailable, written))
      else if contains_sub (se_Stdout e) ''SSM_INTEGRITY_MISMATCH''
      then (res\<lparr>tr_Stage := ''integrity'', tr_Integrity := ''mismatch''\<rparr>, Some (TransferIntegrityMismatch, written))
      else if message = [] \<and> se_Wait e = WaitLost then (res, Some (TransferRemoteWriteFailed, written))
      else if contains_sub message ''remote destination'' \<and> contains_sub message ''is a directory''
      then (res, Some (TransferRemoteWriteFailed, written))
      else (res, Some (TransferRemotePermissionsFailed, written)))"

text \<open>The checks of the receipt.\<close>

definition upload_receipt :: "bool \<Rightarrow> int \<Rightarrow> string \<Rightarrow> TransferResult \<Rightarrow> int \<Rightarrow> session_end \<Rightarrow> outcome" where
  "upload_receipt verify size0 digest res written e =
     (let invalid = (res\<lparr>tr_Stage := ''integrity'', tr_Integrity := ''mismatch''\<rparr>, Some (TransferReceiptInvalid, written)) in
      case parseUploadReceipt (se_Stdout e) of
        None \<Rightarrow> invalid
      | Some (remoteSize, remoteDigest) \<Rightarrow>
          if remoteSize \<noteq> size0 \<or> verify \<and> remoteDigest \<noteq> digest then invalid
          else (res\<lparr>tr_OK := True, tr_Stage := ''complete'', tr_RemoteSHA256 := remoteDigest,
                    tr_Integrity := (if verify then ''sha256_verified'' else ''size_verified'')\<rparr>, None))"

text \<open>The checks before the dial: the failure, or the result so far.\<close>

definition upload_local :: "(bytes \<Rightarrow> string) \<Rightarrow> bool \<Rightarrow> local_file \<Rightarrow> outcome + TransferResult" where
  "upload_local sha verify f =
     (let res = initial_result ''local_read'' ''unsupported''; fails = (\<lambda>kind. Inl (res, Some (kind, 0))) in
      if \<not> lf_Opens f then fails TransferLocalRead
      else if \<not> lf_Stats f then fails TransferLocalFileStat
      else if \<not> lf_Regular f then fails TransferRegularFileRequired
      else if \<not> verify then Inr res
      else case lf_Hashed f of
        None \<Rightarrow> fails TransferIntegritySourceRead
      | Some content \<Rightarrow>
          let hashed = res\<lparr>tr_LocalSHA256 := sha content\<rparr> in
          if lf_Seeks f then Inr hashed else Inl (hashed, Some (TransferSeekableSourceRequired, 0)))"

definition upload_outcome :: "bool \<Rightarrow> int \<Rightarrow> string \<Rightarrow> link \<Rightarrow> TransferResult \<Rightarrow> int \<Rightarrow> session_end \<Rightarrow> outcome" where
  "upload_outcome verify size0 digest lk res written e =
     (if lk_CopyFails lk then collectRemoteFirst res written (lk_TimedOut lk) e TransferRemoteWriteFailed
      else if lk_CloseFails lk then collectRemoteFirst res written (lk_TimedOut lk) e TransferRemoteCloseFailed
      else if se_Wait e \<noteq> WaitOk then upload_wait_failure res written (lk_TimedOut lk) e
      else upload_receipt verify size0 digest res written e)"

definition UploadFileWithOptions ::
    "(bytes \<Rightarrow> string) \<Rightarrow> bool \<Rightarrow> local_file \<Rightarrow> link \<Rightarrow> upload_remote \<Rightarrow> string \<Rightarrow> upload_fs step_world \<Rightarrow> outcome \<times> upload_fs" where
  "UploadFileWithOptions sha verify f lk r remotePath w =
     (case upload_local sha verify f of
        Inl failed \<Rightarrow> (failed, sw_State w)
      | Inr res0 \<Rightarrow>
          let res = res0\<lparr>tr_Stage := ''dial''\<rparr>; digest = tr_LocalSHA256 res0 in
          if \<not> lk_Dials lk then ((res, Some (DialClassified, 0)), sw_State w)
          else if \<not> lk_Session lk then ((res, Some (TransferSessionOpenFailed, 0)), sw_State w)
          else if \<not> lk_Stdin lk then ((res, Some (TransferStdinOpenFailed, 0)), sw_State w)
          else if lk_Start lk = Refused then ((res, Some (RemoteShellUnsupported, 0)), sw_State w)
          else if lk_Start lk = NotStarted then ((res, Some (TransferStartFailed, 0)), sw_State w)
          else
            let sent = (if lk_CopyFails lk then take (lk_Written lk) (lf_Streamed f) else lf_Streamed f);
                (e, s) = remote_end lk
                  (upload_script r remotePath (lf_Mode f) (int (lf_Size f)) digest (take (lk_Arrived lk) sent) w);
                written = int (length sent) in
            (upload_outcome verify (int (lf_Size f)) digest lk
               (res\<lparr>tr_Stage := ''remote_write'', tr_BytesSent := written\<rparr>) written e, s))"

end
