(* ===== verification/Resumable_Upload.thy ===== *)
theory Resumable_Upload
  imports Remote_Transfer
begin

text \<open>
  Resumable uploads of version 1 (\<^verbatim>\<open>internal/ssh/resume.go\<close>): a first script that creates or inspects the partial file
  and its metadata beside the destination, and a second one that appends the rest, checks the whole file and renames it.
  Both are given as the computation a POSIX shell makes of them over the files that they name.
\<close>

section \<open>The remote files\<close>

datatype meta_node = MetaText string | MetaOther

text \<open>
  \<open>rf_Inside\<close> is the entry with the name of the partial file inside the destination, when that is a directory.
  \<open>rf_OldPartial\<close> and \<open>rf_OldMeta\<close> say that a file was not modified for more than seven days.
\<close>

record resume_fs =
  rf_Dest :: "remote_node option"
  rf_Inside :: "(bytes \<times> nat) option"
  rf_Partial :: "remote_node option"
  rf_Meta :: "meta_node option"
  rf_MetaTemp :: "string option"
  rf_OldPartial :: bool
  rf_OldMeta :: bool
  rf_Parent :: bool

definition partial_file :: "resume_fs \<Rightarrow> (bytes \<times> nat) option" where
  "partial_file s = (case rf_Partial s of Some (RemoteFile data mode) \<Rightarrow> Some (data, mode) | _ \<Rightarrow> None)"

definition set_partial :: "bytes \<Rightarrow> nat \<Rightarrow> resume_fs \<Rightarrow> resume_fs" where
  "set_partial data mode s = s\<lparr>rf_Partial := Some (RemoteFile data mode), rf_OldPartial := False\<rparr>"

text \<open>A test of the shell, and a command substitution whose last command always succeeds.\<close>

definition test_that :: "('s \<Rightarrow> bool) \<Rightarrow> ('s, bool) prog" where
  "test_that p = handle (look (\<lambda>s. if p s then Inr () else Inl Failed)) (\<lambda>x. result (\<not> isl x))"

definition output_of :: "('s \<Rightarrow> string option) \<Rightarrow> ('s, string) prog" where
  "output_of f = handle (look (\<lambda>s. case f s of None \<Rightarrow> Inl Missing | Some t \<Rightarrow> Inr t))
     (\<lambda>x. result (case x of Inl _ \<Rightarrow> [] | Inr t \<Rightarrow> t))"

definition partial_size :: "resume_fs \<Rightarrow> string option" where
  "partial_size s = map_option (\<lambda>(data, _). itoa (int (length data))) (partial_file s)"

definition partial_sha :: "upload_remote \<Rightarrow> resume_fs \<Rightarrow> string option" where
  "partial_sha r s = map_option (\<lambda>(data, _). ur_sha r data) (partial_file s)"

definition meta_text :: "resume_fs \<Rightarrow> string option" where
  "meta_text s = (case rf_Meta s of Some (MetaText t) \<Rightarrow> Some t | _ \<Rightarrow> None)"

text \<open>The words of an unquoted expansion, for text without patterns.\<close>

definition shell_blank :: "char \<Rightarrow> bool" where
  "shell_blank c = (c = CHR '' '' \<or> c = CHR 0x09 \<or> c = CHR 0x0A)"

function shell_words :: "string \<Rightarrow> string list" where
  "shell_words s =
     (let t = dropWhile shell_blank s in
      if t = [] then [] else takeWhile (\<lambda>c. \<not> shell_blank c) t # shell_words (dropWhile (\<lambda>c. \<not> shell_blank c) t))"
  by pat_completeness auto
termination
proof (relation "measure length", goal_cases)
  case (2 s t)
  then have "\<not> shell_blank (hd t)" "t \<noteq> []" using hd_dropWhile [of shell_blank s] by auto
  then have "length (dropWhile (\<lambda>c. \<not> shell_blank c) t) < length t"
    using length_dropWhile_le [of "\<lambda>c. \<not> shell_blank c" "tl t"] by (cases t) auto
  also have "length t \<le> length s" using 2 length_dropWhile_le [of shell_blank s] by simp
  finally show ?case by simp
qed simp

declare shell_words.simps [simp del]

definition metadata_line :: "nat \<Rightarrow> string \<Rightarrow> string" where
  "metadata_line fullsize digest = ''v1 '' @ itoa (int fullsize) @ '' '' @ digest @ [CHR 0x0A]"

definition metadata_fits :: "nat \<Rightarrow> string \<Rightarrow> string \<Rightarrow> bool" where
  "metadata_fits fullsize digest text = (shell_words text = [''v1'', itoa (int fullsize), digest])"

definition resume_error :: "string \<Rightarrow> string" where
  "resume_error reason = output_line (''SSM_RESUME_ERROR '' @ reason)"

section \<open>The first script\<close>

definition resume_line :: "string \<Rightarrow> string \<Rightarrow> string" where
  "resume_line offset sha = output_line (''SSM_RESUME '' @ offset @ '' '' @ sha)"

definition probe_report :: "upload_remote \<Rightarrow> string \<Rightarrow> (resume_fs, script_result) prog" where
  "probe_report r offset =
     bind_step (output_of (partial_sha r)) (\<lambda>sha.
     handle plain_call (\<lambda>printed. result (if isl printed then (1, [], []) else (0, resume_line offset sha, []))))"

definition probe_existing :: "upload_remote \<Rightarrow> nat \<Rightarrow> string \<Rightarrow> (resume_fs, script_result) prog" where
  "probe_existing r fullsize digest =
     (let incompatible = result (65, resume_error ''incompatible'', []) in
      bind_step (test_that (\<lambda>s. partial_file s \<noteq> None)) (\<lambda>partial.
      bind_step (if partial then test_that (\<lambda>s. meta_text s \<noteq> None) else result False) (\<lambda>meta.
      if \<not> meta then incompatible
      else bind_step (output_of meta_text) (\<lambda>text.
        if \<not> metadata_fits fullsize digest text then incompatible
        else bind_step (output_of partial_size) (\<lambda>offset.
          case parse_int64 offset of
            None \<Rightarrow> incompatible
          | Some n \<Rightarrow> if n \<le> int fullsize then probe_report r offset else incompatible)))))"

definition probe_fresh :: "upload_remote \<Rightarrow> nat \<Rightarrow> string \<Rightarrow> (resume_fs, script_result) prog" where
  "probe_fresh r fullsize digest =
     handle (bind_step (act (set_partial [] 384)) (\<lambda>_. act (\<lambda>s. s))) (\<lambda>created.
     if isl created then result (73, [], [])
     else handle
       (bind_step (write_call (\<lambda>n s. s\<lparr>rf_MetaTemp := Some (take n (metadata_line fullsize digest))\<rparr>)
          (\<lambda>s. Inr ((), s\<lparr>rf_MetaTemp := Some (metadata_line fullsize digest)\<rparr>))) (\<lambda>_.
        bind_step (act (\<lambda>s. s)) (\<lambda>_.
        call (\<lambda>s. case rf_MetaTemp s of
            None \<Rightarrow> Inl Missing
          | Some text \<Rightarrow> Inr ((), s\<lparr>rf_Meta := Some (MetaText text), rf_MetaTemp := None, rf_OldMeta := False\<rparr>)))))
       (\<lambda>described. if isl described then result (73, [], []) else probe_report r ''0''))"

definition expire :: "resume_fs \<Rightarrow> resume_fs" where
  "expire s =
     (let s1 = (if rf_OldPartial s \<and> partial_file s \<noteq> None then s\<lparr>rf_Partial := None\<rparr> else s)
      in if rf_OldMeta s \<and> meta_text s \<noteq> None then s1\<lparr>rf_Meta := None\<rparr> else s1)"

definition probe_script :: "upload_remote \<Rightarrow> nat \<Rightarrow> string \<Rightarrow> (resume_fs, script_result) prog" where
  "probe_script r fullsize digest =
     bind_step (test_that (\<lambda>_. ur_Tool r)) (\<lambda>tool.
     if \<not> tool then result (69, resume_error ''tool_missing'', [])
     else handle (act (\<lambda>s. s\<lparr>rf_Parent := True\<rparr>)) (\<lambda>made.
       if isl made then result (73, [], [])
       else handle (act expire) (\<lambda>_.
         bind_step (test_that (\<lambda>s. rf_Partial s \<noteq> None)) (\<lambda>partial.
         bind_step (if partial then result True else test_that (\<lambda>s. rf_Meta s \<noteq> None)) (\<lambda>existing.
         if existing then probe_existing r fullsize digest else probe_fresh r fullsize digest)))))"

section \<open>The second script\<close>

definition append_publish :: "upload_remote \<Rightarrow> string \<Rightarrow> string \<Rightarrow> (resume_fs, script_result) prog" where
  "append_publish r actual_size actual_sha =
     handle (call (\<lambda>s. case partial_file s of
         None \<Rightarrow> Inl Missing
       | Some (data, mode) \<Rightarrow> Inr ((),
           (if rf_Dest s = Some RemoteDirectory then s\<lparr>rf_Inside := Some (data, mode), rf_Partial := None\<rparr>
            else s\<lparr>rf_Dest := Some (RemoteFile data mode), rf_Partial := None\<rparr>))))
     (\<lambda>moved. if isl moved then result (73, resume_error ''publish_failed'', [])
        else handle (act (\<lambda>s. s\<lparr>rf_Meta := None\<rparr>)) (\<lambda>_.
          handle plain_call (\<lambda>printed. result (if isl printed then (1, [], []) else (0, receipt actual_size actual_sha, [])))))"

definition append_check :: "upload_remote \<Rightarrow> nat \<Rightarrow> string \<Rightarrow> (resume_fs, script_result) prog" where
  "append_check r fullsize digest =
     bind_step (output_of partial_size) (\<lambda>actual_size.
     bind_step (output_of (partial_sha r)) (\<lambda>actual_sha.
     if actual_size = itoa (int fullsize) \<and> actual_sha = digest then append_publish r actual_size actual_sha
     else result (65, resume_error ''digest_mismatch'', [])))"

definition append_rest :: "upload_remote \<Rightarrow> nat \<Rightarrow> nat \<Rightarrow> string \<Rightarrow> bytes \<Rightarrow> (resume_fs, script_result) prog" where
  "append_rest r mode fullsize digest input =
     (let add = (\<lambda>more s. case partial_file s of None \<Rightarrow> set_partial more 420 s | Some (data, m) \<Rightarrow> set_partial (data @ more) m s) in
      handle (write_call (\<lambda>n. add (take n input)) (\<lambda>s. Inr ((), add input s))) (\<lambda>appended.
      if isl appended then result (74, [], [])
      else handle (call (\<lambda>s. case partial_file s of
            None \<Rightarrow> Inl Missing
          | Some (data, _) \<Rightarrow> Inr ((), s\<lparr>rf_Partial := Some (RemoteFile data mode)\<rparr>)))
        (\<lambda>changed. if isl changed then result (73, [], []) else append_check r fullsize digest)))"

definition append_script ::
    "upload_remote \<Rightarrow> nat \<Rightarrow> nat \<Rightarrow> string \<Rightarrow> int \<Rightarrow> string \<Rightarrow> bytes \<Rightarrow> (resume_fs, script_result) prog" where
  "append_script r mode fullsize digest offset prefixDigest input =
     (let state_changed = result (65, resume_error ''state_changed'', []) in
      bind_step (test_that (\<lambda>_. ur_Tool r)) (\<lambda>tool.
      if \<not> tool then result (69, resume_error ''tool_missing'', [])
      else bind_step (test_that (\<lambda>s. partial_file s \<noteq> None)) (\<lambda>partial.
        bind_step (if partial then test_that (\<lambda>s. meta_text s \<noteq> None) else result False) (\<lambda>meta.
        if \<not> meta then state_changed
        else bind_step (output_of meta_text) (\<lambda>text.
          if \<not> metadata_fits fullsize digest text then state_changed
          else bind_step (output_of partial_size) (\<lambda>actual_size.
            if actual_size \<noteq> itoa offset then state_changed
            else bind_step (output_of (partial_sha r)) (\<lambda>prefix_sha.
              if prefix_sha \<noteq> prefixDigest then state_changed
              else append_rest r mode fullsize digest input)))))))"

section \<open>The local side\<close>

text \<open>
  The local file: what each of its readings delivers. \<open>rl_Prefix n\<close> is the reading of the first \<open>n\<close> bytes (None: it
  fails), \<open>rl_Rest n\<close> what is streamed from byte \<open>n\<close> on.
\<close>

record resume_local =
  rl_Opens :: bool
  rl_Regular :: bool                  \<comment> \<open>the file can be examined and is regular\<close>
  rl_Size :: nat
  rl_Mode :: nat
  rl_Hashed :: "bytes option"
  rl_Prefix :: "nat \<Rightarrow> bytes option"
  rl_Seeks :: bool
  rl_Rest :: "nat \<Rightarrow> bytes"

definition resumeProtocolV1 :: string where "resumeProtocolV1 = ''v1''"

record resumeState =
  rst_Offset :: int
  rst_Digest :: string

text \<open>The answer of the first script.\<close>

definition probe_answer :: "nat \<Rightarrow> session_end \<Rightarrow> transfer_kind + resumeState" where
  "probe_answer fullsize e =
     (if se_Wait e \<noteq> WaitOk then
        Inl (if contains_sub (se_Stdout e) ''SSM_RESUME_ERROR tool_missing'' then ResumeVerificationToolMissing
             else if contains_sub (se_Stdout e) ''SSM_RESUME_ERROR incompatible'' then ResumeStateIncompatible
             else ResumeProbeFailed)
      else case go_fields (trim_space (se_Stdout e)) of
        [tag, offset_text, digest] \<Rightarrow>
          if tag \<noteq> ''SSM_RESUME'' then Inl ResumeProbeResponseInvalid
          else (case parse_int64 offset_text of
            None \<Rightarrow> Inl ResumeProbeResponseInvalid
          | Some offset \<Rightarrow>
              if offset < 0 \<or> offset > int fullsize \<or> length digest \<noteq> 64 then Inl ResumeProbeResponseInvalid
              else Inr \<lparr>rst_Offset = offset, rst_Digest = digest\<rparr>)
      | _ \<Rightarrow> Inl ResumeProbeResponseInvalid)"

text \<open>\<open>lk\<close> is the session of the probe; the world goes on to the next command when the answer is used.\<close>

definition probeResumeState ::
    "link \<Rightarrow> upload_remote \<Rightarrow> nat \<Rightarrow> string \<Rightarrow> resume_fs step_world \<Rightarrow> (transfer_kind + resumeState) \<times> resume_fs step_world" where
  "probeResumeState lk r fullsize digest w =
     (if \<not> lk_Session lk then (Inl ResumeProbeSessionFailed, w)
      else if lk_Start lk \<noteq> Accepted then (Inl ResumeProbeFailed, w)
      else
        let run = probe_script r fullsize digest w in
        (probe_answer fullsize (fst (remote_end lk run)),
         case run of Stopped s \<Rightarrow> \<lparr>sw_State = s, sw_Schedule = []\<rparr> | Finished _ w1 \<Rightarrow> w1))"

definition resume_marker :: "string \<Rightarrow> transfer_kind option" where
  "resume_marker marker =
     (if contains_sub marker ''SSM_RESUME_ERROR tool_missing'' then Some ResumeVerificationToolMissing
      else if contains_sub marker ''SSM_RESUME_ERROR state_changed'' then Some ResumeStateChanged
      else if contains_sub marker ''SSM_RESUME_ERROR digest_mismatch'' then Some ResumeIntegrityMismatch
      else if contains_sub marker ''SSM_RESUME_ERROR publish_failed'' then Some ResumePublishFailed
      else None)"

definition resume_failed :: "TransferResult \<Rightarrow> int \<Rightarrow> transfer_kind \<Rightarrow> outcome" where
  "resume_failed res written kind =
     ((if kind = ResumeIntegrityMismatch then res\<lparr>tr_Integrity := ''mismatch''\<rparr> else res), Some (kind, written))"

definition collectResumeRemoteFirst :: "TransferResult \<Rightarrow> int \<Rightarrow> bool \<Rightarrow> session_end \<Rightarrow> transfer_kind \<Rightarrow> outcome" where
  "collectResumeRemoteFirst res written timedOut e fallback =
     (if timedOut then (res, Some (ResumeTimedOut, written))
      else if se_Wait e = WaitOk then (res, Some (fallback, written))
      else case resume_marker (se_Stdout e) of
        Some kind \<Rightarrow> resume_failed res written kind
      | None \<Rightarrow> (res, Some (fallback, written)))"

definition resume_receipt :: "nat \<Rightarrow> string \<Rightarrow> TransferResult \<Rightarrow> int \<Rightarrow> session_end \<Rightarrow> outcome" where
  "resume_receipt fullsize digest res written e =
     (if parseUploadReceipt (se_Stdout e) = Some (int fullsize, digest)
      then (res\<lparr>tr_OK := True, tr_Stage := ''complete'', tr_Integrity := ''sha256_verified'', tr_RemoteSHA256 := digest\<rparr>, None)
      else (res\<lparr>tr_Integrity := ''mismatch''\<rparr>, Some (ResumeReceiptInvalid, written)))"

definition resume_outcome :: "nat \<Rightarrow> string \<Rightarrow> link \<Rightarrow> TransferResult \<Rightarrow> int \<Rightarrow> session_end \<Rightarrow> outcome" where
  "resume_outcome fullsize digest lk res written e =
     (if lk_CopyFails lk then collectResumeRemoteFirst res written (lk_TimedOut lk) e ResumeRemoteWriteFailed
      else if lk_CloseFails lk then collectResumeRemoteFirst res written (lk_TimedOut lk) e ResumeRetryFailed
      else if se_Wait e \<noteq> WaitOk then
        (if lk_TimedOut lk then (res, Some (ResumeTimedOut, written))
         else resume_failed res written (case resume_marker (se_Stdout e) of Some kind \<Rightarrow> kind | None \<Rightarrow> ResumeRetryFailed))
      else resume_receipt fullsize digest res written e)"

text \<open>The second session: the rest of the file from the offset on.\<close>

definition append_session ::
    "resume_local \<Rightarrow> link \<Rightarrow> upload_remote \<Rightarrow> string \<Rightarrow> resumeState \<Rightarrow> TransferResult \<Rightarrow> resume_fs step_world \<Rightarrow> outcome \<times> resume_fs" where
  "append_session f lk r fullDigest state res w =
     (let fails = (\<lambda>kind. ((res, Some (kind, 0)), sw_State w)) in
      if \<not> lk_Session lk then fails TransferSessionOpenFailed
      else if \<not> lk_Stdin lk then fails ResumeStdinOpenFailed
      else if lk_Start lk \<noteq> Accepted then fails ResumeStartFailed
      else
        let rest = rl_Rest f (nat (rst_Offset state));
            sent = (if lk_CopyFails lk then take (lk_Written lk) rest else rest);
            (e, s) = remote_end lk (append_script r (rl_Mode f) (rl_Size f) fullDigest (rst_Offset state) (rst_Digest state)
              (take (lk_Arrived lk) sent) w);
            written = int (length sent) in
        (resume_outcome (rl_Size f) fullDigest lk (res\<lparr>tr_Stage := ''remote_write'', tr_BytesSent := written\<rparr>) written e, s))"

definition uploadFileResumable ::
    "(bytes \<Rightarrow> string) \<Rightarrow> string \<Rightarrow> resume_local \<Rightarrow> link \<Rightarrow> link \<Rightarrow> upload_remote \<Rightarrow> resume_fs step_world \<Rightarrow> outcome \<times> resume_fs" where
  "uploadFileResumable sha version f probe lk r w =
     (let res = initial_result ''local_read'' ''v1''; fails = (\<lambda>res kind. ((res, Some (kind, 0)), sw_State w)) in
      if version \<noteq> resumeProtocolV1 then fails res ResumeVersionUnsupported
      else if \<not> rl_Opens f then fails res TransferLocalRead
      else if \<not> rl_Regular f then fails res ResumeRegularFileRequired
      else case rl_Hashed f of
        None \<Rightarrow> fails res ResumeSourceReadFailed
      | Some content \<Rightarrow>
          let fullDigest = sha content; res = res\<lparr>tr_LocalSHA256 := fullDigest, tr_Stage := ''resume_probe''\<rparr> in
          if \<not> lk_Dials lk then fails res DialClassified
          else case probeResumeState probe r (rl_Size f) fullDigest w of
            (Inl kind, w1) \<Rightarrow> ((res, Some (kind, 0)), sw_State w1)
          | (Inr state, w1) \<Rightarrow>
              let res = res\<lparr>tr_BytesReused := rst_Offset state,
                            tr_Resume := (if rst_Offset state > 0 then ''resumed'' else ''started'')\<rparr> in
              case rl_Prefix f (nat (rst_Offset state)) of
                None \<Rightarrow> ((res, Some (ResumeSourceChanged, 0)), sw_State w1)
              | Some prefix \<Rightarrow>
                  if sha prefix \<noteq> rst_Digest state
                  then ((res\<lparr>tr_Stage := ''resume_validate'', tr_Integrity := ''mismatch''\<rparr>, Some (ResumePartialMismatch, 0)), sw_State w1)
                  else if \<not> rl_Seeks f then ((res, Some (ResumeSourceSeekFailed, 0)), sw_State w1)
                  else append_session f lk r fullDigest state res w1)"

end
