(* ===== verification/Transfer_Props.thy ===== *)
theory Transfer_Props
  imports Remote_Transfer Field_Text
begin

text \<open>
  Properties of the transfers: what a put, a resumed put, a copy between hosts and a download leave behind, wherever they
  stop and whatever the connection does.
\<close>

section \<open>The upload script\<close>

text \<open>Others leave the destination alone; they may remove a temporary file, as the script's own trap does on a signal.\<close>

definition leaves_upload :: "upload_fs \<Rightarrow> upload_fs \<Rightarrow> bool" where
  "leaves_upload s s' \<longleftrightarrow> up_Dest s' = up_Dest s \<and> (\<forall>t. get_tmp t s' = get_tmp t s \<or> get_tmp t s' = None)"

lemma leaves_upload_refl: "leaves_upload s s"
  by (simp add: leaves_upload_def)

definition complete_bytes :: "upload_remote \<Rightarrow> int \<Rightarrow> string \<Rightarrow> bytes \<Rightarrow> bool" where
  "complete_bytes r expected digest input \<longleftrightarrow>
     (0 \<le> expected \<longrightarrow> int (length input) = expected) \<and> (digest \<noteq> [] \<longrightarrow> ur_sha r input = digest)"

definition published :: "upload_remote \<Rightarrow> nat \<Rightarrow> int \<Rightarrow> string \<Rightarrow> bytes \<Rightarrow> upload_fs \<Rightarrow> bool" where
  "published r mode expected digest input s \<longleftrightarrow>
     up_Dest s = Some (RemoteFile input mode) \<and> complete_bytes r expected digest input"

definition kept_or_published :: "remote_node option \<Rightarrow> upload_remote \<Rightarrow> nat \<Rightarrow> int \<Rightarrow> string \<Rightarrow> bytes \<Rightarrow> upload_fs \<Rightarrow> bool" where
  "kept_or_published old r mode expected digest input s \<longleftrightarrow>
     up_Dest s = old \<or> old \<noteq> Some RemoteDirectory \<and> published r mode expected digest input s"

definition receipt_of :: "string \<Rightarrow> bytes \<Rightarrow> string \<Rightarrow> bool" where
  "receipt_of digest input out \<longleftrightarrow>
     (\<exists>n \<in> {[], itoa (int (length input))}. out = receipt n (if digest = [] then ''-'' else digest))"

definition script_post :: "remote_node option \<Rightarrow> upload_remote \<Rightarrow> nat \<Rightarrow> int \<Rightarrow> string \<Rightarrow> bytes \<Rightarrow>
    call_error + script_result \<Rightarrow> upload_fs \<Rightarrow> bool" where
  "script_post old r mode expected digest input res s \<longleftrightarrow>
     kept_or_published old r mode expected digest input s \<and>
     (\<forall>out err. res = Inr (0, out, err) \<longrightarrow>
        old \<noteq> Some RemoteDirectory \<longrightarrow> published r mode expected digest input s \<and> receipt_of digest input out)"

text \<open>Before the rename: the destination is the old one, and the temporary file is as \<open>A\<close> says or is gone.\<close>

definition unpublished :: "remote_node option \<Rightarrow> (bytes \<times> nat \<Rightarrow> bool) \<Rightarrow> tmp_file \<Rightarrow> upload_fs \<Rightarrow> bool" where
  "unpublished old A t s \<longleftrightarrow> up_Dest s = old \<and> (\<forall>node. get_tmp t s = Some node \<longrightarrow> A node)"

lemma get_set_tmp [simp]: "get_tmp t (set_tmp t v s) = v" "up_Dest (set_tmp t v s) = up_Dest s"
  by (cases t; simp add: get_tmp_def set_tmp_def)+

lemma stable_unpublished: "stable leaves_upload (unpublished old A t)"
  unfolding stable_def leaves_upload_def unpublished_def by (metis option.distinct(1))

lemma stable_dest: "(\<And>s s'. up_Dest s' = up_Dest s \<Longrightarrow> P s \<Longrightarrow> P s') \<Longrightarrow> stable leaves_upload P"
  by (auto simp: stable_def leaves_upload_def)

lemma stable_kept [simp]: "stable leaves_upload (kept_or_published old r mode expected digest input)"
  by (rule stable_dest) (simp add: kept_or_published_def published_def)

lemma kept_same [simp]:
  "kept_or_published (up_Dest s) r mode expected digest input s"
  "kept_or_published (up_Dest s) r mode expected digest input (set_tmp t v s)"
  by (simp_all add: kept_or_published_def)

lemma unpublished_kept: "unpublished old A t s \<Longrightarrow> kept_or_published old r mode expected digest input s"
  by (simp add: unpublished_def kept_or_published_def)

lemma unpublished_weaken: "unpublished old A t s \<Longrightarrow> (\<And>node. A node \<Longrightarrow> B node) \<Longrightarrow> unpublished old B t s"
  by (simp add: unpublished_def)

lemma unpublished_set [simp]: "unpublished old A t (set_tmp t v s) \<longleftrightarrow> up_Dest s = old \<and> (\<forall>node. v = Some node \<longrightarrow> A node)"
  by (simp add: unpublished_def)

text \<open>A trap ends the script with a failure and keeps what holds of the destination.\<close>

lemma trap_exit_kept:
  assumes "code \<noteq> 0"
  shows "valid leaves_upload (kept_or_published old r mode expected digest input)
    (kept_or_published old r mode expected digest input) (trap_exit r t code out err) (script_post old r mode expected digest input)"
proof -
  let ?K = "kept_or_published old r mode expected digest input"
  have "valid leaves_upload ?K ?K (if tmp_usable r t then act (set_tmp t None) else result ()) (\<lambda>_. ?K)"
    by (auto intro!: valid_act valid_result leaves_upload_refl) (simp add: kept_or_published_def published_def)
  then show ?thesis
    unfolding trap_exit_def
    by (rule valid_handle) (rule valid_result, use assms in \<open>auto simp: script_post_def\<close>)
qed

lemma trap_exit_unpublished:
  "code \<noteq> 0 \<Longrightarrow> valid leaves_upload (kept_or_published old r mode expected digest input) (unpublished old A t)
    (trap_exit r t' code out err) (script_post old r mode expected digest input)"
  by (rule valid_pre [where P = "kept_or_published old r mode expected digest input"]) (auto intro: unpublished_kept trap_exit_kept)

lemma look_unpublished:
  "valid leaves_upload (kept_or_published old r mode expected digest input) (unpublished old A t) (look f)
    (\<lambda>res s. unpublished old A t s \<and> (\<forall>x. res = Inr x \<longrightarrow> f s = Inr x))"
  by (rule valid_look) (auto intro: leaves_upload_refl stable_unpublished intro: unpublished_kept)

lemma upload_publish_valid:
  assumes receipt: "size_text \<in> {[], itoa (int (length input))}" "sha = (if digest = [] then ''-'' else digest)"
  shows "valid leaves_upload (kept_or_published old r mode expected digest input)
    (unpublished old (\<lambda>node. node = (input, mode) \<and> complete_bytes r expected digest input) t) (upload_publish r t size_text sha) (script_post old r mode expected digest input)"
    (is "valid _ ?K (unpublished old ?A t) _ ?Q")
proof -
  let ?new = "\<lambda>s. ?K s \<and> (old \<noteq> Some RemoteDirectory \<longrightarrow> published r mode expected digest input s)"
  have stable_new: "stable leaves_upload ?new"
    by (rule stable_dest) (simp add: kept_or_published_def published_def)
  have refuse: "valid leaves_upload ?K (unpublished old ?A t) (handle (act (set_tmp t None))
      (\<lambda>_. trap_exit r t 73 [] (output_line ''remote destination is a directory''))) ?Q"
    by (rule valid_handle [where M = "\<lambda>_. unpublished old ?A t"])
      (rule valid_act, auto intro: leaves_upload_refl stable_unpublished trap_exit_unpublished intro: unpublished_kept simp: unpublished_def)
  have print: "valid leaves_upload ?K ?new
      (handle plain_call (\<lambda>printed. result (if isl printed then (1, [], []) else (0, receipt size_text sha, [])))) ?Q"
    by (rule valid_handle [where M = "\<lambda>_. ?new"], rule valid_plain)
      (use receipt in \<open>auto intro!: leaves_upload_refl stable_new valid_result simp: script_post_def receipt_of_def\<close>)
  have move: "valid leaves_upload ?K (unpublished old ?A t) (call (\<lambda>s. case get_tmp t s of
          None \<Rightarrow> Inl Missing
        | Some (data, mode) \<Rightarrow> Inr ((), move_over data mode (set_tmp t None s))))
      (\<lambda>moved s. if isl moved then ?K s else ?new s)"
    by (rule valid_call)
      (auto intro: leaves_upload_refl stable_unpublished
        simp: unpublished_def kept_or_published_def published_def move_over_def split: option.splits)
  show ?thesis
    unfolding upload_publish_def
  proof (rule valid_handle [OF look_unpublished])
    fix directory :: "call_error + unit"
    show "valid leaves_upload ?K (\<lambda>s. unpublished old ?A t s \<and> (\<forall>x. directory = Inr x \<longrightarrow>
        (if up_Dest s = Some RemoteDirectory then Inr () else Inl Failed) = Inr x))
      (if \<not> isl directory
       then handle (act (set_tmp t None)) (\<lambda>_. trap_exit r t 73 [] (output_line ''remote destination is a directory''))
       else handle (call (\<lambda>s. case get_tmp t s of
                None \<Rightarrow> Inl Missing
              | Some (data, mode) \<Rightarrow> Inr ((), move_over data mode (set_tmp t None s))))
         (\<lambda>moved. if isl moved then trap_exit r t 1 [] []
            else handle plain_call (\<lambda>printed. result (if isl printed then (1, [], []) else (0, receipt size_text sha, [])))))
      ?Q"
    proof (cases "isl directory")
      case True
      then show ?thesis
        by (auto intro!: valid_handle [OF valid_pre [OF move]] trap_exit_kept print)
    next
      case False
      then show ?thesis by (simp only: if_True not_False_eq_True) (rule valid_pre [OF refuse], simp)
    qed
  qed
qed

lemma itoa_nonempty: "itoa n \<noteq> []"
  by (simp add: itoa_def int_digits.simps)

lemma itoa_inj: "0 \<le> a \<Longrightarrow> 0 \<le> b \<Longrightarrow> itoa a = itoa b \<Longrightarrow> a = b"
  using digits_value_int_digits [of a] digits_value_int_digits [of b] unfolding itoa_def by (metis linorder_not_le option.inject)

lemma upload_checksum_valid:
  assumes digest: "digest \<noteq> []" and n: "n \<in> {[], itoa (int (length input))}"
    and total: "0 \<le> expected \<Longrightarrow> int (length input) = expected"
  shows "valid leaves_upload (kept_or_published old r mode expected digest input)
    (unpublished old (\<lambda>node. node = (input, mode)) t) (upload_checksum r t digest n) (script_post old r mode expected digest input)"
  unfolding upload_checksum_def
proof (rule valid_handle [OF look_unpublished])
  fix sum :: "call_error + string"
  let ?K = "kept_or_published old r mode expected digest input"
  let ?Q = "script_post old r mode expected digest input"
  let ?P = "\<lambda>s. unpublished old (\<lambda>node. node = (input, mode)) t s \<and>
    (\<forall>x. sum = Inr x \<longrightarrow> (case get_tmp t s of None \<Rightarrow> Inl Missing | Some (data, _) \<Rightarrow> Inr (ur_sha r data)) = Inr x)"
  let ?sha = "case sum of Inl _ \<Rightarrow> [] | Inr d \<Rightarrow> d"
  show "valid leaves_upload ?K ?P (let actual_sha = ?sha in
     if actual_sha \<noteq> digest then trap_exit r t 65 (output_line ''SSM_INTEGRITY_MISMATCH'') []
     else upload_publish r t n actual_sha) ?Q"
  proof (cases "?sha = digest")
    case True
    with digest have sum: "sum = Inr digest" by (cases sum) auto
    have "valid leaves_upload ?K ?P (upload_publish r t n digest) ?Q"
      by (rule valid_pre [OF upload_publish_valid [OF n]])
        (use digest total sum in \<open>auto simp: complete_bytes_def unpublished_def\<close>)
    with sum show ?thesis by simp
  next
    case False
    have "valid leaves_upload ?K ?P (trap_exit r t 65 (output_line ''SSM_INTEGRITY_MISMATCH'') []) ?Q"
      by (rule valid_pre [OF trap_exit_unpublished]) auto
    with False show ?thesis by simp
  qed
qed

lemma upload_verify_valid:
  "valid leaves_upload (kept_or_published old r mode expected digest input)
    (unpublished old (\<lambda>node. node = (input, mode)) t) (upload_verify r t expected digest) (script_post old r mode expected digest input)"
  unfolding upload_verify_def
proof (rule valid_handle [OF look_unpublished])
  fix wc :: "call_error + string"
  let ?K = "kept_or_published old r mode expected digest input"
  let ?Q = "script_post old r mode expected digest input"
  let ?P = "\<lambda>s. unpublished old (\<lambda>node. node = (input, mode)) t s \<and> (\<forall>x. wc = Inr x \<longrightarrow>
    (case get_tmp t s of None \<Rightarrow> Inl Missing | Some (data, _) \<Rightarrow> Inr (itoa (int (length data)))) = Inr x)"
  let ?n = "case wc of Inl _ \<Rightarrow> [] | Inr n \<Rightarrow> n"
  have fail: "valid leaves_upload ?K ?P (trap_exit r t 65 (output_line ''SSM_INTEGRITY_MISMATCH'') []) ?Q"
    by (rule valid_pre [OF trap_exit_unpublished]) auto
  have go_on: "valid leaves_upload ?K ?P
      (if digest = [] then upload_publish r t ?n ''-'' else upload_checksum r t digest ?n) ?Q"
    if s: "?P s" and fits: "0 \<le> expected \<Longrightarrow> ?n = itoa expected" for s
  proof -
    have n: "?n \<in> {[], itoa (int (length input))}"
      using s by (cases wc; cases "get_tmp t s") (auto simp: unpublished_def)
    then have total: "int (length input) = expected" if "0 \<le> expected"
      using that fits itoa_nonempty itoa_inj [of "int (length input)" expected] by auto
    show ?thesis
    proof (cases "digest = []")
      case True
      have "valid leaves_upload ?K ?P (upload_publish r t ?n ''-'') ?Q"
        by (rule valid_pre [OF upload_publish_valid [OF n]]) (use True total in \<open>auto simp: complete_bytes_def unpublished_def\<close>)
      with True show ?thesis by simp
    next
      case False
      have "valid leaves_upload ?K ?P (upload_checksum r t digest ?n) ?Q"
        by (rule valid_pre [OF upload_checksum_valid [OF False n total]]) auto
      with False show ?thesis by simp
    qed
  qed
  show "valid leaves_upload ?K ?P
    (let actual_size = ?n in
     if 0 \<le> expected \<and> actual_size \<noteq> itoa expected then trap_exit r t 65 (output_line ''SSM_INTEGRITY_MISMATCH'') []
     else if digest = [] then upload_publish r t actual_size ''-'' else upload_checksum r t digest actual_size) ?Q"
  proof (cases "0 \<le> expected \<and> ?n \<noteq> itoa expected")
    case True
    with fail show ?thesis by simp
  next
    case False
    have "valid leaves_upload ?K ?P (if digest = [] then upload_publish r t ?n ''-'' else upload_checksum r t digest ?n) ?Q"
    proof (cases "\<exists>s. ?P s")
      case True
      then show ?thesis using go_on False by blast
    next
      case False
      then show ?thesis unfolding valid_def by blast
    qed
    with False show ?thesis by (simp only: Let_def if_False)
  qed
qed

lemma upload_receive_valid:
  "valid leaves_upload (kept_or_published old r mode expected digest input) (\<lambda>s. up_Dest s = old)
    (upload_receive r t mode expected digest input) (script_post old r mode expected digest input)"
proof -
  let ?K = "kept_or_published old r mode expected digest input"
  let ?old = "\<lambda>s. up_Dest s = old"
  have keep: "?old s \<Longrightarrow> ?K s" for s by (simp add: kept_or_published_def)
  have stable_old: "stable leaves_upload ?old" by (rule stable_dest) simp
  note side = leaves_upload_refl stable_unpublished stable_old keep unpublished_kept
  have stored: "valid leaves_upload ?K ?old
      (bind_step (act (set_tmp t (Some ([], 384)))) (\<lambda>_.
       bind_step (write_call (\<lambda>n. set_tmp t (Some (take n input, 384))) (\<lambda>s. Inr ((), set_tmp t (Some (input, 384)) s))) (\<lambda>_.
       call (\<lambda>s. case get_tmp t s of None \<Rightarrow> Inl Missing | Some (data, _) \<Rightarrow> Inr ((), set_tmp t (Some (data, mode)) s)))))
      (\<lambda>res s. ?old s \<and> (\<not> isl res \<longrightarrow> unpublished old (\<lambda>node. node = (input, mode)) t s))"
  proof (rule valid_bind [where M = "\<lambda>_. ?old"], goal_cases create rest)
    case create
    show ?case by (rule valid_act) (auto intro: side)
  next
    case rest
    show ?case
    proof (rule valid_bind [where M = "\<lambda>_. unpublished old (\<lambda>node. fst node = input) t"], goal_cases cat chmod)
      case cat
      show ?case by (rule valid_write_call) (auto intro: side)
    next
      case chmod
      show ?case
        by (rule valid_call) (auto intro: side simp: unpublished_def split: option.splits)
    qed
  qed
  have rest: "valid leaves_upload ?K (\<lambda>s. ?old s \<and> (\<not> isl res \<longrightarrow> unpublished old (\<lambda>node. node = (input, mode)) t s))
      (if isl res then trap_exit r t 1 [] [] else upload_verify r t expected digest) (script_post old r mode expected digest input)"
    for res :: "call_error + unit"
    using valid_pre [OF trap_exit_kept [of 1 old r mode expected digest input t]] keep
    by (cases "isl res") (auto intro!: valid_pre [OF upload_verify_valid])
  show ?thesis
    unfolding upload_receive_def
    using valid_handle [OF stored rest] valid_pre [OF trap_exit_kept [of 1 old r mode expected digest input t "[]" "[]"], of ?old] keep
    by auto
qed

theorem upload_script_valid:
  "valid leaves_upload (kept_or_published old r mode expected digest input) (\<lambda>s. up_Dest s = old)
    (upload_script r path mode expected digest input) (script_post old r mode expected digest input)"
proof -
  let ?K = "kept_or_published old r mode expected digest input"
  let ?old = "\<lambda>s. up_Dest s = old"
  have keep: "?old s \<Longrightarrow> ?K s" for s by (simp add: kept_or_published_def)
  have stable_old: "stable leaves_upload ?old" by (rule stable_dest) simp
  have tool: "valid leaves_upload ?K ?old (if digest = [] then result () else look (\<lambda>_. if ur_Tool r then Inr () else Inl Failed)) (\<lambda>_. ?old)"
    by (auto intro!: valid_result valid_look leaves_upload_refl stable_old keep)
  have mkdir: "valid leaves_upload ?K ?old (act (\<lambda>s. s\<lparr>up_Parent := True\<rparr>)) (\<lambda>_. ?old)"
    by (rule valid_act) (auto intro: leaves_upload_refl stable_old keep)
  show ?thesis
    unfolding upload_script_def
  proof (rule valid_handle [OF tool])
    fix r' :: "call_error + unit"
    have "valid leaves_upload ?K ?old (result (69, output_line integrityToolMissingMarker, [])) (script_post old r mode expected digest input)"
      by (rule valid_result) (simp add: script_post_def keep)
    then show "valid leaves_upload ?K ?old
      (if isl r' then result (69, output_line integrityToolMissingMarker, [])
       else if RemoteParentDir (upload_path path) = [] then upload_receive r OwnTmp mode expected digest input
       else handle (act (\<lambda>s. s\<lparr>up_Parent := True\<rparr>)) (\<lambda>made.
         upload_receive r (if isl made then InheritedTmp else OwnTmp) mode expected digest input))
      (script_post old r mode expected digest input)"
      using upload_receive_valid valid_handle [OF mkdir upload_receive_valid] by auto
  qed
qed


section \<open>Put\<close>

text \<open>The run that the client sees: what others do and the fates of the calls are in \<open>w\<close>.\<close>

lemma remote_end_upload:
  assumes "remote_end lk (upload_script r path mode expected digest input w) = (e, s)"
    and "keeps_to leaves_upload (sw_Schedule w)" and "old = up_Dest (sw_State w)"
  shows "kept_or_published old r mode expected digest input s"
    and "se_Wait e = WaitOk \<Longrightarrow> old \<noteq> Some RemoteDirectory \<Longrightarrow>
      published r mode expected digest input s \<and> receipt_of digest input (se_Stdout e)"
proof -
  note v = upload_script_valid [of old r mode expected digest input path]
  show "kept_or_published old r mode expected digest input s"
    using assms valid_stopped [OF v] valid_finished [OF v]
    by (fastforce simp: remote_end_def script_post_def split: run.splits sum.splits)
  show "published r mode expected digest input s \<and> receipt_of digest input (se_Stdout e)"
    if "se_Wait e = WaitOk" "old \<noteq> Some RemoteDirectory"
    using assms that valid_finished [OF v]
    by (fastforce simp: remote_end_def script_post_def lost_session_def split: run.splits sum.splits if_splits)
qed

text \<open>The bytes that a put may publish.\<close>

definition put_bytes :: "(bytes \<Rightarrow> string) \<Rightarrow> bool \<Rightarrow> local_file \<Rightarrow> bytes \<Rightarrow> bool" where
  "put_bytes sha verify f data \<longleftrightarrow>
     (\<exists>n. data = take n (lf_Streamed f)) \<and> length data = lf_Size f \<and>
     (verify \<longrightarrow> (\<exists>content. lf_Hashed f = Some content \<and> sha data = sha content))"

definition put_done :: "(bytes \<Rightarrow> string) \<Rightarrow> bool \<Rightarrow> local_file \<Rightarrow> upload_fs \<Rightarrow> bool" where
  "put_done sha verify f s \<longleftrightarrow> (\<exists>data. up_Dest s = Some (RemoteFile data (lf_Mode f)) \<and> put_bytes sha verify f data)"

lemma upload_local_result:
  assumes "upload_local sha verify f = Inr res"
  shows "\<not> tr_OK res"
    and "verify \<Longrightarrow> \<exists>content. lf_Hashed f = Some content \<and> tr_LocalSHA256 res = sha content"
  using assms by (auto simp: upload_local_def initial_result_def Let_def split: if_splits option.splits)

lemma failed_outcomes:
  "collectRemoteFirst res written timedOut e fallback = (res', err) \<Longrightarrow> \<not> tr_OK res \<Longrightarrow> \<not> tr_OK res' \<and> err \<noteq> None"
  "upload_wait_failure res written timedOut e = (res', err) \<Longrightarrow> \<not> tr_OK res \<Longrightarrow> \<not> tr_OK res' \<and> err \<noteq> None"
  by (auto simp: collectRemoteFirst_def upload_wait_failure_def Let_def split: if_splits)

lemma receipt_outcome:
  "upload_receipt verify size0 digest res written e = (res', err) \<Longrightarrow> \<not> tr_OK res \<Longrightarrow> tr_OK res' \<longleftrightarrow> err = None"
  by (auto simp: upload_receipt_def Let_def split: if_splits option.splits)

lemma upload_outcome_ok:
  assumes "upload_outcome verify size0 digest lk res written e = (res', err)" and "\<not> tr_OK res"
  shows "(tr_OK res' \<longleftrightarrow> err = None) \<and> (err = None \<longrightarrow> se_Wait e = WaitOk)"
  using assms failed_outcomes receipt_outcome unfolding upload_outcome_def by (metis (lifting))

lemma upload_local_failed: "upload_local sha verify f = Inl (res, err) \<Longrightarrow> \<not> tr_OK res \<and> err \<noteq> None"
  by (auto simp: upload_local_def initial_result_def Let_def split: if_splits option.splits)

text \<open>
  C10. Whatever the connection does, whichever command of the script fails or is the last one, a put leaves the old
  destination or the complete file: as many bytes as the local file had, under its mode, and with \<^verbatim>\<open>--sha256\<close> the digest
  of the local file. It reports success only in the second case.
\<close>

theorem put_is_atomic:
  assumes "UploadFileWithOptions sha verify f lk r path w = ((res, err), s)"
    and others: "keeps_to leaves_upload (sw_Schedule w)" and tool: "ur_sha r = sha" and digests: "\<And>b. sha b \<noteq> []"
    and not_dir: "up_Dest (sw_State w) \<noteq> Some RemoteDirectory"
  shows "(up_Dest s = up_Dest (sw_State w) \<or> put_done sha verify f s) \<and>
    (tr_OK res \<longleftrightarrow> err = None) \<and> (err = None \<longrightarrow> put_done sha verify f s)"
proof (cases "upload_local sha verify f")
  case (Inl failed)
  with assms(1) upload_local_failed [of sha verify f] show ?thesis
    by (cases failed) (fastforce simp: UploadFileWithOptions_def)
next
  case (Inr res0)
  define sent where "sent = (if lk_CopyFails lk then take (lk_Written lk) (lf_Streamed f) else lf_Streamed f)"
  define input where "input = take (lk_Arrived lk) sent"
  obtain e s' where run: "remote_end lk
      (upload_script r path (lf_Mode f) (int (lf_Size f)) (tr_LocalSHA256 res0) input w) = (e, s')" by fastforce
  note local_facts = upload_local_result [OF Inr]
  have "\<exists>n. input = take n (lf_Streamed f)" by (auto simp: input_def sent_def)
  then have finished: "put_done sha verify f s'"
    if "published r (lf_Mode f) (int (lf_Size f)) (tr_LocalSHA256 res0) input s'"
    using that local_facts(2) digests [THEN not_sym] digests tool
    by (fastforce simp: put_done_def put_bytes_def published_def complete_bytes_def)
  note remote = remote_end_upload [OF run others refl]
  have kept: "up_Dest s' = up_Dest (sw_State w) \<or> put_done sha verify f s'"
    using remote(1) finished by (auto simp: kept_or_published_def)
  have done_if: "put_done sha verify f s'" if "se_Wait e = WaitOk"
    using remote(2) that not_dir finished by blast
  show ?thesis
  proof (cases "lk_Dials lk \<and> lk_Session lk \<and> lk_Stdin lk \<and> lk_Start lk = Accepted")
    case False
    then have "s = sw_State w" "\<not> tr_OK res" "err \<noteq> None"
      using assms(1) Inr local_facts(1) by (cases "lk_Start lk"; auto simp: UploadFileWithOptions_def Let_def split: if_splits)+
    then show ?thesis by auto
  next
    case True
    define res1 where "res1 = res0\<lparr>tr_Stage := ''dial'', tr_Stage := ''remote_write'', tr_BytesSent := int (length sent)\<rparr>"
    have out: "upload_outcome verify (int (lf_Size f)) (tr_LocalSHA256 res0) lk res1 (int (length sent)) e = (res, err)" "s = s'"
      using assms(1) Inr True run by (simp_all add: UploadFileWithOptions_def Let_def sent_def input_def res1_def)
    have "\<not> tr_OK res1" using local_facts(1) by (simp add: res1_def)
    with upload_outcome_ok [OF out(1)] kept done_if out(2) show ?thesis by blast
  qed
qed

definition steady_link :: link where
  "steady_link = \<lparr>lk_Dials = True, lk_Session = True, lk_Stdin = True, lk_Start = Accepted, lk_CopyFails = False,
     lk_Written = 0, lk_Arrived = 10, lk_CloseFails = False, lk_TimedOut = False, lk_Reports = True, lk_Stray = ([], [])\<rparr>"

definition plain_file :: "bytes \<Rightarrow> local_file" where
  "plain_file data = \<lparr>lf_Opens = True, lf_Stats = True, lf_Regular = True, lf_Size = length data, lf_Mode = 420,
     lf_Hashed = Some data, lf_Seeks = True, lf_Streamed = data\<rparr>"

definition sample_upload_fs :: upload_fs where
  "sample_upload_fs = \<lparr>up_Dest = Some (RemoteFile [9] 384), up_Tmp = None, up_Inherited = None, up_Parent = True\<rparr>"

definition sample_remote :: upload_remote where
  "sample_remote = \<lparr>ur_sha = \<lambda>b. ''5'' @ itoa (int (length b)), ur_Tool = True, ur_InheritedSet = False\<rparr>"

definition sample_put :: "outcome \<times> upload_fs" where
  "sample_put = UploadFileWithOptions (ur_sha sample_remote) True (plain_file [1, 2]) steady_link sample_remote ''f'' (calm sample_upload_fs)"

lemma sample_put_value:
  "map_prod (map_prod tr_OK id) id sample_put = ((True, None), sample_upload_fs\<lparr>up_Dest := Some (RemoteFile [1, 2] 420)\<rparr>)"
  by code_simp

theorem put_is_atomic_witness:
  "put_done (ur_sha sample_remote) True (plain_file [1, 2]) (snd sample_put) \<and> snd (fst sample_put) = None"
proof -
  obtain res err s where run: "sample_put = ((res, err), s)" by (metis surj_pair)
  have "keeps_to leaves_upload (sw_Schedule (calm sample_upload_fs))" by (simp add: keeps_to_def calm_def)
  moreover have "err = None" using sample_put_value [unfolded run] by simp
  ultimately show ?thesis
    unfolding run using put_is_atomic [OF run [unfolded sample_put_def]] by (auto simp: sample_upload_fs_def sample_remote_def)
qed

lemma int_digits_digit: "0 \<le> n \<Longrightarrow> list_all (\<lambda>c. CHR ''0'' \<le> c \<and> c \<le> CHR ''9'') (int_digits n)"
proof (induction n rule: int_digits.induct)
  case (1 n)
  have digit: "CHR ''0'' \<le> digit_char d \<and> digit_char d \<le> CHR ''9''" if "0 \<le> d" "d < 10" for d
    using digit_value_char [OF that] by (auto simp: digit_value_def split: if_splits)
  from 1 digit show ?case
    by (cases "n < 10") (auto simp: int_digits.simps [of n] pos_imp_zdiv_nonneg_iff)
qed

lemma digit_word: "CHR ''0'' \<le> c \<Longrightarrow> c \<le> CHR ''9'' \<Longrightarrow> ascii c \<and> \<not> ascii_space c"
  by (auto simp: ascii_def ascii_space_def less_eq_char_def less_char_def)

lemma int_digits_word: "0 \<le> n \<Longrightarrow> word (int_digits n)"
  using int_digits_digit [of n] digit_word itoa_nonempty [of n] by (auto simp: word_def list_all_iff itoa_def)

lemma parse_int64_itoa: "0 \<le> n \<Longrightarrow> n < 2 ^ 63 \<Longrightarrow> parse_int64 (itoa n) = Some n"
proof -
  assume n: "0 \<le> n" "n < 2 ^ 63"
  then have "list_all (\<lambda>c. CHR ''0'' \<le> c \<and> c \<le> CHR ''9'') (int_digits n)" "int_digits n \<noteq> []"
    using int_digits_digit itoa_nonempty [of n] by (auto simp: itoa_def)
  then have "take 1 (int_digits n) \<notin> {''-'', ''+''}" by (cases "int_digits n") auto
  then show ?thesis
    using n digits_value_int_digits [OF n(1)] itoa_nonempty [of n] by (auto simp: parse_int64_def itoa_def Let_def)
qed

lemma parse_int64_itoa_some: "0 \<le> n \<Longrightarrow> parse_int64 (itoa n) = Some m \<Longrightarrow> m = n"
  using parse_int64_itoa [of n] int_digits_digit [of n] digits_value_int_digits [of n]
  by (cases "int_digits n") (auto simp: parse_int64_def itoa_def Let_def split: if_splits)

lemma receipt_parse:
  assumes "0 \<le> n" and d: "word d"
  shows "parseUploadReceipt (receipt (itoa n) d) = map_option (\<lambda>m. (m, if d = ''-'' then [] else d)) (parse_int64 (itoa n))"
proof -
  have w: "word (itoa n)" using int_digits_word [OF assms(1)] assms(1) by (simp add: itoa_def)
  have "word ''SSM_TRANSFER''" by code_simp
  from three_words [OF this w d] show ?thesis
    by (simp add: parseUploadReceipt_def receipt_def output_line_def)
qed

lemma receipt_round_trip:
  "0 \<le> n \<Longrightarrow> n < 2 ^ 63 \<Longrightarrow> word d \<Longrightarrow> parseUploadReceipt (receipt (itoa n) d) = Some (n, if d = ''-'' then [] else d)"
  using parse_int64_itoa [of n] by (simp add: receipt_parse)

lemma receipt_without_size: "word d \<Longrightarrow> parseUploadReceipt (receipt [] d) = None"
proof -
  assume d: "word d"
  let ?s = "''SSM_TRANSFER'' @ '' '' @ '' '' @ d"
  have tag: "word ''SSM_TRANSFER''" by code_simp
  have asc: "list_all ascii ''SSM_TRANSFER''" "list_all ascii d" using d tag by (auto simp: word_def list_all_iff)
  have "\<not> ascii_space (last ?s)" using d by (auto simp: word_def list_all_iff)
  moreover have "\<not> ascii_space (hd ?s)" by simp code_simp
  moreover have "list_all ascii ?s" using asc by (simp only: list_all_append) simp
  ultimately have trim: "trim_space (?s @ [CHR 0x0A]) = ?s" by (intro trim_space_word_line) auto
  have "go_fields ?s = ''SSM_TRANSFER'' # go_fields ('' '' @ '' '' @ d)"
    by (rule go_fields_cons_word [OF tag]) (use asc in auto)
  also have "go_fields ('' '' @ '' '' @ d) = [d]"
    using go_fields_space [of "CHR '' ''" "'' '' @ d"] go_fields_space [of "CHR '' ''" d] go_fields_cons_word [OF d, of "[]"] asc by simp
  finally show ?thesis using trim by (simp add: parseUploadReceipt_def receipt_def output_line_def)
qed

lemma receipt_size:
  assumes "receipt_of digest input out" and "word digest" and "parseUploadReceipt out = Some (n, d)"
  shows "n = int (length input)"
  using assms receipt_without_size [OF assms(2)] receipt_parse [OF _ assms(2), of "int (length input)"]
    parse_int64_itoa_some [of "int (length input)"]
  by (auto simp: receipt_of_def word_def)

text \<open>The run of the script that nothing disturbs.\<close>

lemma upload_script_calm:
  assumes "ur_Tool r" and "up_Dest s \<noteq> Some RemoteDirectory" and "0 \<le> expected \<Longrightarrow> int (length input) = expected"
    and "digest \<noteq> [] \<Longrightarrow> ur_sha r input = digest"
  shows "\<exists>parent. upload_script r path mode expected digest input (calm s) =
    Finished (Inr (0, receipt (itoa (int (length input))) (if digest = [] then ''-'' else digest), []))
      (calm (s\<lparr>up_Tmp := None, up_Dest := Some (RemoteFile input mode), up_Parent := parent\<rparr>))"
  using assms
  by (cases s)
    (auto simp: upload_script_def upload_receive_def upload_verify_def upload_checksum_def upload_publish_def
      tmp_usable_def handle_def bind_step_def calm_steps get_tmp_def set_tmp_def move_over_def Let_def)

text \<open>
  An undisturbed put of a file that can be read and stays as it is succeeds: the destination is the file under its
  mode, the temporary file is gone, every byte was sent, and the receipt of the remote script is accepted.
\<close>

theorem undisturbed_put_publishes:
  assumes "lf_Opens f \<and> lf_Stats f \<and> lf_Regular f \<and> lf_Seeks f" and data: "lf_Hashed f = Some data \<and> lf_Streamed f = data"
    and total: "lf_Size f = length data" "int (length data) < 2 ^ 63"
    and "lk_Dials lk \<and> lk_Session lk \<and> lk_Stdin lk \<and> lk_Start lk = Accepted"
    and "\<not> lk_CopyFails lk \<and> \<not> lk_CloseFails lk \<and> lk_Reports lk \<and> length data \<le> lk_Arrived lk"
    and r: "ur_Tool r" "ur_sha r = sha" "word (sha data)" "sha data \<noteq> ''-''" and not_dir: "up_Dest s \<noteq> Some RemoteDirectory"
  shows "\<exists>res parent. UploadFileWithOptions sha verify f lk r path (calm s) =
      ((res, None), s\<lparr>up_Tmp := None, up_Dest := Some (RemoteFile data (lf_Mode f)), up_Parent := parent\<rparr>) \<and>
    tr_OK res \<and> tr_BytesSent res = int (length data) \<and>
    tr_Integrity res = (if verify then ''sha256_verified'' else ''size_verified'')"
proof -
  define digest where "digest = (if verify then sha data else [])"
  have "digest \<noteq> [] \<Longrightarrow> ur_sha r data = digest" using r by (simp add: digest_def split: if_splits)
  then obtain parent where script: "upload_script r path (lf_Mode f) (int (length data)) digest data (calm s) =
      Finished (Inr (0, receipt (itoa (int (length data))) (if digest = [] then ''-'' else digest), []))
        (calm (s\<lparr>up_Tmp := None, up_Dest := Some (RemoteFile data (lf_Mode f)), up_Parent := parent\<rparr>))"
    using upload_script_calm [of r s "int (length data)" data digest path "lf_Mode f"] r not_dir by auto
  have hyphen: "word ''-''" by code_simp
  have sha: "sha data \<noteq> []" using r(3) by (simp add: word_def)
  have receipt: "parseUploadReceipt (receipt (itoa (int (length data))) (if digest = [] then ''-'' else digest)) =
      Some (int (length data), digest)"
    using receipt_round_trip [of "int (length data)" "if digest = [] then ''-'' else digest"] total hyphen r by (auto simp: digest_def)
  have "\<exists>res0. upload_local sha verify f = Inr res0 \<and> tr_LocalSHA256 res0 = digest"
    using assms(1) data by (cases verify) (auto simp: upload_local_def digest_def initial_result_def)
  then obtain res0 where "upload_local sha verify f = Inr res0" "tr_LocalSHA256 res0 = digest" by blast
  then show ?thesis
    using assms(5,6) data total script receipt
    by (auto simp: UploadFileWithOptions_def remote_end_def upload_outcome_def upload_receipt_def Let_def digest_def)
qed

theorem undisturbed_put_publishes_witness:
  "\<exists>res parent. UploadFileWithOptions (ur_sha sample_remote) True (plain_file [1, 2]) steady_link sample_remote ''d/f'' (calm sample_upload_fs) =
      ((res, None), sample_upload_fs\<lparr>up_Tmp := None, up_Dest := Some (RemoteFile [1, 2] 420), up_Parent := parent\<rparr>) \<and>
    tr_OK res"
proof -
  have "word (ur_sha sample_remote [1, 2])" "ur_sha sample_remote [1, 2] \<noteq> ''-''" by code_simp+
  with undisturbed_put_publishes [of "plain_file [1, 2]" "[1, 2]" steady_link sample_remote "ur_sha sample_remote" sample_upload_fs True "''d/f''"]
  show ?thesis by (auto simp: plain_file_def steady_link_def sample_remote_def sample_upload_fs_def)
qed

definition hashing_remote :: upload_remote where
  "hashing_remote = \<lparr>ur_sha = \<lambda>b. replicate 64 (if length b < 3 then CHR ''a'' else CHR ''b''), ur_Tool = True, ur_InheritedSet = False\<rparr>"

lemma hashing_remote_words: "word (ur_sha hashing_remote b) \<and> length (ur_sha hashing_remote b) = 64"
proof -
  have "ascii (CHR ''a'') \<and> \<not> ascii_space (CHR ''a'') \<and> ascii (CHR ''b'') \<and> \<not> ascii_space (CHR ''b'')" by code_simp
  then show ?thesis by (auto simp: hashing_remote_def word_def list_all_iff)
qed

section \<open>Two weaknesses of the script\<close>

text \<open>The quoting state after a text without unquoted backslashes, as the command is.\<close>

fun quote_after :: "quote_mode \<Rightarrow> string \<Rightarrow> quote_mode" where
  "quote_after m [] = m"
| "quote_after Bare (c # s) = quote_after (if c = CHR 0x27 then Single else if c = CHR 0x22 then Double else Bare) s"
| "quote_after Single (c # s) = quote_after (if c = CHR 0x27 then Bare else Single) s"
| "quote_after Double (c # s) = quote_after (if c = CHR 0x22 then Bare else Double) s"

lemma quote_after_append [simp]: "quote_after m (a @ b) = quote_after (quote_after m a) b"
  by (induction m a rule: quote_after.induct) auto

lemma quote_after_replaced: "quote_after Single (replace_all s [apostrophe] quoted_apostrophe) = Single"
proof (induction "length s" arbitrary: s rule: less_induct)
  case less
  show ?case
  proof (cases s)
    case (Cons c t)
    with less [of t] show ?thesis
      by (subst replace_all.simps) (auto simp: apostrophe_def quoted_apostrophe_def)
  qed (simp add: replace_all.simps)
qed

lemma quote_after_ShellQuote [simp]: "quote_after Bare (ShellQuote s) = Bare"
  using quote_after_replaced [of s] by (simp add: ShellQuote_def apostrophe_def)

lemma quote_after_plain: "apostrophe \<notin> set s \<Longrightarrow> CHR 0x22 \<notin> set s \<Longrightarrow> quote_after m s = m"
  by (induction m s rule: quote_after.induct) (auto simp: apostrophe_def)

lemma quote_after_octal [simp]: "quote_after m (octal width n) = m"
proof (rule quote_after_plain)
  have "CHR ''0'' \<le> c \<and> c \<le> CHR ''9''" if "c \<in> set (octal width n)" for c
  proof -
    from that have "c \<in> (\<lambda>k. digit_char (int (n div 8 ^ k mod 8))) ` set (rev [0..<width])" unfolding octal_def set_map .
    then obtain k where c: "c = digit_char (int (n div 8 ^ k mod 8))" by blast
    have "n div 8 ^ k mod 8 < 8" by simp
    then have "int (n div 8 ^ k mod 8) < 10" by linarith
    with c digit_value_char [of "int (n div 8 ^ k mod 8)"] show ?thesis by (auto simp: digit_value_def split: if_splits)
  qed
  then show "apostrophe \<notin> set (octal width n)" "CHR 0x22 \<notin> set (octal width n)"
    by (fastforce simp: apostrophe_def)+
qed

lemma quote_after_itoa [simp]: "0 \<le> n \<Longrightarrow> quote_after m (itoa n) = m"
  using int_digits_digit [of n] by (intro quote_after_plain) (auto simp: itoa_def apostrophe_def list_all_iff dest!: bspec)

lemma quote_after_guard [simp]: "quote_after Bare (tool_guard integrityToolMissingMarker) = Bare"
  by code_simp

lemma quote_after_prefix [simp]: "quote_after Bare (upload_prefix path digest dirMode) = Bare"
  by (simp add: upload_prefix_def remoteMkdirParents_def)

lemma quote_after_checks [simp]: "quote_after Bare (upload_checks expected digest) = Bare"
  by (simp add: upload_checks_def)

text \<open>
  In the message for a destination that is a directory, the quoted path stands between quotation marks, where the
  apostrophes quote nothing: the shell expands what the path contains.
\<close>

lemma directory_message_expands_the_path:
  "\<exists>pre post. uploadCommandWithIntegrity path mode expected digest dirMode = pre @ ShellQuote (upload_path path) @ post \<and>
     quote_after Bare pre = Double"
proof -
  let ?Q = "ShellQuote (upload_path path)"
  let ?pre = \<open>upload_prefix (upload_path path) digest dirMode @ ''tmp='' @ ?Q @
      ''.ssm-upload.$$; trap 'rm -f -- "$tmp"' EXIT HUP INT TERM; '' @
      ''cat > "$tmp" && chmod '' @ octal 4 (mode mod 512) @ '' "$tmp" || exit $?; '' @ upload_checks expected digest @
      ''[ -d '' @ ?Q @ '' ] && { rm -f -- "$tmp"; echo "remote destination ''\<close>
  have "quote_after Bare ?pre = Double" by simp
  moreover have "\<exists>post. uploadCommandWithIntegrity path mode expected digest dirMode = ?pre @ ?Q @ post"
    unfolding uploadCommandWithIntegrity_def Let_def append_assoc by (rule exI) (rule refl)
  ultimately show ?thesis by blast
qed

text \<open>
  When the parent directory cannot be made, \<^verbatim>\<open>tmp\<close> keeps the value of the login environment: the script overwrites that
  file, and it is gone afterwards.
\<close>

lemma failed_mkdir_destroys_the_inherited_file:
  "case upload_script (sample_remote\<lparr>ur_InheritedSet := True\<rparr>) ''d/f'' 420 2 [] [1, 2]
     \<lparr>sw_State = sample_upload_fs\<lparr>up_Inherited := Some ([7], 384)\<rparr>, sw_Schedule = [(id, Fails)]\<rparr> of
     Stopped s \<Rightarrow> False
   | Finished res w \<Rightarrow> res = Inr (0, receipt ''2'' ''-'', []) \<and> up_Inherited (sw_State w) = None"
  by code_simp

end
