(* ===== verification/Resume_Props.thy ===== *)
theory Resume_Props
  imports Resumable_Upload Transfer_Props
begin

text \<open>
  Properties of the resumable upload: what its two scripts leave behind, wherever they stop, and what a later attempt
  makes of it.
\<close>

section \<open>Rules for the steps of the scripts\<close>

text \<open>What a test or an output says of the state is used at once, as a fact about the value.\<close>

lemma bind_test:
  assumes "\<And>s. R s s" "stable R P" "\<And>s. P s \<Longrightarrow> I s"
    and k: "\<And>b s. P s \<Longrightarrow> (b \<Longrightarrow> p s) \<Longrightarrow> valid R I P (k b) Q"
  shows "valid R I P (bind_step (test_that p) k) Q"
proof (rule valid_bind [where M = "\<lambda>b s. P s \<and> (b \<longrightarrow> p s)"])
  show "valid R I P (test_that p) (\<lambda>r s. case r of Inl e \<Rightarrow> Q (Inl e) s | Inr b \<Rightarrow> P s \<and> (b \<longrightarrow> p s))"
    unfolding test_that_def
    by (rule valid_handle [where M = "\<lambda>x s. P s \<and> (\<not> isl x \<longrightarrow> p s)"])
      (auto intro!: valid_look assms(1-3) valid_result split: if_splits)
  show "valid R I (\<lambda>s. P s \<and> (b \<longrightarrow> p s)) (k b) Q" for b
    by (rule valid_given [where P = P]) (auto intro: k)
qed

lemma bind_output:
  assumes "\<And>s. R s s" "stable R P" "\<And>s. P s \<Longrightarrow> I s"
    and k: "\<And>t s. P s \<Longrightarrow> t = [] \<or> f s = Some t \<Longrightarrow> valid R I P (k t) Q"
  shows "valid R I P (bind_step (output_of f) k) Q"
proof (rule valid_bind [where M = "\<lambda>t s. P s \<and> (t = [] \<or> f s = Some t)"])
  show "valid R I P (output_of f) (\<lambda>r s. case r of Inl e \<Rightarrow> Q (Inl e) s | Inr t \<Rightarrow> P s \<and> (t = [] \<or> f s = Some t))"
    unfolding output_of_def
    by (rule valid_handle [where M = "\<lambda>x s. P s \<and> (\<forall>t. x = Inr t \<longrightarrow> f s = Some t)"])
      (auto intro!: valid_look assms(1-3) valid_result split: if_splits option.splits sum.splits)
  show "valid R I (\<lambda>s. P s \<and> (t = [] \<or> f s = Some t)) (k t) Q" for t
    by (rule valid_given [where P = P]) (auto intro: k)
qed

text \<open>Where nothing of the value is used, the rules follow the text of a script.\<close>

lemma bind_any_test:
  assumes "\<And>s. R s s" "stable R P" "\<And>s. P s \<Longrightarrow> I s" "\<And>b. valid R I P (k b) Q"
  shows "valid R I P (bind_step (test_that p) k) Q"
  by (rule bind_test) (use assms in auto)

lemma bind_any_output:
  assumes "\<And>s. R s s" "stable R P" "\<And>s. P s \<Longrightarrow> I s" "\<And>t. valid R I P (k t) Q"
  shows "valid R I P (bind_step (output_of f) k) Q"
  by (rule bind_output) (use assms in auto)

lemmas script_rules = valid_if bind_if bind_result bind_any_test bind_any_output

section \<open>What others may do\<close>

text \<open>Others leave the destination alone; they may remove the partial file and do what they like with the metadata.\<close>

definition leaves_resume :: "resume_fs \<Rightarrow> resume_fs \<Rightarrow> bool" where
  "leaves_resume s s' \<longleftrightarrow> rf_Dest s' = rf_Dest s \<and> (partial_file s' = partial_file s \<or> partial_file s' = None)"

lemma leaves_resume_refl: "leaves_resume s s"
  by (simp add: leaves_resume_def)

definition whole :: "upload_remote \<Rightarrow> nat \<Rightarrow> nat \<Rightarrow> string \<Rightarrow> resume_fs \<Rightarrow> bool" where
  "whole r mode fullsize digest s \<longleftrightarrow>
     (\<exists>data. rf_Dest s = Some (RemoteFile data mode) \<and> length data = fullsize \<and> ur_sha r data = digest)"

definition kept_or_whole :: "remote_node option \<Rightarrow> upload_remote \<Rightarrow> nat \<Rightarrow> nat \<Rightarrow> string \<Rightarrow> resume_fs \<Rightarrow> bool" where
  "kept_or_whole old r mode fullsize digest s \<longleftrightarrow>
     rf_Dest s = old \<or> old \<noteq> Some RemoteDirectory \<and> whole r mode fullsize digest s"

definition append_post :: "remote_node option \<Rightarrow> upload_remote \<Rightarrow> nat \<Rightarrow> nat \<Rightarrow> string \<Rightarrow> call_error + script_result \<Rightarrow> resume_fs \<Rightarrow> bool" where
  "append_post old r mode fullsize digest res s \<longleftrightarrow>
     kept_or_whole old r mode fullsize digest s \<and>
     (\<forall>out err. res = Inr (0, out, err) \<longrightarrow> old \<noteq> Some RemoteDirectory \<longrightarrow> whole r mode fullsize digest s)"

definition partial_is :: "remote_node option \<Rightarrow> bytes \<Rightarrow> nat \<Rightarrow> resume_fs \<Rightarrow> bool" where
  "partial_is old data mode s \<longleftrightarrow> rf_Dest s = old \<and> (\<forall>node. partial_file s = Some node \<longrightarrow> node = (data, mode))"

lemma partial_file_simps [simp]:
  "partial_file (set_partial data mode s) = Some (data, mode)"
  "partial_file (s\<lparr>rf_Partial := p\<rparr>) = (case p of Some (RemoteFile data mode) \<Rightarrow> Some (data, mode) | _ \<Rightarrow> None)"
  "partial_file (s\<lparr>rf_Meta := m\<rparr>) = partial_file s" "partial_file (s\<lparr>rf_MetaTemp := mt\<rparr>) = partial_file s"
  "partial_file (s\<lparr>rf_OldMeta := b\<rparr>) = partial_file s" "partial_file (s\<lparr>rf_Parent := b\<rparr>) = partial_file s"
  "rf_Dest (set_partial data mode s) = rf_Dest s" "rf_Dest (expire s) = rf_Dest s"
  by (simp_all add: partial_file_def set_partial_def expire_def Let_def)

lemma stable_resume [simp]:
  "stable leaves_resume (\<lambda>s. rf_Dest s = old)" "stable leaves_resume (partial_is old data mode)"
  "stable leaves_resume (kept_or_whole old r mode fullsize digest)" "stable leaves_resume (whole r mode fullsize digest)"
  by (auto simp: stable_def leaves_resume_def partial_is_def kept_or_whole_def whole_def)

lemma kept_dest [simp]: "kept_or_whole (rf_Dest s) r mode fullsize digest s"
  by (simp add: kept_or_whole_def)

lemma partial_is_kept: "partial_is old data m s \<Longrightarrow> kept_or_whole old r mode fullsize digest s"
  by (auto simp: partial_is_def)

section \<open>The second script\<close>

lemma append_publish_valid:
  assumes "length data = fullsize" "ur_sha r data = digest"
  shows "valid leaves_resume (kept_or_whole old r mode fullsize digest) (partial_is old data mode)
    (append_publish r actual_size actual_sha) (append_post old r mode fullsize digest)"
proof -
  let ?K = "kept_or_whole old r mode fullsize digest"
  let ?new = "\<lambda>s. ?K s \<and> (old \<noteq> Some RemoteDirectory \<longrightarrow> whole r mode fullsize digest s)"
  have stable_new: "stable leaves_resume ?new"
    by (auto simp: stable_def leaves_resume_def kept_or_whole_def whole_def)
  have move: "valid leaves_resume ?K (partial_is old data mode) (call (\<lambda>s. case partial_file s of
         None \<Rightarrow> Inl Missing
       | Some (data, mode) \<Rightarrow> Inr ((),
           (if rf_Dest s = Some RemoteDirectory then s\<lparr>rf_Inside := Some (data, mode), rf_Partial := None\<rparr>
            else s\<lparr>rf_Dest := Some (RemoteFile data mode), rf_Partial := None\<rparr>))))
      (\<lambda>moved s. if isl moved then ?K s else ?new s)"
    by (rule valid_call)
      (use assms in \<open>auto intro: leaves_resume_refl simp: partial_is_def kept_or_whole_def whole_def split: option.splits\<close>)
  have rest: "valid leaves_resume ?K ?new (handle (act (\<lambda>s. s\<lparr>rf_Meta := None\<rparr>)) (\<lambda>_.
      handle plain_call (\<lambda>printed. result (if isl printed then (1, [], []) else (0, receipt actual_size actual_sha, [])))))
      (append_post old r mode fullsize digest)"
    by (rule valid_handle [where M = "\<lambda>_. ?new"], rule valid_act)
      (auto intro!: leaves_resume_refl stable_new valid_handle [where M = "\<lambda>_. ?new"] valid_plain valid_result
        simp: append_post_def, auto simp: kept_or_whole_def whole_def)
  show ?thesis
    unfolding append_publish_def
  proof (rule valid_handle [OF move])
    fix moved :: "call_error + unit"
    have "valid leaves_resume ?K ?K (result (73, resume_error ''publish_failed'', [])) (append_post old r mode fullsize digest)"
      by (rule valid_result) (simp add: append_post_def)
    with rest show "valid leaves_resume ?K (\<lambda>s. if isl moved then ?K s else ?new s)
      (if isl moved then result (73, resume_error ''publish_failed'', [])
       else handle (act (\<lambda>s. s\<lparr>rf_Meta := None\<rparr>)) (\<lambda>_.
          handle plain_call (\<lambda>printed. result (if isl printed then (1, [], []) else (0, receipt actual_size actual_sha, [])))))
      (append_post old r mode fullsize digest)" by auto
  qed
qed

lemma refused_post:
  "code \<noteq> 0 \<Longrightarrow> (\<And>s. P s \<Longrightarrow> kept_or_whole old r mode fullsize digest s) \<Longrightarrow>
   valid R I P (result (code, out, err)) (append_post old r mode fullsize digest)"
  by (rule valid_result) (auto simp: append_post_def)

lemma itoa_nat_inj: "itoa (int m) = itoa (int n) \<Longrightarrow> m = n"
  using itoa_inj [of "int m" "int n"] by simp

lemma append_check_valid:
  assumes "digest \<noteq> []"
  shows "valid leaves_resume (kept_or_whole old r mode fullsize digest) (partial_is old data mode)
    (append_check r fullsize digest) (append_post old r mode fullsize digest)"
  unfolding append_check_def
proof (rule bind_output)
  fix n s1 assume s1: "partial_is old data mode s1" "n = [] \<or> partial_size s1 = Some n"
  show "valid leaves_resume (kept_or_whole old r mode fullsize digest) (partial_is old data mode)
    (bind_step (output_of (partial_sha r)) (\<lambda>sha. if n = itoa (int fullsize) \<and> sha = digest then append_publish r n sha
       else result (65, resume_error ''digest_mismatch'', []))) (append_post old r mode fullsize digest)"
  proof (rule bind_output)
    fix sha s2 assume s2: "partial_is old data mode s2" "sha = [] \<or> partial_sha r s2 = Some sha"
    have "length data = fullsize" if "n = itoa (int fullsize)"
      using s1 that itoa_nonempty [of "int fullsize"] by (auto simp: partial_size_def partial_is_def intro: itoa_nat_inj)
    moreover have "ur_sha r data = digest" if "sha = digest"
      using s2 that assms by (auto simp: partial_sha_def partial_is_def)
    ultimately show "valid leaves_resume (kept_or_whole old r mode fullsize digest) (partial_is old data mode)
      (if n = itoa (int fullsize) \<and> sha = digest then append_publish r n sha
       else result (65, resume_error ''digest_mismatch'', [])) (append_post old r mode fullsize digest)"
      by (auto intro!: append_publish_valid refused_post intro: partial_is_kept)
  qed (auto intro: leaves_resume_refl partial_is_kept)
qed (auto intro: leaves_resume_refl partial_is_kept)

lemma append_rest_valid:
  assumes "digest \<noteq> []"
  shows "valid leaves_resume (kept_or_whole old r mode fullsize digest) (\<lambda>s. rf_Dest s = old)
    (append_rest r mode fullsize digest input) (append_post old r mode fullsize digest)"
proof -
  let ?K = "kept_or_whole old r mode fullsize digest"
  let ?old = "\<lambda>s. rf_Dest s = old"
  let ?add = "\<lambda>more s. case partial_file s of None \<Rightarrow> set_partial more 420 s | Some (data, m) \<Rightarrow> set_partial (data @ more) m s"
  have add [simp]: "rf_Dest (?add more s) = rf_Dest s" for more s
    by (auto split: option.split)
  have refused: "code \<noteq> 0 \<Longrightarrow> valid leaves_resume ?K ?old (result (code, out, err)) (append_post old r mode fullsize digest)" for code out err
    by (rule refused_post) auto
  have cat: "valid leaves_resume ?K ?old (write_call (\<lambda>n. ?add (take n input)) (\<lambda>s. Inr ((), ?add input s))) (\<lambda>_. ?old)"
    by (rule valid_write_call) (auto intro: leaves_resume_refl simp: kept_or_whole_def)
  have chmod: "valid leaves_resume ?K ?old (call (\<lambda>s. case partial_file s of
        None \<Rightarrow> Inl Missing | Some (data, _) \<Rightarrow> Inr ((), s\<lparr>rf_Partial := Some (RemoteFile data mode)\<rparr>)))
      (\<lambda>res s. ?old s \<and> (\<not> isl res \<longrightarrow> (\<exists>data. partial_is old data mode s)))"
    by (rule valid_call) (auto intro: leaves_resume_refl simp: partial_is_def split: option.splits)
  have check: "valid leaves_resume ?K (\<lambda>s. ?old s \<and> (\<not> isl res \<longrightarrow> (\<exists>data. partial_is old data mode s)))
      (if isl res then result (73, [], []) else append_check r fullsize digest) (append_post old r mode fullsize digest)"
    for res :: "call_error + unit"
    using refused [of 73] by (cases "isl res") (auto intro!: valid_pre [OF valid_exists [OF append_check_valid [OF assms]]] valid_pre [OF refused])
  show ?thesis
    unfolding append_rest_def Let_def
    using valid_handle [OF cat, of _ "append_post old r mode fullsize digest"] valid_handle [OF chmod check] refused [of 74] by auto
qed

theorem append_script_valid:
  assumes "digest \<noteq> []"
  shows "valid leaves_resume (kept_or_whole old r mode fullsize digest) (\<lambda>s. rf_Dest s = old)
    (append_script r mode fullsize digest offset prefixDigest input) (append_post old r mode fullsize digest)"
proof -
  have refused: "code \<noteq> 0 \<Longrightarrow> valid leaves_resume (kept_or_whole old r mode fullsize digest) (\<lambda>s. rf_Dest s = old)
      (result (code, out, err)) (append_post old r mode fullsize digest)" for code out err
    by (rule refused_post) auto
  have keep: "rf_Dest s = old \<Longrightarrow> kept_or_whole old r mode fullsize digest s" for s
    by (simp add: kept_or_whole_def)
  show ?thesis
    unfolding append_script_def Let_def
    by (intro script_rules refused append_rest_valid assms leaves_resume_refl stable_resume keep) simp_all
qed

section \<open>The first script\<close>

lemma dest_step:
  assumes "\<And>x. valid leaves_resume (\<lambda>s. rf_Dest s = old) (\<lambda>s. rf_Dest s = old) (k x) (\<lambda>_ s. rf_Dest s = old)"
  shows "(\<And>s. rf_Dest (f s) = rf_Dest s) \<Longrightarrow>
      valid leaves_resume (\<lambda>s. rf_Dest s = old) (\<lambda>s. rf_Dest s = old) (handle (act f) k) (\<lambda>_ s. rf_Dest s = old)"
    and "valid leaves_resume (\<lambda>s. rf_Dest s = old) (\<lambda>s. rf_Dest s = old) m (\<lambda>_ s. rf_Dest s = old) \<Longrightarrow>
      valid leaves_resume (\<lambda>s. rf_Dest s = old) (\<lambda>s. rf_Dest s = old) (handle m k) (\<lambda>_ s. rf_Dest s = old)"
  by (auto intro!: valid_handle [where M = "\<lambda>_ s. rf_Dest s = old"] valid_act assms leaves_resume_refl)

lemma dest_bind:
  assumes "valid leaves_resume (\<lambda>s. rf_Dest s = old) (\<lambda>s. rf_Dest s = old) m (\<lambda>_ s. rf_Dest s = old)"
    and "\<And>x. valid leaves_resume (\<lambda>s. rf_Dest s = old) (\<lambda>s. rf_Dest s = old) (k x) (\<lambda>_ s. rf_Dest s = old)"
  shows "valid leaves_resume (\<lambda>s. rf_Dest s = old) (\<lambda>s. rf_Dest s = old) (bind_step m k) (\<lambda>_ s. rf_Dest s = old)"
  by (rule valid_bind [OF valid_post [OF assms(1)] assms(2)]) (simp split: sum.split)

lemma probe_report_keeps:
  "valid leaves_resume (\<lambda>s. rf_Dest s = old) (\<lambda>s. rf_Dest s = old) (probe_report r offset) (\<lambda>_ s. rf_Dest s = old)"
  unfolding probe_report_def plain_call_def
  by (intro script_rules dest_step(1) valid_result leaves_resume_refl stable_resume) simp_all

lemma probe_existing_keeps:
  "valid leaves_resume (\<lambda>s. rf_Dest s = old) (\<lambda>s. rf_Dest s = old) (probe_existing r fullsize digest) (\<lambda>_ s. rf_Dest s = old)"
proof -
  have "valid leaves_resume (\<lambda>s. rf_Dest s = old) (\<lambda>s. rf_Dest s = old)
      (case n of None \<Rightarrow> result (65, resume_error ''incompatible'', [])
       | Some n \<Rightarrow> if n \<le> int fullsize then probe_report r offset else result (65, resume_error ''incompatible'', []))
      (\<lambda>_ s. rf_Dest s = old)" for n offset
    by (auto intro!: probe_report_keeps valid_result split: option.split)
  then show ?thesis
    unfolding probe_existing_def Let_def
    by (intro script_rules valid_result leaves_resume_refl stable_resume) simp_all
qed

lemma probe_fresh_keeps:
  "valid leaves_resume (\<lambda>s. rf_Dest s = old) (\<lambda>s. rf_Dest s = old) (probe_fresh r fullsize digest) (\<lambda>_ s. rf_Dest s = old)"
proof -
  have act: "(\<And>s. rf_Dest (f s) = rf_Dest s) \<Longrightarrow> valid leaves_resume (\<lambda>s. rf_Dest s = old) (\<lambda>s. rf_Dest s = old) (act f) (\<lambda>_ s. rf_Dest s = old)" for f
    by (rule valid_act) (auto intro: leaves_resume_refl)
  have describe: "valid leaves_resume (\<lambda>s. rf_Dest s = old) (\<lambda>s. rf_Dest s = old)
      (write_call (\<lambda>n s. s\<lparr>rf_MetaTemp := Some (take n (metadata_line fullsize digest))\<rparr>)
          (\<lambda>s. Inr ((), s\<lparr>rf_MetaTemp := Some (metadata_line fullsize digest)\<rparr>))) (\<lambda>_ s. rf_Dest s = old)"
    by (rule valid_write_call) (auto intro: leaves_resume_refl)
  have rename: "valid leaves_resume (\<lambda>s. rf_Dest s = old) (\<lambda>s. rf_Dest s = old)
      (call (\<lambda>s. case rf_MetaTemp s of
            None \<Rightarrow> Inl Missing
          | Some text \<Rightarrow> Inr ((), s\<lparr>rf_Meta := Some (MetaText text), rf_MetaTemp := None, rf_OldMeta := False\<rparr>)))
      (\<lambda>_ s. rf_Dest s = old)"
    by (rule valid_call) (auto intro: leaves_resume_refl split: option.splits)
  show ?thesis
    unfolding probe_fresh_def
    by (intro dest_step(2) dest_bind act describe rename valid_if valid_result probe_report_keeps) simp_all
qed

lemma probe_script_keeps:
  "valid leaves_resume (\<lambda>s. rf_Dest s = old) (\<lambda>s. rf_Dest s = old) (probe_script r fullsize digest) (\<lambda>_ s. rf_Dest s = old)"
  unfolding probe_script_def
  by (intro script_rules dest_step(1) valid_result probe_existing_keeps probe_fresh_keeps leaves_resume_refl stable_resume) simp_all

section \<open>The resumable put\<close>

lemma probe_answer_lost: "probe_answer fullsize (lost_session lk) \<noteq> Inr state"
  by (simp add: probe_answer_def lost_session_def)

lemma probeResumeState_keeps:
  assumes "probeResumeState lk r fullsize digest w = (answer, w1)" and "keeps_to leaves_resume (sw_Schedule w)"
  shows "rf_Dest (sw_State w1) = rf_Dest (sw_State w) \<and> keeps_to leaves_resume (sw_Schedule w1)"
proof -
  note v = probe_script_keeps [of "rf_Dest (sw_State w)" r fullsize digest]
  show ?thesis
  proof (cases "probe_script r fullsize digest w")
    case (Stopped s)
    with valid_stopped [OF v refl assms(2)] assms show ?thesis
      by (auto simp: probeResumeState_def Let_def keeps_to_def split: if_splits)
  next
    case (Finished res w2)
    with valid_finished [OF v refl assms(2)] assms show ?thesis
      by (auto simp: probeResumeState_def Let_def split: if_splits)
  qed
qed

lemma append_remote_end:
  assumes "remote_end lk (append_script r mode fullsize digest offset prefixDigest input w) = (e, s)"
    and "keeps_to leaves_resume (sw_Schedule w)" and "old = rf_Dest (sw_State w)" and "digest \<noteq> []"
  shows "kept_or_whole old r mode fullsize digest s"
    and "se_Wait e = WaitOk \<Longrightarrow> old \<noteq> Some RemoteDirectory \<Longrightarrow> whole r mode fullsize digest s"
proof -
  note v = append_script_valid [OF assms(4), of old r mode fullsize offset prefixDigest input]
  show "kept_or_whole old r mode fullsize digest s"
    using assms valid_stopped [OF v] valid_finished [OF v]
    by (fastforce simp: remote_end_def append_post_def split: run.splits sum.splits)
  show "whole r mode fullsize digest s" if "se_Wait e = WaitOk" "old \<noteq> Some RemoteDirectory"
    using assms that valid_finished [OF v]
    by (fastforce simp: remote_end_def append_post_def lost_session_def split: run.splits sum.splits if_splits)
qed

lemma resume_outcome_ok:
  assumes "resume_outcome fullsize digest lk res written e = (res', err)" and "\<not> tr_OK res"
  shows "(tr_OK res' \<longleftrightarrow> err = None) \<and> (err = None \<longrightarrow> se_Wait e = WaitOk)"
  using assms
  by (auto simp: resume_outcome_def collectResumeRemoteFirst_def resume_failed_def resume_receipt_def
      split: if_splits option.splits)

definition resumed_put :: "(bytes \<Rightarrow> string) \<Rightarrow> resume_local \<Rightarrow> resume_fs \<Rightarrow> bool" where
  "resumed_put sha f s \<longleftrightarrow>
     (\<exists>data content. rf_Dest s = Some (RemoteFile data (rl_Mode f)) \<and> rl_Hashed f = Some content \<and>
        length data = rl_Size f \<and> sha data = sha content)"

lemma append_session_atomic:
  assumes "append_session f lk r digest state res0 w = ((res, err), s)" and "\<not> tr_OK res0"
    and "keeps_to leaves_resume (sw_Schedule w)" and "rl_Hashed f = Some content" "digest = sha content"
    and "ur_sha r = sha" and "digest \<noteq> []" and "rf_Dest (sw_State w) \<noteq> Some RemoteDirectory"
  shows "(rf_Dest s = rf_Dest (sw_State w) \<or> resumed_put sha f s) \<and>
    (tr_OK res \<longleftrightarrow> err = None) \<and> (err = None \<longrightarrow> resumed_put sha f s)"
proof (cases "lk_Session lk \<and> lk_Stdin lk \<and> lk_Start lk = Accepted")
  case False
  with assms(1,2) show ?thesis by (auto simp: append_session_def Let_def split: if_splits)
next
  case True
  let ?rest = "rl_Rest f (nat (rst_Offset state))"
  define sent where "sent = (if lk_CopyFails lk then take (lk_Written lk) ?rest else ?rest)"
  obtain e s' where run: "remote_end lk (append_script r (rl_Mode f) (rl_Size f) digest (rst_Offset state) (rst_Digest state)
      (take (lk_Arrived lk) sent) w) = (e, s')" by fastforce
  define res1 where "res1 = res0\<lparr>tr_Stage := ''remote_write'', tr_BytesSent := int (length sent)\<rparr>"
  have out: "resume_outcome (rl_Size f) digest lk res1 (int (length sent)) e = (res, err)" "s = s'"
    using assms(1) True run by (simp_all add: append_session_def Let_def sent_def res1_def)
  have finished: "resumed_put sha f s" if "whole r (rl_Mode f) (rl_Size f) digest s"
    using that assms by (auto simp: whole_def resumed_put_def)
  note remote = append_remote_end [OF run assms(3) refl assms(7)]
  have "\<not> tr_OK res1" using assms(2) by (simp add: res1_def)
  with resume_outcome_ok [OF out(1)] remote out(2) finished assms(8) show ?thesis
    unfolding kept_or_whole_def by blast
qed

text \<open>
  C11. Whatever the connection does, whichever command of the two scripts fails or is the last one, and whatever partial
  file an earlier attempt has left, a resumable put leaves the old destination or a file with the size and the digest of
  the local file, under its mode. It reports success only in the second case.
\<close>

theorem resumable_put_is_atomic:
  assumes "uploadFileResumable sha version f probe lk r w = ((res, err), s)"
    and others: "keeps_to leaves_resume (sw_Schedule w)" and tool: "ur_sha r = sha" and digests: "\<And>b. sha b \<noteq> []"
    and not_dir: "rf_Dest (sw_State w) \<noteq> Some RemoteDirectory"
  shows "(rf_Dest s = rf_Dest (sw_State w) \<or> resumed_put sha f s) \<and>
    (tr_OK res \<longleftrightarrow> err = None) \<and> (err = None \<longrightarrow> resumed_put sha f s)"
proof -
  have early: ?thesis if "rf_Dest s = rf_Dest (sw_State w)" "\<not> tr_OK res" "err \<noteq> None"
    using that by auto
  show ?thesis
  proof (cases "version = resumeProtocolV1 \<and> rl_Opens f \<and> rl_Regular f \<and> rl_Hashed f \<noteq> None \<and> lk_Dials lk")
    case False
    with assms(1) show ?thesis
      by (intro early) (auto simp: uploadFileResumable_def initial_result_def Let_def split: if_splits option.splits)
  next
    case True
    then obtain content where content: "rl_Hashed f = Some content" by blast
    obtain answer w1 where probed: "probeResumeState probe r (rl_Size f) (sha content) w = (answer, w1)" by fastforce
    note kept = probeResumeState_keeps [OF probed others]
    show ?thesis
    proof (cases "\<exists>state. answer = Inr state \<and> rl_Seeks f \<and>
        (\<exists>prefix. rl_Prefix f (nat (rst_Offset state)) = Some prefix \<and> sha prefix = rst_Digest state)")
      case False
      with assms(1) True content probed kept show ?thesis
        by (intro early)
          (auto simp: uploadFileResumable_def initial_result_def Let_def split: if_splits option.splits sum.splits)
    next
      case True
      then obtain state prefix where state: "answer = Inr state" "rl_Seeks f"
        "rl_Prefix f (nat (rst_Offset state)) = Some prefix" "sha prefix = rst_Digest state" by blast
      then obtain res0 where "append_session f lk r (sha content) state res0 w1 = ((res, err), s)" "\<not> tr_OK res0"
        using assms(1) \<open>version = resumeProtocolV1 \<and> _\<close> content probed
        by (auto simp: uploadFileResumable_def initial_result_def Let_def)
      from append_session_atomic [OF this] kept content tool digests not_dir show ?thesis by simp
    qed
  qed
qed

section \<open>Going on where an attempt was cut short\<close>

lemma test_calm: "test_that p (calm s) = Finished (Inr (p s)) (calm s)"
  by (simp add: test_that_def handle_def look_calm step_simps)

lemma output_calm: "output_of f (calm s) = Finished (Inr (case f s of None \<Rightarrow> [] | Some t \<Rightarrow> t)) (calm s)"
  by (simp add: output_of_def handle_def look_calm step_simps split: option.split)

lemma blank_space: "shell_blank c \<Longrightarrow> ascii_space c"
  by (auto simp: shell_blank_def ascii_space_def)

lemma shell_words_word:
  assumes "word w" "rest = [] \<or> shell_blank (hd rest)"
  shows "shell_words (w @ rest) = w # shell_words rest"
proof -
  have w: "w \<noteq> []" "list_all (\<lambda>c. \<not> shell_blank c) w" using assms(1) blank_space by (auto simp: word_def list_all_iff)
  then have "dropWhile shell_blank (w @ rest) = w @ rest" by (cases w) auto
  moreover have "takeWhile (\<lambda>c. \<not> shell_blank c) (w @ rest) = w" "dropWhile (\<lambda>c. \<not> shell_blank c) (w @ rest) = rest"
    using w assms(2) by (cases rest; auto simp: list_all_iff takeWhile_append2 dropWhile_append2)+
  ultimately show ?thesis using w(1) by (subst shell_words.simps) (simp add: Let_def)
qed

lemma shell_words_blank: "shell_blank c \<Longrightarrow> shell_words (c # s) = shell_words s"
  by (subst (1 2) shell_words.simps) simp

lemma metadata_fits_line: "word digest \<Longrightarrow> metadata_fits n digest (metadata_line n digest)"
proof -
  assume d: "word digest"
  have n: "word (itoa (int n))" using int_digits_word [of "int n"] by (simp add: itoa_def)
  have v: "word ''v1''" by code_simp
  have b: "shell_blank (CHR '' '')" "shell_blank (CHR 0x0A)" by code_simp+
  have "shell_words [CHR 0x0A] = []" using b by (subst shell_words.simps) simp
  then have "shell_words (digest @ [CHR 0x0A]) = [digest]" using shell_words_word [OF d, of "[CHR 0x0A]"] b by simp
  then have "shell_words (itoa (int n) @ '' '' @ digest @ [CHR 0x0A]) = [itoa (int n), digest]"
    using shell_words_word [OF n, of "'' '' @ digest @ [CHR 0x0A]"] shell_words_blank [OF b(1)] b by simp
  then have "shell_words (''v1'' @ '' '' @ itoa (int n) @ '' '' @ digest @ [CHR 0x0A]) = [''v1'', itoa (int n), digest]"
    using shell_words_word [OF v, of "'' '' @ itoa (int n) @ '' '' @ digest @ [CHR 0x0A]"] shell_words_blank [OF b(1)] b by simp
  then show ?thesis by (simp add: metadata_fits_def metadata_line_def)
qed

definition resumable :: "string \<Rightarrow> bytes \<Rightarrow> nat \<Rightarrow> resume_fs \<Rightarrow> bool" where
  "resumable digest content k s \<longleftrightarrow>
     k \<le> length content \<and> (\<exists>mode. rf_Partial s = Some (RemoteFile (take k content) mode)) \<and> \<not> rf_OldPartial s \<and>
     rf_Meta s = Some (MetaText (metadata_line (length content) digest)) \<and> \<not> rf_OldMeta s"

text \<open>No attempt has left anything, or one has left the first \<open>k\<close> bytes.\<close>

definition attempted :: "string \<Rightarrow> bytes \<Rightarrow> nat \<Rightarrow> resume_fs \<Rightarrow> bool" where
  "attempted digest content k s \<longleftrightarrow> k = 0 \<and> rf_Partial s = None \<and> rf_Meta s = None \<or> resumable digest content k s"

lemma itoa_zero: "itoa 0 = ''0''"
  by code_simp

lemma probe_report_calm:
  "rf_Partial s = Some (RemoteFile data mode) \<Longrightarrow>
   probe_report r offset (calm s) = Finished (Inr (0, resume_line offset (ur_sha r data), [])) (calm s)"
  by (simp add: probe_report_def bind_step_def handle_def output_calm plain_calm step_simps partial_sha_def partial_file_def)

lemma probe_existing_calm:
  assumes "resumable digest content k s" and "word digest" and "int (length content) < 2 ^ 63"
  shows "probe_existing r (length content) digest (calm s) =
    Finished (Inr (0, resume_line (itoa (int k)) (ur_sha r (take k content)), [])) (calm s)"
proof -
  have "parse_int64 (itoa (int k)) = Some (int k)" using assms by (intro parse_int64_itoa) (auto simp: resumable_def)
  then show ?thesis
    using assms(1) metadata_fits_line [OF assms(2), of "length content"] probe_report_calm
    by (auto simp: probe_existing_def bind_step_def handle_def test_calm output_calm Let_def resumable_def partial_file_def
        partial_size_def meta_text_def)
qed

lemma probe_calm:
  assumes "attempted digest content k s" and "ur_Tool r" and "word digest" and "int (length content) < 2 ^ 63"
  shows "\<exists>s'. probe_script r (length content) digest (calm s) =
      Finished (Inr (0, resume_line (itoa (int k)) (ur_sha r (take k content)), [])) (calm s') \<and>
    resumable digest content k s' \<and> rf_Dest s' = rf_Dest s"
proof (cases "resumable digest content k s")
  case True
  let ?s = "s\<lparr>rf_Parent := True\<rparr>"
  have "resumable digest content k ?s" "expire ?s = ?s" "rf_Partial ?s \<noteq> None"
    using True by (auto simp: resumable_def expire_def)
  then have "probe_script r (length content) digest (calm s) = probe_existing r (length content) digest (calm ?s)"
    using assms(2) by (simp add: probe_script_def bind_step_def handle_def test_calm act_calm step_simps)
  then show ?thesis using probe_existing_calm [OF _ assms(3,4)] \<open>resumable digest content k ?s\<close> by auto
next
  case False
  then have fresh: "k = 0" "rf_Partial s = None" "rf_Meta s = None" using assms(1) by (auto simp: attempted_def)
  let ?s = "s\<lparr>rf_Parent := True\<rparr>"
  have "expire ?s = ?s" using fresh by (simp add: expire_def partial_file_def meta_text_def)
  then have "probe_script r (length content) digest (calm s) = probe_fresh r (length content) digest (calm ?s)"
    using assms(2) fresh by (simp add: probe_script_def bind_step_def handle_def test_calm act_calm step_simps)
  then show ?thesis
    using fresh by (auto simp: probe_fresh_def bind_step_def handle_def calm_steps probe_report_def output_calm set_partial_def
        partial_sha_def partial_file_def resumable_def itoa_zero)
qed

text \<open>The second script: the rest arrives, or only a part of it.\<close>

lemma append_checked_calm:
  assumes "resumable digest content k s" and "ur_Tool r" and "word digest"
  shows "append_script r mode (length content) digest (int k) (ur_sha r (take k content)) input (calm s) =
    append_rest r mode (length content) digest input (calm s)"
  using assms metadata_fits_line [of digest "length content"]
  by (auto simp: append_script_def bind_step_def handle_def test_calm output_calm Let_def resumable_def partial_file_def
      partial_size_def partial_sha_def meta_text_def)

lemma append_whole_calm:
  assumes "resumable digest content k s" and "ur_Tool r" and "word digest" and "digest = ur_sha r content"
    and "rf_Dest s \<noteq> Some RemoteDirectory"
  shows "\<exists>s'. append_script r mode (length content) digest (int k) (ur_sha r (take k content)) (drop k content) (calm s) =
      Finished (Inr (0, receipt (itoa (int (length content))) digest, [])) (calm s') \<and>
    rf_Dest s' = Some (RemoteFile content mode) \<and> rf_Partial s' = None \<and> rf_Meta s' = None"
  unfolding append_checked_calm [OF assms(1-3)]
  using assms
  by (auto simp: append_rest_def append_check_def append_publish_def bind_step_def handle_def
      calm_steps output_calm Let_def resumable_def partial_file_def partial_size_def partial_sha_def set_partial_def)

lemma append_part_calm:
  assumes "resumable digest content k s" and "ur_Tool r" and "word digest" and "k + j < length content"
  shows "\<exists>s'. append_script r mode (length content) digest (int k) (ur_sha r (take k content)) (take j (drop k content)) (calm s) =
      Finished (Inr (65, resume_error ''digest_mismatch'', [])) (calm s') \<and>
    rf_Dest s' = rf_Dest s \<and> resumable digest content (k + j) s'"
proof -
  have "take k content @ take j (drop k content) = take (k + j) content" by (simp add: take_add)
  moreover have "itoa (int (k + j)) \<noteq> itoa (int (length content))" using assms(4) itoa_nat_inj by (metis nat_neq_iff)
  ultimately show ?thesis
    unfolding append_checked_calm [OF assms(1-3)]
    using assms
    by (auto simp: append_rest_def append_check_def bind_step_def handle_def
      calm_steps output_calm Let_def resumable_def partial_file_def partial_size_def partial_sha_def set_partial_def)
qed

text \<open>The file stays as it is, and nothing but the second session is disturbed.\<close>

definition stable_local :: "bytes \<Rightarrow> resume_local \<Rightarrow> bool" where
  "stable_local content f \<longleftrightarrow>
     rl_Opens f \<and> rl_Regular f \<and> rl_Seeks f \<and> rl_Size f = length content \<and> rl_Hashed f = Some content \<and>
     (\<forall>n. rl_Prefix f n = Some (take n content) \<and> rl_Rest f n = drop n content)"

definition good_session :: "link \<Rightarrow> bool" where
  "good_session lk \<longleftrightarrow> lk_Dials lk \<and> lk_Session lk \<and> lk_Stdin lk \<and> lk_Start lk = Accepted"

lemma resume_line_answer:
  assumes "0 \<le> n" "n < 2 ^ 63" "word d" "length d = 64" "n \<le> int fullsize"
  shows "probe_answer fullsize \<lparr>se_Wait = WaitOk, se_Stdout = resume_line (itoa n) d, se_Stderr = err\<rparr> =
    Inr \<lparr>rst_Offset = n, rst_Digest = d\<rparr>"
proof -
  have tag: "word ''SSM_RESUME''" by code_simp
  have "word (itoa n)" using int_digits_word [OF assms(1)] assms(1) by (simp add: itoa_def)
  from three_words [OF tag this assms(3)] show ?thesis
    using parse_int64_itoa [OF assms(1,2)] assms by (simp add: probe_answer_def resume_line_def output_line_def)
qed

lemma probe_state_calm:
  assumes "attempted digest content k s" and "ur_Tool r" and "word digest" and "int (length content) < 2 ^ 63"
    and "good_session lk" "lk_Reports lk" and "\<And>b. word (ur_sha r b) \<and> length (ur_sha r b) = 64"
  shows "\<exists>s'. probeResumeState lk r (length content) digest (calm s) =
      (Inr \<lparr>rst_Offset = int k, rst_Digest = ur_sha r (take k content)\<rparr>, calm s') \<and>
    resumable digest content k s' \<and> rf_Dest s' = rf_Dest s"
proof -
  obtain s' where s': "probe_script r (length content) digest (calm s) =
      Finished (Inr (0, resume_line (itoa (int k)) (ur_sha r (take k content)), [])) (calm s')"
    "resumable digest content k s'" "rf_Dest s' = rf_Dest s"
    using probe_calm [OF assms(1-4)] by blast
  then have "k \<le> length content" by (simp add: resumable_def)
  then have "probe_answer (length content) \<lparr>se_Wait = WaitOk, se_Stdout = resume_line (itoa (int k)) (ur_sha r (take k content)), se_Stderr = []\<rparr> =
      Inr \<lparr>rst_Offset = int k, rst_Digest = ur_sha r (take k content)\<rparr>"
    using assms(4,7) by (intro resume_line_answer) auto
  with s' show ?thesis
    using assms(5,6) by (auto simp: probeResumeState_def good_session_def remote_end_def Let_def)
qed

text \<open>
  C12. Resumable puts make progress: after an attempt that has left the first \<open>k\<close> bytes (or nothing), an undisturbed one
  reuses exactly these bytes. When the rest arrives, the file is in place and success is reported. When only \<open>j\<close> more
  bytes arrive, the destination is the old one and the next attempt starts after \<open>k + j\<close> bytes.
\<close>

theorem resumable_put_goes_on:
  assumes start: "attempted (ur_sha r content) content k s" and "rf_Dest s \<noteq> Some RemoteDirectory"
    and r: "ur_Tool r" "\<And>b. word (ur_sha r b) \<and> length (ur_sha r b) = 64"
    and local_file: "stable_local content f" "int (length content) < 2 ^ 63"
    and sessions: "good_session probe" "lk_Reports probe" "good_session lk"
    and run: "uploadFileResumable (ur_sha r) ''v1'' f probe lk r (calm s) = ((res, err), s')"
    and arrived: "j = length (take (lk_Arrived lk) (if lk_CopyFails lk then take (lk_Written lk) (drop k content) else drop k content))"
  shows "tr_BytesReused res = int k \<and>
    (if k + j < length content then rf_Dest s' = rf_Dest s \<and> attempted (ur_sha r content) content (k + j) s'
     else rf_Dest s' = Some (RemoteFile content (rl_Mode f)) \<and> attempted (ur_sha r content) content 0 s' \<and>
       (lk_Reports lk \<and> \<not> lk_CopyFails lk \<and> \<not> lk_CloseFails lk \<longrightarrow> err = None))"
proof -
  let ?sha = "ur_sha r"
  let ?digest = "?sha content"
  define input where "input = take (lk_Arrived lk) (if lk_CopyFails lk then take (lk_Written lk) (drop k content) else drop k content)"
  have digest: "word ?digest" using r(2) by simp
  obtain s1 where probed: "probeResumeState probe r (length content) ?digest (calm s) =
      (Inr \<lparr>rst_Offset = int k, rst_Digest = ?sha (take k content)\<rparr>, calm s1)"
    and s1: "resumable ?digest content k s1" "rf_Dest s1 = rf_Dest s"
    using probe_state_calm [OF start r(1) digest local_file(2) sessions(1,2) r(2)] by blast
  have input: "input = take j (drop k content)" "k \<le> length content" "j \<le> length content - k"
    using arrived s1(1) by (auto simp: input_def resumable_def take_take min_def)
  let ?run = "append_script r (rl_Mode f) (length content) ?digest (int k) (?sha (take k content)) input (calm s1)"
  obtain e s2 where e: "remote_end lk ?run = (e, s2)" by fastforce
  have "\<exists>res1 written. resume_outcome (length content) ?digest lk res1 written e = (res, err) \<and> s' = s2 \<and> tr_BytesReused res1 = int k"
    using run local_file(1) probed sessions(3) e
    by (auto simp: uploadFileResumable_def initial_result_def stable_local_def resumeProtocolV1_def append_session_def Let_def
        good_session_def input_def intro!: exI)
  then obtain res1 written where out: "resume_outcome (length content) ?digest lk res1 written e = (res, err)" "s' = s2"
    "tr_BytesReused res1 = int k" by blast
  then have reused: "tr_BytesReused res = int k"
    by (auto simp: resume_outcome_def collectResumeRemoteFirst_def resume_failed_def resume_receipt_def split: if_splits option.splits)
  show ?thesis
  proof (cases "k + j < length content")
    case True
    obtain s3 where "?run = Finished (Inr (65, resume_error ''digest_mismatch'', [])) (calm s3)"
      "rf_Dest s3 = rf_Dest s1" "resumable ?digest content (k + j) s3"
      using append_part_calm [OF s1(1) r(1) digest True, of "rl_Mode f"] input(1) by auto
    with e out True reused s1(2) show ?thesis by (auto simp: remote_end_def attempted_def)
  next
    case False
    then have "input = drop k content" using input by simp
    with append_whole_calm [OF s1(1) r(1) digest refl, of "rl_Mode f"] s1(2) assms(2)
    obtain s3 where s3: "?run = Finished (Inr (0, receipt (itoa (int (length content))) ?digest, [])) (calm s3)"
      "rf_Dest s3 = Some (RemoteFile content (rl_Mode f))" "rf_Partial s3 = None" "rf_Meta s3 = None" by auto
    moreover have "parseUploadReceipt (receipt (itoa (int (length content))) ?digest) = Some (int (length content), ?digest)"
      using receipt_round_trip [OF _ local_file(2) digest] r(2) [of content] by auto
    ultimately show ?thesis
      using e out False reused by (auto simp: remote_end_def attempted_def resume_outcome_def resume_receipt_def)
  qed
qed

section \<open>Witnesses\<close>

definition sample_local :: "bytes \<Rightarrow> resume_local" where
  "sample_local data = \<lparr>rl_Opens = True, rl_Regular = True, rl_Size = length data, rl_Mode = 420, rl_Hashed = Some data,
     rl_Prefix = \<lambda>n. Some (take n data), rl_Seeks = True, rl_Rest = \<lambda>n. drop n data\<rparr>"

lemma sample_local_stable: "stable_local data (sample_local data)"
  by (simp add: stable_local_def sample_local_def)

definition sample_resume_fs :: resume_fs where
  "sample_resume_fs = \<lparr>rf_Dest = Some (RemoteFile [9] 384), rf_Inside = None, rf_Partial = None, rf_Meta = None,
     rf_MetaTemp = None, rf_OldPartial = False, rf_OldMeta = False, rf_Parent = True\<rparr>"

text \<open>A first attempt that loses the connection after two of four bytes.\<close>

definition cut_link :: link where
  "cut_link = steady_link\<lparr>lk_CopyFails := True, lk_Written := 3, lk_Arrived := 2, lk_Reports := False\<rparr>"

definition first_attempt :: "outcome \<times> resume_fs" where
  "first_attempt = uploadFileResumable (ur_sha hashing_remote) ''v1'' (sample_local [1, 2, 3, 4]) steady_link cut_link hashing_remote
     (calm sample_resume_fs)"

definition second_attempt :: "outcome \<times> resume_fs" where
  "second_attempt = uploadFileResumable (ur_sha hashing_remote) ''v1'' (sample_local [1, 2, 3, 4]) steady_link steady_link hashing_remote
     (calm (snd first_attempt))"

lemma good_sample_sessions: "good_session steady_link" "lk_Reports steady_link" "good_session cut_link"
  by (simp_all add: good_session_def steady_link_def cut_link_def)

theorem resumable_put_goes_on_witness:
  "tr_BytesReused (fst (fst first_attempt)) = 0 \<and> rf_Dest (snd first_attempt) = Some (RemoteFile [9] 384) \<and>
   attempted (ur_sha hashing_remote [1, 2, 3, 4]) [1, 2, 3, 4] 2 (snd first_attempt)"
proof -
  obtain res err s' where run: "first_attempt = ((res, err), s')" by (metis surj_pair)
  have "attempted (ur_sha hashing_remote [1, 2, 3, 4]) [1, 2, 3, 4] 0 sample_resume_fs"
    by (simp add: attempted_def sample_resume_fs_def)
  from resumable_put_goes_on [OF this _ _ hashing_remote_words sample_local_stable _ good_sample_sessions
      run [unfolded first_attempt_def] refl]
  show ?thesis unfolding run
    by (simp add: sample_resume_fs_def hashing_remote_def cut_link_def steady_link_def numeral_2_eq_2)
qed

lemma second_attempt_value:
  "(case second_attempt of ((res, err), s) \<Rightarrow> err = None \<and> tr_BytesReused res = 2 \<and> tr_BytesSent res = 2 \<and>
      rf_Dest s = Some (RemoteFile [1, 2, 3, 4] 420))"
  by code_simp

theorem resumable_put_is_atomic_witness:
  "resumed_put (ur_sha hashing_remote) (sample_local [1, 2, 3, 4]) (snd second_attempt) \<and> tr_OK (fst (fst second_attempt))"
proof -
  obtain res err s' where run: "second_attempt = ((res, err), s')" by (metis surj_pair)
  have "keeps_to leaves_resume (sw_Schedule (calm (snd first_attempt)))" by (simp add: keeps_to_def calm_def)
  moreover have "rf_Dest (snd first_attempt) \<noteq> Some RemoteDirectory" by code_simp
  moreover have "err = None" using second_attempt_value [unfolded run] by simp
  moreover have "ur_sha hashing_remote b \<noteq> []" for b using hashing_remote_words [of b] by (auto simp: word_def)
  ultimately show ?thesis
    unfolding run using resumable_put_is_atomic [OF run [unfolded second_attempt_def]] by simp
qed

section \<open>Three weaknesses of the protocol\<close>

text \<open>
  A stop between the creation of the partial file and that of its metadata: until the clean-up after seven days every
  attempt to upload this file is refused.
\<close>

lemma stopped_probe_blocks_later_attempts:
  "case probe_script hashing_remote 4 (ur_sha hashing_remote [1, 2, 3, 4])
      \<lparr>sw_State = sample_resume_fs, sw_Schedule = replicate 6 (id, Works) @ [(id, Stops)]\<rparr> of
     Finished _ _ \<Rightarrow> False
   | Stopped s \<Rightarrow>
       (case uploadFileResumable (ur_sha hashing_remote) ''v1'' (sample_local [1, 2, 3, 4]) steady_link steady_link hashing_remote (calm s) of
          ((res, err), s') \<Rightarrow> err = Some (ResumeStateIncompatible, 0) \<and> rf_Partial s' = rf_Partial s \<and> rf_Meta s' = None)"
  by code_simp

text \<open>
  Two attempts at once: between the check of the digest and the rename of the first, the \<^verbatim>\<open>cat\<close> of the second appends
  its rest to the same partial file. The first publishes the longer file and reports success.
\<close>

definition other_append :: "bytes \<Rightarrow> resume_fs \<Rightarrow> resume_fs" where
  "other_append extra s = (case partial_file s of None \<Rightarrow> s | Some (data, m) \<Rightarrow> set_partial (data @ extra) m s)"

lemma concurrent_attempts_publish_other_bytes:
  "case uploadFileResumable (ur_sha hashing_remote) ''v1'' (sample_local [1, 2, 3, 4]) steady_link steady_link hashing_remote
      \<lparr>sw_State = snd first_attempt, sw_Schedule = replicate 20 (id, Works) @ [(other_append [3, 4], Works)]\<rparr> of
     ((res, err), s) \<Rightarrow> err = None \<and> rf_Dest s = Some (RemoteFile [1, 2, 3, 4, 3, 4] 420)"
  by code_simp

text \<open>A destination that is a directory: success is reported, and the file is inside, under the name of the partial file.\<close>

lemma resumable_put_into_a_directory:
  "case uploadFileResumable (ur_sha hashing_remote) ''v1'' (sample_local [1, 2, 3, 4]) steady_link steady_link hashing_remote
      (calm (sample_resume_fs\<lparr>rf_Dest := Some RemoteDirectory\<rparr>)) of
     ((res, err), s) \<Rightarrow> tr_OK res \<and> err = None \<and> rf_Dest s = Some RemoteDirectory \<and> rf_Inside s = Some ([1, 2, 3, 4], 420)"
  by code_simp

end
