(* ===== verification/Host_Copy.thy ===== *)
theory Host_Copy
  imports Transfer_Props
begin

text \<open>
  The copy of one file between two hosts through the local machine (\<^verbatim>\<open>internal/ssh/copy.go\<close>): the source host is asked
  for the digest and streams the file, the destination host runs the script of an upload.
\<close>

section \<open>The copy\<close>

record CopyResult =
  cr_OK :: bool
  cr_Stage :: string
  cr_Bytes :: int
  cr_Integrity :: string
  cr_SourceSHA256 :: string
  cr_LocalSHA256 :: string
  cr_DestinationSHA256 :: string

type_synonym copy_outcome = "CopyResult \<times> (transfer_kind \<times> int) option"

text \<open>
  What the sessions on the source host give: the end of the probe whether
  the path is a directory, the end of the command that
  computes the digest (None: no session), the end of
  \<^verbatim>\<open>stat\<close>, the bytes that \<^verbatim>\<open>cat\<close> streams, whether the reading of the
  stream fails, and whether its session ends well.
\<close>

record copy_source =
  cs_UsesSFTP :: bool
  cs_IsDir :: "session_end option"
  cs_Dials :: bool
  cs_Digest :: "session_end option"
  cs_Stat :: "session_end option"
  cs_Session :: bool
  cs_Stdout :: bool
  cs_Start :: start_reply
  cs_Stream :: bytes
  cs_ReadFails :: bool
  cs_Ends :: bool

definition remoteIsDirOn :: "session_end option \<Rightarrow> transfer_kind + bool" where
  "remoteIsDirOn session =
     (case session of
        None \<Rightarrow> Inl SessionFailed
      | Some e \<Rightarrow>
          (case se_Wait e of
             WaitStatus _ \<Rightarrow> Inl RemoteShellUnsupported
           | WaitLost \<Rightarrow> Inl SessionFailed
           | WaitOk \<Rightarrow>
               let answer = trim_space (se_Stdout e) in
               if answer = ''DIR'' then Inr True
               else if answer = ''FILE'' then Inr False
               else if answer = ''MISSING'' then Inl PathMissing
               else Inl RemoteShellUnsupported))"

text \<open>An error without a class, such as a missing path, is a failure to read the source.\<close>

definition copySourceError :: "transfer_kind \<Rightarrow> transfer_kind" where
  "copySourceError kind = (if kind = SessionFailed \<or> kind = PathMissing then TransferDownloadRemoteRead else kind)"

definition remoteFileSHA256 :: "session_end option \<Rightarrow> transfer_kind + string" where
  "remoteFileSHA256 session =
     (case session of
        None \<Rightarrow> Inl TransferSessionOpenFailed
      | Some e \<Rightarrow>
          if se_Wait e \<noteq> WaitOk
          then Inl (if contains_sub (se_Stdout e) integrityToolMissingMarker then IntegrityToolUnavailable else TransferDownloadRemoteRead)
          else let digest = to_lower (trim_space (se_Stdout e)) in
            if length digest \<noteq> 64 then Inl TransferDownloadRemoteRead else Inr digest)"

text \<open>\<^verbatim>\<open>remoteFileMode\<close>: the digits that \<^verbatim>\<open>stat\<close> prints, or 0600.\<close>

definition octal_value :: "string \<Rightarrow> nat option" where
  "octal_value s =
     (if s = [] \<or> \<not> list_all (\<lambda>c. CHR ''0'' \<le> c \<and> c \<le> CHR ''7'') s then None
      else Some (foldl (\<lambda>n c. 8 * n + (of_char c - 48)) 0 s))"

definition remoteFileMode :: "session_end option \<Rightarrow> nat" where
  "remoteFileMode session =
     (case session of
        None \<Rightarrow> 384
      | Some e \<Rightarrow>
          if se_Wait e \<noteq> WaitOk then 384
          else case octal_value (trim_space (se_Stdout e)) of
            None \<Rightarrow> 384
          | Some v \<Rightarrow> if v > 4095 then 384 else v mod 512)"

text \<open>\<^verbatim>\<open>timeoutOr\<close>\<close>

definition timeout_or :: "bool \<Rightarrow> CopyResult \<Rightarrow> transfer_kind \<times> int \<Rightarrow> copy_outcome" where
  "timeout_or timedOut res err =
     (if timedOut then (res\<lparr>cr_Stage := ''timeout''\<rparr>, Some (TransferTimedOut, cr_Bytes res)) else (res, Some err))"

text \<open>The error that \<^verbatim>\<open>collectRemoteFirst\<close> finds; its notes on the result of an upload are dropped.\<close>

definition remote_first :: "bool \<Rightarrow> session_end \<Rightarrow> transfer_kind \<Rightarrow> int \<Rightarrow> transfer_kind \<times> int" where
  "remote_first timedOut e fallback written =
     (case snd (collectRemoteFirst (initial_result [] []) written timedOut e fallback) of None \<Rightarrow> (fallback, written) | Some err \<Rightarrow> err)"

definition copy_wait_failure :: "bool \<Rightarrow> CopyResult \<Rightarrow> session_end \<Rightarrow> copy_outcome" where
  "copy_wait_failure timedOut res e =
     (if timedOut then timeout_or True res (TransferTimedOut, cr_Bytes res)
      else if contains_sub (se_Stdout e) integrityToolMissingMarker
      then (res\<lparr>cr_Stage := ''capability''\<rparr>, Some (IntegrityToolUnavailable, cr_Bytes res))
      else if contains_sub (se_Stdout e) ''SSM_INTEGRITY_MISMATCH''
      then (res\<lparr>cr_Stage := ''integrity'', cr_Integrity := ''mismatch''\<rparr>, Some (TransferIntegrityMismatch, cr_Bytes res))
      else if trim_space (se_Stderr e) = [] \<and> se_Wait e = WaitLost then (res, Some (TransferRemoteWriteFailed, cr_Bytes res))
      else (res, Some (TransferRemotePermissionsFailed, cr_Bytes res)))"

definition copy_receipt :: "CopyResult \<Rightarrow> session_end \<Rightarrow> copy_outcome" where
  "copy_receipt res0 e =
     (case parseUploadReceipt (se_Stdout e) of
        None \<Rightarrow> (res0\<lparr>cr_Stage := ''integrity'', cr_Integrity := ''mismatch''\<rparr>, Some (TransferReceiptInvalid, cr_Bytes res0))
      | Some (bytes, digest) \<Rightarrow>
          let res = res0\<lparr>cr_Stage := ''integrity'', cr_DestinationSHA256 := digest\<rparr> in
          if bytes \<noteq> cr_Bytes res \<or> digest \<noteq> cr_LocalSHA256 res \<or> cr_LocalSHA256 res \<noteq> cr_SourceSHA256 res
          then (res\<lparr>cr_Integrity := ''mismatch''\<rparr>, Some (TransferIntegrityMismatch, cr_Bytes res))
          else (res\<lparr>cr_OK := True, cr_Stage := ''complete'', cr_Integrity := ''sha256_verified''\<rparr>, None))"

text \<open>After the relay: \<open>relayed\<close> are the bytes that the destination took, and \<open>e\<close> is the end of its session.\<close>

definition copy_outcome_of ::
    "(bytes \<Rightarrow> string) \<Rightarrow> copy_source \<Rightarrow> link \<Rightarrow> CopyResult \<Rightarrow> bytes \<Rightarrow> session_end \<Rightarrow> copy_outcome" where
  "copy_outcome_of sha src lk res0 relayed e =
     (let copyFails = (lk_CopyFails lk \<or> cs_ReadFails src);
          res = res0\<lparr>cr_Bytes := int (length relayed),
                     cr_LocalSHA256 := (if \<not> copyFails \<and> cs_Ends src then sha relayed else cr_LocalSHA256 res0)\<rparr> in
      if copyFails \<or> \<not> cs_Ends src then
        (if lk_CopyFails lk
         then timeout_or (lk_TimedOut lk) res (remote_first (lk_TimedOut lk) e TransferRemoteWriteFailed (cr_Bytes res))
         else timeout_or (lk_TimedOut lk) (res\<lparr>cr_Stage := ''remote_read''\<rparr>) (TransferDownloadRemoteRead, cr_Bytes res))
      else if lk_CloseFails lk
      then timeout_or (lk_TimedOut lk) res (remote_first (lk_TimedOut lk) e TransferRemoteCloseFailed (cr_Bytes res))
      else if se_Wait e \<noteq> WaitOk then copy_wait_failure (lk_TimedOut lk) res e
      else copy_receipt res e)"

definition relayed_bytes :: "copy_source \<Rightarrow> link \<Rightarrow> bytes" where
  "relayed_bytes src lk = (if lk_CopyFails lk then take (lk_Written lk) (cs_Stream src) else cs_Stream src)"

definition CopyFile ::
    "(bytes \<Rightarrow> string) \<Rightarrow> copy_source \<Rightarrow> bool \<Rightarrow> link \<Rightarrow> upload_remote \<Rightarrow> string \<Rightarrow> upload_fs step_world \<Rightarrow> copy_outcome \<times> upload_fs" where
  "CopyFile sha src dstSFTP lk r dstPath w =
     (let res = \<lparr>cr_OK = False, cr_Stage = ''validate'', cr_Bytes = 0, cr_Integrity = ''not_checked'', cr_SourceSHA256 = [],
                 cr_LocalSHA256 = [], cr_DestinationSHA256 = []\<rparr>;
          fails = (\<lambda>res kind. ((res, Some (kind, 0)), sw_State w)) in
      if cs_UsesSFTP src \<or> dstSFTP then fails res TransferSFTPUnsupported
      else case remoteIsDirOn (cs_IsDir src) of
        Inl kind \<Rightarrow> fails (res\<lparr>cr_Stage := ''discovery''\<rparr>) (copySourceError kind)
      | Inr True \<Rightarrow> fails (res\<lparr>cr_Stage := ''discovery''\<rparr>) CopyDirectoryUnsupported
      | Inr False \<Rightarrow>
          if \<not> cs_Dials src \<or> \<not> lk_Dials lk then fails (res\<lparr>cr_Stage := ''dial''\<rparr>) DialClassified
          else case remoteFileSHA256 (cs_Digest src) of
            Inl kind \<Rightarrow> (timeout_or (lk_TimedOut lk) (res\<lparr>cr_Stage := ''integrity''\<rparr>) (kind, 0), sw_State w)
          | Inr digest \<Rightarrow>
              let res = res\<lparr>cr_Stage := ''integrity'', cr_SourceSHA256 := digest\<rparr> in
              if \<not> cs_Session src \<or> \<not> lk_Session lk then fails (res\<lparr>cr_Stage := ''session''\<rparr>) DialClassified
              else if \<not> cs_Stdout src then fails res TransferDownloadRemoteRead
              else if \<not> lk_Stdin lk then fails res TransferStdinOpenFailed
              else
                let res = res\<lparr>cr_Stage := ''remote_write''\<rparr> in
                if lk_Start lk = Refused then fails res RemoteShellUnsupported
                else if lk_Start lk = NotStarted then (timeout_or (lk_TimedOut lk) res (TransferStartFailed, 0), sw_State w)
                else
                  let started = (cs_Start src = Accepted);
                      relayed = (if started then relayed_bytes src lk else []);
                      (e, s) = remote_end lk (upload_script r dstPath (remoteFileMode (cs_Stat src)) (- 1) digest (take (lk_Arrived lk) relayed) w) in
                  (if cs_Start src = Refused then (res, Some (RemoteShellUnsupported, 0))
                   else if \<not> started then timeout_or (lk_TimedOut lk) res (TransferDownloadRemoteRead, 0)
                   else copy_outcome_of sha src lk res relayed e, s))"

section \<open>What a copy leaves behind\<close>

lemma timeout_or_fails: "timeout_or t res err = (res', err') \<Longrightarrow> \<not> cr_OK res \<Longrightarrow> \<not> cr_OK res' \<and> err' \<noteq> None"
  by (auto simp: timeout_or_def split: if_splits)

lemma copy_wait_failure_fails: "copy_wait_failure t res e = (res', err') \<Longrightarrow> \<not> cr_OK res \<Longrightarrow> \<not> cr_OK res' \<and> err' \<noteq> None"
  by (auto simp: copy_wait_failure_def timeout_or_def split: if_splits)

lemma copy_receipt_ok:
  "copy_receipt res e = (res', err) \<Longrightarrow> \<not> cr_OK res \<Longrightarrow> (cr_OK res' \<longleftrightarrow> err = None) \<and>
   (err = None \<longrightarrow> parseUploadReceipt (se_Stdout e) = Some (cr_Bytes res, cr_LocalSHA256 res) \<and> cr_LocalSHA256 res = cr_SourceSHA256 res \<and>
     cr_Bytes res' = cr_Bytes res)"
  by (auto simp: copy_receipt_def Let_def split: if_splits option.splits)

lemma copy_outcome_ok:
  assumes "copy_outcome_of sha src lk res relayed e = (res', err)" and "\<not> cr_OK res"
  shows "(cr_OK res' \<longleftrightarrow> err = None) \<and>
    (err = None \<longrightarrow> \<not> lk_CopyFails lk \<and> se_Wait e = WaitOk \<and> cr_SourceSHA256 res = sha relayed \<and>
       parseUploadReceipt (se_Stdout e) = Some (int (length relayed), sha relayed) \<and> cr_Bytes res' = int (length relayed))"
proof -
  define res1 where "res1 = res\<lparr>cr_Bytes := int (length relayed), cr_LocalSHA256 := sha relayed\<rparr>"
  show ?thesis
  proof (cases "\<not> lk_CopyFails lk \<and> \<not> cs_ReadFails src \<and> cs_Ends src \<and> \<not> lk_CloseFails lk \<and> se_Wait e = WaitOk")
    case True
    then have "copy_receipt res1 e = (res', err)" using assms(1) by (simp add: copy_outcome_of_def res1_def Let_def)
    from copy_receipt_ok [OF this] True assms(2) show ?thesis by (auto simp: res1_def)
  next
    case False
    then show ?thesis
      using assms timeout_or_fails copy_wait_failure_fails
      by (auto simp: copy_outcome_of_def Let_def split: if_splits) (fastforce dest: timeout_or_fails copy_wait_failure_fails)+
  qed
qed

text \<open>
  C13. Whatever the two connections do and whichever command of the destination's script fails or is the last one, a copy
  leaves the old destination or a file with the digest that the source host has reported. When it reports success, the
  destination is exactly the bytes that were relayed, and the digest of these bytes is the reported one.
\<close>

theorem host_copy_is_atomic:
  assumes "CopyFile sha src dstSFTP lk r path w = ((res, err), s)"
    and others: "keeps_to leaves_upload (sw_Schedule w)" and tool: "ur_sha r = sha" "\<And>b. word (sha b)"
    and not_dir: "up_Dest (sw_State w) \<noteq> Some RemoteDirectory"
  shows "(up_Dest s = up_Dest (sw_State w) \<or>
      (\<exists>data mode. up_Dest s = Some (RemoteFile data mode) \<and> remoteFileSHA256 (cs_Digest src) = Inr (sha data))) \<and>
    (cr_OK res \<longleftrightarrow> err = None) \<and>
    (err = None \<longrightarrow> (\<exists>mode. up_Dest s = Some (RemoteFile (cs_Stream src) mode)) \<and>
       remoteFileSHA256 (cs_Digest src) = Inr (sha (cs_Stream src)) \<and> cr_Bytes res = int (length (cs_Stream src)))"
proof (cases "\<exists>digest. \<not> cs_UsesSFTP src \<and> \<not> dstSFTP \<and> remoteIsDirOn (cs_IsDir src) = Inr False \<and> cs_Dials src \<and> lk_Dials lk \<and>
    remoteFileSHA256 (cs_Digest src) = Inr digest \<and> cs_Session src \<and> lk_Session lk \<and> cs_Stdout src \<and> lk_Stdin lk \<and> lk_Start lk = Accepted")
  case False
  have "s = sw_State w \<and> \<not> cr_OK res \<and> err \<noteq> None"
    using assms(1) False
    by (cases "lk_Start lk")
      (auto simp: CopyFile_def timeout_or_def Let_def split: if_splits sum.splits bool.splits)
  then show ?thesis by auto
next
  case True
  then obtain digest where digest: "remoteFileSHA256 (cs_Digest src) = Inr digest" by blast
  then have long: "digest \<noteq> []" by (auto simp: remoteFileSHA256_def Let_def split: option.splits if_splits)
  define relayed where "relayed = (if cs_Start src = Accepted then relayed_bytes src lk else [])"
  define input where "input = take (lk_Arrived lk) relayed"
  obtain e s' where run: "remote_end lk (upload_script r path (remoteFileMode (cs_Stat src)) (- 1) digest input w) = (e, s')" by fastforce
  note remote = remote_end_upload [OF run others refl]
  define res0 where "res0 = \<lparr>cr_OK = False, cr_Stage = ''remote_write'', cr_Bytes = 0, cr_Integrity = ''not_checked'', cr_SourceSHA256 = digest,
                 cr_LocalSHA256 = [], cr_DestinationSHA256 = []\<rparr>"
  have out: "((res, err), s) = (if cs_Start src = Refused then (res0, Some (RemoteShellUnsupported, 0))
       else if cs_Start src \<noteq> Accepted then timeout_or (lk_TimedOut lk) res0 (TransferDownloadRemoteRead, 0)
       else copy_outcome_of sha src lk res0 relayed e, s')"
    using assms(1) True digest run by (auto simp: CopyFile_def Let_def relayed_def input_def res0_def split: if_splits)
  have kept: "up_Dest s = up_Dest (sw_State w) \<or>
      (\<exists>data mode. up_Dest s = Some (RemoteFile data mode) \<and> remoteFileSHA256 (cs_Digest src) = Inr (sha data))"
    using remote(1) out digest tool long by (auto simp: kept_or_published_def published_def complete_bytes_def)
  have no: "\<not> cr_OK res0" by (simp add: res0_def)
  show ?thesis
  proof (cases "cs_Start src = Accepted")
    case False
    then show ?thesis
      using out no kept timeout_or_fails [of "lk_TimedOut lk" res0 _ res err] by (auto simp: res0_def split: if_splits)
  next
    case started: True
    then have "copy_outcome_of sha src lk res0 relayed e = (res, err)" "s = s'" using out by auto
    from copy_outcome_ok [OF this(1) no]
    have ok: "(cr_OK res \<longleftrightarrow> err = None) \<and>
      (err = None \<longrightarrow> \<not> lk_CopyFails lk \<and> se_Wait e = WaitOk \<and> digest = sha relayed \<and>
         parseUploadReceipt (se_Stdout e) = Some (int (length relayed), sha relayed) \<and> cr_Bytes res = int (length relayed))"
      by (simp add: res0_def)
    have "up_Dest s = Some (RemoteFile (cs_Stream src) (remoteFileMode (cs_Stat src))) \<and> relayed = cs_Stream src" if "err = None"
    proof -
      note facts = ok [THEN conjunct2, rule_format, OF that]
      have p: "published r (remoteFileMode (cs_Stat src)) (- 1) digest input s'" "receipt_of digest input (se_Stdout e)"
        using remote(2) facts not_dir by auto
      then have "length input = length relayed" using receipt_size [OF p(2)] facts tool(2) by auto
      then have "input = relayed" by (simp add: input_def)
      then show ?thesis using p(1) facts started \<open>s = s'\<close> by (simp add: published_def relayed_def relayed_bytes_def)
    qed
    with ok kept digest show ?thesis by auto
  qed
qed

definition sample_source :: copy_source where
  "sample_source = \<lparr>cs_UsesSFTP = False, cs_IsDir = Some \<lparr>se_Wait = WaitOk, se_Stdout = output_line ''FILE'', se_Stderr = []\<rparr>, cs_Dials = True,
     cs_Digest = Some \<lparr>se_Wait = WaitOk, se_Stdout = output_line (replicate 64 (CHR ''b'')), se_Stderr = []\<rparr>,
     cs_Stat = Some \<lparr>se_Wait = WaitOk, se_Stdout = output_line ''640'', se_Stderr = []\<rparr>,
     cs_Session = True, cs_Stdout = True, cs_Start = Accepted, cs_Stream = [1, 2, 3], cs_ReadFails = False, cs_Ends = True\<rparr>"

definition sample_copy :: "copy_outcome \<times> upload_fs" where
  "sample_copy = CopyFile (ur_sha hashing_remote) sample_source False steady_link hashing_remote ''d/f'' (calm sample_upload_fs)"

lemma sample_copy_value: "snd (fst sample_copy) = None"
  by code_simp

theorem host_copy_is_atomic_witness:
  "(\<exists>mode. up_Dest (snd sample_copy) = Some (RemoteFile [1, 2, 3] mode)) \<and> cr_Bytes (fst (fst sample_copy)) = 3"
proof -
  obtain res err s' where run: "sample_copy = ((res, err), s')" by (metis surj_pair)
  have "keeps_to leaves_upload (sw_Schedule (calm sample_upload_fs))" by (simp add: keeps_to_def calm_def)
  moreover have "err = None" using sample_copy_value [unfolded run] by simp
  moreover have "word (ur_sha hashing_remote b)" for b using hashing_remote_words [of b] by simp
  ultimately show ?thesis
    unfolding run using host_copy_is_atomic [OF run [unfolded sample_copy_def]]
    by (simp add: sample_upload_fs_def sample_source_def)
qed

end
