(* ===== verification/Local_Downloads.thy ===== *)
theory Local_Downloads
  imports Host_Copy
begin

text \<open>
  The download of a file (\<^verbatim>\<open>downloadFileWithOptions\<close> of \<^verbatim>\<open>internal/ssh/filecopy.go\<close> and
  \<^verbatim>\<open>internal/ssh/download_staging.go\<close>): it is staged beside its destination and renamed into place. Every local call may
  fail or be the last one.
\<close>

section \<open>The download\<close>

record get_fs =
  gf_Dest :: "remote_node option"
  gf_Staging :: "(bytes \<times> nat) option"
  gf_Parent :: bool

text \<open>
  The remote side of a download: whether the dial works, what the digest command gives, whether a session and the
  diagnostic spool can be had, the bytes that arrive, whether the command ends well, whether the deadline has passed, and
  whether the diagnostics can be replayed.
\<close>

record download_link =
  dl_Dials :: bool
  dl_Digest :: "session_end option"
  dl_Session :: bool
  dl_Spool :: bool
  dl_Stream :: bytes
  dl_Ends :: bool
  dl_TimedOut :: bool
  dl_Replays :: bool

definition newFileDownloadStaging :: "(get_fs, unit) prog" where
  "newFileDownloadStaging =
     bind_step (act (\<lambda>s. s\<lparr>gf_Parent := True\<rparr>)) (\<lambda>_. act (\<lambda>s. s\<lparr>gf_Staging := Some ([], 384)\<rparr>))"

text \<open>\<^verbatim>\<open>fileDownloadStaging.cleanup\<close>; the close of the file has no effect in the model.\<close>

definition file_cleanup :: "bool \<Rightarrow> (get_fs, unit) prog" where
  "file_cleanup moved = (if moved then plain_call else bind_step plain_call (\<lambda>_. act (\<lambda>s. s\<lparr>gf_Staging := None\<rparr>)))"

text \<open>\<^verbatim>\<open>fileDownloadStaging.publish\<close>: the bytes received, and the failure if there is one.\<close>

definition file_publish :: "(get_fs, int \<times> transfer_kind option) prog" where
  "file_publish =
     handle (look (\<lambda>s. case gf_Staging s of None \<Rightarrow> Inl Missing | Some (data, _) \<Rightarrow> Inr (int (length data)))) (\<lambda>stat.
     case stat of
       Inl _ \<Rightarrow> result (0, Some TransferDownloadLocalWrite)
     | Inr received \<Rightarrow>
         handle plain_call (\<lambda>closed.
         if isl closed then result (received, Some TransferDownloadLocalWrite)
         else handle (call (\<lambda>s. case gf_Staging s of
               None \<Rightarrow> Inl Missing | Some (data, _) \<Rightarrow> Inr ((), s\<lparr>gf_Staging := Some (data, 384)\<rparr>))) (\<lambda>changed.
           if isl changed then result (received, Some TransferDownloadLocalWrite)
           else handle (call (\<lambda>s. case gf_Staging s of
                 None \<Rightarrow> Inl Missing
               | Some (data, mode) \<Rightarrow>
                   if gf_Dest s = Some RemoteDirectory then Inl Failed
                   else Inr ((), s\<lparr>gf_Dest := Some (RemoteFile data mode), gf_Staging := None\<rparr>))) (\<lambda>renamed.
             result (received, if isl renamed then Some TransferDownloadPublish else None)))))"

text \<open>The local digest of the staged file and its comparison; the result carries the stage and the digests.\<close>

definition download_verified :: "(bytes \<Rightarrow> string) \<Rightarrow> TransferResult \<Rightarrow> (get_fs, outcome) prog" where
  "download_verified sha res =
     handle (look (\<lambda>s. case gf_Staging s of None \<Rightarrow> Inl Missing | Some (data, _) \<Rightarrow> Inr (sha data))) (\<lambda>digest.
     case digest of
       Inl _ \<Rightarrow> result (res, Some (TransferDownloadLocalWrite, 0))
     | Inr localDigest \<Rightarrow>
         let res1 = res\<lparr>tr_LocalSHA256 := localDigest\<rparr> in
         if localDigest \<noteq> tr_RemoteSHA256 res
         then result (res1\<lparr>tr_Stage := ''integrity'', tr_Integrity := ''mismatch''\<rparr>, Some (TransferDownloadIntegrityMismatch, 0))
         else result (res1, None))"

definition download_publish :: "bool \<Rightarrow> bool \<Rightarrow> TransferResult \<Rightarrow> (get_fs, outcome) prog" where
  "download_publish verify replays res =
     bind_step file_publish (\<lambda>(received, failed).
     let res1 = res\<lparr>tr_BytesReceived := received\<rparr> in
     case failed of
       Some kind \<Rightarrow>
         result (res1\<lparr>tr_Stage := (if kind = TransferDownloadPublish then ''publish'' else ''local_write'')\<rparr>, Some (kind, 0))
     | None \<Rightarrow>
         result (res1\<lparr>tr_OK := True, tr_Stage := ''complete'', tr_Integrity := (if verify then ''sha256_verified'' else tr_Integrity res)\<rparr>,
           if replays then None else Some (DiagnosticsFailed, 0)))"

text \<open>The reading of the remote file into the staging file, and what follows.\<close>

definition download_stream ::
    "(bytes \<Rightarrow> string) \<Rightarrow> bool \<Rightarrow> download_link \<Rightarrow> TransferResult \<Rightarrow> (get_fs, outcome) prog" where
  "download_stream sha verify lk res =
     (if \<not> dl_Session lk then result (res\<lparr>tr_Stage := ''session''\<rparr>, Some (DialClassified, 0))
      else if \<not> dl_Spool lk then result (res, Some (DiagnosticsFailed, 0))
      else
        let reading = res\<lparr>tr_Stage := ''remote_read''\<rparr> in
        handle (write_call (\<lambda>n s. s\<lparr>gf_Staging := map_option (\<lambda>(_, m). (take n (dl_Stream lk), m)) (gf_Staging s)\<rparr>)
          (\<lambda>s. case gf_Staging s of
             None \<Rightarrow> Inl Missing
           | Some (_, m) \<Rightarrow> Inr ((), s\<lparr>gf_Staging := Some (dl_Stream lk, m)\<rparr>))) (\<lambda>stored.
        if isl stored \<or> \<not> dl_Ends lk then
          result (if dl_TimedOut lk then (reading\<lparr>tr_Stage := ''timeout''\<rparr>, Some (TransferTimedOut, 0))
                  else (reading, Some (TransferDownloadRemoteRead, 0)))
        else if \<not> verify then download_publish verify (dl_Replays lk) reading
        else bind_step (download_verified sha reading) (\<lambda>(res1, failed).
          if failed \<noteq> None then result (res1, failed) else download_publish verify (dl_Replays lk) res1)))"

definition download_remote :: "(bytes \<Rightarrow> string) \<Rightarrow> bool \<Rightarrow> download_link \<Rightarrow> TransferResult \<Rightarrow> (get_fs, outcome) prog" where
  "download_remote sha verify lk res =
     (if \<not> dl_Dials lk then result (res\<lparr>tr_Stage := ''dial''\<rparr>, Some (DialClassified, 0))
      else if \<not> verify then download_stream sha verify lk res
      else case remoteFileSHA256 (dl_Digest lk) of
        Inl kind \<Rightarrow> result (res\<lparr>tr_Stage := ''integrity''\<rparr>, Some (if dl_TimedOut lk then TransferTimedOut else kind, 0))
      | Inr digest \<Rightarrow> download_stream sha verify lk (res\<lparr>tr_Stage := ''integrity'', tr_RemoteSHA256 := digest\<rparr>))"

definition downloadFileWithOptions :: "(bytes \<Rightarrow> string) \<Rightarrow> bool \<Rightarrow> download_link \<Rightarrow> (get_fs, outcome) prog" where
  "downloadFileWithOptions sha verify lk =
     (let res = initial_result ''local_write'' ''unsupported'' in
      handle newFileDownloadStaging (\<lambda>staged.
      if isl staged then result (res, Some (TransferDownloadLocalWrite, 0))
      else bind_step (download_remote sha verify lk res) (\<lambda>(res1, failed).
        handle (file_cleanup (tr_OK res1)) (\<lambda>_. result (res1, failed)))))"

section \<open>What a download leaves behind\<close>

text \<open>Others leave the destination alone; they may remove the staging file.\<close>

definition leaves_get :: "get_fs \<Rightarrow> get_fs \<Rightarrow> bool" where
  "leaves_get s s' \<longleftrightarrow> gf_Dest s' = gf_Dest s \<and> (gf_Staging s' = gf_Staging s \<or> gf_Staging s' = None)"

lemma leaves_get_refl: "leaves_get s s"
  by (simp add: leaves_get_def)

definition staged :: "remote_node option \<Rightarrow> (bytes \<Rightarrow> bool) \<Rightarrow> get_fs \<Rightarrow> bool" where
  "staged old A s \<longleftrightarrow> gf_Dest s = old \<and> (\<forall>data mode. gf_Staging s = Some (data, mode) \<longrightarrow> A data \<and> mode = 384)"

definition got :: "(bytes \<Rightarrow> bool) \<Rightarrow> get_fs \<Rightarrow> bool" where
  "got A s \<longleftrightarrow> (\<exists>data. gf_Dest s = Some (RemoteFile data 384) \<and> A data)"

definition kept_or_got :: "remote_node option \<Rightarrow> (bytes \<Rightarrow> bool) \<Rightarrow> get_fs \<Rightarrow> bool" where
  "kept_or_got old A s \<longleftrightarrow> gf_Dest s = old \<or> got A s"

lemma stable_get [simp]:
  "stable leaves_get (staged old A)" "stable leaves_get (got A)" "stable leaves_get (kept_or_got old A)"
  by (auto simp: stable_def leaves_get_def staged_def got_def kept_or_got_def)

lemma staged_kept [simp]: "staged old A s \<Longrightarrow> kept_or_got old B s"
  by (simp add: staged_def kept_or_got_def)

lemma kept_old [simp]: "kept_or_got (gf_Dest s) A s"
  by (simp add: kept_or_got_def)

definition get_post :: "remote_node option \<Rightarrow> (bytes \<Rightarrow> bool) \<Rightarrow> call_error + outcome \<Rightarrow> get_fs \<Rightarrow> bool" where
  "get_post old A res s \<longleftrightarrow>
     kept_or_got old A s \<and> (\<forall>out err. res = Inr (out, err) \<longrightarrow> tr_OK out \<or> err = None \<longrightarrow> got A s)"

lemma get_failed:
  "(\<And>s. P s \<Longrightarrow> kept_or_got old A s) \<Longrightarrow> \<not> tr_OK out \<Longrightarrow> valid leaves_get I P (result (out, Some err)) (get_post old A)"
  by (rule valid_result) (simp add: get_post_def)

lemma file_publish_valid:
  "valid leaves_get (kept_or_got old A) (staged old A) file_publish
     (\<lambda>res s. kept_or_got old A s \<and> (\<forall>n. res = Inr (n, None) \<longrightarrow> got A s))"
    (is "valid _ ?K ?S _ ?Q")
proof -
  have failed: "\<And>x. snd x \<noteq> None \<Longrightarrow> valid leaves_get ?K ?S (result x) ?Q"
    by (rule valid_result) auto
  have close: "valid leaves_get ?K ?S plain_call (\<lambda>_. ?S)"
    by (rule valid_plain) (auto intro: leaves_get_refl)
  have chmod: "valid leaves_get ?K ?S (call (\<lambda>s. case gf_Staging s of
      None \<Rightarrow> Inl Missing | Some (data, _) \<Rightarrow> Inr ((), s\<lparr>gf_Staging := Some (data, 384)\<rparr>))) (\<lambda>_. ?S)"
    by (rule valid_call) (auto intro: leaves_get_refl simp: staged_def split: option.splits)
  have rename: "valid leaves_get ?K ?S (call (\<lambda>s. case gf_Staging s of
        None \<Rightarrow> Inl Missing
      | Some (data, mode) \<Rightarrow>
          if gf_Dest s = Some RemoteDirectory then Inl Failed
          else Inr ((), s\<lparr>gf_Dest := Some (RemoteFile data mode), gf_Staging := None\<rparr>)))
      (\<lambda>res s. ?K s \<and> (\<not> isl res \<longrightarrow> got A s))"
    by (rule valid_call)
      (auto intro: leaves_get_refl, auto simp: staged_def got_def kept_or_got_def split: option.splits if_splits)
  have stat: "valid leaves_get ?K ?S (look (\<lambda>s. case gf_Staging s of None \<Rightarrow> Inl Missing | Some (data, _) \<Rightarrow> Inr (int (length data)))) (\<lambda>_. ?S)"
    by (rule valid_look) (auto intro: leaves_get_refl)
  show ?thesis
    unfolding file_publish_def
  proof (rule valid_handle [OF stat])
    fix x :: "call_error + int"
    have "valid leaves_get ?K ?S
      (handle plain_call (\<lambda>closed.
         if isl closed then result (n, Some TransferDownloadLocalWrite)
         else handle (call (\<lambda>s. case gf_Staging s of
               None \<Rightarrow> Inl Missing | Some (data, _) \<Rightarrow> Inr ((), s\<lparr>gf_Staging := Some (data, 384)\<rparr>))) (\<lambda>changed.
           if isl changed then result (n, Some TransferDownloadLocalWrite)
           else handle (call (\<lambda>s. case gf_Staging s of
                 None \<Rightarrow> Inl Missing
               | Some (data, mode) \<Rightarrow>
                   if gf_Dest s = Some RemoteDirectory then Inl Failed
                   else Inr ((), s\<lparr>gf_Dest := Some (RemoteFile data mode), gf_Staging := None\<rparr>))) (\<lambda>renamed.
             result (n, if isl renamed then Some TransferDownloadPublish else None))))) ?Q" for n
      by (intro valid_handle [OF close] valid_handle [OF chmod] valid_handle [OF rename] valid_if failed)
        (auto intro!: valid_result)
    then show "valid leaves_get ?K ?S (case x of
       Inl _ \<Rightarrow> result (0, Some TransferDownloadLocalWrite)
     | Inr received \<Rightarrow>
         handle plain_call (\<lambda>closed.
         if isl closed then result (received, Some TransferDownloadLocalWrite)
         else handle (call (\<lambda>s. case gf_Staging s of
               None \<Rightarrow> Inl Missing | Some (data, _) \<Rightarrow> Inr ((), s\<lparr>gf_Staging := Some (data, 384)\<rparr>))) (\<lambda>changed.
           if isl changed then result (received, Some TransferDownloadLocalWrite)
           else handle (call (\<lambda>s. case gf_Staging s of
                 None \<Rightarrow> Inl Missing
               | Some (data, mode) \<Rightarrow>
                   if gf_Dest s = Some RemoteDirectory then Inl Failed
                   else Inr ((), s\<lparr>gf_Dest := Some (RemoteFile data mode), gf_Staging := None\<rparr>))) (\<lambda>renamed.
             result (received, if isl renamed then Some TransferDownloadPublish else None))))) ?Q"
      using failed by (auto split: sum.split)
  qed
qed

lemma download_publish_valid:
  assumes "\<not> tr_OK res"
  shows "valid leaves_get (kept_or_got old A) (staged old A) (download_publish verify replays res) (get_post old A)"
  unfolding download_publish_def
proof (rule valid_bind [where M = "\<lambda>x s. kept_or_got old A s \<and> (snd x = None \<longrightarrow> got A s)"])
  show "valid leaves_get (kept_or_got old A) (staged old A) file_publish
    (\<lambda>r s. case r of Inl e \<Rightarrow> get_post old A (Inl e) s | Inr x \<Rightarrow> kept_or_got old A s \<and> (snd x = None \<longrightarrow> got A s))"
    by (rule valid_post [OF file_publish_valid]) (auto simp: get_post_def split: sum.split)
  show "valid leaves_get (kept_or_got old A) (\<lambda>s. kept_or_got old A s \<and> (snd x = None \<longrightarrow> got A s))
    (case x of (received, failed) \<Rightarrow>
       let res1 = res\<lparr>tr_BytesReceived := received\<rparr> in
       case failed of
         Some kind \<Rightarrow>
           result (res1\<lparr>tr_Stage := (if kind = TransferDownloadPublish then ''publish'' else ''local_write'')\<rparr>, Some (kind, 0))
       | None \<Rightarrow>
           result (res1\<lparr>tr_OK := True, tr_Stage := ''complete'', tr_Integrity := (if verify then ''sha256_verified'' else tr_Integrity res)\<rparr>,
             if replays then None else Some (DiagnosticsFailed, 0))) (get_post old A)" for x
    by (cases x; cases "snd x") (auto intro!: valid_result simp: get_post_def assms)
qed

lemma download_stream_valid:
  assumes "\<not> tr_OK res" and A: "\<And>data. A data \<longleftrightarrow> data = dl_Stream lk \<and> (verify \<longrightarrow> sha data = tr_RemoteSHA256 res)"
  shows "valid leaves_get (kept_or_got old A) (staged old (\<lambda>_. True)) (download_stream sha verify lk res) (get_post old A)"
proof -
  let ?K = "kept_or_got old A"
  let ?any = "staged old (\<lambda>_. True)"
  let ?full = "staged old (\<lambda>data. data = dl_Stream lk)"
  define reading where "reading = res\<lparr>tr_Stage := ''remote_read''\<rparr>"
  have reading: "\<not> tr_OK reading" "tr_RemoteSHA256 reading = tr_RemoteSHA256 res" using assms(1) by (simp_all add: reading_def)
  have store: "valid leaves_get ?K ?any (write_call
      (\<lambda>n s. s\<lparr>gf_Staging := map_option (\<lambda>(_, m). (take n (dl_Stream lk), m)) (gf_Staging s)\<rparr>)
      (\<lambda>s. case gf_Staging s of None \<Rightarrow> Inl Missing | Some (_, m) \<Rightarrow> Inr ((), s\<lparr>gf_Staging := Some (dl_Stream lk, m)\<rparr>)))
      (\<lambda>stored s. ?any s \<and> (\<not> isl stored \<longrightarrow> ?full s))"
    by (rule valid_write_call) (auto intro: leaves_get_refl simp: staged_def kept_or_got_def split: option.splits)
  have digest: "valid leaves_get ?K ?full (look (\<lambda>s. case gf_Staging s of None \<Rightarrow> Inl Missing | Some (data, _) \<Rightarrow> Inr (sha data)))
      (\<lambda>d s. ?full s \<and> (\<forall>x. d = Inr x \<longrightarrow> x = sha (dl_Stream lk)))"
    by (rule valid_look) (auto intro: leaves_get_refl simp: staged_def kept_or_got_def split: option.splits)
  have verified: "valid leaves_get ?K ?full (download_verified sha reading)
      (\<lambda>x s. ?full s \<and> (\<forall>out. x = Inr (out, None) \<longrightarrow> \<not> tr_OK out \<and> sha (dl_Stream lk) = tr_RemoteSHA256 res) \<and>
        (\<forall>out err. x = Inr (out, err) \<longrightarrow> \<not> tr_OK out))"
    unfolding download_verified_def
    by (rule valid_handle [OF digest]) (auto intro!: valid_result simp: Let_def reading split: sum.split)
  have publish: "valid leaves_get ?K (\<lambda>s. ?full s \<and> (verify \<longrightarrow> sha (dl_Stream lk) = tr_RemoteSHA256 res))
      (download_publish verify replays out) (get_post old A)" if "\<not> tr_OK out" for replays out
    by (rule valid_pre [OF download_publish_valid [OF that]]) (auto simp: staged_def A)
  have check: "valid leaves_get ?K ?full (bind_step (download_verified sha reading) (\<lambda>(res1, failed).
      if failed \<noteq> None then result (res1, failed) else download_publish verify (dl_Replays lk) res1)) (get_post old A)"
  proof (rule valid_bind [where M = "\<lambda>x s. ?full s \<and> \<not> tr_OK (fst x) \<and> (snd x = None \<longrightarrow> sha (dl_Stream lk) = tr_RemoteSHA256 res)"])
    show "valid leaves_get ?K ?full (download_verified sha reading) (\<lambda>r s. case r of Inl e \<Rightarrow> get_post old A (Inl e) s
      | Inr x \<Rightarrow> ?full s \<and> \<not> tr_OK (fst x) \<and> (snd x = None \<longrightarrow> sha (dl_Stream lk) = tr_RemoteSHA256 res))"
    proof (rule valid_post [OF verified], goal_cases)
      case (1 r s)
      show ?case
      proof (cases r)
        case (Inl e)
        with 1 show ?thesis by (simp add: get_post_def)
      next
        case (Inr x)
        with 1 show ?thesis by (cases x) simp
      qed
    qed
    fix x :: outcome
    show "valid leaves_get ?K (\<lambda>s. ?full s \<and> \<not> tr_OK (fst x) \<and> (snd x = None \<longrightarrow> sha (dl_Stream lk) = tr_RemoteSHA256 res))
      (case x of (res1, failed) \<Rightarrow>
        if failed \<noteq> None then result (res1, failed) else download_publish verify (dl_Replays lk) res1) (get_post old A)"
    proof (cases x)
      case (Pair out failed)
      have "valid leaves_get ?K (\<lambda>s. ?full s \<and> \<not> tr_OK out \<and> (failed = None \<longrightarrow> sha (dl_Stream lk) = tr_RemoteSHA256 res))
        (if failed \<noteq> None then result (out, failed) else download_publish verify (dl_Replays lk) out) (get_post old A)"
      proof (rule valid_if)
        assume "failed \<noteq> None"
        then show "valid leaves_get ?K (\<lambda>s. ?full s \<and> \<not> tr_OK out \<and> (failed = None \<longrightarrow> sha (dl_Stream lk) = tr_RemoteSHA256 res))
          (result (out, failed)) (get_post old A)"
          by (intro valid_result) (auto simp: get_post_def)
      next
        assume "\<not> failed \<noteq> None"
        then have none: "failed = None" by (cases failed) auto
        show "valid leaves_get ?K (\<lambda>s. ?full s \<and> \<not> tr_OK out \<and> (failed = None \<longrightarrow> sha (dl_Stream lk) = tr_RemoteSHA256 res))
          (download_publish verify (dl_Replays lk) out) (get_post old A)"
        proof (rule valid_given [where P = "\<lambda>s. ?full s \<and> (verify \<longrightarrow> sha (dl_Stream lk) = tr_RemoteSHA256 res)"])
          fix s assume "?full s \<and> \<not> tr_OK out \<and> (failed = None \<longrightarrow> sha (dl_Stream lk) = tr_RemoteSHA256 res)"
          then show "valid leaves_get ?K (\<lambda>s. ?full s \<and> (verify \<longrightarrow> sha (dl_Stream lk) = tr_RemoteSHA256 res))
            (download_publish verify (dl_Replays lk) out) (get_post old A)" by (intro publish) simp
        qed (use none in simp)
      qed
      with Pair show ?thesis by simp
    qed
  qed
  have rest: "valid leaves_get ?K (\<lambda>s. ?any s \<and> (\<not> isl stored \<longrightarrow> ?full s))
      (if isl stored \<or> \<not> dl_Ends lk then
         result (if dl_TimedOut lk then (reading\<lparr>tr_Stage := ''timeout''\<rparr>, Some (TransferTimedOut, 0))
                 else (reading, Some (TransferDownloadRemoteRead, 0)))
       else if \<not> verify then download_publish verify (dl_Replays lk) reading
       else bind_step (download_verified sha reading) (\<lambda>(res1, failed).
         if failed \<noteq> None then result (res1, failed) else download_publish verify (dl_Replays lk) res1)) (get_post old A)"
    for stored :: "call_error + unit"
  proof (cases "isl stored \<or> \<not> dl_Ends lk")
    case True
    have "valid leaves_get ?K (\<lambda>s. ?any s \<and> (\<not> isl stored \<longrightarrow> ?full s))
      (result (if dl_TimedOut lk then (reading\<lparr>tr_Stage := ''timeout''\<rparr>, Some (TransferTimedOut, 0))
               else (reading, Some (TransferDownloadRemoteRead, 0)))) (get_post old A)"
      by (rule valid_result) (auto simp: get_post_def reading(1))
    with True show ?thesis by simp
  next
    case False
    have "valid leaves_get ?K (\<lambda>s. ?any s \<and> (\<not> isl stored \<longrightarrow> ?full s))
      (if \<not> verify then download_publish verify (dl_Replays lk) reading
       else bind_step (download_verified sha reading) (\<lambda>(res1, failed).
         if failed \<noteq> None then result (res1, failed) else download_publish verify (dl_Replays lk) res1)) (get_post old A)"
      by (rule valid_if) (rule valid_pre [OF publish [OF reading(1)]] valid_pre [OF check], use False in simp)+
    with False show ?thesis by simp
  qed
  have early: "valid leaves_get ?K ?any (result (res\<lparr>tr_Stage := ''session''\<rparr>, Some (DialClassified, 0))) (get_post old A)"
    "valid leaves_get ?K ?any (result (res, Some (DiagnosticsFailed, 0))) (get_post old A)"
    by (rule get_failed; simp add: assms(1))+
  show ?thesis
    unfolding download_stream_def Let_def reading_def [symmetric]
    by (rule valid_if [OF early(1)], rule valid_if [OF early(2)], rule valid_handle [OF store rest])
qed

definition download_bytes :: "(bytes \<Rightarrow> string) \<Rightarrow> bool \<Rightarrow> download_link \<Rightarrow> bytes \<Rightarrow> bool" where
  "download_bytes sha verify lk data \<longleftrightarrow>
     data = dl_Stream lk \<and> (verify \<longrightarrow> remoteFileSHA256 (dl_Digest lk) = Inr (sha data))"

lemma download_remote_valid:
  assumes "\<not> tr_OK res"
  shows "valid leaves_get (kept_or_got old (download_bytes sha verify lk)) (staged old (\<lambda>_. True))
    (download_remote sha verify lk res) (get_post old (download_bytes sha verify lk))"
proof (cases "remoteFileSHA256 (dl_Digest lk)")
  case (Inl kind)
  show ?thesis
    unfolding download_remote_def
    by (intro valid_if) (auto simp: Inl assms download_bytes_def intro!: get_failed download_stream_valid)
next
  case (Inr digest)
  show ?thesis
    unfolding download_remote_def
    by (intro valid_if) (auto simp: Inr assms download_bytes_def intro!: get_failed download_stream_valid)
qed

lemma download_valid:
  "valid leaves_get (kept_or_got old (download_bytes sha verify lk)) (\<lambda>s. gf_Dest s = old)
     (downloadFileWithOptions sha verify lk) (get_post old (download_bytes sha verify lk))"
proof -
  let ?A = "download_bytes sha verify lk"
  let ?K = "kept_or_got old ?A"
  let ?old = "\<lambda>s. gf_Dest s = old"
  have stable_old: "stable leaves_get ?old" by (auto simp: stable_def leaves_get_def)
  have stage: "valid leaves_get ?K ?old newFileDownloadStaging
      (\<lambda>x s. if isl x then ?old s else staged old (\<lambda>_. True) s)"
    unfolding newFileDownloadStaging_def
    by (rule valid_bind [where M = "\<lambda>_. ?old"]; rule valid_act)
      (auto intro: leaves_get_refl stable_old simp: staged_def kept_or_got_def)
  have cleanup: "valid leaves_get ?K (get_post old ?A (Inr (out, failed))) (file_cleanup (tr_OK out)) (\<lambda>_. get_post old ?A (Inr (out, failed)))" for out failed
  proof -
    let ?P = "get_post old ?A (Inr (out, failed))"
    have stable: "stable leaves_get ?P" by (auto simp: stable_def leaves_get_def get_post_def kept_or_got_def got_def)
    have close: "valid leaves_get ?K ?P plain_call (\<lambda>_. ?P)"
      by (rule valid_plain) (auto intro: leaves_get_refl stable simp: get_post_def)
    have remove: "valid leaves_get ?K ?P (act (\<lambda>s. s\<lparr>gf_Staging := None\<rparr>)) (\<lambda>_. ?P)"
      by (rule valid_act) (auto intro: leaves_get_refl stable simp: get_post_def kept_or_got_def got_def)
    show ?thesis
      unfolding file_cleanup_def
      by (rule valid_if [OF close], rule valid_bind [where M = "\<lambda>_. ?P"], rule valid_post [OF close], simp split: sum.split, rule remove)
  qed
  define res where "res = initial_result ''local_write'' ''unsupported''"
  have res: "\<not> tr_OK res" by (simp add: res_def initial_result_def)
  have rest: "valid leaves_get ?K (staged old (\<lambda>_. True)) (bind_step (download_remote sha verify lk res) (\<lambda>(res1, failed).
      handle (file_cleanup (tr_OK res1)) (\<lambda>_. result (res1, failed)))) (get_post old ?A)"
  proof (rule valid_bind [where M = "\<lambda>x. get_post old ?A (Inr x)"])
    show "valid leaves_get ?K (staged old (\<lambda>_. True)) (download_remote sha verify lk res)
      (\<lambda>r s. case r of Inl e \<Rightarrow> get_post old ?A (Inl e) s | Inr x \<Rightarrow> get_post old ?A (Inr x) s)"
      by (rule valid_post [OF download_remote_valid [OF res]]) (auto split: sum.split)
    show "valid leaves_get ?K (get_post old ?A (Inr x)) (case x of (res1, failed) \<Rightarrow>
      handle (file_cleanup (tr_OK res1)) (\<lambda>_. result (res1, failed))) (get_post old ?A)" for x
      by (cases x) (simp, rule valid_handle [OF cleanup], rule valid_result, simp)
  qed
  have fails: "valid leaves_get ?K ?old (result (res, Some (TransferDownloadLocalWrite, 0))) (get_post old ?A)"
    by (rule get_failed) (auto simp: res)
  show ?thesis
    unfolding downloadFileWithOptions_def Let_def res_def [symmetric]
  proof (rule valid_handle [OF stage])
    fix x :: "call_error + unit"
    show "valid leaves_get ?K (\<lambda>s. if isl x then ?old s else staged old (\<lambda>_. True) s)
      (if isl x then result (res, Some (TransferDownloadLocalWrite, 0))
       else bind_step (download_remote sha verify lk res) (\<lambda>(res1, failed).
         handle (file_cleanup (tr_OK res1)) (\<lambda>_. result (res1, failed)))) (get_post old ?A)"
      using rest fails by (cases "isl x") simp_all
  qed
qed

text \<open>
  C15. Whichever call of a download fails or is the last one, the local file is the old one or the complete download under
  mode 0600, and with \<^verbatim>\<open>--sha256\<close> its digest is the one that the remote host has reported. A result that is marked as
  good, or that comes without an error, has the second.
\<close>

theorem get_is_atomic:
  assumes "keeps_to leaves_get (sw_Schedule w)"
  shows "case downloadFileWithOptions sha verify lk w of
      Stopped s \<Rightarrow> gf_Dest s = gf_Dest (sw_State w) \<or> got (download_bytes sha verify lk) s
    | Finished res w1 \<Rightarrow>
        (gf_Dest (sw_State w1) = gf_Dest (sw_State w) \<or> got (download_bytes sha verify lk) (sw_State w1)) \<and>
        (\<forall>out err. res = Inr (out, err) \<longrightarrow> tr_OK out \<or> err = None \<longrightarrow> got (download_bytes sha verify lk) (sw_State w1))"
  using download_valid [of "gf_Dest (sw_State w)" sha verify lk] assms
  by (auto simp: valid_def kept_or_got_def get_post_def split: run.splits)

definition sample_download :: download_link where
  "sample_download = \<lparr>dl_Dials = True, dl_Digest = Some \<lparr>se_Wait = WaitOk, se_Stdout = output_line (replicate 64 (CHR ''b'')), se_Stderr = []\<rparr>,
     dl_Session = True, dl_Spool = True, dl_Stream = [1, 2, 3], dl_Ends = True, dl_TimedOut = False, dl_Replays = True\<rparr>"

definition sample_get_world :: "get_fs step_world" where
  "sample_get_world = \<lparr>sw_State = \<lparr>gf_Dest = Some (RemoteFile [9] 420), gf_Staging = None, gf_Parent = True\<rparr>,
     sw_Schedule = replicate 4 (id, Works) @ [(id, Stops)]\<rparr>"

text \<open>The process stops between the check of the digest and the close of the staged file.\<close>

theorem get_is_atomic_witness:
  "case downloadFileWithOptions (ur_sha hashing_remote) True sample_download sample_get_world of
     Stopped s \<Rightarrow> gf_Dest s = Some (RemoteFile [9] 420) \<or> got (download_bytes (ur_sha hashing_remote) True sample_download) s
   | Finished res w1 \<Rightarrow> False"
proof -
  have "case downloadFileWithOptions (ur_sha hashing_remote) True sample_download sample_get_world of
      Stopped s \<Rightarrow> True | Finished res w1 \<Rightarrow> False" by code_simp
  moreover have "keeps_to leaves_get (sw_Schedule sample_get_world)"
    by (auto simp: sample_get_world_def keeps_to_def leaves_get_def)
  ultimately show ?thesis
    using get_is_atomic [of sample_get_world "ur_sha hashing_remote" True sample_download]
    by (auto simp: sample_get_world_def split: run.splits)
qed

end
