(* ===== verification/Directory_Transfer.thy ===== *)
theory Directory_Transfer
  imports Local_Downloads
begin

text \<open>
  Transfers of directory trees (\<^verbatim>\<open>internal/ssh/dirsync.go\<close> and the directory part of \<^verbatim>\<open>internal/ssh/download_staging.go\<close>): a
  download extracts an archive into a staging directory and exchanges it with the destination; an upload streams an archive
  or, without a local \<^verbatim>\<open>tar\<close>, goes file by file.
\<close>

section \<open>The staging directory\<close>

text \<open>
  The trees at the destination (resolved, if it is a link), at the staging name and at the backup name; \<open>gd_Reserved\<close> is
  the empty directory that reserves the backup name.
\<close>

type_synonym tree = "(string \<times> bytes) list"

record getdir_fs =
  gd_Dest :: "tree option"
  gd_IsFile :: bool           \<comment> \<open>the destination is something else than a directory\<close>
  gd_Staging :: "tree option"
  gd_Backup :: "tree option"
  gd_Reserved :: bool
  gd_Parent :: bool

definition directory_cleanup :: "(getdir_fs, unit) prog" where
  "directory_cleanup =
     write_call (\<lambda>n s. s\<lparr>gd_Staging := map_option (drop n) (gd_Staging s)\<rparr>) (\<lambda>s. Inr ((), s\<lparr>gd_Staging := None\<rparr>))"

text \<open>
  The result says whether the destination exists. The copy of an existing tree may be cut short; the modes are restored by a
  call without further effect.
\<close>

definition stage_existing :: "(getdir_fs, unit) prog" where
  "stage_existing =
     bind_step (write_call
         (\<lambda>n s. case gd_Dest s of None \<Rightarrow> s | Some t \<Rightarrow> s\<lparr>gd_Staging := Some (take n t)\<rparr>)
         (\<lambda>s. case gd_Dest s of None \<Rightarrow> Inl Missing | Some t \<Rightarrow> Inr ((), s\<lparr>gd_Staging := Some t\<rparr>)))
       (\<lambda>_. plain_call)"

definition newDirectoryDownloadStaging :: "(getdir_fs, bool) prog" where
  "newDirectoryDownloadStaging =
     bind_step (act (\<lambda>s. s\<lparr>gd_Parent := True\<rparr>)) (\<lambda>_.
     bind_step (act (\<lambda>s. s\<lparr>gd_Staging := Some []\<rparr>)) (\<lambda>_.
     let fails = handle directory_cleanup (\<lambda>_. failure Failed) in
     handle (look (\<lambda>s. if gd_IsFile s then Inr False else case gd_Dest s of None \<Rightarrow> Inl Missing | Some _ \<Rightarrow> Inr True)) (\<lambda>stat.
     case stat of
       Inr True \<Rightarrow> handle stage_existing (\<lambda>copied. if isl copied then fails else result True)
     | Inr False \<Rightarrow> fails
     | Inl Missing \<Rightarrow> result False
     | Inl Failed \<Rightarrow> fails)))"

text \<open>The first steps of \<^verbatim>\<open>publish\<close> when the destination exists: a name for the backup is found and the old tree goes there.\<close>

definition directory_preserve :: "(getdir_fs, unit) prog" where
  "directory_preserve =
     bind_step (act (\<lambda>s. s\<lparr>gd_Reserved := True\<rparr>)) (\<lambda>_.
     handle (act (\<lambda>s. s\<lparr>gd_Reserved := False\<rparr>)) (\<lambda>removed.
     if isl removed then handle (act (\<lambda>s. s\<lparr>gd_Reserved := False\<rparr>)) (\<lambda>_. failure Failed)
     else call (\<lambda>s. case gd_Dest s of
         None \<Rightarrow> Inl Missing
       | Some t \<Rightarrow> Inr ((), s\<lparr>gd_Dest := None, gd_Backup := Some t\<rparr>))))"

definition directory_install :: "(getdir_fs, unit) prog" where
  "directory_install = call (\<lambda>s. case gd_Staging s of
     None \<Rightarrow> Inl Missing
   | Some t \<Rightarrow> if gd_Dest s \<noteq> None \<and> gd_Dest s \<noteq> Some [] then Inl Failed else Inr ((), s\<lparr>gd_Dest := Some t, gd_Staging := None\<rparr>))"

definition directory_restore :: "(getdir_fs, unit) prog" where
  "directory_restore = call (\<lambda>s. case gd_Backup s of
     None \<Rightarrow> Inl Missing
   | Some t \<Rightarrow> if gd_Dest s \<noteq> None \<and> gd_Dest s \<noteq> Some [] then Inl Failed else Inr ((), s\<lparr>gd_Dest := Some t, gd_Backup := None\<rparr>))"

definition directory_discard :: "(getdir_fs, unit) prog" where
  "directory_discard =
     write_call (\<lambda>n s. s\<lparr>gd_Backup := map_option (drop n) (gd_Backup s)\<rparr>) (\<lambda>s. Inr ((), s\<lparr>gd_Backup := None\<rparr>))"

text \<open>\<^verbatim>\<open>directoryDownloadStaging.publish\<close>\<close>

definition directory_publish :: "bool \<Rightarrow> (getdir_fs, transfer_kind option) prog" where
  "directory_publish existing =
     handle (if existing then directory_preserve else result ()) (\<lambda>preserved.
     if isl preserved then result (Some TransferDownloadPublish)
     else handle directory_install (\<lambda>renamed.
       if \<not> isl renamed then handle (if existing then directory_discard else result ()) (\<lambda>_. result None)
       else if \<not> existing then result (Some TransferDownloadPublish)
       else handle directory_restore (\<lambda>restored.
         result (Some (if isl restored then TransferDownloadRestoreFailed else TransferDownloadPublish)))))"

section \<open>The download of a tree\<close>

datatype downloadEnd = downloadEndNone | downloadEndRemote | downloadEndLocal

text \<open>
  \<open>remoteFirst\<close>: the remote session ends before the local extractor. \<open>later\<close> is the end of the remote session after a local
  failure: its own, when it comes within the grace, or that of the closed session.
\<close>

definition superviseDirectoryDownload :: "bool \<Rightarrow> session_wait \<Rightarrow> session_wait \<Rightarrow> bool \<Rightarrow> downloadEnd" where
  "superviseDirectoryDownload remoteFirst remote later localOk =
     (if remoteFirst then
        (if remote \<noteq> WaitOk then downloadEndRemote else if \<not> localOk then downloadEndLocal else downloadEndNone)
      else if localOk then (if remote \<noteq> WaitOk then downloadEndRemote else downloadEndNone)
      else case later of WaitStatus _ \<Rightarrow> downloadEndRemote | _ \<Rightarrow> downloadEndLocal)"

text \<open>What the connection and the two programs do; \<open>dd_Archive\<close> is what the extraction makes of the staged tree.\<close>

record directory_link =
  dd_Dials :: bool
  dd_Session :: bool
  dd_Pipes :: bool
  dd_Starts :: bool
  dd_TarStarts :: bool
  dd_Archive :: "tree \<Rightarrow> tree"
  dd_RemoteFirst :: bool
  dd_Remote :: session_wait
  dd_Later :: session_wait
  dd_LocalOk :: bool
  dd_Interrupted :: bool
  dd_TimedOut :: bool
  dd_Special :: bool
  dd_Replays :: bool

text \<open>The end of the two programs: the failure that is reported, if any.\<close>

definition directory_end :: "directory_link \<Rightarrow> bool \<Rightarrow> transfer_kind option" where
  "directory_end lk localOk =
     (let first = superviseDirectoryDownload (dd_RemoteFirst lk) (dd_Remote lk) (dd_Later lk) localOk in
      if dd_Interrupted lk then Some RunInterrupted
      else if first \<noteq> downloadEndNone \<and> dd_TimedOut lk then Some TransferTimedOut
      else case first of
        downloadEndLocal \<Rightarrow> Some TransferDownloadLocalWrite
      | downloadEndRemote \<Rightarrow> Some TransferDownloadRemoteRead
      | downloadEndNone \<Rightarrow> None)"

definition directory_extracted :: "directory_link \<Rightarrow> bool \<Rightarrow> (getdir_fs, transfer_kind option) prog" where
  "directory_extracted lk existing =
     handle (write_call (\<lambda>n s. s\<lparr>gd_Staging := map_option (\<lambda>t. take n (dd_Archive lk t)) (gd_Staging s)\<rparr>)
       (\<lambda>s. case gd_Staging s of None \<Rightarrow> Inl Missing | Some t \<Rightarrow> Inr ((), s\<lparr>gd_Staging := Some (dd_Archive lk t)\<rparr>))) (\<lambda>extracted.
     case directory_end lk (dd_LocalOk lk \<and> \<not> isl extracted) of
       Some kind \<Rightarrow> result (Some kind)
     | None \<Rightarrow>
         handle (bind_step plain_call (\<lambda>_. bind_step (check_that (\<not> dd_Special lk)) (\<lambda>_. plain_call))) (\<lambda>checked.
           if isl checked then result (Some TransferDownloadLocalWrite) else directory_publish existing))"

definition downloadDirTar :: "directory_link \<Rightarrow> (getdir_fs, transfer_kind option) prog" where
  "downloadDirTar lk =
     handle newDirectoryDownloadStaging (\<lambda>staging.
     case staging of
       Inl _ \<Rightarrow> result (Some TransferDownloadLocalWrite)
     | Inr existing \<Rightarrow>
         bind_step
           (if \<not> dd_Dials lk \<or> \<not> dd_Session lk then result (Some DialClassified)
            else if \<not> dd_Pipes lk \<or> \<not> dd_Starts lk then result (Some SessionFailed)
            else if \<not> dd_TarStarts lk then result (Some TransferDownloadLocalWrite)
            else directory_extracted lk existing)
           (\<lambda>failed.
            let reported = (if failed = None \<and> \<not> dd_Replays lk then Some DiagnosticsFailed else failed) in
            if failed = None then result reported else handle directory_cleanup (\<lambda>_. result reported)))"

section \<open>What the download of a tree leaves behind\<close>

text \<open>Others leave the destination and the backup alone; they may remove the staging directory.\<close>

definition leaves_getdir :: "getdir_fs \<Rightarrow> getdir_fs \<Rightarrow> bool" where
  "leaves_getdir s s' \<longleftrightarrow> gd_Dest s' = gd_Dest s \<and> gd_Backup s' = gd_Backup s \<and> (gd_Staging s' = gd_Staging s \<or> gd_Staging s' = None)"

lemma leaves_getdir_refl: "leaves_getdir s s"
  by (simp add: leaves_getdir_def)

lemma directory_end_none: "directory_end lk localOk = None \<Longrightarrow> localOk"
  by (auto simp: directory_end_def superviseDirectoryDownload_def Let_def split: if_splits session_wait.splits downloadEnd.splits)

definition tree_preserved :: "tree option \<Rightarrow> tree \<Rightarrow> getdir_fs \<Rightarrow> bool" where
  "tree_preserved old new s \<longleftrightarrow>
     gd_Dest s = old \<or> old \<noteq> None \<and> gd_Dest s = None \<and> gd_Backup s = old \<or> gd_Dest s = Some new"

definition tree_staged :: "tree option \<Rightarrow> tree \<Rightarrow> getdir_fs \<Rightarrow> bool" where
  "tree_staged old t s \<longleftrightarrow> gd_Dest s = old \<and> (\<forall>t'. gd_Staging s = Some t' \<longrightarrow> t' = t)"

definition tree_moved :: "tree option \<Rightarrow> tree \<Rightarrow> getdir_fs \<Rightarrow> bool" where
  "tree_moved old t s \<longleftrightarrow> gd_Dest s = None \<and> gd_Backup s = old \<and> (\<forall>t'. gd_Staging s = Some t' \<longrightarrow> t' = t)"

text \<open>What the reported failure says of the destination; \<open>DiagnosticsFailed\<close> may follow a success.\<close>

definition tree_post :: "tree option \<Rightarrow> tree \<Rightarrow> call_error + transfer_kind option \<Rightarrow> getdir_fs \<Rightarrow> bool" where
  "tree_post old new res s \<longleftrightarrow>
     (case res of
        Inr None \<Rightarrow> gd_Dest s = Some new
      | Inr (Some DiagnosticsFailed) \<Rightarrow> gd_Dest s = Some new
      | Inr (Some TransferDownloadRestoreFailed) \<Rightarrow> gd_Dest s = None \<and> old \<noteq> None \<and> gd_Backup s = old
      | _ \<Rightarrow> gd_Dest s = old)"

lemma stable_getdir [simp]:
  "stable leaves_getdir (\<lambda>s. gd_Dest s = d)" "stable leaves_getdir (tree_preserved old new)" "stable leaves_getdir (tree_staged old t)"
  "stable leaves_getdir (tree_moved old t)" "stable leaves_getdir (tree_post old new res)"
  by (auto simp: stable_def leaves_getdir_def tree_preserved_def tree_staged_def tree_moved_def tree_post_def
      split: sum.splits option.splits transfer_kind.splits)

lemma tree_kept [simp]:
  "gd_Dest s = old \<Longrightarrow> tree_preserved old new s" "tree_staged old t s \<Longrightarrow> tree_preserved old new s"
  "old \<noteq> None \<Longrightarrow> tree_moved old t s \<Longrightarrow> tree_preserved old new s" "gd_Dest s = Some new \<Longrightarrow> tree_preserved old new s"
  by (auto simp: tree_preserved_def tree_staged_def tree_moved_def)

lemma tree_post_preserved [simp]: "tree_post old new res s \<Longrightarrow> tree_preserved old new s"
  by (auto simp: tree_post_def split: sum.splits option.splits transfer_kind.splits)
    (auto simp: tree_preserved_def)

lemma directory_preserve_valid:
  assumes "old \<noteq> None"
  shows "valid leaves_getdir (tree_preserved old new) (tree_staged old new) directory_preserve
    (\<lambda>res s. if isl res then gd_Dest s = old else tree_moved old new s)"
proof -
  let ?Q = "\<lambda>res s. if isl res then gd_Dest s = old else tree_moved old new s"
  have reserve: "valid leaves_getdir (tree_preserved old new) (tree_staged old new) (act (\<lambda>s. s\<lparr>gd_Reserved := b\<rparr>)) (\<lambda>_. tree_staged old new)" for b
    by (rule valid_act) (auto intro: leaves_getdir_refl simp: tree_staged_def)
  have fail: "valid leaves_getdir (tree_preserved old new) (tree_staged old new) (failure Failed) ?Q"
    by (rule valid_failure) (simp add: tree_staged_def)
  have move: "valid leaves_getdir (tree_preserved old new) (tree_staged old new) (call (\<lambda>s. case gd_Dest s of
         None \<Rightarrow> Inl Missing | Some t \<Rightarrow> Inr ((), s\<lparr>gd_Dest := None, gd_Backup := Some t\<rparr>))) ?Q"
    by (rule valid_call) (auto intro: leaves_getdir_refl simp: tree_staged_def tree_moved_def split: option.splits)
  show ?thesis
    unfolding directory_preserve_def
  proof (rule valid_bind [where M = "\<lambda>_. tree_staged old new"])
    show "valid leaves_getdir (tree_preserved old new) (tree_staged old new) (act (\<lambda>s. s\<lparr>gd_Reserved := True\<rparr>))
      (\<lambda>r s. case r of Inl e \<Rightarrow> ?Q (Inl e) s | Inr x \<Rightarrow> tree_staged old new s)"
      by (rule valid_post [OF reserve]) (simp add: tree_staged_def split: sum.split)
  qed (intro valid_handle [OF reserve] valid_if move fail)
qed

lemma directory_install_valid:
  "(\<And>s. P s \<Longrightarrow> tree_preserved old new s) \<Longrightarrow> stable leaves_getdir P \<Longrightarrow> (\<And>s t. P s \<Longrightarrow> gd_Staging s = Some t \<Longrightarrow> t = new) \<Longrightarrow>
   valid leaves_getdir (tree_preserved old new) P directory_install (\<lambda>res s. if isl res then P s else gd_Dest s = Some new)"
  unfolding directory_install_def
  by (rule valid_call) (auto intro: leaves_getdir_refl split: option.splits if_splits)

lemma directory_restore_valid:
  "old \<noteq> None \<Longrightarrow> valid leaves_getdir (tree_preserved old new) (tree_moved old t) directory_restore
    (\<lambda>res s. if isl res then tree_moved old t s else gd_Dest s = old)"
  unfolding directory_restore_def
  by (rule valid_call) (auto intro: leaves_getdir_refl simp: tree_moved_def split: option.splits)

lemma directory_discard_valid:
  "valid leaves_getdir (tree_preserved old new) (\<lambda>s. gd_Dest s = Some new) directory_discard (\<lambda>_ s. gd_Dest s = Some new)"
  unfolding directory_discard_def
  by (rule valid_write_call) (auto intro: leaves_getdir_refl)

lemma directory_publish_valid:
  "valid leaves_getdir (tree_preserved old new) (tree_staged old new) (directory_publish (old \<noteq> None)) (tree_post old new)"
proof (cases "old = None")
  case True
  have refuse: "valid leaves_getdir (tree_preserved old new) (tree_staged old new) (result (Some TransferDownloadPublish)) (tree_post old new)"
    by (rule valid_result) (simp add: tree_post_def tree_staged_def)
  have done_one: "valid leaves_getdir (tree_preserved old new) (\<lambda>s. gd_Dest s = Some new) (handle (result ()) (\<lambda>_. result None)) (tree_post old new)"
    by (rule valid_handle [where M = "\<lambda>_ s. gd_Dest s = Some new"]; rule valid_result) (simp_all add: tree_post_def)
  have rest: "valid leaves_getdir (tree_preserved old new) (tree_staged old new)
      (handle directory_install (\<lambda>renamed. if \<not> isl renamed then handle (result ()) (\<lambda>_. result None) else result (Some TransferDownloadPublish)))
      (tree_post old new)"
    using done_one refuse
    by (intro valid_handle [OF directory_install_valid [where P = "tree_staged old new"]]) (simp_all, simp add: tree_staged_def)
  have start: "valid leaves_getdir (tree_preserved old new) (tree_staged old new) (result ()) (\<lambda>x s. x = Inr () \<and> tree_staged old new s)"
    by (rule valid_result) simp
  have none: "(old \<noteq> None) = False" using True by simp
  have "valid leaves_getdir (tree_preserved old new) (\<lambda>s. x = Inr () \<and> tree_staged old new s)
      (if isl x then result (Some TransferDownloadPublish)
       else handle directory_install (\<lambda>renamed. if \<not> isl renamed then handle (result ()) (\<lambda>_. result None)
         else result (Some TransferDownloadPublish))) (tree_post old new)" for x :: "call_error + unit"
    by (rule valid_if, rule valid_pre [OF refuse], simp, rule valid_pre [OF rest], simp)
  from valid_handle [OF start this] show ?thesis
    unfolding directory_publish_def none by (simp only: if_False not_False_eq_True if_True)
next
  case False
  have refuse: "valid leaves_getdir (tree_preserved old new) (\<lambda>s. gd_Dest s = old) (result (Some TransferDownloadPublish)) (tree_post old new)"
    by (rule valid_result) (simp add: tree_post_def)
  have lost: "valid leaves_getdir (tree_preserved old new) (tree_moved old new) (result (Some TransferDownloadRestoreFailed)) (tree_post old new)"
    by (rule valid_result) (simp add: tree_post_def tree_moved_def False)
  have done_two: "valid leaves_getdir (tree_preserved old new) (\<lambda>s. gd_Dest s = Some new) (handle directory_discard (\<lambda>_. result None)) (tree_post old new)"
    by (rule valid_handle [OF directory_discard_valid], rule valid_result) (simp add: tree_post_def)
  have undo: "valid leaves_getdir (tree_preserved old new) (tree_moved old new)
      (handle directory_restore (\<lambda>restored. result (Some (if isl restored then TransferDownloadRestoreFailed else TransferDownloadPublish))))
      (tree_post old new)"
    by (rule valid_handle [OF directory_restore_valid [OF False]]) (auto intro: refuse lost split: if_splits)
  have install: "valid leaves_getdir (tree_preserved old new) (tree_moved old new) directory_install
      (\<lambda>res s. if isl res then tree_moved old new s else gd_Dest s = Some new)"
    by (rule directory_install_valid) (use False in \<open>auto simp: tree_moved_def\<close>)
  have rest: "valid leaves_getdir (tree_preserved old new) (tree_moved old new)
      (handle directory_install (\<lambda>renamed. if \<not> isl renamed then handle directory_discard (\<lambda>_. result None)
         else handle directory_restore (\<lambda>restored. result (Some (if isl restored then TransferDownloadRestoreFailed else TransferDownloadPublish)))))
      (tree_post old new)"
    by (rule valid_handle [OF install]) (auto intro: done_two undo)
  have "valid leaves_getdir (tree_preserved old new) (\<lambda>s. if isl x then gd_Dest s = old else tree_moved old new s)
      (if isl x then result (Some TransferDownloadPublish)
       else handle directory_install (\<lambda>renamed. if \<not> isl renamed then handle directory_discard (\<lambda>_. result None)
         else handle directory_restore (\<lambda>restored. result (Some (if isl restored then TransferDownloadRestoreFailed else TransferDownloadPublish)))))
      (tree_post old new)" for x :: "call_error + unit"
    using refuse rest by (cases "isl x") simp_all
  from valid_handle [OF directory_preserve_valid [OF False] this] show ?thesis
    unfolding directory_publish_def using False by simp
qed

text \<open>What the archive is extracted over.\<close>

definition base_tree :: "tree option \<Rightarrow> tree" where
  "base_tree old = (case old of None \<Rightarrow> [] | Some t \<Rightarrow> t)"

lemma directory_extracted_valid:
  assumes new: "new = dd_Archive lk (base_tree old)"
  shows "valid leaves_getdir (tree_preserved old new) (tree_staged old (base_tree old)) (directory_extracted lk (old \<noteq> None)) (tree_post old new)"
proof -
  have unpack: "valid leaves_getdir (tree_preserved old new) (tree_staged old (base_tree old))
      (write_call (\<lambda>n s. s\<lparr>gd_Staging := map_option (\<lambda>t. take n (dd_Archive lk t)) (gd_Staging s)\<rparr>)
       (\<lambda>s. case gd_Staging s of None \<Rightarrow> Inl Missing | Some t \<Rightarrow> Inr ((), s\<lparr>gd_Staging := Some (dd_Archive lk t)\<rparr>)))
      (\<lambda>x s. gd_Dest s = old \<and> (\<not> isl x \<longrightarrow> tree_staged old new s))"
    by (rule valid_write_call) (auto intro: leaves_getdir_refl simp: tree_staged_def new split: option.splits)
  have refuse: "valid leaves_getdir (tree_preserved old new) P (result (Some kind)) (tree_post old new)"
    if "\<And>s. P s \<Longrightarrow> gd_Dest s = old" "kind \<noteq> TransferDownloadRestoreFailed" "kind \<noteq> DiagnosticsFailed" for P kind
    by (rule valid_result) (use that in \<open>auto simp: tree_post_def split: transfer_kind.splits\<close>)
  have plain: "valid leaves_getdir (tree_preserved old new) (tree_staged old new) plain_call (\<lambda>_. tree_staged old new)"
    by (rule valid_plain) (auto intro: leaves_getdir_refl)
  have checks: "valid leaves_getdir (tree_preserved old new) (tree_staged old new)
      (bind_step plain_call (\<lambda>_. bind_step (check_that b) (\<lambda>_. plain_call))) (\<lambda>_. tree_staged old new)" for b
    by (rule valid_bind [where M = "\<lambda>_. tree_staged old new"], rule valid_post [OF plain], simp split: sum.split,
        rule valid_bind [where M = "\<lambda>_. tree_staged old new"], rule valid_check) (simp_all add: plain split: sum.split)
  have rest: "valid leaves_getdir (tree_preserved old new) (tree_staged old new)
      (handle (bind_step plain_call (\<lambda>_. bind_step (check_that (\<not> dd_Special lk)) (\<lambda>_. plain_call))) (\<lambda>checked.
         if isl checked then result (Some TransferDownloadLocalWrite) else directory_publish (old \<noteq> None))) (tree_post old new)"
    by (rule valid_handle [OF checks], rule valid_if, rule refuse, simp add: tree_staged_def, simp, simp, rule directory_publish_valid)
  have kind: "directory_end lk b \<noteq> Some TransferDownloadRestoreFailed \<and> directory_end lk b \<noteq> Some DiagnosticsFailed" for b
    by (auto simp: directory_end_def Let_def split: downloadEnd.splits)
  show ?thesis
    unfolding directory_extracted_def
  proof (rule valid_handle [OF unpack])
    fix x :: "call_error + unit"
    show "valid leaves_getdir (tree_preserved old new) (\<lambda>s. gd_Dest s = old \<and> (\<not> isl x \<longrightarrow> tree_staged old new s))
      (case directory_end lk (dd_LocalOk lk \<and> \<not> isl x) of
         Some kind \<Rightarrow> result (Some kind)
       | None \<Rightarrow> handle (bind_step plain_call (\<lambda>_. bind_step (check_that (\<not> dd_Special lk)) (\<lambda>_. plain_call))) (\<lambda>checked.
           if isl checked then result (Some TransferDownloadLocalWrite) else directory_publish (old \<noteq> None))) (tree_post old new)"
    proof (cases "directory_end lk (dd_LocalOk lk \<and> \<not> isl x)")
      case None
      with directory_end_none have "\<not> isl x" by blast
      with None show ?thesis by (auto intro: valid_pre [OF rest])
    next
      case (Some k)
      with kind have "k \<noteq> TransferDownloadRestoreFailed" "k \<noteq> DiagnosticsFailed" by metis+
      with Some show ?thesis by (auto intro: refuse)
    qed
  qed
qed

lemma newDirectoryDownloadStaging_valid:
  "valid leaves_getdir (\<lambda>s. gd_Dest s = old) (\<lambda>s. gd_Dest s = old) newDirectoryDownloadStaging
     (\<lambda>x s. gd_Dest s = old \<and> (\<forall>b. x = Inr b \<longrightarrow> b = (old \<noteq> None) \<and> tree_staged old (base_tree old) s))"
    (is "valid _ ?old ?old _ ?Q")
proof -
  let ?empty = "tree_staged old []"
  have empty: "?empty s \<Longrightarrow> gd_Dest s = old" for s by (simp add: tree_staged_def)
  have parent: "valid leaves_getdir ?old ?old (act (\<lambda>s. s\<lparr>gd_Parent := True\<rparr>)) (\<lambda>_. ?old)"
    by (rule valid_act) (auto intro: leaves_getdir_refl)
  have reserve: "valid leaves_getdir ?old ?old (act (\<lambda>s. s\<lparr>gd_Staging := Some []\<rparr>)) (\<lambda>x s. if isl x then ?old s else ?empty s)"
    by (rule valid_act) (auto intro: leaves_getdir_refl simp: tree_staged_def)
  have clean: "valid leaves_getdir ?old ?old directory_cleanup (\<lambda>_. ?old)"
    unfolding directory_cleanup_def by (rule valid_write_call) (auto intro: leaves_getdir_refl)
  have fails: "valid leaves_getdir ?old ?old (handle directory_cleanup (\<lambda>_. failure Failed)) ?Q"
    by (rule valid_handle [OF clean], rule valid_failure) simp
  have copy: "valid leaves_getdir ?old ?old stage_existing (\<lambda>x s. gd_Dest s = old \<and> (\<not> isl x \<longrightarrow> tree_staged old (base_tree old) s))"
  proof -
    have "valid leaves_getdir ?old ?old (write_call
         (\<lambda>n s. case gd_Dest s of None \<Rightarrow> s | Some t \<Rightarrow> s\<lparr>gd_Staging := Some (take n t)\<rparr>)
         (\<lambda>s. case gd_Dest s of None \<Rightarrow> Inl Missing | Some t \<Rightarrow> Inr ((), s\<lparr>gd_Staging := Some t\<rparr>)))
         (\<lambda>x s. gd_Dest s = old \<and> (\<not> isl x \<longrightarrow> tree_staged old (base_tree old) s))"
      by (rule valid_write_call) (auto intro: leaves_getdir_refl simp: tree_staged_def base_tree_def split: option.splits)
    moreover have "valid leaves_getdir ?old (tree_staged old (base_tree old)) plain_call (\<lambda>_. tree_staged old (base_tree old))"
      by (rule valid_plain) (auto intro: leaves_getdir_refl simp: tree_staged_def [of old _ s for s])
    ultimately show ?thesis
      unfolding stage_existing_def
      by (intro valid_bind [where M = "\<lambda>_. tree_staged old (base_tree old)"])
        (erule valid_post, auto simp: tree_staged_def [of old _ s for s] split: sum.split elim!: valid_post)
  qed
  have stat: "valid leaves_getdir ?old ?empty
      (look (\<lambda>s. if gd_IsFile s then Inr False else case gd_Dest s of None \<Rightarrow> Inl Missing | Some _ \<Rightarrow> Inr True))
      (\<lambda>x s. ?empty s \<and> (x = Inr True \<longrightarrow> old \<noteq> None) \<and> (x = Inl Missing \<longrightarrow> old = None))"
    by (rule valid_look) (auto intro: leaves_getdir_refl simp: tree_staged_def split: option.splits if_splits)
  have failed: "valid leaves_getdir ?old (\<lambda>s. ?empty s \<and> B) (handle directory_cleanup (\<lambda>_. failure Failed)) ?Q" for B
    by (rule valid_pre [OF fails]) (simp add: empty)
  have copied: "valid leaves_getdir ?old (\<lambda>s. ?empty s \<and> old \<noteq> None)
      (handle stage_existing (\<lambda>copied. if isl copied then handle directory_cleanup (\<lambda>_. failure Failed) else result True)) ?Q"
  proof (rule valid_given)
    fix s assume "?empty s \<and> old \<noteq> None"
    then have some: "old \<noteq> None" by simp
    have "valid leaves_getdir ?old (\<lambda>s. gd_Dest s = old \<and> (\<not> isl x \<longrightarrow> tree_staged old (base_tree old) s))
        (if isl x then handle directory_cleanup (\<lambda>_. failure Failed) else result True) ?Q" for x :: "call_error + unit"
      by (rule valid_if, rule valid_pre [OF fails], simp, rule valid_result) (use some in simp)
    from valid_handle [OF copy this] show "valid leaves_getdir ?old ?old
      (handle stage_existing (\<lambda>copied. if isl copied then handle directory_cleanup (\<lambda>_. failure Failed) else result True)) ?Q" .
  qed (simp add: empty)
  have fresh: "valid leaves_getdir ?old (\<lambda>s. ?empty s \<and> old = None) (result False) ?Q"
    by (rule valid_result) (auto simp: tree_staged_def base_tree_def)
  have decide: "valid leaves_getdir ?old (\<lambda>s. ?empty s \<and> (x = Inr True \<longrightarrow> old \<noteq> None) \<and> (x = Inl Missing \<longrightarrow> old = None))
      (case x of
         Inr True \<Rightarrow> handle stage_existing (\<lambda>copied. if isl copied then handle directory_cleanup (\<lambda>_. failure Failed) else result True)
       | Inr False \<Rightarrow> handle directory_cleanup (\<lambda>_. failure Failed)
       | Inl Missing \<Rightarrow> result False
       | Inl Failed \<Rightarrow> handle directory_cleanup (\<lambda>_. failure Failed)) ?Q" for x
    using valid_pre [OF failed [of True]] copied fresh
    by (cases x) (auto split: bool.split call_error.split)
  show ?thesis
    unfolding newDirectoryDownloadStaging_def Let_def
  proof (rule valid_bind [where M = "\<lambda>_. ?old"], rule valid_post [OF parent], simp split: sum.split,
      rule valid_bind [where M = "\<lambda>_. ?empty"])
    show "valid leaves_getdir ?old ?old (act (\<lambda>s. s\<lparr>gd_Staging := Some []\<rparr>))
      (\<lambda>r s. case r of Inl e \<Rightarrow> ?Q (Inl e) s | Inr x \<Rightarrow> ?empty s)"
      by (rule valid_post [OF reserve]) (auto split: sum.splits)
  qed (rule valid_handle [OF stat decide])
qed

lemma downloadDirTar_valid:
  assumes new: "new = dd_Archive lk (base_tree old)"
  shows "valid leaves_getdir (tree_preserved old new) (\<lambda>s. gd_Dest s = old) (downloadDirTar lk) (tree_post old new)"
proof -
  let ?I = "tree_preserved old new"
  let ?base = "tree_staged old (base_tree old)"
  have dest: "?base s \<Longrightarrow> gd_Dest s = old" for s by (simp add: tree_staged_def)
  have refuse: "valid leaves_getdir ?I P (result (Some kind)) (tree_post old new)"
    if "\<And>s. P s \<Longrightarrow> gd_Dest s = old" "kind \<in> {DialClassified, SessionFailed, TransferDownloadLocalWrite}" for P kind
    by (rule valid_result) (use that in \<open>auto simp: tree_post_def\<close>)
  have stage: "valid leaves_getdir ?I (\<lambda>s. gd_Dest s = old) newDirectoryDownloadStaging
      (\<lambda>x s. gd_Dest s = old \<and> (\<forall>b. x = Inr b \<longrightarrow> b = (old \<noteq> None) \<and> ?base s))"
    by (rule valid_stop [OF newDirectoryDownloadStaging_valid]) simp
  have middle: "valid leaves_getdir ?I ?base
      (if \<not> dd_Dials lk \<or> \<not> dd_Session lk then result (Some DialClassified)
       else if \<not> dd_Pipes lk \<or> \<not> dd_Starts lk then result (Some SessionFailed)
       else if \<not> dd_TarStarts lk then result (Some TransferDownloadLocalWrite)
       else directory_extracted lk (old \<noteq> None)) (tree_post old new)"
    by (intro valid_if refuse directory_extracted_valid [OF new]) (simp_all add: dest)
  have clean: "valid leaves_getdir ?I (tree_post old new (Inr failed)) directory_cleanup (\<lambda>_. tree_post old new (Inr failed))" for failed
    unfolding directory_cleanup_def
    by (rule valid_write_call) (auto intro: leaves_getdir_refl simp: tree_preserved_def tree_post_def split: option.splits transfer_kind.splits)
  have last: "valid leaves_getdir ?I (tree_post old new (Inr failed))
      (let reported = (if failed = None \<and> \<not> dd_Replays lk then Some DiagnosticsFailed else failed) in
       if failed = None then result reported else handle directory_cleanup (\<lambda>_. result reported)) (tree_post old new)" for failed
  proof (cases failed)
    case None
    then show ?thesis by (auto simp: tree_post_def intro!: valid_result)
  next
    case (Some k)
    have "valid leaves_getdir ?I (tree_post old new (Inr failed)) (handle directory_cleanup (\<lambda>_. result failed)) (tree_post old new)"
      by (rule valid_handle [OF clean], rule valid_result)
    with Some show ?thesis by simp
  qed
  have rest: "valid leaves_getdir ?I ?base (bind_step
      (if \<not> dd_Dials lk \<or> \<not> dd_Session lk then result (Some DialClassified)
       else if \<not> dd_Pipes lk \<or> \<not> dd_Starts lk then result (Some SessionFailed)
       else if \<not> dd_TarStarts lk then result (Some TransferDownloadLocalWrite)
       else directory_extracted lk (old \<noteq> None))
      (\<lambda>failed. let reported = (if failed = None \<and> \<not> dd_Replays lk then Some DiagnosticsFailed else failed) in
         if failed = None then result reported else handle directory_cleanup (\<lambda>_. result reported))) (tree_post old new)"
    by (rule valid_bind [where M = "\<lambda>failed. tree_post old new (Inr failed)"], rule valid_post [OF middle], rule_tac [2] last)
      (auto split: sum.split)
  show ?thesis
    unfolding downloadDirTar_def
  proof (rule valid_handle [OF stage])
    fix x :: "call_error + bool"
    show "valid leaves_getdir ?I (\<lambda>s. gd_Dest s = old \<and> (\<forall>b. x = Inr b \<longrightarrow> b = (old \<noteq> None) \<and> ?base s))
      (case x of Inl _ \<Rightarrow> result (Some TransferDownloadLocalWrite)
       | Inr existing \<Rightarrow> bind_step
           (if \<not> dd_Dials lk \<or> \<not> dd_Session lk then result (Some DialClassified)
            else if \<not> dd_Pipes lk \<or> \<not> dd_Starts lk then result (Some SessionFailed)
            else if \<not> dd_TarStarts lk then result (Some TransferDownloadLocalWrite)
            else directory_extracted lk existing)
           (\<lambda>failed. let reported = (if failed = None \<and> \<not> dd_Replays lk then Some DiagnosticsFailed else failed) in
              if failed = None then result reported else handle directory_cleanup (\<lambda>_. result reported))) (tree_post old new)"
    proof (cases x)
      case (Inl e)
      then show ?thesis by (auto intro: refuse)
    next
      case (Inr existing)
      show ?thesis
      proof (cases "existing = (old \<noteq> None)")
        case True
        show ?thesis unfolding Inr True sum.case by (rule valid_pre [OF rest]) simp
      next
        case False
        show ?thesis by (rule valid_pre [OF valid_never]) (use Inr False in blast)
      qed
    qed
  qed
qed

text \<open>
  C14. Whichever call of the download of a tree fails or is the last one, the old tree is at its place or complete under the
  backup name, or the new tree, the archive extracted over a copy of the old one, is in place. What the download reports is
  true: without an error the new tree is in place, after a failed restoration the backup is the old tree, and after every
  other failure the old tree is at its place.
\<close>

theorem tree_get_preserves:
  assumes "keeps_to leaves_getdir (sw_Schedule w)" and "old = gd_Dest (sw_State w)" and "new = dd_Archive lk (base_tree old)"
  shows "case downloadDirTar lk w of
      Stopped s \<Rightarrow> tree_preserved old new s
    | Finished res w1 \<Rightarrow> tree_post old new res (sw_State w1)"
  using downloadDirTar_valid [OF assms(3)] assms(1,2)
  by (auto simp: valid_def split: run.splits)

definition sample_directory_link :: directory_link where
  "sample_directory_link = \<lparr>dd_Dials = True, dd_Session = True, dd_Pipes = True, dd_Starts = True, dd_TarStarts = True,
     dd_Archive = \<lambda>t. t @ [(''b'', [2])], dd_RemoteFirst = True, dd_Remote = WaitOk, dd_Later = WaitOk, dd_LocalOk = True,
     dd_Interrupted = False, dd_TimedOut = False, dd_Special = False, dd_Replays = True\<rparr>"

text \<open>The rename of the new tree fails, and so does the restoration of the old one.\<close>

definition sample_getdir_world :: "getdir_fs step_world" where
  "sample_getdir_world =
     \<lparr>sw_State = \<lparr>gd_Dest = Some [(''a'', [1])], gd_IsFile = False, gd_Staging = None, gd_Backup = None, gd_Reserved = False, gd_Parent = True\<rparr>,
      sw_Schedule = replicate 11 (id, Works) @ [(id, Fails), (id, Fails)]\<rparr>"

theorem tree_get_preserves_witness:
  "case downloadDirTar sample_directory_link sample_getdir_world of
     Stopped s \<Rightarrow> False
   | Finished res w1 \<Rightarrow> res = Inr (Some TransferDownloadRestoreFailed) \<and> gd_Backup (sw_State w1) = Some [(''a'', [1])]"
proof -
  have "case downloadDirTar sample_directory_link sample_getdir_world of
      Stopped s \<Rightarrow> False | Finished res w1 \<Rightarrow> res = Inr (Some TransferDownloadRestoreFailed)" by code_simp
  moreover have "keeps_to leaves_getdir (sw_Schedule sample_getdir_world)"
    by (auto simp: sample_getdir_world_def keeps_to_def leaves_getdir_def)
  moreover have "gd_Dest (sw_State sample_getdir_world) = Some [(''a'', [1])]" by (simp add: sample_getdir_world_def)
  note tree_get_preserves [OF calculation(2) this [symmetric] refl, of sample_directory_link]
  ultimately show ?thesis
    by (cases "downloadDirTar sample_directory_link sample_getdir_world") (simp_all add: tree_post_def)
qed

section \<open>The upload of a tree\<close>

datatype entry = RegularEntry bytes | SpecialEntry | DirectoryEntry "(string \<times> entry) list"

text \<open>
  The end of \<^verbatim>\<open>uploadDirTarStream\<close>: None is success. \<open>tarOk\<close> is the exit of the local \<^verbatim>\<open>tar\<close>, \<open>copied\<close> that the archive
  was copied without an error, \<open>remote\<close> the end of the remote extraction, \<open>noted\<close> that the diagnostics could be kept.
\<close>

definition remote_extract_failure :: "session_wait \<Rightarrow> transfer_kind option" where
  "remote_extract_failure remote =
     (case remote of WaitOk \<Rightarrow> None | WaitStatus _ \<Rightarrow> Some TransferRemoteExtractFailed | WaitLost \<Rightarrow> Some SessionFailed)"

definition upload_stream_end :: "bool \<Rightarrow> bool \<Rightarrow> session_wait \<Rightarrow> bool \<Rightarrow> transfer_kind option" where
  "upload_stream_end tarOk copied remote noted =
     (if (\<not> tarOk \<or> \<not> copied) \<and> remote \<noteq> WaitOk then remote_extract_failure remote
      else if \<not> tarOk then Some TransferLocalRead
      else if \<not> noted then Some DiagnosticsFailed
      else remote_extract_failure remote)"

lemma upload_stream_end_none: "upload_stream_end tarOk copied remote noted = None \<Longrightarrow> tarOk \<and> remote = WaitOk"
  by (auto simp: upload_stream_end_def remote_extract_failure_def split: if_splits session_wait.splits)

text \<open>\<^verbatim>\<open>validateUploadDirWalk\<close>: no special entry, and no empty directory but the root.\<close>

fun walk_entry_ok :: "entry \<Rightarrow> bool" where
  "walk_entry_ok (RegularEntry _) = True"
| "walk_entry_ok SpecialEntry = False"
| "walk_entry_ok (DirectoryEntry es) = list_all (\<lambda>(_, e). e \<noteq> DirectoryEntry [] \<and> walk_entry_ok e) es"

definition validateUploadDirWalk :: "entry \<Rightarrow> bool" where
  "validateUploadDirWalk root = walk_entry_ok root"

text \<open>The files that \<^verbatim>\<open>uploadDirWalk\<close> sends, by their paths below the root.\<close>

fun walk_files :: "entry \<Rightarrow> (string list \<times> bytes) list" where
  "walk_files (RegularEntry data) = [([], data)]"
| "walk_files SpecialEntry = []"
| "walk_files (DirectoryEntry es) = concat (map (\<lambda>(n, e). map (\<lambda>(p, data). (n # p, data)) (walk_files e)) es)"

fun walk_directories :: "entry \<Rightarrow> string list list" where
  "walk_directories (DirectoryEntry es) = [] # concat (map (\<lambda>(n, e). map (\<lambda>p. n # p) (walk_directories e)) es)"
| "walk_directories _ = []"

definition uploadDirWalk :: "string \<Rightarrow> entry \<Rightarrow> (string \<times> bytes) list" where
  "uploadDirWalk remoteDir root =
     map (\<lambda>(p, data). (trim_right remoteDir ''/'' @ ''/'' @ join ''/'' p, data)) (walk_files root)"

text \<open>
  The directories that arise from the files: each upload makes the parents of its file.
\<close>

definition made_directories :: "(string list \<times> bytes) list \<Rightarrow> string list set" where
  "made_directories files = {p. \<exists>q data. (q, data) \<in> set files \<and> (\<exists>n r. q = p @ n # r)}"

lemma walk_files_directory:
  "(q, data) \<in> set (walk_files (DirectoryEntry es)) \<longleftrightarrow>
   (\<exists>n e q'. (n, e) \<in> set es \<and> q = n # q' \<and> (q', data) \<in> set (walk_files e))"
  by force

lemma walk_directories_directory:
  "p \<in> set (walk_directories (DirectoryEntry es)) \<longleftrightarrow>
   p = [] \<or> (\<exists>n e p'. (n, e) \<in> set es \<and> p = n # p' \<and> p' \<in> set (walk_directories e))"
  by force

lemma made_directories_directory:
  "n # p \<in> made_directories (walk_files (DirectoryEntry es)) \<longleftrightarrow>
   (\<exists>e. (n, e) \<in> set es \<and> p \<in> made_directories (walk_files e))"
  unfolding made_directories_def mem_Collect_eq walk_files_directory by fastforce

lemma accepted_children: "walk_entry_ok (DirectoryEntry es) \<Longrightarrow> (n, e) \<in> set es \<Longrightarrow> walk_entry_ok e \<and> e \<noteq> DirectoryEntry []"
  by (auto simp: list_all_iff)

lemma accepted_entry_has_files: "walk_entry_ok e \<Longrightarrow> e \<noteq> DirectoryEntry [] \<Longrightarrow> \<exists>q data. (q, data) \<in> set (walk_files e)"
proof (induction e)
  case (DirectoryEntry es)
  then obtain n e es' where es: "es = (n, e) # es'" by (cases es) auto
  then have "\<exists>q data. (q, data) \<in> set (walk_files e)"
    using DirectoryEntry.IH [of "(n, e)" e] accepted_children [OF DirectoryEntry.prems(1), of n e] by auto
  then show ?case unfolding walk_files_directory using es by fastforce
qed auto

lemma accepted_directories:
  "walk_entry_ok e \<Longrightarrow> e \<noteq> DirectoryEntry [] \<Longrightarrow> p \<in> set (walk_directories e) \<longleftrightarrow> p \<in> made_directories (walk_files e)"
proof (induction e arbitrary: p)
  case (DirectoryEntry es)
  show ?case
  proof (cases p)
    case Nil
    obtain q data where "(q, data) \<in> set (walk_files (DirectoryEntry es))"
      using accepted_entry_has_files [OF DirectoryEntry.prems] by blast
    then have "[] \<in> made_directories (walk_files (DirectoryEntry es))"
      unfolding made_directories_def mem_Collect_eq walk_files_directory by fastforce
    with Nil show ?thesis unfolding walk_directories_directory by simp
  next
    case (Cons n p')
    have "p' \<in> set (walk_directories e) \<longleftrightarrow> p' \<in> made_directories (walk_files e)" if "(n, e) \<in> set es" for e
      using DirectoryEntry.IH [OF that, of e p'] accepted_children [OF DirectoryEntry.prems(1) that] by simp
    then show ?thesis unfolding Cons walk_directories_directory made_directories_directory by auto
  qed
qed (auto simp: made_directories_def)

text \<open>
  A tree that the file-by-file upload accepts is represented by the files that it sends: together with the destination
  itself, the directories above these files are exactly those of the tree, and the tree has only files and directories.
\<close>

theorem fallback_represents_the_tree:
  assumes "validateUploadDirWalk (DirectoryEntry es)"
  shows "set (walk_directories (DirectoryEntry es)) = insert [] (made_directories (walk_files (DirectoryEntry es)))"
proof (cases "es = []")
  case True
  then show ?thesis by (auto simp: made_directories_def)
next
  case False
  then have "set (walk_directories (DirectoryEntry es)) = made_directories (walk_files (DirectoryEntry es))"
    using assms accepted_directories [of "DirectoryEntry es"] unfolding validateUploadDirWalk_def by blast
  moreover have "[] \<in> set (walk_directories (DirectoryEntry es))" by simp
  ultimately show ?thesis by auto
qed

theorem fallback_represents_the_tree_witness:
  "set (walk_directories (DirectoryEntry [(''d'', DirectoryEntry [(''f'', RegularEntry [1])])])) =
   insert [] (made_directories (walk_files (DirectoryEntry [(''d'', DirectoryEntry [(''f'', RegularEntry [1])])])))"
  by (rule fallback_represents_the_tree) code_simp

section \<open>Files or trees\<close>

text \<open>The decisions of \<^verbatim>\<open>UploadPathWithOptions\<close> and \<^verbatim>\<open>DownloadPathWithOptions\<close> for hosts with a shell.\<close>

datatype route = FileRoute | TreeRoute | Refused_route transfer_kind string

text \<open>\<open>stat\<close>: None if the local path cannot be examined, otherwise whether it is a regular file and whether it is a directory.\<close>

definition UploadPathWithOptions :: "(bool \<times> bool) option \<Rightarrow> bool \<Rightarrow> bool \<Rightarrow> string \<Rightarrow> route" where
  "UploadPathWithOptions stat verify timed version =
     (case stat of
        None \<Rightarrow> Refused_route TransferLocalRead ''local_read''
      | Some (regular, directory) \<Rightarrow>
          if regular then FileRoute
          else if \<not> directory then Refused_route TransferDirectorySourceUnsupported ''local_read''
          else if verify \<or> timed \<or> version \<noteq> [] then Refused_route TransferDirectoryOptionsUnsupported ''validate''
          else TreeRoute)"

definition DownloadPathWithOptions :: "session_end option \<Rightarrow> bool \<Rightarrow> route" where
  "DownloadPathWithOptions probe verify =
     (case remoteIsDirOn probe of
        Inl kind \<Rightarrow> Refused_route kind ''discovery''
      | Inr False \<Rightarrow> FileRoute
      | Inr True \<Rightarrow> if verify then Refused_route TransferDirectoryOptionsUnsupported ''validate'' else TreeRoute)"

text \<open>A tree is never taken for a transfer that promises more than trees do.\<close>

lemma trees_promise_nothing:
  "UploadPathWithOptions stat verify timed version = TreeRoute \<Longrightarrow> \<not> verify \<and> \<not> timed \<and> version = []"
  "DownloadPathWithOptions probe verify = TreeRoute \<Longrightarrow> \<not> verify"
  by (auto simp: UploadPathWithOptions_def DownloadPathWithOptions_def split: option.splits prod.splits if_splits sum.splits bool.splits)

end
