(* ===== verification/Failure_Policies.thy ===== *)
theory Failure_Policies
  imports Ssm_Prelude
begin

text \<open>
  The table of public failure classes (\<^verbatim>\<open>failurePolicies\<close> of \<^verbatim>\<open>internal/machinecontract/contract.go\<close>): code, stage,
  hint, exit and rendering of every kind. It is kept in parts, in the order of the source.
\<close>

section \<open>Kinds and policies\<close>

type_synonym kind = string

datatype human_style =
    HumanStandard
  | HumanPlain
  | HumanAliasNotFound
  | HumanScript
  | HumanHostVerification
  | HumanHostPush
  | HumanMapNoTargets
  | HumanRunArguments
  | HumanHostKeyOperation
  | HumanPanic
  | HumanLegacyUsage
  | HumanLegacyNotFound
  | HumanLegacyUnknownCommand
  | HumanLegacyMessage
  | HumanRaw
  | HumanDoctorOption
  | HumanImportArguments

datatype renderer_policy = RendererRequested | RendererHumanOnly

record failure_policy =
  fp_Code :: string
  fp_Stage :: string
  fp_Hint :: string
  fp_HumanHint :: string
  fp_Exit :: int
  fp_Process :: int
  fp_Human :: human_style
  fp_Renderer :: renderer_policy
  fp_HintFromCause :: bool
  fp_HintFromDetails :: bool
  fp_SuppressMessage :: bool
  fp_Outcome :: string
  fp_TransportWrapper :: bool

text \<open>A composite literal with the other fields left at their zero values.\<close>

definition policy :: "string \<Rightarrow> string \<Rightarrow> string \<Rightarrow> int \<Rightarrow> failure_policy" where
  "policy code stage hint exit =
     \<lparr>fp_Code = code, fp_Stage = stage, fp_Hint = hint, fp_HumanHint = [], fp_Exit = exit, fp_Process = 0,
      fp_Human = HumanStandard, fp_Renderer = RendererRequested, fp_HintFromCause = False, fp_HintFromDetails = False,
      fp_SuppressMessage = False, fp_Outcome = [], fp_TransportWrapper = False\<rparr>"

section \<open>The table\<close>

definition policies_1 :: "(kind \<times> failure_policy) list" where
  "policies_1 =
     [(''internal_failure'', policy ''internal'' ''''
        '''' 1),
      (''unknown_sshctl_command'', policy ''unknown_command'' ''''
        ''use sshctl run <alias> --argv <command> or sshctl --help'' 2
        \<lparr>fp_HintFromDetails := True\<rparr>),
      (''unknown_ssm_command'', policy ''unknown_command'' ''''
        ''use ssm --help for available commands'' 2
        \<lparr>fp_HintFromDetails := True\<rparr>),
      (''invalid_request_document'', policy ''invalid_request'' ''''
        ''use schema version 1 and exactly one typed operation'' 2),
      (''master_pass_file_required_create'', policy ''master_pass_file_required'' ''''
        ''provide --master-pass-file or SSM_MASTER_PASS_FILE to create it non-interactively'' 2),
      (''alias_not_found'', policy ''alias_not_found'' ''''
        ''use sshctl host list --json and retry with an exact alias'' 255
        \<lparr>fp_Human := HumanAliasNotFound\<rparr>),
      (''sync_conflict'', policy ''sync_conflict'' ''sync_compare''
        ''local and remote blobs were preserved; inspect sshctl --offline --json doctor, then run sshctl --json pull after review'' 1),
      (''empty_ledger_sync_conflict'', policy ''sync_conflict'' ''sync_compare''
        ''review sshctl --offline --json doctor and preserve the local vault and sync-conflict.json; run sshctl --json pull --adopt-remote <remote-sha256> --yes only after reviewing the exact remote identity, then use guarded ssm --offline --json import-json <reviewed-file> --merge and publish its reviewed transaction with sshctl --json push --only <transaction-id>'' 1),
      (''sync_pull_failed'', policy ''sync_pull_failed'' ''sync_pull''
        ''fix sync connectivity or retry explicitly with --offline'' 1),
      (''stream_sync_pull_failed'', policy ''sync_pull_failed'' ''sync_pull''
        ''fix sync connectivity or retry explicitly with --offline'' 1),
      (''transfer_local_read'', policy ''local_read_failed'' ''local_read''
        ''verify the local path and read permissions'' 1),
      (''dial_timeout'', policy ''dial_timeout'' ''dial''
        ''network/host unreachable or filtered; verify host online/firewall/IPv6. Not an ssm quote bug.'' 255),
      (''dial_refused'', policy ''dial_refused'' ''dial''
        ''sshd not listening or wrong port; not an ssm quote bug'' 255),
      (''dial_network'', policy ''dial_network'' ''dial''
        ''routing/DNS/firewall issue; not an ssm quote bug'' 255),
      (''wait_timeout'', policy ''wait_timeout'' ''wait''
        ''the host did not become reachable in time; check the host or increase --timeout (authentication and host-key failures stop wait immediately instead)'' 1),
      (''tunnel_invalid_arguments'', policy ''tunnel_invalid_arguments'' ''tunnel''
        ''provide at least one valid -L or -D forward'' 2),
      (''tunnel_bind_failed'', policy ''tunnel_bind_failed'' ''tunnel''
        ''the local port is already in use or permission was denied'' 1),
      (''tunnel_remote_bind_refused'', policy ''tunnel_remote_bind_refused'' ''tunnel''
        ''non-loopback binds require --allow-remote-bind --yes'' 2),
      (''host_key_unknown'', policy ''host_key_unknown'' ''dial''
        ''run sshctl host-key inspect <alias> --json, verify the observed fingerprint through a trusted channel, then use fingerprint-bound host-key accept'' 255),
      (''host_key_mismatch'', policy ''host_key_mismatch'' ''dial''
        ''do not remove or rescan automatically; run sshctl host-key inspect <alias> --json, verify out-of-band, then accept the exact observed fingerprint'' 255),
      (''host_key_type_changed'', policy ''host_key_type_changed'' ''dial''
        ''the server no longer presents any host key type recorded in known_hosts; do not remove or rescan automatically; run sshctl host-key inspect <alias> --json, verify out-of-band, then accept the exact observed fingerprint (accept adds the new key type and keeps the other recorded types)'' 255),
      (''authentication_failed'', policy ''auth_failed'' ''dial''
        ''check password/key in vault; not a quote or SSM client bug'' 255),
      (''no_authentication_configured'', policy ''no_auth_configured'' ''dial''
        ''update host auth with sshctl host update <alias> --key-file <path> or --password-file <path>'' 255),
      (''session_failed'', policy ''session_failed'' ''session''
        ''SSH connected but session failed; remote sshd or resources may be unhealthy'' 255),
      (''session_limit'', policy ''session_limit'' ''session''
        ''the SSH server refused a new session because its per-connection session limit stayed full; the command was not sent, so it is safe to retry. Lower the parallelism (-j) or raise sshd MaxSessions on the host'' 255),
      (''remote_command_failed'', policy ''remote_failed'' ''remote_execution''
        ''inspect stdout/stderr; SSH transport succeeded'' 1),
      (''interpreter_not_found'', policy ''interpreter_not_found'' ''interpreter''
        '''' 127
        \<lparr>fp_Human := HumanScript\<rparr>),
      (''remote_script_failed'', policy ''remote_script_failed'' ''remote_execution''
        ''the script reached the remote interpreter but exited non-zero; inspect stderr'' 1
        \<lparr>fp_Human := HumanScript\<rparr>)]"

definition policies_2 :: "(kind \<times> failure_policy) list" where
  "policies_2 =
     [(''run_interrupted'', policy ''interrupted'' ''remote_execution''
        ''a local signal stopped sshctl; it was forwarded to the remote command, which may still be running'' 130),
      (''connection_lost'', policy ''connection_lost'' ''remote_execution''
        ''the connection dropped after the command was sent; the remote command may still be running or may have finished. Check the process state on the host before retrying; do not retry blindly'' 255
        \<lparr>fp_Outcome := ''unknown''\<rparr>),
      (''handshake_failed'', policy ''handshake_failed'' ''handshake''
        ''TCP connected but the SSH handshake failed before any command was sent, so retrying is safe; check that sshd is healthy and not rate limiting connections (MaxStartups, fail2ban); if the server is only slow, raise --connect-timeout'' 255),
      (''exec_timed_out'', policy ''exec_timeout'' ''remote_execution''
        ''sshctl stopped the command after --exec-timeout: it sent SIGTERM and closed the session after a grace period, so the remote command may still be running; stdout and stderr hold what arrived before the deadline. Check the process state on the host, raise --exec-timeout, or run long work in the background on the host'' 124),
      (''script_syntax_failed'', policy ''script_syntax_error'' ''syntax_preflight''
        ''the remote interpreter rejected the script syntax; no script body was executed and raw parser output was suppressed'' 1),
      (''host_invalid_arguments'', policy ''invalid_arguments'' ''validate''
        ''review sshctl host --help and retry with explicit flags'' 2),
      (''host_apply_invalid_arguments'', policy ''invalid_arguments'' ''validate''
        ''review sshctl host --help and retry with explicit flags'' 2
        \<lparr>fp_Process := 1\<rparr>),
      (''host_alias_not_found'', policy ''alias_not_found'' ''lookup''
        ''use sshctl --json host list and retry with an exact alias'' 255
        \<lparr>fp_Process := 1\<rparr>),
      (''host_verification_failed'', policy ''verification_failed'' ''verify''
        ''inspect verification.error and fix the candidate before retrying'' 255
        \<lparr>fp_Human := HumanHostVerification\<rparr>),
      (''host_push_failed'', policy ''sync_push_failed'' ''sync_push''
        ''local change remains pending; inspect sshctl --json status and retry with sshctl --json push --only <transaction-id>'' 1
        \<lparr>fp_HumanHint := ''local change remains pending; inspect sshctl --json status and retry with sshctl --json push --only <transaction-id>'', fp_Human := HumanHostPush\<rparr>),
      (''host_sync_pull_failed'', policy ''sync_pull_failed'' ''sync_pull''
        ''fix sync connectivity or retry explicitly with --offline'' 1),
      (''host_vault_failed'', policy ''vault_error'' ''vault''
        ''verify the encrypted vault and master pass file'' 1),
      (''host_authentication_required'', policy ''auth_required'' ''validate''
        ''provide --key, --key-file, or --password-file'' 2),
      (''host_apply_authentication_required'', policy ''auth_required'' ''validate''
        ''provide --key, --key-file, or --password-file'' 2
        \<lparr>fp_Process := 1\<rparr>),
      (''host_confirmation_required'', policy ''confirmation_required'' ''validate''
        ''review the alias and pass --yes explicitly'' 2),
      (''host_already_exists'', policy ''host_exists'' ''apply''
        ''review the error and retry safely'' 1),
      (''host_invalid_alias'', policy ''invalid_alias'' ''apply''
        ''review the error and retry safely'' 1),
      (''host_saved_key_not_found'', policy ''key_not_found'' ''apply''
        ''review the error and retry safely'' 1),
      (''host_invalid_address'', policy ''invalid_host'' ''apply''
        ''review the error and retry safely'' 1),
      (''host_invalid_user'', policy ''invalid_user'' ''apply''
        ''review the error and retry safely'' 1),
      (''host_invalid_group'', policy ''invalid_group'' ''apply''
        ''review the error and retry safely'' 1),
      (''host_password_file_failed'', policy ''password_file_error'' ''apply''
        ''review the error and retry safely'' 1),
      (''host_key_file_failed'', policy ''key_file_error'' ''apply''
        ''review the error and retry safely'' 1),
      (''host_invalid_key'', policy ''invalid_key'' ''apply''
        ''review the error and retry safely'' 1),
      (''host_key_conflict'', policy ''key_conflict'' ''apply''
        ''review the error and retry safely'' 1),
      (''host_transaction_failed'', policy ''transaction_error'' ''apply''
        ''review the error and retry safely'' 1),
      (''host_internal_failure'', policy ''internal'' ''apply''
        ''review the error and retry safely'' 1),
      (''panic_failure'', policy ''internal'' ''''
        ''retry with SSM_TRACE=1 outside machine mode and report the failure'' 1
        \<lparr>fp_Human := HumanPanic\<rparr>),
      (''generic_failure'', policy ''internal'' ''''
        '''' 1
        \<lparr>fp_Human := HumanPlain\<rparr>)]"

definition policies_3 :: "(kind \<times> failure_policy) list" where
  "policies_3 =
     [(''update_failed'', policy ''update_failed'' ''update''
        ''the prior executable was preserved; retry after resolving the reported update failure'' 1
        \<lparr>fp_Human := HumanPlain\<rparr>),
      (''update_recovery_required'', policy ''update_recovery_required'' ''update_recovery''
        ''authenticated original evidence was preserved; canonical restoration remains required before retrying'' 1),
      (''update_migration_failed'', policy ''migration_preflight_failed'' ''migration_preflight''
        ''the prior executable was preserved; resolve the reported checks and rerun the migration review'' 1
        \<lparr>fp_Human := HumanPlain\<rparr>),
      (''missing_command'', policy ''missing_command'' ''''
        ''use ssm --help or sshctl --help'' 2),
      (''invalid_global_arguments'', policy ''invalid_arguments'' ''''
        ''run sshctl --help for supported global options'' 2),
      (''sshctl_command_required'', policy ''invalid_arguments'' ''''
        ''run sshctl --help for available commands'' 2),
      (''invalid_sshctl_arguments'', policy ''invalid_arguments'' ''''
        ''run sshctl --help for usage'' 2),
      (''run_alias_required'', policy ''missing_alias'' ''''
        ''use sshctl --json run <exact-alias> --argv <command> [args...]'' 2),
      (''plan_alias_required'', policy ''missing_alias'' ''''
        ''use sshctl --json plan <exact-alias> --argv <command> [args...]'' 2),
      (''check_alias_required'', policy ''missing_alias'' ''''
        ''use sshctl --json check <exact-alias>'' 2),
      (''unsupported_interactive_shell'', policy ''unsupported_command'' ''''
        ''use sshctl run with --argv or a script source'' 2),
      (''invalid_stream_arguments'', policy ''invalid_arguments'' ''''
        ''use sshctl run <alias> --stream [--refresh 30s]'' 2),
      (''master_pass_file_read_failed'', policy ''master_pass_file_error'' ''''
        ''use --master-pass-file or SSM_MASTER_PASS_FILE with a readable private file'' 1),
      (''master_pass_file_empty'', policy ''master_pass_file_error'' ''''
        ''write the vault passphrase to the configured file'' 1),
      (''vault_create_failed'', policy ''vault_error'' ''''
        ''verify configuration directory permissions'' 1),
      (''vault_unlock_failed'', policy ''vault_unlock_failed'' ''''
        ''verify the master pass file belongs to this encrypted vault'' 1),
      (''master_pass_file_required_existing'', policy ''master_pass_file_required'' ''''
        ''provide --master-pass-file or SSM_MASTER_PASS_FILE; credentials are never accepted inline'' 2),
      (''invalid_request_run'', policy ''invalid_request'' ''''
        ''use exactly one of argv, shell_command, or script_file'' 2),
      (''invalid_request_alias'', policy ''invalid_request'' ''''
        ''provide one exact inventory alias'' 2),
      (''invalid_request_check'', policy ''invalid_request'' ''''
        ''check accepts only version, op, and alias'' 2),
      (''invalid_request_doctor'', policy ''invalid_request'' ''''
        ''use alias and optional deep only'' 2),
      (''invalid_request_doctor_alias'', policy ''invalid_request'' ''''
        ''doctor alias must be an exact inventory name'' 2),
      (''invalid_request_host'', policy ''invalid_request'' ''''
        ''host operations accept structured host fields and file-based credentials only'' 2),
      (''invalid_request_put_fields'', policy ''invalid_request'' ''''
        ''use file paths; never place file contents or credentials in the request'' 2),
      (''invalid_request_put_paths'', policy ''invalid_request'' ''''
        ''use resume:\"v1\" explicitly for regular-file retry'' 2),
      (''invalid_request_timeout'', policy ''invalid_request'' ''''
        ''timeout must be a positive duration'' 2),
      (''invalid_request_operation'', policy ''invalid_request'' ''''
        ''use run, plan, check, doctor, put, get, or host.list/search/show/add/update/upsert/remove'' 2),
      (''stream_vault_unlock_failed'', policy ''vault_unlock_failed'' ''vault''
        ''verify the master pass file belongs to this encrypted vault'' 1),
      (''stream_decode_failed'', policy ''invalid_request'' ''decode''
        ''send one non-empty JSON string array per line'' 2),
      (''stream_read_failed'', policy ''invalid_request'' ''read''
        ''send smaller argv arrays'' 2),
      (''register_arguments_invalid'', policy ''invalid_arguments'' ''''
        ''use --server, --email, and --password-file'' 2),
      (''login_arguments_invalid'', policy ''invalid_arguments'' ''''
        ''use --server, --email, and --password-file'' 2)]"

definition policies_4 :: "(kind \<times> failure_policy) list" where
  "policies_4 =
     [(''push_arguments_invalid'', policy ''invalid_arguments'' ''''
        ''inspect pending_mutations with sshctl --json status'' 2),
      (''push_only_required'', policy ''invalid_arguments'' ''''
        ''copy an exact id from sshctl --json status'' 2),
      (''push_scope_conflict'', policy ''invalid_arguments'' ''''
        ''choose one explicit push scope'' 2),
      (''sync_push_failed'', policy ''sync_push_failed'' ''''
        ''local vault remains pending; fix sync, then retry with sshctl --json push --only <transaction-id> or, after reviewing all pending transactions, sshctl --json push --all'' 1),
      (''sync_unconfigured'', policy ''sync_config_error'' ''''
        ''configure sync or use local inventory'' 1),
      (''sync_configuration_failed'', policy ''sync_config_error'' ''sync_config''
        ''repair sync configuration or retry explicitly with --offline'' 1),
      (''sync_pull_replace_failed'', policy ''sync_pull_failed'' ''''
        ''local inventory was not replaced'' 1),
      (''transfer_arguments_invalid'', policy ''invalid_arguments'' ''validate''
        ''use sshctl put <alias> <local> <remote> [--resume=v1] [--sha256] [--timeout <duration>] [--dir-mode <octal>] [--json]'' 2),
      (''map_no_targets'', policy ''no_targets'' ''''
        ''refresh sshctl host list and use exact aliases or reviewed patterns'' 2
        \<lparr>fp_Human := HumanMapNoTargets\<rparr>),
      (''redirect_action_required'', policy ''invalid_arguments'' ''''
        ''use redirect list, set <old> <new>, or rm <old>'' 2),
      (''redirect_set_arguments_invalid'', policy ''invalid_arguments'' ''''
        ''use redirect set <old-alias> <target-alias>'' 2),
      (''redirect_remove_arguments_invalid'', policy ''invalid_arguments'' ''''
        ''use redirect rm <old-alias>'' 2),
      (''redirect_action_invalid'', policy ''invalid_arguments'' ''''
        ''use redirect list, set, or rm'' 2),
      (''import_arguments_invalid'', policy ''invalid_arguments'' ''''
        ''use exactly one of --merge or --replace --yes'' 2
        \<lparr>fp_Human := HumanImportArguments\<rparr>),
      (''import_count_mismatch'', policy ''import_count_mismatch'' ''''
        ''review the import source and expected count before retrying'' 1),
      (''merge_report_failed'', policy ''merge_report_error'' ''''
        ''vault was not changed; verify config directory permissions'' 1),
      (''run_alias_not_found'', policy ''alias_not_found'' ''lookup''
        ''use sshctl host list --json and retry with an exact alias'' 255),
      (''map_alias_not_found'', policy ''alias_not_found'' ''lookup''
        ''use sshctl list --json; alias may have been renamed after migration'' 255),
      (''doctor_alias_not_found'', policy ''alias_not_found'' ''lookup''
        ''use sshctl --json host list and retry with an exact alias'' 255),
      (''session_acquisition_failed'', policy ''session_failed'' ''session''
        '''' 255),
      (''ssh_stdin_failed'', policy ''internal'' ''session''
        ''retry the operation; report the failure if it persists'' 1),
      (''invalid_run_arguments'', policy ''invalid_arguments'' ''''
        '''' 2
        \<lparr>fp_Human := HumanRunArguments, fp_HintFromCause := True, fp_SuppressMessage := True\<rparr>),
      (''host_key_arguments_invalid'', policy ''invalid_arguments'' ''''
        ''use host-key inspect <alias> or host-key accept <alias> --fingerprint SHA256:... --yes'' 2),
      (''host_key_vault_failed'', policy ''vault_error'' ''''
        ''unlock the vault and retry'' 1),
      (''host_key_operation_failed'', policy ''host_key_operation_failed'' ''host_key''
        ''inspect the endpoint and retry'' 1
        \<lparr>fp_Human := HumanHostKeyOperation\<rparr>),
      (''host_key_scan_direct_failed'', policy ''host_key_scan_failed'' ''host_key''
        ''verify the endpoint is a direct SSH service rather than an HTTP proxy'' 1
        \<lparr>fp_Human := HumanHostKeyOperation\<rparr>),
      (''host_key_scan_failed'', policy ''host_key_scan_failed'' ''host_key''
        ''verify the SSH endpoint and retry'' 1
        \<lparr>fp_Human := HumanHostKeyOperation\<rparr>),
      (''known_hosts_permissions_failed'', policy ''known_hosts_error'' ''host_key''
        ''fix known_hosts permissions and retry'' 1
        \<lparr>fp_Human := HumanHostKeyOperation\<rparr>),
      (''known_hosts_malformed'', policy ''known_hosts_error'' ''host_key''
        ''repair malformed known_hosts before accepting a key'' 1
        \<lparr>fp_Human := HumanHostKeyOperation\<rparr>)]"

definition policies_5 :: "(kind \<times> failure_policy) list" where
  "policies_5 =
     [(''known_hosts_inspection_failed'', policy ''known_hosts_error'' ''host_key''
        ''inspect known_hosts and retry'' 1
        \<lparr>fp_Human := HumanHostKeyOperation\<rparr>),
      (''ssh_directory_permissions_failed'', policy ''known_hosts_error'' ''host_key''
        ''fix ~/.ssh permissions and retry'' 1
        \<lparr>fp_Human := HumanHostKeyOperation\<rparr>),
      (''known_hosts_unchanged'', policy ''known_hosts_error'' ''host_key''
        ''known_hosts was not changed'' 1
        \<lparr>fp_Human := HumanHostKeyOperation\<rparr>),
      (''known_hosts_update_failed'', policy ''known_hosts_update_failed'' ''host_key''
        ''install OpenSSH ssh-keygen or remove the exact host:port entry manually'' 1
        \<lparr>fp_Human := HumanHostKeyOperation\<rparr>),
      (''host_key_fingerprint_mismatch'', policy ''fingerprint_mismatch'' ''host_key''
        ''compare the fingerprint through a trusted channel; do not accept an unexpected key'' 1
        \<lparr>fp_Human := HumanHostKeyOperation\<rparr>),
      (''host_key_fingerprint_changed'', policy ''fingerprint_changed'' ''host_key''
        ''known_hosts was not changed; investigate endpoint instability or a possible interception'' 1
        \<lparr>fp_Human := HumanHostKeyOperation\<rparr>),
      (''transfer_local_file_stat'', policy ''local_read_failed'' ''local_read''
        ''verify the local file is readable'' 1),
      (''transfer_regular_file_required'', policy ''local_read_failed'' ''local_read''
        ''put integrity mode supports regular files'' 1),
      (''transfer_integrity_source_read'', policy ''local_read_failed'' ''local_read''
        ''read the local file successfully before retrying'' 1),
      (''transfer_seekable_source_required'', policy ''local_read_failed'' ''local_read''
        ''use a seekable regular source file'' 1),
      (''transfer_session_open_failed'', policy ''session_failed'' ''dial''
        ''retry after checking SSH session limits'' 1
        \<lparr>fp_TransportWrapper := True\<rparr>),
      (''transfer_stdin_open_failed'', policy ''remote_write_failed'' ''remote_write''
        ''retry the upload; the final destination was not replaced'' 1
        \<lparr>fp_TransportWrapper := True\<rparr>),
      (''transfer_start_failed'', policy ''remote_write_failed'' ''remote_write''
        ''remote temporary file was not published'' 1
        \<lparr>fp_TransportWrapper := True\<rparr>),
      (''transfer_timed_out'', policy ''transfer_timeout'' ''timeout''
        ''retry; the remote temporary file is cleaned and the final path is unchanged'' 1),
      (''transfer_remote_write_failed'', policy ''remote_write_failed'' ''remote_write''
        ''retry; the remote temporary file is cleaned and the final path is unchanged'' 1
        \<lparr>fp_TransportWrapper := True\<rparr>),
      (''transfer_remote_close_failed'', policy ''remote_write_failed'' ''remote_write''
        ''retry; the final path was not replaced'' 1
        \<lparr>fp_TransportWrapper := True\<rparr>),
      (''transfer_integrity_mismatch'', policy ''integrity_failed'' ''integrity''
        ''source and remote temporary file differ; nothing was published'' 1),
      (''transfer_remote_permissions_failed'', policy ''remote_write_failed'' ''remote_write''
        ''check remote path permissions and available space; the final path was not replaced'' 1),
      (''transfer_receipt_invalid'', policy ''integrity_failed'' ''integrity''
        ''remote receipt did not match the local file; investigate the endpoint'' 1),
      (''resume_version_unsupported'', policy ''unsupported_resume_version'' ''validate''
        ''use --resume=v1'' 1),
      (''resume_regular_file_required'', policy ''local_read_failed'' ''local_read''
        ''resume v1 supports regular files only'' 1),
      (''resume_source_read_failed'', policy ''local_read_failed'' ''local_read''
        ''read the complete source before retrying'' 1),
      (''resume_source_changed'', policy ''local_read_failed'' ''local_read''
        ''source changed or could not be re-read'' 1),
      (''resume_partial_mismatch'', policy ''partial_state_mismatch'' ''resume_validate''
        ''remote partial prefix does not match the local source; remove stale state only after review or retry with non-resume put'' 1),
      (''resume_source_seek_failed'', policy ''local_read_failed'' ''local_read''
        ''source must remain seekable and unchanged'' 1),
      (''resume_stdin_open_failed'', policy ''remote_write_failed'' ''remote_write''
        ''retry resume; existing verified prefix remains available'' 1
        \<lparr>fp_TransportWrapper := True\<rparr>)]"

definition policies_6 :: "(kind \<times> failure_policy) list" where
  "policies_6 =
     [(''resume_start_failed'', policy ''remote_write_failed'' ''remote_write''
        ''retry resume; final destination was not replaced'' 1
        \<lparr>fp_TransportWrapper := True\<rparr>),
      (''resume_timed_out'', policy ''transfer_timeout'' ''timeout''
        ''retry with --resume=v1 to validate and reuse the remote prefix'' 1),
      (''resume_remote_write_failed'', policy ''remote_write_failed'' ''remote_write''
        ''retry with --resume=v1; the destination was not replaced'' 1
        \<lparr>fp_TransportWrapper := True\<rparr>),
      (''resume_retry_failed'', policy ''remote_write_failed'' ''remote_write''
        ''retry with --resume=v1'' 1
        \<lparr>fp_TransportWrapper := True\<rparr>),
      (''resume_verification_tool_missing'', policy ''verification_tool_missing'' ''capability''
        ''install sha256sum on the remote host or use non-resume put'' 1),
      (''resume_state_changed'', policy ''partial_state_changed'' ''resume_validate''
        ''remote partial changed during retry; do not append until investigated'' 1),
      (''resume_integrity_mismatch'', policy ''integrity_failed'' ''integrity''
        ''completed partial failed SHA-256 verification and was not published'' 1),
      (''resume_publish_failed'', policy ''publish_failed'' ''publish''
        ''verified partial remains; fix destination permissions and retry resume'' 1),
      (''resume_receipt_invalid'', policy ''integrity_failed'' ''integrity''
        ''remote completion receipt is invalid'' 1),
      (''resume_probe_session_failed'', policy ''session_failed'' ''resume_probe''
        ''retry after checking SSH session limits'' 1
        \<lparr>fp_TransportWrapper := True\<rparr>),
      (''resume_state_incompatible'', policy ''partial_state_incompatible'' ''resume_validate''
        ''remote partial metadata is missing or incompatible; review and remove only the deterministic v1 partial state'' 1),
      (''resume_probe_failed'', policy ''resume_probe_failed'' ''resume_probe''
        ''check remote path permissions and resume capability'' 1),
      (''resume_probe_response_invalid'', policy ''resume_probe_failed'' ''resume_probe''
        ''remote resume response was invalid'' 1),
      (''transfer_directory_source_unsupported'', policy ''local_read_failed'' ''local_read''
        ''use a regular file or directory'' 1),
      (''transfer_directory_options_unsupported'', policy ''unsupported_transfer_option'' ''validate''
        ''SHA-256 and resume v1 options support regular files only; directory put also does not support timeout'' 1),
      (''transfer_download_remote_read'', policy ''remote_read_failed'' ''remote_read''
        ''check the remote path and read permissions; the final local path was not replaced'' 1
        \<lparr>fp_TransportWrapper := True\<rparr>),
      (''transfer_download_local_write'', policy ''local_write_failed'' ''local_write''
        ''check local path permissions and available space; the final local path was not replaced'' 1),
      (''transfer_download_publish'', policy ''publish_failed'' ''publish''
        ''check local destination permissions; the previous final path was preserved'' 1),
      (''transfer_download_integrity_mismatch'', policy ''integrity_failed'' ''integrity''
        ''downloaded bytes differ from the remote SHA-256; the final local path was not replaced'' 1),
      (''transfer_remote_extract_failed'', policy ''remote_write_failed'' ''remote_extract''
        ''remote tar extraction failed and the destination may contain partially extracted files; fix the remote error (permissions, space, target type) and retry'' 1),
      (''transfer_dir_mode_invalid'', policy ''invalid_arguments'' ''validate''
        ''--dir-mode must be an octal permission such as 0755 (at most 0777) that includes owner write and execute (0300)'' 2),
      (''invalid_proxy_jump'', policy ''proxy_jump_invalid'' ''validate''
        ''fix the proxy_jump chain: every jump alias must exist, chains must not loop, and at most 5 jump hosts are allowed; inspect with sshctl host show <alias> and change it with sshctl host update <alias> --proxy-jump <alias> (an empty value clears it)'' 2),
      (''copy_arguments_invalid'', policy ''invalid_arguments'' ''validate''
        ''use sshctl cp <alias-a>:<path> <alias-b>:<path> [--timeout <duration>] [--json]'' 2),
      (''copy_directory_unsupported'', policy ''unsupported_transfer_option'' ''validate''
        ''cp copies single regular files only; copy a directory with sshctl get and sshctl put, or archive it on the source host first'' 1),
      (''copy_direct_confirmation_required'', policy ''confirmation_required'' ''validate''
        ''cp --direct lets host A use B's key through a forwarded agent while the copy runs; review the exposure in sshctl cp --help and pass --yes explicitly, or drop --direct to relay through this machine'' 2)]"

definition policies_7 :: "(kind \<times> failure_policy) list" where
  "policies_7 =
     [(''copy_direct_unsupported'', policy ''unsupported_transfer_option'' ''validate''
        ''cp --direct needs a key-authenticated destination B that is reachable from A without proxy_jump, trusted host key for B, shell transfer on both hosts and a single regular file; B's password is never sent to A; use cp without --direct to relay through this machine'' 1),
      (''copy_direct_ssh_unavailable'', policy ''remote_tool_unavailable'' ''capability''
        ''cp --direct runs the ssh client on host A and A has none; install OpenSSH's ssh on A or use cp without --direct to relay through this machine'' 1),
      (''copy_direct_agent_unavailable'', policy ''unsupported_transfer_option'' ''capability''
        ''the source host's sshd did not provide the forwarded agent that cp --direct needs; allow agent forwarding (AllowAgentForwarding) for this account on host A or use cp without --direct to relay through this machine'' 1),
      (''integrity_tool_unavailable'', policy ''integrity_tool_unavailable'' ''capability''
        ''the remote host has none of sha256sum, shasum, or openssl; retry without --sha256 or install one of them'' 1),
      (''get_arguments_invalid'', policy ''invalid_arguments'' ''validate''
        ''use sshctl get <alias> <remote> <local> [--sha256] [--timeout <duration>] [--json]'' 2),
      (''transfer_download_restore_failed'', policy ''publish_failed'' ''publish''
        ''automatic restore failed; recover the prior directory from the retained backup path reported in the error'' 1),
      (''remote_shell_unsupported'', policy ''remote_shell_unsupported'' ''discovery''
        ''the remote login shell did not answer the POSIX path probe; retry with --sftp or set the host to transfer: sftp (sshctl host update <alias> --transfer sftp)'' 1),
      (''transfer_sftp_unavailable'', policy ''sftp_unavailable'' ''capability''
        ''the server did not start the sftp subsystem; enable SFTP on the server or use the shell transfer (transfer: auto or shell)'' 1),
      (''transfer_sftp_unsupported'', policy ''unsupported_transfer_option'' ''validate''
        ''SFTP transfer supports single regular files only (no directories or --resume); use the shell transfer for those'' 1),
      (''transfer_sftp_readback_unavailable'', policy ''integrity_tool_unavailable'' ''capability''
        ''the SFTP server did not allow reading the uploaded file back for verification, so nothing was published; retry without --sha256 (size is still verified)'' 1)]"

definition policy_tables :: "(kind \<times> failure_policy) list list" where
  "policy_tables = [policies_1, policies_2, policies_3, policies_4, policies_5, policies_6, policies_7]"

text \<open>The lookup; every key occurs once, so the order does not matter.\<close>

fun find_policy :: "(kind \<times> failure_policy) list list \<Rightarrow> kind \<Rightarrow> failure_policy option" where
  "find_policy [] k = None"
| "find_policy (t # ts) k = (case map_of t k of Some p \<Rightarrow> Some p | None \<Rightarrow> find_policy ts k)"

definition failurePolicies :: "kind \<Rightarrow> failure_policy option" where
  "failurePolicies = find_policy policy_tables"

end
