(* ===== verification/Failure_Contract.thy ===== *)
theory Failure_Contract
  imports Failure_Policies
begin

text \<open>
  How errors become public failures (\<^verbatim>\<open>internal/machinecontract/contract.go\<close>): the classification of SSH and transfer
  errors and the exit status of the process. An error is its text with the chain of what it wraps, in the order in which
  \<^verbatim>\<open>errors.As\<close> and \<^verbatim>\<open>errors.Is\<close> walk it.
\<close>

section \<open>Failures and errors\<close>

text \<open>
  The document of a failure. \<open>fl_cause\<close> is the text of the cause; \<open>fl_processExit\<close>, \<open>fl_style\<close>, \<open>fl_renderer\<close> and
  \<open>fl_transportWrapper\<close> are its unexported fields.
\<close>

record failure_view =
  fl_OK :: bool
  fl_Error :: string
  fl_Message :: string
  fl_Hint :: string
  fl_Stage :: string
  fl_SyncCause :: string
  fl_Outcome :: string
  fl_Alias :: string
  fl_Exit :: int
  fl_Candidates :: "string list"
  fl_Via :: string
  fl_Address :: string
  fl_PastKeyExchange :: bool
  fl_Script :: string
  fl_VerificationError :: string
  fl_HumanHint :: string
  fl_Tool :: string
  fl_Version :: string
  fl_Platform :: string
  fl_Stack :: string
  fl_style :: human_style
  fl_cause :: "string option"
  fl_processExit :: int
  fl_humanAlias :: string
  fl_renderer :: renderer_policy
  fl_transportWrapper :: bool

text \<open>The renderer follows \<^verbatim>\<open>humanProjection\<close> once, so the projection is a failure without one of its own.\<close>

record failure = failure_view +
  fl_humanProjection :: "failure_view option"

definition zero_failure :: failure where
  "zero_failure =
     \<lparr>fl_OK = False, fl_Error = [], fl_Message = [], fl_Hint = [], fl_Stage = [], fl_SyncCause = [], fl_Outcome = [],
      fl_Alias = [], fl_Exit = 0, fl_Candidates = [], fl_Via = [], fl_Address = [], fl_PastKeyExchange = False,
      fl_Script = [], fl_VerificationError = [], fl_HumanHint = [], fl_Tool = [], fl_Version = [], fl_Platform = [],
      fl_Stack = [], fl_style = HumanStandard, fl_cause = None, fl_processExit = 0, fl_humanAlias = [],
      fl_renderer = RendererRequested, fl_transportWrapper = False, fl_humanProjection = None\<rparr>"

text \<open>The error numbers the classification names; Winsock numbers are only met on Windows.\<close>

datatype errno =
    ECONNREFUSED
  | ETIMEDOUT
  | EHOSTUNREACH
  | ENETUNREACH
  | ECONNRESET
  | ECONNABORTED
  | EPIPE
  | EAGAIN
  | OtherErrno int

text \<open>
  A link of an error chain. \<open>CarrierLink\<close> is any error with a method \<^verbatim>\<open>ContractFailure\<close>; \<open>NetErrorLink\<close> any other
  \<^verbatim>\<open>net.Error\<close>; \<open>KeyErrorLink\<close> has the number of keys that \<^verbatim>\<open>known_hosts\<close> wants, \<open>OpenChannelLink\<close> the reason of the peer.
\<close>

datatype error_link =
    ClassifiedLink failure
  | CarrierLink failure
  | KeyTypeChangedLink string
  | KeyErrorLink nat
  | OpErrorLink string bool
  | ErrnoLink errno
  | NetErrorLink bool
  | NetClosedLink
  | DeadlineLink
  | DNSErrorLink bool
  | URLErrorLink bool
  | ExitErrorLink int
  | ExitMissingLink
  | OpenChannelLink nat
  | EOFLink
  | UnexpectedEOFLink
  | TLSLink
  | MissingTokenLink
  | HTTPStatusLink int
  | TransportLink
  | ErrConfigurationLink
  | ErrEmptyLedgerDivergenceLink
  | ErrConflictLink
  | ErrRefreshLink
  | ErrPushNotSentLink
  | ErrPushRejectedLink
  | ErrPushAmbiguousLink
  | OtherLink

record go_error =
  er_Message :: string
  er_Chain :: "error_link list"

text \<open>\<^verbatim>\<open>errors.As\<close>: the first link that \<open>f\<close> recognizes.\<close>

fun as_link :: "(error_link \<Rightarrow> 'a option) \<Rightarrow> error_link list \<Rightarrow> 'a option" where
  "as_link f [] = None"
| "as_link f (x # xs) = (case f x of Some y \<Rightarrow> Some y | None \<Rightarrow> as_link f xs)"

definition error_is :: "go_error \<Rightarrow> error_link \<Rightarrow> bool" where
  "error_is err x = list_ex (\<lambda>y. y = x) (er_Chain err)"

fun link_classified :: "error_link \<Rightarrow> failure option" where
  "link_classified (ClassifiedLink f) = Some f"
| "link_classified _ = None"

fun link_carrier :: "error_link \<Rightarrow> failure option" where
  "link_carrier (CarrierLink f) = Some f"
| "link_carrier _ = None"

fun link_type_changed :: "error_link \<Rightarrow> string option" where
  "link_type_changed (KeyTypeChangedLink t) = Some t"
| "link_type_changed _ = None"

fun link_key_error :: "error_link \<Rightarrow> nat option" where
  "link_key_error (KeyErrorLink want) = Some want"
| "link_key_error _ = None"

fun link_op :: "error_link \<Rightarrow> string option" where
  "link_op (OpErrorLink opn _) = Some opn"
| "link_op _ = None"

fun link_errno :: "error_link \<Rightarrow> errno option" where
  "link_errno (ErrnoLink e) = Some e"
| "link_errno _ = None"

fun link_exit :: "error_link \<Rightarrow> int option" where
  "link_exit (ExitErrorLink n) = Some n"
| "link_exit _ = None"

fun link_open_channel :: "error_link \<Rightarrow> nat option" where
  "link_open_channel (OpenChannelLink r) = Some r"
| "link_open_channel _ = None"

text \<open>The links that are a \<^verbatim>\<open>net.Error\<close>, with the answer of \<^verbatim>\<open>Timeout()\<close>.\<close>

fun link_net_error :: "error_link \<Rightarrow> bool option" where
  "link_net_error (OpErrorLink _ t) = Some t"
| "link_net_error (ErrnoLink e) = Some (e = ETIMEDOUT \<or> e = EAGAIN)"
| "link_net_error (NetErrorLink t) = Some t"
| "link_net_error NetClosedLink = Some False"
| "link_net_error DeadlineLink = Some True"
| "link_net_error (DNSErrorLink t) = Some t"
| "link_net_error (URLErrorLink t) = Some t"
| "link_net_error _ = None"

definition as_classified :: "go_error \<Rightarrow> failure option" where
  "as_classified err = as_link link_classified (er_Chain err)"

definition net_timeout :: "go_error \<Rightarrow> bool" where
  "net_timeout err = (as_link link_net_error (er_Chain err) = Some True)"

section \<open>Constructing a failure\<close>

record failure_details =
  dt_Message :: string
  dt_Cause :: "string option"
  dt_Alias :: string
  dt_Address :: string
  dt_Candidates :: "string list"
  dt_Hint :: string
  dt_Exit :: int
  dt_Script :: string
  dt_Interpreter :: string
  dt_Line :: string
  dt_VerificationError :: string
  dt_Tool :: string
  dt_Version :: string
  dt_Platform :: string
  dt_Stack :: string

definition no_details :: failure_details where
  "no_details =
     \<lparr>dt_Message = [], dt_Cause = None, dt_Alias = [], dt_Address = [], dt_Candidates = [], dt_Hint = [], dt_Exit = 0,
      dt_Script = [], dt_Interpreter = [], dt_Line = [], dt_VerificationError = [], dt_Tool = [], dt_Version = [],
      dt_Platform = [], dt_Stack = []\<rparr>"

text \<open>\<^verbatim>\<open>strconv.Quote\<close> of ASCII text; other bytes are taken to be printable.\<close>

definition quote_char :: "char \<Rightarrow> string" where
  "quote_char c =
     (if c = CHR 0x22 \<or> c = CHR 0x5C then [CHR 0x5C, c]
      else if c = CHR 0x07 then [CHR 0x5C, CHR ''a'']
      else if c = CHR 0x08 then [CHR 0x5C, CHR ''b'']
      else if c = CHR 0x0C then [CHR 0x5C, CHR ''f'']
      else if c = CHR 0x0A then [CHR 0x5C, CHR ''n'']
      else if c = CHR 0x0D then [CHR 0x5C, CHR ''r'']
      else if c = CHR 0x09 then [CHR 0x5C, CHR ''t'']
      else if c = CHR 0x0B then [CHR 0x5C, CHR ''v'']
      else if c < CHR 0x20 \<or> c = CHR 0x7F then [CHR 0x5C, CHR ''x''] @ hex_byte (of_char c)
      else [c])"

definition go_quote :: "string \<Rightarrow> string" where
  "go_quote s = [CHR 0x22] @ concat (map quote_char s) @ [CHR 0x22]"

definition last_path_part :: "string \<Rightarrow> string" where
  "last_path_part s = rev (takeWhile (\<lambda>c. c \<noteq> CHR ''/'') (rev s))"

definition isShellInterpreterName :: "string \<Rightarrow> bool" where
  "isShellInterpreterName interpreter =
     (last_path_part interpreter \<in> set [[], ''sh'', ''bash'', ''dash'', ''ash'', ''ksh'', ''zsh''])"

fun tool_style :: "string \<Rightarrow> failure_policy \<Rightarrow> failure_policy" where
  "tool_style tool p =
     (if tool = ''legacy_usage'' then p\<lparr>fp_Human := HumanLegacyUsage, fp_Renderer := RendererHumanOnly\<rparr>
      else if tool = ''legacy_not_found'' then p\<lparr>fp_Human := HumanLegacyNotFound, fp_Renderer := RendererHumanOnly\<rparr>
      else if tool = ''legacy_unknown_command''
      then p\<lparr>fp_Human := HumanLegacyUnknownCommand, fp_Renderer := RendererHumanOnly\<rparr>
      else if tool = ''legacy_message'' then p\<lparr>fp_Human := HumanLegacyMessage, fp_Renderer := RendererHumanOnly\<rparr>
      else if tool = ''raw_flag_error'' then p\<lparr>fp_Human := HumanRaw, fp_Renderer := RendererHumanOnly\<rparr>
      else if tool = ''legacy_plain'' then p\<lparr>fp_Human := HumanPlain, fp_Renderer := RendererHumanOnly\<rparr>
      else if tool = ''doctor_unknown_option''
      then p\<lparr>fp_Human := HumanDoctorOption, fp_Renderer := RendererHumanOnly\<rparr>
      else p)"

text \<open>The hint, through the four statements that may replace it. \<open>redact\<close> is \<^verbatim>\<open>RedactString\<close>.\<close>

definition policy_hint :: "(string \<Rightarrow> string) \<Rightarrow> kind \<Rightarrow> failure_policy \<Rightarrow> failure_details \<Rightarrow> string" where
  "policy_hint redact kind p d =
     (let h1 =
        (if kind = ''interpreter_not_found''
         then if isShellInterpreterName (dt_Interpreter d)
              then ''remote shell '' @ go_quote (dt_Interpreter d) @ '' is unavailable; retry with --shell sh or install it''
              else ''remote interpreter '' @ go_quote (dt_Interpreter d)
                   @ '' is unavailable; install it or pass another --interpreter''
         else fp_Hint p);
          h2 = (if kind = ''script_syntax_failed'' \<and> dt_Line d \<noteq> [] then h1 @ ''; line='' @ redact (dt_Line d) else h1);
          h3 = (if fp_HintFromCause p then (case dt_Cause d of Some c \<Rightarrow> c | None \<Rightarrow> dt_Message d) else h2)
      in if fp_HintFromDetails p \<and> dt_Hint d \<noteq> [] then dt_Hint d else h3)"

definition kind_policy :: "kind \<Rightarrow> failure_policy" where
  "kind_policy kind =
     (case failurePolicies kind of
        Some p \<Rightarrow> p
      | None \<Rightarrow> (case failurePolicies ''internal_failure'' of Some p \<Rightarrow> p | None \<Rightarrow> policy [] [] [] 0))"

definition Classify :: "(string \<Rightarrow> string) \<Rightarrow> kind \<Rightarrow> failure_details \<Rightarrow> failure" where
  "Classify redact kind d =
     (let p = kind_policy kind;
          message0 = (if dt_Message d = [] then (case dt_Cause d of Some c \<Rightarrow> c | None \<Rightarrow> []) else dt_Message d);
          message = (if fp_SuppressMessage p then [] else message0);
          exit = (if dt_Exit d \<noteq> 0 then dt_Exit d else fp_Exit p);
          processExit = (if fp_Process p = 0 then exit else fp_Process p);
          q = tool_style (dt_Tool d) p
      in zero_failure
         \<lparr>fl_OK := False,
          fl_Error := fp_Code p,
          fl_Message := redact message,
          fl_Hint := redact (policy_hint redact kind p d),
          fl_Stage := fp_Stage p,
          fl_Outcome := fp_Outcome p,
          fl_Alias := redact (dt_Alias d),
          fl_Exit := exit,
          fl_Candidates := map redact (dt_Candidates d),
          fl_Address := redact (dt_Address d),
          fl_Script := redact (dt_Script d),
          fl_VerificationError := redact (dt_VerificationError d),
          fl_HumanHint := redact (fp_HumanHint p),
          fl_Tool := redact (dt_Tool d),
          fl_Version := redact (dt_Version d),
          fl_Platform := redact (dt_Platform d),
          fl_Stack := redact (dt_Stack d),
          fl_style := fp_Human q,
          fl_cause := dt_Cause d,
          fl_processExit := processExit,
          fl_renderer := fp_Renderer q,
          fl_transportWrapper := fp_TransportWrapper p\<rparr>)"

definition ErrorMessage :: "failure \<Rightarrow> string" where
  "ErrorMessage f =
     (if fl_Message f \<noteq> [] then fl_Message f
      else (case fl_cause f of Some c \<Rightarrow> c | None \<Rightarrow> fl_Error f))"

section \<open>SSH errors\<close>

datatype platform = Posix | Windows

record ssh_context =
  sx_Alias :: string
  sx_ResolvedAlias :: string
  sx_Host :: string
  sx_Port :: int
  sx_Stage :: string
  sx_SessionAcquisition :: bool
  sx_Tunneled :: bool
  sx_ExecPhase :: bool

definition no_context :: ssh_context where
  "no_context =
     \<lparr>sx_Alias = [], sx_ResolvedAlias = [], sx_Host = [], sx_Port = 0, sx_Stage = [], sx_SessionAcquisition = False,
      sx_Tunneled = False, sx_ExecPhase = False\<rparr>"

fun platformDialErrnoKind :: "platform \<Rightarrow> go_error \<Rightarrow> kind" where
  "platformDialErrnoKind Posix err = []"
| "platformDialErrnoKind Windows err =
     (case as_link link_errno (er_Chain err) of
        Some (OtherErrno n) \<Rightarrow>
          if n = 10061 then ''dial_refused''
          else if n = 10060 then ''dial_timeout''
          else if n = 10050 \<or> n = 10051 \<or> n = 10064 \<or> n = 10065 then ''dial_network''
          else []
      | _ \<Rightarrow> [])"

fun isPlatformConnectionBreak :: "platform \<Rightarrow> go_error \<Rightarrow> bool" where
  "isPlatformConnectionBreak Posix err = False"
| "isPlatformConnectionBreak Windows err =
     (case as_link link_errno (er_Chain err) of
        Some e \<Rightarrow> e = OtherErrno 10053 \<or> e = OtherErrno 10054
      | None \<Rightarrow> False)"

definition dialErrnoKind :: "platform \<Rightarrow> go_error \<Rightarrow> kind" where
  "dialErrnoKind pf err =
     (if error_is err (ErrnoLink ECONNREFUSED) then ''dial_refused''
      else if error_is err (ErrnoLink ETIMEDOUT) then ''dial_timeout''
      else if error_is err (ErrnoLink EHOSTUNREACH) \<or> error_is err (ErrnoLink ENETUNREACH) then ''dial_network''
      else platformDialErrnoKind pf err)"

definition policyOwnsStage :: "string \<Rightarrow> bool" where
  "policyOwnsStage code =
     (code \<in> set [''handshake_failed'', ''connection_lost'', ''exec_timeout'', ''proxy_jump_invalid''])"

definition isHandshakeError :: "string \<Rightarrow> bool" where
  "isHandshakeError lower =
     (contains_sub lower ''handshake failed'' \<or> contains_sub lower ''reading version string''
      \<or> contains_sub lower ''no common algorithm'')"

definition break_markers :: "string list" where
  "break_markers =
     [''remote command exited without exit status'',
      ''connection reset'', ''connection was forcibly closed'', ''connection was aborted'', ''connection abort'',
      ''broken pipe'', ''use of closed network connection'', ''connection closed'',
      ''ssh: disconnect'']"

definition isConnectionBreak :: "platform \<Rightarrow> go_error \<Rightarrow> string \<Rightarrow> bool \<Rightarrow> bool" where
  "isConnectionBreak pf err lower execPhase =
     (if error_is err ExitMissingLink \<or> error_is err NetClosedLink
         \<or> error_is err (ErrnoLink ECONNRESET) \<or> error_is err (ErrnoLink ECONNABORTED) \<or> error_is err (ErrnoLink EPIPE)
         \<or> isPlatformConnectionBreak pf err
      then True
      else if list_ex (contains_sub lower) break_markers then True
      else if \<not> execPhase then False
      else error_is err EOFLink \<or> error_is err UnexpectedEOFLink
        \<or> contains_sub lower ''unexpected eof'' \<or> lower = ''eof'' \<or> has_suffix lower '': eof'')"

text \<open>\<^verbatim>\<open>gossh.Prohibited\<close>, the reason of the server that refuses a session, is 1.\<close>

definition Prohibited :: nat where "Prohibited = 1"

definition IsSessionLimit :: "go_error \<Rightarrow> bool" where
  "IsSessionLimit err = (as_link link_open_channel (er_Chain err) = Some Prohibited)"

definition isSessionRejection :: "go_error \<Rightarrow> string \<Rightarrow> bool" where
  "isSessionRejection err lower =
     (as_link link_open_channel (er_Chain err) \<noteq> None \<or> contains_sub lower ''session'')"

definition isTimeoutErrorMessage :: "string \<Rightarrow> bool" where
  "isTimeoutErrorMessage message = contains_sub (to_lower message) ''timeout''"

definition isDialFailure :: "go_error \<Rightarrow> ssh_context \<Rightarrow> bool" where
  "isDialFailure err cx =
     (sx_Stage cx = ''dial''
      \<or> (case as_link link_op (er_Chain err) of Some opn \<Rightarrow> to_lower opn = ''dial'' | None \<Rightarrow> False)
      \<or> contains_sub (to_lower (er_Message err)) ''dial'' \<or> contains_sub (to_lower (er_Message err)) ''connect'')"

text \<open>\<^verbatim>\<open>net.JoinHostPort\<close>.\<close>

definition join_host_port :: "string \<Rightarrow> int \<Rightarrow> string" where
  "join_host_port host port =
     (if CHR '':'' \<in> set host then ''['' @ host @ '']:'' @ itoa port else host @ '':'' @ itoa port)"

definition context_address :: "ssh_context \<Rightarrow> string" where
  "context_address cx = join_host_port (sx_Host cx) (if sx_Port cx = 0 then 22 else sx_Port cx)"

text \<open>The typed connect error, which is looked for only while dialing.\<close>

definition typed_dial_kind :: "platform \<Rightarrow> go_error \<Rightarrow> ssh_context \<Rightarrow> kind" where
  "typed_dial_kind pf err cx =
     (if \<not> sx_SessionAcquisition cx \<and> \<not> sx_ExecPhase cx \<and> \<not> sx_Tunneled cx \<and> sx_Stage cx \<noteq> ''session''
      then dialErrnoKind pf err else [])"

text \<open>
  The switch of \<^verbatim>\<open>ClassifySSH\<close>: the kind and, where a case sets one, the message. The case of a failure past the named
  security errors is \<open>transport_kind\<close>.
\<close>

definition transport_kind :: "platform \<Rightarrow> go_error \<Rightarrow> ssh_context \<Rightarrow> kind \<times> string option" where
  "transport_kind pf err cx =
     (let message = er_Message err;
          lower = to_lower message;
          address = context_address cx;
          typed = typed_dial_kind pf err cx
      in if net_timeout err \<and> isHandshakeError lower then (''handshake_failed'', None)
         else if typed = ''dial_refused'' \<and> \<not> isHandshakeError lower
         then (''dial_refused'', Some (''connection refused by '' @ address))
         else if typed = ''dial_timeout'' \<and> \<not> isHandshakeError lower
         then (''dial_timeout'', Some (''dial tcp '' @ address @ '': i/o timeout''))
         else if typed = ''dial_network'' \<and> \<not> isHandshakeError lower
         then (''dial_network'', Some (''network error dialing '' @ address @ '': '' @ message))
         else if net_timeout err then (''dial_timeout'', Some (''dial tcp '' @ address @ '': i/o timeout''))
         else if isTimeoutErrorMessage lower then (''dial_timeout'', Some (''connection timed out to '' @ address))
         else if contains_sub lower ''connection refused'' then (''dial_refused'', Some (''connection refused by '' @ address))
         else if contains_sub lower ''no route to host'' \<or> contains_sub lower ''network is unreachable''
           \<or> contains_sub lower ''connect: ''
         then (''dial_network'', Some (''network error dialing '' @ address @ '': '' @ message))
         else if isHandshakeError lower then (''handshake_failed'', None)
         else if \<not> sx_SessionAcquisition cx
           \<and> isConnectionBreak pf err lower (sx_ExecPhase cx \<or> sx_Stage cx = ''session'')
         then (''connection_lost'', None)
         else if IsSessionLimit err then (''session_limit'', None)
         else if isSessionRejection err lower then (''session_failed'', None)
         else (''internal_failure'', None))"

definition ssh_kind :: "platform \<Rightarrow> go_error \<Rightarrow> ssh_context \<Rightarrow> kind \<times> string option" where
  "ssh_kind pf err cx =
     (let lower = to_lower (er_Message err);
          keyErr = as_link link_key_error (er_Chain err)
      in if as_link link_type_changed (er_Chain err) \<noteq> None
         then (''host_key_type_changed'',
           Some ''remote host key type is not recorded in known_hosts (server key type changed, reinstalled, or MITM)'')
         else if keyErr = Some 0 then (''host_key_unknown'', Some ''remote host key is not trusted yet'')
         else if keyErr \<noteq> None \<or> contains_sub lower ''host key'' \<or> contains_sub lower ''knownhosts''
         then (''host_key_mismatch'', Some ''remote host key does not match known_hosts (host reinstalled or MITM)'')
         else if contains_sub lower ''no authentication configured''
         then (''no_authentication_configured'', Some ''connection has no password or private key configured'')
         else if contains_sub lower ''unable to authenticate'' \<or> contains_sub lower ''no supported methods remain''
           \<or> contains_sub lower ''permission denied'' \<or> contains_sub lower ''authentication failed''
         then (''authentication_failed'', Some ''SSH authentication failed'')
         else transport_kind pf err cx)"

text \<open>The two corrections at the end, shared by a failure that was classified before.\<close>

definition apply_context :: "go_error \<Rightarrow> ssh_context \<Rightarrow> failure \<Rightarrow> failure" where
  "apply_context err cx f =
     (let f1 = (if sx_Stage cx \<noteq> [] \<and> \<not> policyOwnsStage (fl_Error f) then f\<lparr>fl_Stage := sx_Stage cx\<rparr> else f)
      in if fl_Error f1 = ''internal'' \<and> isDialFailure err cx
         then f1\<lparr>fl_Exit := 255, fl_processExit := 255\<rparr> else f1)"

definition ClassifySSH :: "platform \<Rightarrow> (string \<Rightarrow> string) \<Rightarrow> go_error option \<Rightarrow> ssh_context \<Rightarrow> failure" where
  "ClassifySSH pf redact error cx =
     (case error of
        None \<Rightarrow> zero_failure
      | Some err \<Rightarrow>
          (case as_classified err of
             Some f \<Rightarrow> apply_context err cx f
           | None \<Rightarrow>
               (let (kind0, m) = ssh_kind pf err cx;
                    message = (case m of Some t \<Rightarrow> t | None \<Rightarrow> er_Message err);
                    kind = (if kind0 = ''internal_failure'' \<and> sx_SessionAcquisition cx
                            then ''session_acquisition_failed'' else kind0)
                in apply_context err cx
                     (Classify redact kind
                        (no_details\<lparr>dt_Cause := Some (er_Message err), dt_Message := message, dt_Alias := sx_Alias cx,
                           dt_Address := context_address cx\<rparr>)))))"

section \<open>Exit statuses\<close>

definition ProcessExit :: "failure \<Rightarrow> int" where
  "ProcessExit f = (if fl_processExit f \<noteq> 0 then fl_processExit f else fl_Exit f)"

record result_state =
  rs_OK :: bool
  rs_Exit :: int

definition ResultExit :: "result_state \<Rightarrow> int" where
  "ResultExit r = (if rs_OK r then 0 else if rs_Exit r \<noteq> 0 then rs_Exit r else 1)"

fun AggregateResultExit :: "result_state list \<Rightarrow> int" where
  "AggregateResultExit [] = 0"
| "AggregateResultExit (r # rs) = (if \<not> rs_OK r then ResultExit r else AggregateResultExit rs)"

definition ConnectionResultExit :: "bool \<Rightarrow> int" where
  "ConnectionResultExit ok = (if ok then 0 else 255)"

definition ExitForError :: "platform \<Rightarrow> (string \<Rightarrow> string) \<Rightarrow> go_error option \<Rightarrow> int" where
  "ExitForError pf redact error =
     (case error of
        None \<Rightarrow> 0
      | Some err \<Rightarrow>
          (case as_link link_exit (er_Chain err) of
             Some status \<Rightarrow> status
           | None \<Rightarrow>
               (case as_classified err of
                  Some f \<Rightarrow> ProcessExit f
                | None \<Rightarrow>
                    (let f = ClassifySSH pf redact error no_context
                     in if fl_Error f \<noteq> ''internal'' then ProcessExit f
                        else if ProcessExit f \<noteq> 1 then ProcessExit f else 1))))"

text \<open>What the parent process sees of \<^verbatim>\<open>os.Exit\<close>: the low byte on POSIX systems, 32 bits on Windows.\<close>

fun observed_status :: "platform \<Rightarrow> int \<Rightarrow> int" where
  "observed_status Posix n = n mod 256"
| "observed_status Windows n = n mod 4294967296"

section \<open>Carried failures\<close>

definition FailureFromError :: "go_error option \<Rightarrow> failure option" where
  "FailureFromError error =
     (case error of
        None \<Rightarrow> None
      | Some err \<Rightarrow>
          (case as_classified err of
             Some f \<Rightarrow> Some f
           | None \<Rightarrow> as_link link_carrier (er_Chain err)))"

definition ClassifyTransferOperation ::
    "platform \<Rightarrow> (string \<Rightarrow> string) \<Rightarrow> go_error option \<Rightarrow> ssh_context \<Rightarrow> failure \<Rightarrow> failure" where
  "ClassifyTransferOperation pf redact error cx carried =
     (if error = None then zero_failure
      else if fl_Error carried = ''transfer_timeout'' then carried
      else
        (let human = ClassifySSH pf redact error (cx\<lparr>sx_ExecPhase := True\<rparr>);
             exit = ExitForError pf redact error
         in if policyOwnsStage (fl_Error human)
            then if fl_Error carried \<noteq> [] \<and> \<not> fl_transportWrapper carried then carried else human
            else
              (let human1 = human\<lparr>fl_Stage := []\<rparr>
               in if fl_Error carried \<noteq> []
                  then
                    (let human2 =
                       (if fl_Error carried = ''remote_write_failed'' \<and> fl_Error human1 = ''auth_failed''
                        then human1\<lparr>fl_Hint :=
                          ''verify user and credential file; password/private-key contents are never shown''\<rparr>
                        else human1)
                     in carried
                        \<lparr>fl_Exit := exit, fl_processExit := exit,
                         fl_humanProjection := Some (failure_view.truncate human2),
                         fl_Via := (if fl_Via carried = [] then fl_Via human2 else fl_Via carried)\<rparr>)
                  else human1\<lparr>fl_Stage := ''remote_write'', fl_Exit := exit, fl_processExit := exit,
                         fl_humanProjection := Some (failure_view.truncate human1)\<rparr>)))"

definition isDownloadOutcomeFailure :: "failure \<Rightarrow> bool" where
  "isDownloadOutcomeFailure f =
     (fl_Error f \<in> set [''remote_read_failed'', ''local_write_failed'', ''publish_failed'', ''integrity_failed'',
        ''integrity_tool_unavailable'', ''transfer_timeout'', ''unsupported_transfer_option'',
        ''remote_shell_unsupported'', ''sftp_unavailable''])"

definition named :: "(string \<Rightarrow> string) \<Rightarrow> ssh_context \<Rightarrow> failure \<Rightarrow> failure" where
  "named redact cx f = f\<lparr>fl_Alias := redact (sx_Alias cx), fl_humanAlias := redact (sx_ResolvedAlias cx)\<rparr>"

definition ClassifyDownload :: "platform \<Rightarrow> (string \<Rightarrow> string) \<Rightarrow> go_error option \<Rightarrow> ssh_context \<Rightarrow> failure" where
  "ClassifyDownload pf redact error cx =
     (let f = ClassifySSH pf redact error (cx\<lparr>sx_Stage := [], sx_ExecPhase := True\<rparr>);
          exit = ExitForError pf redact error;
          human = f\<lparr>fl_Stage := []\<rparr>;
          plain =
            (let g = named redact cx
               (f\<lparr>fl_Stage := (if fl_Stage f = [] then sx_Stage cx else fl_Stage f), fl_Exit := exit,
                  fl_processExit := exit\<rparr>)
             in g\<lparr>fl_humanProjection := Some (failure_view.truncate (g\<lparr>fl_Stage := []\<rparr>))\<rparr>)
      in case FailureFromError error of
           Some carried \<Rightarrow>
             if fl_Error carried = ''transfer_timeout'' then named redact cx carried
             else if policyOwnsStage (fl_Error f)
             then if \<not> fl_transportWrapper carried then named redact cx carried else named redact cx f
             else if isDownloadOutcomeFailure carried
             then (named redact cx (carried\<lparr>fl_Exit := exit, fl_processExit := exit\<rparr>))
               \<lparr>fl_humanProjection := Some (failure_view.truncate human),
                fl_Via := (if fl_Via carried = [] then fl_Via human else fl_Via carried)\<rparr>
             else plain
         | None \<Rightarrow> if policyOwnsStage (fl_Error f) then named redact cx f else plain)"

definition interpreterNotFoundPrefix :: string where
  "interpreterNotFoundPrefix = ''ssm: error=interpreter_not_found interpreter=''"

definition InterpreterNotFoundDiagnostic :: "string \<Rightarrow> string" where
  "InterpreterNotFoundDiagnostic interpreter = interpreterNotFoundPrefix @ interpreter"

definition IsInterpreterNotFoundDiagnostic :: "string \<Rightarrow> bool" where
  "IsInterpreterNotFoundDiagnostic stderr = contains_sub stderr interpreterNotFoundPrefix"

record run_execution_context =
  rx_Cause :: "string option"
  rx_Exit :: int
  rx_Alias :: string
  rx_HasInput :: bool
  rx_Capture :: bool
  rx_Stderr :: string
  rx_Script :: string
  rx_Interpreter :: string

definition ClassifyRunExecution :: "(string \<Rightarrow> string) \<Rightarrow> run_execution_context \<Rightarrow> failure" where
  "ClassifyRunExecution redact x =
     (let d = no_details\<lparr>dt_Cause := rx_Cause x, dt_Alias := rx_Alias x, dt_Exit := rx_Exit x\<rparr>
      in if \<not> rx_HasInput x
         then Classify redact ''remote_command_failed'' (d\<lparr>dt_Message := ''remote command exited non-zero''\<rparr>)
         else if rx_Exit x = 127 \<and> (\<not> rx_Capture x \<or> IsInterpreterNotFoundDiagnostic (rx_Stderr x))
         then Classify redact ''interpreter_not_found''
                (d\<lparr>dt_Message := ''remote script interpreter is unavailable'', dt_Script := rx_Script x,
                   dt_Interpreter := rx_Interpreter x\<rparr>)
         else Classify redact ''remote_script_failed''
                (d\<lparr>dt_Message := ''remote script exited non-zero'', dt_Script := rx_Script x\<rparr>))"

definition ClassifyCheck :: "(string \<Rightarrow> string) \<Rightarrow> failure \<Rightarrow> string \<Rightarrow> failure" where
  "ClassifyCheck redact f stderr =
     (let g = (if fl_Error f = []
               then Classify redact ''remote_command_failed''
                      (no_details\<lparr>dt_Message := ''remote command exited non-zero'', dt_Exit := fl_Exit f\<rparr>)
               else f)
      in if stderr \<noteq> [] then g\<lparr>fl_Hint := redact (trim_space stderr) @ ''; '' @ fl_Hint g\<rparr> else g)"

definition ClassifyHostKeyOperation :: "(string \<Rightarrow> string) \<Rightarrow> go_error option \<Rightarrow> failure" where
  "ClassifyHostKeyOperation redact error =
     (let f = (case FailureFromError error of
                 Some f \<Rightarrow> f
               | None \<Rightarrow> Classify redact ''host_key_operation_failed''
                           (no_details\<lparr>dt_Cause := map_option er_Message error\<rparr>))
      in f\<lparr>fl_Stage := ''host_key'', fl_Exit := 1, fl_processExit := 1, fl_style := HumanHostKeyOperation\<rparr>)"

section \<open>Failures of the synchronization\<close>

definition SyncFailureCause :: "go_error option \<Rightarrow> string" where
  "SyncFailureCause error =
     (case error of
        None \<Rightarrow> []
      | Some err \<Rightarrow>
          if error_is err MissingTokenLink then ''missing_token''
          else
            (case as_link (\<lambda>x. case x of HTTPStatusLink n \<Rightarrow> Some n | _ \<Rightarrow> None) (er_Chain err) of
               Some status \<Rightarrow>
                 if status = 401 \<or> status = 403 then ''auth''
                 else if 500 \<le> status \<and> status \<le> 599 then ''http_5xx''
                 else ''unknown''
             | None \<Rightarrow>
                 if error_is err TLSLink then ''tls''
                 else if error_is err (DNSErrorLink True) \<or> error_is err (DNSErrorLink False) then ''dns''
                 else if (case as_link link_errno (er_Chain err) of
                            Some e \<Rightarrow> e = ECONNREFUSED \<or> e = OtherErrno 10061
                          | None \<Rightarrow> False) then ''connect_refused''
                 else if error_is err DeadlineLink then ''timeout''
                 else
                   (case as_link link_net_error (er_Chain err) of
                      Some t \<Rightarrow> if t then ''timeout'' else ''network''
                    | None \<Rightarrow> if error_is err TransportLink then ''network'' else ''unknown'')))"

definition syncFailureHint :: "string \<Rightarrow> string" where
  "syncFailureHint cause =
     (if cause = ''auth'' then ''sync token rejected; re-authenticate with ssm login, then retry''
      else if cause = ''missing_token'' then ''sync token is not configured; run ssm login, then retry''
      else if cause = ''dns''
      then ''sync server name did not resolve; check the configured server and DNS, or retry explicitly with --offline''
      else if cause = ''connect_refused''
      then ''sync server refused the connection; check the service is running, or retry explicitly with --offline''
      else if cause = ''timeout''
      then ''sync server did not respond in time; retry later or retry explicitly with --offline''
      else if cause = ''tls''
      then ''sync server certificate verification failed; fix the server certificate or trust chain, or retry explicitly with --offline''
      else if cause = ''http_5xx''
      then ''sync server returned a 5xx error; retry later or retry explicitly with --offline''
      else ''fix sync connectivity or retry explicitly with --offline'')"

definition isRemoteSyncFailure :: "go_error \<Rightarrow> bool" where
  "isRemoteSyncFailure err =
     (error_is err ErrRefreshLink \<or> error_is err ErrPushNotSentLink \<or> error_is err ErrPushRejectedLink
      \<or> error_is err ErrPushAmbiguousLink)"

definition syncCauseSummary :: "string \<Rightarrow> string" where
  "syncCauseSummary cause =
     (if cause = ''dns'' then ''sync server name did not resolve''
      else if cause = ''connect_refused'' then ''sync server refused the connection''
      else if cause = ''timeout'' then ''sync server request timed out''
      else if cause = ''tls'' then ''sync server certificate verification failed''
      else if cause = ''auth'' then ''sync server rejected the token''
      else if cause = ''http_5xx'' then ''sync server returned an error''
      else if cause = ''missing_token'' then ''sync token is not configured''
      else if cause = ''network'' then ''sync server connection failed''
      else ''sync failed'')"

definition DescribeSyncFailure :: "go_error option \<Rightarrow> string \<times> string" where
  "DescribeSyncFailure error =
     (let cause0 = SyncFailureCause error;
          cause = (if cause0 = [] then ''unknown'' else cause0);
          message = syncCauseSummary cause
      in (cause,
          case (case error of
                  None \<Rightarrow> None
                | Some err \<Rightarrow> as_link (\<lambda>x. case x of HTTPStatusLink n \<Rightarrow> Some n | _ \<Rightarrow> None) (er_Chain err)) of
            Some status \<Rightarrow> if status > 0 then message @ '' (HTTP '' @ itoa status @ '')'' else message
          | None \<Rightarrow> message))"

definition WithSyncCause :: "(string \<Rightarrow> string) \<Rightarrow> failure \<Rightarrow> go_error \<Rightarrow> failure" where
  "WithSyncCause redact f err =
     (if error_is err ErrConfigurationLink \<or> error_is err ErrConflictLink \<or> error_is err ErrEmptyLedgerDivergenceLink
      then f
      else
        (let cause = SyncFailureCause (Some err)
         in if cause = ''unknown'' \<and> \<not> isRemoteSyncFailure err then f
            else
              (let g = f\<lparr>fl_SyncCause := cause\<rparr>
               in if fl_Error g = ''sync_pull_failed'' then g\<lparr>fl_Hint := redact (syncFailureHint cause)\<rparr> else g)))"

definition ClassifySyncFailure :: "(string \<Rightarrow> string) \<Rightarrow> go_error \<Rightarrow> kind \<Rightarrow> failure" where
  "ClassifySyncFailure redact err fallback =
     (let kind =
        (if error_is err ErrConfigurationLink then ''sync_configuration_failed''
         else if error_is err ErrEmptyLedgerDivergenceLink then ''empty_ledger_sync_conflict''
         else if error_is err ErrConflictLink then ''sync_conflict''
         else fallback)
      in WithSyncCause redact (Classify redact kind (no_details\<lparr>dt_Cause := Some (er_Message err)\<rparr>)) err)"

end
