(* ===== verification/Failure_Props.thy ===== *)
theory Failure_Props
  imports Failure_Contract Dial_Protocol
begin

text \<open>
  What the public failures promise: exits that a caller sees as failures, host-key and authentication failures that are
  never taken for a host that is not reachable yet, and diagnoses of a transfer that no later error hides.
\<close>

section \<open>The table\<close>

definition exit_range :: "int \<Rightarrow> bool" where
  "exit_range n = (1 \<le> n \<and> n \<le> 255)"

definition wrapper_codes :: "string list" where
  "wrapper_codes = [''session_failed'', ''remote_write_failed'', ''remote_read_failed'']"

definition policy_ok :: "failure_policy \<Rightarrow> bool" where
  "policy_ok p =
     (fp_Code p \<noteq> [] \<and> exit_range (fp_Exit p) \<and> (fp_Process p = 0 \<or> exit_range (fp_Process p))
      \<and> (fp_TransportWrapper p \<longrightarrow> fp_Code p \<in> set wrapper_codes))"

lemma find_policy_all:
  assumes "find_policy ts k = Some p" and "\<And>t. t \<in> set ts \<Longrightarrow> list_all (\<lambda>e. Q (snd e)) t"
  shows "Q p"
  using assms
proof (induction ts)
  case (Cons t ts)
  then show ?case
    by (force simp: list_all_iff split: option.splits dest: map_of_SomeD)
qed simp

lemmas policy_checks = policy_def policy_ok_def exit_range_def wrapper_codes_def

lemma policies_1_ok: "list_all (\<lambda>e. policy_ok (snd e)) policies_1"
  by (simp add: policies_1_def policy_checks)

lemma policies_2_ok: "list_all (\<lambda>e. policy_ok (snd e)) policies_2"
  by (simp add: policies_2_def policy_checks)

lemma policies_3_ok: "list_all (\<lambda>e. policy_ok (snd e)) policies_3"
  by (simp add: policies_3_def policy_checks)

lemma policies_4_ok: "list_all (\<lambda>e. policy_ok (snd e)) policies_4"
  by (simp add: policies_4_def policy_checks)

lemma policies_5_ok: "list_all (\<lambda>e. policy_ok (snd e)) policies_5"
  by (simp add: policies_5_def policy_checks)

lemma policies_6_ok: "list_all (\<lambda>e. policy_ok (snd e)) policies_6"
  by (simp add: policies_6_def policy_checks)

lemma policies_7_ok: "list_all (\<lambda>e. policy_ok (snd e)) policies_7"
  by (simp add: policies_7_def policy_checks)

lemma failurePolicies_ok: "failurePolicies k = Some p \<Longrightarrow> policy_ok p"
  unfolding failurePolicies_def
  by (erule find_policy_all)
    (auto simp: policy_tables_def policies_1_ok policies_2_ok policies_3_ok policies_4_ok policies_5_ok policies_6_ok
      policies_7_ok)

lemma internal_policy: "failurePolicies ''internal_failure'' = Some (policy ''internal'' [] [] 1)"
  by (simp add: failurePolicies_def policy_tables_def policies_1_def)

lemma kind_policy_ok: "policy_ok (kind_policy k)"
proof (cases "failurePolicies k")
  case None
  then show ?thesis by (simp add: kind_policy_def internal_policy policy_checks)
next
  case (Some p)
  then show ?thesis by (simp add: kind_policy_def failurePolicies_ok)
qed

text \<open>The codes of the kinds that \<^verbatim>\<open>ClassifySSH\<close> names; all are in the first two parts.\<close>

definition policy_codes :: "(kind \<times> failure_policy) list \<Rightarrow> (kind \<times> string) list" where
  "policy_codes t = map (\<lambda>(k, p). (k, fp_Code p)) t"

lemma map_of_policy_codes: "map_of (policy_codes t) k = map_option fp_Code (map_of t k)"
  by (simp add: policy_codes_def map_of_map)

lemma policy_codes_1: "policy_codes policies_1 =
     [(''internal_failure'', ''internal''), (''unknown_sshctl_command'', ''unknown_command''),
      (''unknown_ssm_command'', ''unknown_command''), (''invalid_request_document'', ''invalid_request''),
      (''master_pass_file_required_create'', ''master_pass_file_required''),
      (''alias_not_found'', ''alias_not_found''), (''sync_conflict'', ''sync_conflict''),
      (''empty_ledger_sync_conflict'', ''sync_conflict''), (''sync_pull_failed'', ''sync_pull_failed''),
      (''stream_sync_pull_failed'', ''sync_pull_failed''), (''transfer_local_read'', ''local_read_failed''),
      (''dial_timeout'', ''dial_timeout''), (''dial_refused'', ''dial_refused''),
      (''dial_network'', ''dial_network''), (''wait_timeout'', ''wait_timeout''),
      (''tunnel_invalid_arguments'', ''tunnel_invalid_arguments''), (''tunnel_bind_failed'', ''tunnel_bind_failed''),
      (''tunnel_remote_bind_refused'', ''tunnel_remote_bind_refused''), (''host_key_unknown'', ''host_key_unknown''),
      (''host_key_mismatch'', ''host_key_mismatch''), (''host_key_type_changed'', ''host_key_type_changed''),
      (''authentication_failed'', ''auth_failed''), (''no_authentication_configured'', ''no_auth_configured''),
      (''session_failed'', ''session_failed''), (''session_limit'', ''session_limit''),
      (''remote_command_failed'', ''remote_failed''), (''interpreter_not_found'', ''interpreter_not_found''),
      (''remote_script_failed'', ''remote_script_failed'')]"
  by (simp add: policy_codes_def policies_1_def policy_def)

lemma policy_codes_2: "policy_codes policies_2 =
     [(''run_interrupted'', ''interrupted''), (''connection_lost'', ''connection_lost''),
      (''handshake_failed'', ''handshake_failed''), (''exec_timed_out'', ''exec_timeout''),
      (''script_syntax_failed'', ''script_syntax_error''), (''host_invalid_arguments'', ''invalid_arguments''),
      (''host_apply_invalid_arguments'', ''invalid_arguments''), (''host_alias_not_found'', ''alias_not_found''),
      (''host_verification_failed'', ''verification_failed''), (''host_push_failed'', ''sync_push_failed''),
      (''host_sync_pull_failed'', ''sync_pull_failed''), (''host_vault_failed'', ''vault_error''),
      (''host_authentication_required'', ''auth_required''),
      (''host_apply_authentication_required'', ''auth_required''),
      (''host_confirmation_required'', ''confirmation_required''), (''host_already_exists'', ''host_exists''),
      (''host_invalid_alias'', ''invalid_alias''), (''host_saved_key_not_found'', ''key_not_found''),
      (''host_invalid_address'', ''invalid_host''), (''host_invalid_user'', ''invalid_user''),
      (''host_invalid_group'', ''invalid_group''), (''host_password_file_failed'', ''password_file_error''),
      (''host_key_file_failed'', ''key_file_error''), (''host_invalid_key'', ''invalid_key''),
      (''host_key_conflict'', ''key_conflict''), (''host_transaction_failed'', ''transaction_error''),
      (''host_internal_failure'', ''internal''), (''panic_failure'', ''internal''),
      (''generic_failure'', ''internal'')]"
  by (simp add: policy_codes_def policies_2_def policy_def)

fun find_code :: "(kind \<times> failure_policy) list list \<Rightarrow> kind \<Rightarrow> string option" where
  "find_code [] k = None"
| "find_code (t # ts) k = (case map_of (policy_codes t) k of Some c \<Rightarrow> Some c | None \<Rightarrow> find_code ts k)"

lemma find_code: "find_code ts k = map_option fp_Code (find_policy ts k)"
  by (induction ts) (auto simp: map_of_policy_codes split: option.splits)

lemma kind_code: "find_code policy_tables k = Some c \<Longrightarrow> fp_Code (kind_policy k) = c"
  by (auto simp: find_code kind_policy_def failurePolicies_def)

lemma code_of_kinds:
  "fp_Code (kind_policy ''host_key_type_changed'') = ''host_key_type_changed''"
  "fp_Code (kind_policy ''host_key_unknown'') = ''host_key_unknown''"
  "fp_Code (kind_policy ''host_key_mismatch'') = ''host_key_mismatch''"
  "fp_Code (kind_policy ''no_authentication_configured'') = ''no_auth_configured''"
  "fp_Code (kind_policy ''authentication_failed'') = ''auth_failed''"
  "fp_Code (kind_policy ''handshake_failed'') = ''handshake_failed''"
  "fp_Code (kind_policy ''dial_refused'') = ''dial_refused''"
  "fp_Code (kind_policy ''dial_timeout'') = ''dial_timeout''"
  "fp_Code (kind_policy ''dial_network'') = ''dial_network''"
  "fp_Code (kind_policy ''connection_lost'') = ''connection_lost''"
  "fp_Code (kind_policy ''session_limit'') = ''session_limit''"
  "fp_Code (kind_policy ''session_failed'') = ''session_failed''"
  "fp_Code (kind_policy ''internal_failure'') = ''internal''"
  by (rule kind_code, simp add: policy_tables_def policy_codes_1 policy_codes_2)+

section \<open>Exits\<close>

definition failure_ok :: "failure \<Rightarrow> bool" where
  "failure_ok f =
     (\<not> fl_OK f \<and> fl_Error f \<noteq> [] \<and> exit_range (fl_Exit f) \<and> (fl_processExit f = 0 \<or> exit_range (fl_processExit f)))"

fun link_ok :: "error_link \<Rightarrow> bool" where
  "link_ok (ClassifiedLink f) = failure_ok f"
| "link_ok (CarrierLink f) = failure_ok f"
| "link_ok (ExitErrorLink n) = exit_range n"
| "link_ok _ = True"

definition error_ok :: "go_error \<Rightarrow> bool" where
  "error_ok err = list_all link_ok (er_Chain err)"

text \<open>What the shell that started the program sees: the exit itself, and not success.\<close>

definition shown_as_failure :: "platform \<Rightarrow> int \<Rightarrow> bool" where
  "shown_as_failure pf n = (observed_status pf n = n \<and> n \<noteq> 0)"

lemma exit_range_shown: "exit_range n \<Longrightarrow> shown_as_failure pf n"
  by (cases pf) (auto simp: exit_range_def shown_as_failure_def)

lemma as_linkD: "as_link f xs = Some y \<Longrightarrow> \<exists>x\<in>set xs. f x = Some y"
  by (induction xs) (auto split: option.splits)

lemma as_link_None: "as_link f xs = None \<longleftrightarrow> (\<forall>x\<in>set xs. f x = None)"
  by (induction xs) (auto split: option.splits)

lemma link_classifiedD: "link_classified x = Some f \<Longrightarrow> x = ClassifiedLink f"
  by (cases x) auto

lemma link_carrierD: "link_carrier x = Some f \<Longrightarrow> x = CarrierLink f"
  by (cases x) auto

lemma link_exitD: "link_exit x = Some n \<Longrightarrow> x = ExitErrorLink n"
  by (cases x) auto

lemma classified_ok: "error_ok err \<Longrightarrow> as_classified err = Some f \<Longrightarrow> failure_ok f"
  by (auto simp: error_ok_def as_classified_def list_all_iff dest!: as_linkD link_classifiedD)

lemma carrier_ok: "error_ok err \<Longrightarrow> as_link link_carrier (er_Chain err) = Some f \<Longrightarrow> failure_ok f"
  by (auto simp: error_ok_def list_all_iff dest!: as_linkD link_carrierD)

lemma exit_status_ok: "error_ok err \<Longrightarrow> as_link link_exit (er_Chain err) = Some n \<Longrightarrow> exit_range n"
  by (auto simp: error_ok_def list_all_iff dest!: as_linkD link_exitD)

lemma Classify_fields:
  "fl_OK (Classify redact k d) = False"
  "fl_Error (Classify redact k d) = fp_Code (kind_policy k)"
  "fl_Exit (Classify redact k d) = (if dt_Exit d \<noteq> 0 then dt_Exit d else fp_Exit (kind_policy k))"
  "fl_processExit (Classify redact k d) =
     (if fp_Process (kind_policy k) = 0 then fl_Exit (Classify redact k d) else fp_Process (kind_policy k))"
  "fl_transportWrapper (Classify redact k d) = fp_TransportWrapper (kind_policy k)"
  "fl_Outcome (Classify redact k d) = fp_Outcome (kind_policy k)"
  "fl_PastKeyExchange (Classify redact k d) = False"
  by (simp_all add: Classify_def Let_def zero_failure_def)

lemma Classify_ok: "dt_Exit d = 0 \<or> exit_range (dt_Exit d) \<Longrightarrow> failure_ok (Classify redact k d)"
  using kind_policy_ok[of k] by (auto simp: failure_ok_def Classify_fields policy_ok_def)

lemma apply_context_fields:
  "fl_OK (apply_context err cx f) = fl_OK f"
  "fl_Error (apply_context err cx f) = fl_Error f"
  "fl_transportWrapper (apply_context err cx f) = fl_transportWrapper f"
  "fl_PastKeyExchange (apply_context err cx f) = fl_PastKeyExchange f"
  "fl_Outcome (apply_context err cx f) = fl_Outcome f"
  by (simp_all add: apply_context_def Let_def)

lemma apply_context_ok: "failure_ok f \<Longrightarrow> failure_ok (apply_context err cx f)"
  by (auto simp: failure_ok_def apply_context_def Let_def exit_range_def)

lemma ClassifySSH_ok: "error_ok err \<Longrightarrow> failure_ok (ClassifySSH pf redact (Some err) cx)"
  by (auto simp: ClassifySSH_def Let_def no_details_def split: option.splits prod.splits
      intro!: apply_context_ok Classify_ok classified_ok)

lemma ProcessExit_range: "failure_ok f \<Longrightarrow> exit_range (ProcessExit f)"
  by (auto simp: failure_ok_def ProcessExit_def)

lemma ExitForError_range: "error_ok err \<Longrightarrow> exit_range (ExitForError pf redact (Some err))"
  using ProcessExit_range[OF ClassifySSH_ok[of err pf redact no_context]]
  by (auto simp: ExitForError_def Let_def split: option.splits dest: exit_status_ok classified_ok intro: ProcessExit_range)

lemma FailureFromError_ok: "error_ok err \<Longrightarrow> FailureFromError (Some err) = Some f \<Longrightarrow> failure_ok f"
  by (auto simp: FailureFromError_def split: option.splits dest: classified_ok carrier_ok)

text \<open>The fields that the callers set afterwards do not matter, or are set to an exit.\<close>

lemma failure_ok_update [simp]:
  "failure_ok (f\<lparr>fl_Stage := x\<rparr>) = failure_ok f"
  "failure_ok (f\<lparr>fl_Hint := x\<rparr>) = failure_ok f"
  "failure_ok (f\<lparr>fl_Via := x\<rparr>) = failure_ok f"
  "failure_ok (f\<lparr>fl_humanProjection := y\<rparr>) = failure_ok f"
  "failure_ok (named redact cx f) = failure_ok f"
  by (simp_all add: failure_ok_def named_def)

lemma failure_ok_exit [simp]:
  "failure_ok f \<Longrightarrow> exit_range n \<Longrightarrow> failure_ok (f\<lparr>fl_Exit := n, fl_processExit := n\<rparr>)"
  "failure_ok f \<Longrightarrow> exit_range n \<Longrightarrow> failure_ok (f\<lparr>fl_Stage := x, fl_Exit := n, fl_processExit := n\<rparr>)"
  by (simp_all add: failure_ok_def)

lemma failure_ok_carried [simp]:
  "failure_ok f \<Longrightarrow> exit_range n \<Longrightarrow>
     failure_ok (f\<lparr>fl_Via := x, fl_Exit := n, fl_processExit := n, fl_humanProjection := y\<rparr>)"
  "failure_ok f \<Longrightarrow> exit_range n \<Longrightarrow>
     failure_ok (f\<lparr>fl_Stage := x, fl_Exit := n, fl_processExit := n, fl_humanProjection := y\<rparr>)"
  by (simp_all add: failure_ok_def)

lemma ClassifyTransferOperation_ok:
  assumes err: "error_ok err" and carried: "fl_Error carried = [] \<or> failure_ok carried"
  shows "failure_ok (ClassifyTransferOperation pf redact (Some err) cx carried)"
proof -
  note S = ClassifySSH_ok[OF err, of pf redact "cx\<lparr>sx_ExecPhase := True\<rparr>"]
  note E = ExitForError_range[OF err, of pf redact]
  show ?thesis
    using S E carried unfolding ClassifyTransferOperation_def Let_def by (cases "fl_Error carried = []") simp_all
qed

lemma ClassifyDownload_ok:
  assumes err: "error_ok err"
  shows "failure_ok (ClassifyDownload pf redact (Some err) cx)"
proof -
  note S = ClassifySSH_ok[OF err, of pf redact "cx\<lparr>sx_Stage := [], sx_ExecPhase := True\<rparr>"]
  note E = ExitForError_range[OF err, of pf redact]
  show ?thesis
    using S E FailureFromError_ok[OF err]
    unfolding ClassifyDownload_def Let_def by (cases "FailureFromError (Some err)") simp_all
qed

lemma ClassifyRunExecution_ok: "rx_Exit x = 0 \<or> exit_range (rx_Exit x) \<Longrightarrow> failure_ok (ClassifyRunExecution redact x)"
  by (auto simp: ClassifyRunExecution_def Let_def no_details_def intro!: Classify_ok)

lemma AggregateResultExit_zero: "AggregateResultExit rs = 0 \<longleftrightarrow> list_all rs_OK rs"
  by (induction rs) (auto simp: ResultExit_def)

text \<open>
  C18. Every failure exits as a failure. Whatever the error is, whose carried failures and remote exit statuses are
  themselves between 1 and 255, the exit of the process for it and both exits of its classification (for a connection,
  for an upload with its carried diagnosis, for a download) are between 1 and 255, so that the shell sees the same
  number and never a success; and a command over several hosts exits with 0 exactly when every result is good.
\<close>

theorem failures_exit_as_failures:
  assumes "error_ok err" and "fl_Error carried = [] \<or> failure_ok carried"
  shows "shown_as_failure pf (ExitForError pf redact (Some err))
    \<and> list_all (\<lambda>f. failure_ok f \<and> shown_as_failure pf (fl_Exit f) \<and> shown_as_failure pf (ProcessExit f))
        [ClassifySSH pf redact (Some err) cx, ClassifyTransferOperation pf redact (Some err) cx carried,
         ClassifyDownload pf redact (Some err) cx]
    \<and> (AggregateResultExit rs = 0 \<longleftrightarrow> list_all rs_OK rs)"
proof -
  have ok: "failure_ok f \<Longrightarrow> failure_ok f \<and> shown_as_failure pf (fl_Exit f) \<and> shown_as_failure pf (ProcessExit f)" for f
    using ProcessExit_range[of f] by (simp add: exit_range_shown) (simp add: failure_ok_def exit_range_shown)
  show ?thesis
    using ok[OF ClassifySSH_ok] ok[OF ClassifyTransferOperation_ok] ok[OF ClassifyDownload_ok] assms
    by (simp add: exit_range_shown ExitForError_range AggregateResultExit_zero)
qed

theorem failures_exit_as_failures_witness:
  "shown_as_failure Posix
     (ExitForError Posix (\<lambda>x. x) (Some \<lparr>er_Message = ''Process exited with status 3'', er_Chain = [ExitErrorLink 3]\<rparr>))"
  using failures_exit_as_failures
    [of "\<lparr>er_Message = ''Process exited with status 3'', er_Chain = [ExitErrorLink 3]\<rparr>" zero_failure Posix "\<lambda>x. x"]
  by (simp add: error_ok_def exit_range_def zero_failure_def)

text \<open>
  The bound on the remote status is needed: SSH transmits 32 bits, the status goes unchanged to \<^verbatim>\<open>os.Exit\<close>, and on POSIX
  systems a status of 256 reaches the shell as 0, a success.
\<close>

lemma large_remote_status_looks_like_success:
  "ResultExit \<lparr>rs_OK = False, rs_Exit = 256\<rparr> = 256"
  "ExitForError pf redact (Some \<lparr>er_Message = m, er_Chain = [ExitErrorLink 256]\<rparr>) = 256"
  "observed_status Posix 256 = 0"
  by (simp_all add: ResultExit_def ExitForError_def)

section \<open>Host keys, credentials and retries\<close>

fun host_key_link :: "error_link \<Rightarrow> bool" where
  "host_key_link (KeyTypeChangedLink _) = True"
| "host_key_link (KeyErrorLink _) = True"
| "host_key_link _ = False"

definition host_key_codes :: "string list" where
  "host_key_codes = [''host_key_type_changed'', ''host_key_unknown'', ''host_key_mismatch'']"

text \<open>The words by which the classification recognizes a refusal of the keys or of the credentials.\<close>

definition refusal_words :: "string list" where
  "refusal_words =
     [''host key'', ''knownhosts'', ''no authentication configured'', ''unable to authenticate'',
      ''no supported methods remain'', ''permission denied'', ''authentication failed'']"

definition retry_view :: "failure \<Rightarrow> dial_failure" where
  "retry_view f =
     \<lparr>df_Error = fl_Error f, df_Message = fl_Message f, df_PastKeyExchange = fl_PastKeyExchange f\<rparr>"

definition security_kinds :: "kind list" where
  "security_kinds =
     [''host_key_type_changed'', ''host_key_unknown'', ''host_key_mismatch'', ''no_authentication_configured'',
      ''authentication_failed'']"

lemma host_key_linkD: "host_key_link x \<Longrightarrow> link_type_changed x \<noteq> None \<or> link_key_error x \<noteq> None"
  by (cases x) simp_all

lemma ssh_kind_host_key:
  assumes "list_ex host_key_link (er_Chain err)"
  shows "fst (ssh_kind pf err cx) \<in> set [''host_key_type_changed'', ''host_key_unknown'', ''host_key_mismatch'']"
proof -
  obtain x where "x \<in> set (er_Chain err)" "host_key_link x" using assms by (auto simp: list_ex_iff)
  then have "as_link link_type_changed (er_Chain err) \<noteq> None \<or> as_link link_key_error (er_Chain err) \<noteq> None"
    unfolding as_link_None using host_key_linkD by blast
  then show ?thesis by (auto simp: ssh_kind_def Let_def)
qed

lemma ssh_kind_refused:
  assumes "list_ex (contains_sub (to_lower (er_Message err))) refusal_words"
  shows "fst (ssh_kind pf err cx) \<in> set security_kinds"
  using assms by (auto simp: ssh_kind_def Let_def refusal_words_def security_kinds_def)

lemma ClassifySSH_code:
  assumes "as_classified err = None" and "fst (ssh_kind pf err cx) \<noteq> ''internal_failure''"
  shows "fl_Error (ClassifySSH pf redact (Some err) cx) = fp_Code (kind_policy (fst (ssh_kind pf err cx)))"
  using assms by (cases "ssh_kind pf err cx") (simp add: ClassifySSH_def Let_def apply_context_fields Classify_fields)

lemma security_codes_not_retryable:
  assumes "k \<in> set security_kinds"
  shows "\<not> RetryableTransportFailure \<lparr>df_Error = fp_Code (kind_policy k), df_Message = m, df_PastKeyExchange = b\<rparr>"
  using assms by (auto simp: security_kinds_def code_of_kinds RetryableTransportFailure_def CodeHandshakeFailed_def)

text \<open>
  C17. A security failure is never taken for a host that is not reachable yet. An error that wraps a host-key error is
  classified as one of the three host-key failures, whatever its text, the stage and the platform are; and an error whose
  failure allows an automatic retry wraps no host-key error and its text speaks neither of a host key nor of a refusal of
  the credentials.
\<close>

theorem retries_exclude_security_failures:
  assumes "as_classified err = None"
  shows "(list_ex host_key_link (er_Chain err) \<longrightarrow>
      fl_Error (ClassifySSH pf redact (Some err) cx) \<in> set host_key_codes)
    \<and> (RetryableTransportFailure (retry_view (ClassifySSH pf redact (Some err) cx)) \<longrightarrow>
      \<not> list_ex host_key_link (er_Chain err)
      \<and> \<not> list_ex (contains_sub (to_lower (er_Message err))) refusal_words)"
proof -
  let ?k = "fst (ssh_kind pf err cx)" and ?f = "ClassifySSH pf redact (Some err) cx"
  have code: "?k \<in> set security_kinds \<Longrightarrow> fl_Error ?f = fp_Code (kind_policy ?k)"
    using ClassifySSH_code[OF assms] by (auto simp: security_kinds_def)
  have H: "list_ex host_key_link (er_Chain err) \<Longrightarrow> ?k \<in> set security_kinds \<and> fl_Error ?f \<in> set host_key_codes"
    using ssh_kind_host_key[of err pf cx] code by (auto simp: security_kinds_def host_key_codes_def code_of_kinds)
  have R: "?k \<in> set security_kinds \<Longrightarrow> \<not> RetryableTransportFailure (retry_view ?f)"
    unfolding retry_view_def using security_codes_not_retryable code by simp
  show ?thesis using H R ssh_kind_refused[of err pf cx] by blast
qed

theorem retries_exclude_security_failures_witness:
  "fl_Error (ClassifySSH Posix (\<lambda>x. x)
       (Some \<lparr>er_Message = ''ssh: handshake failed: i/o timeout'', er_Chain = [KeyTypeChangedLink ''ssh-rsa'', KeyErrorLink 1]\<rparr>)
       no_context) \<in> set host_key_codes"
  using retries_exclude_security_failures
    [of "\<lparr>er_Message = ''ssh: handshake failed: i/o timeout'', er_Chain = [KeyTypeChangedLink ''ssh-rsa'', KeyErrorLink 1]\<rparr>"
      Posix "\<lambda>x. x" no_context]
  by (simp add: as_classified_def)

text \<open>
  A read that times out on an established session, after the command was sent, is reported as a host that cannot be dialed:
  the typed errors are left out there, but the test for a timeout of the network that follows is not.
\<close>

lemma established_timeout_is_reported_as_a_dial:
  assumes "er_Message err = ''read tcp 192.0.2.2:1->192.0.2.1:22: read: connection timed out''"
    and "er_Chain err = [OpErrorLink ''read'' True, OtherLink, ErrnoLink ETIMEDOUT]"
    and "sx_ExecPhase cx"
  shows "fl_Error (ClassifySSH pf redact (Some err) cx) = ''dial_timeout''"
proof -
  have "fst (ssh_kind pf err cx) = ''dial_timeout''"
    using assms
    by (simp add: ssh_kind_def transport_kind_def typed_dial_kind_def net_timeout_def isHandshakeError_def Let_def
        to_lower_def ascii_lower_def)
  moreover have "as_classified err = None" using assms by (simp add: as_classified_def)
  ultimately show ?thesis using ClassifySSH_code[of err pf cx redact] by (simp add: code_of_kinds)
qed

section \<open>Diagnoses of a transfer\<close>

definition stage_codes :: "string list" where
  "stage_codes = [''handshake_failed'', ''connection_lost'', ''exec_timeout'', ''proxy_jump_invalid'']"

lemma policyOwnsStage_codes: "policyOwnsStage code \<longleftrightarrow> code \<in> set stage_codes"
  by (simp add: policyOwnsStage_def stage_codes_def)

lemma code_nonempty: "fp_Code (kind_policy k) \<noteq> []"
  using kind_policy_ok[of k] by (simp add: policy_ok_def)

lemma wrapper_code: "fp_TransportWrapper (kind_policy k) \<Longrightarrow> fp_Code (kind_policy k) \<in> set wrapper_codes"
  using kind_policy_ok[of k] by (simp add: policy_ok_def)

definition diagnosis_kept :: "kind \<Rightarrow> failure \<Rightarrow> bool" where
  "diagnosis_kept k f =
     (fl_Error f = fp_Code (kind_policy k)
      \<or> fp_Code (kind_policy k) \<in> set wrapper_codes \<and> fl_Error f \<in> set stage_codes)"

lemma upload_diagnosis:
  "diagnosis_kept k (ClassifyTransferOperation pf redact (Some err) cx (Classify redact k d))"
  using code_nonempty[of k] wrapper_code[of k]
  by (simp add: diagnosis_kept_def ClassifyTransferOperation_def Let_def Classify_fields policyOwnsStage_codes)

lemma download_diagnosis:
  assumes "as_classified err = None" "as_link link_carrier (er_Chain err) = Some (Classify redact k d)"
    and "isDownloadOutcomeFailure (Classify redact k d)"
  shows "diagnosis_kept k (ClassifyDownload pf redact (Some err) cx)"
  using assms wrapper_code[of k]
  by (simp add: diagnosis_kept_def ClassifyDownload_def FailureFromError_def Let_def Classify_fields policyOwnsStage_codes
      named_def)


lemma code_of_integrity_mismatch: "fp_Code (kind_policy ''transfer_integrity_mismatch'') = ''integrity_failed''"
  by (rule kind_code)
    (simp add: policy_tables_def policy_codes_1 policy_codes_2, simp add: policy_codes_def policy_def
      policies_3_def policies_4_def policies_5_def policies_6_def policies_7_def)


end
