(* ===== verification/Spec2Isabelle.thy ===== *)
theory Spec2Isabelle
  imports Alias_Resolution Host_Mutation_Props Publication_Props Service_History Shell_Quoting Session_Pool Host_Key_Props Windows_Update_Props Security_Contract Self_Update_Props Unix_Update_Props Resume_Props Directory_Transfer Failure_Props
begin

text \<open>
  A verification development for \<^bold>\<open>ssm\<close>, a connection manager for SSH written in Go. It models the parts of the
  program whose mistakes lose data, leak secrets or run foreign code, and proves what keeps them from doing so.

  \<^bold>\<open>The program.\<close> One user has several machines. Each keeps an encrypted \<^emph>\<open>vault\<close> (hosts and saved keys) in a
  private directory; an optional sync service stores one opaque blob per account. A local change goes into the
  vault and, as a \<^emph>\<open>pending mutation\<close>, into a ledger inside it. Publication replays selected mutations on the vault
  published last, encrypts the projection, records a durable \<^emph>\<open>publishing intent\<close> and sends one conditional request.
  Pull, refresh and the background process replace the vault by a download. Beside the inventory, the program connects
  through chains of hosts, checks host keys, runs quoted commands, transfers files and trees, and updates its own
  executable.

  \<^bold>\<open>Theories and code\<close> (paths under \<^verbatim>\<open>src/\<close>; a definition has the name of the function it models).
  \<^item> \<open>Ssm_Prelude\<close>, \<open>Named_Lists\<close>: Go's \<^verbatim>\<open>strings\<close>, \<^verbatim>\<open>encoding/binary\<close>, \<^verbatim>\<open>slices\<close> and \<^verbatim>\<open>sort\<close> as used here, and slices
    addressed by name. The locale \<open>keyed_store\<close> is the contract of such a slice (what a lookup returns after an
    insert or removal); \<open>Inventory_Data\<close> interprets it for connections and for keys.
  \<^item> \<open>Vault_Blob\<close>: \<^verbatim>\<open>internal/vault/vault.go\<close>, the envelope of version 1 and 2 and the authenticated generation.
  \<^item> \<open>Inventory_Data\<close>, \<open>Alias_Resolution\<close>: \<^verbatim>\<open>internal/config/config.go\<close>, \<^verbatim>\<open>redirects.go\<close>, \<^verbatim>\<open>jumpchain.go\<close>: data, merge,
    aliases and jump chains.
  \<^item> \<open>Private_Store\<close>, \<open>Vault_Store\<close>: \<^verbatim>\<open>internal/config/writefile.go\<close>, \<^verbatim>\<open>filelock.go\<close>, \<^verbatim>\<open>settings.go\<close>, \<^verbatim>\<open>generation.go\<close>: the
    private directory as a record of files in a \<^emph>\<open>world\<close> that also holds the remote answers still to come, the trace of
    events and the interference of other processes between two steps; settings, generation mark, load and save.
  \<^item> \<open>Ledger\<close>, \<open>Ledger_Replay\<close>, \<open>Ledger_Publication\<close>, \<open>Host_Mutation\<close>, \<open>Host_Mutation_Props\<close>, \<open>Publishing_Intent\<close>,
    \<open>Publication\<close>, \<open>Publication_Props\<close>: \<^verbatim>\<open>internal/inventorytransaction/transaction.go\<close>: the ledger with its dependency
    closure, preflight and projection; candidates of host changes and imports; the intent file with its defensive reader;
    publish, finalize and reconcile.
  \<^item> \<open>Cloud_Client\<close>, \<open>Sync_State\<close>, \<open>Sync_Transaction\<close>, \<open>Sync_Safety\<close>, \<open>Sync_Properties\<close>: \<^verbatim>\<open>internal/cloud/cloud.go\<close> and
    \<^verbatim>\<open>internal/synctransaction\<close>: requests and their outcomes, the schedule, superseded identities, refresh, sync, pull,
    background process, adoption and the sending of a publication.
  \<^item> \<open>Sync_Server\<close>, \<open>Server_Props\<close>, \<open>Service_History\<close>: \<^verbatim>\<open>internal/syncserver/server.go\<close>: handlers, accounts and tokens, and
    the service as a step relation under any interleaving of requests, half-finished logins and restarts. The locale
    \<open>versioned_cell\<close> states what one conditional write promises; it is interpreted on the steps of the service.
  \<^item> \<open>Remote_Command\<close>, \<open>Shell_Quoting\<close>: \<^verbatim>\<open>internal/ssh/command.go\<close>, \<^verbatim>\<open>script.go\<close> and the redaction in \<^verbatim>\<open>run.go\<close>: text for a
    remote shell, with a reference reader of POSIX quoting.
  \<^item> \<open>Dial_Protocol\<close>, \<open>Session_Pool\<close>: \<^verbatim>\<open>internal/ssh/jump.go\<close>, \<^verbatim>\<open>auth.go\<close>, \<^verbatim>\<open>wait.go\<close>, \<^verbatim>\<open>pool.go\<close>, \<^verbatim>\<open>keepalive.go\<close>: a dial and its
    abort as a step relation, the retry decision, pooled clients and the keepalive.
  \<^item> \<open>Host_Keys\<close>, \<open>Field_Text\<close>, \<open>Host_Key_Props\<close>: \<^verbatim>\<open>internal/ssh/hostkey.go\<close>, \<^verbatim>\<open>hostkey_types.go\<close>: status of an observed key and the
    edits of \<^verbatim>\<open>known_hosts\<close>.
  \<^item> \<open>Replacement_Record\<close>, \<open>Security_Contract\<close>, \<open>Windows_Replacement\<close>, \<open>Windows_Recovery\<close>, \<open>Windows_Update\<close>,
    \<open>Windows_Update_Props\<close>: \<^verbatim>\<open>internal/update/replace_windows.go\<close>, \<^verbatim>\<open>replace_security_windows.go\<close>, \<^verbatim>\<open>recovery.go\<close>: the
    ownership record and its encoding, the binding of security descriptors, the replacement of the running executable,
    and its recovery. Every system call is a step that a \<^emph>\<open>fate\<close> lets succeed, fail, or be the last one of the process.
  \<^item> \<open>Self_Update\<close>, \<open>Self_Update_Props\<close>: \<^verbatim>\<open>internal/update/update.go\<close>, \<^verbatim>\<open>migration.go\<close>, \<^verbatim>\<open>internal/releaseasset/targets.go\<close> and
    \<^verbatim>\<open>runUpdate\<close> of \<^verbatim>\<open>cmd/ssm/main.go\<close>: versions, selection of a release, download and verification, the review of a
    major update.
  \<^item> \<open>Interfered_Steps\<close>, \<open>Unix_Replacement\<close>, \<open>Unix_Update_Props\<close>: \<^verbatim>\<open>internal/update/replace_other.go\<close>,
    \<^verbatim>\<open>replace_commit_unix.go\<close>, \<^verbatim>\<open>replace_commit_copy_unix.go\<close>: the replacement on Unix between the actions of other
    processes. The locale \<open>unix_commit\<close> is what \<open>replaceExecutable\<close> relies on, interpreted for both commit primitives.

  \<^item> \<open>Interfered_Steps\<close>, \<open>Remote_Transfer\<close>, \<open>Transfer_Props\<close>, \<open>Resumable_Upload\<close>, \<open>Resume_Props\<close>, \<open>Host_Copy\<close>,
    \<open>Local_Downloads\<close>, \<open>Directory_Transfer\<close>: \<^verbatim>\<open>internal/ssh/filecopy.go\<close>, \<^verbatim>\<open>resume.go\<close>, \<^verbatim>\<open>copy.go\<close>,
    \<^verbatim>\<open>download_staging.go\<close>, \<^verbatim>\<open>dirsync.go\<close>: a put, a resumable put, a copy between two hosts, a download of a file and of
    a tree. The shell text sent to the remote host is a computation of one step per command of the script, over the
    files the script names; what the connection delivers of the stream and of the answers is chosen freely.

  \<^item> \<open>Failure_Policies\<close>, \<open>Failure_Contract\<close>, \<open>Failure_Props\<close>: \<^verbatim>\<open>internal/machinecontract/contract.go\<close>,
    \<^verbatim>\<open>sync_cause.go\<close>, \<^verbatim>\<open>errno_windows.go\<close>: the table of public failure classes, the classification of errors and the exit
    of the process. An error is its text with the list of the errors it wraps.

  \<^bold>\<open>What the lemmas show.\<close> Each component has lemmas on the result and the frame of every operation; the properties rest on
  them. For the inventory: recorded deltas replay exactly, \<open>applyMutation\<close> refines an update of two finite maps, and every
  accepted scope leaves a consistent ledger. For synchronization: \<open>emits P\<close> says which events a run may add, one lemma per
  operation, so that the safety of a command is the composition of its calls. For the service: the stored versions form a
  chain. For the replacement: \<open>recoverable\<close> is kept by every system call of the replacement and of every recovery, whatever
  its fate; so a theorem on it holds for a stop at any point. For the Unix replacement and the transfers: \<open>valid\<close> gives, for
  every operation and whatever the fates and the other actions are, an invariant of each stop and a postcondition of each
  end, with one rule per way of composing. For the shell: reading back what was quoted gives the words.

  \<^bold>\<open>Modelling decisions.\<close> Strings and bytes are lists; the generation is a 64-bit word and saturates as the code does; the
  integers of a version are bounded by that of the platform, 64 bits. Errors are values of a sum or option type, with the
  classes the callers distinguish and without their texts. What is not code of the repository is a parameter: the
  cryptography, JSON, the clock, random bytes, the transport, \<^verbatim>\<open>known_hosts\<close> parsing of the library, the system calls of
  Windows; what a theorem needs of it is a hypothesis with a witness. Loops are structural or have a
  measure (\<open>jump_loop\<close> by the names not yet seen, \<open>acquire_loop\<close> by the time that is left). Fuel is used twice: \<open>collect\<close>
  gets one more than its target, enough because dependencies point to smaller indexes (\<open>dom_collect\<close>), and
  \<open>consumeUniqueJSONValue\<close> twice the number of tokens plus two (\<open>consume_fuel\<close>). A list of fates that is too short means that
  the remaining calls succeed, and the theorems quantify over all lists.

  \<^bold>\<open>Not modelled.\<close> Transfers over SFTP and direct copies (\<^verbatim>\<open>internal/ssh/sftp_transfer.go\<close>, \<^verbatim>\<open>copy_direct.go\<close>); the archive
  programs of a tree (a parameter) and the wording of the resume commands;
  the redaction of texts in failures (a parameter) and their rendering (\<^verbatim>\<open>render.go\<close>, \<^verbatim>\<open>human_failures.go\<close>, \<^verbatim>\<open>stream.go\<close> of
  \<^verbatim>\<open>internal/machinecontract\<close>); the command line and its prompts (\<^verbatim>\<open>cmd/ssm\<close>, except \<^verbatim>\<open>runUpdate\<close>); the
  verification runner of the repository (\<^verbatim>\<open>cmd/verify\<close>), which orchestrates external programs; the
  tier of the Windows replacement that enables privileges for foreign owners; the canonicalization of paths; terminal
  input and output.
\<close>

end
